(* ===== verification/Prelude.thy ===== *)
theory Prelude
  imports Main "HOL-Library.Word" "HOL-Library.Monad_Syntax"
begin

text \<open>
  Shared vocabulary of the development: the fixed width integer types of the sources
  (\<^verbatim>\<open>src/include/nebula/common/utils/Types.h\<close>,
  \<^verbatim>\<open>src/include/nebula/catalog/element/type.h\<close>), the signed comparisons C++ performs on
  them, and the generic list, option and word lemmas that the component theories use.
  A machine integer is a word; a signed C++ integer is read with \<open>sint\<close>, an unsigned one
  with \<open>uint\<close> or \<open>unat\<close>.
\<close>

section \<open>Machine integer types\<close>

type_synonym byte = "8 word"
type_synonym int8 = "8 word"
type_synonym int16 = "16 word"
type_synonym int32 = "32 word"
type_synonym int64 = "64 word"
type_synonym uint16 = "16 word"
type_synonym uint32 = "32 word"
type_synonym uint64 = "64 word"

text \<open>Identifier types, as \<^verbatim>\<open>Types.h\<close> and \<^verbatim>\<open>type.h\<close> declare them.\<close>

type_synonym NodeID = int64
type_synonym EdgeRank = int64
type_synonym GraphID = int32
type_synonym EdgeTypeID = int32
type_synonym NodeTypeID = int16
type_synonym BucketID = uint16
type_synonym NodeSeqID = uint32

named_theorems codec_simps \<open>equations that unfold the byte level writers and readers\<close>
named_theorems read_iff \<open>inversion rules for successful option-valued computations\<close>

section \<open>Options\<close>

lemma bind_Some_iff [read_iff]:
  "Option.bind m f = Some y \<longleftrightarrow> (\<exists>x. m = Some x \<and> f x = Some y)"
  by (cases m) auto

lemma if_Some_iff [read_iff]:
  "(if b then m else None) = Some y \<longleftrightarrow> b \<and> m = Some y"
  by auto

section \<open>Lists\<close>

lemma take_append_length [simp]: "length xs = n \<Longrightarrow> take n (xs @ ys) = xs"
  by simp

lemma drop_append_length [simp]: "length xs = n \<Longrightarrow> drop n (xs @ ys) = ys"
  by simp

lemma length_concat_const:
  "(\<And>x. x \<in> set xs \<Longrightarrow> length (f x) = n) \<Longrightarrow> length (concat (map f xs)) = n * length xs"
  by (induction xs) auto

lemma sum_list_const:
  "(\<And>x. x \<in> set xs \<Longrightarrow> f x = n) \<Longrightarrow> sum_list (map f xs) = n * length xs"
  for n :: nat
  by (induction xs) auto

section \<open>Signed words\<close>

lemma sint_eq_iff: "sint a = sint b \<longleftrightarrow> a = b" for a b :: "'a::len word"
  by (metis signed_word_eqI)

lemma sint_less_linear:
  "a \<noteq> b \<Longrightarrow> \<not> sint a < sint b \<Longrightarrow> sint b < sint a" for a b :: "'a::len word"
  using sint_eq_iff [of a b] by linarith

lemma signed_bounds: "- (2 ^ (LENGTH('a) - 1)) \<le> sint w" "sint w < 2 ^ (LENGTH('a) - 1)"
  for w :: "'a::len word"
  by (simp_all add: sint_greater_eq sint_less)

lemma sint_of_int_id:
  "- (2 ^ (LENGTH('a) - 1)) \<le> i \<Longrightarrow> i < 2 ^ (LENGTH('a) - 1) \<Longrightarrow> sint (word_of_int i :: 'a::len word) = i"
  by (simp add: signed_take_bit_int_eq_self sint_sbintrunc')

text \<open>Narrowing to 32 bits and widening again gives the value back exactly when it fits.\<close>

lemma ucast_sint: "(ucast x :: 32 word) = word_of_int (sint x)" for x :: "64 word"
  by transfer (simp add: take_bit_signed_take_bit)

lemma sint_widen: "sint (scast y :: 64 word) = sint y" for y :: "32 word"
  unfolding scast_eq
  by (rule sint_of_int_id) (use sint_greater_eq [of y] sint_less [of y] in \<open>simp_all\<close>)

lemma narrow_widen_iff:
  "scast (ucast x :: 32 word) = x \<longleftrightarrow> - (2 ^ 31) \<le> sint x \<and> sint x < 2 ^ 31" for x :: "64 word"
proof
  assume "scast (ucast x :: 32 word) = x"
  then have "sint x = sint (ucast x :: 32 word)" by (metis sint_widen)
  then show "- (2 ^ 31) \<le> sint x \<and> sint x < 2 ^ 31"
    using sint_greater_eq [of "ucast x :: 32 word"] sint_less [of "ucast x :: 32 word"] by simp
next
  assume "- (2 ^ 31) \<le> sint x \<and> sint x < 2 ^ 31"
  then have "sint (ucast x :: 32 word) = sint x"
    unfolding ucast_sint by (intro sint_of_int_id) simp_all
  then show "scast (ucast x :: 32 word) = x" by (metis sint_widen sint_eq_iff)
qed

lemma uint_scast:
  "uint (scast (x :: 'a::len word) :: 'b::len word) = take_bit LENGTH('b) (sint x)"
  by transfer simp

section \<open>Comparison operators\<close>

lemma lexordp_total:
  "\<not> ord_class.lexordp xs ys \<Longrightarrow> xs \<noteq> ys \<Longrightarrow> ord_class.lexordp ys xs" for xs ys :: "'a::linorder list"
  using lexordp_linear [of xs ys] by blast

lemma lex_step: "(if \<not> a = b then a < b else P) \<longleftrightarrow> a < b \<or> \<not> b < a \<and> P" for a b :: "'a::linorder"
  by auto

text \<open>
  What the standard containers and algorithms require of a pair \<^verbatim>\<open>operator<\<close>,
  \<^verbatim>\<open>operator==\<close>: a strict order in which two values are incomparable exactly when they
  are equal.
\<close>

locale comparison =
  fixes less :: "'a \<Rightarrow> 'a \<Rightarrow> bool" and eq :: "'a \<Rightarrow> 'a \<Rightarrow> bool"
  assumes eq_refl: "eq a a"
    and eq_sym: "eq a b \<Longrightarrow> eq b a"
    and eq_trans: "eq a b \<Longrightarrow> eq b c \<Longrightarrow> eq a c"
    and eq_not_less: "eq a b \<Longrightarrow> \<not> less a b"
    and less_trans: "less a b \<Longrightarrow> less b c \<Longrightarrow> less a c"
    and less_total: "\<not> less a b \<Longrightarrow> \<not> eq a b \<Longrightarrow> less b a"
begin

lemma less_asym: "less a b \<Longrightarrow> \<not> less b a"
  using eq_not_less [OF eq_refl, of a] less_trans [of a b a] by auto

lemma eq_iff_incomparable: "eq a b \<longleftrightarrow> \<not> less a b \<and> \<not> less b a"
  using eq_not_less [of a b] eq_not_less [OF eq_sym, of a b] less_total [of a b] by auto

lemma less_eq_trans: "less a b \<Longrightarrow> eq b c \<Longrightarrow> less a c"
  by (metis eq_not_less eq_sym eq_trans less_total less_trans)

lemma eq_less_trans: "eq a b \<Longrightarrow> less b c \<Longrightarrow> less a c"
  by (metis eq_not_less eq_sym eq_trans less_total less_trans)

text \<open>Exactly one of the three relations holds.\<close>

lemma trichotomy:
  "(less a b \<and> \<not> eq a b \<and> \<not> less b a) \<or> (\<not> less a b \<and> eq a b \<and> \<not> less b a) \<or>
   (\<not> less a b \<and> \<not> eq a b \<and> less b a)"
  using less_asym [of a b] eq_iff_incomparable [of a b] by auto

end

end
