(* ===== verification/EdgeIdent.thy ===== *)
theory EdgeIdent
  imports Prelude "HOL-Library.Sublist"
begin

text \<open>
  Node and edge identifiers: \<^verbatim>\<open>EdgeUtils\<close> (the direction bits of an edge type id,
  \<^verbatim>\<open>src/include/nebula/common/utils/EdgeUtils.h\<close>), \<^verbatim>\<open>EdgeID\<close> with its equality, order
  and standardisation (\<^verbatim>\<open>src/include/nebula/common/datatype/EdgeID.h\<close>),
  \<^verbatim>\<open>NodeIDUtils\<close> and \<^verbatim>\<open>Utils::incr\<close> (\<^verbatim>\<open>src/include/nebula/common/utils/Utils.h\<close>).
  A failing \<^verbatim>\<open>assert\<close> is the value \<open>None\<close>.
\<close>

unbundle bit_operations_syntax

section \<open>EdgeUtils: the two direction bits of an edge type id\<close>

datatype EdgeDirection =
    PointingLeft | PointingRight | Undirected | LeftOrUndirected
  | UndirectedOrRight | LeftOrRight | AnyDirection

fun enum2String :: "EdgeDirection \<Rightarrow> string" where
  "enum2String PointingLeft = ''PointingLeft''"
| "enum2String PointingRight = ''PointingRight''"
| "enum2String Undirected = ''Undirected''"
| "enum2String LeftOrUndirected = ''LeftOrUndirected''"
| "enum2String UndirectedOrRight = ''UndirectedOrRight''"
| "enum2String LeftOrRight = ''LeftOrRight''"
| "enum2String AnyDirection = ''AnyDirection''"

fun edge_prefix :: "EdgeDirection \<Rightarrow> string" where
  "edge_prefix PointingLeft = ''<-''"
| "edge_prefix Undirected = ''~''"
| "edge_prefix PointingRight = ''-''"
| "edge_prefix LeftOrUndirected = ''<~''"
| "edge_prefix UndirectedOrRight = ''~''"
| "edge_prefix LeftOrRight = ''<-''"
| "edge_prefix AnyDirection = ''-''"

fun edge_postfix :: "EdgeDirection \<Rightarrow> string" where
  "edge_postfix PointingLeft = ''-''"
| "edge_postfix Undirected = ''~''"
| "edge_postfix PointingRight = ''->''"
| "edge_postfix LeftOrUndirected = ''~''"
| "edge_postfix UndirectedOrRight = ''~>''"
| "edge_postfix LeftOrRight = ''->''"
| "edge_postfix AnyDirection = ''-''"

definition kEdgeTypeMoveBits :: nat where
  "kEdgeTypeMoveBits = 4 * 8 - 2"

definition directionMask :: "EdgeTypeID \<Rightarrow> EdgeTypeID" where
  "directionMask b = push_bit kEdgeTypeMoveBits b"

definition isLegalEdgeTypeID :: "EdgeTypeID \<Rightarrow> bool" where
  "isLegalEdgeTypeID t \<longleftrightarrow> t AND directionMask 3 = 0"

definition outgoing :: "EdgeTypeID \<Rightarrow> EdgeTypeID option" where
  "outgoing t = (if isLegalEdgeTypeID t then Some (t AND NOT (directionMask 3)) else None)"

definition isOutgoing :: "EdgeTypeID \<Rightarrow> bool" where
  "isOutgoing t \<longleftrightarrow> t AND directionMask 3 = 0"

definition incoming :: "EdgeTypeID \<Rightarrow> EdgeTypeID option" where
  "incoming t = (if isLegalEdgeTypeID t then Some (t OR directionMask 1) else None)"

text \<open>\<^verbatim>\<open>>>\<close> on the signed \<^verbatim>\<open>EdgeTypeID\<close> is an arithmetic shift.\<close>

definition isIncoming :: "EdgeTypeID \<Rightarrow> bool" where
  "isIncoming t \<longleftrightarrow> signed_drop_bit kEdgeTypeMoveBits (t AND directionMask 3) = 1"

definition undirected0 :: "EdgeTypeID \<Rightarrow> EdgeTypeID option" where
  "undirected0 t = (if isLegalEdgeTypeID t then Some (t OR directionMask 2) else None)"

definition isUndirected0 :: "EdgeTypeID \<Rightarrow> bool" where
  "isUndirected0 t \<longleftrightarrow> (signed_drop_bit kEdgeTypeMoveBits (t AND directionMask 3) AND 3) = 2"

definition undirected1 :: "EdgeTypeID \<Rightarrow> EdgeTypeID option" where
  "undirected1 t = (if isLegalEdgeTypeID t then Some (t OR directionMask 3) else None)"

definition isUndirected1 :: "EdgeTypeID \<Rightarrow> bool" where
  "isUndirected1 t \<longleftrightarrow> (signed_drop_bit kEdgeTypeMoveBits (t AND directionMask 3) AND 3) = 3"

definition reverseType :: "EdgeTypeID \<Rightarrow> EdgeTypeID" where
  "reverseType t = t XOR directionMask 1"

definition removeDirection :: "EdgeTypeID \<Rightarrow> EdgeTypeID" where
  "removeDirection t = t AND NOT (directionMask 3)"

definition isSameEdgeType :: "EdgeTypeID \<Rightarrow> EdgeTypeID \<Rightarrow> bool" where
  "isSameEdgeType t1 t2 \<longleftrightarrow> removeDirection t1 = removeDirection t2"

definition isDirected :: "EdgeTypeID \<Rightarrow> bool" where
  "isDirected t \<longleftrightarrow> t AND directionMask 2 = 0"

definition isOutgoingOrUndirected0 :: "EdgeTypeID \<Rightarrow> bool" where
  "isOutgoingOrUndirected0 t \<longleftrightarrow> (signed_drop_bit kEdgeTypeMoveBits t AND 1) = 0"

definition emplace_all :: "EdgeTypeID option list \<Rightarrow> EdgeTypeID list option" where
  "emplace_all = those"

fun allEdgeTypesFor :: "EdgeDirection \<Rightarrow> EdgeTypeID \<Rightarrow> EdgeTypeID list option" where
  "allEdgeTypesFor PointingLeft t = emplace_all [incoming t]"
| "allEdgeTypesFor PointingRight t = emplace_all [outgoing t]"
| "allEdgeTypesFor Undirected t = emplace_all [undirected0 t, undirected1 t]"
| "allEdgeTypesFor LeftOrUndirected t = emplace_all [incoming t, undirected0 t, undirected1 t]"
| "allEdgeTypesFor UndirectedOrRight t = emplace_all [undirected0 t, undirected1 t, outgoing t]"
| "allEdgeTypesFor LeftOrRight t = emplace_all [incoming t, outgoing t]"
| "allEdgeTypesFor AnyDirection t =
     emplace_all [incoming t, outgoing t, undirected0 t, undirected1 t]"

subsection \<open>The direction predicates in terms of bits 30 and 31\<close>

lemma bit_directionMask [simp]:
  "bit (directionMask b) n \<longleftrightarrow> 30 \<le> n \<and> n < 32 \<and> bit b (n - 30)"
  by (auto simp: directionMask_def kEdgeTypeMoveBits_def bit_push_bit_iff dest: bit_imp_le_length)

lemma bit_3_int [simp]: "bit (3::int) n \<longleftrightarrow> n = 0 \<or> n = 1"
  by (cases n) (auto simp: bit_numeral_rec bit_1_iff bit_Suc)

lemma bit_2_int [simp]: "bit (2::int) n \<longleftrightarrow> n = 1"
  by (cases n) (auto simp: bit_numeral_rec bit_1_iff bit_Suc)

lemma less_32_split: "n < 32 \<longleftrightarrow> n < 30 \<or> n = 30 \<or> n = (31::nat)"
  by auto

lemma type_eq_iff:
  "(a::EdgeTypeID) = b \<longleftrightarrow>
     (\<forall>n<30. bit a n = bit b n) \<and> bit a 30 = bit b 30 \<and> bit a 31 = bit b 31" (is "_ \<longleftrightarrow> ?R")
proof
  assume R: ?R
  show "a = b"
  proof (rule bit_word_eqI)
    fix n assume "n < LENGTH(32)"
    then show "bit a n = bit b n" using R by (auto simp: less_32_split)
  qed
qed simp

named_theorems dir_bits \<open>direction predicates read at bits 30 and 31\<close>

lemma isOutgoing_bits [dir_bits]: "isOutgoing t \<longleftrightarrow> \<not> bit t 30 \<and> \<not> bit t 31"
  by (simp add: isOutgoing_def type_eq_iff bit_and_iff)

lemma isLegal_bits [dir_bits]: "isLegalEdgeTypeID t \<longleftrightarrow> \<not> bit t 30 \<and> \<not> bit t 31"
  by (simp add: isLegalEdgeTypeID_def type_eq_iff bit_and_iff)

lemma isDirected_bits [dir_bits]: "isDirected t \<longleftrightarrow> \<not> bit t 31"
  by (simp add: isDirected_def type_eq_iff bit_and_iff)

lemma removeDirection_bit [dir_bits]: "bit (removeDirection t) n \<longleftrightarrow> n < 30 \<and> bit t n"
  by (auto simp: removeDirection_def bit_and_iff bit_not_iff possible_bit_word less_32_split
      dest: bit_imp_le_length)

lemma shifted_mask_bit:
  "bit (signed_drop_bit kEdgeTypeMoveBits (t AND directionMask 3)) n \<longleftrightarrow>
     (if n = 0 then bit t 30 else n < 32 \<and> bit t 31)" for t :: EdgeTypeID
proof -
  consider "n = 0" | "n = 1" | "2 \<le> n" by linarith
  then show ?thesis
    by cases (auto simp: bit_signed_drop_bit_iff kEdgeTypeMoveBits_def bit_and_iff)
qed

lemma isIncoming_bits [dir_bits]: "isIncoming t \<longleftrightarrow> bit t 30 \<and> \<not> bit t 31"
  by (simp add: isIncoming_def type_eq_iff shifted_mask_bit bit_1_iff) auto

lemma isUndirected0_bits [dir_bits]: "isUndirected0 t \<longleftrightarrow> \<not> bit t 30 \<and> bit t 31"
  by (auto simp: isUndirected0_def type_eq_iff bit_and_iff shifted_mask_bit dest: spec [of _ 1])

lemma isUndirected1_bits [dir_bits]: "isUndirected1 t \<longleftrightarrow> bit t 30 \<and> bit t 31"
  by (auto simp: isUndirected1_def type_eq_iff bit_and_iff shifted_mask_bit
      dest: spec [of _ 0] spec [of _ 1])

lemma isOutgoingOrUndirected0_bits [dir_bits]: "isOutgoingOrUndirected0 t \<longleftrightarrow> \<not> bit t 30"
proof -
  have "bit (signed_drop_bit kEdgeTypeMoveBits t AND 1) n \<longleftrightarrow> n = 0 \<and> bit t 30" for n
    by (cases "n = 0") (auto simp: bit_and_iff bit_signed_drop_bit_iff kEdgeTypeMoveBits_def bit_1_iff)
  then show ?thesis
    by (auto simp: isOutgoingOrUndirected0_def type_eq_iff dest: spec [of _ 0])
qed

lemma reverseType_bit [dir_bits]:
  "bit (reverseType t) n \<longleftrightarrow> (if n = 30 then \<not> bit t n else bit t n)"
  by (auto simp: reverseType_def bit_xor_iff bit_1_iff)

lemma removeDirection_eq_iff:
  "removeDirection a = removeDirection b \<longleftrightarrow> (\<forall>n<30. bit a n = bit b n)"
  by (simp add: type_eq_iff dir_bits)

lemma removeDirection_legal [simp]: "isLegalEdgeTypeID (removeDirection t)"
  by (simp add: dir_bits)

lemma undirected0_removeDirection [simp]:
  "undirected0 (removeDirection t) = Some (removeDirection t OR directionMask 2)"
  by (simp add: undirected0_def)

section \<open>EdgeID\<close>

record EdgeID =
  srcID :: NodeID
  dstID :: NodeID
  rank :: EdgeRank
  graphID :: GraphID
  edgeTypeID :: EdgeTypeID

definition defaultEdgeID :: EdgeID where
  "defaultEdgeID = \<lparr>srcID = -1, dstID = -1, rank = -1, graphID = -1, edgeTypeID = -1\<rparr>"

definition swapEnds :: "EdgeID \<Rightarrow> EdgeID" where
  "swapEnds e = e\<lparr>srcID := dstID e, dstID := srcID e\<rparr>"

definition toUndirected :: "EdgeID \<Rightarrow> EdgeID option" where
  "toUndirected e = map_option (\<lambda>t. e\<lparr>edgeTypeID := t\<rparr>) (undirected0 (removeDirection (edgeTypeID e)))"

definition reverseEdge :: "EdgeID \<Rightarrow> EdgeID" where
  "reverseEdge e = (swapEnds e)\<lparr>edgeTypeID := reverseType (edgeTypeID e)\<rparr>"

definition standardization :: "EdgeID \<Rightarrow> EdgeID option" where
  "standardization e =
     (if isOutgoing (edgeTypeID e) then Some (e\<lparr>edgeTypeID := removeDirection (edgeTypeID e)\<rparr>)
      else if isIncoming (edgeTypeID e)
      then Some (swapEnds (e\<lparr>edgeTypeID := removeDirection (edgeTypeID e)\<rparr>))
      else map_option
        (\<lambda>t. let e' = e\<lparr>edgeTypeID := t\<rparr>
             in if sint (srcID e') \<ge> sint (dstID e') then swapEnds e' else e')
        (undirected0 (removeDirection (edgeTypeID e))))"

definition edgeID_eq :: "EdgeID \<Rightarrow> EdgeID \<Rightarrow> bool" where
  "edgeID_eq l r =
     (if graphID l \<noteq> graphID r then False
      else if isDirected (edgeTypeID l) \<noteq> isDirected (edgeTypeID r) then False
      else if removeDirection (edgeTypeID l) \<noteq> removeDirection (edgeTypeID r) then False
      else if rank l \<noteq> rank r then False
      else if isDirected (edgeTypeID l) then
        (if isOutgoing (edgeTypeID l) = isOutgoing (edgeTypeID r)
         then srcID l = srcID r \<and> dstID l = dstID r
         else srcID l = dstID r \<and> dstID l = srcID r)
      else (srcID l = srcID r \<and> dstID l = dstID r) \<or> (srcID l = dstID r \<and> dstID l = srcID r))"

definition edgeID_less :: "EdgeID \<Rightarrow> EdgeID \<Rightarrow> bool" where
  "edgeID_less l r =
     (if graphID l \<noteq> graphID r then sint (graphID l) < sint (graphID r)
      else if srcID l \<noteq> srcID r then sint (srcID l) < sint (srcID r)
      else if dstID l \<noteq> dstID r then sint (dstID l) < sint (dstID r)
      else if edgeTypeID l \<noteq> edgeTypeID r then sint (edgeTypeID l) < sint (edgeTypeID r)
      else if rank l \<noteq> rank r then sint (rank l) < sint (rank r)
      else False)"

definition edgeID_greater :: "EdgeID \<Rightarrow> EdgeID \<Rightarrow> bool" where
  "edgeID_greater l r \<longleftrightarrow> \<not> (edgeID_less l r \<or> edgeID_eq l r)"

text \<open>\<^verbatim>\<open>std::hash<EdgeID>\<close>: the combination of hashes is folly's, a parameter.\<close>

definition edgeID_hash ::
  "(GraphID \<Rightarrow> EdgeTypeID \<Rightarrow> NodeID \<Rightarrow> NodeID \<Rightarrow> EdgeRank \<Rightarrow> uint64) \<Rightarrow> EdgeID \<Rightarrow> uint64 option" where
  "edgeID_hash hash_combine e =
     map_option (\<lambda>s. hash_combine (graphID s) (edgeTypeID s) (srcID s) (dstID s) (rank s))
       (standardization e)"

definition clearEdge :: "EdgeID \<Rightarrow> EdgeID" where
  "clearEdge e = e\<lparr>srcID := -1, dstID := -1, rank := -1, graphID := -1, edgeTypeID := -1\<rparr>"

subsection \<open>Equality is equality of standard forms\<close>

lemma standardization_directed:
  "isDirected (edgeTypeID e) \<Longrightarrow>
     standardization e =
       Some (let e' = e\<lparr>edgeTypeID := removeDirection (edgeTypeID e)\<rparr>
             in if isOutgoing (edgeTypeID e) then e' else swapEnds e')"
  by (auto simp: standardization_def dir_bits Let_def)

lemma standardization_undirected:
  "\<not> isDirected (edgeTypeID e) \<Longrightarrow>
     standardization e =
       Some (let e' = e\<lparr>edgeTypeID := removeDirection (edgeTypeID e) OR directionMask 2\<rparr>
             in if sint (srcID e) \<ge> sint (dstID e) then swapEnds e' else e')"
  by (auto simp: standardization_def dir_bits Let_def)

lemma undirected_form_eq_iff:
  "removeDirection a OR directionMask 2 = removeDirection b OR directionMask 2 \<longleftrightarrow>
     removeDirection a = removeDirection b"
  by (auto simp: type_eq_iff dir_bits bit_or_iff)

lemma directed_form_neq:
  "removeDirection a \<noteq> removeDirection b OR directionMask 2"
  by (simp add: type_eq_iff dir_bits bit_or_iff)

lemma standardization_neq:
  assumes "isDirected (edgeTypeID l)" "\<not> isDirected (edgeTypeID r)"
  shows "standardization l \<noteq> standardization r"
proof -
  have "edgeTypeID (the (standardization l)) \<noteq> edgeTypeID (the (standardization r))"
    using assms directed_form_neq
    by (simp add: standardization_directed standardization_undirected Let_def swapEnds_def)
  then show ?thesis by auto
qed

lemma edgeID_eq_iff_standardization:
  "edgeID_eq l r \<longleftrightarrow> standardization l = standardization r"
proof -
  consider "isDirected (edgeTypeID l) \<noteq> isDirected (edgeTypeID r)"
    | "isDirected (edgeTypeID l)" "isDirected (edgeTypeID r)"
    | "\<not> isDirected (edgeTypeID l)" "\<not> isDirected (edgeTypeID r)" by blast
  then show ?thesis
  proof cases
    case 1
    then show ?thesis using standardization_neq [of l r] standardization_neq [of r l]
      by (auto simp: edgeID_eq_def)
  next
    case 2
    then show ?thesis
      by (cases l; cases r) (auto simp: edgeID_eq_def standardization_directed Let_def swapEnds_def)
  next
    case 3
    then show ?thesis
      by (cases l; cases r)
        (auto simp: edgeID_eq_def standardization_undirected Let_def swapEnds_def
          undirected_form_eq_iff sint_eq_iff dest: order.antisym)
  qed
qed

subsection \<open>Keys of hashed containers\<close>

text \<open>
  An unordered container needs an equality that is an equivalence and a hash that does not
  separate equal keys. Both follow when equality is equality of a canonical form and the
  hash reads only that form.
\<close>

locale hashed_key =
  fixes eq :: "'k \<Rightarrow> 'k \<Rightarrow> bool" and hash :: "'k \<Rightarrow> 'h" and canon :: "'k \<Rightarrow> 'c"
  assumes eq_canon: "eq a b \<longleftrightarrow> canon a = canon b"
    and hash_canon: "canon a = canon b \<Longrightarrow> hash a = hash b"
begin

lemma key_equivalence: "equivp eq"
  by (rule equivpI) (auto intro!: reflpI sympI transpI simp: eq_canon)

lemma key_hash: "eq a b \<Longrightarrow> hash a = hash b"
  by (rule hash_canon) (simp add: eq_canon)

end

interpretation edge_key: hashed_key edgeID_eq "edgeID_hash hc" standardization for hc
  by unfold_locales (simp_all add: edgeID_eq_iff_standardization edgeID_hash_def)

text \<open>\<^verbatim>\<open>GraphTraits::EdgeIDEqual\<close> and \<^verbatim>\<open>GraphTraits::EdgeIDHash\<close>: the keys of
  \<^verbatim>\<open>MemGraph::EidMap\<close>, without standardisation and without the graph id.\<close>

definition EdgeIDEqual :: "EdgeID \<Rightarrow> EdgeID \<Rightarrow> bool" where
  "EdgeIDEqual l r \<longleftrightarrow> edgeTypeID l = edgeTypeID r \<and> srcID l = srcID r \<and> dstID l = dstID r \<and> rank l = rank r"

definition EdgeIDHash ::
  "(EdgeTypeID \<Rightarrow> NodeID \<Rightarrow> NodeID \<Rightarrow> EdgeRank \<Rightarrow> uint64) \<Rightarrow> EdgeID \<Rightarrow> uint64" where
  "EdgeIDHash hash_combine e = hash_combine (edgeTypeID e) (srcID e) (dstID e) (rank e)"

interpretation mem_edge_key: hashed_key EdgeIDEqual "EdgeIDHash hc"
  "\<lambda>e. (edgeTypeID e, srcID e, dstID e, rank e)" for hc
  by unfold_locales (auto simp: EdgeIDEqual_def EdgeIDHash_def)

subsection \<open>Reversal and order\<close>

lemma reverseEdge_involutive: "reverseEdge (reverseEdge e) = e"
proof -
  have "reverseType (reverseType t) = t" for t
    by (simp add: type_eq_iff dir_bits)
  then show ?thesis by (simp add: reverseEdge_def swapEnds_def)
qed

lemma edgeID_eq_reverse: "edgeID_eq e (reverseEdge e)"
  by (auto simp: edgeID_eq_def reverseEdge_def swapEnds_def dir_bits removeDirection_eq_iff)

lemma edgeID_less_irrefl: "\<not> edgeID_less e e"
  by (simp add: edgeID_less_def)

lemma edgeID_less_trans: "edgeID_less a b \<Longrightarrow> edgeID_less b c \<Longrightarrow> edgeID_less a c"
  by (auto simp: edgeID_less_def split: if_splits)

lemma edgeID_less_total: "edgeID_less a b \<or> a = b \<or> edgeID_less b a"
  by (cases a; cases b) (auto simp: edgeID_less_def dest: sint_less_linear)

interpretation edge_order: comparison edgeID_less "(=)"
  using edgeID_less_total by unfold_locales (auto simp: edgeID_less_irrefl intro: edgeID_less_trans)

lemma edgeID_greater_iff: "edgeID_greater l r \<longleftrightarrow> edgeID_less r l \<and> \<not> edgeID_eq l r"
  using edge_order.trichotomy [of l r] by (auto simp: edgeID_greater_def edgeID_eq_iff_standardization)

section \<open>NodeIDUtils\<close>

definition kNodeTypeMask :: uint64 where "kNodeTypeMask = 0xFFFF000000000000"
definition kBucketMask :: uint64 where "kBucketMask = 0x0000FFFF00000000"
definition kNodeSeqIDMask :: uint64 where "kNodeSeqIDMask = 0x00000000FFFFFFFF"

definition nodeType :: "NodeID \<Rightarrow> NodeTypeID" where
  "nodeType i = ucast (drop_bit 48 (i AND kNodeTypeMask))"

definition substituteNodeType :: "NodeID \<Rightarrow> NodeTypeID \<Rightarrow> NodeID" where
  "substituteNodeType i t = (i AND NOT kNodeTypeMask) OR push_bit 48 (scast t)"

definition bucket :: "NodeID \<Rightarrow> BucketID" where
  "bucket i = ucast (drop_bit 32 (i AND kBucketMask))"

definition substituteBucket :: "NodeID \<Rightarrow> BucketID \<Rightarrow> NodeID" where
  "substituteBucket i b = (i AND NOT kBucketMask) OR push_bit 32 (ucast b)"

definition nodeSeqID :: "NodeID \<Rightarrow> NodeSeqID" where
  "nodeSeqID i = ucast (i AND kNodeSeqIDMask)"

definition substituteNodeSeqID :: "NodeID \<Rightarrow> NodeSeqID \<Rightarrow> NodeID" where
  "substituteNodeSeqID i s = (i AND NOT kNodeSeqIDMask) OR ucast s"

definition toNodeID :: "NodeTypeID \<Rightarrow> BucketID \<Rightarrow> NodeSeqID \<Rightarrow> NodeID" where
  "toNodeID t b s = push_bit 48 (scast t) OR push_bit 32 (ucast b) OR ucast s"

lemma node_masks:
  "kNodeTypeMask = push_bit 48 (mask 16)" "kBucketMask = push_bit 32 (mask 16)"
  "kNodeSeqIDMask = mask 32"
  by (simp_all add: kNodeTypeMask_def kBucketMask_def kNodeSeqIDMask_def mask_eq_exp_minus_1
      push_bit_eq_mult)

lemma nodeType_bit: "bit (nodeType i) n \<longleftrightarrow> n < 16 \<and> bit i (48 + n)"
  by (auto simp: nodeType_def node_masks bit_simps)

lemma bucket_bit: "bit (bucket i) n \<longleftrightarrow> n < 16 \<and> bit i (32 + n)"
  by (auto simp: bucket_def node_masks bit_simps)

lemma nodeSeqID_bit: "bit (nodeSeqID i) n \<longleftrightarrow> n < 32 \<and> bit i n"
  by (auto simp: nodeSeqID_def node_masks bit_simps)


lemma substituteNodeType_bit:
  "bit (substituteNodeType i t) n \<longleftrightarrow> n < 64 \<and> (if 48 \<le> n then bit t (n - 48) else bit i n)"
  by (auto simp: substituteNodeType_def node_masks bit_simps)

lemma substituteBucket_bit:
  "bit (substituteBucket i b) n \<longleftrightarrow>
     n < 64 \<and> (if 32 \<le> n \<and> n < 48 then bit b (n - 32) else bit i n)"
  by (auto simp: substituteBucket_def node_masks bit_simps dest: bit_imp_le_length)

lemma substituteNodeSeqID_bit:
  "bit (substituteNodeSeqID i s) n \<longleftrightarrow> n < 64 \<and> (if n < 32 then bit s n else bit i n)"
  by (auto simp: substituteNodeSeqID_def node_masks bit_simps dest: bit_imp_le_length)

lemma toNodeID_bit:
  "bit (toNodeID t b s) n \<longleftrightarrow>
     n < 64 \<and> (if 48 \<le> n then bit t (n - 48) else if 32 \<le> n then bit b (n - 32) else bit s n)"
  by (auto simp: toNodeID_def bit_simps dest: bit_imp_le_length)

lemmas node_id_bits =
  nodeType_bit bucket_bit nodeSeqID_bit substituteNodeType_bit substituteBucket_bit
  substituteNodeSeqID_bit toNodeID_bit

text \<open>A component of a packed identifier obeys the laws of a field: what is stored is read
  back, storing what is there changes nothing, the last store wins.\<close>

locale packed_field =
  fixes get :: "'i \<Rightarrow> 'f" and put :: "'i \<Rightarrow> 'f \<Rightarrow> 'i"
  assumes get_put: "get (put i x) = x"
    and put_get: "put i (get i) = i"
    and put_put: "put (put i x) y = put i y"
begin

lemma put_eq_iff: "put i x = i \<longleftrightarrow> get i = x"
  by (metis get_put put_get)

lemma put_inj: "put i x = put i y \<longleftrightarrow> x = y"
  by (metis get_put)

end

interpretation node_type: packed_field nodeType substituteNodeType
  by unfold_locales (auto intro!: bit_word_eqI simp: node_id_bits split: if_splits)

interpretation node_bucket: packed_field bucket substituteBucket
  by unfold_locales (auto intro!: bit_word_eqI simp: node_id_bits split: if_splits)

interpretation node_seq: packed_field nodeSeqID substituteNodeSeqID
  by unfold_locales (auto intro!: bit_word_eqI simp: node_id_bits split: if_splits)

lemma toNodeID_components:
  "toNodeID (nodeType i) (bucket i) (nodeSeqID i) = i"
  by (rule bit_word_eqI) (auto simp: node_id_bits)

lemma components_toNodeID:
  "nodeType (toNodeID t b s) = t \<and> bucket (toNodeID t b s) = b \<and> nodeSeqID (toNodeID t b s) = s"
  by (auto intro!: bit_word_eqI simp: node_id_bits)

lemma substitute_toNodeID:
  "substituteNodeType i t = toNodeID t (bucket i) (nodeSeqID i)"
  "substituteBucket i b = toNodeID (nodeType i) b (nodeSeqID i)"
  "substituteNodeSeqID i s = toNodeID (nodeType i) (bucket i) s"
  by (auto intro!: bit_word_eqI simp: node_id_bits split: if_splits)

section \<open>Utils::incr: the successor of a byte string among prefixes\<close>

text \<open>\<open>incr_loop str i\<close> is the loop at index \<open>i\<close>, which ends below 0 or at the byte that did not wrap.
  The start index is an \<^verbatim>\<open>int\<close>, so \<^verbatim>\<open>str.size() - 1\<close> is computed on 64 bits and cut to 32.
  \<open>None\<close> stands for an \<^verbatim>\<open>erase\<close> that throws \<^verbatim>\<open>out_of_range\<close> (a negative position is a
  huge \<^verbatim>\<open>size_t\<close>) and for the signed overflow of \<^verbatim>\<open>i + 1\<close>.\<close>

function incr_loop :: "byte list \<Rightarrow> int \<Rightarrow> byte list \<times> int" where
  "incr_loop str i =
     (if 0 \<le> i
      then let str' = str[nat i := str ! nat i + 1]
           in if str' ! nat i \<noteq> 0 then (str', i) else incr_loop str' (i - 1)
      else (str, i))"
  by pat_completeness auto
termination by (relation "measure (\<lambda>(str, i). nat (i + 1))") auto

declare incr_loop.simps [simp del]

definition last_index :: "byte list \<Rightarrow> int" where
  "last_index str = sint (ucast ((of_nat (length str) :: 64 word) - 1) :: 32 word)"

definition incr :: "byte list \<Rightarrow> (byte list \<times> bool) option" where
  "incr str =
     (let (s, i) = incr_loop str (last_index str)
      in if 0 \<le> i + 1 \<and> i + 1 \<le> int (length s) \<and> i + 1 < 2 ^ 31
         then Some (take (nat (i + 1)) s, i < 0) else None)"

lemma ucast_nat_cut: "(ucast (of_nat n :: 64 word) :: 32 word) = of_nat n"
  by (simp add: unsigned_of_nat word_of_nat_eq_iff)

lemma last_index_short:
  assumes "length str < 2 ^ 31"
  shows "last_index str = int (length str) - 1"
proof (cases "length str")
  case 0
  have "(ucast (- 1 :: 64 word) :: 32 word) = - 1" by (simp add: unsigned_minus_1_eq_mask mask_eq_exp_minus_1)
  then show ?thesis using 0 by (simp add: last_index_def)
next
  case (Suc n)
  then have n: "n < 2 ^ 31 - 1" using assms by simp
  have "(of_nat (length str) :: 64 word) - 1 = of_nat n" using Suc by simp
  then have "last_index str = sint (of_nat n :: 32 word)"
    by (simp add: last_index_def ucast_nat_cut)
  also have "\<dots> = int n"
    using n by (simp add: signed_of_nat signed_take_bit_int_eq_self)
  finally show ?thesis using Suc by simp
qed

lemma replicate_Suc_update_last:
  "(replicate (Suc n) a)[n := b] @ zs = replicate n a @ b # zs"
  by (induction n) auto

lemma incr_loop_carry:
  "incr_loop (xs @ replicate n (-1) @ zs) (int (length xs + n) - 1) =
   incr_loop (xs @ replicate n 0 @ zs) (int (length xs) - 1)"
proof (induction n arbitrary: zs)
  case (Suc n)
  have "incr_loop (xs @ replicate (Suc n) (-1) @ zs) (int (length xs + Suc n) - 1) =
        incr_loop (xs @ replicate n (-1) @ 0 # zs) (int (length xs + n) - 1)"
    by (subst incr_loop.simps)
      (simp add: nat_add_distrib nth_append list_update_append replicate_Suc_update_last
        del: replicate.simps)
  also have "\<dots> = incr_loop (xs @ replicate n 0 @ 0 # zs) (int (length xs) - 1)"
    by (rule Suc.IH)
  finally show ?case
    by (simp add: replicate_app_Cons_same)
qed simp

lemma incr_overflow:
  assumes "n < 2 ^ 31"
  shows "incr (replicate n (-1)) = Some ([], True)"
proof -
  have "incr_loop (replicate n (-1)) (int n - 1) = (replicate n 0, -1)"
    using incr_loop_carry [of "[]" n "[]"] by (simp add: incr_loop.simps [of _ "-1"])
  then show ?thesis using assms by (simp add: incr_def last_index_short)
qed

lemma incr_step:
  assumes "b \<noteq> -1" "length ps + n < 2 ^ 31 - 1"
  shows "incr (ps @ b # replicate n (-1)) = Some (ps @ [b + 1], False)"
proof -
  have "b + 1 \<noteq> 0" using assms(1) by (metis add_eq_0_iff2 minus_minus)
  then have "incr_loop (ps @ b # replicate n (-1)) (int (length ps + n)) =
             (ps @ (b + 1) # replicate n 0, int (length ps))"
    using incr_loop_carry [of "ps @ [b]" n "[]"]
    by (simp add: incr_loop.simps [of _ "int (length ps)"] nth_append list_update_append)
  moreover have "last_index (ps @ b # replicate n (-1)) = int (length ps + n)"
    using assms(2) by (simp add: last_index_short)
  ultimately show ?thesis using assms(2) by (simp add: incr_def nat_add_distrib)
qed

lemma incr_cases:
  obtains n where "str = replicate n (-1 :: byte)"
  | ps b n where "str = ps @ b # replicate n (-1)" "b \<noteq> -1"
proof (induction str arbitrary: thesis rule: rev_induct)
  case Nil
  then show ?case using Nil(1) [of 0] by simp
next
  case (snoc x xs)
  show ?case
  proof (cases "x = -1")
    case False
    then show ?thesis using snoc.prems(2) [of xs x 0] by simp
  next
    case True
    show ?thesis
    proof (rule snoc.IH)
      fix n assume "xs = replicate n (-1)"
      then show thesis using True snoc.prems(1) [of "Suc n"] by (simp add: replicate_append_same)
    next
      fix ps b n assume "xs = ps @ b # replicate n (-1)" "b \<noteq> -1"
      then show thesis using True snoc.prems(2) [of ps b "Suc n"]
        by (simp add: replicate_append_same)
    qed
  qed
qed


lemma lexordp_or_prefix_max:
  "ord_class.lexordp x (replicate n (-1 :: byte)) \<or> prefix (replicate n (-1)) x"
proof (induction n arbitrary: x)
  case (Suc n)
  show ?case
  proof (cases x)
    case (Cons c x')
    have "c < -1 \<or> c = -1" using word_n1_ge [of c] by (auto simp: order.order_iff_strict)
    then show ?thesis using Suc.IH [of x'] Cons by auto
  qed simp
qed simp

lemma less_byte_succ: "b \<noteq> -1 \<Longrightarrow> c < b + 1 \<longleftrightarrow> c < b \<or> c = b" for b c :: byte
  by (metis inc_less_eq_iff not_less_iff_gr_or_eq not_less)

lemma lexordp_incr_step:
  assumes "b \<noteq> (-1 :: byte)"
  shows "ord_class.lexordp x (ps @ [b + 1]) \<longleftrightarrow>
         ord_class.lexordp x (ps @ b # replicate n (-1)) \<or> prefix (ps @ b # replicate n (-1)) x"
proof (induction ps arbitrary: x)
  case Nil
  show ?case
    using lexordp_or_prefix_max [of _ n] less_byte_succ [OF assms]
    by (cases x) auto
next
  case (Cons p ps)
  then show ?case by (cases x) auto
qed

lemma incr_upper_bound:
  assumes "length s < 2 ^ 31" "incr s = Some (t, False)"
  shows "ord_class.lexordp x t \<longleftrightarrow> ord_class.lexordp x s \<or> prefix s x"
proof (rule incr_cases [of s])
  fix n assume "s = replicate n (-1)"
  then show ?thesis using assms by (simp add: incr_overflow)
next
  fix ps b n assume "s = ps @ b # replicate n (-1)" "b \<noteq> -1"
  then show ?thesis using assms lexordp_incr_step [of b x ps n] by (simp add: incr_step)
qed

lemma incr_total:
  assumes "length s < 2 ^ 31"
  shows "\<exists>t. incr s = Some (t, s = replicate (length s) (-1))"
proof (rule incr_cases [of s])
  fix n assume "s = replicate n (-1)"
  then show ?thesis using assms by (simp add: incr_overflow)
next
  fix ps b n assume s: "s = ps @ b # replicate n (-1)" "b \<noteq> -1"
  then have "s \<noteq> replicate (length s) (-1)"
    by (metis in_set_conv_decomp in_set_replicate)
  with s assms show ?thesis by (auto simp: incr_step)
qed

text \<open>A key of more than \<open>2 ^ 31\<close> and at most \<open>2 ^ 32 - 1\<close> bytes has a negative start index: the loop is
  skipped and the \<^verbatim>\<open>erase\<close> throws.\<close>

lemma last_index_long:
  assumes "2 ^ 31 < length str" "length str < 2 ^ 32"
  shows "last_index str < -1"
proof -
  obtain n where n: "length str = Suc n" using assms(1) by (cases "length str") auto
  have "(of_nat (length str) :: 64 word) - 1 = of_nat n" using n by simp
  then have e: "last_index str = sint (of_nat n :: 32 word)"
    by (simp add: last_index_def ucast_nat_cut)
  have "sint (of_nat n :: 32 word) = signed_take_bit 31 (int n)"
    by (simp add: signed_of_nat)
  also have "\<dots> = int n - 2 ^ 32"
  proof -
    have "(int n + 2147483648) mod 4294967296 = int n - 2147483648"
      using mod_add_self2 [of "int n - 2147483648" 4294967296] n assms by (simp add: add.commute)
    then show ?thesis by (simp add: signed_take_bit_eq_take_bit_shift take_bit_int_def)
  qed
  finally show ?thesis using e n assms by simp
qed

theorem incr_long_throws:
  assumes "2 ^ 31 < length str" "length str < 2 ^ 32"
  shows "incr str = None"
  using last_index_long [OF assms] by (simp add: incr_def incr_loop.simps)

section \<open>Properties\<close>

text \<open>Claim C20. Equality of edge ids is equality of their standard forms, hence an equivalence; an edge
  and its reverse are the same edge and hash to the same value, whatever the combining hash.\<close>

theorem edge_identity:
  "(edgeID_eq l r \<longleftrightarrow> standardization l = standardization r) \<and> equivp edgeID_eq
   \<and> edgeID_eq e (reverseEdge e) \<and> edgeID_hash hc e = edgeID_hash hc (reverseEdge e)"
  using edgeID_eq_iff_standardization edge_key.key_equivalence edgeID_eq_reverse
    edge_key.key_hash [OF edgeID_eq_reverse] by simp

text \<open>The order of edge ids is not consistent with their equality: an edge and its reverse
  compare as equal, and yet one of them is less than the other.\<close>

theorem edge_order_inconsistent:
  "edgeID_eq e (reverseEdge e) \<and> (edgeID_less e (reverseEdge e) \<noteq> edgeID_less (reverseEdge e) e)"
proof -
  have "bit (edgeTypeID e) 30 \<noteq> bit (edgeTypeID (reverseEdge e)) 30"
    by (simp add: reverseEdge_def swapEnds_def dir_bits)
  then have "e \<noteq> reverseEdge e" by metis
  then show ?thesis
    using edgeID_eq_reverse edgeID_less_total edgeID_less_irrefl edgeID_less_trans by metis
qed

text \<open>Claim C21. A node id is exactly its type, its bucket and its sequence number: packing three
  components and reading them gives them back, and repacking the components of an id gives the id.\<close>

theorem node_id_roundtrip:
  "nodeType (toNodeID t b s) = t \<and> bucket (toNodeID t b s) = b \<and> nodeSeqID (toNodeID t b s) = s
   \<and> toNodeID (nodeType i) (bucket i) (nodeSeqID i) = i
   \<and> substituteBucket (substituteNodeType i t) b = toNodeID t b (nodeSeqID i)"
  using components_toNodeID toNodeID_components by (simp add: substitute_toNodeID)

text \<open>Claim C22. On keys of fewer than \<open>2 ^ 31\<close> bytes, where the \<^verbatim>\<open>int\<close> index of the loop holds the length,
  \<^verbatim>\<open>Utils::incr\<close> always returns, and computes the end of a prefix scan: unless it reports an overflow, the
  strings below its result are those below the key and those that start with it. It overflows
  exactly on keys of 0xFF bytes only, which have no such bound.\<close>

theorem incr_prefix_bound:
  assumes "length s < 2 ^ 31"
  shows "\<exists>t overflow. incr s = Some (t, overflow)
    \<and> (overflow \<longleftrightarrow> s = replicate (length s) (-1))
    \<and> (overflow \<or> (\<forall>x. ord_class.lexordp x t \<longleftrightarrow> ord_class.lexordp x s \<or> prefix s x))"
proof -
  obtain t where "incr s = Some (t, s = replicate (length s) (-1))"
    using incr_total [OF assms] by blast
  then show ?thesis using incr_upper_bound [OF assms, of t] by (cases "s = replicate (length s) (-1)") auto
qed

theorem incr_prefix_bound_witness:
  "\<exists>t overflow. incr [1, 255] = Some (t, overflow) \<and> \<not> overflow
    \<and> (\<forall>x. ord_class.lexordp x t \<longleftrightarrow> ord_class.lexordp x [1, 255] \<or> prefix [1, 255] x)"
  using incr_prefix_bound [of "[1, 255]"] by auto

end
