(* ===== verification/TimeTypes.thy ===== *)
theory TimeTypes
  imports Prelude "HOL-Library.Signed_Division"
begin

text \<open>
  The temporal value types: \<^verbatim>\<open>Date\<close>, \<^verbatim>\<open>LocalTime\<close>, \<^verbatim>\<open>ZonedTime\<close>,
  \<^verbatim>\<open>LocalDatetime\<close> (a 64 bit union of bit fields and a quad word), \<^verbatim>\<open>ZonedDatetime\<close> and
  \<^verbatim>\<open>Duration\<close>, from the headers of the same names under
  \<^verbatim>\<open>src/include/nebula/common/datatype/\<close>. \<^verbatim>\<open>addDuration\<close>, \<^verbatim>\<open>subDuration\<close>,
  \<^verbatim>\<open>toInt\<close> and \<^verbatim>\<open>toString\<close> of the date types are declared there and defined in a binary
  library, so they are not modelled. C++ integer division truncates towards zero
  (\<open>sdiv\<close>, \<open>smod\<close>).
\<close>

unbundle bit_operations_syntax

section \<open>Calendar\<close>

definition isLeapYear :: "int16 \<Rightarrow> bool" where
  "isLeapYear y =
     (if sint y smod 4 \<noteq> 0 then False
      else if sint y smod 100 \<noteq> 0 then True
      else if sint y smod 400 \<noteq> 0 then False
      else True)"

definition kDaysSoFar :: "int list" where
  "kDaysSoFar = [0, 31, 59, 90, 120, 151, 181, 212, 243, 273, 304, 334, 365]"

definition kLeapDaysSoFar :: "int list" where
  "kLeapDaysSoFar = [0, 31, 60, 91, 121, 152, 182, 213, 244, 274, 305, 335, 366]"

definition kSecondsOfMinute :: int where "kSecondsOfMinute = 60"
definition kSecondsOfHour :: int where "kSecondsOfHour = 60 * kSecondsOfMinute"
definition kSecondsOfDay :: int where "kSecondsOfDay = 24 * kSecondsOfHour"

lemmas time_constants = kSecondsOfMinute_def kSecondsOfHour_def kSecondsOfDay_def

section \<open>Date\<close>

record Date =
  year :: int16
  month :: int8
  day :: int8

definition Date_default :: Date where
  "Date_default = \<lparr>year = 0, month = 1, day = 1\<rparr>"

definition Date_clear :: "Date \<Rightarrow> Date" where
  "Date_clear d = d\<lparr>year := 0, month := 1, day := 1\<rparr>"

definition Date_reset :: "Date \<Rightarrow> int16 \<Rightarrow> int8 \<Rightarrow> int8 \<Rightarrow> Date" where
  "Date_reset d y m dd = d\<lparr>year := y, month := m, day := dd\<rparr>"

definition Date_eq :: "Date \<Rightarrow> Date \<Rightarrow> bool" where
  "Date_eq l r \<longleftrightarrow> year l = year r \<and> month l = month r \<and> day l = day r"

definition Date_less :: "Date \<Rightarrow> Date \<Rightarrow> bool" where
  "Date_less l r =
     (if \<not> year l = year r then sint (year l) < sint (year r)
      else if \<not> month l = month r then sint (month l) < sint (month r)
      else if \<not> day l = day r then sint (day l) < sint (day r)
      else False)"

section \<open>LocalTime and ZonedTime\<close>

record LocalTime =
  hour :: int8
  minute :: int8
  sec :: int8
  padding :: int8
  microsec :: int32

definition LocalTime_mk :: "int8 \<Rightarrow> int8 \<Rightarrow> int8 \<Rightarrow> int32 \<Rightarrow> LocalTime" where
  "LocalTime_mk h m s us = \<lparr>hour = h, minute = m, sec = s, padding = 0, microsec = us\<rparr>"

definition LocalTime_clear :: "LocalTime \<Rightarrow> LocalTime" where
  "LocalTime_clear t = t\<lparr>hour := 0, minute := 0, sec := 0, microsec := 0\<rparr>"

definition LocalTime_eq :: "LocalTime \<Rightarrow> LocalTime \<Rightarrow> bool" where
  "LocalTime_eq l r \<longleftrightarrow>
     hour l = hour r \<and> minute l = minute r \<and> sec l = sec r \<and> microsec l = microsec r"

definition LocalTime_less :: "LocalTime \<Rightarrow> LocalTime \<Rightarrow> bool" where
  "LocalTime_less l r =
     (if \<not> hour l = hour r then sint (hour l) < sint (hour r)
      else if \<not> minute l = minute r then sint (minute l) < sint (minute r)
      else if \<not> sec l = sec r then sint (sec l) < sint (sec r)
      else if \<not> microsec l = microsec r then sint (microsec l) < sint (microsec r)
      else False)"

record ZonedTime =
  time :: LocalTime

definition ZonedTime_eq :: "ZonedTime \<Rightarrow> ZonedTime \<Rightarrow> bool" where
  "ZonedTime_eq l r = LocalTime_eq (time l) (time r)"

definition ZonedTime_less :: "ZonedTime \<Rightarrow> ZonedTime \<Rightarrow> bool" where
  "ZonedTime_less l r = LocalTime_less (time l) (time r)"

definition ZonedTime_clear :: "ZonedTime \<Rightarrow> ZonedTime" where
  "ZonedTime_clear z = z\<lparr>time := LocalTime_clear (time z)\<rparr>"

section \<open>LocalDatetime: bit fields of a quad word\<close>

record LocalDatetime =
  qword :: int64

text \<open>A bit field of width \<open>w\<close> at offset \<open>o\<close>; the fields are laid out from bit 0 upwards in
  the order of the declaration: 16, 4, 5, 5, 6, 6 and 22 bits.\<close>

definition get_field :: "nat \<Rightarrow> nat \<Rightarrow> int64 \<Rightarrow> int64" where
  "get_field off w q = take_bit w (drop_bit off q)"

definition set_field :: "nat \<Rightarrow> nat \<Rightarrow> int64 \<Rightarrow> int64 \<Rightarrow> int64" where
  "set_field off w v q = (q AND NOT (push_bit off (mask w))) OR push_bit off (take_bit w v)"

definition dt_year :: "LocalDatetime \<Rightarrow> int" where
  "dt_year t = sint (ucast (get_field 0 16 (qword t)) :: int16)"
definition dt_month :: "LocalDatetime \<Rightarrow> int" where
  "dt_month t = uint (get_field 16 4 (qword t))"
definition dt_day :: "LocalDatetime \<Rightarrow> int" where
  "dt_day t = uint (get_field 20 5 (qword t))"
definition dt_hour :: "LocalDatetime \<Rightarrow> int" where
  "dt_hour t = uint (get_field 25 5 (qword t))"
definition dt_minute :: "LocalDatetime \<Rightarrow> int" where
  "dt_minute t = uint (get_field 30 6 (qword t))"
definition dt_sec :: "LocalDatetime \<Rightarrow> int" where
  "dt_sec t = uint (get_field 36 6 (qword t))"
definition dt_microsec :: "LocalDatetime \<Rightarrow> int" where
  "dt_microsec t = uint (get_field 42 22 (qword t))"

definition LocalDatetime_mk ::
  "int16 \<Rightarrow> int8 \<Rightarrow> int8 \<Rightarrow> int8 \<Rightarrow> int8 \<Rightarrow> int8 \<Rightarrow> int32 \<Rightarrow> LocalDatetime" where
  "LocalDatetime_mk y m d h mi s us =
     \<lparr>qword = set_field 42 22 (scast us) (set_field 36 6 (scast s) (set_field 30 6 (scast mi)
        (set_field 25 5 (scast h) (set_field 20 5 (scast d) (set_field 16 4 (scast m)
          (set_field 0 16 (scast y) 0))))))\<rparr>"

definition LocalDatetime_of_date :: "Date \<Rightarrow> LocalDatetime" where
  "LocalDatetime_of_date d = LocalDatetime_mk (year d) (month d) (day d) 0 0 0 0"

definition LocalDatetime_of :: "Date \<Rightarrow> LocalTime \<Rightarrow> LocalDatetime" where
  "LocalDatetime_of d t =
     LocalDatetime_mk (year d) (month d) (day d) (hour t) (minute t) (sec t) (microsec t)"

definition dt_date :: "LocalDatetime \<Rightarrow> Date" where
  "dt_date t = \<lparr>year = word_of_int (dt_year t), month = word_of_int (dt_month t),
                day = word_of_int (dt_day t)\<rparr>"

definition dt_time :: "LocalDatetime \<Rightarrow> LocalTime" where
  "dt_time t = LocalTime_mk (word_of_int (dt_hour t)) (word_of_int (dt_minute t))
                 (word_of_int (dt_sec t)) (word_of_int (dt_microsec t))"

definition dt_fields :: "LocalDatetime \<Rightarrow> int list" where
  "dt_fields t = [dt_year t, dt_month t, dt_day t, dt_hour t, dt_minute t, dt_sec t, dt_microsec t]"

definition LocalDatetime_eq :: "LocalDatetime \<Rightarrow> LocalDatetime \<Rightarrow> bool" where
  "LocalDatetime_eq l r \<longleftrightarrow>
     dt_year l = dt_year r \<and> dt_month l = dt_month r \<and> dt_day l = dt_day r \<and> dt_hour l = dt_hour r \<and>
     dt_minute l = dt_minute r \<and> dt_sec l = dt_sec r \<and> dt_microsec l = dt_microsec r"

definition LocalDatetime_less :: "LocalDatetime \<Rightarrow> LocalDatetime \<Rightarrow> bool" where
  "LocalDatetime_less l r =
     (if \<not> dt_year l = dt_year r then dt_year l < dt_year r
      else if \<not> dt_month l = dt_month r then dt_month l < dt_month r
      else if \<not> dt_day l = dt_day r then dt_day l < dt_day r
      else if \<not> dt_hour l = dt_hour r then dt_hour l < dt_hour r
      else if \<not> dt_minute l = dt_minute r then dt_minute l < dt_minute r
      else if \<not> dt_sec l = dt_sec r then dt_sec l < dt_sec r
      else if \<not> dt_microsec l = dt_microsec r then dt_microsec l < dt_microsec r
      else False)"

definition LocalDatetime_hash :: "LocalDatetime \<Rightarrow> uint64" where
  "LocalDatetime_hash t = qword t"

text \<open>The broken-down calendar time of \<^verbatim>\<open>std::localtime\<close>/\<^verbatim>\<open>std::gmtime\<close>.\<close>

record tm =
  tm_year :: int
  tm_mon :: int
  tm_mday :: int
  tm_hour :: int
  tm_min :: int
  tm_sec :: int

definition microsToDateTime :: "(int \<Rightarrow> tm) \<Rightarrow> int64 \<Rightarrow> LocalDatetime" where
  "microsToDateTime localtime micros =
     (let secs = sint micros sdiv 1000000; t = localtime secs
      in LocalDatetime_mk (word_of_int (tm_year t + 1900)) (word_of_int (tm_mon t + 1))
           (word_of_int (tm_mday t)) (word_of_int (tm_hour t)) (word_of_int (tm_min t))
           (word_of_int (tm_sec t)) (word_of_int (sint micros smod 1000000)))"

section \<open>ZonedDatetime\<close>

record ZonedDatetime =
  datetime :: LocalDatetime

definition ZonedDatetime_default :: ZonedDatetime where
  "ZonedDatetime_default = \<lparr>datetime = LocalDatetime_mk 1970 1 1 0 0 0 0\<rparr>"

definition ZonedDatetime_of :: "Date \<Rightarrow> ZonedTime \<Rightarrow> ZonedDatetime" where
  "ZonedDatetime_of d z = \<lparr>datetime = LocalDatetime_of d (time z)\<rparr>"

definition zonedTime :: "ZonedDatetime \<Rightarrow> ZonedTime" where
  "zonedTime z = \<lparr>time = dt_time (datetime z)\<rparr>"

definition ZonedDatetime_eq :: "ZonedDatetime \<Rightarrow> ZonedDatetime \<Rightarrow> bool" where
  "ZonedDatetime_eq l r = LocalDatetime_eq (datetime l) (datetime r)"

definition ZonedDatetime_less :: "ZonedDatetime \<Rightarrow> ZonedDatetime \<Rightarrow> bool" where
  "ZonedDatetime_less l r = LocalDatetime_less (datetime l) (datetime r)"

definition microsToZonedDatetime :: "(int \<Rightarrow> tm) \<Rightarrow> int64 \<Rightarrow> ZonedDatetime" where
  "microsToZonedDatetime gmtime micros = \<lparr>datetime = microsToDateTime gmtime micros\<rparr>"

section \<open>Duration\<close>

record Duration =
  seconds :: int64
  microseconds :: int32
  months :: int32

definition Duration_mk :: "int32 \<Rightarrow> int64 \<Rightarrow> int32 \<Rightarrow> Duration" where
  "Duration_mk m s us = \<lparr>seconds = s, microseconds = us, months = m\<rparr>"

definition years :: "Duration \<Rightarrow> int" where "years d = sint (months d) sdiv 12"
definition monthsInYear :: "Duration \<Rightarrow> int" where "monthsInYear d = sint (months d) smod 12"
definition days :: "Duration \<Rightarrow> int" where "days d = sint (seconds d) sdiv kSecondsOfDay"
definition hours :: "Duration \<Rightarrow> int" where
  "hours d = sint (seconds d) smod kSecondsOfDay sdiv kSecondsOfHour"
definition minutes :: "Duration \<Rightarrow> int" where
  "minutes d = sint (seconds d) smod kSecondsOfHour sdiv kSecondsOfMinute"
definition secondsInMinute :: "Duration \<Rightarrow> int" where
  "secondsInMinute d = sint (seconds d) smod kSecondsOfMinute"
definition microsecondsInSecond :: "Duration \<Rightarrow> int" where
  "microsecondsInSecond d = sint (microseconds d)"

definition Duration_neg :: "Duration \<Rightarrow> Duration" where
  "Duration_neg d = Duration_mk (- months d) (- seconds d) (- microseconds d)"

definition Duration_add :: "Duration \<Rightarrow> Duration \<Rightarrow> Duration" where
  "Duration_add l r =
     Duration_mk (months l + months r) (seconds l + seconds r) (microseconds l + microseconds r)"

definition Duration_sub :: "Duration \<Rightarrow> Duration \<Rightarrow> Duration" where
  "Duration_sub l r =
     Duration_mk (months l - months r) (seconds l - seconds r) (microseconds l - microseconds r)"

definition addYears :: "int32 \<Rightarrow> Duration \<Rightarrow> Duration" where
  "addYears y d = d\<lparr>months := months d + y * 12\<rparr>"
definition addQuarters :: "int32 \<Rightarrow> Duration \<Rightarrow> Duration" where
  "addQuarters q d = d\<lparr>months := months d + q * 3\<rparr>"
definition addMonths :: "int32 \<Rightarrow> Duration \<Rightarrow> Duration" where
  "addMonths m d = d\<lparr>months := months d + m\<rparr>"

text \<open>\<^verbatim>\<open>w * 7 * kSecondsOfDay\<close> multiplies by 7 at the width of \<^verbatim>\<open>int32_t\<close>.\<close>

definition addWeeks :: "int32 \<Rightarrow> Duration \<Rightarrow> Duration" where
  "addWeeks w d = d\<lparr>seconds := seconds d + scast (w * 7) * word_of_int kSecondsOfDay\<rparr>"
definition addDays :: "int64 \<Rightarrow> Duration \<Rightarrow> Duration" where
  "addDays n d = d\<lparr>seconds := seconds d + n * word_of_int kSecondsOfDay\<rparr>"
definition addHours :: "int64 \<Rightarrow> Duration \<Rightarrow> Duration" where
  "addHours n d = d\<lparr>seconds := seconds d + n * word_of_int kSecondsOfHour\<rparr>"
definition addMinutes :: "int64 \<Rightarrow> Duration \<Rightarrow> Duration" where
  "addMinutes n d = d\<lparr>seconds := seconds d + n * word_of_int kSecondsOfMinute\<rparr>"
definition addSeconds :: "int64 \<Rightarrow> Duration \<Rightarrow> Duration" where
  "addSeconds n d = d\<lparr>seconds := seconds d + n\<rparr>"
definition addMilliseconds :: "int64 \<Rightarrow> Duration \<Rightarrow> Duration" where
  "addMilliseconds ms d =
     d\<lparr>seconds := seconds d + word_of_int (sint ms sdiv 1000),
       microseconds := word_of_int (sint (microseconds d) + (sint ms smod 1000) * 1000)\<rparr>"
definition addMicroseconds :: "int32 \<Rightarrow> Duration \<Rightarrow> Duration" where
  "addMicroseconds us d = d\<lparr>microseconds := microseconds d + us\<rparr>"

definition Duration_less :: "Duration \<Rightarrow> Duration \<Rightarrow> bool" where
  "Duration_less l r \<longleftrightarrow>
     sint (months l) < sint (months r) \<or>
     (months l = months r \<and> sint (seconds l) < sint (seconds r)) \<or>
     (months l = months r \<and> seconds l = seconds r \<and> sint (microseconds l) < sint (microseconds r))"

definition Duration_eq :: "Duration \<Rightarrow> Duration \<Rightarrow> bool" where
  "Duration_eq l r \<longleftrightarrow> months l = months r \<and> seconds l = seconds r \<and> microseconds l = microseconds r"

section \<open>Calendar laws\<close>

lemma smod_eq_0_iff: "a smod b = 0 \<longleftrightarrow> b dvd a" if "0 < b" for a b :: int
proof -
  have "a smod b = sgn a * (\<bar>a\<bar> mod b)" using that by (simp add: signed_modulo_int_def signed_divide_int_def
        algebra_simps sgn_mult_abs minus_div_mult_eq_mod [symmetric] abs_sgn mult.commute)
  then show ?thesis by (auto simp: sgn_0_0 mod_eq_0_iff_dvd)
qed

lemma isLeapYear_iff:
  "isLeapYear y \<longleftrightarrow> 4 dvd sint y \<and> (100 dvd sint y \<longrightarrow> 400 dvd sint y)"
  by (auto simp: isLeapYear_def smod_eq_0_iff)

interpretation date_order: comparison Date_less Date_eq
  by unfold_locales (auto simp: Date_less_def Date_eq_def dest: sint_less_linear split: if_splits)

definition lt_fields :: "LocalTime \<Rightarrow> int list" where
  "lt_fields t = [sint (hour t), sint (minute t), sint (sec t), sint (microsec t)]"

lemma LocalTime_less_lex: "LocalTime_less l r \<longleftrightarrow> ord_class.lexordp (lt_fields l) (lt_fields r)"
  unfolding LocalTime_less_def lt_fields_def sint_eq_iff [symmetric] lex_step by simp

lemma LocalTime_eq_fields: "LocalTime_eq l r \<longleftrightarrow> lt_fields l = lt_fields r"
  by (simp add: LocalTime_eq_def lt_fields_def sint_eq_iff)

interpretation time_order: comparison LocalTime_less LocalTime_eq
  by unfold_locales
    (auto simp: LocalTime_less_lex LocalTime_eq_fields lexordp_irreflexive'
      intro: lexordp_trans lexordp_total)

interpretation zoned_time_order: comparison ZonedTime_less ZonedTime_eq
  by unfold_locales
    (auto simp: ZonedTime_less_def ZonedTime_eq_def time_order.eq_refl
      intro: time_order.eq_sym time_order.eq_trans time_order.less_trans time_order.less_total
      dest: time_order.eq_not_less)

lemma LocalDatetime_less_lex: "LocalDatetime_less l r \<longleftrightarrow> ord_class.lexordp (dt_fields l) (dt_fields r)"
  unfolding LocalDatetime_less_def dt_fields_def lex_step by simp

lemma LocalDatetime_eq_fields: "LocalDatetime_eq l r \<longleftrightarrow> dt_fields l = dt_fields r"
  by (simp add: LocalDatetime_eq_def dt_fields_def)

interpretation datetime_order: comparison LocalDatetime_less LocalDatetime_eq
  by unfold_locales
    (auto simp: LocalDatetime_less_lex LocalDatetime_eq_fields lexordp_irreflexive'
      intro: lexordp_trans lexordp_total)

interpretation zoned_datetime_order: comparison ZonedDatetime_less ZonedDatetime_eq
  by unfold_locales
    (auto simp: ZonedDatetime_less_def ZonedDatetime_eq_def datetime_order.eq_refl
      intro: datetime_order.eq_sym datetime_order.eq_trans datetime_order.less_trans
        datetime_order.less_total
      dest: datetime_order.eq_not_less)

interpretation duration_order: comparison Duration_less Duration_eq
  by unfold_locales (auto simp: Duration_less_def Duration_eq_def dest: sint_less_linear)

section \<open>Bit field laws\<close>

lemma get_field_bit: "bit (get_field off w q) n \<longleftrightarrow> n < w \<and> bit q (off + n)"
  by (auto simp: get_field_def bit_take_bit_iff bit_drop_bit_eq)

lemma set_field_bit:
  "bit (set_field off w v q) n \<longleftrightarrow>
     n < 64 \<and> (if off \<le> n \<and> n < off + w then bit v (n - off) else bit q n)"
  by (auto simp: set_field_def bit_simps dest: bit_imp_le_length)

lemma get_set_field: "off + w \<le> 64 \<Longrightarrow> get_field off w (set_field off w v q) = take_bit w v"
  by (rule bit_word_eqI) (auto simp: get_field_bit set_field_bit bit_take_bit_iff)

lemma get_set_field_disjoint:
  "off + w \<le> off' \<or> off' + w' \<le> off \<Longrightarrow> get_field off' w' (set_field off w v q) = get_field off' w' q"
  by (rule bit_word_eqI) (auto simp: get_field_bit set_field_bit dest: bit_imp_le_length)

lemma uint_take_bit_scast:
  fixes x :: "'a::len word"
  assumes "0 \<le> sint x" "sint x < 2 ^ w" "w \<le> 64"
  shows "uint (take_bit w (scast x :: int64)) = sint x"
proof -
  have "uint (take_bit w (scast x :: int64)) = take_bit w (uint (scast x :: int64))"
    by (simp add: unsigned_take_bit_eq)
  also have "uint (scast x :: int64) = take_bit 64 (sint x)"
    by (simp add: uint_scast)
  finally show ?thesis using assms
    by (simp add: take_bit_take_bit min_absorb1 take_bit_int_eq_self)
qed

definition valid_datetime_parts :: "int8 \<Rightarrow> int8 \<Rightarrow> int8 \<Rightarrow> int8 \<Rightarrow> int8 \<Rightarrow> int32 \<Rightarrow> bool" where
  "valid_datetime_parts m d h mi s us \<longleftrightarrow>
     0 \<le> sint m \<and> sint m < 16 \<and> 0 \<le> sint d \<and> sint d < 32 \<and> 0 \<le> sint h \<and> sint h < 32 \<and>
     0 \<le> sint mi \<and> sint mi < 64 \<and> 0 \<le> sint s \<and> sint s < 64 \<and> 0 \<le> sint us \<and> sint us < 2 ^ 22"

lemmas dt_getters = dt_year_def dt_month_def dt_day_def dt_hour_def dt_minute_def dt_sec_def
  dt_microsec_def

lemma dt_year_mk: "dt_year (LocalDatetime_mk y m d h mi s us) = sint y"
proof -
  have "ucast (take_bit 16 (scast y :: int64)) = y"
    by (rule bit_word_eqI) (auto simp: bit_simps)
  then show ?thesis
    by (simp add: dt_year_def LocalDatetime_mk_def get_set_field get_set_field_disjoint)
qed

lemma dt_fields_mk:
  assumes "valid_datetime_parts m d h mi s us"
  shows "dt_fields (LocalDatetime_mk y m d h mi s us) =
    [sint y, sint m, sint d, sint h, sint mi, sint s, sint us]"
  using assms uint_take_bit_scast [of m 4] uint_take_bit_scast [of d 5] uint_take_bit_scast [of h 5]
    uint_take_bit_scast [of mi 6] uint_take_bit_scast [of s 6] uint_take_bit_scast [of us 22]
  by (simp add: dt_fields_def dt_year_mk valid_datetime_parts_def)
    (simp add: dt_getters LocalDatetime_mk_def get_set_field get_set_field_disjoint)

lemma get_field_eq_bits:
  "get_field off w p = get_field off w q \<Longrightarrow> off \<le> n \<Longrightarrow> n < off + w \<Longrightarrow> bit p n = bit q n"
  using get_field_bit [of off w p "n - off"] get_field_bit [of off w q "n - off"]
  by (simp add: less_diff_conv2 add.commute)

lemma dt_eq_imp_qword:
  assumes "LocalDatetime_eq l r"
  shows "qword l = qword r"
proof (rule bit_word_eqI)
  let ?p = "qword l" and ?q = "qword r"
  have y: "get_field 0 16 ?p = get_field 0 16 ?q"
  proof (rule bit_word_eqI)
    have e: "(ucast (get_field 0 16 ?p) :: int16) = ucast (get_field 0 16 ?q)"
      using assms by (simp add: LocalDatetime_eq_def dt_year_def sint_eq_iff)
    fix n assume "n < LENGTH(64)"
    show "bit (get_field 0 16 ?p) n = bit (get_field 0 16 ?q) n"
      using arg_cong [OF e, of "\<lambda>x. bit x n"] by (auto simp: bit_simps get_field_bit)
  qed
  have f: "get_field 16 4 ?p = get_field 16 4 ?q" "get_field 20 5 ?p = get_field 20 5 ?q"
    "get_field 25 5 ?p = get_field 25 5 ?q" "get_field 30 6 ?p = get_field 30 6 ?q"
    "get_field 36 6 ?p = get_field 36 6 ?q" "get_field 42 22 ?p = get_field 42 22 ?q"
    using assms by (simp_all add: LocalDatetime_eq_def dt_getters word_uint_eq_iff)
  fix n assume n: "n < LENGTH(64)"
  then consider "n < 16" | "16 \<le> n" "n < 20" | "20 \<le> n" "n < 25" | "25 \<le> n" "n < 30"
    | "30 \<le> n" "n < 36" | "36 \<le> n" "n < 42" | "42 \<le> n" by fastforce
  then show "bit ?p n = bit ?q n"
    using n get_field_eq_bits [OF y, of n] get_field_eq_bits [OF f(1), of n]
      get_field_eq_bits [OF f(2), of n] get_field_eq_bits [OF f(3), of n]
      get_field_eq_bits [OF f(4), of n] get_field_eq_bits [OF f(5), of n]
      get_field_eq_bits [OF f(6), of n]
    by cases simp_all
qed

lemma LocalDatetime_eq_iff: "LocalDatetime_eq l r \<longleftrightarrow> l = r"
  using dt_eq_imp_qword [of l r] datetime_order.eq_refl by (cases l; cases r) auto

section \<open>Duration laws\<close>

lemma sdiv_smod: "a sdiv b * b + a smod b = a" for a b :: int
proof -
  have "a sdiv b * b + a smod b = sgn a * (\<bar>b\<bar> * (\<bar>a\<bar> div \<bar>b\<bar>) + \<bar>a\<bar> mod \<bar>b\<bar>)"
    by (simp add: signed_divide_int_def signed_modulo_int_def algebra_simps abs_sgn [of b])
  then show ?thesis by (simp add: sgn_mult_abs)
qed

lemma smod_smod_cancel:
  fixes a b c :: int
  assumes "c dvd b" "0 < b" "0 < c"
  shows "a smod b smod c = a smod c"
proof -
  have m: "x mod b mod c = x mod c" for x :: int
    by (rule mod_mod_cancel) (rule assms(1))
  show ?thesis
  proof (cases "\<bar>a\<bar> mod b = 0")
    case True
    then have "\<bar>a\<bar> mod c = 0" using m [of "\<bar>a\<bar>"] by simp
    with True assms show ?thesis by (simp add: signed_modulo_int_def)
  next
    case False
    then have "sgn (\<bar>a\<bar> mod b) = 1"
      using pos_mod_sign [of b "\<bar>a\<bar>"] assms by (simp add: sgn_if del: pos_mod_sign)
    with assms show ?thesis by (simp add: signed_modulo_int_def sgn_mult abs_mult m)
  qed
qed

lemmas smod_smod_3600 = smod_smod_cancel [of 3600 86400, simplified]
lemmas smod_smod_60 = smod_smod_cancel [of 60 3600, simplified]

lemma smod_bounds: "0 < b \<Longrightarrow> \<bar>a smod b\<bar> < b" for a b :: int
  by (simp add: signed_modulo_int_def abs_mult sgn_if)

lemma hms_decomposition:
  "sint (seconds d) smod kSecondsOfDay =
     hours d * kSecondsOfHour + minutes d * kSecondsOfMinute + secondsInMinute d"
proof -
  let ?s = "sint (seconds d)"
  have "?s smod 86400 = hours d * 3600 + ?s smod 86400 smod 3600"
    using sdiv_smod [of "?s smod 86400" 3600] by (simp add: hours_def time_constants)
  also have "?s smod 86400 smod 3600 = minutes d * 60 + ?s smod 3600 smod 60"
    using sdiv_smod [of "?s smod 3600" 60]
    by (simp add: minutes_def time_constants smod_smod_3600)
  also have "?s smod 3600 smod 60 = secondsInMinute d"
    by (simp add: secondsInMinute_def time_constants smod_smod_60)
  finally show ?thesis by (simp add: time_constants)
qed

section \<open>Properties\<close>

text \<open>The accessors of \<^verbatim>\<open>Duration\<close> decompose it: days, hours, minutes and seconds
  recombine to the stored number of seconds, years and months to the stored number of months,
  with each part in its range and of the sign of the whole.\<close>

theorem duration_decomposition:
  "days d * kSecondsOfDay + hours d * kSecondsOfHour + minutes d * kSecondsOfMinute
      + secondsInMinute d = sint (seconds d)
   \<and> years d * 12 + monthsInYear d = sint (months d)
   \<and> \<bar>hours d\<bar> < 24 \<and> \<bar>minutes d\<bar> < 60 \<and> \<bar>secondsInMinute d\<bar> < 60 \<and> \<bar>monthsInYear d\<bar> < 12"
proof (intro conjI)
  show "days d * kSecondsOfDay + hours d * kSecondsOfHour + minutes d * kSecondsOfMinute
      + secondsInMinute d = sint (seconds d)"
    using hms_decomposition [of d] sdiv_smod [of "sint (seconds d)" kSecondsOfDay]
    by (simp add: days_def)
  show "years d * 12 + monthsInYear d = sint (months d)"
    by (simp add: years_def monthsInYear_def sdiv_smod)
  have *: "\<bar>a sdiv b\<bar> < c" if "\<bar>a\<bar> < c * b" "0 < b" for a b c :: int
  proof -
    have "\<bar>a\<bar> div b * b \<le> \<bar>a\<bar>" using that(2) div_mult_mod_eq [of "\<bar>a\<bar>" b] pos_mod_sign [of b "\<bar>a\<bar>"]
      by linarith
    then have "\<bar>a\<bar> div b < c" using that by (meson le_less_trans mult_less_cancel_right_pos)
    moreover have "0 \<le> \<bar>a\<bar> div b" using that by (simp add: pos_imp_zdiv_nonneg_iff)
    moreover have "\<bar>a sdiv b\<bar> \<le> \<bar>a\<bar> div b"
      using that \<open>0 \<le> \<bar>a\<bar> div b\<close> by (cases "a = 0") (simp_all add: signed_divide_int_def abs_mult)
    ultimately show ?thesis by linarith
  qed
  show "\<bar>hours d\<bar> < 24" "\<bar>minutes d\<bar> < 60"
    using smod_bounds [of 86400] smod_bounds [of 3600]
    by (auto simp: hours_def minutes_def time_constants intro!: *)
  show "\<bar>secondsInMinute d\<bar> < 60" "\<bar>monthsInYear d\<bar> < 12"
    using smod_bounds by (simp_all add: secondsInMinute_def monthsInYear_def time_constants)
qed

text \<open>A date and a time of day whose parts fit the bit fields survive packing into the
  64 bit union and back, and two date-times are equal under \<^verbatim>\<open>operator==\<close> exactly when
  their hashes (the raw quad words) are.\<close>

theorem datetime_pack_roundtrip:
  assumes "valid_datetime_parts (month d) (day d) (hour t) (minute t) (sec t) (microsec t)"
    and "padding t = 0"
  shows "dt_date (LocalDatetime_of d t) = d \<and> dt_time (LocalDatetime_of d t) = t
    \<and> (\<forall>x. LocalDatetime_eq (LocalDatetime_of d t) x \<longleftrightarrow>
          LocalDatetime_hash (LocalDatetime_of d t) = LocalDatetime_hash x)"
proof -
  have f: "dt_fields (LocalDatetime_of d t) =
      [sint (year d), sint (month d), sint (day d), sint (hour t), sint (minute t), sint (sec t),
       sint (microsec t)]"
    unfolding LocalDatetime_of_def using assms(1) by (rule dt_fields_mk)
  then have "dt_date (LocalDatetime_of d t) = d" "dt_time (LocalDatetime_of d t) = t"
    using assms(2) by (simp_all add: dt_fields_def dt_date_def dt_time_def LocalTime_mk_def)
  then show ?thesis
    by (auto simp: LocalDatetime_eq_iff LocalDatetime_hash_def)
qed

theorem datetime_pack_roundtrip_witness:
  "dt_date (LocalDatetime_of \<lparr>year = 2023, month = 12, day = 31\<rparr> (LocalTime_mk 23 59 58 999999))
     = \<lparr>year = 2023, month = 12, day = 31\<rparr>"
  using datetime_pack_roundtrip [of "\<lparr>year = 2023, month = 12, day = 31\<rparr>" "LocalTime_mk 23 59 58 999999"]
  by (simp add: valid_datetime_parts_def LocalTime_mk_def)

text \<open>Before the epoch a fractional second is stored wrongly: for a negative number of
  microseconds that is not a whole number of seconds, the remainder is negative and its low 22
  bits land in the field, so \<^verbatim>\<open>microsec\<close> is above 999999.\<close>

theorem microsToDateTime_negative_fraction:
  assumes "sint micros < 0" and "\<not> 1000000 dvd sint micros"
  shows "dt_microsec (microsToDateTime lt micros) = 2 ^ 22 + sint micros smod 1000000
    \<and> 999999 < dt_microsec (microsToDateTime lt micros)"
proof -
  let ?r = "sint micros smod 1000000"
  have r: "-1000000 < ?r" "?r < 0"
    using assms smod_bounds [of 1000000 "sint micros"] smod_eq_0_iff [of 1000000 "sint micros"]
    by (auto simp: signed_modulo_int_def sgn_if mult_less_0_iff split: if_splits)
  have "sint (word_of_int ?r :: int32) = ?r"
    using r by (intro sint_of_int_id) simp_all
  then have "dt_microsec (microsToDateTime lt micros) = take_bit 22 (take_bit 64 ?r)"
    by (simp add: microsToDateTime_def Let_def dt_microsec_def LocalDatetime_mk_def get_set_field
        unsigned_take_bit_eq uint_scast)
  also have "\<dots> = ?r mod 2 ^ 22"
    by (simp add: take_bit_take_bit take_bit_eq_mod [of 22])
  also have "?r mod 2 ^ 22 = 2 ^ 22 + ?r"
  proof -
    have "?r mod 2 ^ 22 = (?r + 2 ^ 22) mod 2 ^ 22" by simp
    also have "\<dots> = ?r + 2 ^ 22" using r by (intro mod_pos_pos_trivial) simp_all
    finally show ?thesis by simp
  qed
  finally show ?thesis using r by simp
qed

theorem microsToDateTime_negative_fraction_witness:
  "dt_microsec (microsToDateTime (\<lambda>_. \<lparr>tm_year = 69, tm_mon = 11, tm_mday = 31, tm_hour = 23,
      tm_min = 59, tm_sec = 59\<rparr>) (-1)) = 4194303"
  using microsToDateTime_negative_fraction [of "-1" "\<lambda>_. \<lparr>tm_year = 69, tm_mon = 11, tm_mday = 31,
      tm_hour = 23, tm_min = 59, tm_sec = 59\<rparr>"]
  by (simp add: signed_modulo_int_def)

end
