(* ===== verification/Double.thy ===== *)
theory Double
  imports Prelude
begin

text \<open>
  IEEE 754 binary64 arithmetic, the \<^verbatim>\<open>double\<close> of the sources. A double is its 64 bit
  memory image, because \<^verbatim>\<open>NetworkTopoAlgorithm::writeDouble\<close> reinterprets that memory.
  Operations decode their operands, compute the exact rational result and round it to
  nearest, ties to even. A conversion to an integer type that cannot represent the truncated
  value is undefined in C++ and is \<open>None\<close> here.
\<close>

unbundle bit_operations_syntax

type_synonym double = "64 word"

text \<open>\<open>FFin s m e\<close> is the value \<open>(-1)^s * m * 2^e\<close>.\<close>

datatype fp = FNaN | FInf bool | FFin bool int int

definition fp_sign_bit :: double where "fp_sign_bit = push_bit 63 1"
definition fp_nan :: double where "fp_nan = 0x7FF8000000000000"
definition fp_zero :: "bool \<Rightarrow> double" where "fp_zero s = (if s then fp_sign_bit else 0)"

definition fp_inf :: "bool \<Rightarrow> double" where
  "fp_inf s = (if s then fp_sign_bit OR 0x7FF0000000000000 else 0x7FF0000000000000)"

definition fp_fields :: "double \<Rightarrow> bool \<times> int \<times> int" where
  "fp_fields w = (bit w 63, uint (take_bit 11 (drop_bit 52 w)), uint (take_bit 52 w))"

definition decode :: "double \<Rightarrow> fp" where
  "decode w = (case fp_fields w of (s, ex, fr) \<Rightarrow>
     if ex = 2047 then (if fr = 0 then FInf s else FNaN)
     else if ex = 0 then FFin s fr (-1074)
     else FFin s (fr + 2 ^ 52) (ex - 1075))"

section \<open>Rounding\<close>

function bitlen :: "int \<Rightarrow> int" where
  "bitlen n = (if n \<le> 0 then 0 else 1 + bitlen (n div 2))"
  by pat_completeness auto
termination
  by (relation "measure nat") auto

declare bitlen.simps [simp del]

text \<open>The quotient \<open>n / d\<close> rounded to the nearest integer, ties to even.\<close>

definition round_div :: "int \<Rightarrow> int \<Rightarrow> int" where
  "round_div n d =
     (let q = n div d; r = n mod d
      in if 2 * r > d \<or> (2 * r = d \<and> odd q) then q + 1 else q)"

text \<open>The ratio \<open>n / d\<close> scaled by \<open>2 ^ (- e)\<close>.\<close>

definition scale_ratio :: "int \<Rightarrow> int \<Rightarrow> int \<Rightarrow> int \<times> int" where
  "scale_ratio n d e =
     (if 0 \<le> e then (n, d * 2 ^ nat e) else (n * 2 ^ nat (- e), d))"

text \<open>The exponent of the unit in the last place of a double near \<open>n / d\<close>.\<close>

definition ulp_exponent :: "int \<Rightarrow> int \<Rightarrow> int" where
  "ulp_exponent n d =
     (let k = bitlen n - bitlen d;
          ge = (if 0 \<le> k then d * 2 ^ nat k \<le> n else d \<le> n * 2 ^ nat (- k));
          e = (if ge then k - 52 else k - 53)
      in max e (-1074))"

text \<open>The double nearest to \<open>n / d\<close> with sign \<open>s\<close>: the mantissa with its hidden bit is added
  to the biased exponent, so a carry out of the mantissa increments the exponent.\<close>

definition round_ratio :: "bool \<Rightarrow> int \<Rightarrow> int \<Rightarrow> double" where
  "round_ratio s n d =
     (if n = 0 then fp_zero s
      else let e = ulp_exponent n d; (a, b) = scale_ratio n d e; m = round_div a b;
               bits = (e + 1074) * 2 ^ 52 + m
           in if 2047 * 2 ^ 52 \<le> bits then fp_inf s
              else word_of_int bits OR (if s then fp_sign_bit else 0))"

text \<open>\<open>i * 2^e\<close> and \<open>i / d\<close> for a signed \<open>i\<close>; \<open>z\<close> is the sign of an exact zero.\<close>

definition round_int :: "bool \<Rightarrow> int \<Rightarrow> int \<Rightarrow> double" where
  "round_int z i e =
     (if i = 0 then fp_zero z
      else if 0 \<le> e then round_ratio (i < 0) (\<bar>i\<bar> * 2 ^ nat e) 1
      else round_ratio (i < 0) \<bar>i\<bar> (2 ^ nat (- e)))"

section \<open>Operations\<close>

definition d_neg :: "double \<Rightarrow> double" where
  "d_neg w = w XOR fp_sign_bit"

definition d_abs :: "double \<Rightarrow> double" where
  "d_abs w = w AND NOT fp_sign_bit"

definition signed_mant :: "bool \<Rightarrow> int \<Rightarrow> int" where
  "signed_mant s m = (if s then - m else m)"

definition d_add :: "double \<Rightarrow> double \<Rightarrow> double" where
  "d_add a b = (case (decode a, decode b) of
     (FNaN, _) \<Rightarrow> fp_nan
   | (_, FNaN) \<Rightarrow> fp_nan
   | (FInf s, FInf t) \<Rightarrow> (if s = t then fp_inf s else fp_nan)
   | (FInf s, FFin _ _ _) \<Rightarrow> fp_inf s
   | (FFin _ _ _, FInf t) \<Rightarrow> fp_inf t
   | (FFin s m e, FFin t n f) \<Rightarrow>
       (let g = min e f;
            i = signed_mant s m * 2 ^ nat (e - g) + signed_mant t n * 2 ^ nat (f - g)
        in round_int (s \<and> t) i g))"

definition d_mul :: "double \<Rightarrow> double \<Rightarrow> double" where
  "d_mul a b = (case (decode a, decode b) of
     (FNaN, _) \<Rightarrow> fp_nan
   | (_, FNaN) \<Rightarrow> fp_nan
   | (FInf s, FInf t) \<Rightarrow> fp_inf (s \<noteq> t)
   | (FInf s, FFin t n _) \<Rightarrow> (if n = 0 then fp_nan else fp_inf (s \<noteq> t))
   | (FFin s m _, FInf t) \<Rightarrow> (if m = 0 then fp_nan else fp_inf (s \<noteq> t))
   | (FFin s m e, FFin t n f) \<Rightarrow>
       round_int (s \<noteq> t) (signed_mant (s \<noteq> t) (m * n)) (e + f))"

definition d_div :: "double \<Rightarrow> double \<Rightarrow> double" where
  "d_div a b = (case (decode a, decode b) of
     (FNaN, _) \<Rightarrow> fp_nan
   | (_, FNaN) \<Rightarrow> fp_nan
   | (FInf s, FInf t) \<Rightarrow> fp_nan
   | (FInf s, FFin t _ _) \<Rightarrow> fp_inf (s \<noteq> t)
   | (FFin s _ _, FInf t) \<Rightarrow> fp_zero (s \<noteq> t)
   | (FFin s m e, FFin t n f) \<Rightarrow>
       (if n = 0 then (if m = 0 then fp_nan else fp_inf (s \<noteq> t))
        else if f \<le> e then round_ratio (s \<noteq> t) (m * 2 ^ nat (e - f)) n
        else round_ratio (s \<noteq> t) m (n * 2 ^ nat (f - e))))"

definition d_less :: "double \<Rightarrow> double \<Rightarrow> bool" where
  "d_less a b = (case (decode a, decode b) of
     (FNaN, _) \<Rightarrow> False
   | (_, FNaN) \<Rightarrow> False
   | (FInf s, FInf t) \<Rightarrow> s \<and> \<not> t
   | (FInf s, FFin _ _ _) \<Rightarrow> s
   | (FFin _ _ _, FInf t) \<Rightarrow> \<not> t
   | (FFin s m e, FFin t n f) \<Rightarrow>
       (let g = min e f
        in signed_mant s m * 2 ^ nat (e - g) < signed_mant t n * 2 ^ nat (f - g)))"

text \<open>A decimal literal \<open>n / d\<close>, and an integer converted to double.\<close>

definition d_lit :: "int \<Rightarrow> int \<Rightarrow> double" where
  "d_lit n d = round_ratio False n d"

definition d_of_int :: "int \<Rightarrow> double" where
  "d_of_int i = round_int False i 0"

text \<open>The implicit conversion to \<^verbatim>\<open>int64_t\<close>: truncation, undefined out of range.\<close>

definition trunc_fp :: "int \<Rightarrow> int \<Rightarrow> int" where
  "trunc_fp m e = (if 0 \<le> e then m * 2 ^ nat e else m div 2 ^ nat (- e))"

definition d_to_int64 :: "double \<Rightarrow> int64 option" where
  "d_to_int64 w = (case decode w of
     FFin s m e \<Rightarrow>
       (let i = signed_mant s (trunc_fp m e)
        in if - (2 ^ 63) \<le> i \<and> i < 2 ^ 63 then Some (word_of_int i) else None)
   | _ \<Rightarrow> None)"

text \<open>\<^verbatim>\<open>std::sqrt(3)\<close>, correctly rounded.\<close>

definition d_sqrt3 :: double where "d_sqrt3 = 0x3FFBB67AE8584CAA"

section \<open>std::to_string(double)\<close>

function dec_digits :: "int \<Rightarrow> string" where
  "dec_digits n =
     (if n < 10 then [char_of (48 + n)] else dec_digits (n div 10) @ [char_of (48 + n mod 10)])"
  by pat_completeness auto
termination
  by (relation "measure nat") auto

declare dec_digits.simps [simp del]

definition pad_left :: "nat \<Rightarrow> string \<Rightarrow> string" where
  "pad_left k s = replicate (k - length s) CHR ''0'' @ s"

text \<open>\<^verbatim>\<open>%f\<close>: six decimals, the exact value rounded half to even.\<close>

definition to_string :: "double \<Rightarrow> string" where
  "to_string w = (case decode w of
     FNaN \<Rightarrow> (if fst (fp_fields w) then ''-nan'' else ''nan'')
   | FInf s \<Rightarrow> (if s then ''-inf'' else ''inf'')
   | FFin s m e \<Rightarrow>
       (let v = (if 0 \<le> e then m * 2 ^ nat e * 10 ^ 6
                 else round_div (m * 10 ^ 6) (2 ^ nat (- e)))
        in (if s then ''-'' else '''') @ dec_digits (v div 10 ^ 6) @ ''.'' @
           pad_left 6 (dec_digits (v mod 10 ^ 6))))"

section \<open>Laws\<close>

lemma round_div_nearest:
  assumes "0 < d" "0 \<le> n"
  shows "2 * \<bar>round_div n d * d - n\<bar> \<le> d"
proof -
  have n: "n = n div d * d + n mod d" by simp
  have "0 \<le> n mod d" "n mod d < d" using assms by simp_all
  moreover have "(n div d + 1) * d - n = d - n mod d" "n div d * d - n = - (n mod d)"
    using n by (simp_all add: algebra_simps)
  ultimately show ?thesis
    by (auto simp: round_div_def Let_def)
qed

lemma round_div_exact: "0 < d \<Longrightarrow> round_div (k * d) d = k"
  by (simp add: round_div_def)

definition fp_neg :: "fp \<Rightarrow> fp" where
  "fp_neg v = (case v of FNaN \<Rightarrow> FNaN | FInf s \<Rightarrow> FInf (\<not> s) | FFin s m e \<Rightarrow> FFin (\<not> s) m e)"

lemma fp_sign_bit_bit: "bit fp_sign_bit n \<longleftrightarrow> n = 63"
  unfolding fp_sign_bit_def by (subst bit_push_bit_iff) (auto simp: bit_1_iff)

lemma low_fields_cong:
  fixes v w :: double
  assumes "\<And>n. n < 63 \<Longrightarrow> bit v n = bit w n"
  shows "take_bit 11 (drop_bit 52 v) = take_bit 11 (drop_bit 52 w)" "take_bit 52 v = take_bit 52 w"
  using assms by (auto intro!: bit_word_eqI simp: bit_take_bit_iff bit_drop_bit_eq)

lemma fp_fields_neg: "fp_fields (d_neg w) = (case fp_fields w of (s, r) \<Rightarrow> (\<not> s, r))"
  using low_fields_cong [of "d_neg w" w]
  by (simp add: fp_fields_def d_neg_def bit_xor_iff fp_sign_bit_bit)

lemma fp_fields_abs: "fp_fields (d_abs w) = (case fp_fields w of (s, r) \<Rightarrow> (False, r))"
  using low_fields_cong [of "d_abs w" w]
  by (simp add: fp_fields_def d_abs_def bit_and_iff bit_not_iff fp_sign_bit_bit possible_bit_word)

lemma decode_neg: "decode (d_neg w) = fp_neg (decode w)"
  by (cases "fp_fields w") (simp add: decode_def fp_fields_neg fp_neg_def)

lemma d_neg_neg: "d_neg (d_neg w) = w"
  by (simp add: d_neg_def xor.assoc)

lemma d_abs_nonneg: "\<not> d_less (d_abs w) 0"
proof -
  have f: "fp_fields (d_abs w) = (False, uint (take_bit 11 (drop_bit 52 w)), uint (take_bit 52 w))"
    unfolding fp_fields_abs by (simp add: fp_fields_def)
  have "decode 0 = FFin False 0 (-1074)" by code_simp
  moreover have "decode (d_abs w) = FInf False \<or> decode (d_abs w) = FNaN \<or>
      (\<exists>m e. decode (d_abs w) = FFin False m e \<and> 0 \<le> m)"
    by (auto simp: decode_def f)
  ultimately show ?thesis
    by (auto simp: d_less_def Let_def signed_mant_def not_less mult_less_0_iff)
qed

text \<open>The negation of a negative number is not negative.\<close>

lemma d_neg_not_negative:
  assumes "d_less w 0"
  shows "\<not> d_less (d_neg w) 0"
proof -
  have "decode 0 = FFin False 0 (-1074)" by code_simp
  with assms show ?thesis
    by (cases "decode w")
       (auto simp: d_less_def decode_neg fp_neg_def Let_def signed_mant_def mult_less_0_iff not_less
          zero_less_mult_iff split: if_splits)
qed

text \<open>A small non-negative integer, stored bit for bit into a double, is subnormal: it reads as
  that many units of \<open>2 ^ (-1074)\<close>.\<close>

lemma decode_subnormal:
  assumes "uint w < 2 ^ 52"
  shows "decode w = FFin False (uint w) (-1074)"
proof -
  have t: "take_bit 52 w = w"
    by (rule word_uint_eqI) (use assms in \<open>simp add: unsigned_take_bit_eq take_bit_int_eq_self\<close>)
  have d: "drop_bit 52 w = 0"
    by (subst t [symmetric]) (simp add: drop_bit_take_bit)
  have "\<not> bit (take_bit 52 w) 63" by (simp add: bit_take_bit_iff)
  then have "\<not> bit w 63" by (simp add: t)
  then show ?thesis by (simp add: decode_def fp_fields_def t d)
qed


text \<open>The converted value of a finite double of small magnitude.\<close>

lemma trunc_subnormal:
  assumes "0 \<le> m" "m < 2 ^ 52"
  shows "trunc_fp m (-1074) = 0"
proof -
  have "(2::int) ^ 52 \<le> 2 ^ nat 1074" by (rule power_increasing) auto
  then have "m div 2 ^ nat 1074 = 0"
    using assms by (intro div_pos_pos_trivial) linarith+
  then show ?thesis by (simp add: trunc_fp_def)
qed

lemma d_to_int64_subnormal:
  assumes "uint w < 2 ^ 52"
  shows "d_to_int64 w = Some 0"
proof -
  have "trunc_fp (uint w) (-1074) = 0" using assms by (intro trunc_subnormal) simp_all
  then show ?thesis
    by (simp only: d_to_int64_def decode_subnormal [OF assms] fp.case) (simp add: signed_mant_def)
qed

end
