(* ===== verification/Values.thy ===== *)
theory Values
  imports EdgeIdent TimeTypes Double "HOL-Library.AList"
begin

text \<open>
  Dynamic values: \<^verbatim>\<open>ValueTypeKind\<close>, \<^verbatim>\<open>RefKind\<close>, \<^verbatim>\<open>Ref\<close>, the tagged union
  \<^verbatim>\<open>Value\<close> with its predicates and checked accessors, and the containers of values
  (\<^verbatim>\<open>List\<close>, \<^verbatim>\<open>Row\<close>, \<^verbatim>\<open>ResultTable\<close>, the properties of \<^verbatim>\<open>Node\<close> and
  \<^verbatim>\<open>Edge\<close>), from the headers of those names under
  \<^verbatim>\<open>src/include/nebula/common/datatype/\<close>. A failing \<^verbatim>\<open>DCHECK\<close>, \<^verbatim>\<open>CHECK\<close> or
  \<^verbatim>\<open>LOG(FATAL)\<close> is \<open>None\<close>. A property map is an association list with one entry per key.
\<close>

unbundle bit_operations_syntax

section \<open>Kinds\<close>

datatype ValueTypeKind =
    kNode | kEdge | kNull | kBool | kInt8 | kUint8 | kInt16 | kUint16 | kInt32 | kUint32
  | kInt64 | kUint64 | kFloat32 | kFloat64 | kBytes | kString | kList | kPath | kRecord
  | kLocalTime | kDuration | kDate | kLocalDatetime | kZonedTime | kZonedDatetime | kRef
  | kFunction | kAny | kInvalid

fun kind_code :: "ValueTypeKind \<Rightarrow> byte" where
  "kind_code kNode = 0x1" | "kind_code kEdge = 0x2" | "kind_code kNull = 0x3"
| "kind_code kBool = 0x4" | "kind_code kInt8 = 0x5" | "kind_code kUint8 = 0x6"
| "kind_code kInt16 = 0x7" | "kind_code kUint16 = 0x8" | "kind_code kInt32 = 0x9"
| "kind_code kUint32 = 0xA" | "kind_code kInt64 = 0xB" | "kind_code kUint64 = 0xC"
| "kind_code kFloat32 = 0xD" | "kind_code kFloat64 = 0xE" | "kind_code kBytes = 0xF"
| "kind_code kString = 0x10" | "kind_code kList = 0x11" | "kind_code kPath = 0x12"
| "kind_code kRecord = 0x13" | "kind_code kLocalTime = 0x15" | "kind_code kDuration = 0x16"
| "kind_code kDate = 0x17" | "kind_code kLocalDatetime = 0x18" | "kind_code kZonedTime = 0x19"
| "kind_code kZonedDatetime = 0x20" | "kind_code kRef = 0x21" | "kind_code kFunction = 0xFD"
| "kind_code kAny = 0xFE" | "kind_code kInvalid = 0xFF"

datatype RefKind =
    refNode | refEdge | refGraph | refMemGraph | refParallelMemGraph | refTable | refRowTable
  | refVectorTable | refInVec | refInvalid

fun ref_code :: "RefKind \<Rightarrow> byte" where
  "ref_code refNode = 0x01" | "ref_code refEdge = 0x02" | "ref_code refGraph = 0x10"
| "ref_code refMemGraph = 0x11" | "ref_code refParallelMemGraph = 0x12"
| "ref_code refTable = 0x20" | "ref_code refRowTable = 0x21" | "ref_code refVectorTable = 0x22"
| "ref_code refInVec = 0xFE" | "ref_code refInvalid = 0xFF"

fun ref_name :: "RefKind \<Rightarrow> string" where
  "ref_name refNode = ''refNode''" | "ref_name refEdge = ''refEdge''"
| "ref_name refGraph = ''refGraph''" | "ref_name refMemGraph = ''refMemGraph''"
| "ref_name refParallelMemGraph = ''refParallelMemGraph''" | "ref_name refTable = ''refTable''"
| "ref_name refRowTable = ''refRowTable''" | "ref_name refVectorTable = ''refVectorTable''"
| "ref_name refInVec = ''refInVec''" | "ref_name refInvalid = ''refInvalid''"

section \<open>Ref: an 8 bit kind and a 24 bit entry id in one code\<close>

record Ref =
  refCode :: uint32
  refOffset :: uint32

definition Ref_default :: Ref where
  "Ref_default = \<lparr>refCode = 0xFF000000, refOffset = 0\<rparr>"

definition Ref_mk :: "byte \<Rightarrow> uint32 \<Rightarrow> uint32 \<Rightarrow> Ref" where
  "Ref_mk kind entry offset =
     \<lparr>refCode = push_bit 24 (ucast kind) OR (entry AND 0x00FFFFFF), refOffset = offset\<rparr>"

definition Ref_kind :: "Ref \<Rightarrow> byte" where
  "Ref_kind r = ucast (drop_bit 24 (refCode r))"

definition entryID :: "Ref \<Rightarrow> uint32" where
  "entryID r = refCode r AND 0x00FFFFFF"

definition Ref_reset :: "Ref \<Rightarrow> uint32 \<Rightarrow> uint32 \<Rightarrow> Ref" where
  "Ref_reset r c off = r\<lparr>refCode := c, refOffset := off\<rparr>"

section \<open>Value\<close>

datatype Value =
    VNull | VBool bool
  | VInt8 int8 | VInt16 int16 | VInt32 int32 | VInt64 int64
  | VUint8 byte | VUint16 uint16 | VUint32 uint32 | VUint64 uint64
  | VFloat "32 word" | VDouble double
  | VString string | VBytes string
  | VList "Value list" | VPath "Value list" | VRecord "(string \<times> Value) list"
  | VNode NodeID GraphID "(string \<times> Value) list"
  | VEdge EdgeID "(string \<times> Value) list"
  | VDate Date | VLocalTime LocalTime | VZonedTime ZonedTime
  | VLocalDatetime LocalDatetime | VZonedDatetime ZonedDatetime
  | VRef Ref | VDuration Duration

type_synonym properties_type = "(string \<times> Value) list"

fun getType :: "Value \<Rightarrow> ValueTypeKind" where
  "getType VNull = kNull" | "getType (VBool _) = kBool"
| "getType (VInt8 _) = kInt8" | "getType (VInt16 _) = kInt16"
| "getType (VInt32 _) = kInt32" | "getType (VInt64 _) = kInt64"
| "getType (VUint8 _) = kUint8" | "getType (VUint16 _) = kUint16"
| "getType (VUint32 _) = kUint32" | "getType (VUint64 _) = kUint64"
| "getType (VFloat _) = kFloat32" | "getType (VDouble _) = kFloat64"
| "getType (VString _) = kString" | "getType (VBytes _) = kBytes"
| "getType (VList _) = kList" | "getType (VPath _) = kPath" | "getType (VRecord _) = kRecord"
| "getType (VNode _ _ _) = kNode" | "getType (VEdge _ _) = kEdge"
| "getType (VDate _) = kDate" | "getType (VLocalTime _) = kLocalTime"
| "getType (VZonedTime _) = kZonedTime" | "getType (VLocalDatetime _) = kLocalDatetime"
| "getType (VZonedDatetime _) = kZonedDatetime" | "getType (VRef _) = kRef"
| "getType (VDuration _) = kDuration"

definition isInteger :: "Value \<Rightarrow> bool" where
  "isInteger v = (case getType v of
     kInt8 \<Rightarrow> True | kInt16 \<Rightarrow> True | kInt32 \<Rightarrow> True | kInt64 \<Rightarrow> True
   | kUint8 \<Rightarrow> True | kUint16 \<Rightarrow> True | kUint32 \<Rightarrow> True | kUint64 \<Rightarrow> True
   | _ \<Rightarrow> False)"

definition isNull :: "Value \<Rightarrow> bool" where "isNull v \<longleftrightarrow> getType v = kNull"
definition isInt64 :: "Value \<Rightarrow> bool" where "isInt64 v \<longleftrightarrow> getType v = kInt64"
definition isFloat :: "Value \<Rightarrow> bool" where "isFloat v \<longleftrightarrow> getType v = kFloat32"
definition isDouble :: "Value \<Rightarrow> bool" where "isDouble v \<longleftrightarrow> getType v = kFloat64"
definition isString :: "Value \<Rightarrow> bool" where "isString v \<longleftrightarrow> getType v = kString"
definition isRef :: "Value \<Rightarrow> bool" where "isRef v \<longleftrightarrow> getType v = kRef"

definition isNumeric :: "Value \<Rightarrow> bool" where
  "isNumeric v \<longleftrightarrow> isInteger v \<or> isFloat v \<or> isDouble v"

definition isSignedInt :: "Value \<Rightarrow> bool" where
  "isSignedInt v \<longleftrightarrow>
     getType v = kInt8 \<or> getType v = kInt16 \<or> getType v = kInt32 \<or> getType v = kInt64"

text \<open>Checked accessors: \<^verbatim>\<open>DCHECK_EQ(type_, ...)\<close>, then the union member.\<close>

definition getBool :: "Value \<Rightarrow> bool option" where
  "getBool v = (case v of VBool b \<Rightarrow> Some b | _ \<Rightarrow> None)"
definition getInt32 :: "Value \<Rightarrow> int32 option" where
  "getInt32 v = (case v of VInt32 i \<Rightarrow> Some i | _ \<Rightarrow> None)"
definition getInt64 :: "Value \<Rightarrow> int64 option" where
  "getInt64 v = (case v of VInt64 i \<Rightarrow> Some i | _ \<Rightarrow> None)"
definition getDouble :: "Value \<Rightarrow> double option" where
  "getDouble v = (case v of VDouble d \<Rightarrow> Some d | _ \<Rightarrow> None)"
definition getString :: "Value \<Rightarrow> string option" where
  "getString v = (case v of VString s \<Rightarrow> Some s | _ \<Rightarrow> None)"
definition getRef :: "Value \<Rightarrow> Ref option" where
  "getRef v = (case v of VRef r \<Rightarrow> Some r | _ \<Rightarrow> None)"

text \<open>\<^verbatim>\<open>getInteger\<close> widens every integer member to \<^verbatim>\<open>int64_t\<close>; other kinds are fatal.\<close>

fun getInteger :: "Value \<Rightarrow> int64 option" where
  "getInteger (VInt8 i) = Some (scast i)"
| "getInteger (VInt16 i) = Some (scast i)"
| "getInteger (VInt32 i) = Some (scast i)"
| "getInteger (VInt64 i) = Some i"
| "getInteger (VUint8 i) = Some (ucast i)"
| "getInteger (VUint16 i) = Some (ucast i)"
| "getInteger (VUint32 i) = Some (ucast i)"
| "getInteger (VUint64 i) = Some i"
| "getInteger _ = None"

fun getUnsignedInteger :: "Value \<Rightarrow> uint64 option" where
  "getUnsignedInteger (VUint8 i) = Some (ucast i)"
| "getUnsignedInteger (VUint16 i) = Some (ucast i)"
| "getUnsignedInteger (VUint32 i) = Some (ucast i)"
| "getUnsignedInteger (VUint64 i) = Some i"
| "getUnsignedInteger _ = None"

text \<open>The outer option is a failing check; the inner one the \<^verbatim>\<open>std::optional\<close> result.
  Unary minus on values is \<^verbatim>\<open>Value operator-\<close>, defined in the binary library: a parameter.\<close>

definition transformNumeric :: "(Value \<Rightarrow> Value) \<Rightarrow> bool \<Rightarrow> Value \<Rightarrow> Value option option" where
  "transformNumeric neg negate val =
     (if \<not> isNumeric val then None
      else if isDouble val \<or> isFloat val then Some (Some (if negate then neg val else val))
      else if isSignedInt val then
        (if \<not> negate then Some (Some val)
         else if \<not> isNull (neg val) then Some (Some (neg val))
         else do {
           i \<leftarrow> getInteger val;
           Some (if - (2 ^ 63) < sint i then Some (VInt64 (- i)) else None)
         })
      else do {
        u \<leftarrow> getUnsignedInteger val;
        Some (if \<not> negate then (if uint u < 2 ^ 63 then Some (VInt64 u) else None)
              else if u \<le> 2 ^ 63 then Some (VInt64 (- u)) else None)
      })"

section \<open>Node and Edge properties\<close>

definition hasProperty :: "properties_type \<Rightarrow> string \<Rightarrow> bool" where
  "hasProperty ps p \<longleftrightarrow> map_of ps p \<noteq> None"

definition getProperty :: "properties_type \<Rightarrow> string \<Rightarrow> Value option" where
  "getProperty ps p = (if hasProperty ps p then map_of ps p else None)"

definition setProperty :: "properties_type \<Rightarrow> string \<Rightarrow> Value \<Rightarrow> properties_type" where
  "setProperty ps p v = AList.update p v ps"

record Node =
  nodeIdent :: NodeID
  nodeGraphID :: GraphID
  node_properties :: properties_type

record Edge =
  edgeIdent :: EdgeID
  edge_properties :: properties_type

definition getNodeTypeID :: "Node \<Rightarrow> NodeTypeID" where
  "getNodeTypeID n = nodeType (nodeIdent n)"

definition setNodeTypeID :: "Node \<Rightarrow> NodeTypeID \<Rightarrow> Node" where
  "setNodeTypeID n t = n\<lparr>nodeIdent := substituteNodeType (nodeIdent n) t\<rparr>"

definition Node_less :: "Node \<Rightarrow> Node \<Rightarrow> bool" where
  "Node_less l r \<longleftrightarrow> sint (nodeIdent l) < sint (nodeIdent r)"

definition Edge_setProperty :: "Edge \<Rightarrow> string \<Rightarrow> Value \<Rightarrow> Edge" where
  "Edge_setProperty e p v = e\<lparr>edge_properties := setProperty (edge_properties e) p v\<rparr>"

definition Edge_less :: "Edge \<Rightarrow> Edge \<Rightarrow> bool" where
  "Edge_less l r \<longleftrightarrow> edgeID_less (edgeIdent l) (edgeIdent r)"

section \<open>Row and ResultTable\<close>

type_synonym Row = "Value list"

definition Row_append :: "Row \<Rightarrow> Value \<Rightarrow> Row" where
  "Row_append r v = r @ [v]"

definition Row_append_n :: "Row \<Rightarrow> Value \<Rightarrow> nat \<Rightarrow> Row" where
  "Row_append_n r v n = r @ replicate n v"

definition Row_append_row :: "Row \<Rightarrow> Row \<Rightarrow> Row" where
  "Row_append_row r s = r @ s"

definition Row_at :: "Row \<Rightarrow> nat \<Rightarrow> Value option" where
  "Row_at r i = (if i < length r then Some (r ! i) else None)"

text \<open>\<^verbatim>\<open>maxLen\<close> widens the column widths; \<^verbatim>\<open>Value::toString\<close> is a parameter.\<close>

definition Row_maxLen :: "(Value \<Rightarrow> string) \<Rightarrow> Row \<Rightarrow> nat list \<Rightarrow> nat list option" where
  "Row_maxLen toString r ml =
     (if length r \<le> length ml
      then Some (map2 (\<lambda>v m. if m < length (toString v) then length (toString v) else m) r ml
                   @ drop (length r) ml)
      else None)"

record ResultTable =
  columnNames :: "string list"
  records :: "Row list"

definition ResultTable_empty :: ResultTable where
  "ResultTable_empty = \<lparr>columnNames = [], records = []\<rparr>"

definition ResultTable_append :: "ResultTable \<Rightarrow> Row \<Rightarrow> ResultTable" where
  "ResultTable_append t r = t\<lparr>records := records t @ [r]\<rparr>"

definition ResultTable_at :: "ResultTable \<Rightarrow> nat \<Rightarrow> Row option" where
  "ResultTable_at t i = (if i < length (records t) then Some (records t ! i) else None)"

definition setColumnNames :: "ResultTable \<Rightarrow> string list \<Rightarrow> ResultTable" where
  "setColumnNames t ns = t\<lparr>columnNames := ns\<rparr>"

definition ResultTable_merge :: "ResultTable \<Rightarrow> ResultTable \<Rightarrow> ResultTable" where
  "ResultTable_merge t u = t\<lparr>records := records t @ records u\<rparr>"

definition ResultTable_clear :: "ResultTable \<Rightarrow> ResultTable" where
  "ResultTable_clear t = t\<lparr>records := []\<rparr>"

end
