(* ===== verification/TopoModel.thy ===== *)
theory TopoModel
  imports Values
begin

text \<open>
  The state and the interfaces of the network topology procedure
  (\<^verbatim>\<open>src/src/yj/NetworkTopoProcedure.cpp\<close>): the per-vertex record
  \<^verbatim>\<open>NetworkTopoState\<close>, the members of \<^verbatim>\<open>NetworkTopoAlgorithm\<close>, the atomic writes of
  \<^verbatim>\<open>ComputingAlgorithm.h\<close> seen by one thread, and the parameters that stand for the parts
  of the graph database that are only declared in the headers (\<^verbatim>\<open>MemGraph\<close>,
  \<^verbatim>\<open>VertexSubset\<close>, \<^verbatim>\<open>ComputingAlgorithmBase\<close>).

  The code reports failure by \<^verbatim>\<open>DCHECK\<close> (a wrong value type, an unknown vertex) or is
  undefined (a double that does not fit an integer); both are the value \<open>None\<close> of an option,
  and the stages pass the state explicitly through the option monad.
\<close>

section \<open>Parameters: graph and vertex subsets\<close>

text \<open>
  One field per operation of the graph the algorithm calls. \<open>g_findProp\<close> is the property if
  it exists (for \<^verbatim>\<open>hasProperty(vid, name, cond)\<close>); \<open>g_nodeProp\<close>, \<open>g_edgeProp\<close> are
  \<^verbatim>\<open>getProperty\<close>. \<open>g_byAllLabels\<close> is \<^verbatim>\<open>verticesByAllLabels\<close>. \<open>g_subset\<close> is the
  sequence of vertices a \<^verbatim>\<open>VertexSubset\<close> built from a vector of ids holds, \<open>g_merge\<close> its
  \<^verbatim>\<open>merge\<close>, and \<open>g_sched\<close> the order in which the parallel \<^verbatim>\<open>map\<close> and \<^verbatim>\<open>forEach\<close>
  process the vertices of a subset. \<open>g_valueDiv\<close> is \<^verbatim>\<open>operator/\<close> on values.
\<close>

record graph =
  g_nodeIDs :: "NodeID list"
  g_neighborIDs :: "NodeID \<Rightarrow> (Edge \<Rightarrow> bool) \<Rightarrow> NodeID list"
  g_outNeighborIDs :: "NodeID \<Rightarrow> (Edge \<Rightarrow> bool) \<Rightarrow> NodeID list"
  g_outEdges :: "NodeID \<Rightarrow> Edge list"
  g_inEdges :: "NodeID \<Rightarrow> Edge list"
  g_findProp :: "NodeID \<Rightarrow> string \<Rightarrow> Value option"
  g_nodeProp :: "NodeID \<Rightarrow> string \<Rightarrow> Value"
  g_edgeProp :: "EdgeID \<Rightarrow> string \<Rightarrow> Value"
  g_nodeLabels :: "NodeID \<Rightarrow> string list"
  g_edgeLabels :: "EdgeID \<Rightarrow> string list"
  g_byAllLabels :: "NodeID list \<Rightarrow> string list \<Rightarrow> NodeID list"
  g_subset :: "NodeID list \<Rightarrow> NodeID list"
  g_merge :: "NodeID list \<Rightarrow> NodeID list \<Rightarrow> NodeID list"
  g_sched :: "NodeID list \<Rightarrow> NodeID list"
  g_valueDiv :: "Value \<Rightarrow> Value \<Rightarrow> Value"

text \<open>What the declared interface promises of a subset: it holds exactly the given vertices,
  and a parallel operation processes exactly the vertices of the subset.\<close>

definition subset_contract :: "graph \<Rightarrow> bool" where
  "subset_contract g \<longleftrightarrow>
     (\<forall>xs. set (g_subset g xs) = set xs) \<and> (\<forall>xs. set (g_sched g xs) = set xs)"

section \<open>NetworkTopoState\<close>

record NetworkTopoState =
  breakerPoint :: int32
  disPoint :: int32
  maxTopoID :: int64
  maxBDID :: int64
  sumIID :: int32
  sumJID :: int32
  sumQimeas :: double
  sumBusQMeas :: double
  sumAclineCount :: double
  sumLineNo :: int64
  setTopoID1 :: "int64 set"
  listTpndName :: "string list"
  listTpndQMeas :: "double list"
  topoID :: "int64 option"
  point :: "int64 option"
  itopoID :: "int64 option"
  jtopoID :: "int64 option"

definition initState :: NetworkTopoState where
  "initState = \<lparr>breakerPoint = 0, disPoint = 0, maxTopoID = -1, maxBDID = -1, sumIID = 0,
     sumJID = 0, sumQimeas = 0, sumBusQMeas = 0, sumAclineCount = 0, sumLineNo = 0,
     setTopoID1 = {}, listTpndName = [], listTpndQMeas = [], topoID = Some (-1),
     point = Some (-1), itopoID = None, jtopoID = None\<rparr>"

definition opt_value :: "int64 option \<Rightarrow> Value" where
  "opt_value v = (case v of Some i \<Rightarrow> VInt64 i | None \<Rightarrow> VNull)"

definition state_getResult :: "NetworkTopoState \<Rightarrow> Row \<Rightarrow> Row" where
  "state_getResult s row =
     Row_append (Row_append (Row_append (Row_append row (opt_value (topoID s)))
       (opt_value (point s))) (opt_value (itopoID s))) (opt_value (jtopoID s))"

section \<open>NetworkTopoAlgorithm\<close>

text \<open>The vertex states and the members of the class, and the requests the algorithm sends to
  the storage: nodes and edges to insert and edges to update, in the order of the calls.\<close>

type_synonym edge_request = "string \<times> Value list \<times> Value list \<times> properties_type"

record alg =
  states :: "NodeID \<rightharpoonup> NetworkTopoState"
  insertedNodes :: "(string \<times> properties_type) list"
  insertedEdges :: "edge_request list"
  updatedEdges :: "Edge list"
  edgeList :: "Edge list"
  topoAclineDotEdge1 :: "Edge list"
  topoAclineDotEdge2 :: "Edge list"
  topoConnectEdge1 :: "Edge list"
  topoConnectEdge2 :: "Edge list"

text \<open>The constructor of \<^verbatim>\<open>ComputingAlgorithm\<close> gives every node of the graph a state.\<close>

fun emplace_states :: "NodeID list \<Rightarrow> (NodeID \<rightharpoonup> NetworkTopoState)" where
  "emplace_states [] = Map.empty"
| "emplace_states (v # vs) = (emplace_states vs)(v \<mapsto> initState)"

definition init_alg :: "graph \<Rightarrow> alg" where
  "init_alg g = \<lparr>states = emplace_states (g_nodeIDs g), insertedNodes = [], insertedEdges = [],
     updatedEdges = [], edgeList = [], topoAclineDotEdge1 = [], topoAclineDotEdge2 = [],
     topoConnectEdge1 = [], topoConnectEdge2 = []\<rparr>"

text \<open>\<^verbatim>\<open>state(vid)\<close> checks that the vertex has a state.\<close>

definition state :: "alg \<Rightarrow> NodeID \<Rightarrow> NetworkTopoState option" where
  "state a v = states a v"

definition upd_state :: "NodeID \<Rightarrow> (NetworkTopoState \<Rightarrow> NetworkTopoState) \<Rightarrow> alg \<Rightarrow> alg option" where
  "upd_state v f a = (case states a v of
     None \<Rightarrow> None
   | Some s \<Rightarrow> Some (a\<lparr>states := (states a)(v \<mapsto> f s)\<rparr>))"

text \<open>The atomic writes, as the writing thread sees them.\<close>

definition max64 :: "int64 \<Rightarrow> int64 \<Rightarrow> int64" where
  "max64 old val = (if sint old > sint val then old else val)"

definition writeMax_topo :: "NodeID \<Rightarrow> int64 \<Rightarrow> alg \<Rightarrow> alg option" where
  "writeMax_topo v val = upd_state v (\<lambda>s. s\<lparr>maxTopoID := max64 (maxTopoID s) val\<rparr>)"

definition writeMax_bd :: "NodeID \<Rightarrow> int64 \<Rightarrow> alg \<Rightarrow> alg option" where
  "writeMax_bd v val = upd_state v (\<lambda>s. s\<lparr>maxBDID := max64 (maxBDID s) val\<rparr>)"

text \<open>\<^verbatim>\<open>writeDouble(ptr, val)\<close> calls \<^verbatim>\<open>write<int64_t>\<close> on the reinterpreted pointer: the
  value is converted to \<^verbatim>\<open>int64_t\<close> and that integer's bits are stored.\<close>

definition writeDouble ::
  "NodeID \<Rightarrow> (double \<Rightarrow> NetworkTopoState \<Rightarrow> NetworkTopoState) \<Rightarrow> double \<Rightarrow> alg \<Rightarrow> alg option" where
  "writeDouble v field val a = do {
     i \<leftarrow> d_to_int64 val;
     upd_state v (field i) a
   }"

definition set_sumQimeas :: "double \<Rightarrow> NetworkTopoState \<Rightarrow> NetworkTopoState" where
  "set_sumQimeas d s = s\<lparr>sumQimeas := d\<rparr>"

definition set_sumBusQMeas :: "double \<Rightarrow> NetworkTopoState \<Rightarrow> NetworkTopoState" where
  "set_sumBusQMeas d s = s\<lparr>sumBusQMeas := d\<rparr>"

definition getAclineName :: "string \<Rightarrow> string" where
  "getAclineName name = name"

definition insertNode :: "string \<Rightarrow> properties_type \<Rightarrow> alg \<Rightarrow> alg" where
  "insertNode ty props a = a\<lparr>insertedNodes := insertedNodes a @ [(ty, props)]\<rparr>"

definition insertEdge ::
  "string \<Rightarrow> Value list \<Rightarrow> Value list \<Rightarrow> properties_type \<Rightarrow> alg \<Rightarrow> alg" where
  "insertEdge ty src dst props a = a\<lparr>insertedEdges := insertedEdges a @ [(ty, src, dst, props)]\<rparr>"

definition updateEdge :: "Edge \<Rightarrow> alg \<Rightarrow> alg" where
  "updateEdge e a = a\<lparr>updatedEdges := updatedEdges a @ [e]\<rparr>"

section \<open>Loops and vertex subset operations\<close>

fun foldM :: "('a \<Rightarrow> 's \<Rightarrow> 's option) \<Rightarrow> 'a list \<Rightarrow> 's \<Rightarrow> 's option" where
  "foldM f [] s = Some s"
| "foldM f (x # xs) s = do { s' \<leftarrow> f x s; foldM f xs s' }"

fun mapM :: "('a \<Rightarrow> 's \<Rightarrow> ('b list \<times> 's) option) \<Rightarrow> 'a list \<Rightarrow> 's \<Rightarrow> ('b list \<times> 's) option" where
  "mapM f [] s = Some ([], s)"
| "mapM f (x # xs) s = do {
     (ys, s1) \<leftarrow> f x s;
     (zs, s2) \<leftarrow> mapM f xs s1;
     Some (ys @ zs, s2)
   }"

fun filterM :: "('a \<Rightarrow> bool option) \<Rightarrow> 'a list \<Rightarrow> 'a list option" where
  "filterM p [] = Some []"
| "filterM p (x # xs) = do {
     b \<leftarrow> p x;
     ys \<leftarrow> filterM p xs;
     Some (if b then x # ys else ys)
   }"

definition vs_map ::
  "graph \<Rightarrow> (NodeID \<Rightarrow> 's \<Rightarrow> (NodeID list \<times> 's) option) \<Rightarrow> NodeID list \<Rightarrow> 's \<Rightarrow> (NodeID list \<times> 's) option" where
  "vs_map g m vs s = do { (r, s') \<leftarrow> mapM m (g_sched g vs) s; Some (g_subset g r, s') }"

definition vs_forEach :: "graph \<Rightarrow> (NodeID \<Rightarrow> 's \<Rightarrow> 's option) \<Rightarrow> NodeID list \<Rightarrow> 's \<Rightarrow> 's option" where
  "vs_forEach g act vs s = foldM act (g_sched g vs) s"

definition vs_filter :: "graph \<Rightarrow> (NodeID \<Rightarrow> bool option) \<Rightarrow> NodeID list \<Rightarrow> NodeID list option" where
  "vs_filter g p vs = do { r \<leftarrow> filterM p vs; Some (g_subset g r) }"

text \<open>Label tests of the edge filters, and property reads with their type checks.\<close>

definition hasEdgeLabel :: "graph \<Rightarrow> string list \<Rightarrow> Edge \<Rightarrow> bool" where
  "hasEdgeLabel g ls e \<longleftrightarrow> (\<exists>l \<in> set (g_edgeLabels g (edgeIdent e)). l \<in> set ls)"

definition hasNodeLabel :: "graph \<Rightarrow> NodeID \<Rightarrow> string \<Rightarrow> bool" where
  "hasNodeLabel g v l \<longleftrightarrow> l \<in> set (g_nodeLabels g v)"

definition int_prop :: "graph \<Rightarrow> NodeID \<Rightarrow> string \<Rightarrow> int64 option" where
  "int_prop g v p = getInt64 (g_nodeProp g v p)"

definition double_prop :: "graph \<Rightarrow> NodeID \<Rightarrow> string \<Rightarrow> double option" where
  "double_prop g v p = getDouble (g_nodeProp g v p)"

definition string_prop :: "graph \<Rightarrow> NodeID \<Rightarrow> string \<Rightarrow> string option" where
  "string_prop g v p = getString (g_nodeProp g v p)"

definition utf8 :: "nat list \<Rightarrow> string" where
  "utf8 = map char_of"

section \<open>Laws of the loops\<close>

text \<open>A predicate kept by every step is kept by the loop; the steps may assume that the element
  is one of the list.\<close>

lemma foldM_invariant:
  assumes "foldM f xs a = Some a'" "P a"
    and "\<And>x a a'. x \<in> set xs \<Longrightarrow> P a \<Longrightarrow> f x a = Some a' \<Longrightarrow> P a'"
  shows "P a'"
  using assms
proof (induction xs arbitrary: a)
  case (Cons x xs)
  then obtain b where "f x a = Some b" "foldM f xs b = Some a'"
    by (auto simp: bind_Some_iff)
  moreover have "P b" using Cons.prems(2,3) calculation(1) by force
  ultimately show ?case using Cons.IH Cons.prems(3) by (metis list.set_intros(2))
qed simp

lemma mapM_invariant:
  assumes "mapM f xs a = Some (ys, a')" "P a"
    and "\<And>x a zs a'. x \<in> set xs \<Longrightarrow> P a \<Longrightarrow> f x a = Some (zs, a') \<Longrightarrow> P a'"
  shows "P a'"
  using assms
proof (induction xs arbitrary: a ys)
  case (Cons x xs)
  then obtain us b zs where *: "f x a = Some (us, b)" "mapM f xs b = Some (zs, a')"
    by (auto simp: bind_Some_iff)
  moreover have "P b" using Cons.prems(2,3) *(1) by force
  ultimately show ?case using Cons.IH Cons.prems(3) by (metis list.set_intros(2))
qed simp

lemma vs_map_invariant:
  assumes "vs_map g f xs a = Some (ys, a')" "P a"
    and "\<And>x a zs a'. x \<in> set (g_sched g xs) \<Longrightarrow> P a \<Longrightarrow> f x a = Some (zs, a') \<Longrightarrow> P a'"
  shows "P a'"
  using assms by (auto simp: vs_map_def bind_Some_iff intro: mapM_invariant)

lemma vs_forEach_invariant:
  assumes "vs_forEach g f xs a = Some a'" "P a"
    and "\<And>x a a'. x \<in> set (g_sched g xs) \<Longrightarrow> P a \<Longrightarrow> f x a = Some a' \<Longrightarrow> P a'"
  shows "P a'"
  using assms by (auto simp: vs_forEach_def intro: foldM_invariant)

text \<open>What each step establishes for its element, and later steps keep, holds of every element.\<close>

lemma foldM_establishes:
  assumes "foldM f xs a = Some a'" "P a"
    and "\<And>x a a'. x \<in> set xs \<Longrightarrow> P a \<Longrightarrow> f x a = Some a' \<Longrightarrow> P a' \<and> Q x a' \<and> (\<forall>y. Q y a \<longrightarrow> Q y a')"
  shows "\<forall>x \<in> set xs. Q x a'"
  using assms
proof (induction xs arbitrary: a)
  case (Cons x xs)
  then obtain b where b: "f x a = Some b" "foldM f xs b = Some a'"
    by (auto simp: bind_Some_iff)
  then have "P b" "Q x b" using Cons.prems(2) Cons.prems(3) [of x a b] by auto
  moreover have "Q x a'"
    using foldM_invariant [where P = "\<lambda>a. P a \<and> Q x a", OF b(2)] calculation Cons.prems(3)
    by (metis (no_types, lifting) list.set_intros(2))
  moreover have "\<forall>x \<in> set xs. Q x a'"
    using Cons.IH [OF b(2) calculation(1)] Cons.prems(3) by (meson list.set_intros(2))
  ultimately show ?case by simp
qed simp

lemma mapM_foldM:
  "mapM f xs a = Some (ys, a') \<Longrightarrow> foldM (\<lambda>x a. map_option snd (f x a)) xs a = Some a'"
  by (induction xs arbitrary: a ys) (auto simp: bind_Some_iff)

text \<open>A loop over a state with a counter: when every step adds \<open>k\<close> to the counter and leaves the
  state as it is when \<open>k\<close> is zero, so does the loop.\<close>

lemma foldM_count:
  fixes c :: "'l::len word"
  assumes "foldM f xs (a, c) = Some (a', c')"
    and "\<And>x a c a' c'. x \<in> set xs \<Longrightarrow> f x (a, c) = Some (a', c') \<Longrightarrow>
      \<exists>k \<le> w x. c' = c + of_nat k \<and> (k = 0 \<longrightarrow> a' = a \<and> Q x a)"
  shows "\<exists>k \<le> sum_list (map w xs). c' = c + of_nat k \<and> (k = 0 \<longrightarrow> a' = a \<and> (\<forall>x \<in> set xs. Q x a))"
  using assms
proof (induction xs arbitrary: a c)
  case (Cons x xs)
  then obtain b d where bd: "f x (a, c) = Some (b, d)" "foldM f xs (b, d) = Some (a', c')"
    by (auto simp: bind_Some_iff)
  obtain k where k: "k \<le> w x" "d = c + of_nat k" "k = 0 \<longrightarrow> b = a \<and> Q x a"
    using Cons.prems(2) [OF _ bd(1)] by auto
  obtain l where l: "l \<le> sum_list (map w xs)" "c' = d + of_nat l"
    "l = 0 \<longrightarrow> a' = b \<and> (\<forall>x \<in> set xs. Q x b)"
    using Cons.IH [OF bd(2)] Cons.prems(2) by (metis list.set_intros(2))
  show ?case
    by (rule exI [of _ "k + l"]) (use k l in auto)
qed auto

text \<open>The elements a loop produces come from its steps.\<close>

lemma mapM_result:
  assumes "mapM f xs a = Some (ys, a')"
    and "\<And>x a zs a'. x \<in> set xs \<Longrightarrow> f x a = Some (zs, a') \<Longrightarrow> set zs = F x"
  shows "set ys = (\<Union>x \<in> set xs. F x)"
  using assms
proof (induction xs arbitrary: a ys)
  case (Cons x xs)
  then obtain us b zs where *: "f x a = Some (us, b)" "mapM f xs b = Some (zs, a')" "ys = us @ zs"
    by (auto simp: bind_Some_iff)
  have "set us = F x" using Cons.prems(2) *(1) by force
  moreover have "set zs = (\<Union>x \<in> set xs. F x)"
    using Cons.IH [OF *(2)] Cons.prems(2) by (metis list.set_intros(2))
  ultimately show ?case using *(3) by auto
qed simp

lemma vs_map_result:
  assumes "subset_contract g" "vs_map g f xs a = Some (ys, a')"
    and "\<And>x a zs a'. x \<in> set xs \<Longrightarrow> f x a = Some (zs, a') \<Longrightarrow> set zs = F x"
  shows "set ys = (\<Union>x \<in> set xs. F x)"
proof -
  from assms(2) obtain r where r: "mapM f (g_sched g xs) a = Some (r, a')" "ys = g_subset g r"
    by (auto simp: vs_map_def bind_Some_iff)
  have "set (g_sched g xs) = set xs" using assms(1) by (simp add: subset_contract_def)
  then have "set r = (\<Union>x \<in> set (g_sched g xs). F x)"
    using mapM_result [OF r(1), of F] assms(3) by simp
  then show ?thesis using r(2) assms(1) by (simp add: subset_contract_def)
qed

lemma filterM_set:
  assumes "filterM p xs = Some ys"
  shows "set ys = {x \<in> set xs. p x = Some True}"
  using assms by (induction xs arbitrary: ys) (auto simp: bind_Some_iff split: if_splits)

lemma upd_state_Some [simp]:
  "upd_state v f a = Some a' \<longleftrightarrow>
     (\<exists>s. states a v = Some s \<and> a' = a\<lparr>states := (states a)(v \<mapsto> f s)\<rparr>)"
  by (auto simp: upd_state_def split: option.splits)

lemma writeDouble_Some [simp]:
  "writeDouble v field val a = Some a' \<longleftrightarrow>
     (\<exists>i s. d_to_int64 val = Some i \<and> states a v = Some s \<and>
        a' = a\<lparr>states := (states a)(v \<mapsto> field i s)\<rparr>)"
  by (auto simp: writeDouble_def bind_Some_iff)

lemma dom_emplace_states: "dom (emplace_states vs) = set vs"
  by (induction vs) (simp_all del: fun_upd_apply)

lemma emplace_states_init: "emplace_states vs v = Some s \<Longrightarrow> s = initState"
  by (induction vs) (auto split: if_splits)

lemma max64_ge: "sint old \<le> sint (max64 old val)" "sint val \<le> sint (max64 old val)"
  by (auto simp: max64_def)

end
