(* ===== verification/TopoStages.thy ===== *)
theory TopoStages
  imports TopoModel
begin

text \<open>
  The first half of \<^verbatim>\<open>NetworkTopoAlgorithm::run\<close>
  (\<^verbatim>\<open>src/src/yj/NetworkTopoProcedure.cpp\<close>, lines 86 to 505): the switch positions taken from
  the telemetry, the substations in service, the propagation of topology ids through closed
  switches, and the insertion of topology nodes. One definition per stage, named after the
  variable that holds its result. The Chinese device names of the source are given by their
  UTF-8 bytes.
\<close>

section \<open>Switch positions\<close>

definition disSetByFlag :: "graph \<Rightarrow> NodeID list \<Rightarrow> NodeID list option" where
  "disSetByFlag g discreteSet =
     vs_filter g (\<lambda>s. case g_findProp g s ''updateFlag'' of
        None \<Rightarrow> Some False
      | Some v \<Rightarrow> do { i \<leftarrow> getInt64 v; Some (i = 1) }) discreteSet"

text \<open>The telemetered position, converted to \<^verbatim>\<open>int32_t\<close>.\<close>

definition switch_delta :: "graph \<Rightarrow> NodeID \<Rightarrow> int32 option" where
  "switch_delta g s = do {
     flagM \<leftarrow> int_prop g s ''flagM'';
     d \<leftarrow> (if flagM = 1 then int_prop g s ''statusM'' else int_prop g s ''status'');
     Some (ucast d)
   }"

definition breakerSet :: "graph \<Rightarrow> NodeID list \<Rightarrow> alg \<Rightarrow> (NodeID list \<times> alg) option" where
  "breakerSet g disSet = vs_map g (\<lambda>s a. do {
     delta \<leftarrow> switch_delta g s;
     let tgts = g_neighborIDs g s (hasEdgeLabel g [''discrete_breaker'']);
     a \<leftarrow> foldM (\<lambda>t. upd_state t (\<lambda>st. st\<lparr>breakerPoint := delta\<rparr>)) tgts a;
     Some (tgts, a)
   }) disSet"

definition closedBreakers :: "string list" where
  "closedBreakers = [
     utf8 [229, 155, 155, 229, 183, 157, 46, 230, 161, 131, 229, 157, 170, 229, 142, 130, 47,
        49, 51, 46, 56, 107, 86, 46, 50, 229, 188, 128, 229, 133, 179],
     utf8 [229, 155, 155, 229, 183, 157, 46, 230, 161, 131, 229, 157, 170, 229, 142, 130, 47,
        49, 51, 46, 56, 107, 86, 46, 51, 229, 188, 128, 229, 133, 179],
     utf8 [233, 152, 191, 229, 157, 157, 46, 229, 178, 183, 230, 177, 159, 231, 148, 181, 229,
        140, 150, 231, 171, 153, 47, 49, 49, 48, 107, 86, 46, 49, 53, 49, 229, 188, 128, 229, 133,
        179],
     utf8 [233, 152, 191, 229, 157, 157, 46, 229, 178, 183, 230, 177, 159, 231, 148, 181, 229,
        140, 150, 231, 171, 153, 47, 49, 48, 107, 86, 46, 49, 35, 228, 184, 187, 229, 143, 152,
        228, 189, 142, 229, 142, 139, 228, 190, 167, 57, 48, 49, 229, 188, 128, 229, 133, 179]]"

definition openBreaker :: string where
  "openBreaker = utf8 [229, 185, 191, 229, 133, 131, 46, 229, 164, 170, 229, 133, 172, 231, 148, 181, 233,
        147, 129, 231, 171, 153, 47, 49, 49, 48, 107, 86, 46, 49, 48, 50, 229, 188, 128, 229, 133,
        179]"

definition breakerPoints :: "graph \<Rightarrow> NodeID list \<Rightarrow> alg \<Rightarrow> alg option" where
  "breakerPoints g = vs_forEach g (\<lambda>t a. do {
     name \<leftarrow> string_prop g t ''name'';
     st \<leftarrow> state a t;
     let p = (if name \<in> set closedBreakers then 1
              else if name = openBreaker then 0
              else scast (breakerPoint st));
     upd_state t (\<lambda>st. st\<lparr>point := Some p\<rparr>) a
   })"

definition disSet :: "graph \<Rightarrow> NodeID list \<Rightarrow> alg \<Rightarrow> (NodeID list \<times> alg) option" where
  "disSet g flagged = vs_map g (\<lambda>s a. do {
     delta \<leftarrow> switch_delta g s;
     let tgts = g_neighborIDs g s (hasEdgeLabel g [''discrete_dis'']);
     a \<leftarrow> foldM (\<lambda>t. upd_state t (\<lambda>st. st\<lparr>disPoint := delta\<rparr>)) tgts a;
     Some (tgts, a)
   }) flagged"

definition closedDisconnectors :: "string list" where
  "closedDisconnectors = [
     utf8 [229, 155, 155, 229, 183, 157, 46, 231, 128, 145, 229, 184, 131, 230, 178, 159, 229,
        142, 130, 47, 53, 48, 48, 107, 86, 46, 53, 48, 49, 50, 54, 229, 136, 128, 233, 151, 184],
     utf8 [229, 155, 155, 229, 183, 157, 46, 231, 128, 145, 229, 184, 131, 230, 178, 159, 229,
        142, 130, 47, 53, 48, 48, 107, 86, 46, 53, 48, 53, 50, 54, 229, 136, 128, 233, 151, 184],
     utf8 [229, 155, 155, 229, 183, 157, 46, 231, 186, 162, 230, 136, 191, 229, 173, 144, 229,
        142, 130, 47, 50, 50, 48, 107, 86, 46, 50, 53, 49, 54, 229, 136, 128, 233, 151, 184],
     utf8 [229, 155, 155, 229, 183, 157, 46, 231, 186, 162, 230, 136, 191, 229, 173, 144, 229,
        142, 130, 47, 50, 50, 48, 107, 86, 46, 50, 53, 49, 54, 229, 136, 128, 233, 151, 184]]"

definition openDisconnector :: string where
  "openDisconnector = utf8 [229, 185, 191, 229, 133, 131, 46, 229, 164, 170, 229, 133, 172, 231, 148, 181, 233,
        147, 129, 231, 171, 153, 47, 49, 49, 48, 107, 86, 46, 49, 48, 50, 49, 229, 136, 128, 233,
        151, 184]"

definition disPoints :: "graph \<Rightarrow> NodeID list \<Rightarrow> alg \<Rightarrow> alg option" where
  "disPoints g = vs_forEach g (\<lambda>s a. do {
     name \<leftarrow> string_prop g s ''name'';
     st \<leftarrow> state a s;
     let p = (if name \<in> set closedDisconnectors then 1
              else if name = openDisconnector then 0
              else scast (disPoint st));
     upd_state s (\<lambda>st. st\<lparr>point := Some p\<rparr>) a
   })"

section \<open>Substations in service and their connection nodes\<close>

definition connectedSubLabels :: "string list" where
  "connectedSubLabels = [''connected_Sub_Bus'', ''connected_Sub_Load'', ''connected_Sub_Unit'',
     ''connected_Sub_Trans_two'', ''connected_Sub_Aclinedot'', ''connected_Sub_Trans_three'',
     ''connected_Sub_Compensator_P'']"

definition inService :: "graph \<Rightarrow> NodeID \<Rightarrow> bool" where
  "inService g t \<longleftrightarrow>
     isInt64 (g_nodeProp g t ''off'') \<and> getInt64 (g_nodeProp g t ''off'') = Some 0"

text \<open>Targets collected in an \<^verbatim>\<open>unordered_set\<close> are listed once each, in order of first
  insertion.\<close>

definition emplaced :: "'a list \<Rightarrow> 'a list" where
  "emplaced xs = rev (remdups (rev xs))"

definition selectSub :: "graph \<Rightarrow> NodeID list \<Rightarrow> alg \<Rightarrow> (NodeID list \<times> alg) option" where
  "selectSub g = vs_map g (\<lambda>s a.
     Some (emplaced (filter (inService g) (g_outNeighborIDs g s (hasEdgeLabel g connectedSubLabels))), a))"

definition cnOpenSub :: "graph \<Rightarrow> NodeID list \<Rightarrow> alg \<Rightarrow> (NodeID list \<times> alg) option" where
  "cnOpenSub g = vs_map g (\<lambda>s a. Some (g_neighborIDs g s (hasEdgeLabel g [''cn_subid'']), a))"

definition miscellaneous :: "graph \<Rightarrow> NodeID list \<Rightarrow> alg \<Rightarrow> (NodeID list \<times> alg) option" where
  "miscellaneous g = vs_map g (\<lambda>s a.
     Some (emplaced (filter (inService g) (g_outNeighborIDs g s
       (hasEdgeLabel g (connectedSubLabels @ [''connected_Sub_Compensator_S''])))), a))"

definition cnLabels :: "string list" where
  "cnLabels = [''connected_Bus_CN'', ''connected_Load_CN'', ''connected_Unit_CN'', ''CN_tx_two'',
     ''aclinedot_cn'', ''CN_tx_three'', ''connected_Compensator_P_CN'', ''connected_Compensator_S_CN'']"

definition cnTotal :: "graph \<Rightarrow> NodeID list \<Rightarrow> alg \<Rightarrow> (NodeID list \<times> alg) option" where
  "cnTotal g = vs_map g (\<lambda>s a. do {
     nd \<leftarrow> int_prop g s ''nd'';
     let tgts = g_neighborIDs g s (hasEdgeLabel g cnLabels);
     a \<leftarrow> foldM (\<lambda>t a. do { a \<leftarrow> writeMax_topo t nd a; writeMax_topo s nd a }) tgts a;
     Some (tgts, a)
   })"

section \<open>Propagation of topology ids through closed switches\<close>

definition bdLabels :: "string list" where
  "bdLabels = [''connected_Breaker_CN'', ''connected_Disconnector_CN'']"

definition bdStep :: "graph \<Rightarrow> NodeID \<Rightarrow> alg \<Rightarrow> (NodeID list \<times> alg) option" where
  "bdStep g s a = do {
     let tgts = g_neighborIDs g s (hasEdgeLabel g bdLabels);
     a \<leftarrow> foldM (\<lambda>t a. do { st \<leftarrow> state a s; writeMax_bd t (maxTopoID st) a }) tgts a;
     Some (tgts, a)
   }"

text \<open>Addition of \<^verbatim>\<open>int64_t\<close>; a sum out of range is undefined.\<close>

definition add_int64 :: "int64 \<Rightarrow> int64 \<Rightarrow> int64 option" where
  "add_int64 x y = (if sint (x + y) = sint x + sint y then Some (x + y) else None)"

text \<open>The update of one connection node by one switch, not interrupted by the threads of other switches;
  \<open>PropagationRace\<close> has the accesses of the threads as single steps. The counter \<^verbatim>\<open>sumCounter\<close>, an atomic \<^verbatim>\<open>int\<close> that
  wraps, is shared by the vertices of the map.\<close>

definition cnUpdate :: "NodeID \<Rightarrow> NodeID \<Rightarrow> alg \<times> int32 \<Rightarrow> (alg \<times> int32) option" where
  "cnUpdate s t = (\<lambda>(a, counter). do {
     ss \<leftarrow> state a s;
     st \<leftarrow> state a t;
     if sint (maxBDID ss) > sint (maxTopoID st) then do {
       newTopoId \<leftarrow> add_int64 (maxTopoID st) (maxBDID ss);
       a \<leftarrow> writeMax_topo t newTopoId a;
       Some (a, counter + 1)
     } else Some (a, counter)
   })"

definition cnStep :: "graph \<Rightarrow> NodeID \<Rightarrow> alg \<times> int32 \<Rightarrow> (NodeID list \<times> alg \<times> int32) option" where
  "cnStep g s ac = do {
     sPoint \<leftarrow> int_prop g s ''point'';
     if sPoint \<noteq> 1 then Some ([], ac)
     else do {
       let tgts = g_neighborIDs g s (hasEdgeLabel g bdLabels);
       ac \<leftarrow> foldM (cnUpdate s) tgts ac;
       Some (tgts, ac)
     }
   }"

definition propagate_round ::
  "graph \<Rightarrow> NodeID list \<Rightarrow> alg \<Rightarrow> int32 \<Rightarrow> (NodeID list \<times> alg \<times> int32) option" where
  "propagate_round g cnSet a counter = do {
     (bdSet, a) \<leftarrow> vs_map g (bdStep g) cnSet a;
     vs_map g (cnStep g) bdSet (a, counter)
   }"

text \<open>The loop \<^verbatim>\<open>while (sumOldCounter != sumCounter)\<close>. The outer \<open>None\<close> is running out of
  \<open>fuel\<close>, the inner one a failed check or an undefined sum.\<close>

fun propagate_loop ::
  "nat \<Rightarrow> graph \<Rightarrow> NodeID list \<Rightarrow> alg \<Rightarrow> int32 \<Rightarrow> int32 \<Rightarrow> (NodeID list \<times> alg) option option" where
  "propagate_loop 0 g cnSet a old counter = None"
| "propagate_loop (Suc fuel) g cnSet a old counter =
     (if old \<noteq> counter then
        (case propagate_round g cnSet a counter of
           None \<Rightarrow> Some None
         | Some (cnSet', a', counter') \<Rightarrow> propagate_loop fuel g cnSet' a' counter counter')
      else Some (Some (cnSet, a)))"

definition propagate :: "nat \<Rightarrow> graph \<Rightarrow> NodeID list \<Rightarrow> alg \<Rightarrow> (NodeID list \<times> alg) option option" where
  "propagate fuel g cnOpen a = propagate_loop fuel g cnOpen a 1 0"

section \<open>Topology nodes\<close>

definition buildLabels :: "string list" where
  "buildLabels = [''connected_Bus_CN'', ''connected_Load_CN'', ''CN_tx_two'', ''aclinedot_cn'',
     ''CN_tx_three'', ''connected_Compensator_P_CN'']"

definition topoND_props :: "graph \<Rightarrow> int64 \<Rightarrow> NodeID \<Rightarrow> properties_type" where
  "topoND_props g tid t = [
     (''topoid'', VInt64 tid), (''TOPOID'', VInt64 tid),
     (''bus_name'', g_nodeProp g t ''name''),
     (''base_kV'', g_nodeProp g t ''volt''),
     (''desired_volts'', g_nodeProp g t ''base_value''),
     (''up_V'', VDouble (d_lit 11 10)), (''lo_V'', VDouble (d_lit 9 10)),
     (''Ri_vP'', VInt32 0), (''Ri_vQ'', VInt32 0),
     (''start_pt'', VDouble 0), (''nodeSI'', VDouble 0), (''nodeCSeverity'', VInt32 1),
     (''ZJP'', VInt32 1), (''ZJQ'', VInt32 0)]"

definition buildTarget ::
  "(int64 \<Rightarrow> NodeID \<Rightarrow> properties_type) \<Rightarrow> NodeID \<Rightarrow> NodeID \<Rightarrow> alg \<Rightarrow> alg option" where
  "buildTarget props s t a = do {
     st \<leftarrow> state a t;
     ss \<leftarrow> state a s;
     if maxTopoID st = maxTopoID ss
     then Some (insertNode ''TopoND'' (props (maxTopoID ss) t) a)
     else upd_state t (\<lambda>st. st\<lparr>maxTopoID := maxTopoID ss\<rparr>) a
   }"

definition buildTP :: "graph \<Rightarrow> NodeID list \<Rightarrow> alg \<Rightarrow> (NodeID list \<times> alg) option" where
  "buildTP g = vs_map g (\<lambda>s a. do {
     let tgts = g_neighborIDs g s (hasEdgeLabel g buildLabels);
     a \<leftarrow> foldM (buildTarget (topoND_props g) s) tgts a;
     Some (tgts, a)
   })"

definition setTopoIDs :: "graph \<Rightarrow> NodeID list \<Rightarrow> alg \<Rightarrow> alg option" where
  "setTopoIDs g = vs_forEach g (\<lambda>t. upd_state t (\<lambda>st. st\<lparr>topoID := Some (maxTopoID st)\<rparr>))"

definition topoND_unit_props :: "graph \<Rightarrow> int64 \<Rightarrow> NodeID \<Rightarrow> properties_type" where
  "topoND_unit_props g tid t = [
     (''topoid'', VInt64 tid), (''TOPOID'', VInt64 tid),
     (''bus_name'', g_nodeProp g t ''name''),
     (''base_kV'', g_nodeProp g t ''volt''),
     (''desired_volts'', g_nodeProp g t ''base_value''),
     (''up_V'', VDouble (d_lit 11 10)), (''lo_V'', VDouble (d_lit 9 10)),
     (''qUp'', g_valueDiv g (g_nodeProp g t ''Q_max'') (VInt32 100)),
     (''qLower'', g_valueDiv g (g_nodeProp g t ''Q_min'') (VInt32 100)),
     (''Ri_vP'', VInt32 0), (''Ri_vQ'', VInt32 0),
     (''start_pt'', VDouble 0), (''nodeSI'', VDouble 0), (''nodeCSeverity'', VInt32 1),
     (''ZJP'', VInt32 1), (''ZJQ'', VInt32 0)]"

definition buildTPUnit :: "graph \<Rightarrow> NodeID list \<Rightarrow> alg \<Rightarrow> (NodeID list \<times> alg) option" where
  "buildTPUnit g = vs_map g (\<lambda>s a. do {
     let tgts = g_neighborIDs g s (hasEdgeLabel g [''connected_Unit_CN'']);
     a \<leftarrow> foldM (buildTarget (topoND_unit_props g) s) tgts a;
     Some (tgts, a)
   })"

text \<open>At most one winding of a three-port transformer is out of service.\<close>

definition neutralInService :: "graph \<Rightarrow> NodeID \<Rightarrow> bool option" where
  "neutralInService g t = do {
     iOff \<leftarrow> int_prop g t ''I_off'';
     kOff \<leftarrow> int_prop g t ''K_off'';
     jOff \<leftarrow> int_prop g t ''J_off'';
     Some (sint (iOff + kOff + jOff) \<le> 1)
   }"

definition totalTopoNodes :: "graph \<Rightarrow> NodeID list \<Rightarrow> NodeID list option" where
  "totalTopoNodes g = vs_filter g (neutralInService g)"

definition neutral_props :: "graph \<Rightarrow> int64 \<Rightarrow> NodeID \<Rightarrow> properties_type" where
  "neutral_props g midPoint t = [
     (''topoid'', VInt64 midPoint), (''TOPOID'', VInt64 midPoint),
     (''bus_name'', g_nodeProp g t ''name''),
     (''base_kV'', VInt32 1), (''desired_volts'', VInt32 1),
     (''up_V'', VDouble (d_lit 11 10)), (''lo_V'', VDouble (d_lit 9 10)),
     (''Ri_vP'', VInt32 0), (''Ri_vQ'', VInt32 0),
     (''start_pt'', VDouble 0), (''nodeSI'', VDouble 0), (''nodeCSeverity'', VInt32 1),
     (''ZJP'', VInt32 1), (''ZJQ'', VInt32 0)]"

definition totalTopoInsert :: "graph \<Rightarrow> NodeID list \<Rightarrow> alg \<Rightarrow> alg option" where
  "totalTopoInsert g = vs_forEach g (\<lambda>t a. do {
     midPoint \<leftarrow> int_prop g t ''middle_point'';
     let a = insertNode ''TopoND'' (neutral_props g midPoint t) a;
     Some (insertEdge ''topo_neutral'' [VInt64 midPoint] [VInt64 midPoint] [] a)
   })"

section \<open>Edges from topology nodes to substations and equipment\<close>

definition topoSub :: "graph \<Rightarrow> NodeID list \<Rightarrow> alg \<Rightarrow> (NodeID list \<times> alg) option" where
  "topoSub g cn a = do {
     sel \<leftarrow> vs_filter g (\<lambda>s. do {
       cnID \<leftarrow> int_prop g s ''CN_id'';
       st \<leftarrow> state a s;
       Some (maxTopoID st \<noteq> 0 \<and> maxTopoID st \<noteq> cnID)
     }) cn;
     vs_map g (\<lambda>s a. do {
       let tgts = g_neighborIDs g s (hasEdgeLabel g [''cn_subid'']);
       a \<leftarrow> foldM (\<lambda>t a. do {
         tid \<leftarrow> int_prop g t ''id'';
         st \<leftarrow> state a s;
         Some (insertEdge ''topoid_subid'' [VInt64 (maxTopoID st)] [VInt64 tid] [] a)
       }) tgts a;
       Some (tgts, a)
     }) sel a
   }"

definition componentLabels :: "string list" where
  "componentLabels = [''connected_Unit_CN'', ''connected_Load_CN'', ''connected_Bus_CN'',
     ''connected_Compensator_P_CN'', ''CN_tx_two'', ''CN_tx_three'', ''aclinedot_cn'']"

definition componentEdgeType :: "string \<Rightarrow> string option" where
  "componentEdgeType tname =
     (if tname = ''Unit'' then Some ''topo_unit''
      else if tname = ''Load'' then Some ''topo_load''
      else if tname = ''Bus'' then Some ''topo_bus''
      else if tname = ''Compensator_P'' then Some ''topo_compensatorP''
      else if tname = ''two_port_transformer'' then Some ''topo_Tx_Two''
      else if tname = ''three_port_transformer'' then Some ''topo_Tx_Three''
      else if tname = ''AClinedot'' then Some ''topo_aclinedot''
      else None)"

definition componentEdge :: "graph \<Rightarrow> NodeID \<Rightarrow> NodeID \<Rightarrow> alg \<Rightarrow> alg option" where
  "componentEdge g s t a = do {
     tname \<leftarrow> string_prop g t ''typename'';
     tid \<leftarrow> int_prop g t ''id'';
     st \<leftarrow> state a s;
     Some (case componentEdgeType tname of
             None \<Rightarrow> a
           | Some ty \<Rightarrow> insertEdge ty [VInt64 (maxTopoID st)] [VInt64 tid] [] a)
   }"

definition topoComponentNode :: "graph \<Rightarrow> NodeID list \<Rightarrow> alg \<Rightarrow> (NodeID list \<times> alg) option" where
  "topoComponentNode g cn a = do {
     sel \<leftarrow> vs_filter g (\<lambda>s. do { st \<leftarrow> state a s; Some (maxTopoID st \<noteq> 0) }) cn;
     vs_map g (\<lambda>s a. do {
       let tgts = g_neighborIDs g s (hasEdgeLabel g componentLabels);
       a \<leftarrow> foldM (componentEdge g s) tgts a;
       Some (tgts, a)
     }) sel a
   }"

section \<open>Series compensators\<close>

text \<open>\<^verbatim>\<open>write<int>\<close> converts the 64 bit topology id to 32 bits.\<close>

definition csEnd :: "graph \<Rightarrow> int64 \<Rightarrow> NodeID \<Rightarrow> NodeID \<Rightarrow> alg \<Rightarrow> (NodeID list \<times> alg) option" where
  "csEnd g cnID s t a = do {
     off \<leftarrow> int_prop g t ''off'';
     if off = 0 then do {
       iND \<leftarrow> int_prop g t ''I_nd'';
       jND \<leftarrow> int_prop g t ''J_nd'';
       ss \<leftarrow> state a s;
       a \<leftarrow> (if iND = cnID then upd_state t (\<lambda>st. st\<lparr>sumIID := ucast (maxTopoID ss)\<rparr>) a
             else if jND = cnID then upd_state t (\<lambda>st. st\<lparr>sumJID := ucast (maxTopoID ss)\<rparr>) a
             else Some a);
       Some ([t], a)
     } else Some ([], a)
   }"

definition csOpenSub :: "graph \<Rightarrow> NodeID list \<Rightarrow> alg \<Rightarrow> (NodeID list \<times> alg) option" where
  "csOpenSub g = vs_map g (\<lambda>s a. do {
     cnID \<leftarrow> int_prop g s ''CN_id'';
     let tgts = g_neighborIDs g s (hasEdgeLabel g [''connected_Compensator_S_CN'']);
     (res, a) \<leftarrow> mapM (csEnd g cnID s) tgts a;
     Some (emplaced res, a)
   })"

end
