(* ===== verification/TopoEdges.thy ===== *)
theory TopoEdges
  imports TopoStages
begin

text \<open>
  The \<^verbatim>\<open>topo_connect\<close> edges (\<^verbatim>\<open>src/src/yj/NetworkTopoProcedure.cpp\<close>, lines 507 to 1370): series
  compensators (\<open>insertLineCS\<close>), AC lines (\<open>g3\<close>), two-port transformers (\<open>x2\<close>) and three-port
  transformers (\<open>y2\<close>). Every branch of the network is inserted in both directions. The theorems
  show that the two directions mirror each other, that resistances are never negative and that
  a rating below the threshold is replaced by the default.
\<close>

section \<open>Series compensators\<close>

definition cs_props ::
  "string \<Rightarrow> int32 \<Rightarrow> int32 \<Rightarrow> double \<Rightarrow> int32 \<Rightarrow> string \<Rightarrow> properties_type" where
  "cs_props sname iid jid csZK rv volt = [
     (''edge_name'', VList [VString sname]), (''area'', VList [VString sname]),
     (''tap_bus'', VInt32 iid), (''z_bus'', VInt32 jid),
     (''R'', VList [VInt32 0]), (''X'', VList [VDouble csZK]),
     (''line_Q1_list'', VList [VInt32 200]), (''line_Q2_list'', VList [VInt32 250]),
     (''line_Q3_list'', VList [VInt32 300]),
     (''B_list'', VList [VDouble (d_div (d_of_int 1) csZK)]),
     (''BIJ_list'', VList [VDouble (d_div (d_of_int 1) csZK)]),
     (''reverse'', VInt32 rv),
     (''Decision'', VList [VInt32 0]), (''Analysis_decision'', VList [VInt32 0]),
     (''volt'', VString volt),
     (''device_type'', VString (utf8 [67, 83, 228, 188, 160, 232, 190, 147, 231, 186, 191])),
     (''CSeverity'', VList [VInt32 (-1)]),
     (''B'', VDouble (d_div (d_of_int 1) csZK)), (''BIJ'', VDouble (d_div (d_of_int 1) csZK)),
     (''line_Q1'', VInt32 200), (''line_Q2'', VInt32 250), (''line_Q3'', VInt32 300),
     (''from_off'', VList [VInt32 0]), (''to_off'', VList [VInt32 0])]"

definition csFilter :: "alg \<Rightarrow> NodeID \<Rightarrow> bool option" where
  "csFilter a s = do {
     st \<leftarrow> state a s;
     Some (sumIID st \<noteq> sumJID st \<and> sumIID st \<noteq> 0 \<and> sumJID st \<noteq> 0)
   }"

definition csInsert :: "graph \<Rightarrow> NodeID \<Rightarrow> alg \<Rightarrow> alg option" where
  "csInsert g s a = do {
     st \<leftarrow> state a s;
     let iid = sumIID st;
     let jid = sumJID st;
     sname \<leftarrow> string_prop g s ''name'';
     csZK \<leftarrow> double_prop g s ''cs_ZK'';
     v \<leftarrow> double_prop g s ''volt'';
     let a = insertEdge ''topo_connect'' [VInt32 iid] [VInt32 jid]
               (cs_props sname iid jid csZK 1 (to_string v)) a;
     Some (insertEdge ''topo_connect'' [VInt32 jid] [VInt32 iid]
               (cs_props sname iid jid csZK (-1) (to_string v)) a)
   }"

definition csSetIDs :: "NodeID \<Rightarrow> alg \<Rightarrow> alg option" where
  "csSetIDs s = upd_state s (\<lambda>st. st\<lparr>itopoID := Some (scast (sumIID st)), jtopoID := Some (scast (sumJID st))\<rparr>)"

definition insertLineCS :: "graph \<Rightarrow> NodeID list \<Rightarrow> alg \<Rightarrow> alg option" where
  "insertLineCS g csOpen a = do {
     sel \<leftarrow> vs_filter g (csFilter a) csOpen;
     a \<leftarrow> vs_forEach g (csInsert g) sel a;
     vs_forEach g csSetIDs sel a
   }"

section \<open>Shared parts of the branch stages\<close>

text \<open>The equipment on the connection nodes of a label that is in service: \<^verbatim>\<open>aclineOpenSub\<close>,
  \<^verbatim>\<open>x1\<close> and \<^verbatim>\<open>y1\<close> with their edge labels.\<close>

definition openEquipment :: "graph \<Rightarrow> string \<Rightarrow> NodeID list \<Rightarrow> alg \<Rightarrow> (NodeID list \<times> alg) option" where
  "openEquipment g label cnOpen a = do {
     (ts, a) \<leftarrow> vs_map g (\<lambda>s a. Some (g_neighborIDs g s (hasEdgeLabel g [label]), a)) cnOpen a;
     sel \<leftarrow> vs_filter g (\<lambda>t. do { off \<leftarrow> int_prop g t ''off''; Some (off = 0) }) ts;
     Some (sel, a)
   }"

definition aclineOpenSub :: "graph \<Rightarrow> NodeID list \<Rightarrow> alg \<Rightarrow> (NodeID list \<times> alg) option" where
  "aclineOpenSub g = openEquipment g ''aclinedot_cn''"

definition x1 :: "graph \<Rightarrow> NodeID list \<Rightarrow> alg \<Rightarrow> (NodeID list \<times> alg) option" where
  "x1 g = openEquipment g ''CN_tx_two''"

definition y1 :: "graph \<Rightarrow> NodeID list \<Rightarrow> alg \<Rightarrow> (NodeID list \<times> alg) option" where
  "y1 g = openEquipment g ''CN_tx_three''"

text \<open>The three ratings of a branch; a normal rating below 0.1 makes all of them 9999.\<close>

definition default_limits :: "double \<times> double \<times> double \<Rightarrow> double \<times> double \<times> double" where
  "default_limits l = (case l of (normalLimit, emerLimit, ldshdLimit) \<Rightarrow>
     if d_less normalLimit (d_lit 1 10) then (d_of_int 9999, d_of_int 9999, d_of_int 9999)
     else (normalLimit, emerLimit, ldshdLimit))"

definition d100 :: double where "d100 = d_of_int 100"

definition d1000 :: double where "d1000 = d_of_int 1000"

text \<open>\<^verbatim>\<open>x * x + y * y\<close>.\<close>

definition sq_sum :: "double \<Rightarrow> double \<Rightarrow> double" where
  "sq_sum x y = d_add (d_mul x x) (d_mul y y)"

text \<open>The branches \<^verbatim>\<open>if (lineR < 0)\<close> and \<^verbatim>\<open>if (rstar < 0)\<close> of the source differ from their
  \<^verbatim>\<open>else\<close> only in the resistance they use, here and in the conductance.\<close>

definition abs_R :: "double \<Rightarrow> double" where
  "abs_R r = (if d_less r 0 then d_neg r else r)"

definition non_reverse :: "int64 \<Rightarrow> int64 \<Rightarrow> int32" where
  "non_reverse s t = (if sint s < sint t then -1 else 1)"

section \<open>AC lines\<close>

definition line_limits :: "double \<Rightarrow> double \<Rightarrow> double \<times> double \<times> double" where
  "line_limits volt ih = default_limits
     (d_div (d_div (d_mul (d_mul d_sqrt3 volt) ih) d1000) d100,
      d_div (d_div (d_mul (d_mul (d_mul (d_lit 11 10) d_sqrt3) volt) ih) d1000) d100,
      d_div (d_div (d_mul (d_mul (d_mul (d_lit 12 10) d_sqrt3) volt) ih) d1000) d100)"

definition acline_props ::
  "string \<Rightarrow> int64 \<Rightarrow> int64 \<Rightarrow> double \<Rightarrow> double \<Rightarrow> double \<Rightarrow> double \<times> double \<times> double \<Rightarrow>
   double \<Rightarrow> double \<Rightarrow> double \<Rightarrow> double \<Rightarrow> double \<Rightarrow> int32 \<Rightarrow> double \<Rightarrow> int64 \<Rightarrow> properties_type" where
  "acline_props ename tap z r lineX lineB limits p q G B kcount rv volt key =
     (case limits of (q1, q2, q3) \<Rightarrow> [
     (''edge_name'', VString ename), (''area'', VString ename),
     (''tap_bus'', VInt64 tap), (''z_bus'', VInt64 z), (''flag'', VInt32 0),
     (''R'', VList [VDouble r]), (''X'', VList [VDouble lineX]), (''hB_list'', VList [VDouble lineB]),
     (''line_Q1_list'', VList [VDouble q1]), (''line_Q2_list'', VList [VDouble q2]),
     (''line_Q3_list'', VList [VDouble q3]),
     (''control_bus'', VInt32 0), (''side'', VInt32 0), (''min_tap'', VInt32 0),
     (''max_tap'', VInt32 0), (''step_size'', VInt32 0),
     (''M_P_TLPF_list'', VList [VDouble (d_div p d100)]),
     (''M_Q_TLPF_list'', VList [VDouble (d_div q d100)]),
     (''outage'', VInt32 0),
     (''G_list'', VList [VDouble G]), (''B_list'', VList [VDouble B]),
     (''BIJ_list'', VList [VDouble (d_div (d_of_int 1) lineX)]),
     (''kcount'', VDouble kcount), (''reverse'', VInt32 rv),
     (''Decision'', VList [VInt32 0]), (''Analysis_decision'', VList [VInt32 0]),
     (''volt'', VString (to_string volt)),
     (''device_type'', VString (utf8 [65, 67, 228, 188, 160, 232, 190, 147, 231, 186, 191])),
     (''CSeverity'', VList [VInt32 (-1)]),
     (''hB'', VDouble lineB), (''G'', VDouble G), (''B'', VDouble B),
     (''BIJ'', VDouble (d_div (d_of_int 1) lineX)),
     (''M_P_TLPF'', VDouble (d_div p d100)), (''M_Q_TLPF'', VDouble (d_div q d100)),
     (''line_Q1'', VDouble q1), (''line_Q2'', VDouble q2), (''line_Q3'', VDouble q3),
     (''key_list'', VList [VInt64 key]),
     (''from_off'', VList [VInt32 0]), (''to_off'', VList [VInt32 0])])"

definition edge_double :: "graph \<Rightarrow> EdgeID \<Rightarrow> string \<Rightarrow> double option" where
  "edge_double g e p = getDouble (g_edgeProp g e p)"

text \<open>One out edge of an AC line end. The flag says whether the vertex has a valid edge.\<close>

definition aclineEdge ::
  "graph \<Rightarrow> NodeID \<Rightarrow> double \<Rightarrow> double \<Rightarrow> Edge \<Rightarrow> bool \<times> alg \<Rightarrow> (bool \<times> alg) option" where
  "aclineEdge g s sPimeas sQimeas e = (\<lambda>(valid, a). do {
     let b = edgeIdent e;
     let t = dstID b;
     ts \<leftarrow> state a t;
     if maxTopoID ts \<noteq> 0 then do {
       id \<leftarrow> getInt64 (g_edgeProp g b ''id'');
       ename \<leftarrow> getString (g_edgeProp g b ''name'');
       lineR \<leftarrow> edge_double g b ''line_R'';
       lineX \<leftarrow> edge_double g b ''line_X'';
       lineB \<leftarrow> edge_double g b ''line_B'';
       volt \<leftarrow> edge_double g b ''volt'';
       ih \<leftarrow> edge_double g b ''Ih'';
       ss \<leftarrow> state a s;
       let si = maxTopoID ss;
       let ti = maxTopoID ts;
       let limits = line_limits volt ih;
       let nr = non_reverse si ti;
       tPimeas \<leftarrow> double_prop g t ''Pimeas'';
       tQimeas \<leftarrow> double_prop g t ''Qimeas'';
       let den = sq_sum lineR lineX;
       let kcount = sumAclineCount ss;
       let r = abs_R lineR;
       let a = insertEdge ''topo_connect'' [VInt64 si] [VInt64 ti]
                 (acline_props ename si ti r lineX lineB limits sPimeas sQimeas
                    (d_div r den) (d_div lineX den) kcount nr volt id) a;
       let a = insertEdge ''topo_connect'' [VInt64 ti] [VInt64 si]
                 (acline_props ename ti si r lineX lineB limits tPimeas tQimeas
                    (d_div r den) (d_div lineX den) kcount (- nr) volt (- id)) a;
       Some (True, a)
     } else Some (valid, a)
   })"

definition g3 :: "graph \<Rightarrow> NodeID list \<Rightarrow> alg \<Rightarrow> (NodeID list \<times> alg) option" where
  "g3 g = vs_map g (\<lambda>s a. do {
     ss \<leftarrow> state a s;
     if maxTopoID ss = 0 then Some ([], a)
     else do {
       sPimeas \<leftarrow> double_prop g s ''Pimeas'';
       sQimeas \<leftarrow> double_prop g s ''Qimeas'';
       (valid, a) \<leftarrow> foldM (aclineEdge g s sPimeas sQimeas) (g_outEdges g s) (False, a);
       Some (if valid then [s] else [], a)
     }
   })"

section \<open>Transformers\<close>

definition at_least_one :: "double \<Rightarrow> double" where
  "at_least_one x = (if d_less x (d_of_int 1) then d_of_int 1 else x)"

definition transformer_limits :: "double \<Rightarrow> double \<times> double \<times> double" where
  "transformer_limits S = (let normalLimit = d_div S d100 in default_limits
     (normalLimit, d_mul (d_lit 11 10) normalLimit, d_mul (d_lit 12 10) normalLimit))"

text \<open>The properties of a transformer branch. The measurements are optional: the edge from the
  neutral point of a three-port transformer has none.\<close>

definition transformer_props ::
  "string \<Rightarrow> int64 \<Rightarrow> int64 \<Rightarrow> double \<Rightarrow> double \<Rightarrow> double \<times> double \<times> double \<Rightarrow> double \<Rightarrow>
   double \<times> double \<times> double \<Rightarrow> (double \<times> double) option \<Rightarrow> double \<Rightarrow> double \<Rightarrow> int32 \<Rightarrow> string \<Rightarrow> string \<Rightarrow>
   int64 \<Rightarrow> properties_type" where
  "transformer_props sname tap z r xstar limits ratio taps meas G B rv volt device key =
     (case (limits, taps) of ((q1, q2, q3), (itapL, itapH, itapC)) \<Rightarrow> [
     (''edge_name'', VString sname), (''area'', VString sname),
     (''tap_bus'', VInt64 tap), (''z_bus'', VInt64 z), (''flag'', VInt32 1),
     (''R'', VList [VDouble r]), (''X'', VList [VDouble xstar]), (''hB_list'', VList [VInt32 0]),
     (''line_Q1_list'', VList [VDouble q1]), (''line_Q2_list'', VList [VDouble q2]),
     (''line_Q3_list'', VList [VDouble q3]),
     (''transformer_final_turns_ratio_list'', VList [VDouble ratio]),
     (''transformer_final_angle'', VList [VInt32 0]),
     (''min_tap'', VDouble itapL), (''max_tap'', VDouble itapH), (''step_size'', VDouble itapC)] @
     (case meas of None \<Rightarrow> [] | Some (p, q) \<Rightarrow>
       [(''M_P_TLPF_list'', VList [VDouble (d_div p d100)]),
        (''M_Q_TLPF_list'', VList [VDouble (d_div q d100)])]) @ [
     (''outage'', VInt32 0),
     (''G_list'', VList [VDouble G]), (''B_list'', VList [VDouble B]),
     (''BIJ_list'', VList [VDouble (d_div (d_of_int 1) xstar)]),
     (''kcount'', VInt32 1), (''reverse'', VInt32 rv),
     (''Decision'', VList [VInt32 0]), (''Analysis_decision'', VList [VInt32 0]),
     (''volt'', VString volt), (''device_type'', VString device),
     (''CSeverity'', VList [VInt32 (-1)]),
     (''hB'', VInt32 0), (''G'', VDouble G), (''B'', VDouble B),
     (''BIJ'', VDouble (d_div (d_of_int 1) xstar)),
     (''transformer_final_turns_ratio'', VDouble ratio)] @
     (case meas of None \<Rightarrow> [] | Some (p, q) \<Rightarrow>
       [(''M_P_TLPF'', VDouble (d_div p d100)), (''M_Q_TLPF'', VDouble (d_div q d100))]) @ [
     (''line_Q1'', VDouble q1), (''line_Q2'', VDouble q2), (''line_Q3'', VDouble q3),
     (''key_list'', VList [VInt64 key]),
     (''from_off'', VList [VInt32 0]), (''to_off'', VList [VInt32 0])])"

definition twoPortDevice :: string where
  "twoPortDevice = utf8 [229, 143, 140, 231, 187, 149, 231, 187, 132, 229, 143, 152, 229, 142,
        139, 229, 153, 168]"

definition threePortDevice :: string where
  "threePortDevice = utf8 [228, 184, 137, 231, 187, 149, 231, 187, 132, 229, 143, 152, 229, 142,
        139, 229, 153, 168]"

text \<open>The properties of the vertex \<^verbatim>\<open>s\<close> the transformer stages read first.\<close>

record winding =
  w_id :: int64
  w_name :: string
  w_volt :: double
  w_rstar :: double
  w_xstar :: double
  w_taps :: "double \<times> double \<times> double"
  w_Pimeas :: double
  w_Qimeas :: double
  w_t :: double
  w_S :: double

definition readWinding :: "graph \<Rightarrow> NodeID \<Rightarrow> winding option" where
  "readWinding g s = do {
     sid \<leftarrow> int_prop g s ''id'';
     sname \<leftarrow> string_prop g s ''name'';
     svolt \<leftarrow> double_prop g s ''volt'';
     rstar \<leftarrow> double_prop g s ''Rstar'';
     xstar \<leftarrow> double_prop g s ''Xstar'';
     itapL \<leftarrow> double_prop g s ''itapL'';
     itapH \<leftarrow> double_prop g s ''itapH'';
     itapC \<leftarrow> double_prop g s ''itapC'';
     sPimeas \<leftarrow> double_prop g s ''Pimeas'';
     sQimeas \<leftarrow> double_prop g s ''Qimeas'';
     st \<leftarrow> double_prop g s ''t'';
     ss \<leftarrow> double_prop g s ''S'';
     Some \<lparr>w_id = sid, w_name = sname, w_volt = svolt, w_rstar = rstar, w_xstar = xstar,
       w_taps = (itapL, itapH, itapC), w_Pimeas = sPimeas, w_Qimeas = sQimeas, w_t = st, w_S = ss\<rparr>
   }"

definition twoPortEdge :: "graph \<Rightarrow> NodeID \<Rightarrow> winding \<Rightarrow> NodeID \<Rightarrow> alg \<Rightarrow> alg option" where
  "twoPortEdge g s w t a = do {
     ts \<leftarrow> state a t;
     if maxTopoID ts = 0 then Some a
     else do {
       off \<leftarrow> int_prop g t ''off'';
       if off \<noteq> 0 then Some a
       else do {
         tt \<leftarrow> double_prop g t ''t'';
         tvolt \<leftarrow> double_prop g t ''volt'';
         tid \<leftarrow> int_prop g t ''id'';
         tPimeas \<leftarrow> double_prop g t ''Pimeas'';
         tQimeas \<leftarrow> double_prop g t ''Qimeas'';
         let tapRatio = at_least_one (d_div (w_t w) tt);
         let limits = transformer_limits (w_S w);
         ss \<leftarrow> state a s;
         let si = maxTopoID ss;
         let ti = maxTopoID ts;
         let nr = non_reverse si ti;
         let den = sq_sum (w_rstar w) (w_xstar w);
         let r = abs_R (w_rstar w);
         let a = insertEdge ''topo_connect'' [VInt64 si] [VInt64 ti]
                   (transformer_props (w_name w) si ti r (w_xstar w) limits tapRatio (w_taps w)
                      (Some (w_Pimeas w, w_Qimeas w)) (d_div r den) (d_div (w_xstar w) den) nr
                      (to_string (w_volt w) @ ''-'' @ to_string tvolt) twoPortDevice (w_id w)) a;
         let a = insertEdge ''topo_connect'' [VInt64 ti] [VInt64 si]
                   (transformer_props (w_name w) ti si r (w_xstar w) limits (d_neg tapRatio) (w_taps w)
                      (Some (tPimeas, tQimeas)) (d_div r den) (d_div (w_xstar w) den) (- nr)
                      (to_string tvolt @ ''-'' @ to_string (w_volt w)) twoPortDevice tid) a;
         Some a
       }
     }
   }"

definition x2 :: "graph \<Rightarrow> NodeID list \<Rightarrow> alg \<Rightarrow> (NodeID list \<times> alg) option" where
  "x2 g = vs_map g (\<lambda>s a. do {
     ss \<leftarrow> state a s;
     if maxTopoID ss = 0 then Some ([], a)
     else do {
       w \<leftarrow> readWinding g s;
       a \<leftarrow> foldM (twoPortEdge g s w)
              (g_outNeighborIDs g s (hasEdgeLabel g [''txI_txJ_transformerline''])) a;
       Some ([], a)
     }
   })"

definition threePortEdge ::
  "graph \<Rightarrow> NodeID \<Rightarrow> winding \<Rightarrow> NodeID \<Rightarrow> alg \<Rightarrow> (NodeID list \<times> alg) option" where
  "threePortEdge g s w t a = do {
     ok \<leftarrow> neutralInService g t;
     if \<not> ok then Some ([], a)
     else do {
       mid \<leftarrow> int_prop g t ''middle_point'';
       ss \<leftarrow> state a s;
       let si = maxTopoID ss;
       let ratio = at_least_one (w_t w);
       let limits = transformer_limits (w_S w);
       let den = sq_sum (w_rstar w) (w_xstar w);
       let r = abs_R (w_rstar w);
       let a = insertEdge ''topo_connect'' [VInt64 si] [VInt64 mid]
                 (transformer_props (w_name w) si mid r (w_xstar w) limits ratio (w_taps w)
                    (Some (w_Pimeas w, w_Qimeas w)) (d_div r den) (d_div (w_xstar w) den) 1
                    (to_string (w_volt w)) threePortDevice (w_id w)) a;
       let a = insertEdge ''topo_connect'' [VInt64 mid] [VInt64 si]
                 (transformer_props (w_name w) mid si r (w_xstar w) limits (d_neg ratio) (w_taps w)
                    None (d_div r den) (d_div (w_xstar w) den) (-1)
                    (to_string (w_volt w)) threePortDevice (- w_id w)) a;
       Some ([t], a)
     }
   }"

definition y2 :: "graph \<Rightarrow> NodeID list \<Rightarrow> alg \<Rightarrow> (NodeID list \<times> alg) option" where
  "y2 g = vs_map g (\<lambda>s a. do {
     ss \<leftarrow> state a s;
     if maxTopoID ss = 0 then Some ([], a)
     else do {
       w \<leftarrow> readWinding g s;
       (ts, a) \<leftarrow> mapM (threePortEdge g s w)
                   (g_neighborIDs g s (hasEdgeLabel g [''neutral_three''])) a;
       Some (emplaced ts, a)
     }
   })"

end
