(* ===== verification/TopoComp.thy ===== *)
theory TopoComp
  imports TopoEdges
begin

text \<open>
  The last part of \<^verbatim>\<open>NetworkTopoAlgorithm::run\<close>, \<^verbatim>\<open>set Frm_To_Cp\<close>
  (\<^verbatim>\<open>src/src/yj/NetworkTopoProcedure.cpp\<close>, lines 1372 to 1820): the reactive power of the
  parallel compensators is carried along connection nodes, breakers and disconnectors to AC
  lines and buses, and the compensation lists of the topology edges are reset.
\<close>

section \<open>Compensators and the spreading of their measurement\<close>

definition vCP1 :: "graph \<Rightarrow> NodeID list \<Rightarrow> alg \<Rightarrow> (NodeID list \<times> alg) option" where
  "vCP1 g tpnd a = do {
     (ts, a) \<leftarrow> vs_map g (\<lambda>s a. Some (g_neighborIDs g s (hasEdgeLabel g [''topo_compensatorP'']), a)) tpnd a;
     sel \<leftarrow> vs_filter g (\<lambda>t. Some (hasNodeLabel g t ''C_P'')) ts;
     Some (sel, a)
   }"

definition vCN1 :: "graph \<Rightarrow> NodeID list \<Rightarrow> alg \<Rightarrow> (NodeID list \<times> alg) option" where
  "vCN1 g = vs_map g (\<lambda>s a. do {
     qimeas \<leftarrow> double_prop g s ''Qimeas'';
     let tgts = g_neighborIDs g s (hasEdgeLabel g [''connected_Compensator_P_CN'']);
     (res, a) \<leftarrow> mapM (\<lambda>t a.
        if hasNodeLabel g t ''CN''
        then do { a \<leftarrow> writeDouble t set_sumQimeas qimeas a; Some ([t], a) }
        else Some ([], a)) tgts a;
     Some (emplaced res, a)
   })"

definition connCNLabels :: "string list" where
  "connCNLabels = [''connected_Breaker_CN'', ''connected_Disconnector_CN'']"

text \<open>Write the measurement of \<open>s\<close> to \<open>t\<close>.\<close>

definition passQimeas :: "NodeID \<Rightarrow> NodeID \<Rightarrow> alg \<Rightarrow> alg option" where
  "passQimeas s t a = do { ss \<leftarrow> state a s; writeDouble t set_sumQimeas (sumQimeas ss) a }"

text \<open>The stages \<^verbatim>\<open>vBD\<close>, \<^verbatim>\<open>vCN2\<close> to \<^verbatim>\<open>vCN8\<close>, \<^verbatim>\<open>vD1\<close> to \<^verbatim>\<open>vD4\<close>, \<^verbatim>\<open>vB1\<close>
  and \<^verbatim>\<open>vB2\<close>: every neighbour over an edge with one of the labels is written and returned.\<close>

definition spreadStep :: "graph \<Rightarrow> string list \<Rightarrow> NodeID \<Rightarrow> alg \<Rightarrow> (NodeID list \<times> alg) option" where
  "spreadStep g labels s a = do {
     let tgts = g_neighborIDs g s (hasEdgeLabel g labels);
     a \<leftarrow> foldM (passQimeas s) tgts a;
     Some (tgts, a)
   }"

definition spread :: "graph \<Rightarrow> string list \<Rightarrow> NodeID list \<Rightarrow> alg \<Rightarrow> (NodeID list \<times> alg) option" where
  "spread g labels = vs_map g (spreadStep g labels)"

definition vBD :: "graph \<Rightarrow> NodeID list \<Rightarrow> alg \<Rightarrow> (NodeID list \<times> alg) option" where
  "vBD g = spread g connCNLabels"

definition vCN2 :: "graph \<Rightarrow> NodeID list \<Rightarrow> alg \<Rightarrow> (NodeID list \<times> alg) option" where
  "vCN2 g = spread g connCNLabels"

text \<open>\<^verbatim>\<open>vD1\<close>, \<^verbatim>\<open>vD2\<close>, \<^verbatim>\<open>vD3\<close>, \<^verbatim>\<open>vD4\<close>, \<^verbatim>\<open>vCN3\<close>, \<^verbatim>\<open>vCN5\<close>, \<^verbatim>\<open>vCN7\<close> and
  \<^verbatim>\<open>vCN8\<close> go over disconnectors; \<^verbatim>\<open>vB1\<close>, \<^verbatim>\<open>vB2\<close>, \<^verbatim>\<open>vCN4\<close> and \<^verbatim>\<open>vCN6\<close> over breakers.\<close>

definition overDisconnectors :: "graph \<Rightarrow> NodeID list \<Rightarrow> alg \<Rightarrow> (NodeID list \<times> alg) option" where
  "overDisconnectors g = spread g [''connected_Disconnector_CN'']"

definition overBreakers :: "graph \<Rightarrow> NodeID list \<Rightarrow> alg \<Rightarrow> (NodeID list \<times> alg) option" where
  "overBreakers g = spread g [''connected_Breaker_CN'']"

text \<open>Stages that return every neighbour but write only those with a node label.\<close>

definition labelledSpreadStep ::
  "graph \<Rightarrow> string \<Rightarrow> string \<Rightarrow> NodeID \<Rightarrow> alg \<Rightarrow> (NodeID list \<times> alg) option" where
  "labelledSpreadStep g edgeLabel nodeLabel s a = do {
     let tgts = g_neighborIDs g s (hasEdgeLabel g [edgeLabel]);
     a \<leftarrow> foldM (\<lambda>t a. if hasNodeLabel g t nodeLabel then passQimeas s t a else Some a) tgts a;
     Some (tgts, a)
   }"

definition vACLineDot1 :: "graph \<Rightarrow> NodeID list \<Rightarrow> alg \<Rightarrow> (NodeID list \<times> alg) option" where
  "vACLineDot1 g = vs_map g (labelledSpreadStep g ''aclinedot_cn'' ''ACline_dot'')"

definition vBus :: "graph \<Rightarrow> NodeID list \<Rightarrow> alg \<Rightarrow> (NodeID list \<times> alg) option" where
  "vBus g = vs_map g (labelledSpreadStep g ''connected_Bus_CN'' ''BUS'')"

section \<open>The far ends of the AC lines\<close>

definition aclineLabels :: "string list" where
  "aclineLabels = [''aclinedot_aclinedot'', ''aclinedot_aclinedot_reverse'']"

text \<open>The body runs once for each label of the edge that is in \<open>aclineLabels\<close>.\<close>

definition aclineDotEdge ::
  "graph \<Rightarrow> NodeID \<Rightarrow> int64 \<Rightarrow> Edge \<Rightarrow> alg \<Rightarrow> (NodeID list \<times> alg) option" where
  "aclineDotEdge g s tid e =
     mapM (\<lambda>l a.
        let t = dstID (edgeIdent e) in
        if hasNodeLabel g t ''ACline_dot'' then do {
          a \<leftarrow> passQimeas s t a;
          a \<leftarrow> upd_state t (\<lambda>st. st\<lparr>setTopoID1 := insert tid (setTopoID1 st)\<rparr>) a;
          Some ([t], a\<lparr>edgeList := edgeList a @ [e]\<rparr>)
        } else Some ([], a))
       (filter (\<lambda>l. l \<in> set aclineLabels) (g_edgeLabels g (edgeIdent e)))"

definition vACLineDot2 :: "graph \<Rightarrow> NodeID list \<Rightarrow> alg \<Rightarrow> (NodeID list \<times> alg) option" where
  "vACLineDot2 g = vs_map g (\<lambda>s a. do {
     tid \<leftarrow> int_prop g s ''topoID'';
     (ts, a) \<leftarrow> mapM (aclineDotEdge g s tid) (g_outEdges g s) a;
     Some (emplaced ts, a)
   })"

section \<open>Topology nodes of buses and lines\<close>

definition busTopoStep :: "graph \<Rightarrow> NodeID \<Rightarrow> alg \<Rightarrow> (NodeID list \<times> alg) option" where
  "busTopoStep g s a = do {
     (res, a) \<leftarrow> mapM (\<lambda>t a.
        if hasNodeLabel g t ''TopoND'' then do {
          ss \<leftarrow> state a s;
          a \<leftarrow> writeDouble t set_sumBusQMeas (d_abs (d_div (sumQimeas ss) d100)) a;
          Some ([t], a)
        } else Some ([], a)) (g_neighborIDs g s (hasEdgeLabel g [''topo_bus''])) a;
     Some (emplaced res, a)
   }"

text \<open>\<^verbatim>\<open>vTPND3\<close> from \<^verbatim>\<open>vBus1\<close> and \<^verbatim>\<open>vTPND4\<close> from \<^verbatim>\<open>vBus2\<close>.\<close>

definition vTPND34 :: "graph \<Rightarrow> NodeID list \<Rightarrow> alg \<Rightarrow> (NodeID list \<times> alg) option" where
  "vTPND34 g bus a = do {
     sel \<leftarrow> vs_filter g (\<lambda>s. do { v \<leftarrow> double_prop g s ''volt''; Some (d_less (d_of_int 400) v) }) bus;
     vs_map g (busTopoStep g) sel a
   }"

text \<open>The first \<^verbatim>\<open>vTPND1\<close> and \<^verbatim>\<open>vTPND2\<close>: count the lines of each topology node.\<close>

definition countLines :: "graph \<Rightarrow> NodeID list \<Rightarrow> alg \<Rightarrow> (NodeID list \<times> alg) option" where
  "countLines g = vs_map g (\<lambda>s a. do {
     (res, a) \<leftarrow> mapM (\<lambda>t a.
        if hasNodeLabel g t ''TopoND'' then do {
          a \<leftarrow> upd_state t (\<lambda>st. st\<lparr>sumLineNo := sumLineNo st + 1\<rparr>) a;
          Some ([t], a)
        } else Some ([], a)) (g_neighborIDs g s (hasEdgeLabel g [''topo_aclinedot''])) a;
     Some (emplaced res, a)
   })"

text \<open>The lambda \<^verbatim>\<open>fn\<close> of the second \<^verbatim>\<open>vTPND1\<close> and \<^verbatim>\<open>vTPND2\<close>, applied to the out edges and
  then to the in edges. Inserting the elements of \<^verbatim>\<open>setTopoID1\<close> into itself leaves it as it is.\<close>

definition lineTopoEdge ::
  "graph \<Rightarrow> (NetworkTopoState \<Rightarrow> NetworkTopoState \<Rightarrow> double) \<Rightarrow> (Edge \<Rightarrow> alg \<Rightarrow> alg) \<Rightarrow> NodeID \<Rightarrow> string \<Rightarrow>
   Edge \<Rightarrow> alg \<Rightarrow> (NodeID list \<times> alg) option" where
  "lineTopoEdge g qmeas push s sname e a =
     (let t = dstID (edgeIdent e) in
      if hasEdgeLabel g [''topo_aclinedot''] e \<and> hasNodeLabel g t ''TopoND'' then do {
        ss \<leftarrow> state a s;
        a \<leftarrow> upd_state t (\<lambda>st. st\<lparr>setTopoID1 := setTopoID1 st \<union> setTopoID1 st,
                listTpndName := listTpndName st @ [getAclineName sname],
                listTpndQMeas := listTpndQMeas st @ [qmeas ss st]\<rparr>) a;
        Some ([t], push e a)
      } else Some ([], a))"

definition lineTopo ::
  "graph \<Rightarrow> (NetworkTopoState \<Rightarrow> NetworkTopoState \<Rightarrow> double) \<Rightarrow> (Edge \<Rightarrow> alg \<Rightarrow> alg) \<Rightarrow> NodeID list \<Rightarrow>
   alg \<Rightarrow> (NodeID list \<times> alg) option" where
  "lineTopo g qmeas push = vs_map g (\<lambda>s a. do {
     sname \<leftarrow> string_prop g s ''name'';
     (res, a) \<leftarrow> mapM (lineTopoEdge g qmeas push s sname) (g_outEdges g s @ g_inEdges g s) a;
     Some (emplaced res, a)
   })"

definition vTPND1 :: "graph \<Rightarrow> NodeID list \<Rightarrow> alg \<Rightarrow> (NodeID list \<times> alg) option" where
  "vTPND1 g = lineTopo g (\<lambda>ss st. d_abs (d_div (sumQimeas ss) d100))
     (\<lambda>e a. a\<lparr>topoAclineDotEdge1 := topoAclineDotEdge1 a @ [e]\<rparr>)"

definition vTPND2 :: "graph \<Rightarrow> NodeID list \<Rightarrow> alg \<Rightarrow> (NodeID list \<times> alg) option" where
  "vTPND2 g = lineTopo g (\<lambda>ss st. d_div (sumBusQMeas st) (d_of_int (sint (sumLineNo st))))
     (\<lambda>e a. a\<lparr>topoAclineDotEdge2 := topoAclineDotEdge2 a @ [e]\<rparr>)"

section \<open>Topology edges\<close>

definition isTopoConnect :: "graph \<Rightarrow> Edge \<Rightarrow> bool" where
  "isTopoConnect g e \<longleftrightarrow> hasEdgeLabel g [''topo_connect''] e \<and> hasNodeLabel g (dstID (edgeIdent e)) ''TopoND''"

definition resetCPLists :: "graph \<Rightarrow> NodeID list \<Rightarrow> alg \<Rightarrow> alg option" where
  "resetCPLists g = vs_forEach g (\<lambda>s a.
     foldM (\<lambda>e a. Some (if isTopoConnect g e
       then updateEdge (Edge_setProperty (Edge_setProperty e ''from_CP_list'' (VList [])) ''to_CP_list'' (VList [])) a
       else a)) (g_outEdges g s) a)"

definition collectConnect ::
  "graph \<Rightarrow> (Edge \<Rightarrow> alg \<Rightarrow> alg) \<Rightarrow> NodeID list \<Rightarrow> alg \<Rightarrow> (NodeID list \<times> alg) option" where
  "collectConnect g push = vs_map g (\<lambda>s a. do {
     (res, a) \<leftarrow> mapM (\<lambda>e a. if isTopoConnect g e then Some ([dstID (edgeIdent e)], push e a)
                          else Some ([], a)) (g_outEdges g s) a;
     Some (emplaced res, a)
   })"

definition vTPND1ConnectedTPND2 :: "graph \<Rightarrow> NodeID list \<Rightarrow> alg \<Rightarrow> (NodeID list \<times> alg) option" where
  "vTPND1ConnectedTPND2 g = collectConnect g (\<lambda>e a. a\<lparr>topoConnectEdge1 := topoConnectEdge1 a @ [e]\<rparr>)"

definition vTPND2ConnectedTPND1 :: "graph \<Rightarrow> NodeID list \<Rightarrow> alg \<Rightarrow> (NodeID list \<times> alg) option" where
  "vTPND2ConnectedTPND1 g = collectConnect g (\<lambda>e a. a\<lparr>topoConnectEdge2 := topoConnectEdge2 a @ [e]\<rparr>)"

definition vTopoSet :: "graph \<Rightarrow> NodeID list \<Rightarrow> alg \<Rightarrow> (NodeID list \<times> alg) option" where
  "vTopoSet g = collectConnect g (\<lambda>e.
     updateEdge (Edge_setProperty (Edge_setProperty e ''from_CP'' (VInt32 0)) ''to_CP'' (VInt32 0)))"

definition tTest :: "graph \<Rightarrow> NodeID list \<Rightarrow> alg \<Rightarrow> (NodeID list \<times> alg) option" where
  "tTest g = collectConnect g (\<lambda>e a. a)"

text \<open>The stages in the order of the source, from the compensators to the last map.\<close>

definition frmToCp :: "graph \<Rightarrow> NodeID list \<Rightarrow> alg \<Rightarrow> alg option" where
  "frmToCp g tpnd a = do {
     (cp1, a) \<leftarrow> vCP1 g tpnd a;
     (cn1, a) \<leftarrow> vCN1 g cp1 a;
     (bd, a) \<leftarrow> vBD g cn1 a;
     (cn2, a) \<leftarrow> vCN2 g bd a;
     (d4, a) \<leftarrow> overDisconnectors g cn2 a;
     (cn8, a) \<leftarrow> overDisconnectors g d4 a;
     let cn9 = g_merge g cn2 cn8;
     (dot1, a) \<leftarrow> vACLineDot1 g cn9 a;
     (dot2, a) \<leftarrow> vACLineDot2 g dot1 a;
     (d1, a) \<leftarrow> overDisconnectors g cn1 a;
     (cn3, a) \<leftarrow> overDisconnectors g d1 a;
     (b1, a) \<leftarrow> overBreakers g cn3 a;
     (cn4, a) \<leftarrow> overBreakers g b1 a;
     (d2, a) \<leftarrow> overDisconnectors g cn4 a;
     (cn5, a) \<leftarrow> overDisconnectors g d2 a;
     (b2, a) \<leftarrow> overBreakers g cn1 a;
     (cn6, a) \<leftarrow> overBreakers g b2 a;
     (d3, a) \<leftarrow> overDisconnectors g cn6 a;
     (cn7, a) \<leftarrow> overDisconnectors g d3 a;
     (bus1, a) \<leftarrow> vBus g cn5 a;
     (bus2, a) \<leftarrow> vBus g cn7 a;
     (_, a) \<leftarrow> vTPND34 g bus1 a;
     (_, a) \<leftarrow> vTPND34 g bus2 a;
     (_, a) \<leftarrow> countLines g dot1 a;
     (tp1, a) \<leftarrow> vTPND1 g dot1 a;
     (_, a) \<leftarrow> countLines g dot2 a;
     (tp2, a) \<leftarrow> vTPND2 g dot2 a;
     a \<leftarrow> resetCPLists g tp1 a;
     a \<leftarrow> resetCPLists g tp2 a;
     (_, a) \<leftarrow> vTPND1ConnectedTPND2 g tp1 a;
     (_, a) \<leftarrow> vTPND2ConnectedTPND1 g tp2 a;
     (_, a) \<leftarrow> vTopoSet g tpnd a;
     (_, a) \<leftarrow> tTest g tpnd a;
     Some a
   }"

end
