(* ===== verification/NetworkTopo.thy ===== *)
theory NetworkTopo
  imports TopoComp
begin

text \<open>
  The whole network topology procedure: \<^verbatim>\<open>NetworkTopoAlgorithm::run\<close> as the composition of
  its stages, \<^verbatim>\<open>ComputingAlgorithm::getResult\<close>, the procedure \<^verbatim>\<open>networkTopoProcedure\<close> with
  its guards, its declaration, and the plugin that registers it
  (\<^verbatim>\<open>src/src/yj/NetworkTopoProcedure.cpp\<close>, \<^verbatim>\<open>src/src/yj/YJProcedurePlugin.cpp\<close>,
  \<^verbatim>\<open>src/include/nebula/plugins/\<close>).
\<close>

section \<open>run\<close>

definition all_vertices :: "graph \<Rightarrow> NodeID list" where
  "all_vertices g = g_subset g (g_nodeIDs g)"

definition verticesOf :: "graph \<Rightarrow> string \<Rightarrow> NodeID list" where
  "verticesOf g label = g_byAllLabels g (all_vertices g) [label]"

text \<open>Before the loop: switch positions and the starting ids. The result holds
  \<^verbatim>\<open>cnOpenSub\<close> and \<^verbatim>\<open>cnTotal\<close>.\<close>

definition run_start :: "graph \<Rightarrow> alg \<Rightarrow> (NodeID list \<times> NodeID list \<times> alg) option" where
  "run_start g a = do {
     flagged \<leftarrow> disSetByFlag g (verticesOf g ''discrete'');
     (breakers, a) \<leftarrow> breakerSet g flagged a;
     a \<leftarrow> breakerPoints g breakers a;
     (disconnectors, a) \<leftarrow> disSet g flagged a;
     a \<leftarrow> disPoints g disconnectors a;
     (sub, a) \<leftarrow> selectSub g (verticesOf g ''Substation'') a;
     (cnOpen, a) \<leftarrow> cnOpenSub g sub a;
     (misc, a) \<leftarrow> miscellaneous g sub a;
     (cn, a) \<leftarrow> cnTotal g misc a;
     Some (cnOpen, cn, a)
   }"

text \<open>After the loop.\<close>

definition run_build :: "graph \<Rightarrow> NodeID list \<Rightarrow> NodeID list \<Rightarrow> alg \<Rightarrow> alg option" where
  "run_build g cnOpen cn a = do {
     (tp, a) \<leftarrow> buildTP g cn a;
     a \<leftarrow> setTopoIDs g tp a;
     (tpu, a) \<leftarrow> buildTPUnit g cn a;
     a \<leftarrow> setTopoIDs g tpu a;
     total \<leftarrow> totalTopoNodes g (verticesOf g ''neutral_point'');
     a \<leftarrow> totalTopoInsert g total a;
     (_, a) \<leftarrow> topoSub g cn a;
     (_, a) \<leftarrow> topoComponentNode g cn a;
     (cs, a) \<leftarrow> csOpenSub g cnOpen a;
     a \<leftarrow> insertLineCS g cs a;
     (acline, a) \<leftarrow> aclineOpenSub g cnOpen a;
     (_, a) \<leftarrow> g3 g acline a;
     (tx2, a) \<leftarrow> x1 g cnOpen a;
     (_, a) \<leftarrow> x2 g tx2 a;
     (tx3, a) \<leftarrow> y1 g cnOpen a;
     (_, a) \<leftarrow> y2 g tx3 a;
     frmToCp g (verticesOf g ''TopoND'') a
   }"

text \<open>The outer option of \<open>run\<close> is running out of fuel in the propagation loop, the inner one a
  failed check.\<close>

definition run :: "nat \<Rightarrow> graph \<Rightarrow> alg \<Rightarrow> alg option option" where
  "run fuel g a = (case run_start g a of
     None \<Rightarrow> Some None
   | Some (cnOpen, cn, a1) \<Rightarrow>
       (case propagate fuel g cnOpen a1 of
          None \<Rightarrow> None
        | Some None \<Rightarrow> Some None
        | Some (Some (_, a2)) \<Rightarrow> Some (run_build g cnOpen cn a2)))"

definition alg_name :: string where
  "alg_name = ''yj.network_topo''"

section \<open>Results\<close>

definition vertexRow :: "alg \<Rightarrow> NodeID \<Rightarrow> Row option" where
  "vertexRow a v = do { st \<leftarrow> state a v; Some (state_getResult st (Row_append [] (VInt64 v))) }"

definition getResult :: "graph \<Rightarrow> alg \<Rightarrow> ResultTable \<Rightarrow> ResultTable option" where
  "getResult g a tbl =
     foldM (\<lambda>v tbl. do { row \<leftarrow> vertexRow a v; Some (ResultTable_append tbl row) }) (g_nodeIDs g) tbl"

definition kColumnNames :: "string list" where
  "kColumnNames = [''topoID'', ''point'', ''itopoID'', ''jtopoID'']"

section \<open>The procedure\<close>

text \<open>The status is always \<^verbatim>\<open>OK\<close>; the outcome is its optional result. The context gives
  whether there is a request context, and the graph of a reference's entry
  (\<^verbatim>\<open>RefCatalog::getGraph\<close>).\<close>

record ProcContext =
  has_rctx :: bool
  catalog_getGraph :: "uint32 \<Rightarrow> graph"

type_synonym outcome = "ResultTable option"

definition run_table :: "graph \<Rightarrow> alg \<Rightarrow> outcome option" where
  "run_table g a = do {
     tbl \<leftarrow> getResult g a (setColumnNames ResultTable_empty kColumnNames);
     Some (Some tbl)
   }"

definition networkTopoProcedure ::
  "nat \<Rightarrow> ProcContext \<Rightarrow> Value list \<Rightarrow> outcome option option" where
  "networkTopoProcedure fuel pctx args =
     (if \<not> has_rctx pctx then Some (Some None)
      else if length args < 1 \<or> \<not> isString (args ! 0) then Some (Some None)
      else case getRef (args ! 0) of
        None \<Rightarrow> Some None
      | Some ref \<Rightarrow>
          (let g = catalog_getGraph pctx (entryID ref) in
           case run fuel g (init_alg g) of
             None \<Rightarrow> None
           | Some None \<Rightarrow> Some None
           | Some (Some a) \<Rightarrow> Some (run_table g a)))"

section \<open>Declaration and plugin\<close>

text \<open>A parameter or field is its kind, its name and, for a parameter, its comment. The function
  of the procedure is \<open>networkTopoProcedure\<close>.\<close>

record procedure =
  proc_name :: string
  proc_params :: "(ValueTypeKind \<times> string \<times> string) list"
  proc_fields :: "(ValueTypeKind \<times> string) list"
  proc_func :: "nat \<Rightarrow> ProcContext \<Rightarrow> Value list \<Rightarrow> outcome option option"
  proc_comment :: string

definition declareNetworkTopoProcedure :: procedure where
  "declareNetworkTopoProcedure = \<lparr>
     proc_name = ''network_topo'',
     proc_params = [(kString, ''graphName'', ''graph name'')],
     proc_fields = map (\<lambda>n. (kString, n)) kColumnNames,
     proc_func = networkTopoProcedure,
     proc_comment = ''network topology processing algorithm''\<rparr>"

text \<open>\<^verbatim>\<open>Field::colName\<close> quotes a name with a space.\<close>

definition colName :: "string \<Rightarrow> string" where
  "colName n = (if CHR '' '' \<in> set n then ''`'' @ n @ ''`'' else n)"

datatype PluginType =
  AUDIT | FUNCTION | PROCEDURE | LOG_ROTATE | LICENSE_MANAGER | STORAGE_ENGINE | GENERIC | AUTHENTICATOR

fun pluginTypeString :: "PluginType \<Rightarrow> string" where
  "pluginTypeString AUDIT = ''AUDIT''"
| "pluginTypeString FUNCTION = ''FUNCTION''"
| "pluginTypeString PROCEDURE = ''PROCEDURE''"
| "pluginTypeString LOG_ROTATE = ''LOG_ROTATE''"
| "pluginTypeString LICENSE_MANAGER = ''LICENSE_MANAGER''"
| "pluginTypeString STORAGE_ENGINE = ''STORAGE_ENGINE''"
| "pluginTypeString GENERIC = ''GENERIC''"
| "pluginTypeString AUTHENTICATOR = ''AUTHENTICATOR''"

record PluginInfo =
  pi_type :: PluginType
  pi_name :: string
  pi_author :: string
  pi_description :: string
  pi_license :: string
  pi_pluginVersion :: string
  pi_apiVersion :: uint32

definition NEBULA_PLUGIN_API_VERSION :: uint32 where
  "NEBULA_PLUGIN_API_VERSION = push_bit 16 5 OR 0"

definition getApiVersion :: "PluginInfo \<Rightarrow> string" where
  "getApiVersion i =
     dec_digits (uint (drop_bit 16 (pi_apiVersion i))) @ ''.'' @
     dec_digits (uint (pi_apiVersion i AND 0xFF))"

record ProcedurePlugin =
  plugin_info :: PluginInfo
  procedures :: "string \<rightharpoonup> procedure"

text \<open>The constructor of \<^verbatim>\<open>ProcedurePlugin\<close> checks the type; \<^verbatim>\<open>emplace\<close> keeps an existing
  entry.\<close>

definition ProcedurePlugin_new :: "PluginInfo \<Rightarrow> ProcedurePlugin option" where
  "ProcedurePlugin_new i =
     (if pi_type i = PROCEDURE then Some \<lparr>plugin_info = i, procedures = Map.empty\<rparr> else None)"

definition addProcedure :: "procedure \<Rightarrow> ProcedurePlugin \<Rightarrow> ProcedurePlugin" where
  "addProcedure p pl =
     (case procedures pl (proc_name p) of
        None \<Rightarrow> pl\<lparr>procedures := (procedures pl)(proc_name p \<mapsto> p)\<rparr>
      | Some _ \<Rightarrow> pl)"

definition getProcedure :: "ProcedurePlugin \<Rightarrow> string \<Rightarrow> procedure option" where
  "getProcedure pl n = procedures pl n"

definition YJProcedurePlugin :: "ProcedurePlugin option" where
  "YJProcedurePlugin = do {
     pl \<leftarrow> ProcedurePlugin_new \<lparr>pi_type = PROCEDURE, pi_name = ''yj'', pi_author = ''yj'',
       pi_description = '''', pi_license = ''PROPRIETARY'', pi_pluginVersion = ''5.0'',
       pi_apiVersion = NEBULA_PLUGIN_API_VERSION\<rparr>;
     Some (addProcedure declareNetworkTopoProcedure pl)
   }"

end
