(* ===== verification/TopoLaws.thy ===== *)
theory TopoLaws
  imports NetworkTopo
begin

text \<open>
  Invariants of the whole topology run. The locale \<open>run_invariant\<close> states what a predicate on the
  algorithm's state must satisfy for each primitive operation the stages use; inside it every
  stage, and so \<^verbatim>\<open>run\<close>, is shown to keep the predicate. The interpretations give: the vertices
  keep their states, \<^verbatim>\<open>topo_connect\<close> edges are inserted in mirrored pairs with sound electrical
  data, and \<^verbatim>\<open>sumAclineCount\<close> is never changed.
\<close>

section \<open>What a pair of inserted branches must satisfy\<close>

text \<open>The keys on which the two directions of a branch agree.\<close>

definition sharedKeys :: "string list" where
  "sharedKeys = [''edge_name'', ''R'', ''X'', ''kcount'', ''G'', ''B'', ''BIJ'', ''line_Q1'', ''line_Q2'',
     ''line_Q3'', ''device_type'']"

definition mirrored :: "edge_request \<Rightarrow> edge_request \<Rightarrow> bool" where
  "mirrored e e' = (case (e, e') of ((ty, src, dst, p), (ty', src', dst', p')) \<Rightarrow>
     ty = ''topo_connect'' \<and> ty' = ''topo_connect'' \<and> src' = dst \<and> dst' = src \<and>
     (\<forall>k \<in> set sharedKeys. map_of p' k = map_of p k) \<and>
     (map_of p ''reverse'', map_of p' ''reverse'') \<in>
       {(Some (VInt32 1), Some (VInt32 (-1))), (Some (VInt32 (-1)), Some (VInt32 1))})"

definition nonneg_R :: "properties_type \<Rightarrow> bool" where
  "nonneg_R p = (case map_of p ''R'' of
     Some (VList [VInt32 r]) \<Rightarrow> r = 0
   | Some (VList [VDouble r]) \<Rightarrow> \<not> d_less r 0
   | _ \<Rightarrow> False)"

definition rated :: "properties_type \<Rightarrow> bool" where
  "rated p = (case map_of p ''line_Q1'' of
     Some (VInt32 q) \<Rightarrow> q = 200
   | Some (VDouble q) \<Rightarrow> \<not> d_less q (d_lit 1 10)
   | _ \<Rightarrow> False)"

definition branch_pair :: "edge_request \<Rightarrow> edge_request \<Rightarrow> bool" where
  "branch_pair e e' \<longleftrightarrow> mirrored e e' \<and>
     (let p = snd (snd (snd e)); p' = snd (snd (snd e')) in
      nonneg_R p \<and> nonneg_R p' \<and> rated p \<and> rated p')"

fun branch_pairs :: "edge_request list \<Rightarrow> bool" where
  "branch_pairs [] = True"
| "branch_pairs [e] = False"
| "branch_pairs (e # e' # es) = (branch_pair e e' \<and> branch_pairs es)"

definition connects :: "edge_request list \<Rightarrow> edge_request list" where
  "connects = filter (\<lambda>(ty, src, dst, p). ty = ''topo_connect'')"

lemma branch_pairs_append:
  "branch_pairs es \<Longrightarrow> branch_pair e e' \<Longrightarrow> branch_pairs (es @ [e, e'])"
  by (induction es rule: branch_pairs.induct) auto

section \<open>The interface of an invariant\<close>

text \<open>The \<^verbatim>\<open>kcount\<close> of a branch is the constant 1, absent, or the counter of a vertex.\<close>

definition kcount_from :: "alg \<Rightarrow> properties_type \<Rightarrow> bool" where
  "kcount_from a p \<longleftrightarrow> map_of p ''kcount'' = None \<or> map_of p ''kcount'' = Some (VInt32 1) \<or>
     (\<exists>v st. states a v = Some st \<and> map_of p ''kcount'' = Some (VDouble (sumAclineCount st)))"

lemma default_limits_rated: "\<not> d_less (fst (default_limits l)) (d_lit 1 10)"
proof -
  have "\<not> d_less (d_of_int 9999) (d_lit 1 10)" by code_simp
  then show ?thesis by (simp add: default_limits_def split: prod.splits)
qed

lemma abs_R_nonneg [simp]: "\<not> d_less (abs_R r) 0"
  by (simp add: abs_R_def d_neg_not_negative)

lemma limits_rated [simp]:
  "\<not> d_less (fst (line_limits volt ih)) (d_lit 1 10)"
  "\<not> d_less (fst (transformer_limits S)) (d_lit 1 10)"
  by (simp_all add: line_limits_def transformer_limits_def Let_def default_limits_rated)

lemma non_reverse_cases [simp]: "non_reverse s t = 1 \<or> non_reverse s t = -1"
  by (simp add: non_reverse_def)

lemma branch_pair_cs:
  "branch_pair (''topo_connect'', src, dst, cs_props n i j z 1 v)
     (''topo_connect'', dst, src, cs_props n i j z (-1) v)"
  by (simp add: branch_pair_def mirrored_def sharedKeys_def nonneg_R_def rated_def cs_props_def)

lemma kcount_cs: "kcount_from a (cs_props n i j z r v)"
  by (simp add: kcount_from_def cs_props_def)

lemma acline_lookup:
  fixes n s t r x b q1 q2 q3 p q G B k rv v i
  defines "ps \<equiv> acline_props n s t r x b (q1, q2, q3) p q G B k rv v i"
  shows "map_of ps ''edge_name'' = Some (VString n)"
    "map_of ps ''R'' = Some (VList [VDouble r])" "map_of ps ''X'' = Some (VList [VDouble x])"
    "map_of ps ''kcount'' = Some (VDouble k)" "map_of ps ''G'' = Some (VDouble G)"
    "map_of ps ''B'' = Some (VDouble B)" "map_of ps ''BIJ'' = Some (VDouble (d_div (d_of_int 1) x))"
    "map_of ps ''line_Q1'' = Some (VDouble q1)" "map_of ps ''line_Q2'' = Some (VDouble q2)"
    "map_of ps ''line_Q3'' = Some (VDouble q3)" "map_of ps ''reverse'' = Some (VInt32 rv)"
    "\<exists>d. \<forall>n s t r x b q1 q2 q3 p q G B k rv v i.
       map_of (acline_props n s t r x b (q1, q2, q3) p q G B k rv v i) ''device_type'' = Some d"
  by (simp_all add: ps_def acline_props_def)

lemma branch_pair_acline:
  assumes "nr = 1 \<or> nr = -1" "\<not> d_less r 0" "\<not> d_less (fst l) (d_lit 1 10)"
  shows "branch_pair (''topo_connect'', src, dst, acline_props n s t r x b l p q G B k nr v i)
     (''topo_connect'', dst, src, acline_props n t s r x b l p' q' G B k (- nr) v i')"
proof (cases l)
  case (fields q1 q2 q3)
  obtain d where "\<forall>n s t r x b q1 q2 q3 p q G B k rv v i.
       map_of (acline_props n s t r x b (q1, q2, q3) p q G B k rv v i) ''device_type'' = Some d"
    using acline_lookup(12) by blast
  then show ?thesis using assms
    by (auto simp: branch_pair_def mirrored_def sharedKeys_def nonneg_R_def rated_def acline_lookup fields)
qed

lemma kcount_acline:
  "states a v = Some st \<Longrightarrow> kcount_from a (acline_props n s t r x b l p q G B (sumAclineCount st) nr u i)"
  by (cases l) (auto simp: kcount_from_def acline_lookup)

lemma transformer_lookup:
  fixes n s t r x q1 q2 q3 ra ta m G B rv v d i
  defines "ps \<equiv> transformer_props n s t r x (q1, q2, q3) ra ta m G B rv v d i"
  shows "map_of ps ''edge_name'' = Some (VString n)"
    "map_of ps ''R'' = Some (VList [VDouble r])" "map_of ps ''X'' = Some (VList [VDouble x])"
    "map_of ps ''kcount'' = Some (VInt32 1)" "map_of ps ''G'' = Some (VDouble G)"
    "map_of ps ''B'' = Some (VDouble B)" "map_of ps ''BIJ'' = Some (VDouble (d_div (d_of_int 1) x))"
    "map_of ps ''line_Q1'' = Some (VDouble q1)" "map_of ps ''line_Q2'' = Some (VDouble q2)"
    "map_of ps ''line_Q3'' = Some (VDouble q3)" "map_of ps ''reverse'' = Some (VInt32 rv)"
    "map_of ps ''device_type'' = Some (VString d)"
  by (cases ta; cases m; simp add: ps_def transformer_props_def split: prod.split)+

lemma branch_pair_transformer:
  assumes "nr = 1 \<or> nr = -1" "\<not> d_less r 0" "\<not> d_less (fst l) (d_lit 1 10)"
  shows "branch_pair (''topo_connect'', src, dst, transformer_props n s t r x l ra ta m G B nr v d i)
     (''topo_connect'', dst, src, transformer_props n t s r x l ra' ta m' G B (- nr) v' d i')"
  using assms
  by (cases l) (auto simp: branch_pair_def mirrored_def sharedKeys_def nonneg_R_def rated_def
      transformer_lookup)

lemma kcount_transformer: "kcount_from a (transformer_props n s t r x l ra ta m G B nr v d i)"
  by (cases l) (simp add: kcount_from_def transformer_lookup)

lemma componentEdgeType_connect [simp]: "componentEdgeType n \<noteq> Some ''topo_connect''"
  by (auto simp: componentEdgeType_def split: if_split_asm)

text \<open>The stages fall into three groups by what they may change. Most of them insert branches and change
  parts of a vertex state that are neither an id nor the line counter (\<open>frame_invariant\<close>); finding the ids
  changes \<^verbatim>\<open>maxTopoID\<close> as well (\<open>id_invariant\<close>); building the topology changes \<^verbatim>\<open>topoID\<close> and inserts nodes and
  the other edges (\<open>run_invariant\<close>).\<close>

definition same_ids :: "NetworkTopoState \<Rightarrow> NetworkTopoState \<Rightarrow> bool" where
  "same_ids s s' \<longleftrightarrow> sumAclineCount s' = sumAclineCount s \<and> maxTopoID s' = maxTopoID s \<and> topoID s' = topoID s
     \<and> maxBDID s' = maxBDID s"

lemma same_ids_updates [simp]:
  "same_ids s (s\<lparr>breakerPoint := i\<rparr>)" "same_ids s (s\<lparr>disPoint := i\<rparr>)"
  "same_ids s (s\<lparr>sumIID := i\<rparr>)" "same_ids s (s\<lparr>sumJID := i\<rparr>)" "same_ids s (s\<lparr>sumQimeas := q\<rparr>)"
  "same_ids s (s\<lparr>sumBusQMeas := q\<rparr>)" "same_ids s (s\<lparr>sumLineNo := l\<rparr>)" "same_ids s (s\<lparr>setTopoID1 := t\<rparr>)"
  "same_ids s (s\<lparr>point := p\<rparr>)" "same_ids s (s\<lparr>itopoID := p, jtopoID := p'\<rparr>)"
  "same_ids s (s\<lparr>listTpndName := ns, listTpndQMeas := qs\<rparr>)"
  by (simp_all add: same_ids_def)

locale frame_invariant =
  fixes P :: "alg \<Rightarrow> bool"
  assumes P_state: "\<lbrakk>P a; states a v = Some s; same_ids s s'\<rbrakk> \<Longrightarrow> P (a\<lparr>states := (states a)(v \<mapsto> s')\<rparr>)"
    and P_branch: "\<lbrakk>P a; branch_pair (ty, src, dst, p) (ty', src', dst', p'); kcount_from a p; kcount_from a p'\<rbrakk>
      \<Longrightarrow> P (insertEdge ty' src' dst' p' (insertEdge ty src dst p a))"
    and P_update: "P a \<Longrightarrow> P (updateEdge e a)"
    and P_lists: "P a \<Longrightarrow> P (a\<lparr>edgeList := l\<rparr>)" "P a \<Longrightarrow> P (a\<lparr>topoAclineDotEdge1 := l\<rparr>)"
      "P a \<Longrightarrow> P (a\<lparr>topoAclineDotEdge2 := l\<rparr>)" "P a \<Longrightarrow> P (a\<lparr>topoConnectEdge1 := l\<rparr>)"
      "P a \<Longrightarrow> P (a\<lparr>topoConnectEdge2 := l\<rparr>)"
begin

lemma P_state_simp:
  "P a \<Longrightarrow> states a v \<noteq> None \<Longrightarrow> same_ids (the (states a v)) s' \<Longrightarrow> P (a\<lparr>states := (states a)(v \<mapsto> s')\<rparr>)"
  by (auto intro: P_state)

lemmas P_simps = P_state_simp P_update P_lists

declare P_simps [simp]

lemma passQimeas_P: "passQimeas s t a = Some a' \<Longrightarrow> P a \<Longrightarrow> P a'"
  by (auto simp: passQimeas_def bind_Some_iff set_sumQimeas_def)

lemmas fold_P = foldM_invariant [where P = P]

lemmas map_P = mapM_invariant [where P = P]

lemmas vs_map_P = vs_map_invariant [where P = P]

lemmas vs_forEach_P = vs_forEach_invariant [where P = P]

paragraph \<open>Switch positions and connection nodes\<close>

lemma breakerSet_P: "breakerSet g vs a = Some (r, a') \<Longrightarrow> P a \<Longrightarrow> P a'"
  unfolding breakerSet_def
  by (erule (1) vs_map_P) (auto simp: Let_def bind_Some_iff elim!: fold_P)

lemma breakerPoints_P: "breakerPoints g vs a = Some a' \<Longrightarrow> P a \<Longrightarrow> P a'"
  unfolding breakerPoints_def
  by (erule (1) vs_forEach_P) (auto simp: Let_def bind_Some_iff)

lemma disSet_P: "disSet g vs a = Some (r, a') \<Longrightarrow> P a \<Longrightarrow> P a'"
  unfolding disSet_def
  by (erule (1) vs_map_P) (auto simp: Let_def bind_Some_iff elim!: fold_P)

lemma disPoints_P: "disPoints g vs a = Some a' \<Longrightarrow> P a \<Longrightarrow> P a'"
  unfolding disPoints_def
  by (erule (1) vs_forEach_P) (auto simp: Let_def bind_Some_iff)

lemma select_P:
  "selectSub g vs a = Some (r, a') \<Longrightarrow> P a \<Longrightarrow> P a'"
  "cnOpenSub g vs a = Some (r, a') \<Longrightarrow> P a \<Longrightarrow> P a'"
  "miscellaneous g vs a = Some (r, a') \<Longrightarrow> P a \<Longrightarrow> P a'"
  unfolding selectSub_def cnOpenSub_def miscellaneous_def by (erule (1) vs_map_P; simp)+

paragraph \<open>Branches\<close>

lemma choice_P:
  assumes "(if b then upd_state t f a else if c then upd_state t h a else Some a) = Some a'" "P a"
    and "\<And>s. same_ids s (f s)" "\<And>s. same_ids s (h s)"
  shows "P a'"
  using assms by (auto split: if_split_asm)

lemma csEnd_P: "csEnd g cnID s t a = Some (r, a') \<Longrightarrow> P a \<Longrightarrow> P a'"
  by (cases "int_prop g t ''off'' = Some 0") (auto simp: csEnd_def bind_Some_iff elim!: choice_P)

lemma csOpenSub_P: "csOpenSub g vs a = Some (r, a') \<Longrightarrow> P a \<Longrightarrow> P a'"
  unfolding csOpenSub_def
  by (erule (1) vs_map_P, clarsimp simp: Let_def bind_Some_iff, erule (1) map_P, erule (1) csEnd_P)

lemma csInsert_P: "csInsert g s a = Some a' \<Longrightarrow> P a \<Longrightarrow> P a'"
  by (auto simp: csInsert_def Let_def bind_Some_iff intro!: P_branch branch_pair_cs kcount_cs)

lemma insertLineCS_P: "insertLineCS g vs a = Some a' \<Longrightarrow> P a \<Longrightarrow> P a'"
  unfolding insertLineCS_def bind_Some_iff csSetIDs_def
  by (elim exE conjE, erule vs_forEach_P, erule (1) vs_forEach_P, erule (1) csInsert_P, auto)

lemma openEquipment_P: "openEquipment g l vs a = Some (r, a') \<Longrightarrow> P a \<Longrightarrow> P a'"
  unfolding openEquipment_def
  by (clarsimp simp: bind_Some_iff, erule (1) vs_map_P, simp)

lemma aclineEdge_P: "aclineEdge g s p q e x = Some x' \<Longrightarrow> P (snd x) \<Longrightarrow> P (snd x')"
  by (auto simp: aclineEdge_def Let_def state_def bind_Some_iff
      split: prod.splits if_splits intro!: P_branch branch_pair_acline [OF non_reverse_cases] kcount_acline)

lemma aclineEdges_P:
  "foldM (aclineEdge g s p q) es (b, a) = Some (b', a') \<Longrightarrow> P a \<Longrightarrow> P a'"
  using foldM_invariant [where P = "\<lambda>x. P (snd x)"] aclineEdge_P by fastforce

lemma g3_P: "g3 g vs a = Some (r, a') \<Longrightarrow> P a \<Longrightarrow> P a'"
  unfolding g3_def
  by (erule (1) vs_map_P) (auto simp: bind_Some_iff split: if_splits elim: aclineEdges_P)

lemma twoPortEdge_P: "twoPortEdge g s w t a = Some a' \<Longrightarrow> P a \<Longrightarrow> P a'"
  by (auto simp: twoPortEdge_def Let_def bind_Some_iff split: if_splits
      intro!: P_branch branch_pair_transformer [OF non_reverse_cases] kcount_transformer)

lemma twoPortEdges_P: "foldM (twoPortEdge g s w) ts a = Some a' \<Longrightarrow> P a \<Longrightarrow> P a'"
  by (erule (1) fold_P, erule (1) twoPortEdge_P)

lemma x2_P: "x2 g vs a = Some (r, a') \<Longrightarrow> P a \<Longrightarrow> P a'"
  unfolding x2_def
  by (erule (1) vs_map_P) (auto simp: bind_Some_iff split: if_splits elim: twoPortEdges_P)

lemma threePortEdge_P: "threePortEdge g s w t a = Some (r, a') \<Longrightarrow> P a \<Longrightarrow> P a'"
  by (auto simp: threePortEdge_def Let_def bind_Some_iff split: if_splits
      intro!: P_branch branch_pair_transformer [where nr = 1, simplified] kcount_transformer)

lemma threePortEdges_P: "mapM (threePortEdge g s w) ts a = Some (r, a') \<Longrightarrow> P a \<Longrightarrow> P a'"
  by (erule (1) map_P, erule (1) threePortEdge_P)

lemma y2_P: "y2 g vs a = Some (r, a') \<Longrightarrow> P a \<Longrightarrow> P a'"
  unfolding y2_def
  by (erule (1) vs_map_P) (auto simp: bind_Some_iff split: if_splits elim: threePortEdges_P)

declare P_simps [simp del]

end

locale id_invariant = frame_invariant +
  assumes P_id: "\<lbrakk>P a; states a v = Some s; sumAclineCount s' = sumAclineCount s; topoID s' = topoID s\<rbrakk>
      \<Longrightarrow> P (a\<lparr>states := (states a)(v \<mapsto> s')\<rparr>)"
begin

lemma writeMax_topo_P: "writeMax_topo v x a = Some a' \<Longrightarrow> P a \<Longrightarrow> P a'"
  by (auto simp: writeMax_topo_def intro: P_id)

lemma writeMax_bd_P: "writeMax_bd v x a = Some a' \<Longrightarrow> P a \<Longrightarrow> P a'"
  by (auto simp: writeMax_bd_def intro: P_id)

lemma bdStep_P: "bdStep g s a = Some (r, a') \<Longrightarrow> P a \<Longrightarrow> P a'"
  by (auto simp: bdStep_def Let_def bind_Some_iff elim!: fold_P writeMax_bd_P)

lemma cnTotal_P: "cnTotal g vs a = Some (r, a') \<Longrightarrow> P a \<Longrightarrow> P a'"
  unfolding cnTotal_def
  by (erule (1) vs_map_P) (auto simp: Let_def bind_Some_iff elim!: fold_P writeMax_topo_P)

lemma cnUpdate_P: "cnUpdate s t x = Some x' \<Longrightarrow> P (fst x) \<Longrightarrow> P (fst x')"
  by (auto simp: cnUpdate_def bind_Some_iff split: if_splits prod.splits elim!: writeMax_topo_P)

lemma cnStep_P: "cnStep g s x = Some (r, x') \<Longrightarrow> P (fst x) \<Longrightarrow> P (fst x')"
  by (auto simp: cnStep_def Let_def bind_Some_iff split: if_splits
      elim!: foldM_invariant [where P = "\<lambda>x. P (fst x)"] cnUpdate_P)

lemma propagate_round_P:
  assumes "propagate_round g cn a c = Some (cn', a', c')" "P a"
  shows "P a'"
proof -
  from assms(1) obtain bd b where bd: "vs_map g (bdStep g) cn a = Some (bd, b)"
    and cn: "vs_map g (cnStep g) bd (b, c) = Some (cn', (a', c'))"
    by (auto simp: propagate_round_def bind_Some_iff)
  have "P b" using bd assms(2) by (rule vs_map_P) (rule bdStep_P)
  with cn have "P (fst (a', c'))"
    by (intro vs_map_invariant [where P = "\<lambda>x. P (fst x)", OF cn]) (auto dest: cnStep_P)
  then show ?thesis by simp
qed

lemma propagate_loop_P: "propagate_loop fuel g cn a old c = Some (Some (cn', a')) \<Longrightarrow> P a \<Longrightarrow> P a'"
  by (induction fuel g cn a old c rule: propagate_loop.induct)
     (auto split: if_splits option.splits dest: propagate_round_P)

end

locale run_invariant = id_invariant +
  assumes P_topo: "\<lbrakk>P a; states a v = Some s; sumAclineCount s' = sumAclineCount s\<rbrakk>
      \<Longrightarrow> P (a\<lparr>states := (states a)(v \<mapsto> s')\<rparr>)"
    and P_node: "P a \<Longrightarrow> map_of props ''topoid'' = map_of props ''TOPOID'' \<Longrightarrow> P (insertNode ty props a)"
    and P_edge: "P a \<Longrightarrow> ty \<noteq> ''topo_connect'' \<Longrightarrow> P (insertEdge ty src dst [] a)"
begin

lemma P_topo_simp:
  "P a \<Longrightarrow> states a v \<noteq> None \<Longrightarrow> sumAclineCount s' = sumAclineCount (the (states a v))
     \<Longrightarrow> P (a\<lparr>states := (states a)(v \<mapsto> s')\<rparr>)"
  by (auto intro: P_topo)

lemmas P_build_simps = P_topo_simp P_node P_edge

declare P_build_simps [simp]

lemma buildTarget_P:
  "(\<And>tid t. map_of (props tid t) ''topoid'' = map_of (props tid t) ''TOPOID'')
    \<Longrightarrow> buildTarget props s t a = Some a' \<Longrightarrow> P a \<Longrightarrow> P a'"
  by (auto simp: buildTarget_def bind_Some_iff split: if_splits)

lemma buildTP_P: "buildTP g vs a = Some (r, a') \<Longrightarrow> P a \<Longrightarrow> P a'"
  unfolding buildTP_def
  by (erule (1) vs_map_P)
     (auto simp: Let_def bind_Some_iff topoND_props_def elim!: fold_P elim: buildTarget_P [rotated])

lemma buildTPUnit_P: "buildTPUnit g vs a = Some (r, a') \<Longrightarrow> P a \<Longrightarrow> P a'"
  unfolding buildTPUnit_def
  by (erule (1) vs_map_P)
     (auto simp: Let_def bind_Some_iff topoND_unit_props_def elim!: fold_P elim: buildTarget_P [rotated])

lemma setTopoIDs_P: "setTopoIDs g vs a = Some a' \<Longrightarrow> P a \<Longrightarrow> P a'"
  unfolding setTopoIDs_def by (erule (1) vs_forEach_P) auto

lemma totalTopoInsert_P: "totalTopoInsert g vs a = Some a' \<Longrightarrow> P a \<Longrightarrow> P a'"
  unfolding totalTopoInsert_def
  by (erule (1) vs_forEach_P) (auto simp: Let_def bind_Some_iff neutral_props_def)

lemma topoSub_P: "topoSub g vs a = Some (r, a') \<Longrightarrow> P a \<Longrightarrow> P a'"
  unfolding topoSub_def bind_Some_iff
  by (elim exE conjE, erule (1) vs_map_P, clarsimp simp: Let_def bind_Some_iff,
      erule (1) fold_P, clarsimp simp: bind_Some_iff)

lemma componentEdge_P: "componentEdge g s t a = Some a' \<Longrightarrow> P a \<Longrightarrow> P a'"
  by (auto simp: componentEdge_def bind_Some_iff split: option.splits
      intro!: P_edge)

lemma topoComponentNode_P: "topoComponentNode g vs a = Some (r, a') \<Longrightarrow> P a \<Longrightarrow> P a'"
  unfolding topoComponentNode_def bind_Some_iff
  by (elim exE conjE, erule (1) vs_map_P, clarsimp simp: Let_def bind_Some_iff,
      erule (1) fold_P, erule (1) componentEdge_P)

declare P_build_simps [simp del]

end

end
