(* ===== verification/TopoExample.thy ===== *)
theory TopoExample
  imports NetworkTopo
begin

text \<open>
  Small networks on which the theorems about the topology procedure are applied. A network is a
  table of labelled edges with node properties; its subsets keep the order of first occurrence
  and its parallel operations process the vertices in that order.
\<close>

definition table_edge :: "NodeID \<Rightarrow> NodeID \<Rightarrow> Edge" where
  "table_edge s t = \<lparr>edgeIdent = \<lparr>srcID = s, dstID = t, rank = 0, graphID = 1, edgeTypeID = 1\<rparr>,
     edge_properties = []\<rparr>"

definition table_labels :: "(NodeID \<times> NodeID \<times> string) list \<Rightarrow> EdgeID \<Rightarrow> string list" where
  "table_labels es e = map (snd \<circ> snd) (filter (\<lambda>(s, t, l). s = srcID e \<and> t = dstID e) es)"

definition table_out :: "(NodeID \<times> NodeID \<times> string) list \<Rightarrow> NodeID \<Rightarrow> Edge list" where
  "table_out es v = map (\<lambda>(s, t, l). table_edge s t) (filter (\<lambda>(s, t, l). s = v) es)"

definition table_in :: "(NodeID \<times> NodeID \<times> string) list \<Rightarrow> NodeID \<Rightarrow> Edge list" where
  "table_in es v = map (\<lambda>(s, t, l). table_edge s t) (filter (\<lambda>(s, t, l). t = v) es)"

definition table_graph ::
  "NodeID list \<Rightarrow> (NodeID \<times> NodeID \<times> string) list \<Rightarrow> (NodeID \<Rightarrow> string list) \<Rightarrow>
   (NodeID \<Rightarrow> string \<Rightarrow> Value) \<Rightarrow> (string \<Rightarrow> Value) \<Rightarrow> graph" where
  "table_graph vs es labels nprop eprop = \<lparr>
     g_nodeIDs = vs,
     g_neighborIDs = (\<lambda>v p. map (dstID \<circ> edgeIdent) (filter p (table_out es v)) @
                            map (srcID \<circ> edgeIdent) (filter p (table_in es v))),
     g_outNeighborIDs = (\<lambda>v p. map (dstID \<circ> edgeIdent) (filter p (table_out es v))),
     g_outEdges = table_out es, g_inEdges = table_in es,
     g_findProp = (\<lambda>v p. Some (nprop v p)), g_nodeProp = nprop, g_edgeProp = (\<lambda>e. eprop),
     g_nodeLabels = labels, g_edgeLabels = table_labels es,
     g_byAllLabels = (\<lambda>vs ls. filter (\<lambda>v. set ls \<subseteq> set (labels v)) vs),
     g_subset = emplaced, g_merge = (\<lambda>xs ys. emplaced (xs @ ys)), g_sched = id,
     g_valueDiv = (\<lambda>x y. x)\<rparr>"

text \<open>A substation (1) with a line end (3) at a connection node (4) and the far end (5).\<close>

definition line_labels :: "NodeID \<Rightarrow> string list" where
  "line_labels v = (if v = 1 then [''Substation''] else [])"

definition line_nprop :: "NodeID \<Rightarrow> string \<Rightarrow> Value" where
  "line_nprop v p =
     (if p \<in> {''name'', ''typename''} then VString ''AClinedot''
      else if p \<in> {''off'', ''CN_id''} then VInt64 0
      else if p \<in> {''nd'', ''id''} then VInt64 7
      else VDouble 0)"

definition line_eprop :: "string \<Rightarrow> Value" where
  "line_eprop p =
     (if p = ''name'' then VString ''line'' else if p = ''id'' then VInt64 12
      else if p = ''line_R'' then VDouble (d_of_int (-2)) else VDouble (d_of_int 1))"

definition line_graph :: graph where
  "line_graph = table_graph [1, 2, 3, 4, 5]
     [(1, 2, ''connected_Sub_Aclinedot''), (2, 3, ''connected_Sub_Aclinedot''), (2, 4, ''cn_subid''),
      (4, 3, ''aclinedot_cn''), (3, 5, ''aclinedot_aclinedot'')]
     line_labels line_nprop line_eprop"

definition line_result :: "alg" where
  "line_result = the (the (run 3 line_graph (init_alg line_graph)))"

end
