(* ===== verification/TopoRun.thy ===== *)
theory TopoRun
  imports TopoLaws TopoExample
begin

text \<open>
  Every stage of \<^verbatim>\<open>set Frm_To_Cp\<close>, and with them the whole \<^verbatim>\<open>run\<close>, keeps an invariant of the
  locale \<open>run_invariant\<close>. Its interpretations on the model give the properties of a completed
  run: the result table, the pairs of branches and the inserted topology nodes.
\<close>

text \<open>The part of \<open>run_build\<close> that inserts branches and carries the compensators.\<close>

definition run_branches :: "graph \<Rightarrow> NodeID list \<Rightarrow> alg \<Rightarrow> alg option" where
  "run_branches g cnOpen a = do {
     (cs, a) \<leftarrow> csOpenSub g cnOpen a;
     a \<leftarrow> insertLineCS g cs a;
     (acline, a) \<leftarrow> aclineOpenSub g cnOpen a;
     (_, a) \<leftarrow> g3 g acline a;
     (tx2, a) \<leftarrow> x1 g cnOpen a;
     (_, a) \<leftarrow> x2 g tx2 a;
     (tx3, a) \<leftarrow> y1 g cnOpen a;
     (_, a) \<leftarrow> y2 g tx3 a;
     frmToCp g (verticesOf g ''TopoND'') a
   }"

lemma run_build_branches:
  "run_build g cnOpen cn a = do {
     (tp, a) \<leftarrow> buildTP g cn a;
     a \<leftarrow> setTopoIDs g tp a;
     (tpu, a) \<leftarrow> buildTPUnit g cn a;
     a \<leftarrow> setTopoIDs g tpu a;
     total \<leftarrow> totalTopoNodes g (verticesOf g ''neutral_point'');
     a \<leftarrow> totalTopoInsert g total a;
     (_, a) \<leftarrow> topoSub g cn a;
     (_, a) \<leftarrow> topoComponentNode g cn a;
     run_branches g cnOpen a
   }"
  by (simp add: run_build_def run_branches_def)

context frame_invariant
begin

declare P_simps [simp]

lemma vCP1_P: "vCP1 g vs a = Some (r, a') \<Longrightarrow> P a \<Longrightarrow> P a'"
  unfolding vCP1_def by (clarsimp simp: bind_Some_iff, erule (1) vs_map_P, simp)

lemma vCN1_P: "vCN1 g vs a = Some (r, a') \<Longrightarrow> P a \<Longrightarrow> P a'"
  unfolding vCN1_def
  by (erule (1) vs_map_P, clarsimp simp: Let_def bind_Some_iff, erule (1) map_P)
     (auto simp: bind_Some_iff set_sumQimeas_def split: if_splits)

lemma spread_P: "spread g ls vs a = Some (r, a') \<Longrightarrow> P a \<Longrightarrow> P a'"
  unfolding spread_def spreadStep_def
  by (erule (1) vs_map_P, clarsimp simp: Let_def bind_Some_iff, erule (1) fold_P, erule (1) passQimeas_P)

lemma spread_stages_P:
  "vBD g vs a = Some (r, a') \<Longrightarrow> P a \<Longrightarrow> P a'"
  "vCN2 g vs a = Some (r, a') \<Longrightarrow> P a \<Longrightarrow> P a'"
  "overDisconnectors g vs a = Some (r, a') \<Longrightarrow> P a \<Longrightarrow> P a'"
  "overBreakers g vs a = Some (r, a') \<Longrightarrow> P a \<Longrightarrow> P a'"
  unfolding vBD_def vCN2_def overDisconnectors_def overBreakers_def by (erule (1) spread_P)+

lemma labelledSpreadStep_P: "labelledSpreadStep g el nl s a = Some (r, a') \<Longrightarrow> P a \<Longrightarrow> P a'"
  unfolding labelledSpreadStep_def
  by (clarsimp simp: Let_def bind_Some_iff, erule (1) fold_P)
     (auto split: if_splits elim: passQimeas_P)

lemma labelled_stages_P:
  "vACLineDot1 g vs a = Some (r, a') \<Longrightarrow> P a \<Longrightarrow> P a'"
  "vBus g vs a = Some (r, a') \<Longrightarrow> P a \<Longrightarrow> P a'"
  unfolding vACLineDot1_def vBus_def by (erule (1) vs_map_P, erule (1) labelledSpreadStep_P)+

lemma aclineDotEdge_P: "aclineDotEdge g s tid e a = Some (r, a') \<Longrightarrow> P a \<Longrightarrow> P a'"
  unfolding aclineDotEdge_def
  by (erule (1) map_P) (auto simp: Let_def bind_Some_iff split: if_splits dest: passQimeas_P)

lemma vACLineDot2_P: "vACLineDot2 g vs a = Some (r, a') \<Longrightarrow> P a \<Longrightarrow> P a'"
  unfolding vACLineDot2_def
  by (erule (1) vs_map_P, clarsimp simp: bind_Some_iff, erule (1) map_P, erule (1) aclineDotEdge_P)

lemma busTopoStep_P: "busTopoStep g s a = Some (r, a') \<Longrightarrow> P a \<Longrightarrow> P a'"
  unfolding busTopoStep_def
  by (clarsimp simp: bind_Some_iff, erule (1) map_P)
     (auto simp: bind_Some_iff set_sumBusQMeas_def split: if_splits)

lemma vTPND34_P: "vTPND34 g vs a = Some (r, a') \<Longrightarrow> P a \<Longrightarrow> P a'"
  unfolding vTPND34_def bind_Some_iff
  by (elim exE conjE, erule (1) vs_map_P, erule (1) busTopoStep_P)

lemma countLines_P: "countLines g vs a = Some (r, a') \<Longrightarrow> P a \<Longrightarrow> P a'"
  unfolding countLines_def
  by (erule (1) vs_map_P, clarsimp simp: bind_Some_iff, erule (1) map_P)
     (auto simp: bind_Some_iff split: if_splits)

lemma lineTopo_P:
  assumes "lineTopo g q push vs a = Some (r, a')" "P a" and push: "\<And>e a. P a \<Longrightarrow> P (push e a)"
  shows "P a'"
  by (rule vs_map_P [OF assms(1) [unfolded lineTopo_def] assms(2)], clarsimp simp: bind_Some_iff, erule (1) map_P)
     (auto simp: lineTopoEdge_def Let_def bind_Some_iff split: if_splits intro!: push)

lemma vTPND_P:
  "vTPND1 g vs a = Some (r, a') \<Longrightarrow> P a \<Longrightarrow> P a'"
  "vTPND2 g vs a = Some (r, a') \<Longrightarrow> P a \<Longrightarrow> P a'"
  unfolding vTPND1_def vTPND2_def by (erule (1) lineTopo_P, simp)+

lemma resetCPLists_P: "resetCPLists g vs a = Some a' \<Longrightarrow> P a \<Longrightarrow> P a'"
  unfolding resetCPLists_def
  by (erule (1) vs_forEach_P, erule (1) fold_P) (auto split: if_splits)

lemma collectConnect_P:
  assumes "collectConnect g push vs a = Some (r, a')" "P a" and push: "\<And>e a. P a \<Longrightarrow> P (push e a)"
  shows "P a'"
  by (rule vs_map_P [OF assms(1) [unfolded collectConnect_def] assms(2)], clarsimp simp: bind_Some_iff, erule (1) map_P) (auto split: if_splits intro!: push)

lemma collect_stages_P:
  "vTPND1ConnectedTPND2 g vs a = Some (r, a') \<Longrightarrow> P a \<Longrightarrow> P a'"
  "vTPND2ConnectedTPND1 g vs a = Some (r, a') \<Longrightarrow> P a \<Longrightarrow> P a'"
  "vTopoSet g vs a = Some (r, a') \<Longrightarrow> P a \<Longrightarrow> P a'"
  "tTest g vs a = Some (r, a') \<Longrightarrow> P a \<Longrightarrow> P a'"
  unfolding vTPND1ConnectedTPND2_def vTPND2ConnectedTPND1_def vTopoSet_def tTest_def
  by (erule (1) collectConnect_P, simp)+

lemmas comp_stages_P = vCP1_P vCN1_P spread_stages_P labelled_stages_P vACLineDot2_P vTPND34_P
  countLines_P vTPND_P resetCPLists_P collect_stages_P

lemma frmToCp_P: "frmToCp g vs a = Some a' \<Longrightarrow> P a \<Longrightarrow> P a'"
  unfolding frmToCp_def
  by (clarsimp simp: bind_Some_iff Let_def) (erule comp_stages_P | assumption)+

lemma equipment_P:
  "aclineOpenSub g vs a = Some (r, a') \<Longrightarrow> P a \<Longrightarrow> P a'"
  "x1 g vs a = Some (r, a') \<Longrightarrow> P a \<Longrightarrow> P a'"
  "y1 g vs a = Some (r, a') \<Longrightarrow> P a \<Longrightarrow> P a'"
  unfolding aclineOpenSub_def x1_def y1_def by (erule (1) openEquipment_P)+

lemmas branch_stages_P = csOpenSub_P insertLineCS_P equipment_P g3_P x2_P y2_P frmToCp_P

lemma run_branches_P: "run_branches g cnOpen a = Some a' \<Longrightarrow> P a \<Longrightarrow> P a'"
  unfolding run_branches_def
  by (clarsimp simp: bind_Some_iff) (erule branch_stages_P | assumption)+

declare P_simps [simp del]

end

context id_invariant
begin

lemma run_start_P: "run_start g a = Some (cnOpen, cn, a') \<Longrightarrow> P a \<Longrightarrow> P a'"
  unfolding run_start_def
  by (clarsimp simp: bind_Some_iff)
     (erule breakerSet_P breakerPoints_P disSet_P disPoints_P select_P cnTotal_P | assumption)+

end

context run_invariant
begin

lemmas build_stages_P = buildTP_P setTopoIDs_P buildTPUnit_P totalTopoInsert_P topoSub_P
  topoComponentNode_P run_branches_P

lemma run_build_P: "run_build g cnOpen cn a = Some a' \<Longrightarrow> P a \<Longrightarrow> P a'"
  unfolding run_build_branches
  by (clarsimp simp: bind_Some_iff) (erule build_stages_P | assumption)+

theorem run_P:
  assumes "run fuel g a = Some (Some a')" "P a"
  shows "P a'"
  using assms
  by (auto simp: run_def propagate_def split: option.splits prod.splits
      dest!: run_start_P propagate_loop_P run_build_P)

end

section \<open>Interpretations\<close>

interpretation keeps_dom: run_invariant "\<lambda>a. dom (states a) = D" for D
  by unfold_locales (auto simp: insertNode_def insertEdge_def updateEdge_def)

lemma connects_simps:
  "connects (es @ es') = connects es @ connects es'"
  "ty \<noteq> ''topo_connect'' \<Longrightarrow> connects [(ty, r)] = []"
  "connects [] = []"
  "mirrored (ty, r) (ty', r') \<Longrightarrow> connects [(ty, r), (ty', r')] = [(ty, r), (ty', r')]"
  by (auto simp: connects_def mirrored_def)

interpretation keeps_pairs: run_invariant "\<lambda>a. branch_pairs (connects (insertedEdges a))"
proof unfold_locales
  fix a :: alg and ty src dst p ty' src' dst' p'
  assume "branch_pairs (connects (insertedEdges a))"
    and b: "branch_pair (ty, src, dst, p) (ty', src', dst', p')"
  moreover have "mirrored (ty, src, dst, p) (ty', src', dst', p')" using b by (simp add: branch_pair_def)
  ultimately show "branch_pairs (connects (insertedEdges
      (insertEdge ty' src' dst' p' (insertEdge ty src dst p a))))"
    by (simp add: insertEdge_def connects_simps branch_pairs_append)
qed (simp_all add: insertNode_def insertEdge_def updateEdge_def connects_simps)

definition kcount_fixed :: "properties_type \<Rightarrow> bool" where
  "kcount_fixed p \<longleftrightarrow> map_of p ''kcount'' \<in> {None, Some (VInt32 1), Some (VDouble 0)}"

interpretation keeps_kcount: run_invariant "\<lambda>a.
    (\<forall>v st. states a v = Some st \<longrightarrow> sumAclineCount st = 0) \<and>
    (\<forall>(ty, src, dst, p) \<in> set (insertedEdges a). kcount_fixed p)"
  by unfold_locales
     (auto simp: insertNode_def insertEdge_def updateEdge_def kcount_fixed_def kcount_from_def same_ids_def
        split: if_splits)

interpretation keeps_nodes: run_invariant "\<lambda>a.
    \<forall>(ty, p) \<in> set (insertedNodes a). map_of p ''topoid'' = map_of p ''TOPOID''"
  by unfold_locales (auto simp: insertNode_def insertEdge_def updateEdge_def)

section \<open>The result table\<close>

lemma vertexRow_Some:
  "states a v = Some st \<Longrightarrow> vertexRow a v =
     Some [VInt64 v, opt_value (topoID st), opt_value (point st), opt_value (itopoID st), opt_value (jtopoID st)]"
  by (simp add: vertexRow_def state_def state_getResult_def Row_append_def)

lemma result_rows:
  assumes "set vs \<subseteq> dom (states a)"
  shows "foldM (\<lambda>v tbl. do { row \<leftarrow> vertexRow a v; Some (ResultTable_append tbl row) }) vs tbl =
    Some (tbl\<lparr>records := records tbl @ map (\<lambda>v. the (vertexRow a v)) vs\<rparr>)"
  using assms by (induction vs arbitrary: tbl) (auto simp: vertexRow_Some ResultTable_append_def)

lemma run_dom:
  "run fuel g (init_alg g) = Some (Some a) \<Longrightarrow> dom (states a) = set (g_nodeIDs g)"
  using keeps_dom.run_P [of fuel g "init_alg g" a "set (g_nodeIDs g)"]
  by (simp add: init_alg_def dom_emplace_states)

text \<open>The example network runs to completion with three rounds of fuel.\<close>

lemma line_run_facts:
  "case run 3 line_graph (init_alg line_graph) of
     Some (Some a) \<Rightarrow> length (connects (insertedEdges a)) = 2 \<and> length (insertedNodes a) = 1
   | _ \<Rightarrow> False"
  by code_simp

lemma line_run:
  "run 3 line_graph (init_alg line_graph) = Some (Some line_result)"
  "length (connects (insertedEdges line_result)) = 2" "length (insertedNodes line_result) = 1"
  using line_run_facts by (auto simp: line_result_def split: option.splits)

text \<open>When the run returns, building the result table succeeds: it has the four declared
  column names and one row per node of the graph, in the graph's order, each starting with the
  node id and holding five values, one more than there are column names.\<close>

theorem run_result_table:
  assumes "run fuel g (init_alg g) = Some (Some a)"
  shows "\<exists>tbl. run_table g a = Some (Some tbl) \<and> columnNames tbl = kColumnNames \<and>
    map hd (records tbl) = map VInt64 (g_nodeIDs g) \<and>
    list_all (\<lambda>row. length row = Suc (length kColumnNames)) (records tbl)"
proof -
  have d: "dom (states a) = set (g_nodeIDs g)" using assms by (rule run_dom)
  have r: "hd (the (vertexRow a v)) = VInt64 v \<and> length (the (vertexRow a v)) = Suc (length kColumnNames)"
    if "v \<in> set (g_nodeIDs g)" for v
  proof -
    have "v \<in> dom (states a)" using that d by simp
    then obtain st where "states a v = Some st" by (blast dest: domD)
    then show ?thesis by (simp add: vertexRow_Some kColumnNames_def)
  qed
  let ?tbl = "\<lparr>columnNames = kColumnNames, records = map (\<lambda>v. the (vertexRow a v)) (g_nodeIDs g)\<rparr>"
  have "run_table g a = Some (Some ?tbl)"
    by (simp add: run_table_def getResult_def result_rows d setColumnNames_def ResultTable_empty_def)
  moreover have "list_all (\<lambda>row. length row = Suc (length kColumnNames)) (records ?tbl)"
    using r by (simp add: list_all_iff)
  ultimately show ?thesis using r by (intro exI [of _ ?tbl]) simp
qed

theorem run_result_table_witness:
  "\<exists>tbl. run_table line_graph line_result = Some (Some tbl) \<and>
     map hd (records tbl) = map VInt64 [1, 2, 3, 4, 5]"
  using run_result_table [OF line_run(1)] by (auto simp: line_graph_def table_graph_def)

text \<open>Claim C8. In a completed run the inserted \<^verbatim>\<open>topo_connect\<close> edges come in pairs, one for each
  direction of a branch: the end points are exchanged, the electrical data agree, the
  \<^verbatim>\<open>reverse\<close> marks are opposite, no resistance is negative and no normal rating is below 0.1.\<close>

theorem run_branch_pairs:
  assumes "run fuel g (init_alg g) = Some (Some a)"
  shows "branch_pairs (connects (insertedEdges a))"
  using keeps_pairs.run_P [OF assms] by (simp add: init_alg_def connects_simps)

theorem run_branch_pairs_witness:
  "branch_pairs (connects (insertedEdges line_result)) \<and> connects (insertedEdges line_result) \<noteq> []"
  using run_branch_pairs [OF line_run(1)] line_run(2) by auto

text \<open>No stage writes \<^verbatim>\<open>sumAclineCount\<close>: after a completed run it is still zero on every
  vertex, and the \<^verbatim>\<open>kcount\<close> of every inserted edge is absent, the constant 1, or zero.\<close>

theorem run_kcount:
  assumes "run fuel g (init_alg g) = Some (Some a)"
  shows "(\<forall>v st. states a v = Some st \<longrightarrow> sumAclineCount st = 0) \<and>
    (\<forall>(ty, src, dst, p) \<in> set (insertedEdges a). kcount_fixed p)"
  by (rule keeps_kcount.run_P [OF assms])
     (auto simp: init_alg_def initState_def dest: emplace_states_init)

theorem run_kcount_witness:
  "list_all (\<lambda>(ty, src, dst, p). kcount_fixed p) (insertedEdges line_result) \<and> insertedEdges line_result \<noteq> []"
  using run_kcount [OF line_run(1)] line_run(2) by (auto simp: connects_simps list_all_iff)

text \<open>Every node inserted by a completed run carries the same id under \<^verbatim>\<open>topoid\<close> and
  \<^verbatim>\<open>TOPOID\<close>.\<close>

theorem run_topoid:
  assumes "run fuel g (init_alg g) = Some (Some a)"
  shows "\<forall>(ty, p) \<in> set (insertedNodes a). map_of p ''topoid'' = map_of p ''TOPOID''"
  by (rule keeps_nodes.run_P [OF assms]) (simp add: init_alg_def)

theorem run_topoid_witness:
  "list_all (\<lambda>(ty, p). map_of p ''topoid'' = map_of p ''TOPOID'') (insertedNodes line_result) \<and>
   insertedNodes line_result \<noteq> []"
  using run_topoid [OF line_run(1)] line_run(3) by (auto simp: list_all_iff)

end
