(* ===== verification/Propagation.thy ===== *)
theory Propagation
  imports TopoExample
begin

text \<open>
  The loop that carries topology ids through closed switches
  (\<^verbatim>\<open>src/src/yj/NetworkTopoProcedure.cpp\<close>, lines 267 to 309). Ids only grow; when the loop
  ends, connection nodes that share a closed switch have the same id; when the switches are
  settled it ends after one round and changes no id. The code adds the switch's id to the node's
  instead of taking it over; \<open>Clusters\<close> and \<open>PropagationRace\<close> show what follows from that.
\<close>

section \<open>Neighbours over switches, and the two ids\<close>

definition switchNbrs :: "graph \<Rightarrow> NodeID \<Rightarrow> NodeID list" where
  "switchNbrs g v = g_neighborIDs g v (hasEdgeLabel g bdLabels)"

definition closedSwitch :: "graph \<Rightarrow> NodeID \<Rightarrow> bool" where
  "closedSwitch g s \<longleftrightarrow> int_prop g s ''point'' = Some 1"

definition topo_of :: "alg \<Rightarrow> NodeID \<Rightarrow> int" where
  "topo_of a v = sint (maxTopoID (the (states a v)))"

definition bd_of :: "alg \<Rightarrow> NodeID \<Rightarrow> int" where
  "bd_of a v = sint (maxBDID (the (states a v)))"

text \<open>The number of updates one round can make; \<open>sumCounter\<close> must not wrap in a round.\<close>

definition round_work :: "graph \<Rightarrow> NodeID list \<Rightarrow> nat" where
  "round_work g bd = sum_list (map (\<lambda>s. length (switchNbrs g s)) (g_sched g bd))"

definition bounded_rounds :: "graph \<Rightarrow> bool" where
  "bounded_rounds g \<longleftrightarrow> (\<forall>xs. round_work g (g_subset g xs) < 2 ^ 32)"

section \<open>The round from connection nodes to switches\<close>

definition bd_frame :: "alg \<Rightarrow> alg \<Rightarrow> bool" where
  "bd_frame a b \<longleftrightarrow> (\<forall>v. topo_of b v = topo_of a v \<and> bd_of a v \<le> bd_of b v)"

lemma bd_frame_refl: "bd_frame a a"
  by (simp add: bd_frame_def)

lemma bd_frame_trans: "bd_frame a b \<Longrightarrow> bd_frame b c \<Longrightarrow> bd_frame a c"
  by (auto simp: bd_frame_def intro: order_trans)

lemma writeMax_bd_frame:
  assumes "writeMax_bd t val a = Some b"
  shows "bd_frame a b" "sint val \<le> bd_of b t"
  using assms by (auto simp: writeMax_bd_def bd_frame_def topo_of_def bd_of_def max64_ge)

lemma bdStep_frame:
  assumes "bdStep g s a = Some (r, b)"
  shows "bd_frame a b" "\<forall>t \<in> set (switchNbrs g s). topo_of a s \<le> bd_of b t" "r = switchNbrs g s"
proof -
  from assms have f: "foldM (\<lambda>t a. do { st \<leftarrow> state a s; writeMax_bd t (maxTopoID st) a })
      (switchNbrs g s) a = Some b" and r: "r = switchNbrs g s"
    by (auto simp: bdStep_def switchNbrs_def Let_def bind_Some_iff)
  show "bd_frame a b" using f
    by (rule foldM_invariant [where P = "bd_frame a"])
       (auto simp: bind_Some_iff bd_frame_refl intro: bd_frame_trans writeMax_bd_frame)
  show "\<forall>t \<in> set (switchNbrs g s). topo_of a s \<le> bd_of b t" using f
  proof (rule foldM_establishes [where P = "bd_frame a" and Q = "\<lambda>t b. topo_of a s \<le> bd_of b t"])
    fix t b b'
    assume fr: "bd_frame a b" and "(do { st \<leftarrow> state b s; writeMax_bd t (maxTopoID st) b }) = Some b'"
    then obtain st where st: "states b s = Some st" "writeMax_bd t (maxTopoID st) b = Some b'"
      by (auto simp: bind_Some_iff state_def)
    have "topo_of b s = topo_of a s" using fr by (simp add: bd_frame_def)
    then have "topo_of a s = sint (maxTopoID st)" using st(1) by (simp add: topo_of_def [of b])
    then show "bd_frame a b' \<and> topo_of a s \<le> bd_of b' t \<and>
        (\<forall>y. topo_of a s \<le> bd_of b y \<longrightarrow> topo_of a s \<le> bd_of b' y)"
      using writeMax_bd_frame [OF st(2)] fr by (auto simp: bd_frame_def intro: order_trans)
  qed (rule bd_frame_refl)
  show "r = switchNbrs g s" by (rule r)
qed

lemma bd_phase:
  assumes "subset_contract g" "vs_map g (bdStep g) cn a = Some (bd, b)"
  shows "bd_frame a b" "set bd = (\<Union>c \<in> set cn. set (switchNbrs g c))"
    "\<And>c s. c \<in> set cn \<Longrightarrow> s \<in> set (switchNbrs g c) \<Longrightarrow> topo_of b c \<le> bd_of b s"
proof -
  from assms(2) obtain r where r: "mapM (bdStep g) (g_sched g cn) a = Some (r, b)"
    by (auto simp: vs_map_def bind_Some_iff)
  show fr: "bd_frame a b" using assms(2)
    by (rule vs_map_invariant [where P = "bd_frame a"])
       (auto simp: bd_frame_refl intro: bd_frame_trans bdStep_frame)
  show "set bd = (\<Union>c \<in> set cn. set (switchNbrs g c))"
    by (rule vs_map_result [OF assms]) (auto dest: bdStep_frame)
  let ?Q = "\<lambda>c b. \<forall>s \<in> set (switchNbrs g c). topo_of a c \<le> bd_of b s"
  have "\<forall>c \<in> set (g_sched g cn). ?Q c b" using mapM_foldM [OF r]
  proof (rule foldM_establishes [where P = "bd_frame a" and Q = ?Q])
    fix c d d'
    assume fr: "bd_frame a d" and "map_option snd (bdStep g c d) = Some d'"
    then obtain r where s: "bdStep g c d = Some (r, d')" by auto
    show "bd_frame a d' \<and> ?Q c d' \<and> (\<forall>c. ?Q c d \<longrightarrow> ?Q c d')"
      using bdStep_frame [OF s] fr by (auto simp: bd_frame_def intro: order_trans)
  qed (rule bd_frame_refl)
  then show "topo_of b c \<le> bd_of b s" if "c \<in> set cn" "s \<in> set (switchNbrs g c)" for c s
    using that fr assms(1) by (auto simp: subset_contract_def bd_frame_def)
qed

section \<open>The round from switches to connection nodes\<close>

definition settled_at :: "graph \<Rightarrow> NodeID \<Rightarrow> alg \<Rightarrow> bool" where
  "settled_at g s a \<longleftrightarrow> (closedSwitch g s \<longrightarrow> (\<forall>t \<in> set (switchNbrs g s). bd_of a s \<le> topo_of a t))"

lemma cnUpdate_count:
  assumes "cnUpdate s t (a, c) = Some (a', c')"
  shows "\<exists>k \<le> 1. c' = c + of_nat k \<and> (k = 0 \<longrightarrow> a' = a \<and> bd_of a s \<le> topo_of a t)"
  using assms
  by (auto simp: cnUpdate_def bind_Some_iff state_def bd_of_def topo_of_def split: if_splits
      intro: exI [of _ "Suc 0"] exI [of _ 0])

lemma cnStep_count:
  assumes "cnStep g s (a, c) = Some (r, a', c')"
  shows "\<exists>k \<le> length (switchNbrs g s). c' = c + of_nat k \<and> (k = 0 \<longrightarrow> a' = a \<and> settled_at g s a)"
proof (cases "closedSwitch g s")
  case True
  then have f: "foldM (cnUpdate s) (switchNbrs g s) (a, c) = Some (a', c')"
    using assms by (auto simp: cnStep_def closedSwitch_def switchNbrs_def Let_def bind_Some_iff)
  have "\<exists>k \<le> sum_list (map (\<lambda>_. 1) (switchNbrs g s)). c' = c + of_nat k \<and>
      (k = 0 \<longrightarrow> a' = a \<and> (\<forall>t \<in> set (switchNbrs g s). bd_of a s \<le> topo_of a t))"
    by (rule foldM_count [OF f]) (rule cnUpdate_count)
  then show ?thesis by (simp add: settled_at_def True sum_list_triv)
next
  case False
  then have "a' = a \<and> c' = c"
    using assms by (auto simp: cnStep_def closedSwitch_def bind_Some_iff split: if_splits)
  then show ?thesis using False by (auto simp: settled_at_def)
qed

lemma mapM_fold_counter:
  assumes "mapM (cnStep g) xs (a, c) = Some (r, a', c')"
  shows "\<exists>k \<le> sum_list (map (\<lambda>s. length (switchNbrs g s)) xs). c' = c + of_nat k \<and>
    (k = 0 \<longrightarrow> a' = a \<and> (\<forall>s \<in> set xs. settled_at g s a))"
proof (rule foldM_count [OF mapM_foldM [OF assms]])
  fix s a c a' c'
  assume "map_option snd (cnStep g s (a, c)) = Some (a', c')"
  then obtain r where "cnStep g s (a, c) = Some (r, a', c')" by auto
  then show "\<exists>k \<le> length (switchNbrs g s). c' = c + of_nat k \<and> (k = 0 \<longrightarrow> a' = a \<and> settled_at g s a)"
    by (rule cnStep_count)
qed

lemma cn_phase_targets:
  assumes "cnStep g s x = Some (r, x')"
  shows "set r = (if closedSwitch g s then set (switchNbrs g s) else {})"
  using assms by (auto simp: cnStep_def closedSwitch_def switchNbrs_def Let_def bind_Some_iff split: if_splits)

section \<open>A whole round\<close>

text \<open>A round that does not change the counter leaves every id as it is and finds every node that
  shares a closed switch with a node of the set at least as high.\<close>

lemma round_unchanged:
  assumes "subset_contract g" "bounded_rounds g" "propagate_round g cn a c = Some (cn', a', c)"
  shows "\<lbrakk>u \<in> set cn; s \<in> set (switchNbrs g u); closedSwitch g s; t \<in> set (switchNbrs g s)\<rbrakk>
    \<Longrightarrow> topo_of a' u \<le> topo_of a' t"
proof -
  from assms(3) obtain bd b where bd: "vs_map g (bdStep g) cn a = Some (bd, b)"
    and cn: "vs_map g (cnStep g) bd (b, c) = Some (cn', (a', c))"
    by (auto simp: propagate_round_def bind_Some_iff)
  from cn obtain r where r: "mapM (cnStep g) (g_sched g bd) (b, c) = Some (r, a', c)"
    by (auto simp: vs_map_def bind_Some_iff)
  obtain k where k: "k \<le> round_work g bd" "c = c + of_nat k"
    "k = 0 \<longrightarrow> a' = b \<and> (\<forall>s \<in> set (g_sched g bd). settled_at g s b)"
    using mapM_fold_counter [OF r] by (auto simp: round_work_def)
  obtain xs where "bd = g_subset g xs" using bd by (auto simp: vs_map_def bind_Some_iff)
  then have "k < 2 ^ 32" using k(1) assms(2) by (auto simp: bounded_rounds_def intro: le_less_trans)
  moreover have "of_nat k = (0 :: 32 word)" using k(2) by simp
  ultimately have "k = 0" by (auto simp: word_of_nat_eq_0_iff dest: nat_dvd_not_less)
  then have eq: "a' = b" and settled: "\<forall>s \<in> set bd. settled_at g s b"
    using k(3) assms(1) by (auto simp: subset_contract_def)
  show "topo_of a' u \<le> topo_of a' t"
    if "u \<in> set cn" "s \<in> set (switchNbrs g u)" "closedSwitch g s" "t \<in> set (switchNbrs g s)"
  proof -
    have "s \<in> set bd" using bd_phase(2) [OF assms(1) bd] that by auto
    then have "bd_of b s \<le> topo_of b t" using settled that by (auto simp: settled_at_def)
    moreover have "topo_of b u \<le> bd_of b s" using bd_phase(3) [OF assms(1) bd] that by auto
    ultimately show ?thesis by (simp add: eq)
  qed
qed

lemma round_keeps_node:
  assumes "subset_contract g" "propagate_round g cn a c = Some (cn', a', c')"
    and "u \<in> set cn" "s \<in> set (switchNbrs g u)" "closedSwitch g s" "u \<in> set (switchNbrs g s)"
  shows "u \<in> set cn'"
proof -
  from assms(2) obtain bd b where bd: "vs_map g (bdStep g) cn a = Some (bd, b)"
    and cn: "vs_map g (cnStep g) bd (b, c) = Some (cn', (a', c'))"
    by (auto simp: propagate_round_def bind_Some_iff)
  have "set cn' = (\<Union>s \<in> set bd. if closedSwitch g s then set (switchNbrs g s) else {})"
    by (rule vs_map_result [OF assms(1) cn]) (rule cn_phase_targets)
  moreover have "s \<in> set bd" using bd_phase(2) [OF assms(1) bd] assms(3,4) by auto
  ultimately show ?thesis using assms(5,6) by auto
qed

lemma loop_last_round:
  assumes "subset_contract g" "propagate_loop fuel g cn a old c = Some (Some (cn', a'))" "old \<noteq> c"
  shows "\<exists>cn0 a0 c0. propagate_round g cn0 a0 c0 = Some (cn', a', c0) \<and>
    (\<forall>u s. u \<in> set cn \<longrightarrow> s \<in> set (switchNbrs g u) \<longrightarrow> closedSwitch g s \<longrightarrow> u \<in> set (switchNbrs g s)
      \<longrightarrow> u \<in> set cn0)"
  using assms(2,3)
proof (induction fuel arbitrary: cn a old c)
  case (Suc fuel)
  from Suc.prems obtain cn1 a1 c1 where r: "propagate_round g cn a c = Some (cn1, a1, c1)"
    and l: "propagate_loop fuel g cn1 a1 c c1 = Some (Some (cn', a'))"
    by (auto split: option.splits prod.splits)
  show ?case
  proof (cases "c = c1")
    case True
    then have "cn1 = cn' \<and> a1 = a'" using l by (cases fuel) auto
    then show ?thesis using r True by blast
  next
    case False
    obtain cn0 a0 c0 where *: "propagate_round g cn0 a0 c0 = Some (cn', a', c0)"
      "\<forall>u s. u \<in> set cn1 \<longrightarrow> s \<in> set (switchNbrs g u) \<longrightarrow> closedSwitch g s \<longrightarrow> u \<in> set (switchNbrs g s)
        \<longrightarrow> u \<in> set cn0"
      using Suc.IH [OF l False] by blast
    then show ?thesis using round_keeps_node [OF assms(1) r] by blast
  qed
qed simp

section \<open>Ids only grow\<close>

definition topo_grows :: "alg \<Rightarrow> alg \<Rightarrow> bool" where
  "topo_grows a b \<longleftrightarrow> (\<forall>v. topo_of a v \<le> topo_of b v) \<and> dom (states b) = dom (states a)"

lemma topo_grows_refl: "topo_grows a a"
  by (simp add: topo_grows_def)

lemma topo_grows_trans: "topo_grows a b \<Longrightarrow> topo_grows b c \<Longrightarrow> topo_grows a c"
  by (auto simp: topo_grows_def intro: order_trans)

lemma writeMax_grows:
  "writeMax_topo v x a = Some b \<Longrightarrow> topo_grows a b"
  "writeMax_bd v x a = Some b \<Longrightarrow> topo_grows a b"
  by (auto simp: writeMax_topo_def writeMax_bd_def topo_grows_def topo_of_def max64_ge split: if_splits)

lemma writeMax_grows_from:
  "writeMax_topo v x b = Some b' \<Longrightarrow> topo_grows a b \<Longrightarrow> topo_grows a b'"
  "writeMax_bd v x b = Some b' \<Longrightarrow> topo_grows a b \<Longrightarrow> topo_grows a b'"
  using topo_grows_trans writeMax_grows by blast+

lemma bdStep_grows: "bdStep g s b = Some (r, b') \<Longrightarrow> topo_grows a b \<Longrightarrow> topo_grows a b'"
  by (auto simp: bdStep_def Let_def bind_Some_iff elim!: foldM_invariant [where P = "topo_grows a"]
      intro: writeMax_grows_from)

lemma cnUpdate_grows: "cnUpdate s t x = Some x' \<Longrightarrow> topo_grows a (fst x) \<Longrightarrow> topo_grows a (fst x')"
  by (auto simp: cnUpdate_def bind_Some_iff split: if_splits prod.splits
      intro: writeMax_grows_from)

lemma cnStep_grows: "cnStep g s x = Some (r, x') \<Longrightarrow> topo_grows a (fst x) \<Longrightarrow> topo_grows a (fst x')"
  by (auto simp: cnStep_def Let_def bind_Some_iff split: if_splits
      elim!: foldM_invariant [where P = "\<lambda>x. topo_grows a (fst x)"] intro: cnUpdate_grows)

lemma round_grows:
  assumes "propagate_round g cn b c = Some (cn', b', c')" "topo_grows a b"
  shows "topo_grows a b'"
proof -
  from assms(1) obtain bd d where bd: "vs_map g (bdStep g) cn b = Some (bd, d)"
    and cn: "vs_map g (cnStep g) bd (d, c) = Some (cn', (b', c'))"
    by (auto simp: propagate_round_def bind_Some_iff)
  have "topo_grows a d"
    using bd assms(2) by (rule vs_map_invariant [where P = "topo_grows a"]) (rule bdStep_grows)
  then have "topo_grows a (fst (b', c'))"
    by (intro vs_map_invariant [where P = "\<lambda>x. topo_grows a (fst x)", OF cn]) (auto dest: cnStep_grows)
  then show ?thesis by simp
qed

lemma loop_grows:
  "propagate_loop fuel g cn b old c = Some (Some (cn', b')) \<Longrightarrow> topo_grows a b \<Longrightarrow> topo_grows a b'"
  by (induction fuel g cn b old c rule: propagate_loop.induct)
     (auto split: if_splits option.splits dest: round_grows)

section \<open>Theorems\<close>

text \<open>Two connection nodes (1 and 2) joined by one closed breaker (3).\<close>

definition breaker_nprop :: "NodeID \<Rightarrow> string \<Rightarrow> Value" where
  "breaker_nprop v p = VInt64 1"

definition breaker_graph :: graph where
  "breaker_graph = table_graph [1, 2, 3]
     [(1, 3, ''connected_Breaker_CN''), (2, 3, ''connected_Breaker_CN'')]
     (\<lambda>v. []) breaker_nprop (\<lambda>p. VNull)"

definition breaker_alg :: "int64 \<Rightarrow> int64 \<Rightarrow> alg" where
  "breaker_alg x y = (init_alg breaker_graph)\<lparr>states := [1 \<mapsto> initState\<lparr>maxTopoID := x\<rparr>,
     2 \<mapsto> initState\<lparr>maxTopoID := y\<rparr>, 3 \<mapsto> initState]\<rparr>"

lemma set_emplaced [simp]: "set (emplaced xs) = set xs"
  by (simp add: emplaced_def)

lemma distinct_emplaced: "distinct (emplaced xs)"
  by (simp add: emplaced_def)

lemma table_contract: "subset_contract (table_graph vs es ls np ep)"
  by (simp add: subset_contract_def table_graph_def)

lemma breaker_nbrs:
  "switchNbrs breaker_graph v = (if v = 1 \<or> v = 2 then [3] else if v = 3 then [1, 2] else [])"
  by (auto simp: switchNbrs_def breaker_graph_def table_graph_def table_out_def table_in_def table_edge_def
      table_labels_def hasEdgeLabel_def bdLabels_def)

lemma sum_length_filter:
  "finite S \<Longrightarrow> (\<Sum>v \<in> S. length (filter (\<lambda>e. f e = v) es)) \<le> length es"
proof (induction es)
  case (Cons e es)
  have "(\<Sum>v \<in> S. if f e = v then 1 else 0) \<le> (1 :: nat)" using Cons.prems by simp
  moreover have "(\<Sum>v \<in> S. length (filter (\<lambda>e. f e = v) (e # es)))
      = (\<Sum>v \<in> S. if f e = v then 1 else 0) + (\<Sum>v \<in> S. length (filter (\<lambda>e. f e = v) es))"
    unfolding sum.distrib [symmetric] by (rule sum.cong) auto
  ultimately show ?case using Cons by simp
qed simp

text \<open>A table has at most two neighbours for each edge.\<close>

lemma table_bounded:
  assumes "2 * length es < 2 ^ 32"
  shows "bounded_rounds (table_graph vs es ls np ep)"
  unfolding bounded_rounds_def
proof
  fix xs
  let ?g = "table_graph vs es ls np ep"
  have "length (switchNbrs ?g v) \<le> length (table_out es v) + length (table_in es v)" for v
    by (simp add: switchNbrs_def table_graph_def add_mono)
  then have "length (switchNbrs ?g v) \<le> length (filter (\<lambda>e. fst e = v) es) + length (filter (\<lambda>e. fst (snd e) = v) es)" for v
    by (simp add: table_out_def table_in_def case_prod_beta')
  then have "(\<Sum>v \<in> set xs. length (switchNbrs ?g v))
      \<le> (\<Sum>v \<in> set xs. length (filter (\<lambda>e. fst e = v) es) + length (filter (\<lambda>e. fst (snd e) = v) es))"
    by (intro sum_mono) blast
  also have "\<dots> \<le> length es + length es"
    unfolding sum.distrib
    using sum_length_filter [of "set xs" fst es] sum_length_filter [of "set xs" "\<lambda>e. fst (snd e)" es] by simp
  finally have "(\<Sum>v \<in> set xs. length (switchNbrs ?g v)) < 2 ^ 32" using assms by simp
  then show "round_work ?g (g_subset ?g xs) < 2 ^ 32"
    by (simp add: round_work_def sum_list_distinct_conv_sum_set distinct_emplaced, simp add: table_graph_def
        sum_list_distinct_conv_sum_set distinct_emplaced)
qed

lemma breaker_bounded: "bounded_rounds breaker_graph"
  unfolding breaker_graph_def by (rule table_bounded) simp

lemma loop_agree:
  assumes "subset_contract g" "bounded_rounds g" "propagate fuel g cn a = Some (Some (cn', a'))"
    and "closedSwitch g s" "u \<in> set cn" "v \<in> set cn"
    and "s \<in> set (switchNbrs g u)" "u \<in> set (switchNbrs g s)"
    and "s \<in> set (switchNbrs g v)" "v \<in> set (switchNbrs g s)"
  shows "topo_of a' u = topo_of a' v"
proof -
  obtain cn0 a0 c0 where r: "propagate_round g cn0 a0 c0 = Some (cn', a', c0)"
    and m: "\<forall>u s. u \<in> set cn \<longrightarrow> s \<in> set (switchNbrs g u) \<longrightarrow> closedSwitch g s \<longrightarrow> u \<in> set (switchNbrs g s)
      \<longrightarrow> u \<in> set cn0"
    using loop_last_round [OF assms(1) assms(3) [unfolded propagate_def]] by auto
  have "u \<in> set cn0" "v \<in> set cn0" using m assms(4-10) by blast+
  then show ?thesis
    using round_unchanged [OF assms(1,2) r] assms(4-10) by (meson order_antisym)
qed

text \<open>When the propagation loop returns, two connection nodes of the starting set that
  share a closed switch have the same topology id.\<close>

theorem propagate_agree:
  assumes "subset_contract g" "bounded_rounds g" "propagate fuel g cn a = Some (Some (cn', a'))"
    and "closedSwitch g s" "u \<in> set cn" "v \<in> set cn"
    and "s \<in> set (switchNbrs g u)" "u \<in> set (switchNbrs g s)"
    and "s \<in> set (switchNbrs g v)" "v \<in> set (switchNbrs g s)"
  shows "topo_of a' u = topo_of a' v"
  using assms by (rule loop_agree)

theorem propagate_agree_witness:
  "topo_of (snd (the (the (propagate 5 breaker_graph [1, 2] (breaker_alg 1 (-1)))))) 1 =
   topo_of (snd (the (the (propagate 5 breaker_graph [1, 2] (breaker_alg 1 (-1)))))) 2"
proof -
  have "case propagate 5 breaker_graph [1, 2] (breaker_alg 1 (-1)) of Some (Some r) \<Rightarrow> True | _ \<Rightarrow> False"
    by code_simp
  then obtain cn' a' where p: "propagate 5 breaker_graph [1, 2] (breaker_alg 1 (-1)) = Some (Some (cn', a'))"
    by (auto split: option.splits)
  have "closedSwitch breaker_graph 3" by code_simp
  with propagate_agree [OF _ breaker_bounded p, of 3 1 2] show ?thesis
    by (simp add: p breaker_nbrs) (simp add: breaker_graph_def table_contract)
qed

text \<open>The propagation loop never lowers a topology id and keeps the states of the same
  vertices.\<close>

theorem propagate_grows:
  assumes "propagate fuel g cn a = Some (Some (cn', a'))"
  shows "topo_of a v \<le> topo_of a' v \<and> dom (states a') = dom (states a)"
  using loop_grows [OF assms [unfolded propagate_def] topo_grows_refl] by (simp add: topo_grows_def)

theorem propagate_grows_witness:
  "topo_of (breaker_alg 1 (-1)) 2 \<le>
     topo_of (snd (the (the (propagate 5 breaker_graph [1, 2] (breaker_alg 1 (-1)))))) 2"
proof -
  have "case propagate 5 breaker_graph [1, 2] (breaker_alg 1 (-1)) of Some (Some r) \<Rightarrow> True | _ \<Rightarrow> False"
    by code_simp
  then obtain cn' a' where p: "propagate 5 breaker_graph [1, 2] (breaker_alg 1 (-1)) = Some (Some (cn', a'))"
    by (auto split: option.splits)
  show ?thesis using propagate_grows [OF p, of 2] by (simp add: p)
qed

section \<open>Settled switches\<close>

text \<open>The checks of a round: every position and every state it reads exists.\<close>

definition readable :: "graph \<Rightarrow> alg \<Rightarrow> NodeID \<Rightarrow> bool" where
  "readable g a s \<longleftrightarrow> int_prop g s ''point'' \<noteq> None \<and> states a s \<noteq> None \<and>
     (\<forall>t \<in> set (switchNbrs g s). states a t \<noteq> None)"

lemma cnUpdate_settled:
  assumes "states a s \<noteq> None" "states a t \<noteq> None" "bd_of a s \<le> topo_of a t"
  shows "cnUpdate s t (a, c) = Some (a, c)"
  using assms by (auto simp: cnUpdate_def state_def bd_of_def topo_of_def)

lemma cnStep_settled:
  assumes "readable g a s" "settled_at g s a"
  shows "\<exists>r. cnStep g s (a, c) = Some (r, a, c)"
proof (cases "closedSwitch g s")
  case True
  have "foldM (cnUpdate s) ts (a, c) = Some (a, c)" if "set ts \<subseteq> set (switchNbrs g s)" for ts
    using that assms True
    by (induction ts) (auto simp: cnUpdate_settled readable_def settled_at_def)
  then show ?thesis using True
    by (auto simp: cnStep_def closedSwitch_def switchNbrs_def [symmetric] Let_def)
next
  case False
  then show ?thesis using assms by (auto simp: cnStep_def closedSwitch_def readable_def)
qed

lemma cn_phase_settled:
  assumes "\<forall>s \<in> set ss. readable g a s \<and> settled_at g s a"
  shows "\<exists>r. mapM (cnStep g) ss (a, c) = Some (r, a, c)"
  using assms
proof (induction ss)
  case (Cons s ss)
  then obtain r q where "cnStep g s (a, c) = Some (r, a, c)" "mapM (cnStep g) ss (a, c) = Some (q, a, c)"
    using cnStep_settled [of g a s c] by auto
  then show ?case by auto
qed simp

text \<open>If after the first half of a round no closed switch holds a higher id than one of
  its connection nodes, the loop ends after that round, with no topology id changed. This covers
  a network whose switches are all open.\<close>

theorem propagate_settled:
  assumes "subset_contract g" "vs_map g (bdStep g) cn a = Some (bd, b)"
    and "\<forall>s \<in> set bd. readable g b s \<and> settled_at g s b"
  shows "\<exists>cn'. propagate (Suc (Suc n)) g cn a = Some (Some (cn', b)) \<and> topo_of b = topo_of a"
proof -
  have "\<forall>s \<in> set (g_sched g bd). readable g b s \<and> settled_at g s b"
    using assms(1,3) by (simp add: subset_contract_def)
  then obtain r where "mapM (cnStep g) (g_sched g bd) (b, 0) = Some (r, b, 0)"
    using cn_phase_settled by blast
  then have "propagate_round g cn a 0 = Some (g_subset g r, b, 0)"
    using assms(2) by (simp add: propagate_round_def vs_map_def)
  moreover have "topo_of b = topo_of a"
    using bd_phase(1) [OF assms(1,2)] by (auto simp: bd_frame_def)
  ultimately show ?thesis by (simp add: propagate_def)
qed

theorem propagate_settled_witness:
  "\<exists>cn' b. propagate (Suc (Suc 0)) breaker_graph [1, 2] (breaker_alg 7 7) = Some (Some (cn', b)) \<and>
     topo_of b = topo_of (breaker_alg 7 7)"
proof -
  have "case vs_map breaker_graph (bdStep breaker_graph) [1, 2] (breaker_alg 7 7) of
      Some (bd, b) \<Rightarrow> bd = [3] \<and> states b 1 \<noteq> None \<and> states b 2 \<noteq> None \<and> states b 3 \<noteq> None \<and>
        bd_of b 3 = 7 \<and> topo_of b 1 = 7 \<and> topo_of b 2 = 7
    | None \<Rightarrow> False"
    by code_simp
  then obtain b where b: "vs_map breaker_graph (bdStep breaker_graph) [1, 2] (breaker_alg 7 7) = Some ([3], b)"
    "states b 1 \<noteq> None" "states b 2 \<noteq> None" "states b 3 \<noteq> None" "bd_of b 3 = 7" "topo_of b 1 = 7" "topo_of b 2 = 7"
    by (auto split: option.splits prod.splits)
  have "int_prop breaker_graph 3 ''point'' = Some 1" by code_simp
  then have "\<forall>s \<in> set [3]. readable breaker_graph b s \<and> settled_at breaker_graph s b"
    using b(2-) by (simp add: readable_def settled_at_def breaker_nbrs)
  then show ?thesis
    using propagate_settled [OF _ b(1), of 0] by (auto simp: breaker_graph_def table_contract)
qed

section \<open>The steps in terms of switches\<close>

lemma bdStep_nbrs:
  "bdStep g s a = do {
     a \<leftarrow> foldM (\<lambda>t a. do { st \<leftarrow> state a s; writeMax_bd t (maxTopoID st) a }) (switchNbrs g s) a;
     Some (switchNbrs g s, a) }"
  by (simp add: bdStep_def switchNbrs_def Let_def)

lemma cnStep_closed:
  "closedSwitch g s \<Longrightarrow> cnStep g s x = do { x \<leftarrow> foldM (cnUpdate s) (switchNbrs g s) x; Some (switchNbrs g s, x) }"
  by (simp add: cnStep_def closedSwitch_def switchNbrs_def Let_def)

lemma breaker_sets: "g_sched breaker_graph = id" "g_subset breaker_graph = emplaced"
  by (simp_all add: breaker_graph_def table_graph_def)

lemma breaker_closed: "closedSwitch breaker_graph 3"
  by code_simp

end
