(* ===== verification/TopoIds.thy ===== *)
theory TopoIds
  imports TopoRun Propagation
begin

text \<open>
  What a completed run computes. The topology id of a piece of equipment is the id of a connection node it is
  attached to; ids of equipment on both sides of a closed switch agree; every inserted topology node and every
  inserted edge other than a branch is determined by the ids, in closed form.
\<close>

section \<open>Building topology nodes\<close>

definition attached :: "graph \<Rightarrow> string list \<Rightarrow> NodeID \<Rightarrow> NodeID list" where
  "attached g ls s = g_neighborIDs g s (hasEdgeLabel g ls)"

definition top_id :: "alg \<Rightarrow> NodeID \<Rightarrow> int64" where
  "top_id a v = maxTopoID (the (states a v))"

text \<open>\<open>buildTP\<close> and \<open>buildTPUnit\<close> are the same stage over different equipment \<open>N\<close>.\<close>

definition build_stage ::
  "(int64 \<Rightarrow> NodeID \<Rightarrow> properties_type) \<Rightarrow> (NodeID \<Rightarrow> NodeID list) \<Rightarrow> graph \<Rightarrow> NodeID list \<Rightarrow> alg \<Rightarrow> (NodeID list \<times> alg) option" where
  "build_stage props N g = vs_map g (\<lambda>s a. do { a \<leftarrow> foldM (buildTarget props s) (N s) a; Some (N s, a) })"

lemma build_stages:
  "buildTP g = build_stage (topoND_props g) (attached g buildLabels) g"
  "buildTPUnit g = build_stage (topoND_unit_props g) (attached g [''connected_Unit_CN'']) g"
  by (simp_all add: buildTP_def buildTPUnit_def build_stage_def attached_def Let_def)

text \<open>Equipment \<open>t\<close> has taken over the id of a connection node it is attached to.\<close>

definition taken :: "(NodeID \<Rightarrow> NodeID list) \<Rightarrow> NodeID list \<Rightarrow> alg \<Rightarrow> alg \<Rightarrow> NodeID \<Rightarrow> bool" where
  "taken N cn a b t \<longleftrightarrow> (\<exists>s \<in> set cn. \<exists>st. t \<in> set (N s) \<and> states a t = Some st \<and>
     states b t = Some (st\<lparr>maxTopoID := top_id a s\<rparr>))"

definition built :: "(int64 \<Rightarrow> NodeID \<Rightarrow> properties_type) \<Rightarrow> (NodeID \<Rightarrow> NodeID list) \<Rightarrow> NodeID list \<Rightarrow> alg \<Rightarrow> alg \<Rightarrow> bool" where
  "built props N cn a b \<longleftrightarrow> (\<forall>v. states b v = states a v \<or> taken N cn a b v) \<and> insertedEdges b = insertedEdges a
     \<and> (\<exists>ns. insertedNodes b = insertedNodes a @ ns
          \<and> (\<forall>n \<in> set ns. \<exists>s \<in> set cn. \<exists>t \<in> set (N s). n = (''TopoND'', props (top_id a s) t)))"

text \<open>Equipment is not itself a connection node of the set.\<close>

definition separate :: "(NodeID \<Rightarrow> NodeID list) \<Rightarrow> NodeID list \<Rightarrow> bool" where
  "separate N cn \<longleftrightarrow> (\<forall>s \<in> set cn. set (N s) \<inter> set cn = {})"

lemma built_refl: "built props N cn a a"
  by (simp add: built_def)

lemma built_keeps: "separate N cn \<Longrightarrow> built props N cn a b \<Longrightarrow> s \<in> set cn \<Longrightarrow> states b s = states a s"
  unfolding built_def taken_def separate_def by blast

lemma buildTarget_built:
  assumes "separate N cn" "s \<in> set cn" "t \<in> set (N s)" "built props N cn a b" "buildTarget props s t b = Some b'"
  shows "built props N cn a b' \<and> taken N cn a b' t \<and> (\<forall>y. taken N cn a b y \<longrightarrow> taken N cn a b' y)"
proof -
  have s: "states b s = states a s" using assms(1,4,2) by (rule built_keeps)
  from assms(5) obtain st ss where st: "states b t = Some st" and ss: "states a s = Some ss"
    and b': "if maxTopoID st = top_id a s then b' = insertNode ''TopoND'' (props (top_id a s) t) b
       else b' = b\<lparr>states := (states b)(t \<mapsto> st\<lparr>maxTopoID := top_id a s\<rparr>)\<rparr>"
    by (auto simp: buildTarget_def bind_Some_iff state_def s top_id_def split: if_splits)
  have v: "states b v = states a v \<or> taken N cn a b v" for v using assms(4) by (simp add: built_def)
  have "states b' t = Some (st\<lparr>maxTopoID := top_id a s\<rparr>)" using b' st by (auto simp: insertNode_def split: if_splits)
  moreover obtain sa where "states a t = Some sa" "sa\<lparr>maxTopoID := top_id a s\<rparr> = st\<lparr>maxTopoID := top_id a s\<rparr>"
    using v [of t] st by (cases "states a t") (auto simp: taken_def)
  ultimately have t: "taken N cn a b' t" using assms(2,3) by (auto simp: taken_def)
  have other: "states b' y = states b y" if "y \<noteq> t" for y using b' that by (auto simp: insertNode_def split: if_splits)
  then have keep: "taken N cn a b y \<Longrightarrow> taken N cn a b' y" for y using t by (cases "y = t") (auto simp: taken_def)
  obtain ns where ns: "insertedNodes b = insertedNodes a @ ns"
      "\<forall>n \<in> set ns. \<exists>s \<in> set cn. \<exists>t \<in> set (N s). n = (''TopoND'', props (top_id a s) t)"
    using assms(4) by (auto simp: built_def)
  let ?ns = "if maxTopoID st = top_id a s then ns @ [(''TopoND'', props (top_id a s) t)] else ns"
  have "insertedNodes b' = insertedNodes a @ ?ns
      \<and> (\<forall>n \<in> set ?ns. \<exists>s \<in> set cn. \<exists>t \<in> set (N s). n = (''TopoND'', props (top_id a s) t))"
    using b' ns assms(2,3) by (auto simp: insertNode_def split: if_splits)
  moreover have "states b' v = states a v \<or> taken N cn a b' v" for v using v [of v] other t keep by (cases "v = t") auto
  moreover have "insertedEdges b' = insertedEdges a"
    using b' assms(4) by (auto simp: insertNode_def built_def split: if_splits)
  ultimately show ?thesis using t keep unfolding built_def by blast
qed

lemma build_stage_built:
  assumes "subset_contract g" "separate N cn" "build_stage props N g cn a = Some (tp, b)"
  shows "built props N cn a b" "set tp = (\<Union>s \<in> set cn. set (N s))" "\<And>t. t \<in> set tp \<Longrightarrow> taken N cn a b t"
proof -
  let ?f = "\<lambda>s a. do { a \<leftarrow> foldM (buildTarget props s) (N s) a; Some (N s, a) }"
  from assms(3) obtain r where r: "mapM ?f (g_sched g cn) a = Some (r, b)"
    by (auto simp: build_stage_def vs_map_def bind_Some_iff)
  have c: "set (g_sched g cn) = set cn" using assms(1) by (simp add: subset_contract_def)
  have step: "built props N cn a d' \<and> (\<forall>t \<in> set (N s). taken N cn a d' t) \<and> (\<forall>y. taken N cn a d y \<longrightarrow> taken N cn a d' y)"
    if "s \<in> set cn" "built props N cn a d" "foldM (buildTarget props s) (N s) d = Some d'" for s d d'
  proof -
    note f = that(3)
    have "\<forall>t \<in> set (N s). taken N cn a d' t"
      by (rule foldM_establishes [OF f, where P = "built props N cn a"])
         (use that(2) buildTarget_built [OF assms(2) that(1)] in blast)+
    moreover have "built props N cn a d' \<and> (\<forall>y. taken N cn a d y \<longrightarrow> taken N cn a d' y)"
      by (rule foldM_invariant [OF f, where P = "\<lambda>e. built props N cn a e \<and> (\<forall>y. taken N cn a d y \<longrightarrow> taken N cn a e y)"])
         (use that(2) buildTarget_built [OF assms(2) that(1)] in blast)+
    ultimately show ?thesis by blast
  qed
  show "built props N cn a b"
    by (rule vs_map_invariant [OF assms(3) [unfolded build_stage_def], where P = "built props N cn a"])
       (use step c built_refl in \<open>auto simp: bind_Some_iff\<close>)
  show tp: "set tp = (\<Union>s \<in> set cn. set (N s))"
    by (rule vs_map_result [OF assms(1) assms(3) [unfolded build_stage_def]]) (auto simp: bind_Some_iff)
  have "\<forall>s \<in> set (g_sched g cn). \<forall>t \<in> set (N s). taken N cn a b t"
  proof (rule foldM_establishes [OF mapM_foldM [OF r], where P = "built props N cn a"])
    fix s d d'
    assume "s \<in> set (g_sched g cn)" "built props N cn a d" "map_option snd (?f s d) = Some d'"
    then show "built props N cn a d' \<and> (\<forall>t \<in> set (N s). taken N cn a d' t) \<and>
        (\<forall>y. (\<forall>t \<in> set (N y). taken N cn a d t) \<longrightarrow> (\<forall>t \<in> set (N y). taken N cn a d' t))"
      using step [of s d d'] c by (auto simp: bind_Some_iff)
  qed (rule built_refl)
  then show "taken N cn a b t" if "t \<in> set tp" for t using that tp c by auto
qed

lemma setTopoIDs_states:
  assumes "subset_contract g" "setTopoIDs g tp a = Some b"
  shows "states b v = (if v \<in> set tp then map_option (\<lambda>st. st\<lparr>topoID := Some (maxTopoID st)\<rparr>) (states a v) else states a v)"
    "insertedNodes b = insertedNodes a \<and> insertedEdges b = insertedEdges a"
proof -
  let ?u = "map_option (\<lambda>st. st\<lparr>topoID := Some (maxTopoID st)\<rparr>)"
  let ?P = "\<lambda>b. (\<forall>v. states b v = states a v \<or> (v \<in> set tp \<and> states b v = ?u (states a v)))
    \<and> insertedNodes b = insertedNodes a \<and> insertedEdges b = insertedEdges a"
  let ?Q = "\<lambda>v b. states b v = ?u (states a v)"
  have c: "set (g_sched g tp) = set tp" using assms(1) by (simp add: subset_contract_def)
  note f = assms(2) [unfolded setTopoIDs_def vs_forEach_def]
  have step: "?P d' \<and> ?Q t d' \<and> (\<forall>y. ?Q y d \<longrightarrow> ?Q y d')"
    if t: "t \<in> set (g_sched g tp)" and d: "?P d" and u: "upd_state t (\<lambda>st. st\<lparr>topoID := Some (maxTopoID st)\<rparr>) d = Some d'" for t d d'
  proof -
    from u obtain st where st: "states d t = Some st" and d': "d' = d\<lparr>states := (states d)(t \<mapsto> st\<lparr>topoID := Some (maxTopoID st)\<rparr>)\<rparr>"
      by auto
    have "states d t = states a t \<or> states d t = ?u (states a t)" using d by blast
    then have q: "?Q t d'" using st d' by (cases "states a t") auto
    moreover have "?P d'" using d q t c d' by auto
    moreover have "?Q y d \<longrightarrow> ?Q y d'" for y using q d' by (cases "y = t") auto
    ultimately show ?thesis by blast
  qed
  have "\<forall>v \<in> set (g_sched g tp). ?Q v b" by (rule foldM_establishes [OF f, where P = ?P]) (use step in blast)+
  moreover have P: "?P b" by (rule foldM_invariant [OF f, where P = ?P]) (use step in blast)+
  ultimately show "states b v = (if v \<in> set tp then ?u (states a v) else states a v)" using c by auto
  show "insertedNodes b = insertedNodes a \<and> insertedEdges b = insertedEdges a" using P by blast
qed

section \<open>Inserting nodes and edges\<close>

text \<open>Stages that only insert are described by what they insert.\<close>

definition emit :: "(string \<times> properties_type) list \<Rightarrow> edge_request list \<Rightarrow> alg \<Rightarrow> alg" where
  "emit ns es a = a\<lparr>insertedNodes := insertedNodes a @ ns, insertedEdges := insertedEdges a @ es\<rparr>"

lemma emit_simps [simp]:
  "states (emit ns es a) = states a" "emit ns' es' (emit ns es a) = emit (ns @ ns') (es @ es') a"
  "insertedNodes (emit ns es a) = insertedNodes a @ ns" "insertedEdges (emit ns es a) = insertedEdges a @ es"
  by (simp_all add: emit_def)

lemma emit_Nil: "emit [] [] a = a"
  by (simp add: emit_def)

lemma insert_emit: "insertNode ty p a = emit [(ty, p)] [] a" "insertEdge ty src dst p a = emit [] [(ty, src, dst, p)] a"
  by (simp_all add: insertNode_def insertEdge_def emit_def)

lemma concat_map_Nil [simp]: "concat (map (\<lambda>_. []) xs) = []"
  by (induction xs) simp_all

lemma foldM_emit:
  assumes "foldM f xs a = Some a'" "\<And>x b b'. states b = states a \<Longrightarrow> f x b = Some b' \<Longrightarrow> b' = emit (n x) (e x) b"
  shows "a' = emit (concat (map n xs)) (concat (map e xs)) a"
  using assms
proof (induction xs arbitrary: a)
  case (Cons x xs)
  then obtain b where b: "f x a = Some b" "foldM f xs b = Some a'" by (auto simp: bind_Some_iff)
  have e: "b = emit (n x) (e x) a" using Cons.prems(2) b(1) by simp
  have "a' = emit (concat (map n xs)) (concat (map e xs)) b"
    by (rule Cons.IH [OF b(2)]) (use Cons.prems(2) e in simp)
  then show ?case by (simp add: e)
qed (simp add: emit_Nil)

lemma vs_map_emit:
  assumes "vs_map g f xs a = Some (r, a')"
    "\<And>x b ys b'. states b = states a \<Longrightarrow> f x b = Some (ys, b') \<Longrightarrow> b' = emit (n x) (e x) b"
  shows "a' = emit (concat (map n (g_sched g xs))) (concat (map e (g_sched g xs))) a"
proof -
  obtain q where "mapM f (g_sched g xs) a = Some (q, a')" using assms(1) by (auto simp: vs_map_def bind_Some_iff)
  note m = mapM_foldM [OF this]
  show ?thesis by (rule foldM_emit [OF m]) (auto dest: assms(2))
qed

definition neutral_node :: "graph \<Rightarrow> NodeID \<Rightarrow> string \<times> properties_type" where
  "neutral_node g t = (''TopoND'', neutral_props g (the (int_prop g t ''middle_point'')) t)"

definition neutral_edge :: "graph \<Rightarrow> NodeID \<Rightarrow> edge_request" where
  "neutral_edge g t = (let m = VInt64 (the (int_prop g t ''middle_point'')) in (''topo_neutral'', [m], [m], []))"

definition sub_edges :: "graph \<Rightarrow> (NodeID \<Rightarrow> int64) \<Rightarrow> NodeID \<Rightarrow> edge_request list" where
  "sub_edges g ids s = map (\<lambda>t. (''topoid_subid'', [VInt64 (ids s)], [VInt64 (the (int_prop g t ''id''))], []))
     (attached g [''cn_subid''] s)"

definition component_edge :: "graph \<Rightarrow> int64 \<Rightarrow> NodeID \<Rightarrow> edge_request list" where
  "component_edge g i t = (case componentEdgeType (the (string_prop g t ''typename'')) of
     None \<Rightarrow> [] | Some ty \<Rightarrow> [(ty, [VInt64 i], [VInt64 (the (int_prop g t ''id''))], [])])"

definition component_edges :: "graph \<Rightarrow> (NodeID \<Rightarrow> int64) \<Rightarrow> NodeID \<Rightarrow> edge_request list" where
  "component_edges g ids s = concat (map (component_edge g (ids s)) (attached g componentLabels s))"

text \<open>The connection nodes that get edges to their substations and to their equipment.\<close>

definition sub_nodes :: "graph \<Rightarrow> (NodeID \<Rightarrow> int64) \<Rightarrow> NodeID list \<Rightarrow> NodeID list" where
  "sub_nodes g ids cn = g_subset g (filter (\<lambda>s. ids s \<noteq> 0 \<and> ids s \<noteq> the (int_prop g s ''CN_id'')) cn)"

definition component_nodes :: "graph \<Rightarrow> (NodeID \<Rightarrow> int64) \<Rightarrow> NodeID list \<Rightarrow> NodeID list" where
  "component_nodes g ids cn = g_subset g (filter (\<lambda>s. ids s \<noteq> 0) cn)"

lemma filterM_total:
  "filterM p xs = Some ys \<Longrightarrow> (\<And>x b. p x = Some b \<Longrightarrow> b = q x) \<Longrightarrow> ys = filter q xs"
  by (induction xs arbitrary: ys) (auto simp: bind_Some_iff split: if_split_asm)

lemma vs_filter_total:
  assumes "vs_filter g p xs = Some ys" "\<And>x b. p x = Some b \<Longrightarrow> b = q x"
  shows "ys = g_subset g (filter q xs)"
  using assms(1) filterM_total [of p xs _ q, OF _ assms(2)] by (auto simp: vs_filter_def bind_Some_iff)

lemma totalTopoInsert_emit:
  assumes "totalTopoInsert g ts a = Some b"
  shows "b = emit (map (neutral_node g) (g_sched g ts)) (map (neutral_edge g) (g_sched g ts)) a"
proof -
  note f = assms [unfolded totalTopoInsert_def vs_forEach_def]
  have "b = emit (concat (map (\<lambda>t. [neutral_node g t]) (g_sched g ts))) (concat (map (\<lambda>t. [neutral_edge g t]) (g_sched g ts))) a"
    by (rule foldM_emit [OF f]) (clarsimp simp: bind_Some_iff Let_def insert_emit neutral_node_def neutral_edge_def)
  then show ?thesis by simp
qed

lemma topoSub_emit:
  assumes "topoSub g cn a = Some (r, b)"
  shows "b = emit [] (concat (map (sub_edges g (top_id a)) (g_sched g (sub_nodes g (top_id a) cn)))) a"
proof -
  from assms obtain sel where sel: "vs_filter g (\<lambda>s. do { cnID \<leftarrow> int_prop g s ''CN_id''; st \<leftarrow> state a s;
      Some (maxTopoID st \<noteq> 0 \<and> maxTopoID st \<noteq> cnID) }) cn = Some sel"
    and m: "vs_map g (\<lambda>s a. do {
       let tgts = g_neighborIDs g s (hasEdgeLabel g [''cn_subid'']);
       a \<leftarrow> foldM (\<lambda>t a. do {
         tid \<leftarrow> int_prop g t ''id'';
         st \<leftarrow> state a s;
         Some (insertEdge ''topoid_subid'' [VInt64 (maxTopoID st)] [VInt64 tid] [] a)
       }) tgts a;
       Some (tgts, a)
     }) sel a = Some (r, b)"
    by (auto simp: topoSub_def bind_Some_iff)
  have s: "sel = sub_nodes g (top_id a) cn"
    unfolding sub_nodes_def by (rule vs_filter_total [OF sel]) (auto simp: bind_Some_iff state_def top_id_def)
  have "b = emit (concat (map (\<lambda>s. []) (g_sched g sel))) (concat (map (sub_edges g (top_id a)) (g_sched g sel))) a"
  proof (rule vs_map_emit [OF m])
    fix x b ys b'
    assume b: "states b = states a"
      and "(do {
       let tgts = g_neighborIDs g x (hasEdgeLabel g [''cn_subid'']);
       a \<leftarrow> foldM (\<lambda>t a. do {
         tid \<leftarrow> int_prop g t ''id'';
         st \<leftarrow> state a x;
         Some (insertEdge ''topoid_subid'' [VInt64 (maxTopoID st)] [VInt64 tid] [] a)
       }) tgts b;
       Some (tgts, a)
     }) = Some (ys, b')"
    then have "foldM (\<lambda>t a. do {
         tid \<leftarrow> int_prop g t ''id'';
         st \<leftarrow> state a x;
         Some (insertEdge ''topoid_subid'' [VInt64 (maxTopoID st)] [VInt64 tid] [] a)
       }) (attached g [''cn_subid''] x) b = Some b'"
      by (auto simp: bind_Some_iff Let_def attached_def)
    then have "b' = emit (concat (map (\<lambda>_. []) (attached g [''cn_subid''] x))) (concat (map
        (\<lambda>t. [(''topoid_subid'', [VInt64 (top_id a x)], [VInt64 (the (int_prop g t ''id''))], [])])
        (attached g [''cn_subid''] x))) b"
      by (rule foldM_emit) (clarsimp simp: b bind_Some_iff insert_emit state_def top_id_def)
    then show "b' = emit [] (sub_edges g (top_id a) x) b" by (simp add: sub_edges_def concat_map_singleton)
  qed
  then show ?thesis by (simp add: s)
qed

lemma topoComponentNode_emit:
  assumes "topoComponentNode g cn a = Some (r, b)"
  shows "b = emit [] (concat (map (component_edges g (top_id a)) (g_sched g (component_nodes g (top_id a) cn)))) a"
proof -
  let ?f = "\<lambda>s a. do {
       let tgts = g_neighborIDs g s (hasEdgeLabel g componentLabels);
       a \<leftarrow> foldM (componentEdge g s) tgts a;
       Some (tgts, a)
     }"
  from assms obtain sel where sel: "vs_filter g (\<lambda>s. do { st \<leftarrow> state a s; Some (maxTopoID st \<noteq> 0) }) cn = Some sel"
    and m: "vs_map g ?f sel a = Some (r, b)"
    by (auto simp: topoComponentNode_def bind_Some_iff)
  have s: "sel = component_nodes g (top_id a) cn"
    unfolding component_nodes_def by (rule vs_filter_total [OF sel]) (auto simp: bind_Some_iff state_def top_id_def)
  have "b = emit (concat (map (\<lambda>s. []) (g_sched g sel))) (concat (map (component_edges g (top_id a)) (g_sched g sel))) a"
  proof (rule vs_map_emit [OF m])
    fix x b ys b'
    assume b: "states b = states a" and "?f x b = Some (ys, b')"
    then have "foldM (componentEdge g x) (attached g componentLabels x) b = Some b'"
      by (auto simp: bind_Some_iff Let_def attached_def)
    then have "b' = emit (concat (map (\<lambda>_. []) (attached g componentLabels x)))
        (concat (map (component_edge g (top_id a x)) (attached g componentLabels x))) b"
      by (rule foldM_emit) (clarsimp simp: b componentEdge_def component_edge_def bind_Some_iff insert_emit emit_Nil
          state_def top_id_def split: option.split)
    then show "b' = emit [] (component_edges g (top_id a) x) b" by (simp add: component_edges_def)
  qed
  then show ?thesis by (simp add: s)
qed

section \<open>What the other stages leave\<close>

definition others :: "edge_request list \<Rightarrow> edge_request list" where
  "others = filter (\<lambda>e. fst e \<noteq> ''topo_connect'')"

lemma others_simps [simp]:
  "others [] = []" "others (es @ es') = others es @ others es'" "(\<forall>e \<in> set es. fst e \<noteq> ''topo_connect'') \<Longrightarrow> others es = es"
  by (simp_all add: others_def)

lemma branch_pair_others: "branch_pair (ty, r) (ty', r') \<Longrightarrow> others [(ty, r), (ty', r')] = []"
  by (auto simp: branch_pair_def mirrored_def others_def split: prod.splits)

lemma kept_option:
  "\<forall>v. map_option maxTopoID (states a v) = M v \<Longrightarrow> states a v = Some s \<Longrightarrow> Some (maxTopoID s) = M v"
  "\<forall>v. map_option maxBDID (states a v) = B v \<Longrightarrow> states a v = Some s \<Longrightarrow> Some (maxBDID s) = B v"
  "\<forall>v. map_option topoID (states a v) = T v \<Longrightarrow> states a v = Some s \<Longrightarrow> Some (topoID s) = T v"
  by (metis option.simps(9))+

text \<open>Branches and compensators change no id, insert no node and no edge but branches; finding the ids changes no
  result.\<close>

interpretation keeps_ids: frame_invariant "\<lambda>a. (\<forall>v. map_option maxTopoID (states a v) = M v)
    \<and> (\<forall>v. map_option maxBDID (states a v) = B v) \<and> (\<forall>v. map_option topoID (states a v) = T v) \<and> insertedNodes a = N \<and> others (insertedEdges a) = E" for M B T N E
  by unfold_locales (auto simp: same_ids_def updateEdge_def insertEdge_def intro: kept_option dest!: branch_pair_others)

interpretation keeps_results: id_invariant "\<lambda>a. (\<forall>v. map_option topoID (states a v) = T v)
    \<and> insertedNodes a = N \<and> others (insertedEdges a) = E" for T N E
  by unfold_locales (auto simp: same_ids_def updateEdge_def insertEdge_def intro: kept_option dest!: branch_pair_others)

section \<open>A completed run\<close>

definition equipment :: "graph \<Rightarrow> NodeID \<Rightarrow> NodeID list" where
  "equipment g s = attached g buildLabels s @ attached g [''connected_Unit_CN''] s"

text \<open>The neutral points with at most one winding out of service.\<close>

definition neutral_points :: "graph \<Rightarrow> NodeID list" where
  "neutral_points g = g_subset g (filter (\<lambda>t. neutralInService g t = Some True) (verticesOf g ''neutral_point''))"

definition derived_edges :: "graph \<Rightarrow> (NodeID \<Rightarrow> int64) \<Rightarrow> NodeID list \<Rightarrow> edge_request list" where
  "derived_edges g ids cn = map (neutral_edge g) (g_sched g (neutral_points g))
     @ concat (map (sub_edges g ids) (g_sched g (sub_nodes g ids cn)))
     @ concat (map (component_edges g ids) (g_sched g (component_nodes g ids cn)))"

lemma derived_no_branch: "\<forall>e \<in> set (derived_edges g ids cn). fst e \<noteq> ''topo_connect''"
  by (auto simp: derived_edges_def neutral_edge_def Let_def sub_edges_def component_edges_def component_edge_def
      componentEdgeType_connect [THEN not_sym] split: option.split_asm)

lemma run_stages:
  assumes "run fuel g (init_alg g) = Some (Some a)" "run_start g (init_alg g) = Some (cnOpen, cn, a1)"
  obtains cn' a2 tp b1 b2 tpu b3 b4 where "propagate fuel g cnOpen a1 = Some (Some (cn', a2))"
    "build_stage (topoND_props g) (attached g buildLabels) g cn a2 = Some (tp, b1)" "setTopoIDs g tp b1 = Some b2"
    "build_stage (topoND_unit_props g) (attached g [''connected_Unit_CN'']) g cn b2 = Some (tpu, b3)" "setTopoIDs g tpu b3 = Some b4"
    "\<forall>v. map_option topoID (states a2 v) = map_option topoID (states (init_alg g) v)"
    "insertedNodes a2 = []" "others (insertedEdges a2) = []"
    "\<forall>v. map_option maxTopoID (states a v) = map_option maxTopoID (states b4 v)"
    "\<forall>v. map_option topoID (states a v) = map_option topoID (states b4 v)"
    "insertedNodes a = insertedNodes b4 @ map (neutral_node g) (g_sched g (neutral_points g))"
    "others (insertedEdges a) = others (insertedEdges b4) @ derived_edges g (top_id b4) cn"
proof -
  from assms obtain cn' a2 where p: "propagate fuel g cnOpen a1 = Some (Some (cn', a2))"
    and r: "run_build g cnOpen cn a2 = Some a"
    by (auto simp: run_def split: option.splits)
  from r obtain tp b1 b2 tpu b3 b4 total b5 r6 b6 r7 b7 where
    b: "build_stage (topoND_props g) (attached g buildLabels) g cn a2 = Some (tp, b1)" "setTopoIDs g tp b1 = Some b2"
      "build_stage (topoND_unit_props g) (attached g [''connected_Unit_CN'']) g cn b2 = Some (tpu, b3)" "setTopoIDs g tpu b3 = Some b4"
    and i: "totalTopoNodes g (verticesOf g ''neutral_point'') = Some total" "totalTopoInsert g total b4 = Some b5"
      "topoSub g cn b5 = Some (r6, b6)" "topoComponentNode g cn b6 = Some (r7, b7)"
    and t: "run_branches g cnOpen b7 = Some a"
    by (auto simp: run_build_branches bind_Some_iff build_stages)
  have total: "total = neutral_points g"
    using i(1) unfolding neutral_points_def totalTopoNodes_def by (rule vs_filter_total) simp
  have b5: "b5 = emit (map (neutral_node g) (g_sched g total)) (map (neutral_edge g) (g_sched g total)) b4"
    using i(2) by (rule totalTopoInsert_emit)
  have b6: "b6 = emit [] (concat (map (sub_edges g (top_id b4)) (g_sched g (sub_nodes g (top_id b4) cn)))) b5"
    using topoSub_emit [OF i(3)] by (simp add: b5 top_id_def [abs_def])
  have b7: "b7 = emit [] (concat (map (component_edges g (top_id b4)) (g_sched g (component_nodes g (top_id b4) cn)))) b6"
    using topoComponentNode_emit [OF i(4)] by (simp add: b6 b5 top_id_def [abs_def])
  have b7': "b7 = emit (map (neutral_node g) (g_sched g (neutral_points g))) (derived_edges g (top_id b4) cn) b4"
    by (simp add: b7 b6 b5 derived_edges_def total)
  have tail: "(\<forall>v. map_option maxTopoID (states a v) = map_option maxTopoID (states b7 v))
      \<and> (\<forall>v. map_option maxBDID (states a v) = map_option maxBDID (states b7 v)) \<and> (\<forall>v. map_option topoID (states a v) = map_option topoID (states b7 v))
      \<and> insertedNodes a = insertedNodes b7 \<and> others (insertedEdges a) = others (insertedEdges b7)"
    by (rule keeps_ids.run_branches_P [OF t]) simp
  let ?P = "\<lambda>a. (\<forall>v. map_option topoID (states a v) = map_option topoID (states (init_alg g) v))
      \<and> insertedNodes a = [] \<and> others (insertedEdges a) = []"
  have "?P a1" by (rule keeps_results.run_start_P [OF assms(2)]) (simp add: init_alg_def)
  then have start: "?P a2" by (rule keeps_results.propagate_loop_P [OF p [unfolded propagate_def]])
  show ?thesis
    by (rule that [OF p b]) (use tail start derived_no_branch [of g "top_id b4" cn] in \<open>simp_all add: b7'\<close>)
qed

lemma top_id_cong: "map_option maxTopoID (states a v) = map_option maxTopoID (states b v) \<Longrightarrow> top_id a v = top_id b v"
  by (cases "states a v"; cases "states b v") (auto simp: top_id_def)

text \<open>The first column of results in the row of a vertex.\<close>

definition reported_id :: "alg \<Rightarrow> NodeID \<Rightarrow> Value option" where
  "reported_id a v = map_option (\<lambda>row. row ! 1) (vertexRow a v)"

lemma reported_id_topoID: "reported_id a v = map_option opt_value (map_option topoID (states a v))"
  by (cases "states a v") (simp_all add: reported_id_def vertexRow_Some, simp add: vertexRow_def state_def)

lemma reported_id_Some: "map_option topoID (states a v) = Some (Some i) \<Longrightarrow> reported_id a v = Some (VInt64 i)"
  unfolding reported_id_topoID by (auto simp: opt_value_def)

definition topology_node :: "graph \<Rightarrow> (NodeID \<Rightarrow> int64) \<Rightarrow> NodeID list \<Rightarrow> string \<times> properties_type \<Rightarrow> bool" where
  "topology_node g ids cn n \<longleftrightarrow> (\<exists>s \<in> set cn. (\<exists>t \<in> set (attached g buildLabels s). n = (''TopoND'', topoND_props g (ids s) t))
     \<or> (\<exists>t \<in> set (attached g [''connected_Unit_CN''] s). n = (''TopoND'', topoND_unit_props g (ids s) t)))"

text \<open>The two stages of \<open>run_build\<close> that build topology nodes, each followed by setting the results.\<close>

lemma build_ids:
  fixes g a b1 b2 b3 b4 tp tpu cn
  defines "N1 \<equiv> attached g buildLabels" and "N2 \<equiv> attached g [''connected_Unit_CN'']"
  assumes "subset_contract g" "separate (equipment g) cn"
    "build_stage (topoND_props g) N1 g cn a = Some (tp, b1)" "setTopoIDs g tp b1 = Some b2"
    "build_stage (topoND_unit_props g) N2 g cn b2 = Some (tpu, b3)" "setTopoIDs g tpu b3 = Some b4"
  shows "s \<in> set cn \<Longrightarrow> states b4 s = states a s"
    "v \<notin> (\<Union>s \<in> set cn. set (equipment g s)) \<Longrightarrow> states b4 v = states a v"
    "v \<in> (\<Union>s \<in> set cn. set (equipment g s)) \<Longrightarrow>
       \<exists>s \<in> set cn. v \<in> set (equipment g s) \<and> map_option topoID (states b4 v) = Some (Some (top_id b4 s))"
    "\<exists>ns. insertedNodes b4 = insertedNodes a @ ns \<and> list_all (topology_node g (top_id b4) cn) ns"
    "insertedEdges b4 = insertedEdges a"
proof -
  have sep: "separate N1 cn" "separate N2 cn" using assms(4) by (auto simp: separate_def equipment_def N1_def N2_def)
  note c1 = build_stage_built [OF assms(3) sep(1) assms(5)] and c3 = build_stage_built [OF assms(3) sep(2) assms(7)]
  note c2 = setTopoIDs_states [OF assms(3,6)] and c4 = setTopoIDs_states [OF assms(3,8)]
  have out: "set cn \<inter> set tp = {}" "set cn \<inter> set tpu = {}" using sep c1(2) c3(2) by (auto simp: separate_def)
  have k2: "states b2 s = states a s" and k4: "states b4 s = states a s" if "s \<in> set cn" for s
    using that out built_keeps [OF sep(1) c1(1) that] built_keeps [OF sep(2) c3(1) that] c2(1) [of s] c4(1) [of s] by auto
  show "s \<in> set cn \<Longrightarrow> states b4 s = states a s" by (rule k4)
  have t: "top_id b2 s = top_id b4 s" "top_id a s = top_id b4 s" if "s \<in> set cn" for s
    using k2 [OF that] k4 [OF that] by (simp_all add: top_id_def)
  have eq: "(\<Union>s \<in> set cn. set (equipment g s)) = set tp \<union> set tpu" by (auto simp: c1(2) c3(2) equipment_def N1_def N2_def)
  have unit_step: "states b3 v = states b2 v" if "v \<notin> set tpu" for v
    using c3(1,2) that by (auto simp: built_def taken_def)
  have topo_step: "states b1 v = states a v" if "v \<notin> set tp" for v
    using c1(1,2) that by (auto simp: built_def taken_def)
  show "states b4 v = states a v" if "v \<notin> (\<Union>s \<in> set cn. set (equipment g s))"
    using c4(1) [of v] c2(1) [of v] unit_step topo_step that by (auto simp: eq)
  show "\<exists>s \<in> set cn. v \<in> set (equipment g s) \<and> map_option topoID (states b4 v) = Some (Some (top_id b4 s))"
    if v: "v \<in> (\<Union>s \<in> set cn. set (equipment g s))"
  proof (cases "v \<in> set tpu")
    case True
    then obtain s st where "s \<in> set cn" "v \<in> set (N2 s)" "states b3 v = Some (st\<lparr>maxTopoID := top_id b2 s\<rparr>)"
      using c3(3) [OF True] by (auto simp: taken_def)
    then show ?thesis using c4(1) [of v] True t by (auto simp: equipment_def N2_def)
  next
    case False
    then have "v \<in> set tp" using v by (simp add: eq)
    moreover obtain s st where "s \<in> set cn" "v \<in> set (N1 s)" "states b1 v = Some (st\<lparr>maxTopoID := top_id a s\<rparr>)"
      using c1(3) [OF calculation] by (auto simp: taken_def)
    ultimately show ?thesis using c4(1) [of v] c2(1) [of v] unit_step [OF False] t False by (auto simp: equipment_def N1_def)
  qed
  show "\<exists>ns. insertedNodes b4 = insertedNodes a @ ns \<and> list_all (topology_node g (top_id b4) cn) ns"
    using c1(1) c3(1) c2(2) c4(2) t unfolding built_def list_all_iff topology_node_def N1_def N2_def by fastforce
  show "insertedEdges b4 = insertedEdges a" using c1(1) c3(1) c2(2) c4(2) by (simp add: built_def)
qed

lemma run_ids:
  assumes "subset_contract g" "run fuel g (init_alg g) = Some (Some a)"
    "run_start g (init_alg g) = Some (cnOpen, cn, a1)" "separate (equipment g) cn"
  obtains cn' a2 where "propagate fuel g cnOpen a1 = Some (Some (cn', a2))" "\<forall>s \<in> set cn. top_id a s = top_id a2 s"
    "\<forall>v. v \<in> (\<Union>s \<in> set cn. set (equipment g s)) \<longrightarrow> (\<exists>s \<in> set cn. v \<in> set (equipment g s)
       \<and> map_option topoID (states a v) = Some (Some (top_id a s)))"
    "\<forall>v. v \<notin> (\<Union>s \<in> set cn. set (equipment g s)) \<longrightarrow>
       map_option topoID (states a v) = map_option topoID (states (init_alg g) v)"
    "\<exists>ns. insertedNodes a = ns @ map (neutral_node g) (g_sched g (neutral_points g)) \<and> list_all (topology_node g (top_id a) cn) ns"
    "others (insertedEdges a) = derived_edges g (top_id a) cn"
proof -
  obtain cn' a2 tp b1 b2 tpu b3 b4 where p: "propagate fuel g cnOpen a1 = Some (Some (cn', a2))"
    and stages: "build_stage (topoND_props g) (attached g buildLabels) g cn a2 = Some (tp, b1)" "setTopoIDs g tp b1 = Some b2"
      "build_stage (topoND_unit_props g) (attached g [''connected_Unit_CN'']) g cn b2 = Some (tpu, b3)" "setTopoIDs g tpu b3 = Some b4"
    and start: "\<forall>v. map_option topoID (states a2 v) = map_option topoID (states (init_alg g) v)"
      "insertedNodes a2 = []" "others (insertedEdges a2) = []"
    and ids: "\<forall>v. map_option maxTopoID (states a v) = map_option maxTopoID (states b4 v)"
      "\<forall>v. map_option topoID (states a v) = map_option topoID (states b4 v)"
    and ins: "insertedNodes a = insertedNodes b4 @ map (neutral_node g) (g_sched g (neutral_points g))"
      "others (insertedEdges a) = others (insertedEdges b4) @ derived_edges g (top_id b4) cn"
    by (rule run_stages [OF assms(2,3)])
  note b = build_ids [OF assms(1,4) stages]
  have top: "top_id a = top_id b4" using ids(1) top_id_cong by blast
  have t: "\<forall>s \<in> set cn. top_id a s = top_id a2 s" using b(1) by (simp add: top) (simp add: top_id_def)
  have n: "\<exists>ns. insertedNodes a = ns @ map (neutral_node g) (g_sched g (neutral_points g)) \<and> list_all (topology_node g (top_id a) cn) ns"
    using b(4) start(2) ins(1) by (auto simp: top)
  have e: "others (insertedEdges a) = derived_edges g (top_id a) cn" using ins(2) start(3) b(5) by (simp add: top)
  show ?thesis by (rule that [OF p t _ _ n e]) (use b(2,3) ids(2) start(1) in \<open>simp_all add: top\<close>)
qed

section \<open>Properties\<close>

text \<open>A substation (1, 7) with two line ends (2 and 3) on two connection nodes (4 and 5) and a closed breaker (6)
  between these. Only the first line end has a number.\<close>

definition pair_nprop :: "NodeID \<Rightarrow> string \<Rightarrow> Value" where
  "pair_nprop v p =
     (if p \<in> {''name'', ''typename''} then VString ''AClinedot''
      else if p \<in> {''off'', ''CN_id''} then VInt64 0
      else if p = ''nd'' then VInt64 (if v = 2 then 9 else 0)
      else if p = ''point'' then VInt64 1
      else if p = ''id'' then VInt64 v
      else VDouble 0)"

definition pair_graph :: graph where
  "pair_graph = table_graph [1, 2, 3, 4, 5, 6, 7]
     [(1, 7, ''connected_Sub_Aclinedot''), (7, 2, ''connected_Sub_Aclinedot''), (7, 3, ''connected_Sub_Aclinedot''),
      (7, 4, ''cn_subid''), (7, 5, ''cn_subid''), (4, 2, ''aclinedot_cn''), (5, 3, ''aclinedot_cn''),
      (4, 6, ''connected_Breaker_CN''), (5, 6, ''connected_Breaker_CN'')]
     line_labels pair_nprop line_eprop"

lemma pair_facts:
  "case run 4 pair_graph (init_alg pair_graph) of
     Some (Some a) \<Rightarrow> length (insertedNodes a) = 1 \<and> length (others (insertedEdges a)) = 4 \<and> top_id a 4 = 9
   | _ \<Rightarrow> False"
  "case run_start pair_graph (init_alg pair_graph) of Some (cnOpen, cn, a) \<Rightarrow> cnOpen = [4, 5] \<and> cn = [4, 5] | None \<Rightarrow> False"
  "map (equipment pair_graph) [4, 5] = [[2], [3]]" "map (switchNbrs pair_graph) [4, 5, 6] = [[6], [6], [4, 5]]"
  "closedSwitch pair_graph 6"
  by code_simp+

lemma pair_run:
  obtains a a1 where "run 4 pair_graph (init_alg pair_graph) = Some (Some a)"
    "run_start pair_graph (init_alg pair_graph) = Some ([4, 5], [4, 5], a1)"
    "length (insertedNodes a) = 1" "length (others (insertedEdges a)) = 4" "top_id a 4 = 9"
  using pair_facts(1,2) by (auto split: option.splits)

lemma pair_network: "subset_contract pair_graph" "bounded_rounds pair_graph" "separate (equipment pair_graph) [4, 5]"
proof -
  show "subset_contract pair_graph" by (simp add: pair_graph_def table_contract)
  show "bounded_rounds pair_graph" unfolding pair_graph_def by (rule table_bounded) simp
  show "separate (equipment pair_graph) [4, 5]" using pair_facts(3) by (simp add: separate_def)
qed

text \<open>Claim C6. The topology ids in the result table. After a completed run every piece of equipment that is attached to
  a connection node in service is reported with the topology id of such a connection node, and every other vertex
  is reported with -1; no connection node may itself be equipment of another one.\<close>

theorem run_equipment_ids:
  assumes "subset_contract g" "run fuel g (init_alg g) = Some (Some a)"
    "run_start g (init_alg g) = Some (cnOpen, cn, a1)" "separate (equipment g) cn" "v \<in> set (g_nodeIDs g)"
  shows "if v \<in> (\<Union>s \<in> set cn. set (equipment g s))
     then \<exists>s \<in> set cn. v \<in> set (equipment g s) \<and> reported_id a v = Some (VInt64 (top_id a s))
     else reported_id a v = Some (VInt64 (-1))"
proof -
  obtain st where "states (init_alg g) v = Some st"
    using assms(5) by (auto simp: init_alg_def dom_emplace_states [symmetric])
  then have "map_option topoID (states (init_alg g) v) = Some (Some (-1))"
    by (auto simp: init_alg_def initState_def dest: emplace_states_init)
  then show ?thesis by (rule_tac run_ids [OF assms(1-4)]) (fastforce intro: reported_id_Some)
qed

theorem run_equipment_ids_witness:
  "\<exists>a. run 4 pair_graph (init_alg pair_graph) = Some (Some a) \<and> reported_id a 2 = Some (VInt64 9) \<and> reported_id a 6 = Some (VInt64 (-1))"
proof -
  obtain a a1 where r: "run 4 pair_graph (init_alg pair_graph) = Some (Some a)"
    "run_start pair_graph (init_alg pair_graph) = Some ([4, 5], [4, 5], a1)" "top_id a 4 = 9"
    by (rule pair_run)
  have "2 \<in> set (g_nodeIDs pair_graph)" "6 \<in> set (g_nodeIDs pair_graph)" by (simp_all add: pair_graph_def table_graph_def)
  then show ?thesis
    using run_equipment_ids [OF pair_network(1) r(1,2) pair_network(3)] r pair_facts(3) by fastforce
qed

text \<open>Closed switches join equipment. After a completed run, two pieces of equipment whose only connection nodes
  share a closed switch are reported with the same topology id, that of their connection nodes.\<close>

theorem run_closed_switch:
  assumes "subset_contract g" "bounded_rounds g" "run fuel g (init_alg g) = Some (Some a)"
    "run_start g (init_alg g) = Some (cnOpen, cn, a1)" "separate (equipment g) cn"
    and "closedSwitch g w" "set [u, v] \<subseteq> set cnOpen \<inter> set cn"
    and "w \<in> set (switchNbrs g u)" "w \<in> set (switchNbrs g v)" "set [u, v] \<subseteq> set (switchNbrs g w)"
    and "{s \<in> set cn. t \<in> set (equipment g s)} = {u}" "{s \<in> set cn. t' \<in> set (equipment g s)} = {v}"
  shows "reported_id a t = Some (VInt64 (top_id a u)) \<and> reported_id a t' = reported_id a t"
proof -
  obtain cn' a2 where p: "propagate fuel g cnOpen a1 = Some (Some (cn', a2))" and top: "\<forall>s \<in> set cn. top_id a s = top_id a2 s"
    and eq: "\<forall>v. v \<in> (\<Union>s \<in> set cn. set (equipment g s)) \<longrightarrow> (\<exists>s \<in> set cn. v \<in> set (equipment g s)
       \<and> map_option topoID (states a v) = Some (Some (top_id a s)))"
    by (rule run_ids [OF assms(1,3-5)])
  have "topo_of a2 u = topo_of a2 v"
    using loop_agree [OF assms(1,2) p assms(6)] assms(7-10) by simp
  then have "top_id a u = top_id a v" using top assms(7) by (auto simp: topo_of_def top_id_def intro: signed_word_eqI)
  moreover have "reported_id a x = Some (VInt64 (top_id a z))" if "{s \<in> set cn. x \<in> set (equipment g s)} = {z}" for x z
  proof -
    have "z \<in> set cn" "x \<in> set (equipment g z)" using that by blast+
    then obtain s where "s \<in> set cn" "x \<in> set (equipment g s)" "map_option topoID (states a x) = Some (Some (top_id a s))"
      using eq by blast
    moreover have "s = z" using calculation(1,2) that by blast
    ultimately show ?thesis by (auto intro: reported_id_Some)
  qed
  ultimately show ?thesis using assms(11,12) by simp
qed

theorem run_closed_switch_witness:
  "\<exists>a. run 4 pair_graph (init_alg pair_graph) = Some (Some a) \<and> reported_id a 3 = Some (VInt64 9) \<and> reported_id a 3 = reported_id a 2"
proof -
  obtain a a1 where r: "run 4 pair_graph (init_alg pair_graph) = Some (Some a)"
    "run_start pair_graph (init_alg pair_graph) = Some ([4, 5], [4, 5], a1)" "top_id a 4 = 9"
    by (rule pair_run)
  have "{s \<in> set [4, 5]. 2 \<in> set (equipment pair_graph s)} = {4}" "{s \<in> set [4, 5]. 3 \<in> set (equipment pair_graph s)} = {5}"
    using pair_facts(3) by auto
  then have "reported_id a 2 = Some (VInt64 (top_id a 4)) \<and> reported_id a 3 = reported_id a 2"
    using run_closed_switch [OF pair_network(1,2) r(1,2) pair_network(3) pair_facts(5), of 4 5 2 3] pair_facts(4) by simp
  then show ?thesis using r by auto
qed

text \<open>Claim C7. What a completed run inserts besides branches is determined by the ids. The topology nodes are first
  those of equipment of connection nodes, each under the id of the connection node, and then one for each neutral
  point in service, in order; the other edges are, in order, one for each neutral point, those of the connection
  nodes with a changed id to their substations, and those of the connection nodes with an id to their equipment.\<close>

theorem run_insertions:
  assumes "subset_contract g" "run fuel g (init_alg g) = Some (Some a)"
    "run_start g (init_alg g) = Some (cnOpen, cn, a1)" "separate (equipment g) cn"
  shows "(\<exists>ns. insertedNodes a = ns @ map (neutral_node g) (g_sched g (neutral_points g)) \<and> list_all (topology_node g (top_id a) cn) ns)
    \<and> others (insertedEdges a) = derived_edges g (top_id a) cn"
  by (rule run_ids [OF assms]) blast

theorem run_insertions_witness:
  "\<exists>a. run 4 pair_graph (init_alg pair_graph) = Some (Some a) \<and> others (insertedEdges a) = derived_edges pair_graph (top_id a) [4, 5]
     \<and> length (others (insertedEdges a)) = 4 \<and> list_all (topology_node pair_graph (top_id a) [4, 5]) (insertedNodes a) \<and> insertedNodes a \<noteq> []"
proof -
  obtain a a1 where r: "run 4 pair_graph (init_alg pair_graph) = Some (Some a)"
    "run_start pair_graph (init_alg pair_graph) = Some ([4, 5], [4, 5], a1)"
    "length (insertedNodes a) = 1" "length (others (insertedEdges a)) = 4"
    by (rule pair_run)
  have "g_sched pair_graph (neutral_points pair_graph) = []" by code_simp
  then show ?thesis using run_insertions [OF pair_network(1) r(1,2) pair_network(3)] r by auto
qed

end
