(* ===== verification/Clusters.thy ===== *)
theory Clusters
  imports Propagation
begin

text \<open>
  What the propagation loop computes (\<^verbatim>\<open>src/src/yj/NetworkTopoProcedure.cpp\<close>, lines 267 to 309), against its
  specification: every connection node gets the highest topology id of its cluster, the connection nodes that
  closed switches join. If the loop ends, that is the result; it ends, for ids that are not negative, exactly when
  in each cluster the ids are zero or one common number.
\<close>

section \<open>Specification\<close>

text \<open>The closed switches next to the connection nodes \<open>cn\<close>. Their neighbours are the connection nodes of the set
  that have them as neighbours.\<close>

definition live :: "graph \<Rightarrow> NodeID list \<Rightarrow> NodeID set" where
  "live g cn = {s. closedSwitch g s \<and> (\<exists>u \<in> set cn. s \<in> set (switchNbrs g u))}"

definition switch_network :: "graph \<Rightarrow> NodeID list \<Rightarrow> bool" where
  "switch_network g cn \<longleftrightarrow> (\<forall>s \<in> live g cn. set (switchNbrs g s) = {u \<in> set cn. s \<in> set (switchNbrs g u)})"

definition joined :: "graph \<Rightarrow> NodeID list \<Rightarrow> (NodeID \<times> NodeID) set" where
  "joined g cn = {(u, v). \<exists>s \<in> live g cn. u \<in> set (switchNbrs g s) \<and> v \<in> set (switchNbrs g s)}"

definition cluster :: "graph \<Rightarrow> NodeID list \<Rightarrow> NodeID \<Rightarrow> NodeID set" where
  "cluster g cn u = {v. (u, v) \<in> (joined g cn)\<^sup>*}"

section \<open>One update\<close>

lemma add_int64_Some: "add_int64 x y = Some z \<Longrightarrow> sint z = sint x + sint y"
  by (auto simp: add_int64_def split: if_splits)

lemma add_int64_zero: "sint x = 0 \<Longrightarrow> add_int64 x y = Some y"
  using sint_eq_iff [of x 0] by (simp add: add_int64_def)

section \<open>One round\<close>

text \<open>Before a round no closed switch holds more than one of its nodes; between its halves each holds the highest id
  of its nodes.\<close>

definition bd_known :: "graph \<Rightarrow> NodeID list \<Rightarrow> alg \<Rightarrow> bool" where
  "bd_known g cn a \<longleftrightarrow> (\<forall>s \<in> live g cn. \<exists>u \<in> set (switchNbrs g s). bd_of a s \<le> topo_of a u)"

definition bd_highest :: "graph \<Rightarrow> NodeID list \<Rightarrow> alg \<Rightarrow> bool" where
  "bd_highest g cn b \<longleftrightarrow> (\<forall>s \<in> live g cn. (\<forall>u \<in> set (switchNbrs g s). topo_of b u \<le> bd_of b s)
     \<and> (\<exists>u \<in> set (switchNbrs g s). topo_of b u = bd_of b s))"

text \<open>The nodes a later round starts from: all those next to closed switches.\<close>

definition reached :: "graph \<Rightarrow> NodeID list \<Rightarrow> NodeID list \<Rightarrow> bool" where
  "reached g cn cn' \<longleftrightarrow> set cn' \<subseteq> set cn \<and> (\<forall>s \<in> live g cn. set (switchNbrs g s) \<subseteq> set cn')"

lemma live_nbrs:
  "switch_network g cn \<Longrightarrow> s \<in> live g cn \<Longrightarrow> u \<in> set (switchNbrs g s) \<longleftrightarrow> u \<in> set cn \<and> s \<in> set (switchNbrs g u)"
  unfolding switch_network_def by blast

lemma reached_self: "switch_network g cn \<Longrightarrow> reached g cn cn"
  unfolding reached_def switch_network_def by blast

lemma reached_live:
  assumes "switch_network g cn" "reached g cn cn'"
  shows "{s \<in> (\<Union>u \<in> set cn'. set (switchNbrs g u)). closedSwitch g s} = live g cn"
  using assms unfolding reached_def switch_network_def live_def by fastforce

lemma max64_cases: "sint (max64 old val) = max (sint old) (sint val)"
  by (auto simp: max64_def max_def)

lemma bdStep_known:
  assumes "switch_network g cn" "u \<in> set cn" "bd_known g cn a" "bdStep g u a = Some (r, b)"
  shows "bd_known g cn b"
proof -
  from assms(4) have f: "foldM (\<lambda>t a. do { st \<leftarrow> state a u; writeMax_bd t (maxTopoID st) a }) (switchNbrs g u) a = Some b"
    by (auto simp: bdStep_nbrs bind_Some_iff)
  show ?thesis using f assms(3)
  proof (rule foldM_invariant [where P = "bd_known g cn"])
    fix t d d'
    assume t: "t \<in> set (switchNbrs g u)" and k: "bd_known g cn d"
      and w: "(do { st \<leftarrow> state d u; writeMax_bd t (maxTopoID st) d }) = Some d'"
    have topo: "topo_of d' v = topo_of d v" for v
      using w by (auto simp: bind_Some_iff state_def writeMax_bd_def topo_of_def)
    have bd: "bd_of d' v = (if v = t then max (bd_of d t) (topo_of d u) else bd_of d v)" for v
      using w by (auto simp: bind_Some_iff state_def writeMax_bd_def topo_of_def bd_of_def max64_cases)
    show "bd_known g cn d'" unfolding bd_known_def
    proof
      fix s assume s: "s \<in> live g cn"
      obtain v where v: "v \<in> set (switchNbrs g s)" "bd_of d s \<le> topo_of d v" using k s by (auto simp: bd_known_def)
      show "\<exists>v \<in> set (switchNbrs g s). bd_of d' s \<le> topo_of d' v"
      proof (cases "s = t \<and> bd_of d t \<le> topo_of d u")
        case True
        then have "u \<in> set (switchNbrs g s)" using live_nbrs [OF assms(1) s, of u] t assms(2) by simp
        then show ?thesis using True by (intro bexI [of _ u]) (simp_all add: topo bd)
      next
        case False
        then show ?thesis using v by (intro bexI [of _ v]) (auto simp: topo bd)
      qed
    qed
  qed
qed

lemma bd_half:
  assumes "subset_contract g" "switch_network g cn" "reached g cn cn0" "bd_known g cn a" "vs_map g (bdStep g) cn0 a = Some (bd, b)"
  shows "topo_of b = topo_of a" "bd_highest g cn b" "{s \<in> set bd. closedSwitch g s} = live g cn"
proof -
  note p = bd_phase [OF assms(1,5)]
  show topo: "topo_of b = topo_of a" using p(1) by (auto simp: bd_frame_def)
  show "{s \<in> set bd. closedSwitch g s} = live g cn" using reached_live [OF assms(2,3)] p(2) by simp
  have "set (g_sched g cn0) \<subseteq> set cn" using assms(1,3) by (simp add: subset_contract_def reached_def)
  then have known: "bd_known g cn b"
    by (intro vs_map_invariant [where P = "bd_known g cn", OF assms(5,4)]) (auto intro: bdStep_known [OF assms(2)])
  have above: "topo_of b u \<le> bd_of b s" if "s \<in> live g cn" "u \<in> set (switchNbrs g s)" for s u
  proof (rule p(3))
    show "u \<in> set cn0" using assms(3) that by (auto simp: reached_def)
    show "s \<in> set (switchNbrs g u)" using live_nbrs [OF assms(2) that(1)] that(2) by simp
  qed
  show "bd_highest g cn b" unfolding bd_highest_def
  proof (intro ballI conjI)
    fix s assume s: "s \<in> live g cn"
    show "topo_of b u \<le> bd_of b s" if "u \<in> set (switchNbrs g s)" for u using above s that by simp
    obtain u where "u \<in> set (switchNbrs g s)" "bd_of b s \<le> topo_of b u" using known s by (auto simp: bd_known_def)
    then show "\<exists>u \<in> set (switchNbrs g s). topo_of b u = bd_of b s" using above [OF s] by (metis order_antisym)
  qed
qed

text \<open>What every update of the second half keeps, the half keeps.\<close>

lemma cn_half_invariant:
  assumes "subset_contract g" "{s \<in> set bd. closedSwitch g s} = live g cn" "vs_map g (cnStep g) bd x = Some (r, x')" "P x"
    and "\<And>s t x x'. s \<in> live g cn \<Longrightarrow> t \<in> set (switchNbrs g s) \<Longrightarrow> P x \<Longrightarrow> cnUpdate s t x = Some x' \<Longrightarrow> P x'"
  shows "P x'"
proof (rule vs_map_invariant [where P = P, OF assms(3,4)])
  fix s y zs y'
  assume s: "s \<in> set (g_sched g bd)" and y: "P y" "cnStep g s y = Some (zs, y')"
  show "P y'"
  proof (cases "closedSwitch g s")
    case True
    then have "s \<in> live g cn" using s assms(1,2) by (auto simp: subset_contract_def)
    moreover have "foldM (cnUpdate s) (switchNbrs g s) y = Some y'" using y(2) True by (auto simp: cnStep_closed bind_Some_iff)
    ultimately show ?thesis using y(1) assms(5) by (blast intro: foldM_invariant [where P = P])
  next
    case False
    then show ?thesis using y by (auto simp: cnStep_def closedSwitch_def bind_Some_iff)
  qed
qed

text \<open>How the second half changes the ids: a node keeps its id, or is raised by a switch that held more than its id. A
  positive id is raised above what that switch held, any other one to at most that, unless it is positive.\<close>

definition raised_by :: "graph \<Rightarrow> NodeID list \<Rightarrow> alg \<Rightarrow> NodeID \<Rightarrow> NodeID \<Rightarrow> bool" where
  "raised_by g cn b t s \<longleftrightarrow> s \<in> live g cn \<and> t \<in> set (switchNbrs g s) \<and> topo_of b t < bd_of b s"

definition raised_to :: "graph \<Rightarrow> NodeID list \<Rightarrow> alg \<Rightarrow> NodeID \<Rightarrow> int \<Rightarrow> bool" where
  "raised_to g cn b t x \<longleftrightarrow> topo_of b t \<le> x
     \<and> (x = topo_of b t \<or> (\<exists>s. raised_by g cn b t s \<and> (0 < bd_of b s \<or> x \<le> bd_of b s)))
     \<and> (x = topo_of b t \<or> topo_of b t \<le> 0 \<or> (\<exists>s. raised_by g cn b t s \<and> bd_of b s < x))"

definition half_done :: "graph \<Rightarrow> NodeID list \<Rightarrow> alg \<Rightarrow> alg \<Rightarrow> bool" where
  "half_done g cn b d \<longleftrightarrow> bd_of d = bd_of b \<and> (\<forall>t. t \<notin> set cn \<longrightarrow> topo_of d t = topo_of b t)
     \<and> (\<forall>t \<in> set cn. raised_to g cn b t (topo_of d t))"

lemma writeMax_topo_of:
  assumes "writeMax_topo t n d = Some d'"
  shows "bd_of d' = bd_of d" "v \<noteq> t \<Longrightarrow> topo_of d' v = topo_of d v" "topo_of d' t = max (topo_of d t) (sint n)"
  using assms by (auto simp: writeMax_topo_def bd_of_def topo_of_def max64_cases)

lemma cnUpdate_values:
  assumes "cnUpdate s t (d, c) = Some (d', c')" "-1 \<le> topo_of d t"
  shows "bd_of d' = bd_of d" "v \<noteq> t \<Longrightarrow> topo_of d' v = topo_of d v"
    "bd_of d s \<le> topo_of d t \<and> topo_of d' t = topo_of d t \<and> c' = c
      \<or> topo_of d t < bd_of d s \<and> topo_of d t \<le> topo_of d' t \<and> topo_of d' t = topo_of d t + bd_of d s"
proof -
  obtain ss st where st: "states d s = Some ss" "states d t = Some st"
    and d': "if sint (maxTopoID st) < sint (maxBDID ss)
      then \<exists>n. add_int64 (maxTopoID st) (maxBDID ss) = Some n \<and> writeMax_topo t n d = Some d' else d' = d \<and> c' = c"
    using assms(1) by (auto simp: cnUpdate_def bind_Some_iff state_def split: if_splits)
  show "bd_of d' = bd_of d" "v \<noteq> t \<Longrightarrow> topo_of d' v = topo_of d v"
    using d' by (auto dest: writeMax_topo_of split: if_splits)
  show "bd_of d s \<le> topo_of d t \<and> topo_of d' t = topo_of d t \<and> c' = c
      \<or> topo_of d t < bd_of d s \<and> topo_of d t \<le> topo_of d' t \<and> topo_of d' t = topo_of d t + bd_of d s"
    using d' assms(2) st
    by (auto dest!: add_int64_Some writeMax_topo_of(3) simp: topo_of_def bd_of_def split: if_splits)
qed

lemma half_done_refl: "half_done g cn b b"
  by (simp add: half_done_def raised_to_def)

text \<open>A switch \<open>s\<close> that was above its node \<open>t\<close> adds its id to an id \<open>y\<close> that \<open>t\<close> has had, and writes the sum if it is
  higher.\<close>

lemma half_done_raise:
  assumes "half_done g cn b d" "raised_by g cn b t s" "t \<in> set cn" "-1 \<le> topo_of b t" "topo_of b t \<le> y" "y \<le> topo_of d t"
    and "bd_of d' = bd_of d" "\<And>v. v \<noteq> t \<Longrightarrow> topo_of d' v = topo_of d v" "topo_of d' t = max (topo_of d t) (y + bd_of b s)"
  shows "half_done g cn b d'"
proof -
  have r: "topo_of b t < bd_of b s" using assms(2) by (simp add: raised_by_def)
  have d: "raised_to g cn b t (topo_of d t)" using assms(1,3) by (simp add: half_done_def)
  have "topo_of d' t = topo_of b t \<or> (\<exists>s. raised_by g cn b t s \<and> (0 < bd_of b s \<or> topo_of d' t \<le> bd_of b s))"
  proof (cases "0 < bd_of b s")
    case False
    then have "topo_of d' t = topo_of d t" using assms(6,9) by simp
    then show ?thesis using d by (simp add: raised_to_def)
  qed (use assms(2) in blast)
  moreover have "topo_of b t \<le> 0 \<or> (\<exists>s. raised_by g cn b t s \<and> bd_of b s < topo_of d' t)"
  proof (cases "0 < topo_of b t")
    case True
    then have "bd_of b s < topo_of d' t" using assms(5,9) by simp
    then show ?thesis using assms(2) by blast
  qed simp
  moreover have "topo_of b t \<le> topo_of d' t" using assms(9) d by (simp add: raised_to_def le_max_iff_disj)
  ultimately have t: "raised_to g cn b t (topo_of d' t)" by (simp add: raised_to_def)
  have "raised_to g cn b v (topo_of d' v)" if "v \<in> set cn" for v
    using that t assms(1,8) by (cases "v = t") (auto simp: half_done_def)
  moreover have "topo_of d' v = topo_of b v" if "v \<notin> set cn" for v
    using that assms(1,3) assms(8) [of v] by (auto simp: half_done_def)
  ultimately show ?thesis using assms(1,7) by (simp add: half_done_def)
qed

lemma half_done_update:
  assumes "switch_network g cn" "\<forall>v \<in> set cn. -1 \<le> topo_of b v" "s \<in> live g cn" "t \<in> set (switchNbrs g s)"
    "half_done g cn b d" "cnUpdate s t (d, c) = Some (d', c')"
  shows "half_done g cn b d'"
proof -
  have t: "t \<in> set cn" using live_nbrs [OF assms(1,3)] assms(4) by simp
  then have d: "bd_of d = bd_of b" "topo_of b t \<le> topo_of d t" "-1 \<le> topo_of b t" using assms(2,5) by (auto simp: half_done_def raised_to_def)
  then have "-1 \<le> topo_of d t" by simp
  note u = cnUpdate_values [OF assms(6) this]
  show ?thesis
  proof (cases "topo_of d' t = topo_of d t")
    case True
    then have "topo_of d' = topo_of d" using u(2) by (metis ext)
    then show ?thesis using assms(5) u(1) by (simp add: half_done_def raised_to_def)
  next
    case False
    then have "raised_by g cn b t s" "topo_of d' t = max (topo_of d t) (topo_of d t + bd_of b s)"
      using u(3) d assms(3,4) by (auto simp: raised_by_def)
    then show ?thesis using half_done_raise [OF assms(5) _ t d(3,2) order_refl u(1)] u(2) by blast
  qed
qed

lemma cn_half:
  assumes "subset_contract g" "switch_network g cn" "\<forall>v \<in> set cn. -1 \<le> topo_of b v" "{s \<in> set bd. closedSwitch g s} = live g cn"
    "vs_map g (cnStep g) bd (b, c) = Some (r, a', c')"
  shows "half_done g cn b a'"
proof -
  have "half_done g cn b (fst (a', c'))"
    by (rule cn_half_invariant [OF assms(1,4,5), where P = "\<lambda>x. half_done g cn b (fst x)"])
       (auto simp: half_done_refl dest: half_done_update [OF assms(2,3)])
  then show ?thesis by simp
qed

section \<open>Clashes stay\<close>

text \<open>A closed switch between two different positive ids.\<close>

definition clash :: "graph \<Rightarrow> NodeID list \<Rightarrow> alg \<Rightarrow> bool" where
  "clash g cn a \<longleftrightarrow> (\<exists>s \<in> live g cn. \<exists>u \<in> set (switchNbrs g s). \<exists>v \<in> set (switchNbrs g s). 0 < topo_of a u \<and> topo_of a u < topo_of a v)"

lemma clashI:
  "s \<in> live g cn \<Longrightarrow> u \<in> set (switchNbrs g s) \<Longrightarrow> v \<in> set (switchNbrs g s) \<Longrightarrow> 0 < topo_of a u \<Longrightarrow> 0 < topo_of a v
     \<Longrightarrow> topo_of a u \<noteq> topo_of a v \<Longrightarrow> clash g cn a"
  unfolding clash_def by (cases "topo_of a u" "topo_of a v" rule: linorder_cases) blast+

lemma raised_byD:
  assumes "bd_highest g cn b" "raised_by g cn b t s"
  obtains v where "s \<in> live g cn" "t \<in> set (switchNbrs g s)" "v \<in> set (switchNbrs g s)" "topo_of b v = bd_of b s" "topo_of b t < topo_of b v"
  using assms unfolding bd_highest_def raised_by_def by metis

definition half_round :: "graph \<Rightarrow> NodeID list \<Rightarrow> alg \<Rightarrow> alg \<Rightarrow> bool" where
  "half_round g cn b a \<longleftrightarrow> switch_network g cn \<and> bd_highest g cn b \<and> half_done g cn b a"

lemma half_roundD:
  assumes "half_round g cn b a"
  shows "switch_network g cn" "bd_highest g cn b" "half_done g cn b a"
  using assms by (simp_all add: half_round_def)

lemma nbr_grows:
  "half_round g cn b a \<Longrightarrow> s \<in> live g cn \<Longrightarrow> t \<in> set (switchNbrs g s) \<Longrightarrow> topo_of b t \<le> topo_of a t"
  using live_nbrs by (auto simp: half_round_def half_done_def raised_to_def)

lemma positive_raised:
  assumes h: "half_round g cn b a" and as: "s \<in> live g cn" "t \<in> set (switchNbrs g s)" "0 < topo_of b t" "topo_of a t \<noteq> topo_of b t"
  obtains s' v where "s' \<in> live g cn" "t \<in> set (switchNbrs g s')" "v \<in> set (switchNbrs g s')"
    "topo_of b t < topo_of b v" "topo_of b v < topo_of a t"
proof -
  have "t \<in> set cn" using as(1,2) live_nbrs [OF half_roundD(1) [OF h]] by simp
  then obtain s' where "raised_by g cn b t s'" "bd_of b s' < topo_of a t" using half_roundD(3) [OF h] as(3,4) unfolding half_done_def raised_to_def by force
  then show ?thesis using that raised_byD [OF half_roundD(2) [OF h]] by metis
qed

text \<open>A node below a neighbour that ends at \<open>M\<close> ends elsewhere, or has itself been raised by such a node above it.\<close>

lemma clash_chain:
  assumes h: "half_round g cn b a" and as: "s \<in> live g cn" "v \<in> set (switchNbrs g s)" "y \<in> set (switchNbrs g s)" "0 < topo_of b v" "topo_of b v < M" "topo_of a y = M"
  shows "clash g cn a"
  using as
proof (induction "nat (M - topo_of b v)" arbitrary: s v y rule: less_induct)
  case less
  show ?case
  proof (cases "topo_of a v = M")
    case False
    have "0 < topo_of a v" using nbr_grows [OF h less.prems(1,2)] less.prems(4) by simp
    then show ?thesis using clashI [OF less.prems(1-3)] less.prems(4-6) False by simp
  next
    case True
    then obtain s' v' where v': "s' \<in> live g cn" "v \<in> set (switchNbrs g s')" "v' \<in> set (switchNbrs g s')"
        "topo_of b v < topo_of b v'" "topo_of b v' < M"
      using positive_raised [OF h less.prems(1,2,4)] less.prems(5) by auto
    show ?thesis by (rule less.hyps [OF _ v'(1,3,2)]) (use v' less.prems True in auto)
  qed
qed

lemma clash_stays:
  assumes h: "half_round g cn b a" and as: "clash g cn b"
  shows "clash g cn a"
proof -
  define H where "H = {topo_of b u | u. \<exists>s \<in> live g cn. u \<in> set (switchNbrs g s) \<and> (\<exists>v \<in> set (switchNbrs g s). 0 < topo_of b v \<and> topo_of b v < topo_of b u)}"
  have H: "x \<in> H \<longleftrightarrow> (\<exists>u. x = topo_of b u \<and> (\<exists>s \<in> live g cn. u \<in> set (switchNbrs g s) \<and> (\<exists>v \<in> set (switchNbrs g s). 0 < topo_of b v \<and> topo_of b v < topo_of b u)))" for x
    by (auto simp: H_def)
  have "H \<subseteq> topo_of b ` set cn" using live_nbrs [OF half_roundD(1) [OF h]] by (auto simp: H)
  then have fin: "finite H" by (rule finite_subset) simp
  obtain s0 u0 v0 where "s0 \<in> live g cn" "v0 \<in> set (switchNbrs g s0)" "u0 \<in> set (switchNbrs g s0)" "0 < topo_of b u0" "topo_of b u0 < topo_of b v0"
    using as unfolding clash_def by blast
  then have "topo_of b v0 \<in> H" unfolding H by blast
  then have ne: "H \<noteq> {}" by blast
  obtain u s v where u: "s \<in> live g cn" "u \<in> set (switchNbrs g s)" "v \<in> set (switchNbrs g s)" "0 < topo_of b v"
      "topo_of b v < topo_of b u" "topo_of b u = Max H"
    using Max_in [OF fin ne] unfolding H by metis
  have "topo_of a u = topo_of b u"
  proof (rule ccontr)
    assume "topo_of a u \<noteq> topo_of b u"
    then obtain s' w where "s' \<in> live g cn" "u \<in> set (switchNbrs g s')" "w \<in> set (switchNbrs g s')" "topo_of b u < topo_of b w"
      using positive_raised [OF h u(1,2)] u(4,5) by (metis order_less_trans)
    then have "topo_of b w \<in> H" unfolding H using u(4,5) by (blast intro: order_less_trans)
    then show False using Max_ge [OF fin] u(6) \<open>topo_of b u < topo_of b w\<close> by fastforce
  qed
  then show ?thesis using clash_chain [OF h u(1,3,2,4,5)] by simp
qed

text \<open>Without a clash afterwards, positive ids stay and no id gets above those around it.\<close>

lemma no_clash_positive:
  assumes h: "half_round g cn b a" and as: "\<not> clash g cn a" "t \<in> set cn" "0 < topo_of b t"
  shows "topo_of a t = topo_of b t"
proof (rule ccontr)
  assume n: "topo_of a t \<noteq> topo_of b t"
  then obtain s where "raised_by g cn b t s" using half_roundD(3) [OF h] as(2) unfolding half_done_def raised_to_def by metis
  then obtain v where "s \<in> live g cn" "t \<in> set (switchNbrs g s)" "v \<in> set (switchNbrs g s)" "topo_of b t < topo_of b v"
    by (rule raised_byD [OF half_roundD(2) [OF h]])
  then have "clash g cn b" using as(3) unfolding clash_def by blast
  then show False using clash_stays [OF h] as(1) by simp
qed

lemma no_clash_bounded:
  assumes h: "half_round g cn b a" and as: "\<not> clash g cn a" "t \<in> set cn"
  shows "topo_of a t = topo_of b t \<or> (\<exists>s \<in> live g cn. t \<in> set (switchNbrs g s) \<and> (\<exists>v \<in> set (switchNbrs g s). topo_of a t \<le> topo_of b v))"
proof (cases "topo_of a t = topo_of b t")
  case False
  then obtain s where s: "raised_by g cn b t s" "0 < bd_of b s \<or> topo_of a t \<le> bd_of b s" using half_roundD(3) [OF h] as(2) unfolding half_done_def raised_to_def by metis
  obtain v where v: "s \<in> live g cn" "t \<in> set (switchNbrs g s)" "v \<in> set (switchNbrs g s)" "topo_of b v = bd_of b s"
    using raised_byD [OF half_roundD(2) [OF h] s(1)] by metis
  have "topo_of a t \<le> topo_of b v"
  proof (rule ccontr)
    assume "\<not> topo_of a t \<le> topo_of b v"
    then have "0 < topo_of b v" "topo_of b v < topo_of a t" using s(2) v(4) by auto
    moreover have "topo_of a v = topo_of b v" using no_clash_positive [OF h as(1)] calculation(1) live_nbrs [OF half_roundD(1) [OF h] v(1)] v(3) by simp
    ultimately show False using as(1) clashI [OF v(1,3,2)] by simp
  qed
  then show ?thesis using v by blast
qed simp

section \<open>A round\<close>

definition ready :: "graph \<Rightarrow> NodeID list \<Rightarrow> NodeID list \<Rightarrow> alg \<Rightarrow> bool" where
  "ready g cn cn0 a \<longleftrightarrow> reached g cn cn0 \<and> bd_known g cn a \<and> (\<forall>v \<in> set cn. -1 \<le> topo_of a v)"

text \<open>A round that starts from the ids of \<open>a\<close> has two halves, and the next round can start.\<close>

definition in_halves :: "graph \<Rightarrow> NodeID list \<Rightarrow> alg \<Rightarrow> NodeID list \<Rightarrow> alg \<Rightarrow> bool" where
  "in_halves g cn a cn1 a' \<longleftrightarrow> ready g cn cn1 a' \<and> (\<exists>b. topo_of b = topo_of a \<and> half_round g cn b a')"

lemma in_halvesI:
  assumes h: "half_round g cn b a'" and as: "topo_of b = topo_of a" "\<forall>v \<in> set cn. -1 \<le> topo_of a v"
    "set cn1 = (\<Union>s \<in> live g cn. set (switchNbrs g s))"
  shows "in_halves g cn a cn1 a'"
proof -
  note d = half_roundD(3) [OF h]
  have "reached g cn cn1" using live_nbrs [OF half_roundD(1) [OF h]] as(3) by (auto simp: reached_def)
  moreover have "\<exists>u \<in> set (switchNbrs g s). bd_of a' s \<le> topo_of a' u" if s: "s \<in> live g cn" for s
  proof -
    obtain u where u: "u \<in> set (switchNbrs g s)" "topo_of b u = bd_of b s"
      using half_roundD(2) [OF h] s unfolding bd_highest_def by metis
    then show ?thesis using nbr_grows [OF h s u(1)] d by (auto simp: half_done_def intro!: bexI [of _ u])
  qed
  moreover have "-1 \<le> topo_of a' v" if "v \<in> set cn" for v
    using d as(1,2) that by (force simp: half_done_def raised_to_def)
  ultimately show ?thesis using h as(1) by (auto simp: in_halves_def ready_def bd_known_def)
qed

text \<open>The second half starts from the closed switches beside the connection nodes.\<close>

lemma round_first_half:
  assumes "subset_contract g" "switch_network g cn" "ready g cn cn0 a" "vs_map g (bdStep g) cn0 a = Some (bd, b)"
  shows "topo_of b = topo_of a" "bd_highest g cn b" "{s \<in> set bd. closedSwitch g s} = live g cn" "\<forall>v \<in> set cn. -1 \<le> topo_of b v"
  using bd_half [OF assms(1,2) _ _ assms(4)] assms(3) by (auto simp: ready_def)

lemma round_halves:
  assumes "subset_contract g" "switch_network g cn" "ready g cn cn0 a" "propagate_round g cn0 a c = Some (cn1, a', c')"
  shows "in_halves g cn a cn1 a'"
proof -
  obtain bd b where bd: "vs_map g (bdStep g) cn0 a = Some (bd, b)" and cn: "vs_map g (cnStep g) bd (b, c) = Some (cn1, a', c')"
    using assms(4) by (auto simp: propagate_round_def bind_Some_iff)
  note b = round_first_half [OF assms(1-3) bd]
  have h: "half_round g cn b a'" using cn_half [OF assms(1,2) b(4,3) cn] assms(2) b(2) by (simp add: half_round_def)
  have "set cn1 = (\<Union>s \<in> set bd. if closedSwitch g s then set (switchNbrs g s) else {})"
    by (rule vs_map_result [OF assms(1) cn]) (rule cn_phase_targets)
  also have "\<dots> = (\<Union>s \<in> live g cn. set (switchNbrs g s))" unfolding b(3) [symmetric] by auto
  finally show ?thesis using in_halvesI [OF h b(1)] b(1,4) by simp
qed

definition within :: "graph \<Rightarrow> NodeID list \<Rightarrow> alg \<Rightarrow> alg \<Rightarrow> bool" where
  "within g cn a a' \<longleftrightarrow> (\<forall>t. t \<notin> set cn \<longrightarrow> topo_of a' t = topo_of a t) \<and> (\<forall>t \<in> set cn. topo_of a t \<le> topo_of a' t
     \<and> (0 < topo_of a t \<longrightarrow> topo_of a' t = topo_of a t) \<and> (\<exists>v \<in> cluster g cn t. topo_of a' t \<le> topo_of a v))"

lemma cluster_refl: "u \<in> cluster g cn u"
  by (simp add: cluster_def)

lemma cluster_step: "v \<in> cluster g cn u \<Longrightarrow> (v, w) \<in> joined g cn \<Longrightarrow> w \<in> cluster g cn u"
  by (auto simp: cluster_def)

lemma cluster_trans: "v \<in> cluster g cn u \<Longrightarrow> w \<in> cluster g cn v \<Longrightarrow> w \<in> cluster g cn u"
  by (auto simp: cluster_def)

lemma joined_sub: "switch_network g cn \<Longrightarrow> (u, v) \<in> joined g cn \<Longrightarrow> u \<in> set cn \<and> v \<in> set cn"
  using live_nbrs by (auto simp: joined_def)

lemma cluster_sub: "switch_network g cn \<Longrightarrow> u \<in> set cn \<Longrightarrow> cluster g cn u \<subseteq> set cn"
proof
  fix v assume n: "switch_network g cn" and "u \<in> set cn" "v \<in> cluster g cn u"
  then have "(u, v) \<in> (joined g cn)\<^sup>*" by (simp add: cluster_def)
  then show "v \<in> set cn" using \<open>u \<in> set cn\<close> by induction (use joined_sub [OF n] in auto)
qed

lemma halves_within:
  assumes "in_halves g cn a cn1 a'"
  shows "ready g cn cn1 a'" "clash g cn a \<Longrightarrow> clash g cn a'" "\<not> clash g cn a' \<Longrightarrow> within g cn a a'"
proof -
  obtain b where b: "topo_of b = topo_of a" "half_round g cn b a'" using assms by (auto simp: in_halves_def)
  show "ready g cn cn1 a'" using assms by (simp add: in_halves_def)
  show "clash g cn a'" if "clash g cn a"
    using that by (intro clash_stays [OF b(2)]) (simp add: clash_def b(1))
  show "within g cn a a'" if n: "\<not> clash g cn a'"
    unfolding within_def
  proof (intro conjI ballI allI impI)
    show "topo_of a' t = topo_of a t" if "t \<notin> set cn" for t using half_roundD(3) [OF b(2)] that b(1) by (simp add: half_done_def)
    fix t assume t: "t \<in> set cn"
    show "topo_of a t \<le> topo_of a' t" using half_roundD(3) [OF b(2)] t b(1) by (simp add: half_done_def raised_to_def)
    show "topo_of a' t = topo_of a t" if "0 < topo_of a t" using no_clash_positive [OF b(2) n t] that b(1) by simp
    show "\<exists>v \<in> cluster g cn t. topo_of a' t \<le> topo_of a v"
      using no_clash_bounded [OF b(2) n t] b(1) cluster_refl [of t g cn] cluster_step [OF cluster_refl [of t g cn]]
      by (auto simp: joined_def)
  qed
qed

lemma within_refl: "within g cn a a"
  using cluster_refl by (auto simp: within_def)

lemma within_trans:
  assumes "switch_network g cn" "within g cn a b" "within g cn b c"
  shows "within g cn a c"
  unfolding within_def
proof (intro conjI ballI allI impI)
  show "topo_of c t = topo_of a t" if "t \<notin> set cn" for t using assms(2,3) that by (simp add: within_def)
  fix t assume t: "t \<in> set cn"
  show "topo_of a t \<le> topo_of c t" using assms(2,3) t by (force simp: within_def)
  show "topo_of c t = topo_of a t" if "0 < topo_of a t" using assms(2,3) t that by (simp add: within_def)
  obtain v where v: "v \<in> cluster g cn t" "topo_of c t \<le> topo_of b v" using assms(3) t unfolding within_def by blast
  then have "v \<in> set cn" using cluster_sub [OF assms(1) t] by blast
  then obtain w where "w \<in> cluster g cn v" "topo_of b v \<le> topo_of a w" using assms(2) unfolding within_def by blast
  then show "\<exists>v \<in> cluster g cn t. topo_of c t \<le> topo_of a v" using v cluster_trans by (meson order_trans)
qed

definition common_ids :: "graph \<Rightarrow> NodeID list \<Rightarrow> alg \<Rightarrow> bool" where
  "common_ids g cn a \<longleftrightarrow> (\<forall>u \<in> set cn. \<forall>v \<in> cluster g cn u. 0 < topo_of a u \<longrightarrow> 0 < topo_of a v \<longrightarrow> topo_of a u = topo_of a v)"

lemma ready_start: "switch_network g cn \<Longrightarrow> bd_known g cn a \<Longrightarrow> \<forall>v \<in> set cn. -1 \<le> topo_of a v \<Longrightarrow> ready g cn cn a"
  by (simp add: ready_def reached_self)

section \<open>The loop\<close>

text \<open>The executions of the loop that end, for rounds given as a relation.\<close>

inductive loop_run ::
  "(NodeID list \<Rightarrow> alg \<Rightarrow> int32 \<Rightarrow> NodeID list \<times> alg \<times> int32 \<Rightarrow> bool)
    \<Rightarrow> NodeID list \<Rightarrow> alg \<Rightarrow> int32 \<Rightarrow> int32 \<Rightarrow> NodeID list \<times> alg \<Rightarrow> bool" for rnd where
  stop: "loop_run rnd cn a c c (cn, a)"
| again: "\<lbrakk>old \<noteq> c; rnd cn a c (cn1, a1, c1); loop_run rnd cn1 a1 c c1 r\<rbrakk> \<Longrightarrow> loop_run rnd cn a old c r"

inductive_cases loop_stopE: "loop_run rnd cn a c c r"

text \<open>What the loop needs of a round: it has two halves, and one that leaves the counter as it was finds every closed
  switch settled.\<close>

locale propagation_rounds =
  fixes rnd :: "graph \<Rightarrow> NodeID list \<Rightarrow> alg \<Rightarrow> int32 \<Rightarrow> NodeID list \<times> alg \<times> int32 \<Rightarrow> bool"
  assumes halves: "\<lbrakk>subset_contract g; switch_network g cn; ready g cn cn0 a; rnd g cn0 a c (cn1, a', c')\<rbrakk>
      \<Longrightarrow> in_halves g cn a cn1 a'"
    and quiet: "\<lbrakk>subset_contract g; bounded_rounds g; rnd g cn0 a c (cn1, a', c); u \<in> set cn0; s \<in> set (switchNbrs g u);
      closedSwitch g s; t \<in> set (switchNbrs g s)\<rbrakk> \<Longrightarrow> topo_of a' u \<le> topo_of a' t"
begin

lemma loop_within:
  assumes "subset_contract g" "switch_network g cn"
  shows "loop_run (rnd g) cn0 a old c r \<Longrightarrow> ready g cn cn0 a \<Longrightarrow> \<not> clash g cn (snd r)
    \<Longrightarrow> \<not> clash g cn a \<and> within g cn a (snd r)"
proof (induction rule: loop_run.induct)
  case (again old c cn0 a cn1 a1 c1 r)
  note w = halves_within [OF halves [OF assms again.prems(1) again.hyps(2)]]
  then have "\<not> clash g cn a1 \<and> within g cn a1 (snd r)" using again.IH again.prems(2) by blast
  then show ?case using w(2,3) within_trans [OF assms(2)] by blast
qed (simp add: within_refl)

lemma loop_switch:
  assumes "subset_contract g" "bounded_rounds g" "switch_network g cn" "s \<in> live g cn" "u \<in> set (switchNbrs g s)" "v \<in> set (switchNbrs g s)"
  shows "loop_run (rnd g) cn0 a old c r \<Longrightarrow> ready g cn cn0 a \<Longrightarrow> old \<noteq> c \<Longrightarrow> topo_of (snd r) u \<le> topo_of (snd r) v"
proof (induction rule: loop_run.induct)
  case (again old c cn0 a cn1 a1 c1 r)
  show ?case
  proof (cases "c1 = c")
    case True
    then have "r = (cn1, a1)" using again.hyps(3) by (auto elim: loop_run.cases)
    moreover have "u \<in> set cn0" using again.prems(1) assms(4,5) by (auto simp: ready_def reached_def)
    moreover have "s \<in> set (switchNbrs g u)" "closedSwitch g s" using assms(4) live_nbrs [OF assms(3,4)] assms(5) by (auto simp: live_def)
    ultimately show ?thesis using quiet [OF assms(1,2) again.hyps(2) [unfolded True]] assms(6) by simp
  next
    case False
    then show ?thesis using again.IH halves_within(1) [OF halves [OF assms(1,3) again.prems(1) again.hyps(2)]] by simp
  qed
qed simp

lemma loop_uniform:
  assumes "subset_contract g" "bounded_rounds g" "switch_network g cn" "ready g cn cn0 a" "loop_run (rnd g) cn0 a old c r" "old \<noteq> c"
    and "(u, v) \<in> (joined g cn)\<^sup>*"
  shows "topo_of (snd r) u = topo_of (snd r) v"
  using assms(7)
proof induction
  case (step v w)
  then obtain s where s: "s \<in> live g cn" "v \<in> set (switchNbrs g s)" "w \<in> set (switchNbrs g s)" by (auto simp: joined_def)
  note sw = loop_switch [OF assms(1-3) s(1) _ _ assms(5,4,6)]
  have "topo_of (snd r) v = topo_of (snd r) w" using sw [OF s(2,3)] sw [OF s(3,2)] by simp
  then show ?case using step.IH by simp
qed simp

lemma loop_result:
  assumes "subset_contract g" "bounded_rounds g" "switch_network g cn" "ready g cn cn0 a" "loop_run (rnd g) cn0 a old c r" "old \<noteq> c"
  shows "\<not> clash g cn a" "within g cn a (snd r)"
proof -
  have "\<not> clash g cn (snd r)"
  proof
    assume "clash g cn (snd r)"
    then obtain u v where "(u, v) \<in> joined g cn" "topo_of (snd r) u < topo_of (snd r) v" unfolding clash_def joined_def by blast
    then show False using loop_uniform [OF assms, of u v] by auto
  qed
  then show "\<not> clash g cn a" "within g cn a (snd r)" using loop_within [OF assms(1,3,5,4)] by simp_all
qed

lemma loop_max:
  assumes "subset_contract g" "bounded_rounds g" "switch_network g cn" "ready g cn cn0 a" "loop_run (rnd g) cn0 a old c r" "old \<noteq> c" "u \<in> set cn"
  shows "topo_of (snd r) u = Max (topo_of a ` cluster g cn u)"
proof -
  note w = loop_result(2) [OF assms(1-6)]
  have fin: "finite (topo_of a ` cluster g cn u)" using cluster_sub [OF assms(3,7)] by (simp add: finite_subset)
  have up: "topo_of a v \<le> topo_of (snd r) u" if "v \<in> cluster g cn u" for v
  proof -
    have "topo_of (snd r) u = topo_of (snd r) v" using loop_uniform [OF assms(1-6)] that by (simp add: cluster_def)
    moreover have "v \<in> set cn" using cluster_sub [OF assms(3,7)] that by blast
    ultimately show ?thesis using w by (simp add: within_def)
  qed
  obtain v where v: "v \<in> cluster g cn u" "topo_of (snd r) u \<le> topo_of a v" using w assms(7) unfolding within_def by blast
  then have "topo_of (snd r) u = topo_of a v" using up by (simp add: order_antisym)
  then show ?thesis using v(1) up fin by (intro Max_eqI [symmetric]) auto
qed

lemma loop_cluster_max:
  assumes "subset_contract g" "bounded_rounds g" "switch_network g cn" "ready g cn cn0 a" "loop_run (rnd g) cn0 a old c r" "old \<noteq> c"
  shows "topo_of (snd r) v = (if v \<in> set cn then Max (topo_of a ` cluster g cn v) else topo_of a v)"
  using loop_max [OF assms] loop_result(2) [OF assms] by (simp add: within_def)

lemma loop_common:
  assumes "subset_contract g" "bounded_rounds g" "switch_network g cn" "ready g cn cn0 a" "loop_run (rnd g) cn0 a old c r" "old \<noteq> c"
  shows "common_ids g cn a"
  unfolding common_ids_def
proof (intro ballI impI)
  fix u v assume u: "u \<in> set cn" and v: "v \<in> cluster g cn u" and p: "0 < topo_of a u" "0 < topo_of a v"
  note w = loop_result(2) [OF assms]
  have "v \<in> set cn" using cluster_sub [OF assms(3) u] v by blast
  then have "topo_of (snd r) u = topo_of a u" "topo_of (snd r) v = topo_of a v" using w u p by (auto simp: within_def)
  then show "topo_of a u = topo_of a v" using loop_uniform [OF assms, of u v] v by (simp add: cluster_def)
qed

end

section \<open>The loop with rounds in sequence\<close>

interpretation sequential: propagation_rounds "\<lambda>g cn a c r. propagate_round g cn a c = Some r"
  by unfold_locales (auto intro: round_halves round_unchanged)

lemma propagate_loop_run:
  "propagate_loop fuel g cn a old c = Some (Some r) \<Longrightarrow> loop_run (\<lambda>cn a c r. propagate_round g cn a c = Some r) cn a old c r"
  by (induction fuel arbitrary: cn a old c)
     (auto split: if_splits option.splits intro: loop_run.intros)

lemma propagate_run:
  "propagate fuel g cn a = Some (Some r) \<Longrightarrow> loop_run (\<lambda>cn a c r. propagate_round g cn a c = Some r) cn a 1 0 r"
  by (simp add: propagate_def propagate_loop_run)

lemma propagate_max:
  assumes "subset_contract g" "bounded_rounds g" "switch_network g cn" "bd_known g cn a" "\<forall>v \<in> set cn. -1 \<le> topo_of a v"
    and "propagate fuel g cn a = Some (Some (cn', a'))" "u \<in> set cn"
  shows "topo_of a' u = Max (topo_of a ` cluster g cn u)"
  using sequential.loop_max [OF assms(1-3) ready_start [OF assms(3-5)] propagate_run [OF assms(6)] one_neq_zero assms(7)] by simp

lemma common_ids_end:
  assumes "subset_contract g" "bounded_rounds g" "switch_network g cn" "bd_known g cn a" "\<forall>v \<in> set cn. -1 \<le> topo_of a v"
    and "propagate fuel g cn a = Some (Some r)"
  shows "common_ids g cn a"
  using sequential.loop_common [OF assms(1-3) ready_start [OF assms(3-5)] propagate_run [OF assms(6)] one_neq_zero] by simp

section \<open>Termination\<close>

text \<open>Every state and every position that a round reads exists.\<close>

definition readable_network :: "graph \<Rightarrow> NodeID list \<Rightarrow> alg \<Rightarrow> bool" where
  "readable_network g cn a \<longleftrightarrow> (\<forall>u \<in> set cn. states a u \<noteq> None \<and> (\<forall>s \<in> set (switchNbrs g u). readable g a s))"

lemma readable_dom: "dom (states b) = dom (states a) \<Longrightarrow> readable_network g cn a \<Longrightarrow> readable_network g cn b"
  by (auto simp: readable_network_def readable_def dom_def set_eq_iff)

lemma foldM_total:
  assumes "P a" "\<And>x a. x \<in> set xs \<Longrightarrow> P a \<Longrightarrow> \<exists>a'. f x a = Some a' \<and> P a'"
  shows "\<exists>a'. foldM f xs a = Some a' \<and> P a'"
  using assms
proof (induction xs arbitrary: a)
  case (Cons x xs)
  obtain b where b: "f x a = Some b" "P b" using Cons.prems by (metis list.set_intros(1))
  then show ?case using Cons.IH [OF b(2)] Cons.prems(2) by simp
qed simp

lemma vs_map_total:
  assumes "P a" "\<And>x a. x \<in> set (g_sched g xs) \<Longrightarrow> P a \<Longrightarrow> \<exists>r a'. f x a = Some (r, a') \<and> P a'"
  shows "\<exists>r a'. vs_map g f xs a = Some (r, a') \<and> P a'"
proof -
  have "\<exists>r a'. mapM f ys a = Some (r, a') \<and> P a'" if "P a" "set ys \<subseteq> set (g_sched g xs)" for ys a
    using that
  proof (induction ys arbitrary: a)
    case (Cons y ys)
    obtain r b where "f y a = Some (r, b)" "P b" using assms(2) [of y a] Cons.prems by auto
    moreover then obtain q c where "mapM f ys b = Some (q, c)" "P c" using Cons.IH [of b] Cons.prems(2) by auto
    ultimately show ?case by simp
  qed simp
  from this [OF assms(1) order_refl] show ?thesis by (auto simp: vs_map_def)
qed

lemma bdStep_total:
  assumes "dom (states b) = D" "u \<in> D" "set (switchNbrs g u) \<subseteq> D"
  shows "\<exists>r b'. bdStep g u b = Some (r, b') \<and> dom (states b') = D"
proof -
  have "\<exists>b'. foldM (\<lambda>t a. do { st \<leftarrow> state a u; writeMax_bd t (maxTopoID st) a }) (switchNbrs g u) b = Some b' \<and> dom (states b') = D"
  proof (rule foldM_total [where P = "\<lambda>b. dom (states b) = D", OF assms(1)])
    fix t and b :: alg assume "t \<in> set (switchNbrs g u)" "dom (states b) = D"
    moreover then obtain x y where "states b u = Some x" "states b t = Some y" using assms(2,3) by blast
    ultimately show "\<exists>b'. (do { st \<leftarrow> state b u; writeMax_bd t (maxTopoID st) b }) = Some b' \<and> dom (states b') = D"
      by (auto simp: state_def writeMax_bd_def)
  qed
  then show ?thesis by (auto simp: bdStep_nbrs)
qed

text \<open>Ids of which each is zero or the common number \<open>C\<close> of its cluster.\<close>

definition zero_or :: "graph \<Rightarrow> NodeID list \<Rightarrow> (NodeID \<Rightarrow> int) \<Rightarrow> alg \<Rightarrow> bool" where
  "zero_or g cn C a \<longleftrightarrow> (\<forall>t \<in> set cn. 0 \<le> C t \<and> (topo_of a t = 0 \<or> topo_of a t = C t)) \<and> (\<forall>(u, v) \<in> joined g cn. C u = C v)"

definition filled :: "NodeID list \<Rightarrow> (NodeID \<Rightarrow> int) \<Rightarrow> alg \<Rightarrow> alg \<Rightarrow> bool" where
  "filled cn C b d \<longleftrightarrow> bd_of d = bd_of b \<and> (\<forall>t \<in> set cn. topo_of d t = topo_of b t \<or> topo_of d t = C t)"

lemma filled_values:
  assumes "switch_network g cn" "bd_highest g cn b" "zero_or g cn C b" "s \<in> live g cn" "t \<in> set (switchNbrs g s)" "filled cn C b d"
  shows "t \<in> set cn" "0 \<le> C t" "topo_of d t = 0 \<or> topo_of d t = C t" "bd_of d s = 0 \<or> bd_of d s = C t"
proof -
  show t: "t \<in> set cn" using live_nbrs [OF assms(1,4)] assms(5) by simp
  have "topo_of b t = 0 \<or> topo_of b t = C t" "topo_of d t = topo_of b t \<or> topo_of d t = C t" "bd_of d = bd_of b"
    using assms(3,6) t by (simp_all add: filled_def zero_or_def)
  then show "topo_of d t = 0 \<or> topo_of d t = C t" by auto
  show "0 \<le> C t" using assms(3) t by (simp add: zero_or_def)
  obtain v where v: "v \<in> set (switchNbrs g s)" "topo_of b v = bd_of b s" using assms(2,4) unfolding bd_highest_def by metis
  then have "(t, v) \<in> joined g cn" "v \<in> set cn" using assms(4,5) live_nbrs [OF assms(1,4)] by (auto simp: joined_def)
  then have "C t = C v" "topo_of b v = 0 \<or> topo_of b v = C v" using assms(3) unfolding zero_or_def by fastforce+
  then show "bd_of d s = 0 \<or> bd_of d s = C t" using v(2) assms(6) by (auto simp: filled_def)
qed

lemma filled_update:
  assumes "switch_network g cn" "bd_highest g cn b" "zero_or g cn C b" "s \<in> live g cn" "t \<in> set (switchNbrs g s)"
    and "filled cn C b d" "cnUpdate s t (d, c) = Some (d', c')"
  shows "filled cn C b d'" "c' \<noteq> c \<Longrightarrow> topo_of d t \<noteq> C t" "\<And>v. topo_of d v = C v \<Longrightarrow> topo_of d' v = C v" "c' \<noteq> c \<Longrightarrow> topo_of d' t = C t"
proof -
  note f = filled_values [OF assms(1-6)]
  have "-1 \<le> topo_of d t" using f(2,3) by auto
  note u = cnUpdate_values [OF assms(7) this]
  have t': "(c' = c \<and> topo_of d' t = topo_of d t) \<or> (topo_of d t \<noteq> C t \<and> topo_of d' t = C t)"
    using u(3) f(2-4) by (cases "topo_of d t = C t") auto
  have "topo_of d' v = topo_of b v \<or> topo_of d' v = C v" if "v \<in> set cn" for v
    using that assms(6) u(2) [of v] t' by (cases "v = t") (auto simp: filled_def)
  then show "filled cn C b d'" using assms(6) u(1) by (simp add: filled_def)
  show "c' \<noteq> c \<Longrightarrow> topo_of d t \<noteq> C t" "c' \<noteq> c \<Longrightarrow> topo_of d' t = C t" using t' by auto
  show "topo_of d' v = C v" if "topo_of d v = C v" for v using u(2) [of v] t' that by (cases "v = t") auto
qed

text \<open>So no sum is out of range, and a round completes.\<close>

lemma filled_total:
  assumes "switch_network g cn" "bd_highest g cn b" "zero_or g cn C b" "s \<in> live g cn" "t \<in> set (switchNbrs g s)"
    and "filled cn C b d" "states d s \<noteq> None" "states d t \<noteq> None"
  shows "\<exists>d' c'. cnUpdate s t (d, c) = Some (d', c') \<and> filled cn C b d' \<and> dom (states d') = dom (states d)"
proof -
  obtain ss st where st: "states d s = Some ss" "states d t = Some st" using assms(7,8) by blast
  note f = filled_values [OF assms(1-6)]
  have n: "add_int64 (maxTopoID st) (maxBDID ss) = Some (maxBDID ss)" if "sint (maxTopoID st) < sint (maxBDID ss)"
    using f(2-4) that st by (intro add_int64_zero) (auto simp: topo_of_def bd_of_def)
  have "\<exists>d' c'. cnUpdate s t (d, c) = Some (d', c') \<and> dom (states d') = dom (states d)"
    using st n by (auto simp: cnUpdate_def state_def writeMax_topo_def upd_state_def)
  then obtain d' c' where u: "cnUpdate s t (d, c) = Some (d', c')" "dom (states d') = dom (states d)" by blast
  then show ?thesis using filled_update(1) [OF assms(1-6) u(1)] by blast
qed

lemma half_total:
  assumes "subset_contract g" "switch_network g cn" "bd_highest g cn b" "zero_or g cn C b" "{s \<in> set bd. closedSwitch g s} = live g cn"
    "\<forall>s \<in> set bd. readable g b s"
  shows "\<exists>cn1 x'. vs_map g (cnStep g) bd (b, c) = Some (cn1, x')"
proof -
  let ?P = "\<lambda>x. filled cn C b (fst x) \<and> dom (states (fst x)) = dom (states b)"
  have "\<exists>cn1 x'. vs_map g (cnStep g) bd (b, c) = Some (cn1, x') \<and> ?P x'"
  proof (rule vs_map_total [where P = ?P])
    fix s and x :: "alg \<times> int32" assume s: "s \<in> set (g_sched g bd)" and P: "?P x"
    have bd: "s \<in> set bd" using s assms(1) by (simp add: subset_contract_def)
    then have rd: "int_prop g s ''point'' \<noteq> None" "s \<in> dom (states b)" "set (switchNbrs g s) \<subseteq> dom (states b)"
      using assms(6) by (auto simp: readable_def)
    show "\<exists>r x'. cnStep g s x = Some (r, x') \<and> ?P x'"
    proof (cases "closedSwitch g s")
      case True
      then have l: "s \<in> live g cn" using bd assms(5) by blast
      have "\<exists>x'. foldM (cnUpdate s) (switchNbrs g s) x = Some x' \<and> ?P x'"
      proof (rule foldM_total [where P = ?P, OF P])
        fix t and y :: "alg \<times> int32" assume t: "t \<in> set (switchNbrs g s)" and Q: "?P y"
        obtain d k where y: "y = (d, k)" by (cases y)
        have "states d s \<noteq> None" "states d t \<noteq> None" using Q rd t y by (auto simp: domIff)
        then show "\<exists>x'. cnUpdate s t y = Some x' \<and> ?P x'"
          using filled_total [OF assms(2-4) l t, of d k] Q y by auto
      qed
      then show ?thesis using True by (auto simp: cnStep_closed)
    next
      case False
      then show ?thesis using rd(1) P by (cases x) (auto simp: cnStep_def closedSwitch_def)
    qed
  qed (simp add: filled_def)
  then show ?thesis by blast
qed

lemma round_total:
  assumes "subset_contract g" "switch_network g cn" "ready g cn cn0 a" "zero_or g cn C a" "readable_network g cn a"
  shows "\<exists>cn1 a' c'. propagate_round g cn0 a c = Some (cn1, a', c')"
proof -
  let ?D = "dom (states a)"
  have sub: "set cn0 \<subseteq> set cn" using assms(3) by (simp add: ready_def reached_def)
  then have cn0: "set (g_sched g cn0) \<subseteq> set cn" using assms(1) by (simp add: subset_contract_def)
  have "\<exists>bd b. vs_map g (bdStep g) cn0 a = Some (bd, b) \<and> dom (states b) = ?D"
  proof (rule vs_map_total [where P = "\<lambda>b. dom (states b) = ?D"])
    fix u and b :: alg assume u: "u \<in> set (g_sched g cn0)" "dom (states b) = ?D"
    then have "u \<in> ?D" "set (switchNbrs g u) \<subseteq> ?D" using cn0 assms(5) by (auto simp: readable_network_def readable_def)
    then show "\<exists>r b'. bdStep g u b = Some (r, b') \<and> dom (states b') = ?D" using bdStep_total [OF u(2)] by blast
  qed simp
  then obtain bd b where bd: "vs_map g (bdStep g) cn0 a = Some (bd, b)" "dom (states b) = ?D" by blast
  note b = round_first_half [OF assms(1-3) bd(1)]
  have z: "zero_or g cn C b" using assms(4) b(1) by (simp add: zero_or_def)
  have rd: "readable_network g cn b" using readable_dom [OF bd(2) assms(5)] .
  have "set bd = (\<Union>u \<in> set cn0. set (switchNbrs g u))" by (rule bd_phase(2) [OF assms(1) bd(1)])
  then have "\<forall>s \<in> set bd. readable g b s" using rd sub by (auto simp: readable_network_def)
  from half_total [OF assms(1,2) b(2) z b(3) this] show ?thesis using bd(1) by (auto simp: propagate_round_def)
qed

lemma half_filled:
  assumes "subset_contract g" "switch_network g cn" "bd_highest g cn b" "zero_or g cn C b"
    "{s \<in> set bd. closedSwitch g s} = live g cn" "vs_map g (cnStep g) bd (b, c) = Some (r, a', c')"
  shows "filled cn C b a'" "topo_of b t = C t \<Longrightarrow> topo_of a' t = C t"
    "c' = c \<or> (\<exists>t \<in> set cn. topo_of b t \<noteq> C t \<and> topo_of a' t = C t)"
proof -
  let ?P = "\<lambda>x. filled cn C b (fst x) \<and> (\<forall>t. topo_of b t = C t \<longrightarrow> topo_of (fst x) t = C t)
    \<and> (snd x = c \<or> (\<exists>t \<in> set cn. topo_of b t \<noteq> C t \<and> topo_of (fst x) t = C t))"
  have "?P (a', c')"
  proof (rule cn_half_invariant [OF assms(1,5,6), where P = ?P])
    show "?P (b, c)" by (simp add: filled_def)
    fix s t x x'
    assume st: "s \<in> live g cn" "t \<in> set (switchNbrs g s)" and P: "?P x" and u: "cnUpdate s t x = Some x'"
    obtain d k where x: "x = (d, k)" by (cases x)
    obtain d' k' where x': "x' = (d', k')" by (cases x')
    have f: "filled cn C b d" using P x by simp
    note U = filled_update [OF assms(2-4) st f u [unfolded x x']]
    have "t \<in> set cn" using live_nbrs [OF assms(2) st(1)] st(2) by simp
    moreover have "topo_of b t \<noteq> C t" if "k' \<noteq> k" using U(2) [OF that] P x by auto
    ultimately have "k' = k \<or> (\<exists>t \<in> set cn. topo_of b t \<noteq> C t \<and> topo_of d' t = C t)" using U(4) by blast
    then show "?P x'" using U(1,3) P x x' by auto
  qed
  then show "filled cn C b a'" "topo_of b t = C t \<Longrightarrow> topo_of a' t = C t"
    "c' = c \<or> (\<exists>t \<in> set cn. topo_of b t \<noteq> C t \<and> topo_of a' t = C t)" by simp_all
qed

definition unfilled :: "NodeID list \<Rightarrow> (NodeID \<Rightarrow> int) \<Rightarrow> alg \<Rightarrow> NodeID set" where
  "unfilled cn C a = {t \<in> set cn. topo_of a t \<noteq> C t}"

lemma round_filled:
  assumes "subset_contract g" "switch_network g cn" "ready g cn cn0 a" "zero_or g cn C a"
    "propagate_round g cn0 a c = Some (cn1, a', c')"
  shows "zero_or g cn C a'" "c' = c \<or> card (unfilled cn C a') < card (unfilled cn C a)"
proof -
  obtain bd b where bd: "vs_map g (bdStep g) cn0 a = Some (bd, b)" and cn: "vs_map g (cnStep g) bd (b, c) = Some (cn1, a', c')"
    using assms(5) by (auto simp: propagate_round_def bind_Some_iff)
  have r: "reached g cn cn0" "bd_known g cn a" using assms(3) by (simp_all add: ready_def)
  note b = bd_half [OF assms(1,2) r bd]
  have z: "zero_or g cn C b" using assms(4) b(1) by (simp add: zero_or_def)
  note h = half_filled [OF assms(1,2) b(2) z b(3) cn, unfolded b(1)]
  show "zero_or g cn C a'" using assms(4) h(1) b(1) unfolding zero_or_def filled_def by metis
  show "c' = c \<or> card (unfilled cn C a') < card (unfilled cn C a)"
  proof (cases "c' = c")
    case False
    then obtain t where "t \<in> set cn" "topo_of a t \<noteq> C t" "topo_of a' t = C t" using h(3) by blast
    then have "unfilled cn C a' \<subset> unfilled cn C a" using h(2) by (auto simp: unfilled_def)
    then show ?thesis by (simp add: psubset_card_mono unfilled_def)
  qed simp
qed

lemma loop_ends:
  assumes "subset_contract g" "switch_network g cn"
  shows "ready g cn cn0 a \<Longrightarrow> readable_network g cn a \<Longrightarrow> zero_or g cn C a \<Longrightarrow> card (unfilled cn C a) + 2 \<le> fuel
    \<Longrightarrow> \<exists>r. propagate_loop fuel g cn0 a old c = Some (Some r)"
proof (induction "card (unfilled cn C a)" arbitrary: cn0 a old c fuel rule: less_induct)
  case less
  obtain k where k: "fuel = Suc (Suc k)" using less.prems(4) by (metis add_2_eq_Suc' le_Suc_ex plus_nat.simps(2))
  obtain cn1 a1 c1 where r: "propagate_round g cn0 a c = Some (cn1, a1, c1)"
    using round_total [OF assms less.prems(1,3,2)] by blast
  note f = round_filled [OF assms less.prems(1,3) r]
  have rd: "readable_network g cn a1"
    using round_grows [OF r topo_grows_refl] less.prems(2) by (auto simp: topo_grows_def intro: readable_dom)
  have "\<exists>r. propagate_loop (Suc k) g cn1 a1 c c1 = Some (Some r)"
  proof (cases "c1 = c")
    case False
    then have m: "card (unfilled cn C a1) < card (unfilled cn C a)" using f(2) by simp
    then show ?thesis
      using less.hyps [OF m halves_within(1) [OF round_halves [OF assms less.prems(1) r]] rd f(1), of "Suc k"] less.prems(4) k by simp
  qed simp
  then show ?case using r k by simp
qed

lemma common_zero_or:
  assumes "switch_network g cn" "\<forall>v \<in> set cn. 0 \<le> topo_of a v" "common_ids g cn a"
  shows "zero_or g cn (\<lambda>u. Max (topo_of a ` cluster g cn u)) a"
proof -
  have sym: "sym (joined g cn)" by (auto simp: sym_def joined_def)
  have "cluster g cn u = cluster g cn v" if "(u, v) \<in> joined g cn" for u v
    using that sym_rtrancl [OF sym] by (auto simp: cluster_def sym_def intro: converse_rtrancl_into_rtrancl rtrancl_trans)
  moreover have "0 \<le> Max (topo_of a ` cluster g cn t) \<and> (topo_of a t = 0 \<or> topo_of a t = Max (topo_of a ` cluster g cn t))"
    if t: "t \<in> set cn" for t
  proof -
    have fin: "finite (topo_of a ` cluster g cn t)" using cluster_sub [OF assms(1) t] by (simp add: finite_subset)
    have le: "topo_of a t \<le> Max (topo_of a ` cluster g cn t)" using fin cluster_refl by (intro Max_ge) auto
    obtain v where "v \<in> cluster g cn t" "Max (topo_of a ` cluster g cn t) = topo_of a v"
      using Max_in [OF fin] cluster_refl by fastforce
    then show ?thesis using le assms(2,3) t unfolding common_ids_def by force
  qed
  ultimately show ?thesis by (fastforce simp: zero_or_def)
qed

lemma common_ids_ends:
  assumes "subset_contract g" "switch_network g cn" "readable_network g cn a" "bd_known g cn a" "\<forall>v \<in> set cn. 0 \<le> topo_of a v"
    and "common_ids g cn a"
  shows "\<exists>r. propagate (length cn + 2) g cn a = Some (Some r)"
proof -
  let ?C = "\<lambda>u. Max (topo_of a ` cluster g cn u)"
  have "\<forall>v \<in> set cn. -1 \<le> topo_of a v" using assms(5) by force
  then have r: "ready g cn cn a" by (rule ready_start [OF assms(2,4)])
  have "card (unfilled cn ?C a) \<le> card (set cn)" by (rule card_mono) (auto simp: unfilled_def)
  then have "card (unfilled cn ?C a) + 2 \<le> length cn + 2" using card_length [of cn] by linarith
  then show ?thesis unfolding propagate_def
    by (rule loop_ends [OF assms(1,2) r assms(3) common_zero_or [OF assms(2,5,6)]])
qed

section \<open>Example\<close>

lemma breaker_live: "live breaker_graph [1, 2] = {3}"
  using breaker_closed by (auto simp: live_def breaker_nbrs)

lemma breaker_cluster: "u \<in> {1, 2} \<Longrightarrow> cluster breaker_graph [1, 2] u = {1, 2}"
proof -
  assume u: "u \<in> {1, 2}"
  have j: "joined breaker_graph [1, 2] = {1, 2} \<times> {1, 2}" by (auto simp: joined_def breaker_live breaker_nbrs)
  have "v \<in> {1, 2}" if "(u, v) \<in> (joined breaker_graph [1, 2])\<^sup>*" for v
    using that u by induction (auto simp: j)
  moreover have "(u, v) \<in> (joined breaker_graph [1, 2])\<^sup>*" if "v \<in> {1, 2}" for v
    using that u j by (intro r_into_rtrancl) auto
  ultimately show ?thesis unfolding cluster_def by blast
qed

lemma breaker_network:
  "subset_contract breaker_graph" "switch_network breaker_graph [1, 2]"
  "0 \<le> sint x \<Longrightarrow> 0 \<le> sint y \<Longrightarrow> bd_known breaker_graph [1, 2] (breaker_alg x y)"
  "\<forall>v \<in> set [1, 2]. topo_of (breaker_alg x y) v = (if v = 1 then sint x else sint y)"
  "readable_network breaker_graph [1, 2] (breaker_alg x y)"
proof -
  have "int_prop breaker_graph 3 ''point'' \<noteq> None" using breaker_closed by (simp add: closedSwitch_def)
  then show "readable_network breaker_graph [1, 2] (breaker_alg x y)"
    by (simp add: readable_network_def readable_def breaker_nbrs breaker_alg_def)
qed (auto simp: breaker_graph_def table_contract switch_network_def breaker_live [unfolded breaker_graph_def]
    breaker_nbrs [unfolded breaker_graph_def] bd_known_def breaker_alg_def initState_def bd_of_def topo_of_def)

section \<open>Properties\<close>

text \<open>Claim C3. The propagation loop against its specification. If the loop ends, every connection node has the highest
  id of its cluster, the connection nodes joined to it by closed switches, and no other vertex has changed its
  id. The ids at the start are -1 or more, and no switch holds more than its nodes; the graph satisfies the contract
  of vertex sets, and closed switches lie between the connection nodes of the set.\<close>

theorem propagate_cluster_max:
  assumes "subset_contract g" "bounded_rounds g" "switch_network g cn" "bd_known g cn a" "\<forall>v \<in> set cn. -1 \<le> topo_of a v"
    and "propagate fuel g cn a = Some (Some (cn', a'))"
  shows "topo_of a' v = (if v \<in> set cn then Max (topo_of a ` cluster g cn v) else topo_of a v)"
  using sequential.loop_cluster_max [OF assms(1-3) ready_start [OF assms(3-5)] propagate_run [OF assms(6)] one_neq_zero] by simp

theorem propagate_cluster_max_witness:
  "topo_of (snd (the (the (propagate 4 breaker_graph [1, 2] (breaker_alg 7 0))))) 2 = 7"
proof -
  let ?a = "breaker_alg 7 0"
  note n = breaker_network(3-5) [of 7 0]
  have "common_ids breaker_graph [1, 2] ?a" using breaker_cluster n(2) by (simp add: common_ids_def)
  then obtain cn' a' where p: "propagate 4 breaker_graph [1, 2] ?a = Some (Some (cn', a'))"
    using common_ids_ends [OF breaker_network(1,2), of ?a] n by (auto simp: numeral_eq_Suc)
  have "topo_of a' 2 = Max (topo_of ?a ` {1, 2})"
    using propagate_cluster_max [OF breaker_network(1) breaker_bounded breaker_network(2) _ _ p, of 2] n(1,2)
      breaker_cluster [of 2] by simp
  then show ?thesis using n(2) p by simp
qed

end
