(* ===== verification/PropagationRace.thy ===== *)
theory PropagationRace
  imports Clusters
begin

text \<open>
  The propagation loop with the second map of a round done by threads
  (\<^verbatim>\<open>src/src/yj/NetworkTopoProcedure.cpp\<close>, lines 288 to 308). \<^verbatim>\<open>VertexSubset::map\<close> is documented to apply its function to
  each vertex in parallel, and a comment in the function says \<^verbatim>\<open>TODO(yee): data race\<close>: the id of a connection node is
  compared, read again and written in three accesses, and other switches write in between. Here each switch has a thread,
  each access is a step, and a schedule is any sequence of steps. An access of one id is taken to be atomic, and
  \<^verbatim>\<open>writeMax\<close> is one step (\<open>CasOps\<close> has its loop). The first map writes with \<^verbatim>\<open>writeMax\<close> only and writes no id it
  reads, so its result is that of its calls in sequence. The theorems: whatever the schedules, a loop that ends has the
  result of the loop with calls in sequence; some schedules end exactly when the ids of each cluster are zero or one
  number; and with other schedules the same network never ends.
\<close>

section \<open>The threads of a round\<close>

text \<open>Where the thread of a switch is with its next target: at the comparison, at \<^verbatim>\<open>sumCounter++\<close>, at the sum, or at
  \<^verbatim>\<open>writeMax\<close> with the sum.\<close>

datatype race_pc = Compare | Increment | Add | Raise int64

type_synonym race_thread = "NodeID \<times> NodeID list \<times> race_pc"

fun race_advance :: "race_thread \<Rightarrow> alg \<times> int32 \<Rightarrow> (race_thread \<times> alg \<times> int32) option" where
  "race_advance (s, [], p) x = None"
| "race_advance (s, t # ts, Compare) (a, c) = do {
     ss \<leftarrow> state a s;
     st \<leftarrow> state a t;
     Some (if sint (maxBDID ss) > sint (maxTopoID st) then (s, t # ts, Increment) else (s, ts, Compare), a, c)
   }"
| "race_advance (s, t # ts, Increment) (a, c) = Some ((s, t # ts, Add), a, c + 1)"
| "race_advance (s, t # ts, Add) (a, c) = do {
     st \<leftarrow> state a t;
     ss \<leftarrow> state a s;
     newTopoId \<leftarrow> add_int64 (maxTopoID st) (maxBDID ss);
     Some ((s, t # ts, Raise newTopoId), a, c)
   }"
| "race_advance (s, t # ts, Raise newTopoId) (a, c) = do {
     a \<leftarrow> writeMax_topo t newTopoId a;
     Some ((s, ts, Compare), a, c)
   }"

definition race_step :: "nat \<Rightarrow> race_thread list \<times> alg \<times> int32 \<Rightarrow> (race_thread list \<times> alg \<times> int32) option" where
  "race_step i = (\<lambda>(thr, x). if i < length thr
     then do { (th, x) \<leftarrow> race_advance (thr ! i) x; Some (thr[i := th], x) } else None)"

text \<open>The threads before their first step; an open switch has no targets.\<close>

definition race_targets :: "graph \<Rightarrow> NodeID \<Rightarrow> NodeID list option" where
  "race_targets g s = do { sPoint \<leftarrow> int_prop g s ''point''; Some (if sPoint \<noteq> 1 then [] else switchNbrs g s) }"

fun race_threads :: "graph \<Rightarrow> NodeID list \<Rightarrow> race_thread list option" where
  "race_threads g [] = Some []"
| "race_threads g (s # ss) = do { ts \<leftarrow> race_targets g s; thr \<leftarrow> race_threads g ss; Some ((s, ts, Compare) # thr) }"

definition race_map :: "graph \<Rightarrow> nat list \<Rightarrow> NodeID list \<Rightarrow> alg \<times> int32 \<Rightarrow> (NodeID list \<times> alg \<times> int32) option" where
  "race_map g sched bdSet x = do {
     thr \<leftarrow> race_threads g (g_sched g bdSet);
     (thr', x) \<leftarrow> foldM race_step sched (thr, x);
     if list_all (\<lambda>(s, ts, p). ts = []) thr' then Some (g_subset g (concat (map (\<lambda>(s, ts, p). ts) thr)), x) else None
   }"

definition race_round :: "nat list \<Rightarrow> graph \<Rightarrow> NodeID list \<Rightarrow> alg \<Rightarrow> int32 \<Rightarrow> (NodeID list \<times> alg \<times> int32) option" where
  "race_round sched g cnSet a counter = do {
     (bdSet, a) \<leftarrow> vs_map g (bdStep g) cnSet a;
     race_map g sched bdSet (a, counter)
   }"

text \<open>The loop, with a schedule for each round.\<close>

fun race_loop :: "nat list list \<Rightarrow> graph \<Rightarrow> NodeID list \<Rightarrow> alg \<Rightarrow> int32 \<Rightarrow> int32 \<Rightarrow> (NodeID list \<times> alg) option" where
  "race_loop [] g cnSet a old counter = (if old \<noteq> counter then None else Some (cnSet, a))"
| "race_loop (sched # scheds) g cnSet a old counter =
     (if old \<noteq> counter
      then do { (cnSet, a, c) \<leftarrow> race_round sched g cnSet a counter; race_loop scheds g cnSet a counter c }
      else Some (cnSet, a))"

definition race_propagate :: "nat list list \<Rightarrow> graph \<Rightarrow> NodeID list \<Rightarrow> alg \<Rightarrow> (NodeID list \<times> alg) option" where
  "race_propagate scheds g cnOpen a = race_loop scheds g cnOpen a 1 0"

section \<open>Ids in a round\<close>

text \<open>A thread past its comparison was above its target at the start of the map; the sum it holds is with an id that the
  target has had since.\<close>

fun race_ok :: "graph \<Rightarrow> NodeID list \<Rightarrow> alg \<Rightarrow> alg \<Rightarrow> race_thread \<Rightarrow> bool" where
  "race_ok g cn b d (s, ts, p) \<longleftrightarrow> set ts \<subseteq> set (switchNbrs g s) \<and> (ts \<noteq> [] \<longrightarrow> s \<in> live g cn)
     \<and> (p \<noteq> Compare \<longrightarrow> topo_of b (hd ts) < bd_of b s)
     \<and> (\<forall>n. p = Raise n \<longrightarrow> (\<exists>y. topo_of b (hd ts) \<le> y \<and> y \<le> topo_of d (hd ts) \<and> sint n = y + bd_of b s))"

lemma race_ok_mono:
  assumes "race_ok g cn b d th" "\<And>v. topo_of d v \<le> topo_of d' v"
  shows "race_ok g cn b d' th"
proof (cases th)
  case (fields s ts p)
  then show ?thesis using assms(1) order_trans [OF _ assms(2) [of "hd ts"]] by (cases p) auto
qed

lemma race_advance_ok:
  assumes "switch_network g cn" "\<forall>v \<in> set cn. -1 \<le> topo_of b v"
    and "half_done g cn b d" "race_ok g cn b d th" "race_advance th (d, c) = Some (th', d', c')"
  shows "half_done g cn b d' \<and> race_ok g cn b d' th' \<and> (\<forall>v. topo_of d v \<le> topo_of d' v)"
proof (cases "\<exists>s t ts n. th = (s, t # ts, Raise n)")
  case False
  have bd: "bd_of d = bd_of b" using assms(3) by (simp add: half_done_def)
  have up: "topo_of b t \<le> topo_of d t" if "s \<in> live g cn" "t \<in> set (switchNbrs g s)" for s t
    using that assms(3) live_nbrs [OF assms(1)] by (auto simp: half_done_def raised_to_def)
  have "d' = d \<and> race_ok g cn b d th'"
  proof (cases rule: race_advance.cases [of "(th, d, c)"])
    case (2 s t ts a k)
    then obtain ss st where st: "states d s = Some ss" "states d t = Some st" and d': "d' = d"
      "th' = (if sint (maxTopoID st) < sint (maxBDID ss) then (s, t # ts, Increment) else (s, ts, Compare))"
      using assms(5) by (auto simp: bind_Some_iff state_def)
    have "topo_of b t < bd_of b s" if "sint (maxTopoID st) < sint (maxBDID ss)"
      using that up [of s t] assms(4) 2 st by (auto simp: bd [symmetric] topo_of_def [of d] bd_of_def)
    then show ?thesis using d' assms(4) 2 by simp
  next
    case (4 s t ts a k)
    then obtain ss st n where st: "states d s = Some ss" "states d t = Some st" and d': "d' = d" "th' = (s, t # ts, Raise n)"
      and n: "add_int64 (maxTopoID st) (maxBDID ss) = Some n"
      using assms(5) by (auto simp: bind_Some_iff state_def)
    have "sint n = topo_of d t + bd_of b s" using add_int64_Some [OF n] st by (simp add: bd [symmetric] topo_of_def bd_of_def)
    then show ?thesis using d' assms(4) 4 up [of s t] by auto
  qed (use assms(4,5) False in auto)
  then show ?thesis using assms(3) by simp
next
  case True
  then obtain s t ts n where th: "th = (s, t # ts, Raise n)" by blast
  then have w: "writeMax_topo t n d = Some d'" and th': "th' = (s, ts, Compare)" using assms(5) by (auto simp: bind_Some_iff)
  note d' = writeMax_topo_of [OF w]
  obtain y where y: "topo_of b t \<le> y" "y \<le> topo_of d t" "sint n = y + bd_of b s" and s: "s \<in> live g cn" "t \<in> set (switchNbrs g s)"
    and r: "topo_of b t < bd_of b s" and ts: "set ts \<subseteq> set (switchNbrs g s)"
    using assms(4) th by auto
  have t: "t \<in> set cn" using live_nbrs [OF assms(1) s(1)] s(2) by simp
  have "raised_by g cn b t s" using s r by (simp add: raised_by_def)
  then have "half_done g cn b d'"
    using half_done_raise [OF assms(3) _ t _ y(1,2) d'(1)] assms(2) t d'(2,3) y(3) by simp
  moreover have "topo_of d v \<le> topo_of d' v" for v using d'(2) [of v] d'(3) by (cases "v = t") auto
  ultimately show ?thesis using th' s(1) ts by simp
qed
lemma race_targets_closed: "race_targets g s = Some ts \<Longrightarrow> ts = (if closedSwitch g s then switchNbrs g s else [])"
  by (auto simp: race_targets_def closedSwitch_def bind_Some_iff)

lemma race_threads_set:
  "race_threads g ss = Some thr \<Longrightarrow> set thr = (\<lambda>s. (s, if closedSwitch g s then switchNbrs g s else [], Compare)) ` set ss"
  by (induction ss arbitrary: thr) (auto simp: bind_Some_iff dest: race_targets_closed)

lemma race_step_cases:
  assumes "race_step i (thr, x) = Some (thr', x')"
  obtains th where "i < length thr" "race_advance (thr ! i) x = Some (th, x')" "thr' = thr[i := th]"
  using assms by (auto simp: race_step_def bind_Some_iff split: if_splits)

lemma schedule_fst: "foldM race_step sched (thr, x) = Some (thr', x') \<Longrightarrow> map fst thr' = map fst thr"
proof (induction sched arbitrary: thr x)
  case (Cons i sched)
  then obtain ths y where s: "race_step i (thr, x) = Some (ths, y)" and r: "foldM race_step sched (ths, y) = Some (thr', x')"
    by (auto simp: bind_Some_iff)
  obtain th where th: "i < length thr" "race_advance (thr ! i) x = Some (th, y)" "ths = thr[i := th]"
    using s by (rule race_step_cases)
  have "fst th = fst (thr ! i)" using th(2)
    by (cases rule: race_advance.cases [of "(thr ! i, x)"]) (auto simp: bind_Some_iff)
  then show ?case using Cons.IH [OF r] th(1,3) by (simp add: map_update list_update_same_conv)
qed simp

text \<open>What every step of a thread keeps, the threads keep, whatever the schedule.\<close>

lemma schedule_invariant:
  assumes "foldM race_step sched (thr, x) = Some (thr', x')" "\<forall>th \<in> set thr. P x th" "Q x"
    and "\<And>th x th' x'. Q x \<Longrightarrow> P x th \<Longrightarrow> race_advance th x = Some (th', x') \<Longrightarrow> Q x' \<and> P x' th' \<and> (\<forall>th. P x th \<longrightarrow> P x' th)"
  shows "Q x' \<and> (\<forall>th \<in> set thr'. P x' th)"
proof -
  have "(\<lambda>(thr, x). Q x \<and> (\<forall>th \<in> set thr. P x th)) (thr', x')"
    using assms(1)
  proof (rule foldM_invariant)
    fix i y y' assume y: "case y of (thr, x) \<Rightarrow> Q x \<and> (\<forall>th \<in> set thr. P x th)" and r: "race_step i y = Some y'"
    obtain ths z where z: "y = (ths, z)" by (cases y)
    obtain ths' z' where z': "y' = (ths', z')" by (cases y')
    obtain th where th: "i < length ths" "race_advance (ths ! i) z = Some (th, z')" "ths' = ths[i := th]"
      using r unfolding z z' by (rule race_step_cases)
    have "Q z' \<and> P z' th \<and> (\<forall>th. P z th \<longrightarrow> P z' th)" using assms(4) [OF _ _ th(2)] y z th(1) by simp
    then show "case y' of (thr, x) \<Rightarrow> Q x \<and> (\<forall>th \<in> set thr. P x th)"
      using y z z' th(3) set_update_subset_insert [of ths i th] by auto
  qed (use assms(2,3) in simp)
  then show ?thesis by simp
qed

lemma race_half:
  assumes "subset_contract g" "switch_network g cn" "\<forall>v \<in> set cn. -1 \<le> topo_of b v" "{s \<in> set bd. closedSwitch g s} = live g cn"
    "race_map g sched bd (b, c) = Some (cn1, a', c')"
  shows "half_done g cn b a'" "set cn1 = (\<Union>s \<in> live g cn. set (switchNbrs g s))"
proof -
  obtain thr thr' where t: "race_threads g (g_sched g bd) = Some thr" "foldM race_step sched (thr, b, c) = Some (thr', a', c')"
    and r: "cn1 = g_subset g (concat (map (\<lambda>(s, ts, p). ts) thr))"
    using assms(5) by (auto simp: race_map_def bind_Some_iff split: if_splits)
  have thr: "set thr = (\<lambda>s. (s, if closedSwitch g s then switchNbrs g s else [], Compare)) ` set bd"
    using race_threads_set [OF t(1)] assms(1) by (simp add: subset_contract_def)
  have "half_done g cn b (fst (a', c')) \<and> (\<forall>th \<in> set thr'. race_ok g cn b (fst (a', c')) th)"
  proof (rule schedule_invariant [OF t(2), where P = "\<lambda>x. race_ok g cn b (fst x)" and Q = "\<lambda>x. half_done g cn b (fst x)"])
    show "\<forall>th \<in> set thr. race_ok g cn b (fst (b, c)) th" using thr assms(4) by auto
    show "half_done g cn b (fst (b, c))" by (simp add: half_done_refl)
    fix th x th' x'
    assume "half_done g cn b (fst x)" "race_ok g cn b (fst x) th" "race_advance th x = Some (th', x')"
    then have "half_done g cn b (fst x') \<and> race_ok g cn b (fst x') th' \<and> (\<forall>v. topo_of (fst x) v \<le> topo_of (fst x') v)"
      using race_advance_ok [OF assms(2,3), of "fst x" th "snd x" th' "fst x'" "snd x'"] by simp
    then show "half_done g cn b (fst x') \<and> race_ok g cn b (fst x') th' \<and>
        (\<forall>th. race_ok g cn b (fst x) th \<longrightarrow> race_ok g cn b (fst x') th)"
      using race_ok_mono by blast
  qed
  then show "half_done g cn b a'" by simp
  have "set cn1 = (\<Union>s \<in> set bd. set (if closedSwitch g s then switchNbrs g s else []))"
    using thr assms(1) by (simp add: r subset_contract_def)
  also have "\<dots> = (\<Union>s \<in> live g cn. set (switchNbrs g s))" unfolding assms(4) [symmetric] by auto
  finally show "set cn1 = (\<Union>s \<in> live g cn. set (switchNbrs g s))" .
qed

lemma race_halves:
  assumes "subset_contract g" "switch_network g cn" "ready g cn cn0 a" "race_round sched g cn0 a c = Some (cn1, a', c')"
  shows "in_halves g cn a cn1 a'"
proof -
  obtain bd b where bd: "vs_map g (bdStep g) cn0 a = Some (bd, b)" and cn: "race_map g sched bd (b, c) = Some (cn1, a', c')"
    using assms(4) by (auto simp: race_round_def bind_Some_iff)
  note b = round_first_half [OF assms(1-3) bd]
  note h = race_half [OF assms(1,2) b(4,3) cn]
  have "half_round g cn b a'" using h(1) assms(2) b(2) by (simp add: half_round_def)
  then show ?thesis using in_halvesI [OF _ b(1)] b(1,4) h(2) by simp
qed

section \<open>The counter of a round\<close>

text \<open>The increments a thread can still make.\<close>

fun increments_left :: "race_thread \<Rightarrow> nat" where
  "increments_left (s, ts, Compare) = length ts"
| "increments_left (s, ts, Increment) = length ts"
| "increments_left (s, ts, Add) = length ts - 1"
| "increments_left (s, ts, Raise n) = length ts - 1"

text \<open>A thread that has made no increment found its switch settled at every target it has left.\<close>

fun quiet_thread :: "graph \<Rightarrow> alg \<Rightarrow> race_thread \<Rightarrow> bool" where
  "quiet_thread g b (s, ts, p) \<longleftrightarrow> p \<in> {Compare, Increment}
     \<and> (closedSwitch g s \<longrightarrow> (\<forall>t \<in> set (switchNbrs g s). t \<in> set ts \<or> bd_of b s \<le> topo_of b t))"

lemma race_advance_count:
  assumes "race_advance th (d, c) = Some (th', d', c')"
  shows "\<exists>k. c' = c + of_nat k \<and> increments_left th' + k \<le> increments_left th \<and> (k = 0 \<longrightarrow> quiet_thread g d th \<longrightarrow> d' = d \<and> quiet_thread g d th')"
proof (cases rule: race_advance.cases [of "(th, d, c)"])
  case (3 s t ts a k)
  then show ?thesis using assms by (intro exI [of _ 1]) auto
next
  case (2 s t ts a k)
  then obtain ss st where st: "states d s = Some ss" "states d t = Some st" and d': "d' = d" "c' = c"
    "th' = (if sint (maxTopoID st) < sint (maxBDID ss) then (s, t # ts, Increment) else (s, ts, Compare))"
    using assms by (auto simp: bind_Some_iff state_def)
  have "bd_of d s \<le> topo_of d t" if "\<not> sint (maxTopoID st) < sint (maxBDID ss)"
    using that st by (simp add: topo_of_def bd_of_def)
  then have "quiet_thread g d th \<longrightarrow> quiet_thread g d th'" using 2 d'(3) by auto
  then show ?thesis using 2 d' by (intro exI [of _ 0]) simp
qed (use assms in \<open>auto simp: bind_Some_iff\<close>)

lemma race_count:
  assumes "foldM race_step sched (thr, b, c) = Some (thr', a', c')" "\<forall>th \<in> set thr. quiet_thread g b th"
  shows "\<exists>k. c' = c + of_nat k \<and> k \<le> sum_list (map increments_left thr) \<and> (k = 0 \<longrightarrow> a' = b \<and> (\<forall>th \<in> set thr'. quiet_thread g b th))"
proof -
  let ?P = "\<lambda>(thr', a', c'). \<exists>k. c' = c + of_nat k \<and> sum_list (map increments_left thr') + k \<le> sum_list (map increments_left thr)
    \<and> (k = 0 \<longrightarrow> a' = b \<and> (\<forall>th \<in> set thr'. quiet_thread g b th))"
  have "?P (thr', a', c')" using assms(1)
  proof (rule foldM_invariant [where P = ?P])
    fix i y y' assume y: "?P y" and r: "race_step i y = Some y'"
    obtain ths d e where z: "y = (ths, d, e)" by (cases y) auto
    obtain ths' d' e' where z': "y' = (ths', d', e')" by (cases y') auto
    obtain th where th: "i < length ths" "race_advance (ths ! i) (d, e) = Some (th, d', e')" "ths' = ths[i := th]"
      using r unfolding z z' by (rule race_step_cases)
    obtain k where k: "e = c + of_nat k" "sum_list (map increments_left ths) + k \<le> sum_list (map increments_left thr)"
      "k = 0 \<longrightarrow> d = b \<and> (\<forall>th \<in> set ths. quiet_thread g b th)" using y z by auto
    obtain l where l: "e' = e + of_nat l" "increments_left th + l \<le> increments_left (ths ! i)"
      "l = 0 \<longrightarrow> quiet_thread g d (ths ! i) \<longrightarrow> d' = d \<and> quiet_thread g d th"
      using race_advance_count [OF th(2)] by blast
    have "increments_left (ths ! i) \<le> sum_list (map increments_left ths)" using th(1) by (intro member_le_sum_list) simp_all
    then have "sum_list (map increments_left ths') + (k + l) \<le> sum_list (map increments_left thr)"
      using k(2) l(2) th(1) by (simp add: th(3) map_update sum_list_update)
    moreover have "d' = b \<and> (\<forall>th \<in> set ths'. quiet_thread g b th)" if "k + l = 0"
      using that k(3) l(3) th(1) set_update_subset_insert [of ths i th] by (auto simp: th(3))
    moreover have "e' = c + of_nat (k + l)" using k(1) l(1) by (simp add: add.assoc)
    ultimately show "?P y'" unfolding z' by blast
  qed (use assms(2) in auto)
  then show ?thesis by auto
qed

lemma increments_work: "race_threads g ss = Some thr \<Longrightarrow> sum_list (map increments_left thr) \<le> sum_list (map (\<lambda>s. length (switchNbrs g s)) ss)"
  by (induction ss arbitrary: thr) (auto simp: bind_Some_iff intro!: add_mono dest!: race_targets_closed)

lemma race_quiet:
  assumes "subset_contract g" "bounded_rounds g" "race_round sched g cn0 a c = Some (cn1, a', c)"
    and "u \<in> set cn0" "s \<in> set (switchNbrs g u)" "closedSwitch g s" "t \<in> set (switchNbrs g s)"
  shows "topo_of a' u \<le> topo_of a' t"
proof -
  obtain bd b where bd: "vs_map g (bdStep g) cn0 a = Some (bd, b)" and cn: "race_map g sched bd (b, c) = Some (cn1, a', c)"
    using assms(3) by (auto simp: race_round_def bind_Some_iff)
  obtain thr thr' where th: "race_threads g (g_sched g bd) = Some thr" "foldM race_step sched (thr, b, c) = Some (thr', a', c)"
    and over: "\<forall>(s, ts, p) \<in> set thr'. ts = []"
    using cn by (auto simp: race_map_def bind_Some_iff list_all_iff split: if_splits)
  have thr: "set thr = (\<lambda>s. (s, if closedSwitch g s then switchNbrs g s else [], Compare)) ` set bd"
    using race_threads_set [OF th(1)] assms(1) by (simp add: subset_contract_def)
  then have "\<forall>th \<in> set thr. quiet_thread g b th" by auto
  from race_count [OF th(2) this] obtain k where k: "c = c + of_nat k" "k \<le> sum_list (map increments_left thr)"
    "k = 0 \<longrightarrow> a' = b \<and> (\<forall>th \<in> set thr'. quiet_thread g b th)" by blast
  have "sum_list (map increments_left thr) \<le> round_work g bd" using increments_work [OF th(1)] by (simp add: round_work_def)
  moreover obtain xs where "bd = g_subset g xs" using bd by (auto simp: vs_map_def bind_Some_iff)
  ultimately have "k < 2 ^ 32" using k(2) assms(2) unfolding bounded_rounds_def by (metis le_less_trans)
  moreover have "of_nat k = (0 :: 32 word)" using k(1) by simp
  ultimately have "k = 0" by (auto simp: word_of_nat_eq_0_iff dest: nat_dvd_not_less)
  then have q: "a' = b" "\<forall>th \<in> set thr'. quiet_thread g b th" using k(3) by simp_all
  have "s \<in> set bd" using bd_phase(2) [OF assms(1) bd] assms(4,5) by auto
  then have "s \<in> set (map fst thr)" by (force simp: thr)
  then have "s \<in> set (map fst thr')" by (simp only: schedule_fst [OF th(2)])
  then obtain ts p where m: "(s, ts, p) \<in> set thr'" by auto
  then have "ts = []" using over by blast
  moreover have "quiet_thread g b (s, ts, p)" using q(2) m by blast
  ultimately have "bd_of b s \<le> topo_of b t" using assms(6,7) by simp
  moreover have "topo_of b u \<le> bd_of b s" using bd_phase(3) [OF assms(1) bd] assms(4,5) by auto
  ultimately show ?thesis by (simp add: q(1))
qed

section \<open>The loop with threads\<close>

interpretation interleaved: propagation_rounds "\<lambda>g cn a c r. \<exists>sched. race_round sched g cn a c = Some r"
  by unfold_locales (auto intro: race_halves race_quiet)

lemma race_loop_run:
  "race_loop scheds g cn a old c = Some r \<Longrightarrow> loop_run (\<lambda>cn a c r. \<exists>sched. race_round sched g cn a c = Some r) cn a old c r"
proof (induction scheds arbitrary: cn a old c)
  case (Cons sched scheds)
  show ?case
  proof (cases "old = c")
    case False
    then obtain cn1 a1 c1 where "race_round sched g cn a c = Some (cn1, a1, c1)" "race_loop scheds g cn1 a1 c c1 = Some r"
      using Cons.prems by (auto simp: bind_Some_iff)
    then show ?thesis by (intro loop_run.again [OF False _ Cons.IH]) auto
  qed (use Cons.prems in \<open>auto intro: loop_run.stop\<close>)
qed (auto intro: loop_run.stop split: if_splits)

text \<open>Calls in sequence are one of the schedules: a thread with a target makes one step or four in a row.\<close>

lemma foldM_append: "foldM f (xs @ ys) s = do { s \<leftarrow> foldM f xs s; foldM f ys s }"
  by (induction xs arbitrary: s) (auto split: bind_splits)

lemma race_step_at: "race_step (length pre) (pre @ th # post, x) = do { (th, x) \<leftarrow> race_advance th x; Some (pre @ th # post, x) }"
  by (simp add: race_step_def)

fun finished :: "race_thread \<Rightarrow> race_thread" where
  "finished (s, ts, p) = (s, [], Compare)"

lemma finished_left: "finished th = (s, ts, p) \<Longrightarrow> ts = []"
  by (cases th) simp

lemma update_schedule:
  assumes "cnUpdate s t x = Some x'"
  shows "\<exists>sched. foldM race_step sched (pre @ (s, t # ts, Compare) # post, x) = Some (pre @ (s, ts, Compare) # post, x')"
proof -
  obtain a c where x: "x = (a, c)" by (cases x)
  let ?i = "length pre"
  obtain ss st where st: "state a s = Some ss" "state a t = Some st"
    and u: "if sint (maxTopoID st) < sint (maxBDID ss)
      then \<exists>n a'. add_int64 (maxTopoID st) (maxBDID ss) = Some n \<and> writeMax_topo t n a = Some a' \<and> x' = (a', c + 1) else x' = x"
    using assms by (auto simp: x cnUpdate_def bind_Some_iff split: if_splits)
  show ?thesis
  proof (cases "sint (maxTopoID st) < sint (maxBDID ss)")
    case True
    then obtain n a' where "add_int64 (maxTopoID st) (maxBDID ss) = Some n" "writeMax_topo t n a = Some a'" "x' = (a', c + 1)"
      using u by auto
    then have "foldM race_step [?i, ?i, ?i, ?i] (pre @ (s, t # ts, Compare) # post, x) = Some (pre @ (s, ts, Compare) # post, x')"
      using True st by (simp add: race_step_at x)
    then show ?thesis by blast
  next
    case False
    then have "foldM race_step [?i] (pre @ (s, t # ts, Compare) # post, x) = Some (pre @ (s, ts, Compare) # post, x')"
      using False u st by (simp add: race_step_at x)
    then show ?thesis by blast
  qed
qed

lemma thread_schedule:
  "foldM (cnUpdate s) ts x = Some x' \<Longrightarrow>
     \<exists>sched. foldM race_step sched (pre @ (s, ts, Compare) # post, x) = Some (pre @ (s, [], Compare) # post, x')"
proof (induction ts arbitrary: x)
  case Nil
  then show ?case by (intro exI [of _ "[]"]) simp
next
  case (Cons t ts)
  then obtain y where y: "cnUpdate s t x = Some y" "foldM (cnUpdate s) ts y = Some x'" by (auto simp: bind_Some_iff)
  obtain p q where "foldM race_step p (pre @ (s, t # ts, Compare) # post, x) = Some (pre @ (s, ts, Compare) # post, y)"
    "foldM race_step q (pre @ (s, ts, Compare) # post, y) = Some (pre @ (s, [], Compare) # post, x')"
    using update_schedule [OF y(1)] Cons.IH [OF y(2)] by meson
  then show ?case by (intro exI [of _ "p @ q"]) (simp add: foldM_append)
qed

lemma map_schedule:
  assumes "mapM (cnStep g) ss x = Some (r, x')"
  shows "\<exists>thr. race_threads g ss = Some thr \<and> r = concat (map (\<lambda>(s, ts, p). ts) thr)
    \<and> (\<forall>pre. \<exists>sched. foldM race_step sched (pre @ thr, x) = Some (pre @ map finished thr, x'))"
  using assms
proof (induction ss arbitrary: x r)
  case Nil
  then show ?case by (auto intro!: exI [of _ "[]"])
next
  case (Cons s ss)
  then obtain ts y q where s: "cnStep g s x = Some (ts, y)" and ss: "mapM (cnStep g) ss y = Some (q, x')" and r: "r = ts @ q"
    by (auto simp: bind_Some_iff)
  obtain thr where thr: "race_threads g ss = Some thr" "q = concat (map (\<lambda>(s, ts, p). ts) thr)"
    "\<And>pre. \<exists>sched. foldM race_step sched (pre @ thr, y) = Some (pre @ map finished thr, x')"
    using Cons.IH [OF ss] by blast
  have t: "race_targets g s = Some ts" "foldM (cnUpdate s) ts x = Some y"
    using s by (auto simp: cnStep_def race_targets_def switchNbrs_def [symmetric] Let_def bind_Some_iff split: if_splits)
  have "\<exists>sched. foldM race_step sched (pre @ (s, ts, Compare) # thr, x)
      = Some (pre @ (s, [], Compare) # map finished thr, x')" for pre
  proof -
    obtain p where p: "foldM race_step p (pre @ (s, ts, Compare) # thr, x) = Some (pre @ (s, [], Compare) # thr, y)"
      using thread_schedule [OF t(2)] by blast
    obtain l where "foldM race_step l ((pre @ [(s, [], Compare)]) @ thr, y)
        = Some ((pre @ [(s, [], Compare)]) @ map finished thr, x')"
      using thr(3) by blast
    then show ?thesis using p by (intro exI [of _ "p @ l"]) (simp add: foldM_append)
  qed
  then show ?case using thr(1,2) t(1) r by simp
qed

lemma round_schedule:
  assumes "propagate_round g cn a c = Some r"
  shows "\<exists>sched. race_round sched g cn a c = Some r"
proof -
  obtain bd b where bd: "vs_map g (bdStep g) cn a = Some (bd, b)" and m: "vs_map g (cnStep g) bd (b, c) = Some r"
    using assms by (auto simp: propagate_round_def bind_Some_iff)
  obtain q x where q: "mapM (cnStep g) (g_sched g bd) (b, c) = Some (q, x)" "r = (g_subset g q, x)"
    using m by (auto simp: vs_map_def bind_Some_iff)
  obtain thr where thr: "race_threads g (g_sched g bd) = Some thr" "q = concat (map (\<lambda>(s, ts, p). ts) thr)"
    "\<And>pre. \<exists>sched. foldM race_step sched (pre @ thr, b, c) = Some (pre @ map finished thr, x)"
    using map_schedule [OF q(1)] by blast
  obtain sched where "foldM race_step sched (thr, b, c) = Some (map finished thr, x)"
    using thr(3) [of "[]"] by auto
  then have "race_map g sched bd (b, c) = Some r"
    using thr(1,2) q(2) by (auto simp: race_map_def list_all_iff finished_left)
  then show ?thesis using bd by (auto simp: race_round_def)
qed

lemma loop_schedules: "propagate_loop fuel g cn a old c = Some (Some r) \<Longrightarrow> \<exists>scheds. race_loop scheds g cn a old c = Some r"
proof (induction fuel arbitrary: cn a old c)
  case (Suc fuel)
  show ?case
  proof (cases "old = c")
    case True
    then show ?thesis using Suc.prems by (intro exI [of _ "[]"]) auto
  next
    case False
    then obtain cn1 a1 c1 where m: "propagate_round g cn a c = Some (cn1, a1, c1)" "propagate_loop fuel g cn1 a1 c c1 = Some (Some r)"
      using Suc.prems by (auto split: option.splits prod.splits)
    obtain sched scheds where "race_round sched g cn a c = Some (cn1, a1, c1)" "race_loop scheds g cn1 a1 c c1 = Some r"
      using round_schedule [OF m(1)] Suc.IH [OF m(2)] by blast
    then show ?thesis using False by (intro exI [of _ "sched # scheds"]) simp
  qed
qed simp

lemma race_run:
  "race_propagate scheds g cn a = Some r \<Longrightarrow> loop_run (\<lambda>cn a c r. \<exists>sched. race_round sched g cn a c = Some r) cn a 1 0 r"
  by (simp add: race_propagate_def race_loop_run)

section \<open>Example\<close>

text \<open>Two connection nodes (1 and 2) with two closed breakers (3 and 4) between them; node 1 has the id 5, node 2 none.\<close>

definition twin_breakers :: graph where
  "twin_breakers = table_graph [1, 2, 3, 4]
     [(1, 3, ''connected_Breaker_CN''), (2, 3, ''connected_Breaker_CN''),
      (1, 4, ''connected_Breaker_CN''), (2, 4, ''connected_Breaker_CN'')]
     (\<lambda>v. []) breaker_nprop (\<lambda>p. VNull)"

definition twin_alg :: alg where
  "twin_alg = (init_alg twin_breakers)\<lparr>states := [1 \<mapsto> initState\<lparr>maxTopoID := 5\<rparr>, 2 \<mapsto> initState\<lparr>maxTopoID := 0\<rparr>,
     3 \<mapsto> initState, 4 \<mapsto> initState]\<rparr>"

text \<open>Both threads compare the id 0 of node 2; then the first one writes, and the second one adds to what it wrote.\<close>

definition overshoot :: "nat list" where
  "overshoot = [0, 1, 0, 1, 0, 0, 0, 1, 1, 1]"

lemma twin_round:
  "case race_round overshoot twin_breakers [1, 2] twin_alg 0 of
     Some (cn, a, c) \<Rightarrow> topo_of a 1 = 5 \<and> topo_of a 2 = 10 \<and> c = 2 | None \<Rightarrow> False"
  "case propagate 4 twin_breakers [1, 2] twin_alg of Some (Some (cn, a)) \<Rightarrow> topo_of a 1 = 5 \<and> topo_of a 2 = 5 | _ \<Rightarrow> False"
  by code_simp+

lemma twin_nbrs: "switchNbrs twin_breakers v = (if v = 1 \<or> v = 2 then [3, 4] else if v = 3 \<or> v = 4 then [1, 2] else [])"
  by (auto simp: switchNbrs_def twin_breakers_def table_graph_def table_out_def table_in_def table_edge_def
      table_labels_def hasEdgeLabel_def bdLabels_def)

lemma twin_network:
  "subset_contract twin_breakers" "bounded_rounds twin_breakers" "live twin_breakers [1, 2] = {3, 4}"
  "switch_network twin_breakers [1, 2]" "ready twin_breakers [1, 2] [1, 2] twin_alg"
proof -
  show "subset_contract twin_breakers" by (simp add: twin_breakers_def table_contract)
  show "bounded_rounds twin_breakers" unfolding twin_breakers_def by (rule table_bounded) simp
  have "closedSwitch twin_breakers 3" "closedSwitch twin_breakers 4" by code_simp+
  then show live: "live twin_breakers [1, 2] = {3, 4}" by (auto simp: live_def twin_nbrs)
  show net: "switch_network twin_breakers [1, 2]" by (auto simp: switch_network_def live twin_nbrs)
  have "topo_of twin_alg 1 = 5" "topo_of twin_alg 2 = 0" "bd_of twin_alg 3 = -1" "bd_of twin_alg 4 = -1"
    by code_simp+
  then show "ready twin_breakers [1, 2] [1, 2] twin_alg"
    using ready_start [OF net] by (simp add: bd_known_def live twin_nbrs)
qed

section \<open>Properties\<close>

text \<open>Claim C2. When the propagation loop can end. The closed switches beside the connection nodes of the start set have only
  connection nodes of the start set as neighbours, and conversely (\<open>switch_network\<close>); every state and position exists; the
  ids are not negative, and no switch holds more than its nodes. Then some schedules of the threads make the loop end
  exactly when in each cluster the ids are zero or one common number, and exactly then the loop with the switches in
  sequence ends, within two rounds more than there are connection nodes. It is not said that every schedule ends:
  \<open>race_overshoot\<close> is a schedule after which no execution does.\<close>

theorem propagate_completes:
  assumes "subset_contract g" "bounded_rounds g" "switch_network g cn" "readable_network g cn a" "bd_known g cn a"
    and "\<forall>v \<in> set cn. 0 \<le> topo_of a v"
  shows "((\<exists>scheds r. race_propagate scheds g cn a = Some r) \<longleftrightarrow> common_ids g cn a)
    \<and> ((\<exists>r. propagate (length cn + 2) g cn a = Some (Some r)) \<longleftrightarrow> common_ids g cn a)"
proof -
  have "\<forall>v \<in> set cn. -1 \<le> topo_of a v" using assms(6) by force
  then have r: "ready g cn cn a" by (rule ready_start [OF assms(3,5)])
  have "common_ids g cn a" if "race_propagate scheds g cn a = Some r" for scheds r
    using interleaved.loop_common [OF assms(1-3) r race_run [OF that] one_neq_zero] .
  moreover have "\<exists>scheds. race_propagate scheds g cn a = Some r" if "propagate fuel g cn a = Some (Some r)" for fuel r
    using loop_schedules that by (simp add: propagate_def race_propagate_def)
  ultimately show ?thesis using common_ids_ends [OF assms(1,3-6)] by blast
qed

theorem propagate_completes_witness:
  "(\<exists>r. propagate 4 breaker_graph [1, 2] (breaker_alg 7 0) = Some (Some r))
   \<and> \<not> (\<exists>scheds r. race_propagate scheds breaker_graph [1, 2] (breaker_alg 7 3) = Some r)"
proof -
  have "common_ids breaker_graph [1, 2] (breaker_alg 7 0)" "\<not> common_ids breaker_graph [1, 2] (breaker_alg 7 3)"
    using breaker_cluster breaker_network(4) [of 7 0] breaker_network(4) [of 7 3] by (auto simp: common_ids_def)
  then show ?thesis
    using propagate_completes [OF breaker_network(1) breaker_bounded breaker_network(2,5), of 7 0] breaker_network(3,4) [of 7 0]
      propagate_completes [OF breaker_network(1) breaker_bounded breaker_network(2,5), of 7 3] breaker_network(3,4) [of 7 3]
    by (simp add: numeral_eq_Suc)
qed

text \<open>Claim C4. A clash keeps the loop from ending. The closed switches beside the connection nodes of the start set have only
  connection nodes of the start set as neighbours, and conversely (\<open>switch_network\<close>). If one of them lies between two nodes
  of different positive ids, no execution ends with a result, neither with the switches in sequence nor with any
  schedules of the threads: after every round two different positive ids remain beside one closed switch. An execution
  goes on, or stops at a sum that is out of range.\<close>

theorem clash_diverges:
  assumes "subset_contract g" "bounded_rounds g" "switch_network g cn" "bd_known g cn a"
    and "\<forall>v \<in> set cn. -1 \<le> topo_of a v" "clash g cn a"
  shows "\<not> (\<exists>scheds r. race_propagate scheds g cn a = Some r) \<and> \<not> (\<exists>fuel r. propagate fuel g cn a = Some (Some r))"
proof -
  note r = ready_start [OF assms(3-5)]
  have "race_propagate scheds g cn a \<noteq> Some q" for scheds q
    using interleaved.loop_result(1) [OF assms(1-3) r race_run one_neq_zero] assms(6) by blast
  moreover have "propagate fuel g cn a \<noteq> Some (Some q)" for fuel q
    using sequential.loop_result(1) [OF assms(1-3) r propagate_run one_neq_zero] assms(6) by blast
  ultimately show ?thesis by simp
qed

theorem clash_diverges_witness:
  "\<not> (\<exists>scheds r. race_propagate scheds breaker_graph [1, 2] (breaker_alg 9 7) = Some r)"
proof -
  have "clash breaker_graph [1, 2] (breaker_alg 9 7)"
    using breaker_network(4) [of 9 7] by (auto simp: clash_def breaker_live breaker_nbrs)
  then show ?thesis
    using clash_diverges [OF breaker_network(1) breaker_bounded breaker_network(2)] breaker_network(3,4) [of 9 7] by simp
qed

text \<open>Claim C29. The data race does not change what a loop that ends has computed. With any schedules of the threads, if the loop
  ends, every connection node has the highest id of its cluster and no other vertex has changed its id, as with the
  switches in sequence. The ids at the start are -1 or more, no switch holds more than its nodes, and the closed
  switches beside the connection nodes lie between connection nodes of the start set.\<close>

theorem race_cluster_max:
  assumes "subset_contract g" "bounded_rounds g" "switch_network g cn" "bd_known g cn a" "\<forall>v \<in> set cn. -1 \<le> topo_of a v"
    and "race_propagate scheds g cn a = Some (cn', a')"
  shows "topo_of a' v = (if v \<in> set cn then Max (topo_of a ` cluster g cn v) else topo_of a v)"
  using interleaved.loop_cluster_max [OF assms(1-3) ready_start [OF assms(3-5)] race_run [OF assms(6)] one_neq_zero] by simp

theorem race_cluster_max_witness:
  "\<exists>scheds cn' a'. race_propagate scheds breaker_graph [1, 2] (breaker_alg 7 0) = Some (cn', a') \<and> topo_of a' 2 = 7"
proof -
  let ?a = "breaker_alg 7 0"
  note n = breaker_network(3-5) [of 7 0]
  have "common_ids breaker_graph [1, 2] ?a" using breaker_cluster n(2) by (simp add: common_ids_def)
  then obtain r where "propagate (length [1, 2 :: NodeID] + 2) breaker_graph [1, 2] ?a = Some (Some r)"
    using common_ids_ends [OF breaker_network(1,2), of ?a] n by auto
  then obtain scheds where "race_propagate scheds breaker_graph [1, 2] ?a = Some r"
    using loop_schedules unfolding propagate_def race_propagate_def by blast
  then obtain cn' a' where p: "race_propagate scheds breaker_graph [1, 2] ?a = Some (cn', a')" by (cases r) auto
  have "topo_of a' 2 = Max (topo_of ?a ` {1, 2})"
    using race_cluster_max [OF breaker_network(1) breaker_bounded breaker_network(2) _ _ p, of 2] n(1,2)
      breaker_cluster [of 2] by simp
  then show ?thesis using n(2) p by auto
qed

text \<open>Claim C40. The data race can keep the loop from ending. In a network of two connection nodes with the ids 5 and 0 and two
  closed breakers between them the loop with the breakers in sequence ends; but if both threads compare the id 0 before
  one of them writes, the other one adds its 5 to the 5 it then reads, node 2 gets the id 10, and no execution that
  starts with this round ends.\<close>

theorem race_overshoot:
  "(\<exists>r. propagate 4 twin_breakers [1, 2] twin_alg = Some (Some r))
   \<and> (\<exists>cn a c. race_round overshoot twin_breakers [1, 2] twin_alg 0 = Some (cn, a, c) \<and> topo_of a 1 = 5 \<and> topo_of a 2 = 10)
   \<and> \<not> (\<exists>scheds r. race_propagate (overshoot # scheds) twin_breakers [1, 2] twin_alg = Some r)"
proof (intro conjI)
  show "\<exists>r. propagate 4 twin_breakers [1, 2] twin_alg = Some (Some r)" using twin_round(2) by (auto split: option.splits)
  obtain cn a c where r: "race_round overshoot twin_breakers [1, 2] twin_alg 0 = Some (cn, a, c)"
    and ids: "topo_of a 1 = 5" "topo_of a 2 = 10" "c = 2"
    using twin_round(1) by (auto split: option.splits)
  then show "\<exists>cn a c. race_round overshoot twin_breakers [1, 2] twin_alg 0 = Some (cn, a, c) \<and> topo_of a 1 = 5 \<and> topo_of a 2 = 10"
    by blast
  have a: "ready twin_breakers [1, 2] cn a"
    using halves_within(1) [OF race_halves [OF twin_network(1,4,5) r]] .
  have "clash twin_breakers [1, 2] a" using ids by (auto simp: clash_def twin_network(3) twin_nbrs)
  moreover have "\<not> clash twin_breakers [1, 2] a" if "race_loop scheds twin_breakers cn a 0 c = Some q" for scheds q
    using interleaved.loop_result(1) [OF twin_network(1,2,4) a race_loop_run [OF that]] ids(3) by simp
  ultimately show "\<not> (\<exists>scheds r. race_propagate (overshoot # scheds) twin_breakers [1, 2] twin_alg = Some r)"
    by (auto simp: race_propagate_def r)
qed

end
