(* ===== verification/TopoCorrect.thy ===== *)
theory TopoCorrect
  imports TopoIds PropagationRace
begin

text \<open>
  The whole run against its specification. The ids before the propagation loop are given in closed form by the graph:
  the highest number \<^verbatim>\<open>nd\<close> of equipment in service at a connection node, or -1. With what the loop computes, a
  completed run reports for each piece of equipment the highest such number in the cluster of its connection node;
  and a run does not complete when a cluster has two different numbers.
\<close>

section \<open>Before the loop\<close>

text \<open>\<open>run_start\<close> up to its last stage.\<close>

definition run_head :: "graph \<Rightarrow> alg \<Rightarrow> (NodeID list \<times> NodeID list \<times> alg) option" where
  "run_head g a = do {
     flagged \<leftarrow> disSetByFlag g (verticesOf g ''discrete'');
     (breakers, a) \<leftarrow> breakerSet g flagged a;
     a \<leftarrow> breakerPoints g breakers a;
     (disconnectors, a) \<leftarrow> disSet g flagged a;
     a \<leftarrow> disPoints g disconnectors a;
     (sub, a) \<leftarrow> selectSub g (verticesOf g ''Substation'') a;
     (cnOpen, a) \<leftarrow> cnOpenSub g sub a;
     (misc, a) \<leftarrow> miscellaneous g sub a;
     Some (cnOpen, misc, a)
   }"

lemma run_start_head:
  "run_start g a = do { (cnOpen, misc, a) \<leftarrow> run_head g a; (cn, a) \<leftarrow> cnTotal g misc a; Some (cnOpen, cn, a) }"
  by (simp add: run_start_def run_head_def case_prod_beta')

context frame_invariant
begin

lemma run_head_P: "run_head g a = Some (cnOpen, misc, a') \<Longrightarrow> P a \<Longrightarrow> P a'"
  unfolding run_head_def
  by (clarsimp simp: bind_Some_iff) (erule breakerSet_P breakerPoints_P disSet_P disPoints_P select_P | assumption)+

end

section \<open>Equipment in service and its connection nodes\<close>

definition out_in_service :: "graph \<Rightarrow> string list \<Rightarrow> NodeID \<Rightarrow> NodeID set" where
  "out_in_service g ls s = {t \<in> set (g_outNeighborIDs g s (hasEdgeLabel g ls)). inService g t}"

definition selected :: "graph \<Rightarrow> NodeID set" where
  "selected g = (\<Union>s \<in> set (verticesOf g ''Substation''). out_in_service g connectedSubLabels s)"

definition in_service :: "graph \<Rightarrow> NodeID set" where
  "in_service g = (\<Union>s \<in> selected g. out_in_service g (connectedSubLabels @ [''connected_Sub_Compensator_S'']) s)"

definition open_nodes :: "graph \<Rightarrow> NodeID set" where
  "open_nodes g = (\<Union>s \<in> selected g. set (attached g [''cn_subid''] s))"

definition total_nodes :: "graph \<Rightarrow> NodeID set" where
  "total_nodes g = (\<Union>s \<in> in_service g. set (attached g cnLabels s))"

text \<open>The number \<^verbatim>\<open>nd\<close> of equipment, and the vertices it is given to.\<close>

definition nd_of :: "graph \<Rightarrow> NodeID \<Rightarrow> int" where
  "nd_of g s = sint (the (int_prop g s ''nd''))"

definition numbers :: "graph \<Rightarrow> NodeID \<Rightarrow> NodeID \<Rightarrow> bool" where
  "numbers g s v \<longleftrightarrow> v \<in> set (attached g cnLabels s) \<or> (v = s \<and> attached g cnLabels s \<noteq> [])"

definition start_id :: "graph \<Rightarrow> NodeID \<Rightarrow> int" where
  "start_id g v = Max (insert (-1) (nd_of g ` {s \<in> in_service g. numbers g s v}))"

lemma run_head_sets:
  assumes "subset_contract g" "run_head g a = Some (cnOpen, misc, a')"
  shows "set cnOpen = open_nodes g" "set misc = in_service g"
proof -
  obtain a1 sub a2 a3 where s: "selectSub g (verticesOf g ''Substation'') a1 = Some (sub, a2)"
    "cnOpenSub g sub a2 = Some (cnOpen, a3)" "miscellaneous g sub a3 = Some (misc, a')"
    using assms(2) by (auto simp: run_head_def bind_Some_iff)
  have sub: "set sub = selected g" unfolding selected_def
    by (rule vs_map_result [OF assms(1) s(1) [unfolded selectSub_def]]) (auto simp: out_in_service_def emplaced_def)
  show "set cnOpen = open_nodes g" unfolding open_nodes_def sub [symmetric]
    by (rule vs_map_result [OF assms(1) s(2) [unfolded cnOpenSub_def]]) (auto simp: attached_def)
  show "set misc = in_service g" unfolding in_service_def sub [symmetric]
    by (rule vs_map_result [OF assms(1) s(3) [unfolded miscellaneous_def]]) (auto simp: out_in_service_def emplaced_def)
qed

section \<open>The ids at the start\<close>

lemma writeMax_topo_values:
  assumes "writeMax_topo t x a = Some b"
  shows "topo_of b v = (if v = t then max (topo_of a v) (sint x) else topo_of a v)" "map_option maxBDID (states b v) = map_option maxBDID (states a v)"
  using assms by (auto simp: writeMax_topo_def topo_of_def max64_cases)

lemma numbering_values:
  assumes "foldM (\<lambda>t a. do { a \<leftarrow> writeMax_topo t nd a; writeMax_topo s nd a }) ts a = Some b"
  shows "topo_of b v = (if v \<in> set ts \<or> (v = s \<and> ts \<noteq> []) then max (topo_of a v) (sint nd) else topo_of a v)
    \<and> map_option maxBDID (states b v) = map_option maxBDID (states a v)"
  using assms
proof (induction ts arbitrary: a)
  case (Cons t ts)
  then obtain c d where c: "writeMax_topo t nd a = Some c" "writeMax_topo s nd c = Some d"
    and d: "foldM (\<lambda>t a. do { a \<leftarrow> writeMax_topo t nd a; writeMax_topo s nd a }) ts d = Some b"
    by (auto simp: bind_Some_iff)
  show ?case
    using Cons.IH [OF d] writeMax_topo_values [OF c(1), of v] writeMax_topo_values [OF c(2), of v] by auto
qed simp

lemma Max_insert_max: "finite S \<Longrightarrow> Max (insert (max p q) S) = Max (insert p (insert q S))" for p q :: int
  by (cases "S = {}") (auto simp: ac_simps)

lemma cnTotal_values:
  assumes "subset_contract g" "cnTotal g misc a = Some (cn, b)"
  shows "topo_of b v = Max (insert (topo_of a v) (nd_of g ` {s \<in> set misc. numbers g s v}))"
    "map_option maxBDID (states b v) = map_option maxBDID (states a v)" "set cn = (\<Union>s \<in> set misc. set (attached g cnLabels s))"
proof -
  let ?f = "\<lambda>s a. do {
     nd \<leftarrow> int_prop g s ''nd'';
     let tgts = g_neighborIDs g s (hasEdgeLabel g cnLabels);
     a \<leftarrow> foldM (\<lambda>t a. do { a \<leftarrow> writeMax_topo t nd a; writeMax_topo s nd a }) tgts a;
     Some (tgts, a)
   }"
  obtain r where r: "mapM ?f (g_sched g misc) a = Some (r, b)"
    using assms(2) by (auto simp: cnTotal_def vs_map_def bind_Some_iff)
  have "topo_of b v = Max (insert (topo_of a v) (nd_of g ` {s \<in> set xs. numbers g s v}))
      \<and> map_option maxBDID (states b v) = map_option maxBDID (states a v)"
    if "mapM ?f xs a = Some (r, b)" for xs a r
    using that
  proof (induction xs arbitrary: a r)
    case (Cons x xs)
    then obtain nd c q where x: "int_prop g x ''nd'' = Some nd"
      "foldM (\<lambda>t a. do { a \<leftarrow> writeMax_topo t nd a; writeMax_topo x nd a }) (attached g cnLabels x) a = Some c"
      and c: "mapM ?f xs c = Some (q, b)"
      by (auto simp: bind_Some_iff Let_def attached_def)
    have nd: "sint nd = nd_of g x" by (simp add: nd_of_def x(1))
    let ?S = "nd_of g ` {s \<in> set xs. numbers g s v}"
    have "nd_of g ` {s \<in> set (x # xs). numbers g s v} = (if numbers g x v then insert (nd_of g x) ?S else ?S)" by auto
    moreover have "Max (insert (max p q) ?S) = Max (insert p (insert q ?S))" for p q :: int
      by (rule Max_insert_max) simp
    ultimately show ?case
      using Cons.IH [OF c] numbering_values [OF x(2), of v] by (simp add: nd numbers_def)
  qed simp
  from this [OF r] show "topo_of b v = Max (insert (topo_of a v) (nd_of g ` {s \<in> set misc. numbers g s v}))"
    "map_option maxBDID (states b v) = map_option maxBDID (states a v)"
    using assms(1) by (simp_all add: subset_contract_def)
  show "set cn = (\<Union>s \<in> set misc. set (attached g cnLabels s))"
    by (rule vs_map_result [OF assms(1) assms(2) [unfolded cnTotal_def]]) (auto simp: bind_Some_iff Let_def attached_def)
qed

lemma start_values:
  assumes "subset_contract g" "run_start g (init_alg g) = Some (cnOpen, cn, a)"
  shows "set cnOpen = open_nodes g" "set cn = total_nodes g"
    "v \<in> set (g_nodeIDs g) \<Longrightarrow> topo_of a v = start_id g v" "v \<in> set (g_nodeIDs g) \<Longrightarrow> bd_of a v = -1"
proof -
  obtain misc b where h: "run_head g (init_alg g) = Some (cnOpen, misc, b)" and c: "cnTotal g misc b = Some (cn, a)"
    using assms(2) by (auto simp: run_start_head bind_Some_iff)
  note s = run_head_sets [OF assms(1) h] and t = cnTotal_values [OF assms(1) c]
  have b0: "(\<forall>v. map_option maxTopoID (states b v) = map_option maxTopoID (states (init_alg g) v))
      \<and> (\<forall>v. map_option maxBDID (states b v) = map_option maxBDID (states (init_alg g) v))
      \<and> (\<forall>v. map_option topoID (states b v) = map_option topoID (states (init_alg g) v))
      \<and> insertedNodes b = [] \<and> others (insertedEdges b) = []"
    by (rule keeps_ids.run_head_P [OF h]) (simp add: init_alg_def)
  have b: "map_option maxTopoID (states b v) = Some (-1)" "map_option maxBDID (states b v) = Some (-1)"
    if v: "v \<in> set (g_nodeIDs g)" for v
  proof -
    obtain st where "states (init_alg g) v = Some st"
      using v by (auto simp: init_alg_def dom_emplace_states [symmetric])
    then have "states (init_alg g) v = Some initState" by (auto simp: init_alg_def dest: emplace_states_init)
    then show "map_option maxTopoID (states b v) = Some (-1)" "map_option maxBDID (states b v) = Some (-1)"
      using b0 by (simp_all add: initState_def)
  qed
  show "set cnOpen = open_nodes g" by (rule s)
  show "set cn = total_nodes g" by (simp add: t(3) s(2) total_nodes_def)
  show "topo_of a v = start_id g v" if "v \<in> set (g_nodeIDs g)"
    using t(1) [of v] b(1) [OF that] by (auto simp: s(2) start_id_def topo_of_def)
  show "bd_of a v = -1" if "v \<in> set (g_nodeIDs g)"
    using t(2) [of v] b(2) [OF that] by (auto simp: bd_of_def)
qed

text \<open>Connection nodes and the switches beside them are vertices of the graph.\<close>

definition wired :: "graph \<Rightarrow> NodeID list \<Rightarrow> bool" where
  "wired g cn \<longleftrightarrow> set cn \<subseteq> set (g_nodeIDs g) \<and> (\<forall>u \<in> set cn. set (switchNbrs g u) \<subseteq> set (g_nodeIDs g))"

lemma start_ready:
  assumes "subset_contract g" "run_start g (init_alg g) = Some (cnOpen, cn, a)" "switch_network g cnOpen" "wired g cnOpen"
  shows "bd_known g cnOpen a" "\<forall>v \<in> set cnOpen. -1 \<le> topo_of a v" "v \<in> set cnOpen \<Longrightarrow> topo_of a v = start_id g v"
proof -
  note s = start_values [OF assms(1,2)]
  show t: "topo_of a v = start_id g v" if "v \<in> set cnOpen" for v using that assms(4) s(3) by (auto simp: wired_def)
  have "finite {s \<in> in_service g. numbers g s v}" for v
    by (simp add: in_service_def selected_def out_in_service_def)
  then have "-1 \<le> start_id g v" for v unfolding start_id_def by (intro Max_ge) simp_all
  then show ids: "\<forall>v \<in> set cnOpen. -1 \<le> topo_of a v" by (simp add: t)
  show "bd_known g cnOpen a" unfolding bd_known_def
  proof
    fix w assume w: "w \<in> live g cnOpen"
    then obtain u where u: "u \<in> set cnOpen" "w \<in> set (switchNbrs g u)" by (auto simp: live_def)
    then have "bd_of a w = -1" using assms(4) s(4) by (auto simp: wired_def)
    moreover have "u \<in> set (switchNbrs g w)" using live_nbrs [OF assms(3) w] u by simp
    ultimately show "\<exists>u \<in> set (switchNbrs g w). bd_of a w \<le> topo_of a u" using ids u(1) by auto
  qed
qed

lemma start_cluster:
  assumes "subset_contract g" "run_start g (init_alg g) = Some (cnOpen, cn, a)" "switch_network g cnOpen" "wired g cnOpen" "u \<in> set cnOpen"
  shows "topo_of a ` cluster g cnOpen u = start_id g ` cluster g cnOpen u"
  using cluster_sub [OF assms(3,5)] start_ready(3) [OF assms(1-4)] by (intro image_cong) auto

section \<open>Properties\<close>

lemma pair_start:
  "case run_start pair_graph (init_alg pair_graph) of Some (cnOpen, cn, a) \<Rightarrow> topo_of a 4 = 9 \<and> topo_of a 5 = 0 | None \<Rightarrow> False"
  by code_simp

lemma pair_wired: "switch_network pair_graph [4, 5]" "wired pair_graph [4, 5]" "cluster pair_graph [4, 5] 5 = {4, 5}"
proof -
  have nbrs: "switchNbrs pair_graph 4 = [6]" "switchNbrs pair_graph 5 = [6]" "switchNbrs pair_graph 6 = [4, 5]"
    using pair_facts(4) by simp_all
  then have live: "live pair_graph [4, 5] = {6}" using pair_facts(5) by (auto simp: live_def)
  show "switch_network pair_graph [4, 5]" by (auto simp: switch_network_def live nbrs)
  have "g_nodeIDs pair_graph = [1, 2, 3, 4, 5, 6, 7]" by (simp add: pair_graph_def table_graph_def)
  then show "wired pair_graph [4, 5]" by (simp add: wired_def nbrs)
  have j: "joined pair_graph [4, 5] = {4, 5} \<times> {4, 5}" by (auto simp: joined_def live nbrs)
  have "v \<in> {4, 5}" if "(5, v) \<in> (joined pair_graph [4, 5])\<^sup>*" for v
    using that by induction (auto simp: j)
  moreover have "(5, v) \<in> (joined pair_graph [4, 5])\<^sup>*" if "v \<in> {4, 5}" for v
    using that j by (intro r_into_rtrancl) auto
  ultimately show "cluster pair_graph [4, 5] 5 = {4, 5}" unfolding cluster_def by blast
qed

text \<open>Claim C1. What a run computes. A completed run reports a piece of equipment with the highest number \<^verbatim>\<open>nd\<close> of equipment
  in service in the cluster of its connection node (-1 if there is none): the connection nodes that closed switches
  join to it. The connection nodes the run considers are those next to selected equipment and to equipment in
  service. The equipment has one connection node in service, and switches lie between connection nodes.\<close>

theorem run_correct:
  assumes "subset_contract g" "bounded_rounds g" "run fuel g (init_alg g) = Some (Some a)"
    "run_start g (init_alg g) = Some (cnOpen, cn, a1)" "switch_network g cnOpen" "wired g cnOpen" "separate (equipment g) cn"
    and "u \<in> set cnOpen" "{s \<in> set cn. t \<in> set (equipment g s)} = {u}"
  shows "set cnOpen = open_nodes g \<and> set cn = total_nodes g
    \<and> (\<exists>i. reported_id a t = Some (VInt64 i) \<and> sint i = Max (start_id g ` cluster g cnOpen u))"
proof -
  obtain cn' a2 where p: "propagate fuel g cnOpen a1 = Some (Some (cn', a2))" and top: "\<forall>s \<in> set cn. top_id a s = top_id a2 s"
    and eq: "\<forall>v. v \<in> (\<Union>s \<in> set cn. set (equipment g s)) \<longrightarrow> (\<exists>s \<in> set cn. v \<in> set (equipment g s)
       \<and> map_option topoID (states a v) = Some (Some (top_id a s)))"
    by (rule run_ids [OF assms(1,3,4,7)])
  have u: "u \<in> set cn" "t \<in> set (equipment g u)" using assms(9) by blast+
  then obtain s where "s \<in> set cn" "t \<in> set (equipment g s)" "map_option topoID (states a t) = Some (Some (top_id a s))"
    using eq by blast
  moreover then have "s = u" using assms(9) by blast
  ultimately have "reported_id a t = Some (VInt64 (top_id a u))" by (auto intro: reported_id_Some)
  moreover have "sint (top_id a u) = Max (start_id g ` cluster g cnOpen u)"
    using propagate_max [OF assms(1,2,5) start_ready(1,2) [OF assms(1,4-6)] p assms(8)] top u(1)
    by (simp add: start_cluster [OF assms(1,4-6,8)], simp add: topo_of_def top_id_def)
  ultimately show ?thesis using start_values(1,2) [OF assms(1,4)] by blast
qed

theorem run_correct_witness:
  "\<exists>a. run 4 pair_graph (init_alg pair_graph) = Some (Some a) \<and> reported_id a 3 = Some (VInt64 9)"
proof -
  obtain a a1 where r: "run 4 pair_graph (init_alg pair_graph) = Some (Some a)"
    "run_start pair_graph (init_alg pair_graph) = Some ([4, 5], [4, 5], a1)" by (rule pair_run)
  have ids: "start_id pair_graph 4 = 9" "start_id pair_graph 5 = 0"
    using pair_start r(2) start_ready(3) [OF pair_network(1) r(2) pair_wired(1,2)] by auto
  have "{s \<in> set [4, 5]. 3 \<in> set (equipment pair_graph s)} = {5}" using pair_facts(3) by auto
  then obtain i where i: "reported_id a 3 = Some (VInt64 i)" "sint i = 9"
    using run_correct [OF pair_network(1,2) r pair_wired(1,2) pair_network(3), of 5 3] ids by (auto simp: pair_wired(3))
  have "i = 9" using i(2) by (intro signed_word_eqI) simp
  then show ?thesis using r(1) i(1) by blast
qed

text \<open>Claim C5. When a run does not complete. The closed switches beside the connection nodes that the propagation starts from
  have only such connection nodes as neighbours, and conversely (\<open>switch_network\<close>), and all these are vertices of the graph
  (\<open>wired\<close>). If equipment in service gives two connection nodes of a cluster different positive numbers, no amount of
  fuel makes the run end with a result, and the propagation does not end with any schedules of its threads: each
  connection node has its own number in an ordinary network, so a single closed switch between two of them is enough.\<close>

theorem run_blocked:
  assumes "subset_contract g" "bounded_rounds g" "run_start g (init_alg g) = Some (cnOpen, cn, a1)"
    "switch_network g cnOpen" "wired g cnOpen"
    and "u \<in> set cnOpen" "v \<in> cluster g cnOpen u" "0 < start_id g u" "0 < start_id g v" "start_id g u \<noteq> start_id g v"
  shows "run fuel g (init_alg g) \<noteq> Some (Some a) \<and> race_propagate scheds g cnOpen a1 \<noteq> Some r"
proof -
  note s = start_ready [OF assms(1,3-5)]
  have "v \<in> set cnOpen" using cluster_sub [OF assms(4,6)] assms(7) by blast
  then have no: "\<not> common_ids g cnOpen a1" using assms(6-10) s(3) unfolding common_ids_def by metis
  have "race_propagate scheds g cnOpen a1 \<noteq> Some r"
    using interleaved.loop_common [OF assms(1,2,4) ready_start [OF assms(4) s(1,2)] race_run one_neq_zero] no by blast
  moreover have "run fuel g (init_alg g) \<noteq> Some (Some a)"
  proof
    assume "run fuel g (init_alg g) = Some (Some a)"
    then obtain cn' a2 where p: "propagate fuel g cnOpen a1 = Some (Some (cn', a2))"
      using assms(3) by (auto simp: run_def split: option.splits)
    then show False using common_ids_end [OF assms(1,2,4) s(1,2) p] no by blast
  qed
  ultimately show ?thesis by blast
qed

text \<open>The same network with the number 8 at the second line end.\<close>

definition twin_graph :: graph where
  "twin_graph = table_graph [1, 2, 3, 4, 5, 6, 7]
     [(1, 7, ''connected_Sub_Aclinedot''), (7, 2, ''connected_Sub_Aclinedot''), (7, 3, ''connected_Sub_Aclinedot''),
      (7, 4, ''cn_subid''), (7, 5, ''cn_subid''), (4, 2, ''aclinedot_cn''), (5, 3, ''aclinedot_cn''),
      (4, 6, ''connected_Breaker_CN''), (5, 6, ''connected_Breaker_CN'')]
     line_labels (\<lambda>v p. if v = 3 \<and> p = ''nd'' then VInt64 8 else pair_nprop v p) line_eprop"

lemma twin_facts:
  "case run_start twin_graph (init_alg twin_graph) of Some (cnOpen, cn, a) \<Rightarrow>
     cnOpen = [4, 5] \<and> topo_of a 4 = 9 \<and> topo_of a 5 = 8 | None \<Rightarrow> False"
  "map (switchNbrs twin_graph) [4, 5, 6] = [[6], [6], [4, 5]]" "closedSwitch twin_graph 6"
  by code_simp+

theorem run_blocked_witness: "\<not> (\<exists>a. run 1000 twin_graph (init_alg twin_graph) = Some (Some a))"
proof -
  obtain cn a1 where r: "run_start twin_graph (init_alg twin_graph) = Some ([4, 5], cn, a1)" "topo_of a1 4 = 9" "topo_of a1 5 = 8"
    using twin_facts(1) by (auto split: option.splits)
  have c: "subset_contract twin_graph" by (simp add: twin_graph_def table_contract)
  have b: "bounded_rounds twin_graph" unfolding twin_graph_def by (rule table_bounded) simp
  have nbrs: "switchNbrs twin_graph 4 = [6]" "switchNbrs twin_graph 5 = [6]" "switchNbrs twin_graph 6 = [4, 5]"
    using twin_facts(2) by simp_all
  then have live: "live twin_graph [4, 5] = {6}" using twin_facts(3) by (auto simp: live_def)
  have n: "switch_network twin_graph [4, 5]" by (auto simp: switch_network_def live nbrs)
  have "g_nodeIDs twin_graph = [1, 2, 3, 4, 5, 6, 7]" by (simp add: twin_graph_def table_graph_def)
  then have w: "wired twin_graph [4, 5]" by (simp add: wired_def nbrs)
  have "5 \<in> cluster twin_graph [4, 5] 4"
    by (rule cluster_step [OF cluster_refl]) (simp add: joined_def live nbrs)
  then show ?thesis
    using run_blocked [OF c b r(1) n w, of 4 5] start_ready(3) [OF c r(1) n w] r(2,3) by auto
qed

end
