(* ===== verification/TopoFacts.thy ===== *)
theory TopoFacts
  imports TopoExample
begin

text \<open>
  Functional properties of single stages of the topology algorithm and of the procedure around
  it: the switch positions, the ids of the series compensators, what \<^verbatim>\<open>writeDouble\<close> stores, the
  outcome of the procedure and the registry of the plugin.
\<close>

section \<open>Switch positions\<close>

definition expectedPoint :: "string list \<Rightarrow> string \<Rightarrow> string \<Rightarrow> int32 \<Rightarrow> int64" where
  "expectedPoint closed opened name telemetered =
     (if name \<in> set closed then 1 else if name = opened then 0 else scast telemetered)"

text \<open>After the breaker stage every breaker of the set has the position its name forces,
  1 for the four listed breakers and 0 for the one listed as open, and otherwise the telemetered
  position widened from 32 to 64 bits.\<close>

theorem breakerPoints_positions:
  assumes "subset_contract g" "breakerPoints g vs a = Some a'" "t \<in> set vs"
    and "string_prop g t ''name'' = Some n" "states a t = Some st"
  shows "map_option point (states a' t) =
    Some (Some (expectedPoint closedBreakers openBreaker n (breakerPoint st)))"
proof -
  let ?P = "\<lambda>b. \<forall>v. map_option breakerPoint (states b v) = map_option breakerPoint (states a v)"
  let ?Q = "\<lambda>v b. \<forall>n st. string_prop g v ''name'' = Some n \<longrightarrow> states a v = Some st \<longrightarrow>
    map_option point (states b v) = Some (Some (expectedPoint closedBreakers openBreaker n (breakerPoint st)))"
  have "\<forall>v \<in> set (g_sched g vs). ?Q v a'"
    using assms(2) unfolding breakerPoints_def vs_forEach_def
  proof (rule foldM_establishes [where P = ?P and Q = ?Q])
    fix v b b'
    assume P: "?P b" and "(do {
       name \<leftarrow> string_prop g v ''name'';
       st \<leftarrow> state b v;
       let p = (if name \<in> set closedBreakers then 1 else if name = openBreaker then 0
                else scast (breakerPoint st));
       upd_state v (\<lambda>st. st\<lparr>point := Some p\<rparr>) b }) = Some b'"
    then obtain m s where b: "string_prop g v ''name'' = Some m" "states b v = Some s"
      "b' = b\<lparr>states := (states b)(v \<mapsto>
         s\<lparr>point := Some (expectedPoint closedBreakers openBreaker m (breakerPoint s))\<rparr>)\<rparr>"
      by (auto simp: bind_Some_iff state_def Let_def expectedPoint_def)
    have "map_option breakerPoint (states a v) = Some (breakerPoint s)" using P b(2) by (metis option.simps(9))
    then show "?P b' \<and> ?Q v b' \<and> (\<forall>y. ?Q y b \<longrightarrow> ?Q y b')"
      using P b by auto
  qed simp
  then show ?thesis using assms by (auto simp: subset_contract_def)
qed

definition breakers_graph :: graph where
  "breakers_graph = table_graph [1, 2] [] (\<lambda>v. [])
     (\<lambda>v p. VString (if v = 1 then openBreaker else ''other'')) (\<lambda>p. VNull)"

theorem breakerPoints_positions_witness:
  "map_option point (states (the (breakerPoints breakers_graph [1, 2] (init_alg breakers_graph))) 1) = Some (Some 0)"
proof -
  have r: "\<exists>a. breakerPoints breakers_graph [1, 2] (init_alg breakers_graph) = Some a"
    by (simp add: breakerPoints_def vs_forEach_def breakers_graph_def table_graph_def string_prop_def
        getString_def init_alg_def state_def upd_state_def)
  then obtain a where a: "breakerPoints breakers_graph [1, 2] (init_alg breakers_graph) = Some a" ..
  have "subset_contract breakers_graph"
    by (simp add: breakers_graph_def table_graph_def subset_contract_def emplaced_def)
  moreover have "string_prop breakers_graph 1 ''name'' = Some openBreaker"
    by (simp add: breakers_graph_def table_graph_def string_prop_def getString_def)
  moreover have "states (init_alg breakers_graph) 1 = Some initState"
    by (simp add: init_alg_def breakers_graph_def table_graph_def)
  moreover have "openBreaker \<notin> set closedBreakers"
  proof -
    have "openBreaker ! 1 \<notin> (\<lambda>n. n ! 1) ` set closedBreakers"
      by (simp add: closedBreakers_def openBreaker_def utf8_def)
    then show ?thesis by blast
  qed
  ultimately show ?thesis
    using breakerPoints_positions [OF _ a, of 1] by (simp add: a expectedPoint_def)
qed

section \<open>Series compensators\<close>

text \<open>The id of a series compensator's end is stored in 32 bits. The id the result table
  reports is the topology id of the connection node exactly when that id fits 32 signed bits.\<close>

theorem cs_end_id:
  assumes "csEnd g cnID s t a = Some ([t], a1)" "int_prop g t ''I_nd'' = Some cnID"
    and "states a s = Some ss" "csSetIDs t a1 = Some a2"
  shows "map_option itopoID (states a2 t) = Some (Some (maxTopoID ss)) \<longleftrightarrow>
    - (2 ^ 31) \<le> sint (maxTopoID ss) \<and> sint (maxTopoID ss) < 2 ^ 31"
proof -
  have eq: "map_option itopoID (states a2 t) = Some (Some (scast (ucast (maxTopoID ss) :: int32)))"
    using assms by (auto simp: csEnd_def csSetIDs_def bind_Some_iff state_def split: if_splits)
  show ?thesis unfolding eq by (simp only: option.inject narrow_widen_iff)
qed

definition cs_graph :: graph where
  "cs_graph = table_graph [1, 2] [] (\<lambda>v. []) (\<lambda>v p. VInt64 0) (\<lambda>p. VNull)"

theorem cs_end_id_witness:
  "map_option itopoID (states (the (csSetIDs 2 (snd (the (csEnd cs_graph 0 1 2 (init_alg cs_graph)))))) 2) =
     Some (Some (-1))"
proof -
  have "case csEnd cs_graph 0 1 2 (init_alg cs_graph) of
      Some (r, a1) \<Rightarrow> r = [2] \<and> csSetIDs 2 a1 \<noteq> None | None \<Rightarrow> False" by code_simp
  then obtain a1 a2 where a: "csEnd cs_graph 0 1 2 (init_alg cs_graph) = Some ([2], a1)" "csSetIDs 2 a1 = Some a2"
    by (auto split: option.splits prod.splits)
  have "int_prop cs_graph 2 ''I_nd'' = Some 0" by code_simp
  moreover have "states (init_alg cs_graph) 1 = Some initState"
    by (simp add: init_alg_def cs_graph_def table_graph_def)
  ultimately show ?thesis
    using cs_end_id [OF a(1) _ _ a(2)] by (simp add: a initState_def)
qed

section \<open>Measurements\<close>

text \<open>Claim C15. \<^verbatim>\<open>writeDouble\<close> stores the bits of an integer. A measurement whose integral part is
  between 0 and 2^52 is read back as that many units of 2^-1074, and the next vertex it is passed
  to receives zero.\<close>

theorem measurement_lost:
  assumes "writeDouble c set_sumQimeas q a = Some a1" "d_to_int64 q = Some i" "uint i < 2 ^ 52"
    and "passQimeas c t a1 = Some a2"
  shows "map_option (decode \<circ> sumQimeas) (states a1 c) = Some (FFin False (uint i) (-1074)) \<and>
    map_option sumQimeas (states a2 t) = Some 0"
  using assms d_to_int64_subnormal [OF assms(3)]
  by (auto simp: passQimeas_def bind_Some_iff state_def set_sumQimeas_def decode_subnormal split: if_splits)

theorem measurement_lost_witness:
  "map_option sumQimeas (states (the (passQimeas 1 2
     (the (writeDouble 1 set_sumQimeas (d_of_int 5) (init_alg cs_graph))))) 2) = Some 0"
proof -
  have "case writeDouble 1 set_sumQimeas (d_of_int 5) (init_alg cs_graph) of
      Some a1 \<Rightarrow> passQimeas 1 2 a1 \<noteq> None | None \<Rightarrow> False" by code_simp
  then obtain a1 a2 where a: "writeDouble 1 set_sumQimeas (d_of_int 5) (init_alg cs_graph) = Some a1"
    "passQimeas 1 2 a1 = Some a2"
    by (auto split: option.splits)
  have "d_to_int64 (d_of_int 5) = Some 5" by code_simp
  then show ?thesis using measurement_lost [OF a(1) _ _ a(2)] by (simp add: a)
qed

section \<open>The procedure\<close>

text \<open>Claim C16. The procedure never computes a result. Without a request context, without an
  argument or with a first argument that is not a string its outcome is empty; with a string it
  asks that string for a reference, which fails the type check.\<close>

theorem procedure_outcome:
  "networkTopoProcedure fuel pctx args =
     (if has_rctx pctx \<and> args \<noteq> [] \<and> isString (hd args) then Some None else Some (Some None))"
proof (cases args)
  case (Cons v vs)
  then show ?thesis
    by (cases v) (auto simp: networkTopoProcedure_def isString_def getRef_def)
qed (simp add: networkTopoProcedure_def)

section \<open>The plugin\<close>

text \<open>The plugin can be created and offers the procedure \<^verbatim>\<open>network_topo\<close> with one string
  parameter, a field per column name, and no other procedure; adding a procedure of the same name
  again does not replace it.\<close>

theorem plugin_registers:
  "\<exists>pl. YJProcedurePlugin = Some pl \<and>
     getProcedure pl = [''network_topo'' \<mapsto> declareNetworkTopoProcedure] \<and>
     map snd (proc_fields declareNetworkTopoProcedure) = kColumnNames \<and>
     (\<forall>p. addProcedure (p\<lparr>proc_name := ''network_topo''\<rparr>) pl = pl)"
  by (auto simp: YJProcedurePlugin_def ProcedurePlugin_new_def addProcedure_def getProcedure_def
      declareNetworkTopoProcedure_def comp_def)

end
