(* ===== verification/CasOps.thy ===== *)
theory CasOps
  imports Prelude "HOL-Library.Multiset"
begin

text \<open>
  The lock-free writes of \<^verbatim>\<open>src/include/nebula/computing/ComputingAlgorithm.h\<close>
  (\<^verbatim>\<open>casOp\<close>, \<^verbatim>\<open>write\<close>, \<^verbatim>\<open>writeAdd\<close>, \<^verbatim>\<open>writeMax\<close>) under any interleaving of threads. A thread
  loads the cell, computes the new value and tries to exchange it; when another thread has changed
  the cell in between it starts again. The step relation has one rule per atomic access. The
  theorems show that every complete run equals the writes done one after the other in some order,
  and that a run can always be completed.
\<close>

section \<open>Model\<close>

datatype 'v cas_op = Write 'v | WriteAdd 'v | WriteMax 'v

text \<open>The value the loop body computes from the loaded one.\<close>

fun newVal :: "'l::len word cas_op \<Rightarrow> 'l word \<Rightarrow> 'l word" where
  "newVal (Write v) old = v"
| "newVal (WriteAdd v) old = old + v"
| "newVal (WriteMax v) old = (if sint old > sint v then old else v)"

definition casOp :: "'l::len word \<Rightarrow> 'l word \<Rightarrow> 'l word \<Rightarrow> bool \<times> 'l word" where
  "casOp cell oldVal newV = (cell = oldVal, if cell = oldVal then newV else cell)"

datatype 'v cas_pc = Load | Cas 'v 'v | Done

record 'v cas_state =
  cell :: 'v
  threads :: "('v cas_op \<times> 'v cas_pc) list"

inductive cas_step :: "'l::len word cas_state \<Rightarrow> 'l word cas_state \<Rightarrow> bool" where
  load: "\<lbrakk>i < length (threads s); threads s ! i = (op, Load)\<rbrakk> \<Longrightarrow>
    cas_step s (s\<lparr>threads := (threads s)[i := (op, Cas (cell s) (newVal op (cell s)))]\<rparr>)"
| cas: "\<lbrakk>i < length (threads s); threads s ! i = (op, Cas old new); casOp (cell s) old new = (ok, c)\<rbrakk> \<Longrightarrow>
    cas_step s (s\<lparr>cell := c, threads := (threads s)[i := (op, if ok then Done else Load)]\<rparr>)"

inductive_cases cas_stepE: "cas_step s s'"

definition cas_init :: "'l::len word \<Rightarrow> 'l word cas_op list \<Rightarrow> 'l word cas_state" where
  "cas_init c ops = \<lparr>cell = c, threads = map (\<lambda>op. (op, Load)) ops\<rparr>"

definition all_done :: "'l::len word cas_state \<Rightarrow> bool" where
  "all_done s \<longleftrightarrow> list_all (\<lambda>t. snd t = Done) (threads s)"

section \<open>Every run is a sequence of writes\<close>

text \<open>\<open>L\<close> lists the threads that are done, in the order of their successful exchange.\<close>

definition linearized :: "'l::len word \<Rightarrow> 'l word cas_op list \<Rightarrow> 'l word cas_state \<Rightarrow> nat list \<Rightarrow> bool" where
  "linearized c ops s L \<longleftrightarrow> map fst (threads s) = ops \<and> distinct L \<and>
     set L = {i. i < length ops \<and> snd (threads s ! i) = Done} \<and>
     cell s = fold (\<lambda>i. newVal (ops ! i)) L c \<and>
     (\<forall>i old new. i < length ops \<longrightarrow> snd (threads s ! i) = Cas old new \<longrightarrow> new = newVal (ops ! i) old)"

lemma linearized_init: "linearized c ops (cas_init c ops) []"
  by (auto simp: linearized_def cas_init_def comp_def)

lemma map_fst_update:
  "i < length xs \<Longrightarrow> xs ! i = (a, p) \<Longrightarrow> map fst (xs[i := (a, q)]) = map fst xs"
  by (simp add: map_update list_update_same_conv)

text \<open>What a step of thread \<open>i\<close> leaves to be shown: the cell, the list of the threads that are
  done, and the new value of thread \<open>i\<close>.\<close>

lemma linearized_update:
  assumes "linearized c ops s L" "i < length (threads s)" "threads s ! i = (op, pc)" "pc \<noteq> Done"
    and "L' = (if q = Done then L @ [i] else L)" "c' = fold (\<lambda>i. newVal (ops ! i)) L' c"
    and "\<And>old new. q = Cas old new \<Longrightarrow> new = newVal op old"
  shows "linearized c ops (s\<lparr>cell := c', threads := (threads s)[i := (op, q)]\<rparr>) L'"
proof -
  have ops: "map fst (threads s) = ops" using assms(1) by (simp add: linearized_def)
  then have len: "length (threads s) = length ops" and op: "ops ! i = op" using assms(2,3) by auto
  have t: "snd ((threads s)[i := (op, q)] ! j) = (if j = i then q else snd (threads s ! j))"
    if "j < length ops" for j using that len by (simp add: nth_list_update)
  have L: "distinct L" "set L = {i. i < length ops \<and> snd (threads s ! i) = Done}"
    using assms(1) by (simp_all add: linearized_def)
  have i: "i < length ops" "i \<notin> set L" using L(2) assms(2-4) len by simp_all
  have dom: "j \<in> set L \<longleftrightarrow> j < length ops \<and> snd (threads s ! j) = Done" for j by (simp add: L(2))
  have "set L' = {j. j < length ops \<and> snd ((threads s)[i := (op, q)] ! j) = Done}"
  proof (rule set_eqI)
    fix j
    show "j \<in> set L' \<longleftrightarrow> j \<in> {j. j < length ops \<and> snd ((threads s)[i := (op, q)] ! j) = Done}"
      using i by (cases "j < length ops"; cases "j = i") (simp_all add: t dom assms(5))
  qed
  moreover have "distinct L'" using L(1) i(2) by (simp add: assms(5))
  moreover have "\<forall>j old new. j < length ops \<longrightarrow> snd ((threads s)[i := (op, q)] ! j) = Cas old new
      \<longrightarrow> new = newVal (ops ! j) old"
  proof (intro allI impI)
    fix j old new
    assume j: "j < length ops" "snd ((threads s)[i := (op, q)] ! j) = Cas old new"
    show "new = newVal (ops ! j) old"
    proof (cases "j = i")
      case True then show ?thesis using j t assms(7) op by simp
    next
      case False then show ?thesis using j t assms(1) by (simp add: linearized_def)
    qed
  qed
  ultimately show ?thesis using ops assms(2,3,6) by (simp add: linearized_def map_fst_update)
qed

lemma linearized_step:
  assumes "linearized c ops s L" "cas_step s s'"
  shows "\<exists>L'. linearized c ops s' L'"
  using assms(2)
proof (cases rule: cas_step.cases)
  case (load i op)
  have "cell s = fold (\<lambda>i. newVal (ops ! i)) L c" using assms(1) by (simp add: linearized_def)
  then have "linearized c ops (s\<lparr>cell := cell s,
      threads := (threads s)[i := (op, Cas (cell s) (newVal op (cell s)))]\<rparr>) L"
    using load by (intro linearized_update [OF assms(1)]) auto
  then show ?thesis using load by (intro exI [of _ L]) simp
next
  case (cas i op old new ok c')
  have c: "cell s = fold (\<lambda>i. newVal (ops ! i)) L c" using assms(1) by (simp add: linearized_def)
  have "map fst (threads s) = ops" using assms(1) by (simp add: linearized_def)
  then have op: "ops ! i = op" and i: "i < length ops" using cas by auto
  have "\<forall>i old new. i < length ops \<longrightarrow> snd (threads s ! i) = Cas old new \<longrightarrow> new = newVal (ops ! i) old"
    using assms(1) by (simp add: linearized_def)
  then have new: "new = newVal op old" using i op cas(3) by (metis snd_conv)
  have "linearized c ops (s\<lparr>cell := c', threads := (threads s)[i := (op, if ok then Done else Load)]\<rparr>)
      (if ok then L @ [i] else L)"
    using cas new op c by (intro linearized_update [OF assms(1)]) (auto simp: casOp_def split: if_splits)
  then show ?thesis using cas by blast
qed

lemma linearized_run: "cas_step\<^sup>*\<^sup>* (cas_init c ops) s \<Longrightarrow> \<exists>L. linearized c ops s L"
  by (induction rule: rtranclp_induct) (use linearized_init linearized_step in blast)+

text \<open>The order of completion is a permutation of the threads.\<close>

lemma completed_run:
  assumes "cas_step\<^sup>*\<^sup>* (cas_init c ops) s" "all_done s"
  shows "\<exists>ops'. mset ops' = mset ops \<and> cell s = fold newVal ops' c"
proof -
  obtain L where L: "linearized c ops s L" using linearized_run [OF assms(1)] ..
  have len: "length (threads s) = length ops" using L by (auto simp: linearized_def)
  have "snd (threads s ! i) = Done" if "i < length ops" for i
    using assms(2) that len by (auto simp: all_done_def list_all_length)
  then have "set L = set [0..<length ops]" using L by (auto simp: linearized_def)
  moreover have "distinct L" using L by (simp add: linearized_def)
  ultimately have "mset L = mset [0..<length ops]"
    by (meson distinct_upt set_eq_iff_mset_eq_distinct)
  then have "mset (map ((!) ops) L) = mset (map ((!) ops) [0..<length ops])" by (simp add: mset_map)
  then have "mset (map ((!) ops) L) = mset ops" by (simp add: map_nth)
  moreover have "cell s = fold newVal (map ((!) ops) L) c"
    using L by (simp add: linearized_def fold_map comp_def)
  ultimately show ?thesis by blast
qed

lemma fold_writeMax:
  "sint (fold newVal (map WriteMax vs) c) = Max (insert (sint c) (sint ` set vs))"
proof (induction vs arbitrary: c)
  case (Cons v vs)
  then show ?case by (cases "vs = []") (auto simp: max_def insert_commute)
qed simp

lemma fold_writeAdd: "fold newVal (map WriteAdd vs) c = c + sum_list vs"
  by (induction vs arbitrary: c) (auto simp: add.assoc)

lemma mset_map_inj:
  assumes "mset ys = mset (map f xs)"
  shows "\<exists>zs. ys = map f zs \<and> mset zs = mset xs"
  using assms
proof (induction xs arbitrary: ys)
  case (Cons x xs)
  have "f x \<in> set ys" using Cons.prems by (metis list.set_intros(1) list.simps(9) set_mset_mset)
  then obtain us vs where ys: "ys = us @ f x # vs" by (auto simp: in_set_conv_decomp)
  then have "mset (us @ vs) = mset (map f xs)" using Cons.prems by simp
  then obtain zs where zs: "us @ vs = map f zs" "mset zs = mset xs" using Cons.IH by blast
  then obtain ps qs where "zs = ps @ qs" "us = map f ps" "vs = map f qs"
    by (metis append_eq_map_conv)
  then have "ys = map f (ps @ x # qs) \<and> mset (ps @ x # qs) = mset (x # xs)" using ys zs by simp
  then show ?case by blast
qed simp

section \<open>A run can always be completed\<close>

definition pending :: "'l::len word cas_state \<Rightarrow> nat" where
  "pending s = length (filter (\<lambda>t. snd t \<noteq> Done) (threads s))"

lemma pending_update:
  assumes "i < length xs" "xs ! i = (op, pc)" "pc \<noteq> Done"
  shows "length (filter (\<lambda>t. snd t \<noteq> Done) (xs[i := (op, Done)])) <
    length (filter (\<lambda>t. snd t \<noteq> Done) xs)"
proof -
  have "xs = take i xs @ (op, pc) # drop (Suc i) xs" using assms id_take_nth_drop by metis
  then have "filter (\<lambda>t. snd t \<noteq> Done) xs = filter (\<lambda>t. snd t \<noteq> Done) (take i xs) @
      (op, pc) # filter (\<lambda>t. snd t \<noteq> Done) (drop (Suc i) xs)"
    using assms(3) by (metis (mono_tags, lifting) snd_conv filter.simps(2) filter_append)
  then show ?thesis using assms by (simp add: upd_conv_take_nth_drop)
qed

lemma load_then_cas:
  assumes "i < length (threads s)" "threads s ! i = (op, Load)"
  shows "cas_step\<^sup>*\<^sup>* s (s\<lparr>cell := newVal op (cell s), threads := (threads s)[i := (op, Done)]\<rparr>)"
proof -
  let ?t = "s\<lparr>threads := (threads s)[i := (op, Cas (cell s) (newVal op (cell s)))]\<rparr>"
  have "cas_step s ?t" using assms by (rule cas_step.load)
  moreover have "cas_step ?t (?t\<lparr>cell := newVal op (cell s), threads := (threads ?t)[i := (op, Done)]\<rparr>)"
    using cas_step.cas [of i ?t op "cell s" "newVal op (cell s)" True "newVal op (cell s)"] assms
    by (simp add: casOp_def)
  ultimately show ?thesis by simp
qed

lemma finish_one:
  assumes "i < length (threads s)" "threads s ! i = (op, pc)" "pc \<noteq> Done"
  shows "\<exists>s'. cas_step\<^sup>*\<^sup>* s s' \<and> pending s' < pending s"
proof (cases pc)
  case Load
  then show ?thesis using load_then_cas [of i s op] assms pending_update [OF assms]
    by (intro exI [of _ "s\<lparr>cell := newVal op (cell s), threads := (threads s)[i := (op, Done)]\<rparr>"])
       (simp add: pending_def)
next
  case (Cas old new)
  show ?thesis
  proof (cases "cell s = old")
    case True
    then have "cas_step s (s\<lparr>cell := new, threads := (threads s)[i := (op, Done)]\<rparr>)"
      using cas_step.cas [of i s op old new True new] assms Cas by (simp add: casOp_def)
    then show ?thesis using pending_update [OF assms]
      by (intro exI [of _ "s\<lparr>cell := new, threads := (threads s)[i := (op, Done)]\<rparr>"]) (auto simp: pending_def)
  next
    case False
    let ?t = "s\<lparr>cell := cell s, threads := (threads s)[i := (op, Load)]\<rparr>"
    have "cas_step s ?t"
      using cas_step.cas [of i s op old new False "cell s"] assms Cas False by (simp add: casOp_def)
    moreover have "cas_step\<^sup>*\<^sup>* ?t (?t\<lparr>cell := newVal op (cell ?t), threads := (threads ?t)[i := (op, Done)]\<rparr>)"
      by (rule load_then_cas) (use assms in auto)
    ultimately have "cas_step\<^sup>*\<^sup>* s (?t\<lparr>cell := newVal op (cell ?t), threads := (threads ?t)[i := (op, Done)]\<rparr>)"
      by (rule converse_rtranclp_into_rtranclp)
    then show ?thesis using pending_update [OF assms]
      by (intro exI [of _ "?t\<lparr>cell := newVal op (cell ?t), threads := (threads ?t)[i := (op, Done)]\<rparr>"])
         (simp add: pending_def)
  qed
qed (use assms in simp)

lemma cas_completes: "\<exists>s'. cas_step\<^sup>*\<^sup>* s s' \<and> all_done s'"
proof (induction "pending s" arbitrary: s rule: less_induct)
  case less
  show ?case
  proof (cases "all_done s")
    case False
    then obtain i where "i < length (threads s)" "snd (threads s ! i) \<noteq> Done"
      by (auto simp: all_done_def list_all_length)
    then obtain s1 where "cas_step\<^sup>*\<^sup>* s s1" "pending s1 < pending s"
      using finish_one [of i s "fst (threads s ! i)" "snd (threads s ! i)"] by auto
    then show ?thesis using less [of s1] by (meson rtranclp_trans)
  qed auto
qed

section \<open>Theorems\<close>

text \<open>Claim C10. Any number of concurrent \<^verbatim>\<open>writeMax\<close> calls on one cell, interleaved in any way,
  leave the maximum of the initial value and all arguments.\<close>

theorem writeMax_concurrent:
  assumes "cas_step\<^sup>*\<^sup>* (cas_init c (map WriteMax vs)) s" "all_done s"
  shows "sint (cell s) = Max (insert (sint c) (sint ` set vs))"
proof -
  obtain ops where "mset ops = mset (map WriteMax vs)" "cell s = fold newVal ops c"
    using completed_run [OF assms] by blast
  then obtain zs where "cell s = fold newVal (map WriteMax zs) c" "mset zs = mset vs"
    using mset_map_inj by metis
  then show ?thesis using fold_writeMax by (metis set_mset_mset)
qed

theorem writeMax_concurrent_witness:
  "\<exists>s. cas_step\<^sup>*\<^sup>* (cas_init 5 (map WriteMax [3, 9, 7 :: 64 word])) s \<and> sint (cell s) = 9"
proof -
  obtain s where s: "cas_step\<^sup>*\<^sup>* (cas_init 5 (map WriteMax [3, 9, 7 :: 64 word])) s" "all_done s"
    using cas_completes by blast
  show ?thesis using writeMax_concurrent [OF s] s(1) by auto
qed

text \<open>Any number of concurrent \<^verbatim>\<open>writeAdd\<close> calls on one cell lose no update: the final value
  is the initial one plus the sum of all arguments.\<close>

theorem writeAdd_concurrent:
  assumes "cas_step\<^sup>*\<^sup>* (cas_init c (map WriteAdd vs)) s" "all_done s"
  shows "cell s = c + sum_list vs"
proof -
  obtain ops where "mset ops = mset (map WriteAdd vs)" "cell s = fold newVal ops c"
    using completed_run [OF assms] by blast
  then obtain zs where "cell s = fold newVal (map WriteAdd zs) c" "mset zs = mset vs"
    using mset_map_inj by metis
  then show ?thesis using fold_writeAdd by (metis sum_mset_sum_list)
qed

theorem writeAdd_concurrent_witness:
  "\<exists>s. cas_step\<^sup>*\<^sup>* (cas_init 5 (map WriteAdd [1, 1, 1 :: 64 word])) s \<and> cell s = 8"
proof -
  obtain s where s: "cas_step\<^sup>*\<^sup>* (cas_init 5 (map WriteAdd [1, 1, 1 :: 64 word])) s" "all_done s"
    using cas_completes by blast
  show ?thesis using writeAdd_concurrent [OF s] s(1) by auto
qed

text \<open>From every state of a run, the threads can be scheduled so that all writes
  complete: no thread can block another.\<close>

theorem cas_can_finish:
  fixes s :: "'l::len word cas_state"
  shows "\<exists>s'. cas_step\<^sup>*\<^sup>* s s' \<and> all_done s'"
  by (rule cas_completes)

end
