(* ===== verification/Codec.thy ===== *)
theory Codec
  imports Prelude
begin

text \<open>
  The wire format of \<^verbatim>\<open>src/include/nebula/common/nrpc/BufferReaderWriter.h\<close>. Writing appends
  bytes to the tail of a buffer, reading takes them from its head; a read that finds too few bytes
  returns an error status. A writer is the list of bytes it appends, a reader a function from the
  bytes of the buffer to an error or a value and the bytes that are left. Scalars are stored as
  they are in memory, least significant byte first. The locale \<open>codec\<close> states what a type's
  \<^verbatim>\<open>write\<close>, \<^verbatim>\<open>read\<close> and \<^verbatim>\<open>encodedSize\<close> owe each other; the theorems show it for scalars and
  carry it through every container.
\<close>

unbundle bit_operations_syntax

section \<open>Readers\<close>

text \<open>The first two errors report the bytes required and the bytes left; \<open>OUT_OF_RANGE\<close> is the
  exception of a string piece that is advanced past its end (\<^verbatim>\<open>KVEncodeDecode.h\<close>), and the last one is an unexpected
  kind of an object type (\<^verbatim>\<open>ObjectType.h\<close>).\<close>

datatype read_error = RPC_FAILED nat nat | RPC_DESERIALIZE_ERROR nat nat | UNSUPPORTED | OUT_OF_RANGE
  | RPC_DESERIALIZE_OBJECT_TYPE_ERROR byte

type_synonym 'a reader = "byte list \<Rightarrow> read_error + 'a \<times> byte list"

text \<open>\<^verbatim>\<open>NG_RETURN_IF_ERROR\<close> and what follows it.\<close>

definition rbind :: "'a reader \<Rightarrow> ('a \<Rightarrow> 'b reader) \<Rightarrow> 'b reader" where
  "rbind r f buf = (case r buf of Inl e \<Rightarrow> Inl e | Inr (x, rest) \<Rightarrow> f x rest)"

definition rreturn :: "'a \<Rightarrow> 'a reader" where
  "rreturn x buf = Inr (x, buf)"

section \<open>What a codec promises\<close>

text \<open>The reader accepts the written bytes, whatever follows them, and rejects every proper prefix.\<close>

definition decodes :: "'a reader \<Rightarrow> byte list \<Rightarrow> 'a \<Rightarrow> bool" where
  "decodes r w x \<longleftrightarrow> (\<forall>rest. r (w @ rest) = Inr (x, rest)) \<and>
     (\<forall>n < length w. \<exists>e. r (take n w) = Inl e)"

definition consumes :: "'a reader \<Rightarrow> bool" where
  "consumes r \<longleftrightarrow> (\<forall>buf x rest. r buf = Inr (x, rest) \<longrightarrow> (\<exists>used. buf = used @ rest))"

locale codec =
  fixes enc :: "'a \<Rightarrow> byte list" and dec :: "'a reader" and encodedSize :: "'a \<Rightarrow> nat"
    and valid :: "'a \<Rightarrow> bool"
  assumes decodes_write: "valid x \<Longrightarrow> decodes dec (enc x) x"
    and size_write: "valid x \<Longrightarrow> length (enc x) = encodedSize x"
    and consumes_read: "consumes dec"
begin

lemma roundtrip: "valid x \<Longrightarrow> dec (enc x @ rest) = Inr (x, rest)"
  using decodes_write by (simp add: decodes_def)

lemma truncated: "valid x \<Longrightarrow> n < encodedSize x \<Longrightarrow> \<exists>e. dec (take n (enc x)) = Inl e"
  using decodes_write [of x] size_write [of x] by (simp add: decodes_def)

lemma prefix_free:
  assumes "valid x" "valid y" "enc x @ rest = enc y @ rest'"
  shows "x = y \<and> rest = rest'"
proof -
  have "Inr (x, rest) = dec (enc x @ rest)" using roundtrip [OF assms(1)] by simp
  also have "\<dots> = Inr (y, rest')" unfolding assms(3) by (rule roundtrip [OF assms(2)])
  finally show ?thesis by simp
qed

lemma stream: "list_all valid xs \<Longrightarrow> xs \<noteq> [] \<Longrightarrow>
    dec (concat (map enc xs) @ rest) = Inr (hd xs, concat (map enc (tl xs)) @ rest)"
  by (cases xs) (simp_all add: roundtrip)

lemma left_over: "dec buf = Inr (x, rest) \<Longrightarrow> length rest \<le> length buf"
  using consumes_read unfolding consumes_def by (metis le_add2 length_append)

end

lemma decodes_return: "decodes (rreturn x) [] x"
  by (simp add: decodes_def rreturn_def)

lemma decodes_bind:
  assumes "decodes r w x" "decodes (f x) w' y"
  shows "decodes (rbind r f) (w @ w') y"
  unfolding decodes_def
proof (intro conjI allI impI)
  fix rest show "rbind r f ((w @ w') @ rest) = Inr (y, rest)"
    using assms by (simp add: decodes_def rbind_def)
next
  fix n assume n: "n < length (w @ w')"
  show "\<exists>e. rbind r f (take n (w @ w')) = Inl e"
  proof (cases "n < length w")
    case True
    then obtain e where "r (take n w) = Inl e" using assms(1) by (auto simp: decodes_def)
    then show ?thesis using True by (simp add: rbind_def)
  next
    case False
    then have "n - length w < length w'" using n by simp
    then obtain e where "f x (take (n - length w) w') = Inl e"
      using assms(2) unfolding decodes_def by blast
    then show ?thesis using False assms(1) by (simp add: rbind_def decodes_def)
  qed
qed

lemma decodes_last:
  "decodes r w x \<Longrightarrow> y = g x \<Longrightarrow> decodes (rbind r (\<lambda>x. rreturn (g x))) w y"
  using decodes_bind [of r w x "\<lambda>x. rreturn (g x)" "[]" y] decodes_return [of y] by simp

lemma consumes_return: "consumes (rreturn x)"
  by (simp add: consumes_def rreturn_def)

lemma consumes_bind:
  assumes "consumes r" "\<And>x. consumes (f x)"
  shows "consumes (rbind r f)"
  unfolding consumes_def
proof (intro allI impI)
  fix buf y rest
  assume "rbind r f buf = Inr (y, rest)"
  then obtain x mid where "r buf = Inr (x, mid)" "f x mid = Inr (y, rest)"
    by (auto simp: rbind_def split: sum.splits)
  then obtain u v where "buf = u @ mid" "mid = v @ rest" using assms unfolding consumes_def by meson
  then show "\<exists>used. buf = used @ rest" by (metis append.assoc)
qed

section \<open>Scalars\<close>

definition le_write :: "nat \<Rightarrow> 'l::len word \<Rightarrow> byte list" where
  "le_write n x = map (\<lambda>i. ucast (drop_bit (8 * i) x)) [0..<n]"

fun le_word :: "byte list \<Rightarrow> 'l::len word" where
  "le_word [] = 0"
| "le_word (b # bs) = ucast b OR push_bit 8 (le_word bs)"

definition le_read :: "nat \<Rightarrow> 'l::len word reader" where
  "le_read n buf =
     (if length buf < n then Inl (RPC_FAILED n (length buf))
      else Inr (le_word (take n buf), drop n buf))"

lemma bit_le_word:
  "bit (le_word bs :: 'l::len word) k \<longleftrightarrow>
     k < LENGTH('l) \<and> k div 8 < length bs \<and> bit (bs ! (k div 8)) (k mod 8)"
proof (induction bs arbitrary: k)
  case (Cons b bs)
  show ?case
  proof (cases "k < 8")
    case True
    then show ?thesis by (auto simp: bit_or_iff bit_push_bit_iff bit_ucast_iff)
  next
    case False
    then have k: "k div 8 = Suc ((k - 8) div 8)" "k mod 8 = (k - 8) mod 8"
      by (simp_all add: le_div_geq le_mod_geq)
    have b: "\<not> bit b k" using False bit_imp_le_length [of b k] by auto
    show ?thesis using False Cons.IH [of "k - 8"]
      by (auto simp: bit_or_iff bit_push_bit_iff bit_ucast_iff b k)
  qed
qed simp

lemma le_word_write:
  assumes "LENGTH('l::len) = 8 * n"
  shows "le_word (le_write n x) = (x :: 'l word)"
proof (rule bit_word_eqI)
  fix k assume k: "k < LENGTH('l)"
  then have "k div 8 < n" using assms by auto
  then show "bit (le_word (le_write n x) :: 'l word) k = bit x k"
    using k by (simp add: bit_le_word le_write_def bit_ucast_iff bit_drop_bit_eq)
qed

lemma length_le_write [simp]: "length (le_write n x) = n"
  by (simp add: le_write_def)

lemma scalar_codec:
  assumes "LENGTH('l::len) = 8 * n"
  shows "codec (le_write n) (le_read n :: 'l word reader) (\<lambda>_. n) (\<lambda>_. True)"
proof
  fix x :: "'l word"
  show "decodes (le_read n) (le_write n x) x"
    using le_word_write [OF assms, of x] by (auto simp: decodes_def le_read_def)
  show "consumes (le_read n :: 'l word reader)"
    unfolding consumes_def le_read_def by (metis Inl_Inr_False append_take_drop_id prod.inject sum.inject(2))
qed simp

interpretation u8: codec "le_write 1" "le_read 1 :: byte reader" "\<lambda>_. 1" "\<lambda>_. True"
  by (rule scalar_codec) simp
interpretation i16: codec "le_write 2" "le_read 2 :: int16 reader" "\<lambda>_. 2" "\<lambda>_. True"
  by (rule scalar_codec) simp
interpretation i32: codec "le_write 4" "le_read 4 :: int32 reader" "\<lambda>_. 4" "\<lambda>_. True"
  by (rule scalar_codec) simp
interpretation i64: codec "le_write 8" "le_read 8 :: int64 reader" "\<lambda>_. 8" "\<lambda>_. True"
  by (rule scalar_codec) simp

text \<open>A \<^verbatim>\<open>bool\<close> is one byte.\<close>

definition bool_write :: "bool \<Rightarrow> byte list" where
  "bool_write b = le_write 1 (if b then 1 else 0 :: byte)"

definition bool_read :: "bool reader" where
  "bool_read = rbind (le_read 1) (\<lambda>b :: byte. rreturn (b \<noteq> 0))"

interpretation bool: codec bool_write bool_read "\<lambda>_. 1" "\<lambda>_. True"
proof
  fix x
  show "decodes bool_read (bool_write x) x"
    unfolding bool_read_def bool_write_def
    by (rule decodes_last [OF u8.decodes_write]) auto
  show "consumes bool_read"
    unfolding bool_read_def by (intro consumes_bind consumes_return u8.consumes_read)
qed (simp add: bool_write_def)

section \<open>Containers\<close>

subsection \<open>Optional values and pointers\<close>

definition optional_write :: "('a \<Rightarrow> byte list) \<Rightarrow> 'a option \<Rightarrow> byte list" where
  "optional_write w x = (case x of None \<Rightarrow> bool_write False | Some v \<Rightarrow> bool_write True @ w v)"

definition optional_read :: "'a reader \<Rightarrow> 'a option reader" where
  "optional_read r = rbind bool_read (\<lambda>b. if b then rbind r (\<lambda>x. rreturn (Some x)) else rreturn None)"

definition optional_size :: "('a \<Rightarrow> nat) \<Rightarrow> 'a option \<Rightarrow> nat" where
  "optional_size s x = 1 + (case x of None \<Rightarrow> 0 | Some v \<Rightarrow> s v)"

text \<open>\<^verbatim>\<open>shared_ptr\<close> and \<^verbatim>\<open>unique_ptr\<close> are written the same way. The reader allocates a
  default object first and keeps it when the flag is false.\<close>

definition ptr_read :: "'a \<Rightarrow> 'a reader \<Rightarrow> 'a option reader" where
  "ptr_read dflt r =
     rbind bool_read (\<lambda>b. if b then rbind r (\<lambda>x. rreturn (Some x)) else rreturn (Some dflt))"

subsection \<open>Strings\<close>

text \<open>The length of a string or container is a \<^verbatim>\<open>uint32_t\<close>.\<close>

definition count_write :: "'a list \<Rightarrow> byte list" where
  "count_write xs = le_write 4 (of_nat (length xs) :: uint32)"

definition count_read :: "nat reader" where
  "count_read buf =
     (if length buf < 4 then Inl (RPC_DESERIALIZE_ERROR 4 (length buf))
      else Inr (unat (le_word (take 4 buf) :: uint32), drop 4 buf))"

definition bytes_read :: "nat \<Rightarrow> byte list reader" where
  "bytes_read n buf =
     (if length buf < n then Inl (RPC_DESERIALIZE_ERROR n (length buf)) else Inr (take n buf, drop n buf))"

definition byte_of_char :: "char \<Rightarrow> byte" where
  "byte_of_char c = word_of_int (of_char c)"

definition char_of_byte :: "byte \<Rightarrow> char" where
  "char_of_byte b = char_of (uint b)"

text \<open>Strings are compared as sequences of unsigned bytes.\<close>

definition str_less :: "string \<Rightarrow> string \<Rightarrow> bool" where
  "str_less a b \<longleftrightarrow> ord_class.lexordp (map byte_of_char a) (map byte_of_char b)"

definition string_write :: "string \<Rightarrow> byte list" where
  "string_write str = count_write str @ map byte_of_char str"

definition string_read :: "string reader" where
  "string_read = rbind count_read (\<lambda>n. rbind (bytes_read n) (\<lambda>bs. rreturn (map char_of_byte bs)))"

definition string_size :: "string \<Rightarrow> nat" where
  "string_size str = length str + 4"

subsection \<open>Pairs, vectors, maps and sets\<close>

definition pair_write :: "('a \<Rightarrow> byte list) \<Rightarrow> ('b \<Rightarrow> byte list) \<Rightarrow> 'a \<times> 'b \<Rightarrow> byte list" where
  "pair_write w1 w2 p = w1 (fst p) @ w2 (snd p)"

definition pair_read :: "'a reader \<Rightarrow> 'b reader \<Rightarrow> ('a \<times> 'b) reader" where
  "pair_read r1 r2 = rbind r1 (\<lambda>x. rbind r2 (\<lambda>y. rreturn (x, y)))"

definition pair_size :: "('a \<Rightarrow> nat) \<Rightarrow> ('b \<Rightarrow> nat) \<Rightarrow> 'a \<times> 'b \<Rightarrow> nat" where
  "pair_size s1 s2 p = s1 (fst p) + s2 (snd p)"

definition vector_write :: "('a \<Rightarrow> byte list) \<Rightarrow> 'a list \<Rightarrow> byte list" where
  "vector_write w xs = count_write xs @ concat (map w xs)"

fun read_n :: "'a reader \<Rightarrow> nat \<Rightarrow> 'a list reader" where
  "read_n r 0 = rreturn []"
| "read_n r (Suc n) = rbind r (\<lambda>x. rbind (read_n r n) (\<lambda>xs. rreturn (x # xs)))"

definition vector_read :: "'a reader \<Rightarrow> 'a list reader" where
  "vector_read r = rbind count_read (read_n r)"

definition vector_size :: "('a \<Rightarrow> nat) \<Rightarrow> 'a list \<Rightarrow> nat" where
  "vector_size s xs = 4 + sum_list (map s xs)"

text \<open>A deque is always written and read element by element.\<close>

definition deque_write :: "('a \<Rightarrow> byte list) \<Rightarrow> 'a list \<Rightarrow> byte list" where
  "deque_write w xs = count_write xs @ concat (map w xs)"

definition deque_read :: "'a reader \<Rightarrow> 'a list reader" where
  "deque_read r = rbind count_read (\<lambda>n. read_n r n)"

text \<open>The branch for trivially encoded elements: one length check and one copy.\<close>

fun chunks :: "nat \<Rightarrow> nat \<Rightarrow> byte list \<Rightarrow> byte list list" where
  "chunks sz 0 bs = []"
| "chunks sz (Suc n) bs = take sz bs # chunks sz n (drop sz bs)"

definition vector_read_trivial :: "nat \<Rightarrow> 'l::len word list reader" where
  "vector_read_trivial sz =
     rbind count_read (\<lambda>n. rbind (bytes_read (n * sz)) (\<lambda>bs. rreturn (map le_word (chunks sz n bs))))"

text \<open>
  A map or set is the list of its entries in iteration order. \<^verbatim>\<open>emplace\<close> keeps an existing entry.
  A new one goes to its place in the key order in a \<^verbatim>\<open>std::map\<close>; in an \<^verbatim>\<open>unordered_map\<close>, whose
  iteration order is not specified, the model puts it at the end.
\<close>

definition umap_emplace :: "('k \<times> 'v) list \<Rightarrow> 'k \<times> 'v \<Rightarrow> ('k \<times> 'v) list" where
  "umap_emplace m p = (if fst p \<in> fst ` set m then m else m @ [p])"

definition map_emplace :: "('k::linorder \<times> 'v) list \<Rightarrow> 'k \<times> 'v \<Rightarrow> ('k \<times> 'v) list" where
  "map_emplace m p = (if fst p \<in> fst ` set m then m else insort_key fst p m)"

definition map_write :: "('k \<Rightarrow> byte list) \<Rightarrow> ('v \<Rightarrow> byte list) \<Rightarrow> ('k \<times> 'v) list \<Rightarrow> byte list" where
  "map_write wk wv m = count_write m @ concat (map (pair_write wk wv) m)"

definition umap_read :: "'k reader \<Rightarrow> 'v reader \<Rightarrow> ('k \<times> 'v) list reader" where
  "umap_read rk rv =
     rbind count_read (\<lambda>n. rbind (read_n (pair_read rk rv) n) (\<lambda>ps. rreturn (foldl umap_emplace [] ps)))"

definition map_read :: "'k::linorder reader \<Rightarrow> 'v reader \<Rightarrow> ('k \<times> 'v) list reader" where
  "map_read rk rv =
     rbind count_read (\<lambda>n. rbind (read_n (pair_read rk rv) n) (\<lambda>ps. rreturn (foldl map_emplace [] ps)))"

definition map_size :: "('k \<Rightarrow> nat) \<Rightarrow> ('v \<Rightarrow> nat) \<Rightarrow> ('k \<times> 'v) list \<Rightarrow> nat" where
  "map_size sk sv m = 4 + sum_list (map (pair_size sk sv) m)"

definition uset_emplace :: "'k list \<Rightarrow> 'k \<Rightarrow> 'k list" where
  "uset_emplace s k = (if k \<in> set s then s else s @ [k])"

definition set_emplace :: "'k::linorder list \<Rightarrow> 'k \<Rightarrow> 'k list" where
  "set_emplace s k = (if k \<in> set s then s else insort k s)"

definition uset_read :: "'k reader \<Rightarrow> 'k list reader" where
  "uset_read r = rbind count_read (\<lambda>n. rbind (read_n r n) (\<lambda>ks. rreturn (foldl uset_emplace [] ks)))"

definition set_read :: "'k::linorder reader \<Rightarrow> 'k list reader" where
  "set_read r = rbind count_read (\<lambda>n. rbind (read_n r n) (\<lambda>ks. rreturn (foldl set_emplace [] ks)))"

section \<open>Laws of the containers\<close>

lemma decodes_count:
  assumes "length xs < 2 ^ 32"
  shows "decodes count_read (count_write xs) (length xs)"
proof -
  have "unat (of_nat (length xs) :: uint32) = length xs"
    using assms by (simp add: unat_of_nat take_bit_nat_eq_self)
  moreover have "le_word (le_write 4 (of_nat (length xs) :: uint32)) = (of_nat (length xs) :: uint32)"
    by (rule le_word_write) simp
  ultimately show ?thesis by (auto simp: decodes_def count_read_def count_write_def)
qed

lemma consumes_count: "consumes count_read"
  unfolding consumes_def count_read_def
  by (metis Inl_Inr_False append_take_drop_id prod.inject sum.inject(2))

lemma decodes_bytes: "length w = n \<Longrightarrow> decodes (bytes_read n) w w"
  by (auto simp: decodes_def bytes_read_def)

lemma consumes_bytes: "consumes (bytes_read n)"
  unfolding consumes_def bytes_read_def
  by (metis Inl_Inr_False append_take_drop_id prod.inject sum.inject(2))

lemma length_count_write [simp]: "length (count_write xs) = 4"
  by (simp add: count_write_def)

lemma decodes_read_n:
  assumes "\<And>x. x \<in> set xs \<Longrightarrow> decodes r (w x) x"
  shows "decodes (read_n r (length xs)) (concat (map w xs)) xs"
  using assms
proof (induction xs)
  case (Cons x xs)
  have "decodes (rbind (read_n r (length xs)) (\<lambda>xs. rreturn (x # xs))) (concat (map w xs)) (x # xs)"
    by (rule decodes_last) (use Cons in simp_all)
  then show ?case using decodes_bind [OF Cons.prems [of x]] by simp
qed (simp add: decodes_return)

lemma consumes_read_n: "consumes r \<Longrightarrow> consumes (read_n r n)"
  by (induction n) (simp_all add: consumes_bind consumes_return)

lemma optional_codec:
  assumes "codec w r s v"
  shows "codec (optional_write w) (optional_read r) (optional_size s) (pred_option v)"
proof
  fix x assume x: "pred_option v x"
  show "decodes (optional_read r) (optional_write w x) x"
  proof (cases x)
    case None
    have "decodes (rbind bool_read (\<lambda>b. if b then rbind r (\<lambda>x. rreturn (Some x)) else rreturn None))
        (bool_write False @ []) None"
      by (rule decodes_bind [OF bool.decodes_write]) (simp_all add: decodes_return)
    then show ?thesis using None by (simp add: optional_read_def optional_write_def)
  next
    case (Some y)
    have y: "decodes (rbind r (\<lambda>x. rreturn (Some x))) (w y) (Some y)"
      by (rule decodes_last [OF codec.decodes_write [OF assms]]) (use Some x in simp_all)
    show ?thesis unfolding Some optional_read_def optional_write_def option.case
      by (rule decodes_bind [OF bool.decodes_write]) (simp_all add: y)
  qed
  show "length (optional_write w x) = optional_size s x"
    using x codec.size_write [OF assms] bool.size_write
    by (cases x) (simp_all add: optional_write_def optional_size_def)
next
  show "consumes (optional_read r)"
    unfolding optional_read_def
    by (intro consumes_bind bool.consumes_read)
      (simp add: consumes_bind consumes_return codec.consumes_read [OF assms])
qed

lemma char_of_byte_of_char [simp]: "char_of_byte (byte_of_char c) = c"
  by (simp add: char_of_byte_def byte_of_char_def uint_word_of_int char_of_mod_256)

lemma bytes_inject: "map byte_of_char a = map byte_of_char b \<longleftrightarrow> a = b"
  by (metis char_of_byte_of_char inj_def inj_map_eq_map)

interpretation string_order: comparison str_less "(=)"
proof unfold_locales
  fix a b c :: string
  show "str_less a b \<Longrightarrow> str_less b c \<Longrightarrow> str_less a c" by (auto simp: str_less_def intro: lexordp_trans)
  show "\<not> str_less a b \<Longrightarrow> a \<noteq> b \<Longrightarrow> str_less b a"
    using lexordp_linear [of "map byte_of_char a" "map byte_of_char b"] by (auto simp: str_less_def bytes_inject)
qed (auto simp: str_less_def lexordp_irreflexive')

lemma string_codec: "codec string_write string_read string_size (\<lambda>str. length str < 2 ^ 32)"
proof
  fix str :: string assume n: "length str < 2 ^ 32"
  show "decodes string_read (string_write str) str"
    unfolding string_read_def string_write_def
    by (rule decodes_bind [OF decodes_count [OF n]], rule decodes_last [OF decodes_bytes])
      (simp_all add: comp_def)
next
  show "consumes string_read"
    unfolding string_read_def
    by (intro consumes_bind consumes_count consumes_bytes consumes_return)
qed (simp add: string_write_def string_size_def)

lemma pair_codec:
  assumes "codec w1 r1 s1 v1" "codec w2 r2 s2 v2"
  shows "codec (pair_write w1 w2) (pair_read r1 r2) (pair_size s1 s2) (\<lambda>p. v1 (fst p) \<and> v2 (snd p))"
proof
  fix p assume p: "v1 (fst p) \<and> v2 (snd p)"
  show "decodes (pair_read r1 r2) (pair_write w1 w2 p) p"
    unfolding pair_read_def pair_write_def
    by (rule decodes_bind [OF codec.decodes_write [OF assms(1)]],
        use p in simp, rule decodes_last [OF codec.decodes_write [OF assms(2)]])
      (use p in simp_all)
  show "length (pair_write w1 w2 p) = pair_size s1 s2 p"
    using p codec.size_write [OF assms(1)] codec.size_write [OF assms(2)]
    by (simp add: pair_write_def pair_size_def)
next
  show "consumes (pair_read r1 r2)"
    unfolding pair_read_def using assms
    by (intro consumes_bind consumes_return) (simp_all add: codec.consumes_read)
qed

text \<open>What vectors, maps and sets share: a count and the elements.\<close>

lemma decodes_elements:
  assumes "codec w r s v" "list_all v xs" "length xs < 2 ^ 32" "f xs = y"
  shows "decodes (rbind count_read (\<lambda>n. rbind (read_n r n) (\<lambda>xs. rreturn (f xs))))
    (count_write xs @ concat (map w xs)) y"
  by (rule decodes_bind [OF decodes_count [OF assms(3)]], rule decodes_last [OF decodes_read_n])
    (use assms codec.decodes_write [OF assms(1)] in \<open>auto simp: list_all_iff\<close>)

lemma length_elements:
  assumes "codec w r s v" "list_all v xs"
  shows "length (count_write xs @ concat (map w xs)) = 4 + sum_list (map s xs)"
  using assms(2) codec.size_write [OF assms(1)] by (induction xs) auto

lemma consumes_elements:
  "codec w r s v \<Longrightarrow> consumes (rbind count_read (\<lambda>n. rbind (read_n r n) (\<lambda>xs. rreturn (f xs))))"
  by (intro consumes_bind consumes_count consumes_return consumes_read_n)
    (simp add: codec.consumes_read)

lemma rbind_rreturn [simp]: "rbind r rreturn = r"
  by (rule ext) (simp add: rbind_def rreturn_def split: sum.split)

lemma vector_read_alt:
  "vector_read r = rbind count_read (\<lambda>n. rbind (read_n r n) (\<lambda>xs. rreturn (id xs)))"
  by (simp add: vector_read_def)

lemma vector_codec:
  assumes "codec w r s v"
  shows "codec (vector_write w) (vector_read r) (vector_size s)
    (\<lambda>xs. list_all v xs \<and> length xs < 2 ^ 32)"
proof
  fix xs assume xs: "list_all v xs \<and> length xs < 2 ^ 32"
  show "decodes (vector_read r) (vector_write w xs) xs"
    unfolding vector_read_alt vector_write_def
    by (rule decodes_elements [OF assms]) (use xs in simp_all)
  show "length (vector_write w xs) = vector_size s xs"
    using length_elements [OF assms] xs by (simp only: vector_write_def vector_size_def)
next
  show "consumes (vector_read r)"
    unfolding vector_read_alt by (rule consumes_elements [OF assms])
qed

lemma foldl_umap_emplace:
  "distinct (map fst (m @ ps)) \<Longrightarrow> foldl umap_emplace m ps = m @ ps"
  by (induction ps arbitrary: m) (auto simp: umap_emplace_def)

lemma insort_key_last: "\<forall>x \<in> set m. f x \<le> f p \<Longrightarrow> f p \<notin> f ` set m \<Longrightarrow> insort_key f p m = m @ [p]"
  by (induction m) (auto dest: antisym)

lemma foldl_map_emplace:
  "sorted (map fst (m @ ps)) \<Longrightarrow> distinct (map fst (m @ ps)) \<Longrightarrow> foldl map_emplace m ps = m @ ps"
proof (induction ps arbitrary: m)
  case (Cons p ps)
  have "insort_key fst p m = m @ [p]"
    using Cons.prems by (intro insort_key_last) (auto simp: sorted_append)
  moreover have "fst p \<notin> fst ` set m" using Cons.prems by auto
  ultimately have "map_emplace m p = m @ [p]" by (simp add: map_emplace_def)
  then show ?case using Cons.IH [of "m @ [p]"] Cons.prems by simp
qed simp

lemma foldl_uset_emplace: "distinct (s @ ks) \<Longrightarrow> foldl uset_emplace s ks = s @ ks"
  by (induction ks arbitrary: s) (auto simp: uset_emplace_def)

lemma foldl_set_emplace: "sorted (s @ ks) \<Longrightarrow> distinct (s @ ks) \<Longrightarrow> foldl set_emplace s ks = s @ ks"
proof (induction ks arbitrary: s)
  case (Cons k ks)
  have "insort k s = s @ [k]"
    using Cons.prems by (intro insort_key_last) (auto simp: sorted_append)
  moreover have "k \<notin> set s" using Cons.prems by auto
  ultimately have "set_emplace s k = s @ [k]" by (simp add: set_emplace_def)
  then show ?case using Cons.IH [of "s @ [k]"] Cons.prems by simp
qed simp

definition umap_valid :: "('k \<Rightarrow> bool) \<Rightarrow> ('v \<Rightarrow> bool) \<Rightarrow> ('k \<times> 'v) list \<Rightarrow> bool" where
  "umap_valid vk vv m \<longleftrightarrow>
     list_all (\<lambda>p. vk (fst p) \<and> vv (snd p)) m \<and> length m < 2 ^ 32 \<and> distinct (map fst m)"

lemma umap_codec:
  assumes "codec wk rk sk vk" "codec wv rv sv vv"
  shows "codec (map_write wk wv) (umap_read rk rv) (map_size sk sv) (umap_valid vk vv)"
proof
  note p = pair_codec [OF assms]
  fix m assume m: "umap_valid vk vv m"
  show "decodes (umap_read rk rv) (map_write wk wv m) m"
    unfolding umap_read_def map_write_def
    by (rule decodes_elements [OF p]) (use m in \<open>simp_all add: umap_valid_def foldl_umap_emplace\<close>)
  show "length (map_write wk wv m) = map_size sk sv m"
    using length_elements [OF p] m by (simp only: map_write_def map_size_def umap_valid_def)
next
  show "consumes (umap_read rk rv)"
    unfolding umap_read_def by (rule consumes_elements [OF pair_codec [OF assms]])
qed

lemma map_codec:
  assumes "codec wk rk sk vk" "codec wv rv sv vv"
  shows "codec (map_write wk wv) (map_read rk rv) (map_size sk sv)
    (\<lambda>m. umap_valid vk vv m \<and> sorted (map fst m))"
proof
  note p = pair_codec [OF assms]
  fix m assume m: "umap_valid vk vv m \<and> sorted (map fst m)"
  show "decodes (map_read rk rv) (map_write wk wv m) m"
    unfolding map_read_def map_write_def
    by (rule decodes_elements [OF p]) (use m in \<open>simp_all add: umap_valid_def foldl_map_emplace\<close>)
  show "length (map_write wk wv m) = map_size sk sv m"
    using length_elements [OF p] m by (simp only: map_write_def map_size_def umap_valid_def)
next
  show "consumes (map_read rk rv)"
    unfolding map_read_def by (rule consumes_elements [OF pair_codec [OF assms]])
qed

lemma uset_codec:
  assumes "codec w r s v"
  shows "codec (vector_write w) (uset_read r) (vector_size s)
    (\<lambda>ks. list_all v ks \<and> length ks < 2 ^ 32 \<and> distinct ks)"
proof
  fix ks assume ks: "list_all v ks \<and> length ks < 2 ^ 32 \<and> distinct ks"
  show "decodes (uset_read r) (vector_write w ks) ks"
    unfolding uset_read_def vector_write_def
    by (rule decodes_elements [OF assms]) (use ks in \<open>simp_all add: foldl_uset_emplace\<close>)
  show "length (vector_write w ks) = vector_size s ks"
    using length_elements [OF assms] ks by (simp only: vector_write_def vector_size_def)
next
  show "consumes (uset_read r)"
    unfolding uset_read_def by (rule consumes_elements [OF assms])
qed

lemma set_codec:
  assumes "codec w r s v"
  shows "codec (vector_write w) (set_read r) (vector_size s)
    (\<lambda>ks. list_all v ks \<and> length ks < 2 ^ 32 \<and> distinct ks \<and> sorted ks)"
proof
  fix ks :: "'a list"
  assume ks: "list_all v ks \<and> length ks < 2 ^ 32 \<and> distinct ks \<and> sorted ks"
  show "decodes (set_read r) (vector_write w ks) ks"
    unfolding set_read_def vector_write_def
    by (rule decodes_elements [OF assms]) (use ks in \<open>simp_all add: foldl_set_emplace\<close>)
  show "length (vector_write w ks) = vector_size s ks"
    using length_elements [OF assms] ks by (simp only: vector_write_def vector_size_def)
next
  show "consumes (set_read r)"
    unfolding set_read_def by (rule consumes_elements [OF assms])
qed

section \<open>Vectors of trivially encoded elements\<close>

lemma chunks_take: "n * sz \<le> m \<Longrightarrow> chunks sz n (take m bs) = chunks sz n bs"
proof (induction n arbitrary: m bs)
  case (Suc n)
  then show ?case by (simp add: drop_take min_def)
qed simp

lemma read_n_scalar:
  "read_n (le_read sz) n buf = Inr p \<longleftrightarrow>
     n * sz \<le> length buf \<and> p = (map le_word (chunks sz n buf), drop (n * sz) buf)"
proof (induction n arbitrary: buf p)
  case 0
  show ?case by (auto simp: rreturn_def)
next
  case (Suc n)
  show ?case
  proof (cases "length buf < sz")
    case True
    then show ?thesis by (simp add: rbind_def le_read_def)
  next
    case False
    have 1: "read_n (le_read sz) (Suc n) buf = Inr p \<longleftrightarrow>
        (\<exists>xs rest. read_n (le_read sz) n (drop sz buf) = Inr (xs, rest)
           \<and> p = (le_word (take sz buf) # xs, rest))"
      using False by (auto simp: rbind_def le_read_def rreturn_def split: sum.splits)
    show ?thesis unfolding 1 Suc.IH using False by (auto simp: add.commute)
  qed
qed

lemma vector_read_iff:
  "vector_read r buf = Inr p \<longleftrightarrow>
     (\<exists>n rest. count_read buf = Inr (n, rest) \<and> read_n r n rest = Inr p)"
  by (auto simp: vector_read_def rbind_def split: sum.splits)

lemma vector_read_trivial_iff:
  "vector_read_trivial sz buf = Inr p \<longleftrightarrow>
     (\<exists>n rest. count_read buf = Inr (n, rest) \<and> n * sz \<le> length rest
        \<and> p = (map le_word (chunks sz n rest), drop (n * sz) rest))"
  by (auto simp: vector_read_trivial_def rbind_def bytes_read_def rreturn_def chunks_take
      split: sum.splits)

lemma count_read_write:
  "count_read (count_write xs @ rest) = Inr (length xs mod 2 ^ 32, rest)"
proof -
  have "le_word (le_write 4 (of_nat (length xs) :: uint32)) = (of_nat (length xs) :: uint32)"
    by (rule le_word_write) simp
  then show ?thesis
    by (simp add: count_read_def count_write_def unat_of_nat take_bit_eq_mod)
qed

lemma read_n_prefix:
  assumes "codec w r s v" "list_all v xs"
  shows "read_n r (length xs) (concat (map w xs) @ rest) = Inr (xs, rest)"
  using decodes_read_n [of xs r w] codec.decodes_write [OF assms(1)] assms(2)
  by (simp add: decodes_def list_all_iff)

lemma deque_vector: "deque_read r = vector_read r" "deque_write w = vector_write w"
  by (simp_all add: deque_read_def vector_read_def deque_write_def vector_write_def fun_eq_iff)

section \<open>Properties of the wire format\<close>

text \<open>Reading a vector of trivially encoded elements with one copy accepts the same buffers
  as reading it element by element, and gives the same elements and the same remaining buffer.\<close>

theorem vector_trivial_equiv:
  "vector_read_trivial sz buf = Inr p \<longleftrightarrow> vector_read (le_read sz) buf = Inr p"
  unfolding vector_read_trivial_iff vector_read_iff read_n_scalar ..

text \<open>A vector is written in \<^verbatim>\<open>encodedSize\<close> bytes and read back element for element
  whatever follows in the buffer, for every element type whose own reader and writer agree; a
  buffer that was cut anywhere inside the vector is refused.\<close>

theorem vector_wire:
  assumes "codec w r s v" "list_all v xs" "length xs < 2 ^ 32"
  shows "vector_read r (vector_write w xs @ rest) = Inr (xs, rest)
    \<and> length (vector_write w xs) = vector_size s xs
    \<and> (\<forall>n < vector_size s xs. \<exists>e. vector_read r (take n (vector_write w xs)) = Inl e)"
  using codec.roundtrip [OF vector_codec [OF assms(1)]] codec.size_write [OF vector_codec [OF assms(1)]]
    codec.truncated [OF vector_codec [OF assms(1)]] assms(2,3) by blast

theorem vector_wire_witness:
  "vector_read string_read (vector_write string_write [''bus'', '''', ''line''] @ [1, 2])
     = Inr ([''bus'', '''', ''line''], [1, 2])
   \<and> vector_size string_size [''bus'', '''', ''line''] = 23"
  using vector_wire [OF string_codec, of "[''bus'', '''', ''line'']" "[1, 2]"]
  by (simp add: vector_size_def string_size_def)

text \<open>An unordered map is read back with the same entries: the round trip is the identity
  for a map with fewer than \<open>2 ^ 32\<close> entries, whatever follows it, and uses exactly
  \<^verbatim>\<open>encodedSize\<close> bytes.\<close>

theorem umap_wire:
  assumes "codec wk rk sk vk" "codec wv rv sv vv" "umap_valid vk vv m"
  shows "umap_read rk rv (map_write wk wv m @ rest) = Inr (m, rest)
    \<and> length (map_write wk wv m) = map_size sk sv m"
  using codec.roundtrip [OF umap_codec [OF assms(1,2)] assms(3)]
    codec.size_write [OF umap_codec [OF assms(1,2)] assms(3)] by simp

theorem umap_wire_witness:
  "umap_read string_read (le_read 4 :: int32 reader)
     (map_write string_write (le_write 4) [(''p'', 5 :: int32), (''q'', 6)] @ [9])
     = Inr ([(''p'', 5), (''q'', 6)], [9])"
  using umap_wire [OF string_codec i32.codec_axioms, of "[(''p'', 5), (''q'', 6)]" "[9]"]
  by (simp add: umap_valid_def)

text \<open>The count is written as a \<^verbatim>\<open>uint32_t\<close>: of a vector with \<open>2 ^ 32 + k\<close> elements the
  reader takes the first \<open>k\<close> and leaves the bytes of the others in the buffer, without an error.\<close>

theorem vector_count_wraps:
  assumes "codec w r s v" "list_all v (xs @ ys)" "length xs < 2 ^ 32" "length ys = 2 ^ 32"
  shows "vector_read r (vector_write w (xs @ ys) @ rest) = Inr (xs, concat (map w ys) @ rest)"
proof -
  have "length (xs @ ys) mod 2 ^ 32 = length xs" using assms(3,4) by simp
  moreover have "list_all v xs" using assms(2) by simp
  ultimately show ?thesis
    using read_n_prefix [OF assms(1), of xs "concat (map w ys) @ rest"]
      count_read_write [of "xs @ ys" "concat (map w (xs @ ys)) @ rest"]
    by (simp add: vector_read_iff vector_write_def)
qed

theorem vector_count_wraps_witness:
  "vector_read (le_read 1 :: byte reader) (vector_write (le_write 1) ([7] @ replicate (2 ^ 32) (0 :: byte)) @ [])
     = Inr ([7], concat (map (le_write 1) (replicate (2 ^ 32) (0 :: byte))) @ [])"
proof (rule vector_count_wraps [OF u8.codec_axioms])
  show "length (replicate (2 ^ 32) (0 :: byte)) = 2 ^ 32" by (rule length_replicate)
  show "list_all (\<lambda>_. True) ([7 :: byte] @ replicate (2 ^ 32) 0)" by (simp only: list_all_iff ball_simps) simp
  show "length [7 :: byte] < 2 ^ 32" by simp
qed

text \<open>A null \<^verbatim>\<open>shared_ptr\<close> or \<^verbatim>\<open>unique_ptr\<close> does not survive the round trip: it is written
  as a false flag and read back as a pointer to a default object. An object that is there is read
  back as it was.\<close>

theorem ptr_wire:
  assumes "codec w r s v" "pred_option v x"
  shows "ptr_read dflt r (optional_write w x @ rest)
    = Inr (Some (case x of None \<Rightarrow> dflt | Some y \<Rightarrow> y), rest)"
  using assms(2) codec.roundtrip [OF assms(1)] bool.roundtrip
  by (cases x) (simp_all add: ptr_read_def optional_write_def rbind_def rreturn_def)

theorem ptr_wire_witness:
  "ptr_read 0 (le_read 4 :: int32 reader) (optional_write (le_write 4) (None :: int32 option) @ []) = Inr (Some 0, [])"
  using ptr_wire [OF i32.codec_axioms, of None 0 "[]"] by simp

end
