(* ===== verification/Wire.thy ===== *)
theory Wire
  imports Codec Values
begin

text \<open>
  The readers and writers that the data types define for themselves: \<^verbatim>\<open>EdgeID\<close>, \<^verbatim>\<open>Ref\<close>, \<^verbatim>\<open>Node\<close>,
  \<^verbatim>\<open>Edge\<close>, \<^verbatim>\<open>Row\<close>, \<^verbatim>\<open>List\<close>, \<^verbatim>\<open>Path\<close>, \<^verbatim>\<open>Record\<close>, \<^verbatim>\<open>Graph\<close> and the temporal types, in the headers
  under \<^verbatim>\<open>src/include/nebula/common/datatype\<close>, and \<^verbatim>\<open>Error\<close> and \<^verbatim>\<open>Result\<close> under
  \<^verbatim>\<open>common/base\<close>. Each is the sequence of the fields' readers and writers. The codec of \<^verbatim>\<open>Value\<close> is
  only declared in \<^verbatim>\<open>Value.h\<close>, so it is a parameter that satisfies the contract \<open>codec\<close>.
\<close>

section \<open>Identifiers and references\<close>

definition EdgeID_write :: "EdgeID \<Rightarrow> byte list" where
  "EdgeID_write e = le_write 8 (srcID e) @ le_write 8 (dstID e) @ le_write 8 (rank e)
     @ le_write 4 (graphID e) @ le_write 4 (edgeTypeID e)"

definition EdgeID_read :: "EdgeID reader" where
  "EdgeID_read =
     rbind (le_read 8) (\<lambda>s. rbind (le_read 8) (\<lambda>d. rbind (le_read 8) (\<lambda>r.
     rbind (le_read 4) (\<lambda>g. rbind (le_read 4) (\<lambda>t.
       rreturn \<lparr>srcID = s, dstID = d, rank = r, graphID = g, edgeTypeID = t\<rparr>)))))"

definition EdgeID_size :: "EdgeID \<Rightarrow> nat" where
  "EdgeID_size e = 8 + 8 + 8 + 4 + 4"

definition Ref_write :: "Ref \<Rightarrow> byte list" where
  "Ref_write r = le_write 4 (refCode r) @ le_write 4 (refOffset r)"

definition Ref_read :: "Ref reader" where
  "Ref_read = rbind (le_read 4) (\<lambda>c. rbind (le_read 4) (\<lambda>off.
     rreturn \<lparr>refCode = c, refOffset = off\<rparr>))"

definition Ref_size :: "Ref \<Rightarrow> nat" where "Ref_size r = 4 * 2"

section \<open>Temporal types\<close>

definition Date_write :: "Date \<Rightarrow> byte list" where
  "Date_write d = le_write 2 (year d) @ le_write 1 (month d) @ le_write 1 (day d)"

definition Date_read :: "Date reader" where
  "Date_read = rbind (le_read 2) (\<lambda>y. rbind (le_read 1) (\<lambda>m. rbind (le_read 1) (\<lambda>d.
     rreturn \<lparr>year = y, month = m, day = d\<rparr>)))"

definition Date_size :: "Date \<Rightarrow> nat" where "Date_size d = 2 + 1 + 1"

text \<open>The padding byte of a time is not written: the reader keeps the one of the object it fills.\<close>

definition LocalTime_write :: "LocalTime \<Rightarrow> byte list" where
  "LocalTime_write t =
     le_write 1 (hour t) @ le_write 1 (minute t) @ le_write 1 (sec t) @ le_write 4 (microsec t)"

definition LocalTime_read :: "LocalTime \<Rightarrow> LocalTime reader" where
  "LocalTime_read old =
     rbind (le_read 1) (\<lambda>h. rbind (le_read 1) (\<lambda>m. rbind (le_read 1) (\<lambda>s. rbind (le_read 4) (\<lambda>us.
       rreturn \<lparr>hour = h, minute = m, sec = s, padding = padding old, microsec = us\<rparr>))))"

definition LocalTime_size :: "LocalTime \<Rightarrow> nat" where "LocalTime_size t = 1 + 1 + 1 + 4"

definition ZonedTime_write :: "ZonedTime \<Rightarrow> byte list" where
  "ZonedTime_write t = LocalTime_write (time t)"

definition ZonedTime_read :: "ZonedTime \<Rightarrow> ZonedTime reader" where
  "ZonedTime_read old = rbind (LocalTime_read (time old)) (\<lambda>t. rreturn \<lparr>time = t\<rparr>)"

definition ZonedTime_size :: "ZonedTime \<Rightarrow> nat" where
  "ZonedTime_size t = LocalTime_size (time t)"

definition LocalDatetime_write :: "LocalDatetime \<Rightarrow> byte list" where
  "LocalDatetime_write t = le_write 8 (qword t)"

definition LocalDatetime_read :: "LocalDatetime reader" where
  "LocalDatetime_read = rbind (le_read 8) (\<lambda>q. rreturn \<lparr>qword = q\<rparr>)"

definition LocalDatetime_size :: "LocalDatetime \<Rightarrow> nat" where "LocalDatetime_size t = 8"

definition ZonedDatetime_write :: "ZonedDatetime \<Rightarrow> byte list" where
  "ZonedDatetime_write t = le_write 8 (qword (datetime t))"

definition ZonedDatetime_read :: "ZonedDatetime reader" where
  "ZonedDatetime_read = rbind (le_read 8) (\<lambda>q. rreturn \<lparr>datetime = \<lparr>qword = q\<rparr>\<rparr>)"

definition ZonedDatetime_size :: "ZonedDatetime \<Rightarrow> nat" where "ZonedDatetime_size t = 8"

definition Duration_write :: "Duration \<Rightarrow> byte list" where
  "Duration_write d = le_write 8 (seconds d) @ le_write 4 (microseconds d) @ le_write 4 (months d)"

definition Duration_read :: "Duration reader" where
  "Duration_read = rbind (le_read 8) (\<lambda>s. rbind (le_read 4) (\<lambda>us. rbind (le_read 4) (\<lambda>m.
     rreturn \<lparr>seconds = s, microseconds = us, months = m\<rparr>)))"

definition Duration_size :: "Duration \<Rightarrow> nat" where "Duration_size d = 8 + 4 + 4"

section \<open>Graph elements and rows\<close>

definition properties_write :: "(Value \<Rightarrow> byte list) \<Rightarrow> properties_type \<Rightarrow> byte list" where
  "properties_write w = map_write string_write w"

definition properties_read :: "Value reader \<Rightarrow> properties_type reader" where
  "properties_read r = umap_read string_read r"

definition properties_size :: "(Value \<Rightarrow> nat) \<Rightarrow> properties_type \<Rightarrow> nat" where
  "properties_size s = map_size string_size s"

definition properties_valid :: "(Value \<Rightarrow> bool) \<Rightarrow> properties_type \<Rightarrow> bool" where
  "properties_valid v = umap_valid (\<lambda>str. length str < 2 ^ 32) v"

definition Node_write :: "(Value \<Rightarrow> byte list) \<Rightarrow> Node \<Rightarrow> byte list" where
  "Node_write w n =
     le_write 8 (nodeIdent n) @ le_write 4 (nodeGraphID n) @ properties_write w (node_properties n)"

definition Node_read :: "Value reader \<Rightarrow> Node reader" where
  "Node_read r = rbind (le_read 8) (\<lambda>i. rbind (le_read 4) (\<lambda>g. rbind (properties_read r) (\<lambda>ps.
     rreturn \<lparr>nodeIdent = i, nodeGraphID = g, node_properties = ps\<rparr>)))"

definition Node_size :: "(Value \<Rightarrow> nat) \<Rightarrow> Node \<Rightarrow> nat" where
  "Node_size s n = 8 + 4 + properties_size s (node_properties n)"

definition Edge_write :: "(Value \<Rightarrow> byte list) \<Rightarrow> Edge \<Rightarrow> byte list" where
  "Edge_write w e = EdgeID_write (edgeIdent e) @ properties_write w (edge_properties e)"

definition Edge_read :: "Value reader \<Rightarrow> Edge reader" where
  "Edge_read r = rbind EdgeID_read (\<lambda>i. rbind (properties_read r) (\<lambda>ps.
     rreturn \<lparr>edgeIdent = i, edge_properties = ps\<rparr>))"

definition Edge_size :: "(Value \<Rightarrow> nat) \<Rightarrow> Edge \<Rightarrow> nat" where
  "Edge_size s e = EdgeID_size (edgeIdent e) + properties_size s (edge_properties e)"

text \<open>\<^verbatim>\<open>Row\<close>, \<^verbatim>\<open>List\<close> and \<^verbatim>\<open>Path\<close> are the vector of their values, \<^verbatim>\<open>Record\<close> the map of its fields.\<close>

definition Row_write :: "(Value \<Rightarrow> byte list) \<Rightarrow> Row \<Rightarrow> byte list" where "Row_write w = vector_write w"
definition Row_read :: "Value reader \<Rightarrow> Row reader" where "Row_read r = vector_read r"
definition Row_size :: "(Value \<Rightarrow> nat) \<Rightarrow> Row \<Rightarrow> nat" where "Row_size s = vector_size s"

text \<open>\<^verbatim>\<open>Graph\<close> writes nothing and refuses to be read.\<close>

definition Graph_write :: "'g \<Rightarrow> byte list" where "Graph_write g = []"
definition Graph_read :: "'g reader" where "Graph_read buf = Inl UNSUPPORTED"
definition Graph_size :: "'g \<Rightarrow> nat" where "Graph_size g = 0"

section \<open>Errors and results\<close>

record Error =
  code :: uint64
  message :: string

definition Error_write :: "Error \<Rightarrow> byte list" where
  "Error_write e = le_write 8 (code e) @ string_write (message e)"

definition Error_read :: "Error reader" where
  "Error_read = rbind (le_read 8) (\<lambda>c. rbind string_read (\<lambda>m. rreturn \<lparr>code = c, message = m\<rparr>))"

definition Error_size :: "Error \<Rightarrow> nat" where
  "Error_size e = 8 + string_size (message e)"

text \<open>\<open>Inr\<close> is the alternative \<^verbatim>\<open>ValueType\<close> of the variant, \<open>Inl\<close> the alternative \<^verbatim>\<open>Error\<close>.\<close>

definition Result_write :: "('v \<Rightarrow> byte list) \<Rightarrow> Error + 'v \<Rightarrow> byte list" where
  "Result_write w x = (case x of
     Inr v \<Rightarrow> bool_write True @ w v | Inl e \<Rightarrow> bool_write False @ Error_write e)"

definition Result_read :: "'v reader \<Rightarrow> (Error + 'v) reader" where
  "Result_read r = rbind bool_read (\<lambda>ok.
     if ok then rbind r (\<lambda>v. rreturn (Inr v)) else rbind Error_read (\<lambda>e. rreturn (Inl e)))"

definition Result_size :: "('v \<Rightarrow> nat) \<Rightarrow> Error + 'v \<Rightarrow> nat" where
  "Result_size s x = 1 + (case x of Inr v \<Rightarrow> s v | Inl e \<Rightarrow> Error_size e)"

section \<open>Every type keeps the contract\<close>

lemmas field_rules = decodes_last decodes_bind
  u8.decodes_write [OF TrueI] i16.decodes_write [OF TrueI] i32.decodes_write [OF TrueI]
  i64.decodes_write [OF TrueI]

lemmas consume_rules = consumes_bind consumes_return u8.consumes_read i16.consumes_read
  i32.consumes_read i64.consumes_read

interpretation edge_id: codec EdgeID_write EdgeID_read EdgeID_size "\<lambda>_. True"
proof
  show "decodes EdgeID_read (EdgeID_write x) x" for x
    unfolding EdgeID_read_def EdgeID_write_def by (rule field_rules | simp)+
  show "consumes EdgeID_read" unfolding EdgeID_read_def by (intro consume_rules)
qed (simp add: EdgeID_write_def EdgeID_size_def)

interpretation ref_wire: codec Ref_write Ref_read Ref_size "\<lambda>_. True"
proof
  show "decodes Ref_read (Ref_write x) x" for x
    unfolding Ref_read_def Ref_write_def by (rule field_rules | simp)+
  show "consumes Ref_read" unfolding Ref_read_def by (intro consume_rules)
qed (simp add: Ref_write_def Ref_size_def)

interpretation date_wire: codec Date_write Date_read Date_size "\<lambda>_. True"
proof
  show "decodes Date_read (Date_write x) x" for x
    unfolding Date_read_def Date_write_def by (rule field_rules | simp)+
  show "consumes Date_read" unfolding Date_read_def by (intro consume_rules)
qed (simp add: Date_write_def Date_size_def)

lemma time_codec:
  "codec LocalTime_write (LocalTime_read old) LocalTime_size (\<lambda>t. padding t = padding old)"
proof
  show "decodes (LocalTime_read old) (LocalTime_write x) x" if "padding x = padding old" for x
    unfolding LocalTime_read_def LocalTime_write_def by (rule field_rules | simp add: that [symmetric])+
  show "consumes (LocalTime_read old)" unfolding LocalTime_read_def by (intro consume_rules)
qed (simp add: LocalTime_write_def LocalTime_size_def)

interpretation time_wire: codec LocalTime_write "LocalTime_read (LocalTime_mk 0 0 0 0)"
    LocalTime_size "\<lambda>t. padding t = 0"
  using time_codec [of "LocalTime_mk 0 0 0 0"] by (simp add: LocalTime_mk_def)

lemma zonedtime_codec:
  "codec ZonedTime_write (ZonedTime_read old) ZonedTime_size (\<lambda>t. padding (time t) = padding (time old))"
proof
  note t = time_codec [of "time old"]
  show "decodes (ZonedTime_read old) (ZonedTime_write x) x" if "padding (time x) = padding (time old)" for x
    unfolding ZonedTime_read_def ZonedTime_write_def
    by (rule decodes_last [OF codec.decodes_write [OF t]]) (simp_all add: that)
  show "consumes (ZonedTime_read old)"
    unfolding ZonedTime_read_def by (intro consume_rules codec.consumes_read [OF t])
  show "length (ZonedTime_write x) = ZonedTime_size x" for x
    by (simp add: ZonedTime_write_def ZonedTime_size_def LocalTime_write_def LocalTime_size_def)
qed

interpretation datetime_wire: codec LocalDatetime_write LocalDatetime_read LocalDatetime_size "\<lambda>_. True"
proof
  show "decodes LocalDatetime_read (LocalDatetime_write x) x" for x
    unfolding LocalDatetime_read_def LocalDatetime_write_def by (rule field_rules | simp)+
  show "consumes LocalDatetime_read" unfolding LocalDatetime_read_def by (intro consume_rules)
qed (simp add: LocalDatetime_write_def LocalDatetime_size_def)

interpretation zdatetime_wire: codec ZonedDatetime_write ZonedDatetime_read ZonedDatetime_size "\<lambda>_. True"
proof
  show "decodes ZonedDatetime_read (ZonedDatetime_write x) x" for x
    unfolding ZonedDatetime_read_def ZonedDatetime_write_def by (rule field_rules | simp)+
  show "consumes ZonedDatetime_read" unfolding ZonedDatetime_read_def by (intro consume_rules)
qed (simp add: ZonedDatetime_write_def ZonedDatetime_size_def)

interpretation duration_wire: codec Duration_write Duration_read Duration_size "\<lambda>_. True"
proof
  show "decodes Duration_read (Duration_write x) x" for x
    unfolding Duration_read_def Duration_write_def by (rule field_rules | simp)+
  show "consumes Duration_read" unfolding Duration_read_def by (intro consume_rules)
qed (simp add: Duration_write_def Duration_size_def)

lemma properties_codec:
  "codec w r s v \<Longrightarrow> codec (properties_write w) (properties_read r) (properties_size s) (properties_valid v)"
  using umap_codec [OF string_codec]
  by (simp add: properties_write_def [abs_def] properties_read_def properties_size_def [abs_def]
      properties_valid_def [abs_def])

lemma node_codec:
  assumes "codec w r s v"
  shows "codec (Node_write w) (Node_read r) (Node_size s) (\<lambda>n. properties_valid v (node_properties n))"
proof
  note p = properties_codec [OF assms]
  fix x :: Node assume x: "properties_valid v (node_properties x)"
  show "decodes (Node_read r) (Node_write w x) x"
    unfolding Node_read_def Node_write_def
    by (rule field_rules codec.decodes_write [OF p x] | simp)+
  show "length (Node_write w x) = Node_size s x"
    using codec.size_write [OF p x] by (simp add: Node_write_def Node_size_def)
next
  show "consumes (Node_read r)" unfolding Node_read_def
    by (intro consume_rules codec.consumes_read [OF properties_codec [OF assms]])
qed

lemma edge_codec:
  assumes "codec w r s v"
  shows "codec (Edge_write w) (Edge_read r) (Edge_size s) (\<lambda>e. properties_valid v (edge_properties e))"
proof
  note p = properties_codec [OF assms]
  fix x :: Edge assume x: "properties_valid v (edge_properties x)"
  show "decodes (Edge_read r) (Edge_write w x) x"
    unfolding Edge_read_def Edge_write_def
    by (rule field_rules edge_id.decodes_write [OF TrueI] codec.decodes_write [OF p x] | simp)+
  show "length (Edge_write w x) = Edge_size s x"
    using codec.size_write [OF p x] edge_id.size_write by (simp add: Edge_write_def Edge_size_def)
next
  show "consumes (Edge_read r)" unfolding Edge_read_def
    by (intro consume_rules edge_id.consumes_read codec.consumes_read [OF properties_codec [OF assms]])
qed

interpretation error_wire: codec Error_write Error_read Error_size "\<lambda>e. length (message e) < 2 ^ 32"
proof
  note str = string_codec
  fix x :: Error assume x: "length (message x) < 2 ^ 32"
  show "decodes Error_read (Error_write x) x"
    unfolding Error_read_def Error_write_def
    by (rule field_rules codec.decodes_write [OF str x] | simp)+
  show "length (Error_write x) = Error_size x"
    using codec.size_write [OF str x] by (simp add: Error_write_def Error_size_def)
next
  show "consumes Error_read" unfolding Error_read_def
    by (intro consume_rules codec.consumes_read [OF string_codec])
qed

definition Result_valid :: "('v \<Rightarrow> bool) \<Rightarrow> Error + 'v \<Rightarrow> bool" where
  "Result_valid v x = (case x of Inr y \<Rightarrow> v y | Inl e \<Rightarrow> length (message e) < 2 ^ 32)"

lemma result_codec:
  assumes "codec w r s v"
  shows "codec (Result_write w) (Result_read r) (Result_size s) (Result_valid v)"
proof
  fix x assume x: "Result_valid v x"
  show "decodes (Result_read r) (Result_write w x) x"
  proof (cases x)
    case (Inl e)
    have e: "decodes (rbind Error_read (\<lambda>e. rreturn (Inl e :: Error + 'a))) (Error_write e) (Inl e)"
      by (rule decodes_last [OF error_wire.decodes_write]) (use Inl x in \<open>simp_all add: Result_valid_def\<close>)
    show ?thesis unfolding Inl Result_read_def Result_write_def sum.case
      by (rule decodes_bind [OF bool.decodes_write]) (simp_all add: e)
  next
    case (Inr y)
    have y: "decodes (rbind r (\<lambda>v. rreturn (Inr v :: Error + 'a))) (w y) (Inr y)"
      by (rule decodes_last [OF codec.decodes_write [OF assms]])
        (use Inr x in \<open>simp_all add: Result_valid_def\<close>)
    show ?thesis unfolding Inr Result_read_def Result_write_def sum.case
      by (rule decodes_bind [OF bool.decodes_write]) (simp_all add: y)
  qed
  show "length (Result_write w x) = Result_size s x"
    using x codec.size_write [OF assms] error_wire.size_write bool.size_write
    by (cases x) (simp_all add: Result_write_def Result_size_def Result_valid_def)
next
  show "consumes (Result_read r)"
    unfolding Result_read_def
    by (intro consumes_bind bool.consumes_read)
      (simp add: consumes_bind consumes_return error_wire.consumes_read codec.consumes_read [OF assms])
qed

section \<open>Properties\<close>

text \<open>A codec for integer and string values only, on which the theorems are evaluated.\<close>

fun sample_write :: "Value \<Rightarrow> byte list" where
  "sample_write (VInt64 i) = bool_write True @ le_write 8 i"
| "sample_write (VString str) = bool_write False @ string_write str"
| "sample_write v = []"

definition sample_read :: "Value reader" where
  "sample_read = rbind bool_read (\<lambda>b. if b then rbind (le_read 8) (\<lambda>i. rreturn (VInt64 i))
     else rbind string_read (\<lambda>str. rreturn (VString str)))"

fun sample_size :: "Value \<Rightarrow> nat" where
  "sample_size (VInt64 i) = 9"
| "sample_size (VString str) = 1 + string_size str"
| "sample_size v = 0"

fun sample_valid :: "Value \<Rightarrow> bool" where
  "sample_valid (VInt64 i) = True"
| "sample_valid (VString str) = (length str < 2 ^ 32)"
| "sample_valid v = False"

lemma sample_codec: "codec sample_write sample_read sample_size sample_valid"
proof
  fix x assume x: "sample_valid x"
  then consider i where "x = VInt64 i" | str where "x = VString str" "length str < 2 ^ 32"
    by (cases x) auto
  then show "decodes sample_read (sample_write x) x"
  proof cases
    case 1
    have i: "decodes (rbind (le_read 8) (\<lambda>i. rreturn (VInt64 i))) (le_write 8 i) x"
      by (rule decodes_last [OF i64.decodes_write]) (simp_all add: 1)
    show ?thesis unfolding 1 sample_read_def sample_write.simps
      by (rule decodes_bind [OF bool.decodes_write]) (use i 1 in simp_all)
  next
    case 2
    have str: "decodes (rbind string_read (\<lambda>str. rreturn (VString str))) (string_write str) x"
      by (rule decodes_last [OF codec.decodes_write [OF string_codec 2(2)]]) (simp add: 2)
    show ?thesis unfolding 2 sample_read_def sample_write.simps
      by (rule decodes_bind [OF bool.decodes_write]) (use str 2 in simp_all)
  qed
  show "length (sample_write x) = sample_size x"
    using x bool.size_write codec.size_write [OF string_codec] by (cases x) auto
next
  show "consumes sample_read"
    unfolding sample_read_def
    by (intro consumes_bind bool.consumes_read)
      (simp add: consumes_bind consumes_return i64.consumes_read codec.consumes_read [OF string_codec])
qed

text \<open>A node written to a buffer is read back with its id, its graph id and its properties,
  whatever follows it, provided the codec of the property values keeps its contract; it takes
  \<^verbatim>\<open>encodedSize\<close> bytes and a buffer cut inside it is refused.\<close>

theorem node_wire:
  assumes "codec wv rv sv vv" "properties_valid vv (node_properties n)"
  shows "Node_read rv (Node_write wv n @ rest) = Inr (n, rest)
    \<and> length (Node_write wv n) = Node_size sv n
    \<and> (\<forall>k < Node_size sv n. \<exists>e. Node_read rv (take k (Node_write wv n)) = Inl e)"
  using codec.roundtrip [OF node_codec [OF assms(1)]] codec.size_write [OF node_codec [OF assms(1)]]
    codec.truncated [OF node_codec [OF assms(1)]] assms(2) by blast

definition sample_node :: Node where
  "sample_node = \<lparr>nodeIdent = 77, nodeGraphID = 3,
     node_properties = [(''p'', VInt64 5), (''name'', VString ''bus'')]\<rparr>"

theorem node_wire_witness:
  "Node_read sample_read (Node_write sample_write sample_node @ [255]) = Inr (sample_node, [255])
   \<and> Node_size sample_size sample_node = 46"
  using node_wire [OF sample_codec, of sample_node "[255]"]
  by (simp add: sample_node_def properties_valid_def umap_valid_def Node_size_def properties_size_def
      map_size_def pair_size_def string_size_def)

text \<open>Edges written one after another to a buffer are read back one after another: the first
  read gives the first edge, with its id and its properties, and leaves the bytes of the others.\<close>

theorem edge_wire:
  assumes "codec wv rv sv vv" "list_all (\<lambda>e. properties_valid vv (edge_properties e)) (e # es)"
  shows "Edge_read rv (concat (map (Edge_write wv) (e # es)) @ rest)
      = Inr (e, concat (map (Edge_write wv) es) @ rest)
    \<and> length (Edge_write wv e) = Edge_size sv e"
  using codec.stream [OF edge_codec [OF assms(1)] assms(2)] codec.size_write [OF edge_codec [OF assms(1)]]
    assms(2) by simp

definition sample_edge :: "int64 \<Rightarrow> Edge" where
  "sample_edge i = \<lparr>edgeIdent = \<lparr>srcID = i, dstID = 2, rank = 0, graphID = 3, edgeTypeID = - 4\<rparr>,
     edge_properties = [(''point'', VInt64 1)]\<rparr>"

theorem edge_wire_witness:
  "Edge_read sample_read (Edge_write sample_write (sample_edge 8) @ Edge_write sample_write (sample_edge 9))
     = Inr (sample_edge 8, Edge_write sample_write (sample_edge 9))"
  using edge_wire [OF sample_codec, of "sample_edge 8" "[sample_edge 9]" "[]"]
  by (simp add: sample_edge_def properties_valid_def umap_valid_def)

text \<open>Dates, times, datetimes and durations survive the round trip with all their fields; a
  time is read into an object whose padding byte stays as it was.\<close>

theorem temporal_wire:
  "Date_read (Date_write d @ rest) = Inr (d, rest)
   \<and> LocalTime_read old (LocalTime_write t @ rest) = Inr (t\<lparr>padding := padding old\<rparr>, rest)
   \<and> ZonedTime_read zold (ZonedTime_write z @ rest)
       = Inr (z\<lparr>time := (time z)\<lparr>padding := padding (time zold)\<rparr>\<rparr>, rest)
   \<and> LocalDatetime_read (LocalDatetime_write dt @ rest) = Inr (dt, rest)
   \<and> ZonedDatetime_read (ZonedDatetime_write zdt @ rest) = Inr (zdt, rest)
   \<and> Duration_read (Duration_write du @ rest) = Inr (du, rest)"
proof (intro conjI)
  have 1: "LocalTime_write (t\<lparr>padding := p\<rparr>) = LocalTime_write t" for t p
    by (simp add: LocalTime_write_def)
  show "LocalTime_read old (LocalTime_write t @ rest) = Inr (t\<lparr>padding := padding old\<rparr>, rest)"
    using codec.roundtrip [OF time_codec, of "t\<lparr>padding := padding old\<rparr>" old rest] by (simp add: 1)
  show "ZonedTime_read zold (ZonedTime_write z @ rest)
       = Inr (z\<lparr>time := (time z)\<lparr>padding := padding (time zold)\<rparr>\<rparr>, rest)"
    using codec.roundtrip [OF zonedtime_codec, of "z\<lparr>time := (time z)\<lparr>padding := padding (time zold)\<rparr>\<rparr>" zold rest]
    by (simp add: 1 ZonedTime_write_def)
qed (simp_all add: date_wire.roundtrip datetime_wire.roundtrip zdatetime_wire.roundtrip duration_wire.roundtrip)

text \<open>A \<^verbatim>\<open>Result\<close> is read back as the alternative that was written, the value or the error
  with its code and message; two results never have the same encoding.\<close>

theorem result_wire:
  assumes "codec w r s v" "Result_valid v x" "Result_valid v y"
  shows "Result_read r (Result_write w x @ rest) = Inr (x, rest)
    \<and> (Result_write w x = Result_write w y \<longleftrightarrow> x = y)"
  using codec.roundtrip [OF result_codec [OF assms(1)] assms(2)]
    codec.prefix_free [OF result_codec [OF assms(1)] assms(2,3), of "[]" "[]"] by auto

theorem result_wire_witness:
  "Result_read (le_read 8 :: int64 reader)
     (Result_write (le_write 8 :: int64 \<Rightarrow> byte list) (Inl \<lparr>code = 42, message = ''no graph''\<rparr>) @ [])
     = Inr (Inl \<lparr>code = 42, message = ''no graph''\<rparr>, [])"
  using result_wire [OF i64.codec_axioms, of "Inl \<lparr>code = 42, message = ''no graph''\<rparr>" "Inr 0" "[]"]
  by (simp add: Result_valid_def)

end
