(* ===== verification/Engine.thy ===== *)
theory Engine
  imports Prelude
begin

text \<open>
  The fork and join layer of \<^verbatim>\<open>src/include/nebula/computing/ComputingEngine.h\<close>: a range is split
  into tasks, each task gets a copy of its slice, and the results are joined in task order. A
  failed future is \<open>Inl\<close> of the exception. Building the slice with its first iterator past its
  last one is undefined behaviour of \<^verbatim>\<open>std::vector\<close>'s constructor; it is the value \<open>None\<close>. The pool
  itself (\<^verbatim>\<open>addTask\<close>) is only called: a task runs once and its future holds what it returned.
\<close>

section \<open>Sequences of fallible calls\<close>

fun mapE :: "('a \<Rightarrow> 'e + 'b) \<Rightarrow> 'a list \<Rightarrow> 'e + 'b list" where
  "mapE f [] = Inr []"
| "mapE f (x # xs) = (case f x of Inl e \<Rightarrow> Inl e
     | Inr y \<Rightarrow> (case mapE f xs of Inl e \<Rightarrow> Inl e | Inr ys \<Rightarrow> Inr (y # ys)))"

fun foldE :: "('a \<Rightarrow> 's \<Rightarrow> 'e + 's) \<Rightarrow> 'a list \<Rightarrow> 's \<Rightarrow> 'e + 's" where
  "foldE f [] acc = Inr acc"
| "foldE f (x # xs) acc = (case f x acc of Inl e \<Rightarrow> Inl e | Inr acc' \<Rightarrow> foldE f xs acc')"

section \<open>Splitting\<close>

definition kParallelThreshold :: nat where "kParallelThreshold = 5000"

definition splitTasks :: "nat \<Rightarrow> nat \<Rightarrow> nat \<times> nat" where
  "splitTasks numThreads rng =
     (if rng < kParallelThreshold \<or> rng < numThreads then (1, rng)
      else let dataSizePerThread = rng div numThreads in
        (numThreads, if rng mod numThreads \<noteq> 0 then dataSizePerThread + 1 else dataSizePerThread))"

text \<open>\<^verbatim>\<open>c(from, to)\<close> with \<^verbatim>\<open>from = begin + i * step\<close>.\<close>

definition chunk_at :: "'a list \<Rightarrow> nat \<Rightarrow> nat \<Rightarrow> 'a list option" where
  "chunk_at xs step i = (let from = i * step;
     to = (if length xs \<le> from + step then length xs else from + step) in
     if from \<le> to then Some (take (to - from) (drop from xs)) else None)"

definition task_chunks :: "nat \<Rightarrow> 'a list \<Rightarrow> 'a list list option" where
  "task_chunks n xs = (case splitTasks n (length xs) of
     (numTasks, step) \<Rightarrow> those (map (chunk_at xs step) [0..<numTasks]))"

section \<open>Parallel operations\<close>

definition parallelFor :: "nat \<Rightarrow> ('a \<Rightarrow> 'e + 'r) \<Rightarrow> 'a list \<Rightarrow> ('e + 'r list) option" where
  "parallelFor n f xs = (case task_chunks n xs of None \<Rightarrow> None
     | Some cs \<Rightarrow> Some (case mapE (mapE f) cs of Inl e \<Rightarrow> Inl e | Inr rs \<Rightarrow> Inr (concat rs)))"

text \<open>The callback appends to the task's own vector.\<close>

definition parallelFilter :: "nat \<Rightarrow> ('a \<Rightarrow> 'r list \<Rightarrow> 'e + 'r list) \<Rightarrow> 'a list \<Rightarrow> ('e + 'r list) option" where
  "parallelFilter n f xs = (case task_chunks n xs of None \<Rightarrow> None
     | Some cs \<Rightarrow> Some (case mapE (\<lambda>c. foldE f c []) cs of Inl e \<Rightarrow> Inl e | Inr rs \<Rightarrow> Inr (concat rs)))"

text \<open>The callback fills the table of mapped values and the vector of keys. Then every key gets the fold of its
  mapped values, \<^verbatim>\<open>tnew\<close>, which starts from an object \<open>t0\<close> that is not initialised: these are the
  \<open>_values\<close>. The code computes them and returns the keys only; the result of a task that threw is dropped.\<close>

type_synonym ('r, 't) reduce_acc = "('r \<Rightarrow> 't list) \<times> 'r list"

definition reduce_task_values ::
  "('a \<Rightarrow> ('r, 't) reduce_acc \<Rightarrow> 'e + ('r, 't) reduce_acc) \<Rightarrow> ('t \<Rightarrow> 't \<Rightarrow> 't) \<Rightarrow> 't \<Rightarrow> 'a list
     \<Rightarrow> 'e + ('r \<times> 't) list"
where
  "reduce_task_values f rf t0 c = (case foldE f c (\<lambda>_. [], []) of Inl e \<Rightarrow> Inl e
     | Inr (tmp, res) \<Rightarrow> Inr (map (\<lambda>v. (v, foldl rf t0 (tmp v))) res))"

definition reduce_task ::
  "('a \<Rightarrow> ('r, 't) reduce_acc \<Rightarrow> 'e + ('r, 't) reduce_acc) \<Rightarrow> ('t \<Rightarrow> 't \<Rightarrow> 't) \<Rightarrow> 't \<Rightarrow> 'a list \<Rightarrow> 'e + 'r list"
where
  "reduce_task f rf t0 c = (case reduce_task_values f rf t0 c of Inl e \<Rightarrow> Inl e
     | Inr tnew \<Rightarrow> Inr (map fst tnew))"

definition parallelReduce_values ::
  "nat \<Rightarrow> ('a \<Rightarrow> ('r, 't) reduce_acc \<Rightarrow> 'e + ('r, 't) reduce_acc) \<Rightarrow> ('t \<Rightarrow> 't \<Rightarrow> 't) \<Rightarrow> 't \<Rightarrow> 'a list
     \<Rightarrow> ('r \<times> 't) list option"
where
  "parallelReduce_values n f rf t0 xs = (case task_chunks n xs of None \<Rightarrow> None
     | Some cs \<Rightarrow> Some (concat (map (\<lambda>c. case reduce_task_values f rf t0 c of Inl e \<Rightarrow> [] | Inr vs \<Rightarrow> vs) cs)))"

definition parallelReduce ::
  "nat \<Rightarrow> ('a \<Rightarrow> ('r, 't) reduce_acc \<Rightarrow> 'e + ('r, 't) reduce_acc) \<Rightarrow> ('t \<Rightarrow> 't \<Rightarrow> 't) \<Rightarrow> 't \<Rightarrow> 'a list
     \<Rightarrow> 'r list option"
where
  "parallelReduce n f rf t0 xs = (case task_chunks n xs of None \<Rightarrow> None
     | Some cs \<Rightarrow> Some (concat (map (\<lambda>c. case reduce_task f rf t0 c of Inl e \<Rightarrow> [] | Inr res \<Rightarrow> res) cs)))"

text \<open>An exception is logged and replaced by a default object.\<close>

definition runOnCurrentThread :: "'t \<Rightarrow> 'e + 't \<Rightarrow> 't" where
  "runOnCurrentThread dflt future = (case future of Inl e \<Rightarrow> dflt | Inr x \<Rightarrow> x)"

section \<open>The slices\<close>

lemma chunk_at_iff:
  "chunk_at xs step i = (if i * step \<le> length xs then Some (take step (drop (i * step) xs)) else None)"
  by (auto simp: chunk_at_def Let_def)

lemma those_Some_map: "those (map f xs) = Some ys \<longleftrightarrow> map f xs = map Some ys"
proof (induction xs arbitrary: ys)
  case (Cons x xs)
  then show ?case by (cases ys) (auto split: option.splits)
qed auto

lemma those_None: "those xs = None \<longleftrightarrow> None \<in> set xs"
  by (induction xs) (auto split: option.splits)

lemma concat_slices:
  "concat (map (\<lambda>i. take step (drop (i * step) xs)) [0..<k]) = take (k * step) xs"
  by (induction k) (auto simp: take_add [symmetric] add.commute)

lemma splitTasks_covers:
  assumes "0 < n" "splitTasks n rng = (k, step)"
  shows "rng \<le> k * step"
proof -
  have "rng \<le> n * (rng div n) + rng mod n" by simp
  moreover have "rng mod n < n" using assms(1) by simp
  ultimately have "rng \<le> n * (rng div n + 1)" "rng mod n = 0 \<Longrightarrow> rng \<le> n * (rng div n)"
    unfolding distrib_left by linarith+
  then show ?thesis using assms(2) by (auto simp: splitTasks_def Let_def split: if_splits)
qed

lemma splitTasks_last:
  assumes "0 < n" "(n - 1) ^ 2 \<le> rng" "splitTasks n rng = (k, step)"
  shows "(k - 1) * step \<le> rng"
proof (cases "rng mod n = 0 \<or> k = 1")
  case True
  then show ?thesis using assms(3) by (auto simp: splitTasks_def Let_def split: if_splits)
next
  case False
  then have k: "k = n" "step = rng div n + 1"
    using assms(3) by (auto simp: splitTasks_def Let_def split: if_splits)
  have r: "rng = n * (rng div n) + rng mod n" by simp
  define q where "q = rng div n"
  define m where "m = rng mod n"
  have "0 < m" "m < n" using False assms(1) by (simp_all add: m_def)
  have sq: "(n - 1) * (n - 1) \<le> n * q + m" using assms(2) r by (simp add: power2_eq_square q_def m_def)
  have "n - 1 \<le> q + m"
  proof (rule ccontr)
    assume "\<not> n - 1 \<le> q + m"
    then obtain d where d: "n = q + m + 2 + d" by (metis add.assoc add_Suc_right le_Suc_ex
        less_iff_Suc_add not_less_eq_eq One_nat_def Suc_pred' add_2_eq_Suc assms(1) not_le)
    show False using sq \<open>0 < m\<close> unfolding d by (simp add: algebra_simps)
  qed
  then have "(n - 1) * (q + 1) \<le> n * q + m" by (cases n) (auto simp: algebra_simps)
  then show ?thesis using r by (simp add: k q_def m_def)
qed

lemma task_chunks_None:
  "task_chunks n xs = None \<longleftrightarrow>
     (case splitTasks n (length xs) of (k, step) \<Rightarrow> \<exists>i < k. length xs < i * step)"
  by (auto simp: task_chunks_def those_None chunk_at_iff image_iff atLeast0LessThan not_le
      split: prod.split if_splits)

lemma task_chunks_Some:
  assumes "0 < n" "task_chunks n xs = Some cs"
  shows "concat cs = xs \<and> length cs = fst (splitTasks n (length xs))"
proof -
  obtain k step where s: "splitTasks n (length xs) = (k, step)" by fastforce
  have cs: "map Some cs = map (chunk_at xs step) [0..<k]"
    using assms(2) by (simp add: task_chunks_def s those_Some_map)
  have "chunk_at xs step i = Some (take step (drop (i * step) xs))" if "i < k" for i
  proof -
    have "chunk_at xs step i \<in> set (map Some cs)" unfolding cs using that by simp
    then show ?thesis by (auto simp: chunk_at_iff split: if_splits)
  qed
  then have "map Some cs = map Some (map (\<lambda>i. take step (drop (i * step) xs)) [0..<k])"
    unfolding cs by simp
  then have "cs = map (\<lambda>i. take step (drop (i * step) xs)) [0..<k]"
    by (simp only: inj_map_eq_map [OF inj_Some])
  then show ?thesis using concat_slices [of step xs k] splitTasks_covers [OF assms(1) s] s by simp
qed

lemma task_chunks_ok:
  assumes "0 < n" "(n - 1) ^ 2 \<le> length xs"
  shows "\<exists>cs. task_chunks n xs = Some cs \<and> concat cs = xs"
proof -
  obtain k step where s: "splitTasks n (length xs) = (k, step)" by fastforce
  have "i * step \<le> length xs" if "i < k" for i
  proof -
    have "i * step \<le> (k - 1) * step" using that by (intro mult_right_mono) auto
    then show ?thesis using splitTasks_last [OF assms s] by linarith
  qed
  then have "\<not> (\<exists>i < k. length xs < i * step)" by (meson not_less)
  then have "task_chunks n xs \<noteq> None" unfolding task_chunks_None s by simp
  then show ?thesis using task_chunks_Some [OF assms(1)] by auto
qed

lemma task_chunks_short:
  "length xs < kParallelThreshold \<Longrightarrow> task_chunks n xs = Some [xs]"
  by (simp add: task_chunks_def splitTasks_def chunk_at_def)

lemma task_chunks_threads:
  assumes "0 < n" "n \<le> 71"
  shows "\<exists>cs. task_chunks n xs = Some cs \<and> concat cs = xs"
proof (cases "(n - 1) ^ 2 \<le> length xs")
  case False
  have "(n - 1) ^ 2 \<le> 70 ^ 2" using assms(2) by (intro power_mono) auto
  then have "length xs < kParallelThreshold" using False by (simp add: kParallelThreshold_def)
  then show ?thesis by (simp add: task_chunks_short)
qed (rule task_chunks_ok [OF assms(1)])

section \<open>Parallel runs against sequential ones\<close>

lemma mapE_append:
  "mapE f (xs @ ys) = (case mapE f xs of Inl e \<Rightarrow> Inl e
     | Inr rs \<Rightarrow> (case mapE f ys of Inl e \<Rightarrow> Inl e | Inr rs' \<Rightarrow> Inr (rs @ rs')))"
  by (induction xs) (auto split: sum.splits)

lemma mapE_concat:
  "(case mapE (mapE f) cs of Inl e \<Rightarrow> Inl e | Inr rs \<Rightarrow> Inr (concat rs)) = mapE f (concat cs)"
  by (induction cs) (auto simp: mapE_append split: sum.splits)

lemma mapE_total: "mapE (\<lambda>x. Inr (g x)) xs = Inr (map g xs)"
  by (induction xs) auto

lemma foldE_append_total:
  "foldE (\<lambda>x res. Inr (res @ g x)) xs acc = Inr (acc @ concat (map g xs))"
  by (induction xs arbitrary: acc) auto

text \<open>A reduce callback that pushes the keys and mapped values \<open>g x\<close> for an element \<open>x\<close>.\<close>

definition entries_of :: "('r \<times> 't) list \<Rightarrow> 'r \<Rightarrow> 't list" where
  "entries_of es v = map snd (filter (\<lambda>e. fst e = v) es)"

definition pushes :: "('a \<Rightarrow> ('r, 't) reduce_acc \<Rightarrow> 'e + ('r, 't) reduce_acc) \<Rightarrow> ('a \<Rightarrow> ('r \<times> 't) list) \<Rightarrow> bool" where
  "pushes f g \<longleftrightarrow> (\<forall>x tmp res. f x (tmp, res) = Inr (\<lambda>v. tmp v @ entries_of (g x) v, res @ map fst (g x)))"

lemma foldE_pushes:
  "pushes f g \<Longrightarrow> foldE f xs (tmp, res)
     = Inr (\<lambda>v. tmp v @ entries_of (concat (map g xs)) v, res @ map fst (concat (map g xs)))"
  by (induction xs arbitrary: tmp res) (simp_all add: pushes_def entries_of_def)

lemma reduce_task_values_pushes:
  "pushes f g \<Longrightarrow> reduce_task_values f rf t0 xs
     = Inr (map (\<lambda>v. (v, foldl rf t0 (entries_of (concat (map g xs)) v))) (map fst (concat (map g xs))))"
  by (simp add: reduce_task_values_def foldE_pushes)

lemma reduce_task_pushes: "pushes f g \<Longrightarrow> reduce_task f rf t0 xs = Inr (map fst (concat (map g xs)))"
  by (simp add: reduce_task_def reduce_task_values_pushes comp_def)

lemma parallelReduce_pushes:
  assumes "pushes f g" "task_chunks n xs = Some cs" "concat cs = xs"
  shows "parallelReduce n f rf t0 xs = Some (map fst (concat (map g xs)))"
proof -
  have "concat (map (\<lambda>c. map fst (concat (map g c))) cs) = map fst (concat (map g (concat cs)))"
    by (induction cs) auto
  then show ?thesis using assms(2,3) by (simp add: parallelReduce_def reduce_task_pushes [OF assms(1)])
qed

lemma parallelReduce_values_pushes:
  assumes "pushes f g" "task_chunks n xs = Some cs"
  shows "parallelReduce_values n f rf t0 xs = Some (concat (map (\<lambda>c. map (\<lambda>v. (v, foldl rf t0
    (entries_of (concat (map g c)) v))) (map fst (concat (map g c)))) cs))"
  using assms(2) by (simp add: parallelReduce_values_def reduce_task_values_pushes [OF assms(1)])

text \<open>The values are computed for the keys that are returned.\<close>

lemma parallelReduce_keys: "parallelReduce n f rf t0 xs = map_option (map fst) (parallelReduce_values n f rf t0 xs)"
proof -
  have "(case reduce_task f rf t0 c of Inl e \<Rightarrow> [] | Inr res \<Rightarrow> res)
      = map fst (case reduce_task_values f rf t0 c of Inl e \<Rightarrow> [] | Inr vs \<Rightarrow> vs)" for c
    by (simp add: reduce_task_def split: sum.split)
  then show ?thesis by (simp add: parallelReduce_def parallelReduce_values_def map_concat comp_def split: option.split)
qed

section \<open>Properties\<close>

text \<open>A range of a given length, on which the theorems are evaluated.\<close>

definition span :: "nat \<Rightarrow> nat list" where "span n = [0..<n]"

lemma length_span [simp]: "length (span n) = n"
  by (simp add: span_def)

text \<open>Claim C18. The tasks of a parallel loop hold every element of the range exactly once and in
  order, for a pool of \<open>n\<close> threads and a range of at least \<open>(n - 1)\<^sup>2\<close> elements; that is always the
  case for up to 71 threads when the range is split at all.\<close>

theorem tasks_partition:
  assumes "0 < n" "(n - 1) ^ 2 \<le> length xs \<or> n \<le> 71"
  shows "\<exists>cs. task_chunks n xs = Some cs \<and> concat cs = xs"
  using assms task_chunks_ok task_chunks_threads by blast

theorem tasks_partition_witness:
  "\<exists>cs. task_chunks 8 (span 6001) = Some cs \<and> concat cs = span 6001"
  using tasks_partition [of 8 "span 6001"] by simp

text \<open>With more threads the last slices can start past the end of the range, and then the
  loop has no defined result: it happens exactly when \<open>(n - 1)\<close> slices are longer than the range.\<close>

theorem tasks_past_end:
  assumes "kParallelThreshold \<le> length xs" "0 < n" "n \<le> length xs"
  shows "parallelFor n f xs = None \<longleftrightarrow> length xs < (n - 1) * snd (splitTasks n (length xs))"
proof -
  obtain k step where s: "splitTasks n (length xs) = (k, step)" by fastforce
  have k: "k = n" using s assms by (auto simp: splitTasks_def Let_def)
  have "(\<exists>i < n. length xs < i * step) \<longleftrightarrow> length xs < (n - 1) * step"
  proof
    assume "\<exists>i < n. length xs < i * step"
    then obtain i where i: "i < n" "length xs < i * step" by blast
    then have "i * step \<le> (n - 1) * step" by (intro mult_right_mono) auto
    with i show "length xs < (n - 1) * step" by linarith
  qed (use assms(2) in \<open>auto intro: exI [of _ "n - 1"]\<close>)
  moreover have "parallelFor n f xs = None \<longleftrightarrow> task_chunks n xs = None"
    by (simp add: parallelFor_def split: option.split)
  ultimately show ?thesis by (simp add: task_chunks_None s k)
qed

theorem tasks_past_end_witness:
  "parallelFor 128 (\<lambda>v. Inr v :: unit + nat) (span 5000) = None"
  using tasks_past_end [of "span 5000" 128 "\<lambda>v. Inr v :: unit + nat"]
  by (simp add: kParallelThreshold_def splitTasks_def Let_def)

text \<open>Claim C17. When it is defined, a parallel loop returns what the sequential loop returns: the
  results in the order of the range, or the first exception in that order, whatever the number of
  threads.\<close>

theorem parallelFor_sequential:
  assumes "0 < n" "parallelFor n f xs = Some future"
  shows "future = mapE f xs"
  using assms task_chunks_Some [OF assms(1)]
  by (auto simp: parallelFor_def mapE_concat split: option.splits)

theorem parallelFor_sequential_witness:
  "mapE (\<lambda>v. if v = 0 then Inl ''zero'' else Inr (6 div v)) [1, 2, 0, 3 :: int] = Inl ''zero''"
  using parallelFor_sequential [of 4 "\<lambda>v. if v = 0 then Inl ''zero'' else Inr (6 div v)" "[1, 2, 0, 3 :: int]"
      "Inl ''zero''"]
  by (simp add: parallelFor_def task_chunks_def splitTasks_def kParallelThreshold_def chunk_at_def)

text \<open>A parallel filter whose callback appends the results of one element to the task's
  vector returns the concatenation over the range, as a sequential pass does.\<close>

theorem parallelFilter_sequential:
  assumes "0 < n" "(n - 1) ^ 2 \<le> length xs \<or> length xs < kParallelThreshold"
  shows "parallelFilter n (\<lambda>x res. Inr (res @ g x) :: 'e + 'r list) xs = Some (Inr (concat (map g xs)))"
proof -
  have "\<exists>cs. task_chunks n xs = Some cs \<and> concat cs = xs"
  proof (cases "length xs < kParallelThreshold")
    case True
    then show ?thesis by (simp add: task_chunks_short)
  qed (use task_chunks_ok [OF assms(1)] assms(2) in blast)
  then obtain cs where cs: "task_chunks n xs = Some cs" "concat cs = xs" by blast
  have "concat (map (\<lambda>c. concat (map g c)) cs) = concat (map g (concat cs))"
    by (induction cs) auto
  then show ?thesis
    by (simp add: parallelFilter_def cs foldE_append_total mapE_total)
qed

theorem parallelFilter_sequential_witness:
  "parallelFilter 4 (\<lambda>x res. Inr (res @ (if 2 < x then [x] else [])) :: unit + int list) [1, 5, 2, 3]
     = Some (Inr [5, 3])"
  using parallelFilter_sequential [of 4 "[1, 5, 2, 3 :: int]" "\<lambda>x. if 2 < x then [x] else []"]
  by (simp add: kParallelThreshold_def)

end
