(* ===== verification/EdgeMap.thy ===== *)
theory EdgeMap
  imports Engine "HOL-Library.Multiset"
begin

text \<open>
  The vertex sets of \<^verbatim>\<open>src/include/nebula/computing/VertexSubset.h\<close> and the graph operators
  \<^verbatim>\<open>edgeMap\<close> and \<^verbatim>\<open>vertexMap\<close> of \<^verbatim>\<open>ComputingAlgorithm.h\<close>, over the parallel operations of
  \<^verbatim>\<open>Engine\<close>. What the binary library provides is a parameter: \<open>mk\<close> is the constructor of a vertex
  set from a vector, \<open>nb\<close> is \<^verbatim>\<open>neighbors\<close>, \<open>rv\<close> is \<^verbatim>\<open>reverse\<close>, \<open>allNodes\<close> is
  \<^verbatim>\<open>graph()->nodeIDs()\<close>. The filters \<open>f\<close>, \<open>c\<close>, the map \<open>m\<close> and the reduction \<open>r\<close> of \<^verbatim>\<open>edgeMap\<close> are functions:
  the model is of callbacks whose results do not depend on effects of one another. What \<open>m\<close> and \<open>r\<close> compute is
  kept beside the result, in \<open>edgeMap_values\<close>, because the code drops it. The action of
  \<^verbatim>\<open>vertexMap\<close> updates a state in an order chosen by the scheduler.
\<close>

section \<open>Vertex sets\<close>

record VertexSubset =
  isDense :: bool
  vids :: "NodeID list"
  vid2idx :: "NodeID \<rightharpoonup> nat"

definition vs_size :: "VertexSubset \<Rightarrow> nat" where "vs_size u = length (vids u)"
definition vs_empty :: "VertexSubset \<Rightarrow> bool" where "vs_empty u \<longleftrightarrow> vids u = []"

definition isIn :: "VertexSubset \<Rightarrow> NodeID \<Rightarrow> bool" where
  "isIn u v \<longleftrightarrow> vid2idx u v \<noteq> None"

definition vs_add :: "VertexSubset \<Rightarrow> NodeID \<Rightarrow> VertexSubset" where
  "vs_add u v =
     (if vid2idx u v \<noteq> None then u
      else u\<lparr>vids := vids u @ [v], vid2idx := (vid2idx u)(v \<mapsto> length (vids u @ [v]) - 1)\<rparr>)"

text \<open>The vector has no duplicates and the index points into it.\<close>

definition vs_inv :: "VertexSubset \<Rightarrow> bool" where
  "vs_inv u \<longleftrightarrow> distinct (vids u) \<and>
     (\<forall>v i. vid2idx u v = Some i \<longleftrightarrow> i < length (vids u) \<and> vids u ! i = v)"

text \<open>The interface the operators rely on: a set of vertices that can be listed and extended.\<close>

locale vertex_set =
  fixes member :: "'s \<Rightarrow> NodeID \<Rightarrow> bool" and elems :: "'s \<Rightarrow> NodeID list"
    and add :: "'s \<Rightarrow> NodeID \<Rightarrow> 's" and inv :: "'s \<Rightarrow> bool"
  assumes member_elems: "inv u \<Longrightarrow> member u v \<longleftrightarrow> v \<in> set (elems u)"
    and inv_add: "inv u \<Longrightarrow> inv (add u v)"
    and elems_add: "inv u \<Longrightarrow> elems (add u v) = (if v \<in> set (elems u) then elems u else elems u @ [v])"
begin

lemma inv_adds: "inv u \<Longrightarrow> inv (foldl add u vs)"
  by (induction vs arbitrary: u) (simp_all add: inv_add)

lemma member_adds: "inv u \<Longrightarrow> member (foldl add u vs) v \<longleftrightarrow> v \<in> set (elems u) \<or> v \<in> set vs"
  by (induction vs arbitrary: u) (auto simp: inv_add elems_add member_elems)

lemma card_adds: "inv u \<Longrightarrow> distinct (elems u) \<Longrightarrow> distinct (elems (foldl add u vs))"
  by (induction vs arbitrary: u) (auto simp: inv_add elems_add)

end

lemma isIn_vids: "vs_inv u \<Longrightarrow> isIn u v \<longleftrightarrow> v \<in> set (vids u)"
  by (auto simp: vs_inv_def isIn_def in_set_conv_nth)

lemma vs_inv_add: "vs_inv u \<Longrightarrow> vs_inv (vs_add u v)"
proof (cases "isIn u v")
  case False
  assume u: "vs_inv u"
  then have "v \<notin> set (vids u)" using False isIn_vids by blast
  then show ?thesis using u by (auto simp: vs_inv_def vs_add_def nth_append less_Suc_eq)
qed (simp add: vs_add_def isIn_def)

interpretation vsubset: vertex_set isIn vids vs_add vs_inv
proof
  show "vids (vs_add u v) = (if v \<in> set (vids u) then vids u else vids u @ [v])" if "vs_inv u" for u v
    using isIn_vids [OF that, of v] by (auto simp: vs_add_def isIn_def)
qed (simp_all add: isIn_vids vs_inv_add)

section \<open>Operators\<close>

datatype AlgDirection = kOutEdge | kInEdge | kBothEdge

definition alwaysReturnTrue :: "'a \<Rightarrow> bool" where "alwaysReturnTrue v = True"
definition defaultReduce :: "'t \<Rightarrow> NodeID \<Rightarrow> 't" where "defaultReduce a v = a"

subsection \<open>Sparse\<close>

definition sparse_filter ::
  "(NodeID \<Rightarrow> NodeID \<Rightarrow> bool) \<Rightarrow> (NodeID \<Rightarrow> NodeID \<Rightarrow> 't) \<Rightarrow> (NodeID \<Rightarrow> bool) \<Rightarrow> NodeID \<Rightarrow> NodeID
     \<Rightarrow> (NodeID, 't) reduce_acc \<Rightarrow> unit + (NodeID, 't) reduce_acc"
where
  "sparse_filter f m c srcId dstId acc = (case acc of (tmp, res) \<Rightarrow>
     Inr (if f srcId dstId \<and> c dstId
          then (tmp(dstId := tmp dstId @ [m srcId dstId]), res @ [dstId]) else (tmp, res)))"

text \<open>The neighbours of one vertex: in parallel above the threshold, else in a loop, which is one task.\<close>

definition getTargets ::
  "nat \<Rightarrow> (NodeID \<Rightarrow> AlgDirection \<Rightarrow> NodeID list) \<Rightarrow> (NodeID \<Rightarrow> NodeID \<Rightarrow> bool) \<Rightarrow> (NodeID \<Rightarrow> NodeID \<Rightarrow> 't)
     \<Rightarrow> (NodeID \<Rightarrow> bool) \<Rightarrow> ('t \<Rightarrow> 't \<Rightarrow> 't) \<Rightarrow> 't \<Rightarrow> AlgDirection \<Rightarrow> NodeID \<Rightarrow> NodeID list option"
where
  "getTargets n nb f m c r t0 dir srcId = (let nbrs = nb srcId dir in
     if kParallelThreshold < length nbrs then parallelReduce n (sparse_filter f m c srcId) r t0 nbrs
     else (case reduce_task (sparse_filter f m c srcId) r t0 nbrs of Inl e \<Rightarrow> None | Inr res \<Rightarrow> Some res))"

definition edgeMapSparse ::
  "nat \<Rightarrow> (NodeID \<Rightarrow> AlgDirection \<Rightarrow> NodeID list) \<Rightarrow> (NodeID list \<Rightarrow> VertexSubset) \<Rightarrow> VertexSubset
     \<Rightarrow> (NodeID \<Rightarrow> NodeID \<Rightarrow> bool) \<Rightarrow> (NodeID \<Rightarrow> NodeID \<Rightarrow> 't) \<Rightarrow> (NodeID \<Rightarrow> bool) \<Rightarrow> ('t \<Rightarrow> 't \<Rightarrow> 't) \<Rightarrow> 't
     \<Rightarrow> AlgDirection \<Rightarrow> VertexSubset option"
where
  "edgeMapSparse n nb mk u f m c r t0 dir =
     (case parallelFor n (\<lambda>v. case getTargets n nb f m c r t0 dir v of None \<Rightarrow> Inl () | Some ts \<Rightarrow> Inr ts)
             (vids u) of
        None \<Rightarrow> None
      | Some (Inl e) \<Rightarrow> None
      | Some (Inr res) \<Rightarrow> Some (mk (runOnCurrentThread [] (Inr (concat res) :: unit + NodeID list))))"

subsection \<open>Dense\<close>

definition dense_filter ::
  "(NodeID \<Rightarrow> NodeID list) \<Rightarrow> VertexSubset \<Rightarrow> (NodeID \<Rightarrow> NodeID \<Rightarrow> bool) \<Rightarrow> (NodeID \<Rightarrow> NodeID \<Rightarrow> 't)
     \<Rightarrow> (NodeID \<Rightarrow> bool) \<Rightarrow> NodeID \<Rightarrow> (NodeID, 't) reduce_acc \<Rightarrow> unit + (NodeID, 't) reduce_acc"
where
  "dense_filter back u f m c vid acc = (case acc of (tmp, res) \<Rightarrow>
     if \<not> c vid then Inr (tmp, res)
     else Inr (case find (\<lambda>tid. isIn u tid \<and> f tid vid) (back vid) of
       None \<Rightarrow> (tmp, res)
     | Some tid \<Rightarrow> (tmp(vid := tmp vid @ [m tid vid]), res @ [vid])))"

definition edgeMapDense ::
  "nat \<Rightarrow> NodeID list \<Rightarrow> (NodeID \<Rightarrow> AlgDirection \<Rightarrow> NodeID list) \<Rightarrow> (AlgDirection \<Rightarrow> AlgDirection)
     \<Rightarrow> (NodeID list \<Rightarrow> VertexSubset) \<Rightarrow> VertexSubset
     \<Rightarrow> (NodeID \<Rightarrow> NodeID \<Rightarrow> bool) \<Rightarrow> (NodeID \<Rightarrow> NodeID \<Rightarrow> 't) \<Rightarrow> (NodeID \<Rightarrow> bool) \<Rightarrow> ('t \<Rightarrow> 't \<Rightarrow> 't) \<Rightarrow> 't
     \<Rightarrow> AlgDirection \<Rightarrow> VertexSubset option"
where
  "edgeMapDense n allNodes nb rv mk u f m c r t0 dir =
     (case parallelReduce n (dense_filter (\<lambda>v. nb v (rv dir)) u f m c) r t0 allNodes of
        None \<Rightarrow> None
      | Some res \<Rightarrow> Some (mk (runOnCurrentThread [] (Inr res :: unit + NodeID list))))"

text \<open>\<open>th\<close> is \<^verbatim>\<open>kThresholdParam\<close>, a constant defined in the binary library.\<close>

definition edgeMap ::
  "nat \<Rightarrow> nat \<Rightarrow> NodeID list \<Rightarrow> (NodeID \<Rightarrow> AlgDirection \<Rightarrow> NodeID list) \<Rightarrow> (AlgDirection \<Rightarrow> AlgDirection)
     \<Rightarrow> (NodeID list \<Rightarrow> VertexSubset) \<Rightarrow> VertexSubset
     \<Rightarrow> (NodeID \<Rightarrow> NodeID \<Rightarrow> bool) \<Rightarrow> (NodeID \<Rightarrow> NodeID \<Rightarrow> 't) \<Rightarrow> (NodeID \<Rightarrow> bool) \<Rightarrow> ('t \<Rightarrow> 't \<Rightarrow> 't) \<Rightarrow> 't
     \<Rightarrow> AlgDirection \<Rightarrow> VertexSubset option"
where
  "edgeMap th n allNodes nb rv mk u f m c r t0 dir =
     (if vs_size u > length allNodes div th then edgeMapDense n allNodes nb rv mk u f m c r t0 dir
      else edgeMapSparse n nb mk u f m c r t0 dir)"

text \<open>The values that the code folds with \<open>r\<close> and does not return: for every target, in its order in the result, the fold of the
  mapped values that the task collected for it.\<close>

definition getTargets_values ::
  "nat \<Rightarrow> (NodeID \<Rightarrow> AlgDirection \<Rightarrow> NodeID list) \<Rightarrow> (NodeID \<Rightarrow> NodeID \<Rightarrow> bool) \<Rightarrow> (NodeID \<Rightarrow> NodeID \<Rightarrow> 't)
     \<Rightarrow> (NodeID \<Rightarrow> bool) \<Rightarrow> ('t \<Rightarrow> 't \<Rightarrow> 't) \<Rightarrow> 't \<Rightarrow> AlgDirection \<Rightarrow> NodeID \<Rightarrow> (NodeID \<times> 't) list option"
where
  "getTargets_values n nb f m c r t0 dir srcId = (let nbrs = nb srcId dir in
     if kParallelThreshold < length nbrs then parallelReduce_values n (sparse_filter f m c srcId) r t0 nbrs
     else (case reduce_task_values (sparse_filter f m c srcId) r t0 nbrs of Inl e \<Rightarrow> None | Inr vs \<Rightarrow> Some vs))"

definition edgeMap_values ::
  "nat \<Rightarrow> nat \<Rightarrow> NodeID list \<Rightarrow> (NodeID \<Rightarrow> AlgDirection \<Rightarrow> NodeID list) \<Rightarrow> (AlgDirection \<Rightarrow> AlgDirection)
     \<Rightarrow> VertexSubset \<Rightarrow> (NodeID \<Rightarrow> NodeID \<Rightarrow> bool) \<Rightarrow> (NodeID \<Rightarrow> NodeID \<Rightarrow> 't) \<Rightarrow> (NodeID \<Rightarrow> bool) \<Rightarrow> ('t \<Rightarrow> 't \<Rightarrow> 't) \<Rightarrow> 't
     \<Rightarrow> AlgDirection \<Rightarrow> (NodeID \<times> 't) list option"
where
  "edgeMap_values th n allNodes nb rv u f m c r t0 dir =
     (if vs_size u > length allNodes div th
      then parallelReduce_values n (dense_filter (\<lambda>v. nb v (rv dir)) u f m c) r t0 allNodes
      else map_option concat (those (map (getTargets_values n nb f m c r t0 dir) (vids u))))"

subsection \<open>Vertices\<close>

definition vertexMap ::
  "nat \<Rightarrow> (NodeID list \<Rightarrow> NodeID list) \<Rightarrow> (NodeID list \<Rightarrow> VertexSubset) \<Rightarrow> VertexSubset
     \<Rightarrow> (NodeID \<Rightarrow> bool) \<Rightarrow> (NodeID \<Rightarrow> 's \<Rightarrow> 's) \<Rightarrow> 's \<Rightarrow> (VertexSubset \<times> 's) option"
where
  "vertexMap n sched mk u f m s =
     (case parallelFilter n (\<lambda>id res. Inr (if f id then res @ [id] else res) :: unit + NodeID list) (vids u) of
        None \<Rightarrow> None
      | Some future \<Rightarrow> (let ids = runOnCurrentThread [] future in Some (mk ids, fold m (sched ids) s)))"

section \<open>What the operators compute\<close>

text \<open>The specification of \<^verbatim>\<open>edgeMap\<close>: the targets of the edges out of the set that pass both filters.\<close>

definition edgeMap_spec ::
  "(NodeID \<Rightarrow> NodeID list) \<Rightarrow> NodeID set \<Rightarrow> (NodeID \<Rightarrow> NodeID \<Rightarrow> bool) \<Rightarrow> (NodeID \<Rightarrow> bool) \<Rightarrow> NodeID set"
where
  "edgeMap_spec nb U f c = {v. c v \<and> (\<exists>u \<in> U. v \<in> set (nb u) \<and> f u v)}"

lemma pushes_sparse:
  "pushes (sparse_filter f m c srcId) (\<lambda>d. if f srcId d \<and> c d then [(d, m srcId d)] else [])"
  by (auto simp: pushes_def sparse_filter_def entries_of_def)

text \<open>The first source of a target, in the order of its neighbours, is the only one that the dense path looks at.\<close>

definition first_source :: "(NodeID \<Rightarrow> NodeID list) \<Rightarrow> VertexSubset \<Rightarrow> (NodeID \<Rightarrow> NodeID \<Rightarrow> bool) \<Rightarrow> NodeID \<Rightarrow> NodeID option" where
  "first_source back u f v = find (\<lambda>t. isIn u t \<and> f t v) (back v)"

lemma first_source_iff:
  "first_source back u f v = None \<longleftrightarrow> \<not> (\<exists>t \<in> set (back v). isIn u t \<and> f t v)"
  "first_source back u f v = Some t \<Longrightarrow> t \<in> set (back v) \<and> isIn u t \<and> f t v"
  by (auto simp: first_source_def find_None_iff find_Some_iff)

lemma source_filter:
  "filter (\<lambda>v. c v \<and> first_source bk u f v \<noteq> None) = filter (\<lambda>v. c v \<and> (\<exists>t \<in> set (bk v). isIn u t \<and> f t v))"
  by (simp only: first_source_iff(1) not_not)

lemma fst_imageD: "d \<in> fst ` S \<Longrightarrow> \<exists>y. (d, y) \<in> S"
  by force

lemma dense_entry:
  "(v, y) \<in> set (if c x then (case s x of None \<Rightarrow> [] | Some t \<Rightarrow> [(x, h t x)]) else [])
     \<Longrightarrow> s v = Some (the (s v)) \<and> y = h (the (s v)) v"
  by (cases "c x"; cases "s x") simp_all

lemma pushes_dense:
  "pushes (dense_filter back u f m c)
     (\<lambda>v. if c v then (case first_source back u f v of None \<Rightarrow> [] | Some t \<Rightarrow> [(v, m t v)]) else [])"
  unfolding pushes_def
proof (intro allI)
  fix x tmp res
  show "dense_filter back u f m c x (tmp, res)
    = Inr (\<lambda>v. tmp v @ entries_of (if c x then (case first_source back u f x of None \<Rightarrow> [] | Some t \<Rightarrow> [(x, m t x)]) else []) v,
        res @ map fst (if c x then (case first_source back u f x of None \<Rightarrow> [] | Some t \<Rightarrow> [(x, m t x)]) else []))"
    by (cases "c x"; cases "first_source back u f x")
      (simp_all add: dense_filter_def entries_of_def fun_eq_iff flip: first_source_def)
qed

lemma concat_select: "concat (map (\<lambda>x. if P x then [x] else []) xs) = filter P xs"
  by (induction xs) auto

lemma map_fst_select: "map fst (concat (map (\<lambda>x. if P x then [(x, h x)] else []) xs)) = filter P xs"
  by (induction xs) auto

lemma map_fst_source:
  "map fst (concat (map (\<lambda>v. if c v then (case s v of None \<Rightarrow> [] | Some t \<Rightarrow> [(v, h t v)]) else []) xs))
     = filter (\<lambda>v. c v \<and> s v \<noteq> None) xs"
  by (induction xs) (auto split: option.split)

lemma getTargets_filter:
  assumes "0 < n" "n \<le> 71"
  shows "getTargets n nb f m c r t0 dir v = Some (filter (\<lambda>d. f v d \<and> c d) (nb v dir))"
proof -
  obtain cs where cs: "task_chunks n (nb v dir) = Some cs" "concat cs = nb v dir"
    using task_chunks_threads [OF assms] by blast
  show ?thesis
    by (simp add: getTargets_def Let_def map_fst_select parallelReduce_pushes [OF pushes_sparse cs]
        reduce_task_pushes [OF pushes_sparse])
qed

lemma parallelFor_total:
  assumes "0 < n" "n \<le> 71"
  shows "parallelFor n (\<lambda>x. Inr (g x)) xs = Some (Inr (map g xs))"
proof -
  obtain cs where "task_chunks n xs = Some cs" "concat cs = xs"
    using task_chunks_threads [OF assms] by blast
  then show ?thesis using mapE_concat [of "\<lambda>x. Inr (g x)" cs] by (simp add: parallelFor_def mapE_total)
qed

lemma edgeMapSparse_vids:
  assumes "0 < n" "n \<le> 71"
  shows "edgeMapSparse n nb mk u f m c r t0 dir =
    Some (mk (concat (map (\<lambda>v. filter (\<lambda>d. f v d \<and> c d) (nb v dir)) (vids u))))"
  by (simp add: edgeMapSparse_def getTargets_filter [OF assms] parallelFor_total [OF assms]
      runOnCurrentThread_def)

lemma edgeMapDense_vids:
  assumes "0 < n" "n \<le> 71"
  shows "edgeMapDense n allNodes nb rv mk u f m c r t0 dir =
    Some (mk (filter (\<lambda>v. c v \<and> (\<exists>t \<in> set (nb v (rv dir)). isIn u t \<and> f t v)) allNodes))"
proof -
  obtain cs where cs: "task_chunks n allNodes = Some cs" "concat cs = allNodes"
    using task_chunks_threads [OF assms] by blast
  show ?thesis
    unfolding edgeMapDense_def parallelReduce_pushes [OF pushes_dense cs] map_fst_source source_filter
    by (simp add: runOnCurrentThread_def)
qed

text \<open>The values: \<open>x\<close> is the fold of copies of one mapped value, one copy for each time the task met the edge.\<close>

definition folded :: "('t \<Rightarrow> 't \<Rightarrow> 't) \<Rightarrow> 't \<Rightarrow> 't \<Rightarrow> 't \<Rightarrow> bool" where
  "folded r t0 y x \<longleftrightarrow> (\<exists>k > 0. x = foldl r t0 (replicate k y))"

lemma entries_of_single:
  assumes "\<And>v y. (v, y) \<in> set es \<Longrightarrow> y = h v" "v \<in> set (map fst es)"
  shows "folded r t0 (h v) (foldl r t0 (entries_of es v))"
proof -
  have e: "entries_of es v = replicate (length (filter (\<lambda>e. fst e = v) es)) (h v)"
    unfolding entries_of_def
    by (rule replicate_eqI) (use assms(1) in auto)
  moreover have "0 < length (filter (\<lambda>e. fst e = v) es)"
    using assms(2) by (auto simp: filter_empty_conv)
  ultimately show ?thesis unfolding folded_def by metis
qed

lemma task_values_single:
  assumes "pushes f g" "\<And>x v y. (v, y) \<in> set (g x) \<Longrightarrow> y = h v" "reduce_task_values f r t0 xs = Inr vs" "(v, x) \<in> set vs"
  shows "folded r t0 (h v) x \<and> (\<exists>a \<in> set xs. v \<in> fst ` set (g a))"
proof -
  let ?es = "concat (map g xs)"
  have v: "v \<in> set (map fst ?es)" "x = foldl r t0 (entries_of ?es v)"
    using assms(3,4) unfolding reduce_task_values_pushes [OF assms(1)] by (auto simp del: set_concat map_concat)
  have "y = h v" if "(v, y) \<in> set ?es" for v y using that assms(2) by auto
  from entries_of_single [of ?es h v r t0, OF this v(1)] have "folded r t0 (h v) x" using v(2) by simp
  moreover have "\<exists>a \<in> set xs. v \<in> fst ` set (g a)" using v(1) by auto
  ultimately show ?thesis by blast
qed

lemma reduce_values_single:
  assumes "pushes f g" "\<And>x v y. (v, y) \<in> set (g x) \<Longrightarrow> y = h v" "0 < n" "parallelReduce_values n f r t0 xs = Some vs"
    "(v, x) \<in> set vs"
  shows "folded r t0 (h v) x \<and> (\<exists>a \<in> set xs. v \<in> fst ` set (g a))"
proof -
  obtain cs where cs: "task_chunks n xs = Some cs" using assms(4) by (auto simp: parallelReduce_values_def split: option.splits)
  have xs: "concat cs = xs" using task_chunks_Some [OF assms(3) cs] by simp
  have "\<exists>c \<in> set cs. (v, x) \<in> set (case reduce_task_values f r t0 c of Inl e \<Rightarrow> [] | Inr vs \<Rightarrow> vs)"
    using assms(4,5) by (auto simp: parallelReduce_values_def cs)
  then obtain c ws where c: "c \<in> set cs" "reduce_task_values f r t0 c = Inr ws" "(v, x) \<in> set ws"
    by (auto split: sum.splits dest: sym)
  have "folded r t0 (h v) x \<and> (\<exists>a \<in> set c. v \<in> fst ` set (g a))"
    by (rule task_values_single [OF assms(1) _ c(2,3)]) (rule assms(2))
  moreover have "set c \<subseteq> set xs" using c(1) xs by auto
  ultimately show ?thesis by blast
qed

lemma getTargets_keys: "getTargets n nb f m c r t0 dir v = map_option (map fst) (getTargets_values n nb f m c r t0 dir v)"
  by (simp add: getTargets_def getTargets_values_def Let_def parallelReduce_keys reduce_task_def split: sum.split)

lemma getTargets_values_single:
  assumes "0 < n" "getTargets_values n nb f m c r t0 dir s = Some vs" "(d, x) \<in> set vs"
  shows "folded r t0 (m s d) x \<and> d \<in> set (nb s dir) \<and> f s d \<and> c d"
proof -
  let ?g = "\<lambda>d. if f s d \<and> c d then [(d, m s d)] else []"
  have g: "(v, y) \<in> set (?g x) \<Longrightarrow> y = m s v" for x v y by (auto split: if_splits)
  have "folded r t0 (m s d) x \<and> (\<exists>a \<in> set (nb s dir). d \<in> fst ` set (?g a))"
  proof (cases "kParallelThreshold < length (nb s dir)")
    case True
    then have vs: "parallelReduce_values n (sparse_filter f m c s) r t0 (nb s dir) = Some vs"
      using assms(2) by (simp add: getTargets_values_def)
    show ?thesis by (rule reduce_values_single [OF pushes_sparse _ assms(1) vs assms(3), where h = "m s"]) (rule g)
  next
    case False
    then have vs: "reduce_task_values (sparse_filter f m c s) r t0 (nb s dir) = Inr vs"
      using assms(2) by (simp add: getTargets_values_def split: sum.splits)
    show ?thesis by (rule task_values_single [OF pushes_sparse _ vs assms(3), where h = "m s"]) (rule g)
  qed
  then show ?thesis by (auto split: if_splits)
qed

text \<open>The result is made of the keys of the values, so it does not depend on \<open>m\<close>, \<open>r\<close> and \<open>t0\<close>.\<close>

lemma edgeMap_keys:
  assumes "0 < n" "n \<le> 71"
  shows "\<exists>vs. edgeMap_values th n allNodes nb rv u f m c r t0 dir = Some vs
    \<and> edgeMap th n allNodes nb rv mk u f m c r t0 dir = Some (mk (map fst vs))
    \<and> map fst vs = (if vs_size u > length allNodes div th
        then filter (\<lambda>v. c v \<and> (\<exists>t \<in> set (nb v (rv dir)). isIn u t \<and> f t v)) allNodes
        else concat (map (\<lambda>v. filter (\<lambda>d. f v d \<and> c d) (nb v dir)) (vids u)))"
proof (cases "vs_size u > length allNodes div th")
  case True
  obtain cs where cs: "task_chunks n allNodes = Some cs" "concat cs = allNodes"
    using task_chunks_threads [OF assms] by blast
  let ?F = "dense_filter (\<lambda>v. nb v (rv dir)) u f m c"
  obtain vs where vs: "parallelReduce_values n ?F r t0 allNodes = Some vs"
    by (rule that [OF parallelReduce_values_pushes [OF pushes_dense cs(1)]])
  have keys: "map fst vs = filter (\<lambda>v. c v \<and> (\<exists>t \<in> set (nb v (rv dir)). isIn u t \<and> f t v)) allNodes"
  proof -
    have "parallelReduce n ?F r t0 allNodes
        = Some (filter (\<lambda>v. c v \<and> (\<exists>t \<in> set (nb v (rv dir)). isIn u t \<and> f t v)) allNodes)"
      by (simp only: parallelReduce_pushes [OF pushes_dense cs] map_fst_source source_filter)
    then show ?thesis unfolding parallelReduce_keys vs by simp
  qed
  show ?thesis using True vs keys edgeMapDense_vids [OF assms] by (simp add: edgeMap_def edgeMap_values_def)
next
  case False
  let ?V = "getTargets_values n nb f m c r t0 dir"
  have t: "map_option (map fst) (?V v) = Some (filter (\<lambda>d. f v d \<and> c d) (nb v dir))" for v
    using getTargets_filter [OF assms] getTargets_keys by metis
  have "\<exists>vss. those (map ?V xs) = Some vss \<and> map (map fst) vss = map (\<lambda>v. filter (\<lambda>d. f v d \<and> c d) (nb v dir)) xs" for xs
  proof (induction xs)
    case (Cons x xs)
    then show ?case using t [of x] by auto
  qed simp
  then obtain vss where vss: "those (map ?V (vids u)) = Some vss"
    "map (map fst) vss = map (\<lambda>v. filter (\<lambda>d. f v d \<and> c d) (nb v dir)) (vids u)" by blast
  then have "map fst (concat vss) = concat (map (\<lambda>v. filter (\<lambda>d. f v d \<and> c d) (nb v dir)) (vids u))"
    by (simp add: map_concat)
  then show ?thesis using False vss(1) edgeMapSparse_vids [OF assms] by (simp add: edgeMap_def edgeMap_values_def)
qed

text \<open>No value combines the mapped values of two sources: on the sparse path a target has one value for every source, on the
  dense path only its first source is mapped.\<close>

lemma edgeMap_value_source:
  assumes "0 < n" "edgeMap_values th n allNodes nb rv u f m c r t0 dir = Some vs" "(d, x) \<in> set vs"
  shows "if vs_size u > length allNodes div th
    then \<exists>s. first_source (\<lambda>v. nb v (rv dir)) u f d = Some s \<and> folded r t0 (m s d) x
    else \<exists>s. s \<in> set (vids u) \<and> d \<in> set (nb s dir) \<and> f s d \<and> c d \<and> folded r t0 (m s d) x"
proof (cases "vs_size u > length allNodes div th")
  case True
  let ?fs = "first_source (\<lambda>v. nb v (rv dir)) u f"
  let ?g = "\<lambda>v. if c v then (case ?fs v of None \<Rightarrow> [] | Some t \<Rightarrow> [(v, m t v)]) else []"
  have vs: "parallelReduce_values n (dense_filter (\<lambda>v. nb v (rv dir)) u f m c) r t0 allNodes = Some vs"
    using assms(2) True by (simp add: edgeMap_values_def)
  have F: "folded r t0 (m (the (?fs d)) d) x \<and> (\<exists>a \<in> set allNodes. d \<in> fst ` set (?g a))"
    by (rule reduce_values_single [OF pushes_dense _ assms(1) vs assms(3), where h = "\<lambda>v. m (the (?fs v)) v"])
      (erule dense_entry [THEN conjunct2])
  then obtain a where "d \<in> fst ` set (?g a)" by (elim conjE bexE)
  from fst_imageD [OF this] obtain y where "(d, y) \<in> set (?g a)" by (rule exE)
  then have "?fs d = Some (the (?fs d))" by (rule dense_entry [THEN conjunct1])
  then show ?thesis unfolding if_P [OF True] using F by (intro exI [of _ "the (?fs d)"]) (rule conjI, assumption, rule conjunct1)
next
  case False
  then obtain vss where vss: "those (map (getTargets_values n nb f m c r t0 dir) (vids u)) = Some vss" "vs = concat vss"
    using assms(2) by (auto simp: edgeMap_values_def)
  have "map (getTargets_values n nb f m c r t0 dir) (vids u) = map Some vss" using vss(1) by (simp add: those_Some_map)
  moreover obtain ws where "ws \<in> set vss" "(d, x) \<in> set ws" using assms(3) vss(2) by auto
  ultimately obtain s where "s \<in> set (vids u)" "getTargets_values n nb f m c r t0 dir s = Some ws"
    by (metis (no_types, lifting) imageE image_eqI image_set list.set_map)
  then show ?thesis using getTargets_values_single [OF assms(1), of nb f m c r t0 dir s ws d x] \<open>(d, x) \<in> set ws\<close> False by auto
qed

text \<open>What the operators need of the library: the constructor builds a well-formed set of the given
  vertices; the neighbours against the reverse direction are the sources; neighbours are nodes.\<close>

definition subset_builder :: "(NodeID list \<Rightarrow> VertexSubset) \<Rightarrow> bool" where
  "subset_builder mk \<longleftrightarrow> (\<forall>l. vs_inv (mk l) \<and> set (vids (mk l)) = set l)"

definition mirrored_neighbours ::
  "NodeID list \<Rightarrow> (NodeID \<Rightarrow> AlgDirection \<Rightarrow> NodeID list) \<Rightarrow> (AlgDirection \<Rightarrow> AlgDirection) \<Rightarrow> bool"
where
  "mirrored_neighbours allNodes nb rv \<longleftrightarrow>
     (\<forall>u v dir. v \<in> set (nb u dir) \<longleftrightarrow> u \<in> set (nb v (rv dir)) \<and> v \<in> set allNodes)"

lemma edgeMapSparse_spec:
  assumes "0 < n" "n \<le> 71" "subset_builder mk"
  shows "\<exists>w. edgeMapSparse n nb mk u f m c r t0 dir = Some w \<and> vs_inv w
    \<and> set (vids w) = edgeMap_spec (\<lambda>v. nb v dir) (set (vids u)) f c"
  using assms(3) by (auto simp: edgeMapSparse_vids [OF assms(1,2)] subset_builder_def edgeMap_spec_def)

lemma edgeMapDense_spec:
  assumes "0 < n" "n \<le> 71" "subset_builder mk" "mirrored_neighbours allNodes nb rv" "vs_inv u"
  shows "\<exists>w. edgeMapDense n allNodes nb rv mk u f m c r t0 dir = Some w \<and> vs_inv w
    \<and> set (vids w) = edgeMap_spec (\<lambda>v. nb v dir) (set (vids u)) f c"
proof -
  let ?l = "filter (\<lambda>v. c v \<and> (\<exists>t \<in> set (nb v (rv dir)). isIn u t \<and> f t v)) allNodes"
  have nb: "v \<in> set (nb u dir) \<longleftrightarrow> u \<in> set (nb v (rv dir)) \<and> v \<in> set allNodes" for u v
    using assms(4) unfolding mirrored_neighbours_def by blast
  have "set ?l = edgeMap_spec (\<lambda>v. nb v dir) (set (vids u)) f c"
    unfolding edgeMap_spec_def set_filter isIn_vids [OF assms(5)] by (intro Collect_cong) (use nb in blast)
  moreover have "vs_inv (mk ?l)" "set (vids (mk ?l)) = set ?l"
    using assms(3) unfolding subset_builder_def by blast+
  ultimately show ?thesis unfolding edgeMapDense_vids [OF assms(1,2)] by (intro exI [of _ "mk ?l"]) simp
qed

section \<open>Properties\<close>

text \<open>A concrete graph of three vertices, with edges 1 to 2, 1 to 3 and 2 to 3.\<close>

definition tri_edges :: "(NodeID \<times> NodeID) list" where "tri_edges = [(1, 2), (1, 3), (2, 3)]"

definition tri_nb :: "NodeID \<Rightarrow> AlgDirection \<Rightarrow> NodeID list" where
  "tri_nb v dir =
     (if dir \<noteq> kInEdge then map snd (filter (\<lambda>e. fst e = v) tri_edges) else [])
     @ (if dir \<noteq> kOutEdge then map fst (filter (\<lambda>e. snd e = v) tri_edges) else [])"

fun tri_rv :: "AlgDirection \<Rightarrow> AlgDirection" where
  "tri_rv kOutEdge = kInEdge" | "tri_rv kInEdge = kOutEdge" | "tri_rv kBothEdge = kBothEdge"

definition vs_new :: "NodeID list \<Rightarrow> VertexSubset" where
  "vs_new = foldl vs_add \<lparr>isDense = False, vids = [], vid2idx = Map.empty\<rparr>"

lemma vs_inv_empty: "vs_inv \<lparr>isDense = False, vids = [], vid2idx = Map.empty\<rparr>"
  by (simp add: vs_inv_def)

lemma vs_new_builder: "subset_builder vs_new"
proof -
  have "vs_inv (vs_new l)" for l
    unfolding vs_new_def by (rule vsubset.inv_adds [OF vs_inv_empty])
  moreover have "isIn (vs_new l) v \<longleftrightarrow> v \<in> set l" for l v
    unfolding vs_new_def by (simp add: vsubset.member_adds [OF vs_inv_empty])
  ultimately show ?thesis using isIn_vids by (auto simp: subset_builder_def)
qed

lemma tri_nb_iff:
  "v \<in> set (tri_nb u dir) \<longleftrightarrow>
     dir \<noteq> kInEdge \<and> (u, v) \<in> set tri_edges \<or> dir \<noteq> kOutEdge \<and> (v, u) \<in> set tri_edges"
  by (force simp: tri_nb_def image_iff)

lemma tri_mirrored: "mirrored_neighbours [1, 2, 3] tri_nb tri_rv"
  unfolding mirrored_neighbours_def tri_nb_iff
proof (intro allI)
  fix u v dir
  have "(u, v) \<in> set tri_edges \<Longrightarrow> u \<in> set [1, 2, 3] \<and> v \<in> set [1, 2, 3]" for u v
    by (auto simp: tri_edges_def)
  then show "(dir \<noteq> kInEdge \<and> (u, v) \<in> set tri_edges \<or> dir \<noteq> kOutEdge \<and> (v, u) \<in> set tri_edges)
    \<longleftrightarrow> (tri_rv dir \<noteq> kInEdge \<and> (v, u) \<in> set tri_edges \<or> tri_rv dir \<noteq> kOutEdge \<and> (u, v) \<in> set tri_edges)
        \<and> v \<in> set [1, 2, 3]"
    by (cases dir) auto
qed

text \<open>Claim C9. What \<^verbatim>\<open>edgeMap\<close> returns, and what becomes of \<open>m\<close> and \<open>r\<close>, on the sparse and on the dense path, for any threshold and
  up to 71 threads, when the results of the callbacks do not depend on effects of one another. The vertices of the
  result are exactly the targets of edges out of the given set that pass the edge filter and the target filter. The code does fold
  mapped values with \<open>r\<close>, but it returns none of them: the result is the same for any other \<open>m\<close>, \<open>r\<close> and start value. And against
  the documentation, which has \<open>r\<close> aggregate every \<open>m(s, d)\<close> of a target, no value combines two sources: on the
  sparse path each is the fold of the value of one source only, and on the dense path \<open>m\<close> is applied to
  the first source of a target only and the others are skipped.\<close>

theorem edgeMap_refines:
  assumes "0 < n" "n \<le> 71" "subset_builder mk" "mirrored_neighbours allNodes nb rv" "vs_inv u"
  shows "\<exists>w vs. edgeMap th n allNodes nb rv mk u f m c r t0 dir = Some w \<and> vs_inv w
    \<and> set (vids w) = edgeMap_spec (\<lambda>v. nb v dir) (set (vids u)) f c
    \<and> edgeMap th n allNodes nb rv mk u f m' c r' t1 dir = Some w
    \<and> edgeMap_values th n allNodes nb rv u f m c r t0 dir = Some vs \<and> w = mk (map fst vs)
    \<and> (\<forall>d x. (d, x) \<in> set vs \<longrightarrow>
        (if vs_size u > length allNodes div th
         then \<exists>s. first_source (\<lambda>v. nb v (rv dir)) u f d = Some s \<and> folded r t0 (m s d) x
         else \<exists>s. s \<in> set (vids u) \<and> d \<in> set (nb s dir) \<and> f s d \<and> folded r t0 (m s d) x))"
proof -
  obtain vs where vs: "edgeMap_values th n allNodes nb rv u f m c r t0 dir = Some vs"
    "edgeMap th n allNodes nb rv mk u f m c r t0 dir = Some (mk (map fst vs))"
    using edgeMap_keys [OF assms(1,2), of th allNodes nb rv u f m c r t0 dir mk] by blast
  have same: "edgeMap th n allNodes nb rv mk u f m' c r' t1 dir = edgeMap th n allNodes nb rv mk u f m c r t0 dir"
    using edgeMap_keys [OF assms(1,2), of th allNodes nb rv u f m c r t0 dir mk]
      edgeMap_keys [OF assms(1,2), of th allNodes nb rv u f m' c r' t1 dir mk] by fastforce
  have "\<exists>w. edgeMap th n allNodes nb rv mk u f m c r t0 dir = Some w \<and> vs_inv w
      \<and> set (vids w) = edgeMap_spec (\<lambda>v. nb v dir) (set (vids u)) f c"
    using edgeMapDense_spec [OF assms, of f m c r t0 dir] edgeMapSparse_spec [OF assms(1-3), of nb u f m c r t0 dir]
    by (simp add: edgeMap_def)
  then have "vs_inv (mk (map fst vs))" "set (vids (mk (map fst vs))) = edgeMap_spec (\<lambda>v. nb v dir) (set (vids u)) f c"
    using vs(2) by auto
  moreover have "if vs_size u > length allNodes div th
         then \<exists>s. first_source (\<lambda>v. nb v (rv dir)) u f d = Some s \<and> folded r t0 (m s d) x
         else \<exists>s. s \<in> set (vids u) \<and> d \<in> set (nb s dir) \<and> f s d \<and> folded r t0 (m s d) x" if "(d, x) \<in> set vs" for d x
    using edgeMap_value_source [OF assms(1) vs(1) that] by (auto split: if_splits)
  ultimately show ?thesis
    using vs same by (intro exI [of _ "mk (map fst vs)"] exI [of _ vs] conjI allI impI) simp_all
qed

theorem edgeMap_refines_witness:
  "\<exists>w vs. edgeMap 20 4 [1, 2, 3] tri_nb tri_rv vs_new (vs_new [1, 2]) (\<lambda>u v. True) (\<lambda>u v. sint u)
      (\<lambda>v. v \<noteq> 2) (+) 0 kOutEdge = Some w
    \<and> set (vids w) = edgeMap_spec (\<lambda>v. tri_nb v kOutEdge) (set (vids (vs_new [1, 2]))) (\<lambda>u v. True) (\<lambda>v. v \<noteq> 2)
    \<and> edgeMap 20 4 [1, 2, 3] tri_nb tri_rv vs_new (vs_new [1, 2]) (\<lambda>u v. True) (\<lambda>u v. 7) (\<lambda>v. v \<noteq> 2) (*) 1 kOutEdge = Some w
    \<and> edgeMap_values 20 4 [1, 2, 3] tri_nb tri_rv (vs_new [1, 2]) (\<lambda>u v. True) (\<lambda>u v. sint u)
        (\<lambda>v. v \<noteq> 2) (+) 0 kOutEdge = Some vs \<and> vs = [(3, 1)]"
proof -
  have "vs_inv (vs_new [1, 2])" using vs_new_builder by (simp add: subset_builder_def)
  moreover have "edgeMap_values 20 4 [1, 2, 3] tri_nb tri_rv (vs_new [1, 2]) (\<lambda>u v. True) (\<lambda>u v. sint u)
        (\<lambda>v. v \<noteq> 2) (+) 0 kOutEdge = Some [(3, 1)]" by code_simp
  ultimately show ?thesis
    using edgeMap_refines [of 4 vs_new "[1, 2, 3]" tri_nb tri_rv "vs_new [1, 2]" 20 "\<lambda>u v. True" "\<lambda>u v. sint u" "\<lambda>v. v \<noteq> 2"
        "(+)" 0 kOutEdge "\<lambda>u v. 7" "(*)" 1, OF _ _ vs_new_builder tri_mirrored] by fastforce
qed

text \<open>\<^verbatim>\<open>add\<close> keeps the vector and the index of a vertex set consistent, never stores a vertex
  twice, and afterwards \<^verbatim>\<open>isIn\<close> holds of the old vertices and the added ones only.\<close>

theorem vertexSubset_add:
  assumes "vs_inv u"
  shows "vs_inv (foldl vs_add u vs) \<and> distinct (vids (foldl vs_add u vs))
    \<and> (isIn (foldl vs_add u vs) v \<longleftrightarrow> isIn u v \<or> v \<in> set vs)"
  using vsubset.inv_adds [OF assms] vsubset.member_adds [OF assms] isIn_vids [OF assms]
  by (auto simp: vs_inv_def)

theorem vertexSubset_add_witness:
  "isIn (foldl vs_add \<lparr>isDense = False, vids = [], vid2idx = Map.empty\<rparr> [8, 7, 8]) 8
   \<and> distinct (vids (foldl vs_add \<lparr>isDense = False, vids = [], vid2idx = Map.empty\<rparr> [8, 7, 8]))"
  using vertexSubset_add [OF vs_inv_empty, of "[8, 7, 8]" 8] by simp

text \<open>\<^verbatim>\<open>vertexMap\<close> keeps exactly the vertices that pass the filter and runs the action once
  on each of them; when the actions commute the final state does not depend on the order in which
  the threads run them.\<close>

theorem vertexMap_result:
  assumes "0 < n" "n \<le> 71" "\<And>l. mset (sched l) = mset l" "\<And>a b s. m a (m b s) = m b (m a s)"
  shows "vertexMap n sched mk u f m s
    = Some (mk (filter f (vids u)), fold m (filter f (vids u)) s)"
proof -
  obtain cs where cs: "task_chunks n (vids u) = Some cs" "concat cs = vids u"
    using task_chunks_threads [OF assms(1,2)] by blast
  have "(\<lambda>id res. Inr (if f id then res @ [id] else res) :: unit + NodeID list)
      = (\<lambda>id res. Inr (res @ (if f id then [id] else [])))" by (intro ext) simp
  moreover have "concat (map (\<lambda>c. concat (map (\<lambda>id. if f id then [id] else []) c)) cs) = filter f (vids u)"
    unfolding cs(2) [symmetric] by (induction cs) (auto simp: concat_select)
  ultimately have "parallelFilter n (\<lambda>id res. Inr (if f id then res @ [id] else res) :: unit + NodeID list)
      (vids u) = Some (Inr (filter f (vids u)))"
    by (simp add: parallelFilter_def cs foldE_append_total mapE_total)
  moreover have "fold m (sched l) s = fold m l s" for l
    by (rule fold_multiset_equiv [THEN fun_cong]) (auto simp: fun_eq_iff assms(3,4))
  ultimately show ?thesis by (simp add: vertexMap_def runOnCurrentThread_def Let_def)
qed

theorem vertexMap_result_witness:
  "vertexMap 4 rev vs_new (vs_new [1, 2, 3]) (\<lambda>v. v \<noteq> 2) (\<lambda>v s. s + uint v) 0
     = Some (vs_new (filter (\<lambda>v. v \<noteq> 2) (vids (vs_new [1, 2, 3]))),
             fold (\<lambda>v s. s + uint v) (filter (\<lambda>v. v \<noteq> 2) (vids (vs_new [1, 2, 3]))) 0)"
  by (rule vertexMap_result) auto

end
