(* ===== verification/MemTracker.thy ===== *)
theory MemTracker
  imports Prelude
begin

text \<open>
  Memory accounting of \<^verbatim>\<open>src/include/nebula/common/memory\<close>: the three layers of trackers in
  \<^verbatim>\<open>MemoryTracker.h\<close>, their counters in \<^verbatim>\<open>MemoryUsage.h\<close> and the layer constants in \<^verbatim>\<open>Memory.h\<close>.
  An operator takes memory from its query, a query from the global tracker, both in chunks; what is
  taken and not handed on is the reservation. A hard limit that would be exceeded raises
  \<^verbatim>\<open>MemoryExceededException\<close>: every operation returns whether it completed, with the state it left.
  These are the calls of one thread alone; their interleaving is in \<open>MemConcurrent\<close>.
  Counters are mathematical integers, except in the constructor, where the sum of a limit and the
  chunk sz can exceed 64 bits and wraps.
\<close>

section \<open>Layers and counters\<close>

datatype Layer = Global | Query | Operator | Invalid

definition KiB :: int where "KiB = 1024"

fun maxReserveBytes :: "Layer \<Rightarrow> int" where
  "maxReserveBytes Global = 0"
| "maxReserveBytes Query = 64 * KiB"
| "maxReserveBytes Operator = 4 * KiB"
| "maxReserveBytes Invalid = 0"

fun layer_parent :: "Layer \<Rightarrow> Layer" where
  "layer_parent Query = Global"
| "layer_parent Operator = Query"
| "layer_parent _ = Invalid"

record usage =
  amount :: int
  peak :: int
  softLimit :: int
  hardLimit :: int

definition usage_alloc :: "int \<Rightarrow> usage \<Rightarrow> bool \<times> usage" where
  "usage_alloc sz u = (let newAmount = amount u + sz in
     if newAmount > hardLimit u then (False, u\<lparr>amount := newAmount - sz\<rparr>)
     else (True, u\<lparr>amount := newAmount, peak := if newAmount > peak u then newAmount else peak u\<rparr>))"

definition usage_free :: "int \<Rightarrow> usage \<Rightarrow> usage" where
  "usage_free sz u = u\<lparr>amount := amount u - sz\<rparr>"

text \<open>The counters of an operator have no limit; the debug build also counts and classifies.\<close>

record op_usage =
  op_amount :: int
  op_peak :: int
  allocated :: int
  freed :: int
  hist :: "int list"

definition hist_class :: "int \<Rightarrow> nat" where
  "hist_class sz = (if sz \<le> 32 then 0 else if sz \<le> 128 then 1 else if sz \<le> 512 then 2
     else if sz \<le> 1024 then 3 else if sz \<le> 4096 then 4 else if sz \<le> 32768 then 5
     else if sz \<le> 65536 then 6 else 7)"

definition op_alloc :: "int \<Rightarrow> op_usage \<Rightarrow> op_usage" where
  "op_alloc sz u = (let a = op_amount u + sz in
     u\<lparr>op_amount := a, op_peak := if a > op_peak u then a else op_peak u,
       allocated := allocated u + sz,
       hist := (hist u)[hist_class sz := hist u ! hist_class sz + 1]\<rparr>)"

definition op_free :: "int \<Rightarrow> op_usage \<Rightarrow> op_usage" where
  "op_free sz u = u\<lparr>op_amount := op_amount u - sz, freed := freed u + sz\<rparr>"

definition usage_add :: "op_usage \<Rightarrow> op_usage \<Rightarrow> op_usage" where
  "usage_add u other = u\<lparr>op_amount := op_amount u + op_amount other,
     op_peak := if op_peak u > op_peak other then op_peak u else op_peak other,
     allocated := allocated u + allocated other, freed := freed u + freed other,
     hist := map2 (+) (hist u) (hist other)\<rparr>"

definition op_usage_zero :: op_usage where
  "op_usage_zero = \<lparr>op_amount = 0, op_peak = 0, allocated = 0, freed = 0, hist = replicate 8 0\<rparr>"

section \<open>Trackers\<close>

record query =
  q_reservation :: int
  q_usage :: usage

record oper =
  o_reservation :: int
  o_usage :: op_usage

definition UNLIMITED :: int where "UNLIMITED = 2 ^ 63 - 1"

definition wrap64 :: "int \<Rightarrow> int" where
  "wrap64 x = sint (word_of_int x :: int64)"

definition new_usage :: "Layer \<Rightarrow> int \<Rightarrow> int \<Rightarrow> usage" where
  "new_usage L soft limit = \<lparr>amount = 0, peak = 0, softLimit = soft,
     hardLimit = (if limit \<noteq> UNLIMITED then wrap64 (limit + maxReserveBytes L) else limit)\<rparr>"

text \<open>The chunk loops: the least number of chunks that covers a shortage, and the chunks a
  reservation can give back.\<close>

function get_from_parent :: "int \<Rightarrow> int \<Rightarrow> int \<Rightarrow> int" where
  "get_from_parent chunk will getFromParent =
     (if 0 < chunk \<and> will + getFromParent \<le> 0
      then get_from_parent chunk will (getFromParent + chunk) else getFromParent)"
  by pat_completeness auto
termination
  by (relation "measure (\<lambda>(chunk, will, g). nat (1 - will - g))") auto

function release_parent :: "int \<Rightarrow> int \<Rightarrow> int \<Rightarrow> int" where
  "release_parent chunk will releaseParent =
     (if 0 < chunk \<and> chunk < will
      then release_parent chunk (will - chunk) (releaseParent + chunk) else releaseParent)"
  by pat_completeness auto
termination
  by (relation "measure (\<lambda>(chunk, will, r). nat will)") auto

declare get_from_parent.simps [simp del] release_parent.simps [simp del]

definition global_acquire :: "int \<Rightarrow> usage \<Rightarrow> bool \<times> usage" where
  "global_acquire sz g = usage_alloc sz g"

definition global_release :: "int \<Rightarrow> usage \<Rightarrow> usage" where
  "global_release sz g = usage_free sz g"

text \<open>The query counts the amount first; when the global tracker throws, that count stays.\<close>

definition query_acquire :: "int \<Rightarrow> query \<times> usage \<Rightarrow> bool \<times> query \<times> usage" where
  "query_acquire sz = (\<lambda>(q, g).
     case usage_alloc sz (q_usage q) of (ok, u) \<Rightarrow>
       (let q = q\<lparr>q_usage := u\<rparr> in
        if \<not> ok then (False, q, g)
        else let willReserve = q_reservation q - sz in
          if willReserve < 0 then
            (let n = get_from_parent (maxReserveBytes Query) willReserve (maxReserveBytes Query) in
             case global_acquire n g of (ok, g) \<Rightarrow>
               if \<not> ok then (False, q, g)
               else (True, q\<lparr>q_reservation := q_reservation q + n - sz\<rparr>, g))
          else (True, q\<lparr>q_reservation := q_reservation q - sz\<rparr>, g)))"

definition query_release :: "int \<Rightarrow> query \<times> usage \<Rightarrow> query \<times> usage" where
  "query_release sz = (\<lambda>(q, g).
     let willReserve = q_reservation q + sz;
         q = q\<lparr>q_reservation := willReserve\<rparr>;
         n = release_parent (maxReserveBytes Query) willReserve 0;
         (q, g) = (if n > 0 then (q\<lparr>q_reservation := q_reservation q - n\<rparr>, global_release n g) else (q, g))
     in (q\<lparr>q_usage := usage_free sz (q_usage q)\<rparr>, g))"

text \<open>The operator asks its query before it changes anything.\<close>

definition op_acquire :: "int \<Rightarrow> oper \<times> query \<times> usage \<Rightarrow> bool \<times> oper \<times> query \<times> usage" where
  "op_acquire sz = (\<lambda>(opr, up).
     let willBe = o_reservation opr - sz in
     if willBe < 0 then
       (let n = get_from_parent (maxReserveBytes Operator) willBe (maxReserveBytes Operator) in
        case query_acquire n up of (ok, up) \<Rightarrow>
          if \<not> ok then (False, opr, up)
          else (True, opr\<lparr>o_reservation := willBe + n, o_usage := op_alloc sz (o_usage opr)\<rparr>, up))
     else (True, opr\<lparr>o_reservation := willBe, o_usage := op_alloc sz (o_usage opr)\<rparr>, up))"

function op_release_loop :: "int \<Rightarrow> query \<times> usage \<Rightarrow> int \<times> query \<times> usage" where
  "op_release_loop r up =
     (if maxReserveBytes Operator < r
      then op_release_loop (r - maxReserveBytes Operator) (query_release (maxReserveBytes Operator) up)
      else (r, up))"
  by pat_completeness auto
termination
  by (relation "measure (\<lambda>(r, up). nat r)") (auto simp: KiB_def)

declare op_release_loop.simps [simp del]

definition op_release :: "int \<Rightarrow> oper \<times> query \<times> usage \<Rightarrow> oper \<times> query \<times> usage" where
  "op_release sz = (\<lambda>(opr, up).
     case op_release_loop (o_reservation opr + sz) up of (r, up) \<Rightarrow>
       (opr\<lparr>o_reservation := r, o_usage := op_free sz (o_usage opr)\<rparr>, up))"

text \<open>The destructor of a query gives back its reservation only.\<close>

definition query_destroy :: "query \<Rightarrow> usage \<Rightarrow> usage" where
  "query_destroy q g = (if q_reservation q \<noteq> 0 then global_release (q_reservation q) g else g)"

definition new_query :: "int \<Rightarrow> int \<Rightarrow> query" where
  "new_query soft limit = \<lparr>q_reservation = 0, q_usage = new_usage Query soft limit\<rparr>"

definition new_op :: oper where
  "new_op = \<lparr>o_reservation = 0, o_usage = op_usage_zero\<rparr>"

section \<open>The chunk loops\<close>

lemma wrap64_period: "wrap64 x = wrap64 (x - 2 ^ 64)"
proof -
  have "(x - 2 ^ 64) mod 2 ^ 64 = x mod 2 ^ 64" by (rule minus_mod_self2)
  then have "(word_of_int x :: int64) = word_of_int (x - 2 ^ 64)"
    by (simp only: word_of_int_eq_iff take_bit_eq_mod) simp
  then show ?thesis by (simp only: wrap64_def)
qed

declare maxReserveBytes.simps [simp del]

lemma chunk_sizes [simp]:
  "maxReserveBytes Query = 65536" "maxReserveBytes Operator = 4096" "maxReserveBytes Global = 0"
  by (simp_all add: KiB_def maxReserveBytes.simps)

lemma wrap64_id: "- (2 ^ 63) \<le> x \<Longrightarrow> x < 2 ^ 63 \<Longrightarrow> wrap64 x = x"
  unfolding wrap64_def by (rule sint_of_int_id) simp_all

lemma get_from_parent_bounds:
  assumes "0 < chunk" "will + g \<le> chunk"
  shows "g \<le> get_from_parent chunk will g \<and> 0 < will + get_from_parent chunk will g
    \<and> will + get_from_parent chunk will g \<le> chunk"
  using assms
proof (induction chunk will g rule: get_from_parent.induct)
  case (1 chunk will g)
  then show ?case by (subst (1 2 3) get_from_parent.simps) (auto split: if_splits)
qed

lemma release_parent_bounds:
  assumes "0 < chunk" "0 \<le> will"
  shows "r \<le> release_parent chunk will r \<and> 0 \<le> will - (release_parent chunk will r - r)
    \<and> will - (release_parent chunk will r - r) \<le> chunk"
  using assms
proof (induction chunk will r rule: release_parent.induct)
  case (1 chunk will r)
  then show ?case by (subst (1 2 3) release_parent.simps) (auto split: if_splits)
qed

section \<open>What one call does\<close>

definition g_ok :: "usage \<Rightarrow> bool" where
  "g_ok g \<longleftrightarrow> amount g \<le> hardLimit g"

definition q_ok :: "query \<Rightarrow> bool" where
  "q_ok q \<longleftrightarrow> 0 \<le> q_reservation q \<and> q_reservation q \<le> maxReserveBytes Query \<and> g_ok (q_usage q)"

definition o_ok :: "oper \<Rightarrow> bool" where
  "o_ok opr \<longleftrightarrow> 0 \<le> o_reservation opr \<and> o_reservation opr \<le> maxReserveBytes Operator"

definition o_held :: "oper \<Rightarrow> int" where
  "o_held opr = op_amount (o_usage opr) + o_reservation opr"

lemmas tracker_ok = g_ok_def q_ok_def o_ok_def o_held_def

lemma usage_alloc_spec:
  "usage_alloc sz u = (ok, u') \<Longrightarrow> g_ok u \<Longrightarrow>
     g_ok u' \<and> hardLimit u' = hardLimit u \<and> amount u' = (if ok then amount u + sz else amount u)"
  by (auto simp: usage_alloc_def g_ok_def Let_def split: if_splits)

lemma usage_free_simps [simp]:
  "amount (usage_free sz u) = amount u - sz" "hardLimit (usage_free sz u) = hardLimit u"
  by (simp_all add: usage_free_def)

lemma query_acquire_spec:
  assumes "query_acquire sz (q, g) = (ok, q', g')" "q_ok q" "g_ok g" "0 \<le> sz"
  shows "q_ok q' \<and> g_ok g' \<and> hardLimit g' = hardLimit g \<and> hardLimit (q_usage q') = hardLimit (q_usage q)
    \<and> (ok \<longrightarrow> amount (q_usage q') = amount (q_usage q) + sz
        \<and> amount g' + q_reservation q = amount g + q_reservation q' + sz)
    \<and> (\<not> ok \<longrightarrow> amount (q_usage q) \<le> amount (q_usage q') \<and> amount g' = amount g
        \<and> q_reservation q' = q_reservation q)"
proof -
  obtain ok1 u where u: "usage_alloc sz (q_usage q) = (ok1, u)" by fastforce
  define n where "n = get_from_parent 65536 (q_reservation q - sz) 65536"
  obtain ok2 g2 where g: "usage_alloc n g = (ok2, g2)" by fastforce
  have 1: "g_ok u" "hardLimit u = hardLimit (q_usage q)"
    "amount u = (if ok1 then amount (q_usage q) + sz else amount (q_usage q))"
    using usage_alloc_spec [OF u] assms(2) by (simp_all add: q_ok_def)
  have 2: "g_ok g2" "hardLimit g2 = hardLimit g" "amount g2 = (if ok2 then amount g + n else amount g)"
    using usage_alloc_spec [OF g assms(3)] by simp_all
  have 3: "0 < q_reservation q - sz + n \<and> q_reservation q - sz + n \<le> 65536"
    if "q_reservation q - sz < 0"
    using get_from_parent_bounds [of 65536 "q_reservation q - sz" 65536] that by (simp add: n_def)
  show ?thesis
    using assms 1 2 3
    by (auto simp: query_acquire_def u global_acquire_def Let_def n_def [symmetric] g q_ok_def
        split: if_splits)
qed

lemma query_release_spec:
  assumes "query_release sz (q, g) = (q', g')" "q_ok q" "g_ok g" "0 \<le> sz"
  shows "q_ok q' \<and> g_ok g' \<and> hardLimit g' = hardLimit g \<and> hardLimit (q_usage q') = hardLimit (q_usage q)
    \<and> amount (q_usage q') = amount (q_usage q) - sz
    \<and> amount g' + q_reservation q = amount g + q_reservation q' - sz"
proof -
  define n where "n = release_parent 65536 (q_reservation q + sz) 0"
  have "0 \<le> n \<and> 0 \<le> q_reservation q + sz - n \<and> q_reservation q + sz - n \<le> 65536"
    using release_parent_bounds [of 65536 "q_reservation q + sz" 0] assms(2,4)
    by (simp add: n_def q_ok_def)
  then show ?thesis
    using assms
    by (auto simp: query_release_def Let_def n_def [symmetric] global_release_def q_ok_def g_ok_def
        split: if_splits)
qed

lemma op_acquire_spec:
  assumes "op_acquire sz (opr, q, g) = (ok, opr', q', g')" "o_ok opr" "q_ok q" "g_ok g" "0 \<le> sz"
  shows "o_ok opr' \<and> q_ok q' \<and> g_ok g' \<and> hardLimit g' = hardLimit g
    \<and> amount (q_usage q) - o_held opr \<le> amount (q_usage q') - o_held opr'
    \<and> amount g - (q_reservation q + o_held opr) = amount g' - (q_reservation q' + o_held opr')
    \<and> op_amount (o_usage opr') = op_amount (o_usage opr) + (if ok then sz else 0)"
proof (cases "o_reservation opr - sz < 0")
  case True
  define n where "n = get_from_parent 4096 (o_reservation opr - sz) 4096"
  have n: "4096 \<le> n" "0 < o_reservation opr - sz + n" "o_reservation opr - sz + n \<le> 4096"
    using get_from_parent_bounds [of 4096 "o_reservation opr - sz" 4096] True by (simp_all add: n_def)
  obtain ok1 q1 g1 where p: "query_acquire n (q, g) = (ok1, q1, g1)" by (metis prod_cases3)
  show ?thesis
    using assms True n query_acquire_spec [OF p assms(3,4)]
    by (auto simp: op_acquire_def Let_def n_def [symmetric] p o_ok_def o_held_def op_alloc_def
        split: if_splits)
next
  case False
  then show ?thesis
    using assms by (auto simp: op_acquire_def Let_def o_ok_def o_held_def op_alloc_def)
qed

lemma op_release_loop_spec:
  assumes "op_release_loop r (q, g) = (r', q', g')" "q_ok q" "g_ok g" "0 \<le> r"
  shows "q_ok q' \<and> g_ok g' \<and> hardLimit g' = hardLimit g \<and> 0 \<le> r' \<and> r' \<le> 4096
    \<and> amount (q_usage q) - r = amount (q_usage q') - r'
    \<and> amount g - (q_reservation q + r) = amount g' - (q_reservation q' + r')"
  using assms
proof (induction r "(q, g)" arbitrary: q g rule: op_release_loop.induct)
  case (1 r q g)
  show ?case
  proof (cases "4096 < r")
    case True
    obtain q1 g1 where p: "query_release 4096 (q, g) = (q1, g1)" by fastforce
    have "op_release_loop (r - 4096) (q1, g1) = (r', q', g')"
      using 1(2) True p by (subst (asm) op_release_loop.simps) simp
    then show ?thesis
      using 1(1) [of q1 g1] True p query_release_spec [OF p 1(3,4)] 1(5) by auto
  next
    case False
    then have "(r, q, g) = (r', q', g')" using 1(2) by (subst (asm) op_release_loop.simps) simp
    then show ?thesis using 1(3-5) False by auto
  qed
qed

lemma op_release_spec:
  assumes "op_release sz (opr, q, g) = (opr', q', g')" "o_ok opr" "q_ok q" "g_ok g" "0 \<le> sz"
  shows "o_ok opr' \<and> q_ok q' \<and> g_ok g' \<and> hardLimit g' = hardLimit g
    \<and> amount (q_usage q) - o_held opr = amount (q_usage q') - o_held opr'
    \<and> amount g - (q_reservation q + o_held opr) = amount g' - (q_reservation q' + o_held opr')
    \<and> op_amount (o_usage opr') = op_amount (o_usage opr) - sz"
proof -
  obtain r q1 g1 where p: "op_release_loop (o_reservation opr + sz) (q, g) = (r, q1, g1)"
    by (metis prod_cases3)
  have "0 \<le> o_reservation opr + sz" using assms(2,5) by (simp add: o_ok_def)
  then show ?thesis
    using assms op_release_loop_spec [OF p assms(3,4)]
    by (auto simp: op_release_def p o_ok_def o_held_def op_free_def)
qed

section \<open>Properties\<close>

text \<open>Claim C23. An operator's request is not refused while there is room: when the limits of the query
  and of the global tracker leave the requested size and one chunk of each layer, it succeeds and
  the operator's counter grows by exactly the size.\<close>

theorem acquire_succeeds:
  assumes "o_ok opr" "q_ok q" "g_ok g" "0 \<le> sz"
    and "amount (q_usage q) + sz + maxReserveBytes Operator \<le> hardLimit (q_usage q)"
    and "amount g + sz + maxReserveBytes Operator + maxReserveBytes Query \<le> hardLimit g"
  shows "\<exists>opr' up. op_acquire sz (opr, q, g) = (True, opr', up)
    \<and> op_amount (o_usage opr') = op_amount (o_usage opr) + sz"
proof (cases "o_reservation opr - sz < 0")
  case True
  define n where "n = get_from_parent 4096 (o_reservation opr - sz) 4096"
  have n: "4096 \<le> n" "o_reservation opr - sz + n \<le> 4096"
    using get_from_parent_bounds [of 4096 "o_reservation opr - sz" 4096] True by (simp_all add: n_def)
  then have le: "n \<le> sz + 4096" using assms(1) by (simp add: o_ok_def)
  define k where "k = get_from_parent 65536 (q_reservation q - n) 65536"
  have "q_reservation q - n + k \<le> 65536" if "q_reservation q < n"
    using get_from_parent_bounds [of 65536 "q_reservation q - n" 65536] that by (simp add: k_def)
  then have "k \<le> sz + 4096 + 65536" if "q_reservation q < n"
    using that le assms(2) by (simp add: q_ok_def)
  then have "\<exists>up. query_acquire n (q, g) = (True, up)"
    using assms(5,6) le
    by (cases "q_reservation q < n")
      (auto simp: query_acquire_def usage_alloc_def global_acquire_def Let_def k_def [symmetric])
  then obtain up where "query_acquire n (q, g) = (True, up)" by blast
  then show ?thesis using True by (simp add: op_acquire_def Let_def n_def [symmetric] op_alloc_def)
qed (simp add: op_acquire_def Let_def op_alloc_def)

theorem acquire_succeeds_witness:
  "\<exists>opr' up. op_acquire 100 (new_op, new_query 0 500000, new_usage Global 0 1000000) = (True, opr', up)
    \<and> op_amount (o_usage opr') = op_amount (o_usage new_op) + 100"
  using wrap64_id [of 565536] wrap64_id [of 1000000]
  by (intro acquire_succeeds)
    (simp_all add: new_op_def new_query_def new_usage_def o_ok_def q_ok_def g_ok_def UNLIMITED_def)

text \<open>A request that the query can count but the global tracker refuses is refused, and yet
  stays in the query's counter: the counter of the query drifts above what its operators hold.\<close>

theorem refused_request_counted:
  assumes "0 \<le> sz" "amount (q_usage q) + sz \<le> hardLimit (q_usage q)"
    and "q_reservation q < sz" "hardLimit g < amount g + sz - q_reservation q"
  shows "\<exists>q'. query_acquire sz (q, g) = (False, q', g)
    \<and> amount (q_usage q') = amount (q_usage q) + sz \<and> q_reservation q' = q_reservation q"
proof -
  define n where "n = get_from_parent 65536 (q_reservation q - sz) 65536"
  have "sz - q_reservation q \<le> n"
    using get_from_parent_bounds [of 65536 "q_reservation q - sz" 65536] assms(3) by (simp add: n_def)
  then show ?thesis
    using assms
    by (auto simp: query_acquire_def usage_alloc_def global_acquire_def Let_def n_def [symmetric])
qed

theorem refused_request_counted_witness:
  "\<exists>q'. query_acquire 4096 (new_query 0 500000, new_usage Global 0 1000) = (False, q', new_usage Global 0 1000)
    \<and> amount (q_usage q') = 4096 \<and> q_reservation q' = 0"
  using refused_request_counted [of 4096 "new_query 0 500000" "new_usage Global 0 1000"]
    wrap64_id [of 565536] wrap64_id [of 1000]
  by (simp add: new_query_def new_usage_def UNLIMITED_def)

text \<open>A finite limit within one chunk of the largest 64 bit integer wraps to a negative hard
  limit, so that the query refuses every request.\<close>

theorem large_limit_wraps:
  assumes "UNLIMITED - maxReserveBytes Query < limit" "limit < UNLIMITED" "0 \<le> sz"
  shows "hardLimit (q_usage (new_query soft limit)) < 0 \<and> \<not> fst (query_acquire sz (new_query soft limit, g))"
proof -
  have "wrap64 (limit + 65536) = wrap64 (limit + 65536 - 2 ^ 64)" by (rule wrap64_period)
  also have "\<dots> = limit + 65536 - 2 ^ 64"
    using assms by (intro wrap64_id) (simp_all add: UNLIMITED_def)
  finally have "hardLimit (q_usage (new_query soft limit)) < 0"
    using assms(2) by (simp add: new_query_def new_usage_def UNLIMITED_def)
  then show ?thesis
    using assms(3) by (simp add: query_acquire_def usage_alloc_def new_query_def new_usage_def Let_def)
qed

theorem large_limit_wraps_witness:
  "\<not> fst (query_acquire 1 (new_query 0 9223372036854775800, new_usage Global 0 100))"
  using large_limit_wraps [of 9223372036854775800 1 0 "new_usage Global 0 100"] by (simp add: UNLIMITED_def)

end
