(* ===== verification/MemAllocator.thy ===== *)
theory MemAllocator
  imports MemTracker
begin

text \<open>
  The allocator of \<^verbatim>\<open>src/include/nebula/common/memory/Allocator.h\<close> for the operator layer, over the
  trackers, and the functions of \<^verbatim>\<open>Memory.h\<close> that call the C library. A request to the C library is
  recorded as a value, and it can fail; \<^verbatim>\<open>currentTracker\<close> may be null, then nothing is counted.
  Sizes are \<^verbatim>\<open>size_t\<close>; the tracker takes them as \<^verbatim>\<open>int64_t\<close>, so that a size of \<open>2 ^ 63\<close> or more
  reaches it as a negative number.
\<close>

section \<open>Requests to the C library\<close>

datatype c_request = Malloc uint64 | Aligned_alloc uint64 uint64

text \<open>\<^verbatim>\<open>aligned_alloc(alignment, bytes)\<close> of the C library gives a block of its second argument.\<close>

fun block_bytes :: "c_request \<Rightarrow> nat" where
  "block_bytes (Malloc n) = unat n"
| "block_bytes (Aligned_alloc align n) = unat n"

datatype alloc_error = MemoryExceeded | Bad_alloc

text \<open>Whether the C library serves a request is the parameter \<open>av\<close>; a null pointer is turned into
  \<^verbatim>\<open>std::bad_alloc\<close>.\<close>

definition mem_allocate :: "(c_request \<Rightarrow> bool) \<Rightarrow> uint64 \<Rightarrow> alloc_error + c_request" where
  "mem_allocate av sz = (if av (Malloc sz) then Inr (Malloc sz) else Inl Bad_alloc)"

definition alignedAlloc :: "(c_request \<Rightarrow> bool) \<Rightarrow> uint64 \<Rightarrow> uint64 \<Rightarrow> alloc_error + c_request" where
  "alignedAlloc av sz align =
     (if av (Aligned_alloc align sz) then Inr (Aligned_alloc align sz) else Inl Bad_alloc)"

section \<open>The allocator\<close>

type_synonym trackers = "oper \<times> query \<times> usage"

text \<open>Acquire from the tracker if there is one; \<open>False\<close> is the exception, with the state it leaves.
  \<^verbatim>\<open>sint\<close> is the conversion from \<^verbatim>\<open>size_t\<close> to \<^verbatim>\<open>int64_t\<close>.\<close>

definition track_acquire :: "uint64 \<Rightarrow> trackers option \<Rightarrow> bool \<times> trackers option" where
  "track_acquire sz t = (case t of None \<Rightarrow> (True, None)
     | Some tr \<Rightarrow> (case op_acquire (sint sz) tr of (ok, tr) \<Rightarrow> (ok, Some tr)))"

definition track_release :: "uint64 \<Rightarrow> trackers option \<Rightarrow> trackers option" where
  "track_release sz t = map_option (op_release (sint sz)) t"

definition block_request :: "(c_request \<Rightarrow> bool) \<Rightarrow> uint64 \<Rightarrow> uint64 \<Rightarrow> alloc_error + c_request" where
  "block_request av sz alignment =
     (if alignment \<le> 8 then mem_allocate av sz else alignedAlloc av alignment sz)"

definition Allocator_allocate :: "(c_request \<Rightarrow> bool) \<Rightarrow> uint64 \<Rightarrow> uint64 \<Rightarrow> trackers option
    \<Rightarrow> (alloc_error + c_request) \<times> trackers option" where
  "Allocator_allocate av sz alignment t = (case track_acquire sz t of (ok, t) \<Rightarrow>
     (if ok then block_request av sz alignment else Inl MemoryExceeded, t))"

text \<open>The result also gives the number of bytes copied from the old block to the new one.\<close>

definition Allocator_reallocate :: "(c_request \<Rightarrow> bool) \<Rightarrow> uint64 \<Rightarrow> uint64 \<Rightarrow> uint64 \<Rightarrow> trackers option
    \<Rightarrow> (alloc_error + c_request \<times> nat) \<times> trackers option" where
  "Allocator_reallocate av oldSize newSize alignment t =
     (case track_acquire newSize (track_release oldSize t) of (ok, t) \<Rightarrow>
       (if \<not> ok then Inl MemoryExceeded
        else case block_request av newSize alignment of Inl e \<Rightarrow> Inl e
          | Inr newPtr \<Rightarrow> Inr (newPtr, unat oldSize), t))"

definition Allocator_deallocate :: "uint64 \<Rightarrow> trackers option \<Rightarrow> trackers option" where
  "Allocator_deallocate sz t = track_release sz t"

definition counted :: "trackers option \<Rightarrow> int" where
  "counted t = (case t of None \<Rightarrow> 0 | Some (opr, up) \<Rightarrow> op_amount (o_usage opr))"

definition trackers_ok :: "trackers option \<Rightarrow> bool" where
  "trackers_ok t \<longleftrightarrow> (case t of None \<Rightarrow> True | Some (opr, q, g) \<Rightarrow> o_ok opr \<and> q_ok q \<and> g_ok g)"

text \<open>The counters of the trackers are integers; with counters in this range and sizes below
  \<open>2 ^ 61\<close>, no sum that a call computes leaves the 64 bits of the code.\<close>

definition small_counter :: "int \<Rightarrow> bool" where
  "small_counter x \<longleftrightarrow> - (2 ^ 62) \<le> x \<and> x \<le> 2 ^ 62"

definition counters_small :: "trackers option \<Rightarrow> bool" where
  "counters_small t \<longleftrightarrow> (case t of None \<Rightarrow> True | Some (opr, q, g) \<Rightarrow>
     small_counter (op_amount (o_usage opr)) \<and> small_counter (allocated (o_usage opr))
     \<and> small_counter (freed (o_usage opr)) \<and> small_counter (amount (q_usage q)) \<and> small_counter (amount g))"

section \<open>What the allocator counts\<close>

lemma sint_size:
  fixes w :: uint64
  assumes "unat w < 2 ^ 63"
  shows "sint w = int (unat w)"
proof -
  define i where "i = int (unat w)"
  have "int (unat w) < int (2 ^ 63)" using assms by (simp only: of_nat_less_iff)
  then have i: "0 \<le> i" "i < 2 ^ 63" by (simp_all add: i_def del: of_nat_unat)
  then have "sint (word_of_int i :: uint64) = i" by (intro sint_of_int_id) simp_all
  then show ?thesis by (simp add: i_def)
qed

lemma sint_huge:
  fixes w :: uint64
  assumes "2 ^ 63 \<le> unat w"
  shows "sint w = int (unat w) - 2 ^ 64"
proof -
  define i where "i = int (unat w) - 2 ^ 64"
  have "int (2 ^ 63) \<le> int (unat w)" "int (unat w) < int (2 ^ 64)"
    using assms unsigned_less [of w, where ?'a = nat] by (simp_all only: of_nat_less_iff of_nat_le_iff) simp
  then have i: "- (2 ^ 63) \<le> i" "i < 2 ^ 63" by (simp_all add: i_def del: of_nat_unat)
  then have "sint (word_of_int i :: uint64) = i" by (intro sint_of_int_id) simp_all
  moreover have e: "(word_of_int i :: uint64) = w" by (simp add: i_def)
  ultimately show ?thesis by (simp only: e) (simp only: i_def)
qed

lemma track_acquire_spec:
  assumes "track_acquire sz t = (ok, t')" "trackers_ok t" "unat sz < 2 ^ 63"
  shows "trackers_ok t' \<and> counted t' = counted t + (if ok \<and> t \<noteq> None then int (unat sz) else 0)"
proof (cases t)
  case None
  then show ?thesis using assms by (simp add: track_acquire_def trackers_ok_def counted_def)
next
  case (Some tr)
  obtain opr q g where tr: "tr = (opr, q, g)" by (cases tr) auto
  obtain opr' q' g' where a: "op_acquire (int (unat sz)) (opr, q, g) = (ok, opr', q', g')"
    and t': "t' = Some (opr', q', g')"
    using assms(1) Some tr sint_size [OF assms(3)] by (auto simp: track_acquire_def split: prod.splits)
  show ?thesis
    using op_acquire_spec [OF a] assms(2) Some tr t' by (simp add: trackers_ok_def counted_def)
qed

lemma track_release_spec:
  assumes "trackers_ok t" "unat sz < 2 ^ 63"
  shows "trackers_ok (track_release sz t)
    \<and> counted (track_release sz t) = counted t - (if t \<noteq> None then int (unat sz) else 0)"
proof (cases t)
  case None
  then show ?thesis by (simp add: track_release_def trackers_ok_def counted_def)
next
  case (Some tr)
  obtain opr q g where tr: "tr = (opr, q, g)" by (cases tr) auto
  obtain opr' q' g' where a: "op_release (int (unat sz)) (opr, q, g) = (opr', q', g')" by (metis prod_cases3)
  show ?thesis
    using op_release_spec [OF a] assms Some tr a
    by (simp add: trackers_ok_def counted_def track_release_def sint_size [OF assms(2)])
qed

section \<open>Properties\<close>

lemma block_request_result:
  "block_request av sz alignment = Inr req \<Longrightarrow>
     block_bytes req = (if alignment \<le> 8 then unat sz else unat alignment)"
  "block_request av sz alignment = Inl e \<Longrightarrow> e = Bad_alloc"
  by (auto simp: block_request_def mem_allocate_def alignedAlloc_def split: if_splits)

text \<open>Claim C24. What an allocation gives and what it counts, for sizes below \<open>2 ^ 61\<close> and counters
  between \<open>- 2 ^ 62\<close> and \<open>2 ^ 62\<close>, where nothing overflows. A block with an alignment above eight has
  as many bytes as the alignment says, because size and alignment are passed to
  \<^verbatim>\<open>alignedAlloc\<close> in the wrong order; other blocks have the requested size. A refusal by the
  tracker leaves the operator's counter as it was; when the C library has no memory, the size
  stays counted although there is no block.\<close>

theorem allocate_behaviour:
  assumes "trackers_ok (Some tr)" "counters_small (Some tr)" "unat sz < 2 ^ 61"
    "Allocator_allocate av sz alignment (Some tr) = (res, t')"
  shows "trackers_ok t' \<and> (case res of
      Inr req \<Rightarrow> block_bytes req = (if alignment \<le> 8 then unat sz else unat alignment)
        \<and> counted t' = counted (Some tr) + int (unat sz)
    | Inl MemoryExceeded \<Rightarrow> counted t' = counted (Some tr)
    | Inl Bad_alloc \<Rightarrow> counted t' = counted (Some tr) + int (unat sz))"
proof -
  obtain ok u where a: "track_acquire sz (Some tr) = (ok, u)" by fastforce
  have "unat sz < 2 ^ 63" using assms(3) by simp
  then show ?thesis
    using assms(4) a track_acquire_spec [OF a assms(1)]
    by (auto simp: Allocator_allocate_def block_request_result(1)
        split: if_splits sum.splits alloc_error.splits dest: block_request_result(2))
qed

text \<open>Claim C25. Reallocation copies the size of the old block into the new one, past its end exactly
  when the new block is smaller, where a new block with an alignment above eight has only as many
  bytes as the alignment says; and when it fails, the old size is no longer counted although the old
  block is still allocated. Sizes are below \<open>2 ^ 61\<close> and counters between \<open>- 2 ^ 62\<close> and \<open>2 ^ 62\<close>.\<close>

theorem reallocate_behaviour:
  assumes "trackers_ok (Some tr)" "counters_small (Some tr)" "unat oldSize < 2 ^ 61" "unat newSize < 2 ^ 61"
    "Allocator_reallocate av oldSize newSize alignment (Some tr) = (res, t')"
  shows "case res of
      Inr (req, copied) \<Rightarrow> copied = unat oldSize
        \<and> block_bytes req = (if alignment \<le> 8 then unat newSize else unat alignment)
        \<and> (block_bytes req < copied \<longleftrightarrow> (if alignment \<le> 8 then newSize else alignment) < oldSize)
        \<and> counted t' = counted (Some tr) - int (unat oldSize) + int (unat newSize)
    | Inl MemoryExceeded \<Rightarrow> counted t' = counted (Some tr) - int (unat oldSize)
    | Inl Bad_alloc \<Rightarrow> counted t' = counted (Some tr) - int (unat oldSize) + int (unat newSize)"
proof -
  obtain ok u where a: "track_acquire newSize (track_release oldSize (Some tr)) = (ok, u)" by fastforce
  have s: "unat oldSize < 2 ^ 63" "unat newSize < 2 ^ 63" using assms(3,4) by simp_all
  note rel = track_release_spec [OF assms(1) s(1)]
  have "track_release oldSize (Some tr) \<noteq> None" by (simp add: track_release_def)
  then show ?thesis
    using assms(5) a rel track_acquire_spec [OF a _ s(2)]
    by (auto simp: Allocator_reallocate_def block_request_result(1) word_less_nat_alt
        split: if_splits sum.splits alloc_error.splits dest: block_request_result(2))
qed

text \<open>A size of at least \<open>2 ^ 63 + 4096\<close> reaches the tracker as a negative number: it is never refused,
  whatever the limits, and it lowers the operator's counter. (Between \<open>2 ^ 63\<close> and that size, the
  tracker's own subtraction overflows.)\<close>

theorem huge_size_not_counted:
  assumes "trackers_ok (Some tr)" "2 ^ 63 + 4096 \<le> unat sz"
  shows "\<exists>t'. track_acquire sz (Some tr) = (True, t') \<and> counted t' = counted (Some tr) - (2 ^ 64 - int (unat sz))"
proof -
  obtain opr q g where tr: "tr = (opr, q, g)" by (cases tr) auto
  have "2 ^ 63 \<le> unat sz" using assms(2) by simp
  note sz = sint_huge [OF this]
  have "int (unat sz) < int (2 ^ 64)"
    using unsigned_less [of sz, where ?'a = nat] by (simp only: of_nat_less_iff) simp
  then have "\<not> o_reservation opr - sint sz < 0"
    using assms(1) sz by (simp add: tr trackers_ok_def o_ok_def del: of_nat_unat)
  then show ?thesis
    using sz by (simp add: tr track_acquire_def op_acquire_def counted_def op_alloc_def Let_def del: of_nat_unat)
qed

definition sample_trackers :: trackers where
  "sample_trackers = (new_op, new_query 0 500000, new_usage Global 0 1000000)"

lemma sample_trackers_ok: "trackers_ok (Some sample_trackers)" "counters_small (Some sample_trackers)"
  using wrap64_id [of 565536] wrap64_id [of 1000000]
  by (simp_all add: trackers_ok_def counters_small_def small_counter_def sample_trackers_def new_op_def
      new_query_def new_usage_def o_ok_def q_ok_def g_ok_def UNLIMITED_def op_usage_zero_def)

theorem huge_size_not_counted_witness:
  "\<exists>t'. track_acquire (-1) (Some sample_trackers) = (True, t') \<and> counted t' = counted (Some sample_trackers) - 1"
  using huge_size_not_counted [OF sample_trackers_ok(1), of "-1"] by (simp add: unsigned_minus_1_eq_mask mask_eq_exp_minus_1)

theorem allocate_behaviour_witness:
  "case Allocator_allocate (\<lambda>_. True) 100 64 (Some sample_trackers) of (res, t') \<Rightarrow>
     (case res of
        Inr req \<Rightarrow> block_bytes req = 64 \<and> counted t' = counted (Some sample_trackers) + 100
      | Inl e \<Rightarrow> counted t' = counted (Some sample_trackers)
          \<or> counted t' = counted (Some sample_trackers) + 100)"
proof -
  obtain res t' where "Allocator_allocate (\<lambda>_. True) 100 64 (Some sample_trackers) = (res, t')" by fastforce
  then show ?thesis using allocate_behaviour [OF sample_trackers_ok, of 100 "\<lambda>_. True" 64 res t']
    by (auto split: sum.splits alloc_error.splits)
qed

theorem reallocate_behaviour_witness:
  "case Allocator_reallocate (\<lambda>_. True) 100 50 0 (Some sample_trackers) of (res, t') \<Rightarrow>
     (case res of
        Inr (req, copied) \<Rightarrow> (block_bytes req < copied) = ((50 :: uint64) < 100)
          \<and> counted t' = counted (Some sample_trackers) - 100 + 50
      | Inl e \<Rightarrow> counted t' = counted (Some sample_trackers) - 100
          \<or> counted t' = counted (Some sample_trackers) - 100 + 50)"
proof -
  obtain res t' where "Allocator_reallocate (\<lambda>_. True) 100 50 0 (Some sample_trackers) = (res, t')" by fastforce
  then show ?thesis using reallocate_behaviour [OF sample_trackers_ok, of 100 50 "\<lambda>_. True" 0 res t']
    by (auto split: sum.splits alloc_error.splits)
qed

end
