(* ===== verification/ErrorTable.thy ===== *)
theory ErrorTable
  imports Codec
begin

text \<open>
  The error classes and error codes of \<^verbatim>\<open>src/include/nebula/common/base/ErrorCode.h\<close>, as the header
  lists them: a class is two characters, a code adds three. An entry of the table is the
  subclass and the name of the enumerator.
\<close>

section \<open>Classes\<close>

datatype ErrorClass =
    SUCCESSFUL_COMPLETION | WARNING | NO_DATA
  | INFORMATIONAL | CONNECTION_EXCEPTION | DATA_EXCEPTION
  | INVALID_TRANSACTION_STATE | INVALID_TRANSACTION_TERMINATION | TRANSACTION_ROLLBACK
  | SYNTAX_ERROR_OR_ACCESS_RULE_VIOLATION | DEPENDENT_OBJECT_ERROR | GRAPH_TYPE_VIOLATION
  | RUNTIME_ERROR | SEMANTIC_ERROR | STORAGE_ERROR
  | CATALOG_ERROR | DATA_READ_WRITE_ERROR | INVALID_PARAMETER
  | GRAPH_COMPUTE_ERROR | PLUGIN_ERROR | SESSION_ERROR
  | OPTIMIZER_ERROR | AUTHENTICATE_ERROR | AUTHORIZE_ERROR
  | UNSUPPORTED | BACKUP_ERROR | METADATA_ERROR
  | RPC_ERROR | KVSTORE_ERROR | RAFT_ERROR
  | SYSTEM_ERROR | JOB_ERROR | LICENSE_ERROR
  | UNKNOWN | CLIENT_ERROR

fun class_text :: "ErrorClass \<Rightarrow> string" where
  "class_text SUCCESSFUL_COMPLETION = ''00''"
| "class_text WARNING = ''01''"
| "class_text NO_DATA = ''02''"
| "class_text INFORMATIONAL = ''03''"
| "class_text CONNECTION_EXCEPTION = ''08''"
| "class_text DATA_EXCEPTION = ''22''"
| "class_text INVALID_TRANSACTION_STATE = ''25''"
| "class_text INVALID_TRANSACTION_TERMINATION = ''2D''"
| "class_text TRANSACTION_ROLLBACK = ''40''"
| "class_text SYNTAX_ERROR_OR_ACCESS_RULE_VIOLATION = ''42''"
| "class_text DEPENDENT_OBJECT_ERROR = ''G1''"
| "class_text GRAPH_TYPE_VIOLATION = ''G2''"
| "class_text RUNTIME_ERROR = ''NR''"
| "class_text SEMANTIC_ERROR = ''NS''"
| "class_text STORAGE_ERROR = ''NO''"
| "class_text CATALOG_ERROR = ''NC''"
| "class_text DATA_READ_WRITE_ERROR = ''ND''"
| "class_text INVALID_PARAMETER = ''NI''"
| "class_text GRAPH_COMPUTE_ERROR = ''NG''"
| "class_text PLUGIN_ERROR = ''NP''"
| "class_text SESSION_ERROR = ''NE''"
| "class_text OPTIMIZER_ERROR = ''NZ''"
| "class_text AUTHENTICATE_ERROR = ''NH''"
| "class_text AUTHORIZE_ERROR = ''NB''"
| "class_text UNSUPPORTED = ''NT''"
| "class_text BACKUP_ERROR = ''NF''"
| "class_text METADATA_ERROR = ''NM''"
| "class_text RPC_ERROR = ''NN''"
| "class_text KVSTORE_ERROR = ''NK''"
| "class_text RAFT_ERROR = ''NA''"
| "class_text SYSTEM_ERROR = ''NY''"
| "class_text JOB_ERROR = ''NJ''"
| "class_text LICENSE_ERROR = ''NL''"
| "class_text UNKNOWN = ''NU''"
| "class_text CLIENT_ERROR = ''99''"

section \<open>Codes\<close>

definition codes_SUCCESSFUL_COMPLETION :: "(string \<times> string) list" where
  "codes_SUCCESSFUL_COMPLETION = [
     (''000'', ''SUCCESSFUL_COMPLETION''),
     (''001'', ''OMITTED_RESULT'')]"

definition codes_WARNING :: "(string \<times> string) list" where
  "codes_WARNING = [
     (''000'', ''WARNING''),
     (''004'', ''WARNING_STRING_DATA_RIGHT_TRUNCATION''),
     (''G03'', ''CATALOG_GRAPH_NOT_FOUND''),
     (''G04'', ''CATALOG_GRAPH_TYPE_NOT_FOUND''),
     (''G11'', ''NULL_VALUE_ELIMINATED_IN_SET_FUNCTION'')]"

definition codes_NO_DATA :: "(string \<times> string) list" where
  "codes_NO_DATA = [
     (''000'', ''NO_DATA'')]"

definition codes_INFORMATIONAL :: "(string \<times> string) list" where
  "codes_INFORMATIONAL = [
     (''000'', ''INFORMATIONAL'')]"

definition codes_CONNECTION_EXCEPTION :: "(string \<times> string) list" where
  "codes_CONNECTION_EXCEPTION = [
     (''000'', ''CONNECTION_EXCEPTION''),
     (''007'', ''TRANSACTION_RESOLUTION_UNKNOWN'')]"

definition codes_DATA_EXCEPTION :: "(string \<times> string) list" where
  "codes_DATA_EXCEPTION = [
     (''000'', ''DATA_EXCEPTION''),
     (''001'', ''DATA_STRING_DATA_RIGHT_TRUNCATION''),
     (''003'', ''NUMERIC_VALUE_OUT_OF_RANGE''),
     (''004'', ''NULL_VALUE_NOT_ALLOWED''),
     (''007'', ''INVALID_DATE_TIME_OR_DATETIME_FORMAT''),
     (''008'', ''DATETIME_FIELD_OVERFLOW''),
     (''009'', ''PARSE_TEMPORAL_FAIL''),
     (''011'', ''SUBSTRING_ERROR''),
     (''012'', ''DIVISION_BY_ZERO''),
     (''015'', ''INTERVAL_FIELD_OVERFLOW''),
     (''018'', ''INVALID_CHARACTER_VALUE_FOR_CAST''),
     (''01E'', ''INVALID_ARGUMENT_FOR_NATURAL_LOGARITHM''),
     (''01F'', ''INVALID_ARGUMENT_FOR_POWER_FUNCTION''),
     (''027'', ''TRIM_ERROR''),
     (''02F'', ''ARRAY_DATA_RIGHT_TRUNCATION''),
     (''G02'', ''NEGATIVE_LIMIT_VALUE''),
     (''G03'', ''INVALID_VALUE_TYPE''),
     (''G04'', ''VALUES_NOT_COMPARABLE''),
     (''G05'', ''INVALID_DATE_TIME_OR_DATETIME_FUNCTION_FIELD_NAME''),
     (''G06'', ''INVALID_DATETIME_FUNCTION_VALUE''),
     (''G07'', ''INVALID_DURATION_FUNCTION_FIELD_NAME''),
     (''G0B'', ''LIST_DATA_RIGHT_TRUNCATION''),
     (''G0C'', ''LIST_ELEMENT_ERROR''),
     (''G0F'', ''INVALID_NUMBER_OF_PATHS_OR_GROUPS''),
     (''G0H'', ''INVALID_DURATION_FORMAT''),
     (''G0M'', ''MULTIPLE_ASSIGNMENTS_TO_A_GRAPH_ELEMENT_PROPERTY''),
     (''G0N'', ''DATA_NUMBER_OF_NODE_LABELS_BELOW_SUPPORTED_MINIMUM''),
     (''G0P'', ''DATA_NUMBER_OF_NODE_LABELS_EXCEEDS_SUPPORTED_MAXIMUM''),
     (''G0Q'', ''DATA_NUMBER_OF_EDGE_LABELS_BELOW_SUPPORTED_MINIMUM''),
     (''G0R'', ''DATA_NUMBER_OF_EDGE_LABELS_EXCEEDS_SUPPORTED_MAXIMUM''),
     (''G0S'', ''DATA_NUMBER_OF_NODE_PROPERTIES_EXCEEDS_SUPPORTED_MAXIMUM''),
     (''G0T'', ''DATA_NUMBER_OF_EDGE_PROPERTIES_EXCEEDS_SUPPORTED_MAXIMUM''),
     (''G0U'', ''RECORD_FIELDS_DO_NOT_MATCH''),
     (''G0V'', ''REFERENCE_VALUE_INVALID_BASE_TYPE''),
     (''G0W'', ''REFERENCE_VALUE_INVALID_CONSTRAINED_TYPE''),
     (''G0X'', ''RECORD_DATA_FIELD_UNASSIGNABLE''),
     (''G0Y'', ''RECORD_DATA_FIELD_MISSING''),
     (''G0Z'', ''MALFORMED_PATH''),
     (''G10'', ''PATH_DATE_RIGHT_TRUNCATION''),
     (''G11'', ''REFERENCE_VALUE_REFERENT_DELETED''),
     (''G13'', ''INVALID_GROUP_VARIABLE_VALUE''),
     (''G14'', ''INCOMPATIBLE_TEMPORAL_INSTANT_UNIT_GROUPS''),
     (''G15'', ''INVALID_CAST''),
     (''G16'', ''TRIM_LIST_OUT_OF_RANGE'')]"

definition codes_INVALID_TRANSACTION_STATE :: "(string \<times> string) list" where
  "codes_INVALID_TRANSACTION_STATE = [
     (''000'', ''INVALID_TRANSACTION_STATE''),
     (''G01'', ''ACTIVE_GQL_TRANSACTION''),
     (''G02'', ''CATALOG_AND_DATA_STATEMENT_MIXING_NOT_SUPPORTED''),
     (''G03'', ''READ_ONLY_GQL_TRANSACTION''),
     (''G04'', ''ACCESSING_MULTIPLE_GRAPHS_NOT_SUPPORTED'')]"

definition codes_INVALID_TRANSACTION_TERMINATION :: "(string \<times> string) list" where
  "codes_INVALID_TRANSACTION_TERMINATION = [
     (''000'', ''INVALID_TRANSACTION_TERMINATION'')]"

definition codes_TRANSACTION_ROLLBACK :: "(string \<times> string) list" where
  "codes_TRANSACTION_ROLLBACK = [
     (''000'', ''TRANSACTION_ROLLBACK''),
     (''003'', ''STATEMENT_COMPLETION_UNKNOWN'')]"

definition codes_SYNTAX_ERROR_OR_ACCESS_RULE_VIOLATION :: "(string \<times> string) list" where
  "codes_SYNTAX_ERROR_OR_ACCESS_RULE_VIOLATION = [
     (''000'', ''SYNTAX_ERROR_OR_ACCESS_RULE_VIOLATION''),
     (''001'', ''INVALID_SYNTAX''),
     (''002'', ''INVALID_REFERENCE''),
     (''004'', ''USE_OF_VISUALLY_CONFUSABLE_IDENTIFIERS''),
     (''006'', ''SYNTAX_NUMBER_OF_EDGE_LABELS_BELOW_SUPPORTED_MINIMUM''),
     (''007'', ''SYNTAX_NUMBER_OF_EDGE_LABELS_EXCEEDS_SUPPORTED_MAXIMUM''),
     (''008'', ''SYNTAX_NUMBER_OF_EDGE_PROPERTIES_EXCEEDS_SUPPORTED_MAXIMUM''),
     (''009'', ''SYNTAX_NUMBER_OF_NODE_LABELS_BELOW_SUPPORTED_MINIMUM''),
     (''010'', ''SYNTAX_NUMBER_OF_NODE_LABELS_EXCEEDS_SUPPORTED_MAXIMUM''),
     (''011'', ''SYNTAX_NUMBER_OF_NODE_PROPERTIES_EXCEEDS_SUPPORTED_MAXIMUM''),
     (''012'', ''NUMBER_OF_NODE_TYPE_KEY_LABELS_BELOW_SUPPORTED_MINIMUM''),
     (''013'', ''NUMBER_OF_NODE_TYPE_KEY_LABELS_EXCEEDS_SUPPORTED_MAXIMUM''),
     (''014'', ''NUMBER_OF_EDGE_TYPE_KEY_LABELS_BELOW_SUPPORTED_MINIMUM''),
     (''015'', ''NUMBER_OF_EDGE_TYPE_KEY_LABELS_EXCEEDS_SUPPORTED_MAXIMUM''),
     (''N01'', ''EMPTY_STATEMENT''),
     (''N02'', ''INVALID_SYNTAX_MULTIPLE_PRIMARY_KEY''),
     (''N03'', ''INVALID_SYNTAX_PRIMARY_KEY_NOT_FOUND_IN_PROPS''),
     (''N04'', ''INVALID_SYNTAX_SRC_TYPE_OF_EDGE_NOT_SPECIFIED''),
     (''N05'', ''INVALID_SYNTAX_DST_TYPE_OF_EDGE_NOT_SPECIFIED''),
     (''N06'', ''INVALID_SYNTAX_UNKNOWN_ELEMENT_TYPE''),
     (''N07'', ''INVALID_SYNTAX_INDEX_TYPE_ALIAS_ILLEGAL''),
     (''N08'', ''INVALID_SYNTAX_DUPLICATE_PROPERTY''),
     (''N09'', ''INVALID_SYNTAX_NEST_QUERY_LAST_STATEMENT_ERROR''),
     (''N10'', ''INVALID_SYNTAX_NEST_QUERY_RESULT_STATEMENT_ERROR''),
     (''N11'', ''INVALID_SYNTAX_NEST_QUERY_COLUMN_SIZE_ERROR''),
     (''N12'', ''INVALID_SYNTAX_NEST_QUERY_RETURN_AGG_ERROR''),
     (''N13'', ''INVALID_SYNTAX_NEST_QUERY_RETURN_LIMIT_ERROR''),
     (''N14'', ''INVALID_SYNTAX_VAR_TYPE_CONFLICT''),
     (''N15'', ''INVALID_SYNTAX_EQUI_JOIN_ON_CONDITIONAL_VAR''),
     (''N16'', ''INVALID_SYNTAX_EQUI_JOIN_ON_GROUP_VAR''),
     (''N17'', ''INVALID_SYNTAX_VAR_TYPE_ERROR''),
     (''N18'', ''INVALID_SYNTAX_VAR_NOT_DEFINED''),
     (''N19'', ''INVALID_SYNTAX_INSERT_BOUND_NODE''),
     (''N20'', ''INVALID_SYNTAX_VAR_INVALID_NODE_TYPE''),
     (''N21'', ''INVALID_SYNTAX_VAR_REFER_MULTIPLE_NODE_TYPE''),
     (''N22'', ''INVALID_SYNTAX_REDEFINED_VAR''),
     (''N23'', ''INVALID_SYNTAX_CONFLICT_VAR_TYPE''),
     (''N24'', ''INVALID_SYNTAX_YIELD_ITEM_TYPE''),
     (''N25'', ''INVALID_SYNTAX_MULTIPLE_NODE_INSERT''),
     (''N26'', ''INVALID_SYNTAX_DUPLICATED_PROPERTY_NAME''),
     (''N27'', ''INVALID_SYNTAX_DUPLICATED_INDEX_PROPERTY''),
     (''N28'', ''INVALID_SYNTAX_CONFLICT_PROPERTY_VALUE_TYPE''),
     (''N29'', ''INVALID_SYNTAX_ALTER_ELEMENT_MULTI_TIME''),
     (''N30'', ''INVALID_SYNTAX_ADD_PRIMARY_KEY_OR_MULTI_EDGE_KEY''),
     (''N31'', ''INVALID_SYNTAX_ADD_INVALID_PROPERTY''),
     (''N32'', ''INVALID_SYNTAX_ELEMENT_TYPE_NAME_REDEFINE''),
     (''N33'', ''INVALID_SYNTAX_ILLEGAL_BYTE_STRING''),
     (''N34'', ''INVALID_SYNTAX_LABEL_EXPR_ELEMENT_TYPE_EXPR_COEXIST''),
     (''N35'', ''INVALID_IDENTIFIER''),
     (''N36'', ''INVALID_SYNTAX_FIELD_NUMBER_MISMATCH''),
     (''N37'', ''INVALID_SYNTAX_FIELD_NOT_FOUND'')]"

definition codes_DEPENDENT_OBJECT_ERROR :: "(string \<times> string) list" where
  "codes_DEPENDENT_OBJECT_ERROR = [
     (''000'', ''DEPENDENT_OBJECT_ERROR''),
     (''001'', ''EDGES_STILL_EXIST''),
     (''002'', ''ENDPOINT_NODE_IS_DELETED''),
     (''003'', ''ENDPOINT_NODE_NOT_IN_CURRENT_WORKING_GRAPH'')]"

definition codes_GRAPH_TYPE_VIOLATION :: "(string \<times> string) list" where
  "codes_GRAPH_TYPE_VIOLATION = [
     (''000'', ''GRAPH_TYPE_VIOLATION'')]"

definition codes_DATA_READ_WRITE_ERROR :: "(string \<times> string) list" where
  "codes_DATA_READ_WRITE_ERROR = [
     (''001'', ''PART_NOT_FOUND''),
     (''002'', ''NODE_ALREADY_EXIST''),
     (''003'', ''EDGE_ALREADY_EXIST''),
     (''004'', ''PROPERTY_NOT_FOUND''),
     (''005'', ''LEADER_CHANGED''),
     (''006'', ''BINDING_TABLE_WRITE_FAILED''),
     (''007'', ''BINDING_TABLE_NO_SPACE''),
     (''008'', ''PROPERTY_NOT_NULLABLE'')]"

definition codes_KVSTORE_ERROR :: "(string \<times> string) list" where
  "codes_KVSTORE_ERROR = [
     (''001'', ''KVSTORE_BATCH_WRITE_FAILED''),
     (''002'', ''KVSTORE_GET_PROPERTY_FAILED''),
     (''003'', ''KVSTORE_SET_PROPERTY_FAILED''),
     (''004'', ''KVSTORE_KEY_NOT_FOUND''),
     (''005'', ''KVSTORE_COMMIT_FAILED''),
     (''006'', ''KVSTORE_GET_FAILED''),
     (''007'', ''KVSTORE_PUT_FAILED''),
     (''008'', ''KVSTORE_REMOVE_FAILED''),
     (''009'', ''KVSTORE_INGEST_FAILED''),
     (''010'', ''KVSTORE_COMPACT_FAILED''),
     (''011'', ''KVSTORE_FLUSH_FAILED''),
     (''012'', ''KVSTORE_CHECKPOINT_FAILED''),
     (''013'', ''KVSTORE_COLUMN_FAMILY_NOT_FOUND''),
     (''014'', ''KVSTORE_OPEN_FAILED''),
     (''024'', ''KVSTORE_OPTIONS_INVALID''),
     (''025'', ''KVSTORE_LOCK_FAILED''),
     (''026'', ''KVSTORE_EXPORT_TABLE_FAILED''),
     (''027'', ''KVSTORE_OPEN_SST_FAILED'')]"

definition codes_CATALOG_ERROR :: "(string \<times> string) list" where
  "codes_CATALOG_ERROR = [
     (''001'', ''CATALOG_DIRECTORY_NOT_FOUND''),
     (''002'', ''CATALOG_SCHEMA_NOT_FOUND''),
     (''003'', ''CATALOG_NODE_TYPE_NOT_FOUND''),
     (''004'', ''CATALOG_EDGE_TYPE_NOT_FOUND''),
     (''005'', ''CATALOG_PRIMARY_KEY_NOT_FOUND''),
     (''006'', ''CATALOG_PROPERTY_NOT_FOUND''),
     (''007'', ''CATALOG_INDEX_NOT_FOUND''),
     (''008'', ''CATALOG_PRIMARY_KEY_PROPERTY_NOT_FOUND''),
     (''009'', ''CATALOG_ELEMENT_TYPE_FOR_INSERT_NOT_FOUND''),
     (''010'', ''CATALOG_EPOCH_ERROR''),
     (''011'', ''CATALOG_LABEL_NOT_FOUND''),
     (''101'', ''CATALOG_SCHEMA_ALREADY_EXISTS''),
     (''102'', ''CATALOG_EDGE_TYPE_ALREADY_EXIST''),
     (''103'', ''CATALOG_NODE_TYPE_ALREADY_EXIST''),
     (''104'', ''CATALOG_GRAPH_TYPE_ALREADY_EXIST''),
     (''105'', ''CATALOG_GRAPH_ALREADY_EXIST''),
     (''106'', ''CATALOG_PROPERTY_ALREADY_EXIST''),
     (''107'', ''CATALOG_NODE_INDEX_ALREADY_EXISTS''),
     (''108'', ''CATALOG_EDGE_INDEX_ALREADY_EXISTS''),
     (''109'', ''CATALOG_LABEL_ALREADY_EXIST''),
     (''201'', ''CATALOG_GRAPH_TYPE_MISMATCH''),
     (''202'', ''CATALOG_PRIMARY_KEY_NULLABLE''),
     (''203'', ''CATALOG_INDEX_PROPERTY_TYPE_NOT_SUPPORTED''),
     (''204'', ''CATALOG_PROPERTY_INVALID''),
     (''205'', ''CATALOG_NODE_TYPE_USED''),
     (''205'', ''CATALOG_INDEX_TYPE_NOT_SUPPORTED''),
     (''301'', ''CATALOG_CANCEL_JOB_FAILED''),
     (''302'', ''CATALOG_DDL_MANAGER_STOPPED''),
     (''303'', ''CATALOG_STATE_PERMISSION_DENIED''),
     (''304'', ''CATALOG_VERSION_RETIRED''),
     (''305'', ''CATALOG_DDL_TIMEOUT''),
     (''306'', ''CATALOG_DDL_ILLEGAL''),
     (''307'', ''CATALOG_REORG_FAILED''),
     (''308'', ''CATALOG_MAXIMUM_PENDING_DDL_EXCEEDED'')]"

definition codes_RPC_ERROR :: "(string \<times> string) list" where
  "codes_RPC_ERROR = [
     (''001'', ''RPC_FAILED''),
     (''002'', ''RPC_REQUEST_INVALID''),
     (''003'', ''RPC_REQUEST_HANDLER_NOT_FOUND''),
     (''004'', ''RPC_RETRY_FAILED''),
     (''005'', ''RPC_DESERIALIZE_ERROR''),
     (''006'', ''RPC_DESERIALIZE_OBJECT_TYPE_ERROR'')]"

definition codes_INVALID_PARAMETER :: "(string \<times> string) list" where
  "codes_INVALID_PARAMETER = [
     (''001'', ''META_CLUSTER_ALREADY_EXISTS''),
     (''002'', ''META_CLUSTER_NOT_FOUND''),
     (''101'', ''META_SERVICE_HOST_NOT_ADDED''),
     (''102'', ''META_SERVICE_REPORT_NOT_MATCH_ADDED''),
     (''103'', ''META_SERVICE_ALREADY_EXISTS''),
     (''104'', ''META_HOST_ALREADY_EXISTS''),
     (''105'', ''META_HOST_NOT_FOUND''),
     (''106'', ''META_AGENT_ALREADY_EXISTS''),
     (''201'', ''META_PART_CONFIG_INVALID''),
     (''301'', ''STORAGE_EXECUTOR_PARAMETER_INVALID''),
     (''302'', ''STORAGE_EXECUTOR_PARAMETER_TYPE_INVALID''),
     (''303'', ''STORAGE_EXECUTOR_PARAMETER_PRIMARY_KEY_INVALID''),
     (''401'', ''CONFIGURATION_INVALID''),
     (''402'', ''CONFIGURATION_ITEM_NOT_FOUND''),
     (''403'', ''CONFIGURATION_ITEM_TYPE_INVALID''),
     (''404'', ''CONFIGURATION_ITEM_RANGE_INVALID''),
     (''405'', ''CONFIGURATION_INFO_FILE_FORMAT_ILLEGAL''),
     (''406'', ''CONFIGURATION_INVALID_CONFIG_KEY''),
     (''407'', ''CONFIGURATION_INVALID_AUDIT_CATEGORY''),
     (''408'', ''CONFIGURATION_MISSING_CONFIG_KEY''),
     (''409'', ''CONFIGURATION_ILLEGAL_FORMAT'')]"

definition codes_JOB_ERROR :: "(string \<times> string) list" where
  "codes_JOB_ERROR = [
     (''001'', ''JOB_DESCRIPTION_INVALID'')]"

definition codes_GRAPH_COMPUTE_ERROR :: "(string \<times> string) list" where
  "codes_GRAPH_COMPUTE_ERROR = [
     (''000'', ''GRAPH_COMPUTE_ERROR'')]"

definition codes_PLUGIN_ERROR :: "(string \<times> string) list" where
  "codes_PLUGIN_ERROR = [
     (''000'', ''PLUGIN_ERROR''),
     (''001'', ''PLUGIN_INVALID_TYPE''),
     (''002'', ''PLUGIN_MULTIPLE_PLUGIN''),
     (''003'', ''PLUGIN_CONFIG_NOT_FOUND''),
     (''004'', ''PLUGIN_CONFIG_PARSE_ERROR''),
     (''005'', ''PLUGIN_INIT_ERROR''),
     (''006'', ''PLUGIN_DESTROY_ERROR''),
     (''007'', ''PLUGIN_UNSUPPORT_AUTH_TYPE''),
     (''101'', ''PROCEDURE_ERROR''),
     (''102'', ''PROCEDURE_INVALID_ARGUMENT''),
     (''103'', ''PROCEDURE_NOT_FOUND''),
     (''104'', ''PROCEDURE_NO_OUTPUT''),
     (''105'', ''PROCEDURE_NUM_ARGS_NOT_ENOUGH''),
     (''106'', ''PROCEDURE_NUM_ARGS_EXCEEDED''),
     (''107'', ''PROCEDURE_INVALID_ARGUMENT_TYPE''),
     (''108'', ''PROCEDURE_INVALID_ARGUMENT_ENCODE''),
     (''109'', ''PROCEDURE_YIELD_COLUMN_ERROR''),
     (''110'', ''PROCEDURE_UNKNOWN_YIELD_COLUMN''),
     (''201'', ''UDF_ERROR''),
     (''301'', ''MODULE_ERROR''),
     (''302'', ''MODULE_ALREADY_LOADED''),
     (''303'', ''MODULE_NOT_FOUND''),
     (''304'', ''MODULE_BEING_USED''),
     (''305'', ''MODULE_INVALID_PROC_NAME''),
     (''306'', ''MODULE_INVALID_FUNC_NAME''),
     (''307'', ''MODULE_INVALID_PLUGIN_NAME''),
     (''308'', ''MODULE_INVALID_PLUGIN_API_VERSION''),
     (''309'', ''MODULE_INVALID_NULL_PLUGIN''),
     (''310'', ''MODULE_DLOPEN_ERROR''),
     (''312'', ''MODULE_CANNOT_UNLOAD''),
     (''313'', ''MODULE_INVALID_REGISTER'')]"

definition codes_AUTHENTICATE_ERROR :: "(string \<times> string) list" where
  "codes_AUTHENTICATE_ERROR = [
     (''001'', ''AUTH_INVALID_PASSWORD''),
     (''002'', ''AUTH_USER_EXIST''),
     (''003'', ''AUTH_USER_NOT_EXIST''),
     (''004'', ''AUTH_USER_DISABLED''),
     (''005'', ''AUTH_USER_LOCKED''),
     (''006'', ''AUTH_INVALID_USERNAME''),
     (''007'', ''AUTH_INVALID_USERNAME_OR_PASSWORD''),
     (''008'', ''AUTH_CANNOT_DISABLE_SYSTEM_USER''),
     (''009'', ''AUTH_NEED_CHANGE_PASSWORD''),
     (''101'', ''AUTH_INVALID_AUTH_INFO''),
     (''201'', ''AUTH_INVALID_TOKEN''),
     (''301'', ''AUTH_INIT_ERROR'')]"

definition codes_AUTHORIZE_ERROR :: "(string \<times> string) list" where
  "codes_AUTHORIZE_ERROR = [
     (''000'', ''AUTHORIZE_ERROR''),
     (''001'', ''AUTHORIZE_INVALID_ROLENAME''),
     (''002'', ''AUTHORIZE_INVALID_OBJECT''),
     (''003'', ''AUTHORIZE_ROLE_EXIST''),
     (''004'', ''AUTHORIZE_ROLE_NOT_EXIST''),
     (''005'', ''AUTHORIZE_USER_NOT_EXIST''),
     (''006'', ''AUTHORIZE_USER_EXIST''),
     (''101'', ''AUTHORIZE_INSUFFICIENT_PRIVILEGE''),
     (''102'', ''AUTHORIZE_CONSTRAINT'')]"

definition codes_SESSION_ERROR :: "(string \<times> string) list" where
  "codes_SESSION_ERROR = [
     (''000'', ''SESSION_ERROR''),
     (''001'', ''CREATE_SESSION_FAILED''),
     (''002'', ''UNSUPPORTED_PROTOCOL_VERSION''),
     (''003'', ''SESSION_SET_ERROR'')]"

definition codes_METADATA_ERROR :: "(string \<times> string) list" where
  "codes_METADATA_ERROR = [
     (''001'', ''META_NOT_SUPPORTED''),
     (''002'', ''META_NOT_INIT''),
     (''003'', ''META_RESP_NOT_SET''),
     (''004'', ''META_GET_KV_FAILED''),
     (''005'', ''META_WRITE_KV_FAILED''),
     (''006'', ''META_SERVICE_NOT_FOUND''),
     (''007'', ''META_PART_ALREADY_EXIST''),
     (''008'', ''META_PART_NOT_FOUND''),
     (''009'', ''META_LOCATION_ALREADY_EXIST''),
     (''010'', ''META_LOCATION_NOT_FOUND''),
     (''011'', ''META_NOT_ENOUGH_LOCATION''),
     (''012'', ''META_PART_NUM_INVALID''),
     (''013'', ''META_PART_NO_ACTIVE_SERVICE''),
     (''014'', ''META_SERVICE_ID_ERROR''),
     (''015'', ''META_REPORT_ADDRESS_ERROR''),
     (''016'', ''META_GET_KV_PREFIX_FAILED''),
     (''017'', ''META_FAILED_CHECK_SERVICE''),
     (''018'', ''META_FAILED_CHECK_SERVICE_EXIST''),
     (''019'', ''META_SERVICE_STATIC_PORT_ALREADY_EXISTS''),
     (''020'', ''META_SERVICE_DYNAMIC_PORT_ALREADY_EXISTS''),
     (''021'', ''META_FAILED_ADD_SERVICE''),
     (''022'', ''META_PUT_SERVICE_ADDRESS_FAILED''),
     (''023'', ''META_LIST_SERVICE_FAILED''),
     (''024'', ''META_FETCH_SERVICE_KEY_FAILED''),
     (''025'', ''META_SERVICE_NOT_ADDED''),
     (''026'', ''META_SERVICE_IN_USE''),
     (''027'', ''META_SERVICE_NOT_IN_CLUSTER''),
     (''028'', ''META_PURGE_SERVICE_INFO_FAILED''),
     (''029'', ''META_PART_LEADER_NOT_ENOUGH''),
     (''030'', ''META_PART_NOT_ENOUGH''),
     (''031'', ''META_ACTIVE_SERVICE_NOT_ENOUGH''),
     (''032'', ''META_CANNOT_FIND_SERVICE''),
     (''033'', ''META_BALANCE_PART_RUNNING''),
     (''034'', ''META_BALANCE_LEADER_RUNNING''),
     (''035'', ''META_INSUFFICIENT_SERVICE''),
     (''036'', ''META_NO_PART''),
     (''037'', ''GET_META_CLIENT_FAILED''),
     (''038'', ''META_UNSUPPORTED_SERVICE''),
     (''039'', ''META_SERVICE_FAIL_TO_ALLOC_ID''),
     (''040'', ''META_DROP_CLUSTER_IS_NOT_EMPTY'')]"

definition codes_STORAGE_ERROR :: "(string \<times> string) list" where
  "codes_STORAGE_ERROR = [
     (''001'', ''STORAGE_CODEC_PROPERTY_NOT_NULLABLE''),
     (''002'', ''STORAGE_CODEC_PROPERTY_NOT_SET''),
     (''003'', ''STORAGE_CODEC_PROPERTY_NOT_FOUND''),
     (''004'', ''STORAGE_CODEC_PROPERTY_TYPE_NOT_MATCH''),
     (''005'', ''STORAGE_CODEC_PROPERTY_OUT_OF_RANGE''),
     (''006'', ''STORAGE_CODEC_PROPERTY_UNABLE_TO_ENCODE''),
     (''007'', ''STORAGE_CODEC_INDEX_ILLEGAL''),
     (''008'', ''STORAGE_CODEC_INDEX_PROPERTIES_ILLEGAL''),
     (''009'', ''STORAGE_CODEC_INDEX_PROPERTY_NOT_REQUIRED''),
     (''010'', ''STORAGE_CODEC_DECODE_FAILED''),
     (''011'', ''STORAGE_CODEC_PROPERTY_LIST_NEST_TYPE_NOT_FOUND''),
     (''012'', ''STORAGE_CODEC_INDEX_CORRUPTION_NO_TERMINATOR''),
     (''013'', ''STORAGE_CODEC_INDEX_PROPERTIES_ILLEGAL_PROPERTY_NOT_EXIST''),
     (''014'', ''STORAGE_CODEC_INDEX_ILLEGAL_NOT_RESERVED_PROPERTY''),
     (''015'', ''STORAGE_CODEC_WRITE_VECTOR_FAILED''),
     (''101'', ''GET_ALL_PART_FAILED''),
     (''102'', ''GET_PART_ROUTER_FAILED''),
     (''103'', ''GET_ALL_LEADER_FAILED'')]"

definition codes_RAFT_ERROR :: "(string \<times> string) list" where
  "codes_RAFT_ERROR = [
     (''001'', ''RAFT_INVALID_PEER''),
     (''002'', ''RAFT_RPC_EXCEPTION''),
     (''003'', ''RAFT_TIMEOUT''),
     (''004'', ''RAFT_CATCHUP''),
     (''005'', ''RAFT_LEADER_REMOVED''),
     (''006'', ''RAFT_SET_PEER''),
     (''007'', ''RAFT_NODE_STOP''),
     (''008'', ''RAFT_HIGHER_TERM_REQUEST''),
     (''009'', ''RAFT_HIGHER_TERM_RESPONSE''),
     (''010'', ''RAFT_BAD_NODE''),
     (''011'', ''RAFT_VOTE_FOR_CANDIDATE''),
     (''012'', ''RAFT_NEW_LEADER''),
     (''013'', ''RAFT_LEADER_CONFLICT''),
     (''014'', ''RAFT_TRANSFER_LEADER''),
     (''015'', ''RAFT_STOP''),
     (''016'', ''RAFT_BUSY''),
     (''017'', ''RAFT_INVALID''),
     (''018'', ''RAFT_FAILED'')]"

definition codes_DATA_EXCEPTION_2 :: "(string \<times> string) list" where
  "codes_DATA_EXCEPTION_2 = [
     (''N02'', ''EXPR_EVAL_FAILED'')]"

definition codes_RUNTIME_ERROR :: "(string \<times> string) list" where
  "codes_RUNTIME_ERROR = [
     (''000'', ''RUNTIME_ERROR''),
     (''001'', ''EXPR_ERROR''),
     (''002'', ''UNDEFINED_FUNCTION''),
     (''003'', ''INVALID_FUNCTION_ARGUMENT''),
     (''004'', ''INVALID_LOGICAL_EXPRESSION''),
     (''005'', ''EXPR_COMPILE_FAILED''),
     (''006'', ''RESOLVE_FUNCTION_FAILED''),
     (''007'', ''EXPR_TYPE_INFER_FAILED''),
     (''008'', ''INVALID_CAST_EXPR''),
     (''009'', ''INVALID_CONST_EXPR''),
     (''010'', ''INVALID_CONSTRUCT_PATH_EXPR_INPUT''),
     (''011'', ''INVALID_CASE_EXPR_WHEN_INPUT''),
     (''012'', ''INVALID_EXPRESSION_TYPE''),
     (''013'', ''INVALID_CONSTRUCT_LIST_EXPR_INPUT''),
     (''014'', ''INVALID_CASE_EXPR_THEN_INPUT''),
     (''015'', ''INVALID_CONSTRUCT_RECORD_EXPR_INPUT''),
     (''100'', ''DDL_FAILED''),
     (''104'', ''DROP_REFERENCED_GRAPH_TYPE''),
     (''108'', ''CATALOG_MIRROR_GRAPH_ALREADY_EXIST''),
     (''109'', ''CATALOG_MIRROR_GRAPH_NOT_FOUND''),
     (''110'', ''CATALOG_GRAPH_ALREADY_HAVE_MIRROR_GRAPH''),
     (''111'', ''CATALOG_GRAPH_DO_NOT_HAVE_MIRROR_GRAPH''),
     (''112'', ''CATALOG_MIRROR_GRAPH_NAME_CONFLICT''),
     (''113'', ''CATALOG_MIRROR_GRAPH_BASE_GRAPH_EMPTY''),
     (''114'', ''DISCRIMINATOR_NOT_FOUND_IN_PROPS''),
     (''117'', ''INVALID_SCHEMA_PATH''),
     (''202'', ''GET_NODE_ID_FAILED''),
     (''204'', ''SRC_NODE_NOT_EXISTED''),
     (''205'', ''DST_NODE_NOT_EXISTED''),
     (''206'', ''DML_NUM_OF_PROPERTY_NOT_MATCH''),
     (''208'', ''PRIMARY_KEY_CONSTRAINT_VIOLATION''),
     (''209'', ''EDGE_RANK_CONSTRAINT_VIOLATION''),
     (''210'', ''NODE_IS_MISSING''),
     (''211'', ''GET_NODE_ID_FROM_PRIMARY_KEY_FAILED''),
     (''212'', ''INSERT_INFER_MORE_THAN_ONE_TYPE''),
     (''213'', ''ENDPOINT_NODE_TYPES_MISMATCH''),
     (''214'', ''INSERT_PROPERTY_NOT_FOUND''),
     (''215'', ''NOT_IN_CURRENT_GRAPH''),
     (''232'', ''SET_INVALID_TYPE''),
     (''253'', ''INVALID_DELETE_TYPE''),
     (''301'', ''MEMORY_EXCEEDED''),
     (''302'', ''QUERY_CANCELED''),
     (''303'', ''BAD_PLAN_NODE_TYPE''),
     (''304'', ''SPLIT_PLAN_TO_STORAGE_FAILED''),
     (''401'', ''KILL_QUERY_FAILED''),
     (''402'', ''KILL_SESSION_FAILED''),
     (''403'', ''QUERY_ID_NOT_FOUND''),
     (''404'', ''MAX_EXECUTION_TIME_EXCEEDED''),
     (''405'', ''SESSION_NOT_FOUND''),
     (''406'', ''SESSION_IS_BUSY''),
     (''407'', ''CREATE_ROLE_FAILED''),
     (''408'', ''ALTER_ROLE_FAILED''),
     (''409'', ''DROP_ROLE_FAILED''),
     (''410'', ''ALTER_OWNER_FAILED''),
     (''411'', ''GRANT_ROLE_FAILED''),
     (''412'', ''REVOKE_ROLE_FAILED''),
     (''413'', ''GRANT_PRIVILEGE_FAILED''),
     (''414'', ''REVOKE_PRIVILEGE_FAILED'')]"

definition codes_SEMANTIC_ERROR :: "(string \<times> string) list" where
  "codes_SEMANTIC_ERROR = [
     (''000'', ''SEMANTIC_ERROR''),
     (''001'', ''UNDEFINED_VARIABLE''),
     (''002'', ''DUPLICATE_DEFINE_VARIABLE''),
     (''003'', ''UNDEFINED_PARAMETER''),
     (''004'', ''SEMANTIC_LINEAR_QUERY_COLUMN_SIZE_MISMATCH''),
     (''005'', ''SEMANTIC_FILTER_CLAUSE_MUST_BE_BOOL_TYPE''),
     (''006'', ''SEMANTIC_INVALID_EXPRESSION_TYPE''),
     (''007'', ''SEMANTIC_LINEAR_QUERY_COLUMN_NAME_MISMATCH''),
     (''008'', ''SEMANTIC_INCONSISTENT_VARIABLE_DEFINITION''),
     (''009'', ''SEMANTIC_GROUP_VARIABLE_REDEFINITION''),
     (''101'', ''SEMANTIC_NODE_PRIMARY_KEY_PROPERTY_NUM_MISMATCH''),
     (''102'', ''SEMANTIC_NODE_PRIMARY_KEY_PROPERTY_NOT_FOUND''),
     (''103'', ''SEMANTIC_GRAPH_PATTERN_QUANTIFIER_EXCEED_LOW_BOUND''),
     (''104'', ''SEMANTIC_GRAPH_PATTERN_QUANTIFIER_LOW_BOUND_EXCEED_UP_BOUND''),
     (''105'', ''SEMANTIC_INVALID_EDGE_PATTERN''),
     (''106'', ''SEMANTIC_RETURN_ALL_WITH_GROUPBY''),
     (''107'', ''SEMANTIC_RETURN_ALL_WITH_NO_VARS_IN_SCOPE''),
     (''108'', ''SEMANTIC_RETURN_ALL_WITH_EMPTY_GROUPBY''),
     (''109'', ''SEMANTIC_RETURN_DUPLICATE_COLUMN''),
     (''110'', ''SEMANTIC_INVALID_EDGE_PREDICATE''),
     (''111'', ''PATTERN_NOT_SUPPORTED''),
     (''201'', ''SEMANTIC_EMPTY_GROUPBY_MISMATCH''),
     (''202'', ''SEMANTIC_NO_AGG_FOUND_WITH_GROUPBY''),
     (''203'', ''SEMANTIC_GROUPBY_NO_BINDING''),
     (''204'', ''SEMANTIC_GROUPBY_CONTAIN_AGG_EXPR''),
     (''205'', ''SEMANTIC_GROUPBY_MISMATCH''),
     (''206'', ''SEMANTIC_IMPLICIT_AGG_IN_RETURN''),
     (''207'', ''SEMANTIC_VAR_PROP_SETITEM_ERROR''),
     (''208'', ''SEMANTIC_ASSIGN_EXPR_TYPE_ERROR''),
     (''209'', ''SEMANTIC_CURRENT_WORKING_GRAPH_NOT_FOUND''),
     (''210'', ''INVALID_LABEL_EXPR_INPUT''),
     (''211'', ''INVALID_TYPE_EXPR_INPUT''),
     (''212'', ''INVALID_OFFSET_EXPR_TYPE''),
     (''213'', ''INVALID_LIMIT_EXPR_TYPE''),
     (''214'', ''INVALID_NUM_OF_PATHS_EXPR_TYPE''),
     (''215'', ''INVALID_NUM_OF_GROUPS_EXPR_TYPE'')]"

definition codes_OPTIMIZER_ERROR :: "(string \<times> string) list" where
  "codes_OPTIMIZER_ERROR = [
     (''001'', ''PLAN_GENERATE_FAILED'')]"

definition codes_UNSUPPORTED :: "(string \<times> string) list" where
  "codes_UNSUPPORTED = [
     (''000'', ''UNSUPPORTED''),
     (''001'', ''UNSUPPORTED_INDEX_PROPERTY_TYPE''),
     (''002'', ''UNSUPPORTED_NODE_TYPE_WITHOUT_PRIMARY_KEY''),
     (''003'', ''UNSUPPORTED_GRAPH_TYPE_EXPR''),
     (''004'', ''UNSUPPORTED_GRAPH_TYPE_INITIALIZER''),
     (''005'', ''UNSUPPORTED_EDGE_DIRECTION''),
     (''101'', ''UNSUPPORTED_INSERT_EDGE_STATEMENT''),
     (''102'', ''UNSUPPORTED_INSERT_NODE_STATEMENT''),
     (''103'', ''UNSUPPORTED_DATE_MODIFY_STATEMENT''),
     (''104'', ''UNSUPPORTED_MULTIPLE_PATH_PATTERN''),
     (''105'', ''UNSUPPORTED_UPDATE_PRIMARY_KEY''),
     (''106'', ''UNSUPPORTED_SET_MULTIPLE_NODE_TYPE''),
     (''107'', ''UNSUPPORTED_SET_ALL_SET_LABEL''),
     (''108'', ''UNSUPPORTED_UPDATE_MULTIEDGE_KEY''),
     (''201'', ''UNSUPPORTED_AGGREGATION_EXPRESSION''),
     (''202'', ''UNSUPPORTED_AGGREGATION_EXPRESSION_NESTED''),
     (''203'', ''AGGREGATION_EXPRESSION_NOT_ALLOWED''),
     (''204'', ''UNDEFINED_AGG_FUNCTION''),
     (''205'', ''UNSUPPORTED_TRIM_NON_ASCII_CHAR''),
     (''206'', ''UNSUPPORTED_TYPE_GET_PROP''),
     (''301'', ''UNSUPPORTED_PATH_FACTOR''),
     (''401'', ''UNSUPPORTED_CHARSET''),
     (''402'', ''UNSUPPORTED_COLLATION''),
     (''403'', ''UNSUPPORTED_CHARSET_COLLATION_NOT_MATCH'')]"

definition codes_SYSTEM_ERROR :: "(string \<times> string) list" where
  "codes_SYSTEM_ERROR = [
     (''000'', ''SYSTEM_ERROR''),
     (''001'', ''NO_VALIDATOR''),
     (''002'', ''STATS_ERROR''),
     (''101'', ''FILE_ERROR''),
     (''102'', ''FILE_NOT_FOUND''),
     (''103'', ''FILE_IS_EMPTY''),
     (''104'', ''FILE_READ_PERMISSION''),
     (''105'', ''FILE_READ_LINK''),
     (''106'', ''FILE_READ_PATH''),
     (''107'', ''FILE_OPEN_DIR''),
     (''108'', ''FILE_OPEN_FILE''),
     (''109'', ''FILE_TYPE_NOT_SUPPORT''),
     (''110'', ''FILE_FILE_STATE''),
     (''111'', ''FILE_CREATE_DIR_FAILED''),
     (''112'', ''FILE_READ_SERVICE_ID_FILE_ERROR''),
     (''113'', ''FILE_PARSE_SERVICE_ID_FILE_ERROR''),
     (''114'', ''FILE_SAVE_SERVICE_ID_FILE_ERROR''),
     (''115'', ''FILE_REMOVE_DIR_FAILED''),
     (''201'', ''MEMORY_ERROR''),
     (''202'', ''MEMORY_CONFIG_ERROR''),
     (''203'', ''MEMORY_BACKGROUND_CHECK''),
     (''204'', ''MEMORY_SYSTEM_INFO''),
     (''205'', ''MEMORY_VECTOR_INVALID_SIZE''),
     (''301'', ''NETWORK_ERROR''),
     (''302'', ''NETWORK_CREATE_SOCKET''),
     (''303'', ''NETWORK_UNKNOWN_ADDR''),
     (''304'', ''NETWORK_BIND_FAILED''),
     (''305'', ''NETWORK_LISTEN_FAILED''),
     (''306'', ''NETWORK_NBIO_STOPPED''),
     (''307'', ''NETWORK_CONN_CLOSED''),
     (''308'', ''NETWORK_PROTOCAL''),
     (''309'', ''NETWORK_TIMEOUT''),
     (''310'', ''NETWORK_DISCONNECTED''),
     (''311'', ''NETWORK_ADDR_NOT_FOUND''),
     (''312'', ''NETWORK_INVALID_HOST'')]"

definition codes_LICENSE_ERROR :: "(string \<times> string) list" where
  "codes_LICENSE_ERROR = [
     (''001'', ''LICENSE_ENCRYPTION_ERROR''),
     (''101'', ''LICENSE_MANAGER_ERROR'')]"

definition codes_JOB_ERROR_2 :: "(string \<times> string) list" where
  "codes_JOB_ERROR_2 = [
     (''000'', ''JOB_ERROR''),
     (''001'', ''JOB_TYPE_UNKNOWN''),
     (''002'', ''JOB_NOT_FOUND''),
     (''003'', ''JOB_TASK_NOT_FOUND''),
     (''004'', ''JOB_CAN_NOT_RUN''),
     (''011'', ''TASK_NOT_FOUND_IN_STORAGE''),
     (''012'', ''TASK_STOPPED'')]"

definition codes_BACKUP_ERROR :: "(string \<times> string) list" where
  "codes_BACKUP_ERROR = [
     (''000'', ''BACKUP_ERROR''),
     (''001'', ''BACKUP_RECORD_EXISTS''),
     (''002'', ''BACKUP_RUNNING_JOBS''),
     (''003'', ''BACKUP_META_TABLE_EMPTY''),
     (''004'', ''BACKUP_LOST_PART''),
     (''005'', ''BACKUP_DUPLICATE_PART''),
     (''006'', ''BACKUP_RESTORE_INVALID_REQEUST''),
     (''007'', ''BACKUP_REMAP_PART_FAILED''),
     (''008'', ''BACKUP_RESTORE_TABLE_FAILED''),
     (''009'', ''BACKUP_DROP_NAME_EMPTY''),
     (''010'', ''BACKUP_DROP_NAME_NOT_EXIST'')]"

definition codes_UNKNOWN :: "(string \<times> string) list" where
  "codes_UNKNOWN = [
     (''000'', ''UNKNOWN'')]"

text \<open>The whole enumeration, by class.\<close>

definition ErrorCode_table :: "(ErrorClass \<times> (string \<times> string) list) list" where
  "ErrorCode_table = [
     (SUCCESSFUL_COMPLETION, codes_SUCCESSFUL_COMPLETION),
     (WARNING, codes_WARNING),
     (NO_DATA, codes_NO_DATA),
     (INFORMATIONAL, codes_INFORMATIONAL),
     (CONNECTION_EXCEPTION, codes_CONNECTION_EXCEPTION),
     (DATA_EXCEPTION, codes_DATA_EXCEPTION @ codes_DATA_EXCEPTION_2),
     (INVALID_TRANSACTION_STATE, codes_INVALID_TRANSACTION_STATE),
     (INVALID_TRANSACTION_TERMINATION, codes_INVALID_TRANSACTION_TERMINATION),
     (TRANSACTION_ROLLBACK, codes_TRANSACTION_ROLLBACK),
     (SYNTAX_ERROR_OR_ACCESS_RULE_VIOLATION, codes_SYNTAX_ERROR_OR_ACCESS_RULE_VIOLATION),
     (DEPENDENT_OBJECT_ERROR, codes_DEPENDENT_OBJECT_ERROR),
     (GRAPH_TYPE_VIOLATION, codes_GRAPH_TYPE_VIOLATION),
     (DATA_READ_WRITE_ERROR, codes_DATA_READ_WRITE_ERROR),
     (KVSTORE_ERROR, codes_KVSTORE_ERROR),
     (CATALOG_ERROR, codes_CATALOG_ERROR),
     (RPC_ERROR, codes_RPC_ERROR),
     (INVALID_PARAMETER, codes_INVALID_PARAMETER),
     (JOB_ERROR, codes_JOB_ERROR @ codes_JOB_ERROR_2),
     (GRAPH_COMPUTE_ERROR, codes_GRAPH_COMPUTE_ERROR),
     (PLUGIN_ERROR, codes_PLUGIN_ERROR),
     (AUTHENTICATE_ERROR, codes_AUTHENTICATE_ERROR),
     (AUTHORIZE_ERROR, codes_AUTHORIZE_ERROR),
     (SESSION_ERROR, codes_SESSION_ERROR),
     (METADATA_ERROR, codes_METADATA_ERROR),
     (STORAGE_ERROR, codes_STORAGE_ERROR),
     (RAFT_ERROR, codes_RAFT_ERROR),
     (RUNTIME_ERROR, codes_RUNTIME_ERROR),
     (SEMANTIC_ERROR, codes_SEMANTIC_ERROR),
     (OPTIMIZER_ERROR, codes_OPTIMIZER_ERROR),
     (UNSUPPORTED, codes_UNSUPPORTED),
     (SYSTEM_ERROR, codes_SYSTEM_ERROR),
     (LICENSE_ERROR, codes_LICENSE_ERROR),
     (BACKUP_ERROR, codes_BACKUP_ERROR),
     (UNKNOWN, codes_UNKNOWN)]"

lemmas codes_defs =
  codes_SUCCESSFUL_COMPLETION_def
  codes_WARNING_def
  codes_NO_DATA_def
  codes_INFORMATIONAL_def
  codes_CONNECTION_EXCEPTION_def
  codes_DATA_EXCEPTION_def
  codes_INVALID_TRANSACTION_STATE_def
  codes_INVALID_TRANSACTION_TERMINATION_def
  codes_TRANSACTION_ROLLBACK_def
  codes_SYNTAX_ERROR_OR_ACCESS_RULE_VIOLATION_def
  codes_DEPENDENT_OBJECT_ERROR_def
  codes_GRAPH_TYPE_VIOLATION_def
  codes_DATA_READ_WRITE_ERROR_def
  codes_KVSTORE_ERROR_def
  codes_CATALOG_ERROR_def
  codes_RPC_ERROR_def
  codes_INVALID_PARAMETER_def
  codes_JOB_ERROR_def
  codes_GRAPH_COMPUTE_ERROR_def
  codes_PLUGIN_ERROR_def
  codes_AUTHENTICATE_ERROR_def
  codes_AUTHORIZE_ERROR_def
  codes_SESSION_ERROR_def
  codes_METADATA_ERROR_def
  codes_STORAGE_ERROR_def
  codes_RAFT_ERROR_def
  codes_DATA_EXCEPTION_2_def
  codes_RUNTIME_ERROR_def
  codes_SEMANTIC_ERROR_def
  codes_OPTIMIZER_ERROR_def
  codes_UNSUPPORTED_def
  codes_SYSTEM_ERROR_def
  codes_LICENSE_ERROR_def
  codes_JOB_ERROR_2_def
  codes_BACKUP_ERROR_def
  codes_UNKNOWN_def

end
