(* ===== verification/ErrorCodes.thy ===== *)
theory ErrorCodes
  imports ErrorTable
begin

text \<open>
  \<^verbatim>\<open>ErrorCodeUtils\<close> of \<^verbatim>\<open>src/include/nebula/common/base/ErrorCode.h\<close>, which packs an error code into
  64 bits and unpacks it, classifies it, and \<^verbatim>\<open>Status\<close> of \<^verbatim>\<open>Status.h\<close>, which prints it. Characters
  are signed: a character above 127 is sign extended by the packing macros. The memory of a code is
  its bytes from the least significant one.
\<close>

unbundle bit_operations_syntax

section \<open>Packing\<close>

definition char_u32 :: "char \<Rightarrow> uint32" where
  "char_u32 c = scast (byte_of_char c)"

text \<open>The character at an index of \<^verbatim>\<open>data()\<close>: the terminating zero is readable, what follows is not.\<close>

definition data_at :: "string \<Rightarrow> nat \<Rightarrow> char option" where
  "data_at s i = (if i < length s then Some (s ! i) else if i = length s then Some (char_of (0 :: nat)) else None)"

definition CLASS :: "char \<Rightarrow> char \<Rightarrow> uint32" where
  "CLASS c0 c1 = push_bit 8 (char_u32 c1) OR char_u32 c0"

definition SUBCLASS :: "char \<Rightarrow> char \<Rightarrow> char \<Rightarrow> uint32" where
  "SUBCLASS c0 c1 c2 = (push_bit 16 (char_u32 c2) OR push_bit 8 (char_u32 c1)) OR char_u32 c0"

definition CODE :: "uint32 \<Rightarrow> uint32 \<Rightarrow> uint64" where
  "CODE cl sub = push_bit 16 (ucast sub) OR ucast cl"

definition parseFrom :: "string \<Rightarrow> uint64 option" where
  "parseFrom s = (case (data_at s 0, data_at s 1, data_at s 2, data_at s 3, data_at s 4) of
     (Some c0, Some c1, Some c2, Some c3, Some c4) \<Rightarrow> Some (CODE (CLASS c0 c1) (SUBCLASS c2 c3 c4))
   | _ \<Rightarrow> None)"

definition format_code :: "uint64 \<Rightarrow> string" where
  "format_code ec = map char_of_byte (take 5 (le_write 8 ec))"

text \<open>The value of an enumerator.\<close>

definition errorCode :: "ErrorClass \<Rightarrow> string \<Rightarrow> uint64" where
  "errorCode c sub = CODE (CLASS (class_text c ! 0) (class_text c ! 1)) (SUBCLASS (sub ! 0) (sub ! 1) (sub ! 2))"

definition code_ok :: "string \<Rightarrow> bool" where
  "code_ok e \<longleftrightarrow> e = format_code (errorCode SUCCESSFUL_COMPLETION ''000'')"

section \<open>Categories\<close>

datatype ErrorCategory = catS | catW | catN | catI | catX | catT | catU

definition exception_classes :: "ErrorClass list" where
  "exception_classes = [CONNECTION_EXCEPTION, DATA_EXCEPTION, INVALID_TRANSACTION_STATE,
     INVALID_TRANSACTION_TERMINATION, TRANSACTION_ROLLBACK, SYNTAX_ERROR_OR_ACCESS_RULE_VIOLATION,
     DEPENDENT_OBJECT_ERROR, GRAPH_TYPE_VIOLATION, RUNTIME_ERROR, SEMANTIC_ERROR, STORAGE_ERROR,
     CATALOG_ERROR, DATA_READ_WRITE_ERROR, INVALID_PARAMETER, GRAPH_COMPUTE_ERROR, PLUGIN_ERROR,
     SESSION_ERROR, OPTIMIZER_ERROR, AUTHENTICATE_ERROR, AUTHORIZE_ERROR, UNSUPPORTED]"

definition internal_classes :: "ErrorClass list" where
  "internal_classes = [METADATA_ERROR, RPC_ERROR, KVSTORE_ERROR, RAFT_ERROR, SYSTEM_ERROR, JOB_ERROR]"

definition class_value :: "ErrorClass \<Rightarrow> uint32" where
  "class_value c = CLASS (class_text c ! 0) (class_text c ! 1)"

definition getCategory :: "uint64 \<Rightarrow> ErrorCategory" where
  "getCategory ec = (let v = CLASS (format_code ec ! 0) (format_code ec ! 1) in
     if v = class_value SUCCESSFUL_COMPLETION then catS
     else if v = class_value WARNING then catW
     else if v = class_value NO_DATA then catN
     else if v = class_value INFORMATIONAL then catI
     else if v \<in> set (map class_value exception_classes) then catX
     else if v \<in> set (map class_value internal_classes) then catT
     else catU)"

definition isInternalError :: "uint64 \<Rightarrow> bool" where
  "isInternalError ec \<longleftrightarrow> getCategory ec = catT"

section \<open>Status\<close>

record Status =
  st_code :: uint64
  st_message :: string

definition Status_OK :: Status where
  "Status_OK = \<lparr>st_code = errorCode SUCCESSFUL_COMPLETION ''000'', st_message = []\<rparr>"

definition Status_ok :: "Status \<Rightarrow> bool" where
  "Status_ok s \<longleftrightarrow> st_code s = errorCode SUCCESSFUL_COMPLETION ''000''"

definition Status_from :: "string \<Rightarrow> string \<Rightarrow> Status option" where
  "Status_from codeStr m = map_option (\<lambda>c. \<lparr>st_code = c, st_message = m\<rparr>) (parseFrom codeStr)"

definition Status_toString :: "Status \<Rightarrow> string" where
  "Status_toString s =
     (if st_code s = errorCode SUCCESSFUL_COMPLETION ''000'' then ''00000''
      else let category = getCategory (st_code s); codeStr = format_code (st_code s) in
        if category = catT \<or> category = catU then ''['' @ codeStr @ '']: INTERNAL ERROR''
        else if st_message s = [] then ''['' @ codeStr @ '']: (No additional message.)''
        else ''['' @ codeStr @ '']: '' @ st_message s)"

definition Status_clear :: "Status \<Rightarrow> Status" where
  "Status_clear s = s\<lparr>st_code := errorCode SUCCESSFUL_COMPLETION ''000'', st_message := []\<rparr>"

definition Status_eq :: "Status \<Rightarrow> Status \<Rightarrow> bool" where
  "Status_eq l r \<longleftrightarrow> st_code l = st_code r \<and> st_message l = st_message r"

definition Status_less :: "Status \<Rightarrow> Status \<Rightarrow> bool" where
  "Status_less l r = (if st_code l < st_code r then True else if st_code l > st_code r then False
     else str_less (st_message l) (st_message r))"

interpretation status_order: comparison Status_less Status_eq
proof unfold_locales
  fix a b c :: Status
  show "Status_eq a b \<Longrightarrow> \<not> Status_less a b"
    using string_order.less_asym [of "st_message a" "st_message a"] by (auto simp: Status_eq_def Status_less_def)
  show "Status_less a b \<Longrightarrow> Status_less b c \<Longrightarrow> Status_less a c"
    using string_order.less_trans [of "st_message a" "st_message b" "st_message c"]
    by (auto simp: Status_less_def split: if_splits)
  show "\<not> Status_less a b \<Longrightarrow> \<not> Status_eq a b \<Longrightarrow> Status_less b a"
    using string_order.less_total [of "st_message a" "st_message b"]
    by (auto simp: Status_less_def Status_eq_def split: if_splits)
qed (auto simp: Status_eq_def)

section \<open>Bytes of a code\<close>

definition ascii :: "char \<Rightarrow> bool" where
  "ascii c \<longleftrightarrow> of_char c < (128 :: nat)"

lemma byte_of_char_bit: "bit (byte_of_char c) n \<longleftrightarrow> n < 8 \<and> bit (of_char c :: int) n"
  by (simp add: byte_of_char_def bit_word_of_int_iff)

lemma ascii_bit: "ascii c \<Longrightarrow> \<not> bit (byte_of_char c) 7"
proof -
  assume "ascii c"
  then have "(of_char c :: nat) div 2 ^ 7 = 0" by (simp add: ascii_def)
  then have "\<not> bit (of_char c :: nat) 7" by (simp add: bit_iff_odd)
  then have "\<not> bit (of_char c :: int) 7" by (metis bit_of_nat_iff_bit of_nat_of_char)
  then show ?thesis by (simp add: byte_of_char_bit)
qed

lemma char_u32_bit: "ascii c \<Longrightarrow> bit (char_u32 c) n \<longleftrightarrow> bit (byte_of_char c) n"
proof -
  assume "ascii c"
  moreover have "n = 7" if "7 \<le> n" "bit (byte_of_char c) n"
    using that byte_of_char_bit [of c n] by simp
  ultimately show ?thesis
    using ascii_bit [of c] by (auto simp: char_u32_def bit_signed_iff min_def)
qed

lemma bit_ascii_bound: "bit (byte_of_char c) n \<Longrightarrow> n < 8"
  by (simp add: byte_of_char_bit)

lemma CLASS_bit:
  "ascii c0 \<Longrightarrow> ascii c1 \<Longrightarrow> bit (CLASS c0 c1) n \<longleftrightarrow>
     (if n < 8 then bit (byte_of_char c0) n else bit (byte_of_char c1) (n - 8))"
  by (auto simp: CLASS_def bit_or_iff bit_push_bit_iff char_u32_bit dest: bit_ascii_bound)

lemma CODE_bytes:
  assumes "ascii c0" "ascii c1" "ascii c2" "ascii c3" "ascii c4"
  shows "CODE (CLASS c0 c1) (SUBCLASS c2 c3 c4) = le_word (map byte_of_char [c0, c1, c2, c3, c4])"
proof (rule bit_word_eqI)
  fix n assume "n < LENGTH(64)"
  then show "bit (CODE (CLASS c0 c1) (SUBCLASS c2 c3 c4)) n
      = bit (le_word (map byte_of_char [c0, c1, c2, c3, c4]) :: uint64) n"
    by (auto simp: CODE_def CLASS_def SUBCLASS_def bit_or_iff bit_push_bit_iff bit_ucast_iff
        char_u32_bit assms dest: bit_ascii_bound)
qed

lemma le_write_le_word:
  assumes "8 * length bs \<le> LENGTH('l::len)"
  shows "le_write (length bs) (le_word bs :: 'l word) = bs"
proof (rule nth_equalityI)
  fix i assume "i < length (le_write (length bs) (le_word bs :: 'l word))"
  then have i: "i < length bs" by simp
  have "bit (ucast (drop_bit (8 * i) (le_word bs :: 'l word)) :: byte) k = bit (bs ! i) k" if "k < 8" for k
    using that i assms by (auto simp: bit_ucast_iff bit_drop_bit_eq bit_le_word)
  then show "le_write (length bs) (le_word bs :: 'l word) ! i = bs ! i"
    using i by (intro bit_word_eqI) (simp add: le_write_def)
qed simp

lemma take_le_write: "k \<le> n \<Longrightarrow> take k (le_write n x) = le_write k x"
  by (simp add: le_write_def take_map)

lemma format_bytes:
  assumes "length s = 5"
  shows "format_code (le_word (map byte_of_char s)) = s"
proof -
  have "take 5 (le_write 8 (le_word (map byte_of_char s) :: uint64)) = map byte_of_char s"
    using le_write_le_word [of "map byte_of_char s", where 'l = 64] assms by (simp add: take_le_write)
  then show ?thesis by (simp add: format_code_def comp_def)
qed

lemma length5: "length s = 5 \<longleftrightarrow> (\<exists>a b c d e. s = [a, b, c, d, e])"
  by (auto simp: length_Suc_conv eval_nat_numeral)

lemma parse_bytes:
  assumes "length s = 5" "list_all ascii s"
  shows "parseFrom s = Some (le_word (map byte_of_char s))"
  using assms by (auto simp: length5 parseFrom_def data_at_def CODE_bytes)

lemma class_text_ascii:
  "length (class_text c) = 2 \<and> list_all ascii (class_text c)"
  by (cases c) (simp_all add: ascii_def)

lemma errorCode_bytes:
  assumes "length sub = 3" "list_all ascii sub"
  shows "errorCode c sub = le_word (map byte_of_char (class_text c @ sub))"
proof -
  obtain c0 c1 where c: "class_text c = [c0, c1]" "ascii c0" "ascii c1"
    using class_text_ascii [of c] by (auto simp: length_Suc_conv eval_nat_numeral)
  obtain s0 s1 s2 where s: "sub = [s0, s1, s2]" "ascii s0" "ascii s1" "ascii s2"
    using assms by (auto simp: length_Suc_conv eval_nat_numeral)
  show ?thesis using CODE_bytes c s by (simp add: errorCode_def)
qed

lemma format_errorCode:
  assumes "length sub = 3" "list_all ascii sub"
  shows "format_code (errorCode c sub) = class_text c @ sub"
  using errorCode_bytes [OF assms] format_bytes [of "class_text c @ sub"] class_text_ascii [of c] assms by simp

section \<open>Categories of the classes\<close>

text \<open>The category of every class, transcribed line by line from the enumeration: its standard classes,
  its section "exceptions", its section "internal errors", and its section of client errors, which
  belong to no category of the server.\<close>

primrec declared_category :: "ErrorClass \<Rightarrow> ErrorCategory" where
  "declared_category SUCCESSFUL_COMPLETION = catS"
| "declared_category WARNING = catW"
| "declared_category NO_DATA = catN"
| "declared_category INFORMATIONAL = catI"
| "declared_category CONNECTION_EXCEPTION = catX"
| "declared_category DATA_EXCEPTION = catX"
| "declared_category INVALID_TRANSACTION_STATE = catX"
| "declared_category INVALID_TRANSACTION_TERMINATION = catX"
| "declared_category TRANSACTION_ROLLBACK = catX"
| "declared_category SYNTAX_ERROR_OR_ACCESS_RULE_VIOLATION = catX"
| "declared_category DEPENDENT_OBJECT_ERROR = catX"
| "declared_category GRAPH_TYPE_VIOLATION = catX"
| "declared_category RUNTIME_ERROR = catX"
| "declared_category SEMANTIC_ERROR = catX"
| "declared_category STORAGE_ERROR = catX"
| "declared_category CATALOG_ERROR = catX"
| "declared_category DATA_READ_WRITE_ERROR = catX"
| "declared_category INVALID_PARAMETER = catX"
| "declared_category GRAPH_COMPUTE_ERROR = catX"
| "declared_category PLUGIN_ERROR = catX"
| "declared_category SESSION_ERROR = catX"
| "declared_category OPTIMIZER_ERROR = catX"
| "declared_category AUTHENTICATE_ERROR = catX"
| "declared_category AUTHORIZE_ERROR = catX"
| "declared_category UNSUPPORTED = catX"
| "declared_category BACKUP_ERROR = catX"
| "declared_category METADATA_ERROR = catT"
| "declared_category RPC_ERROR = catT"
| "declared_category KVSTORE_ERROR = catT"
| "declared_category RAFT_ERROR = catT"
| "declared_category SYSTEM_ERROR = catT"
| "declared_category JOB_ERROR = catT"
| "declared_category LICENSE_ERROR = catT"
| "declared_category UNKNOWN = catT"
| "declared_category CLIENT_ERROR = catU"

lemma class_values [simp]:
  "class_value SUCCESSFUL_COMPLETION = 12336"
  "class_value WARNING = 12592"
  "class_value NO_DATA = 12848"
  "class_value INFORMATIONAL = 13104"
  "class_value CONNECTION_EXCEPTION = 14384"
  "class_value DATA_EXCEPTION = 12850"
  "class_value INVALID_TRANSACTION_STATE = 13618"
  "class_value INVALID_TRANSACTION_TERMINATION = 17458"
  "class_value TRANSACTION_ROLLBACK = 12340"
  "class_value SYNTAX_ERROR_OR_ACCESS_RULE_VIOLATION = 12852"
  "class_value DEPENDENT_OBJECT_ERROR = 12615"
  "class_value GRAPH_TYPE_VIOLATION = 12871"
  "class_value RUNTIME_ERROR = 21070"
  "class_value SEMANTIC_ERROR = 21326"
  "class_value STORAGE_ERROR = 20302"
  "class_value CATALOG_ERROR = 17230"
  "class_value DATA_READ_WRITE_ERROR = 17486"
  "class_value INVALID_PARAMETER = 18766"
  "class_value GRAPH_COMPUTE_ERROR = 18254"
  "class_value PLUGIN_ERROR = 20558"
  "class_value SESSION_ERROR = 17742"
  "class_value OPTIMIZER_ERROR = 23118"
  "class_value AUTHENTICATE_ERROR = 18510"
  "class_value AUTHORIZE_ERROR = 16974"
  "class_value UNSUPPORTED = 21582"
  "class_value BACKUP_ERROR = 17998"
  "class_value METADATA_ERROR = 19790"
  "class_value RPC_ERROR = 20046"
  "class_value KVSTORE_ERROR = 19278"
  "class_value RAFT_ERROR = 16718"
  "class_value SYSTEM_ERROR = 22862"
  "class_value JOB_ERROR = 19022"
  "class_value LICENSE_ERROR = 19534"
  "class_value UNKNOWN = 21838"
  "class_value CLIENT_ERROR = 14649"
  by code_simp+

lemma getCategory_class:
  assumes "length sub = 3" "list_all ascii sub"
  shows "getCategory (errorCode c sub) =
    (if c \<in> {BACKUP_ERROR, LICENSE_ERROR, UNKNOWN} then catU else declared_category c)"
proof -
  obtain c0 c1 where c: "class_text c = [c0, c1]"
    using class_text_ascii [of c] by (auto simp: length_Suc_conv eval_nat_numeral)
  have v: "CLASS (format_code (errorCode c sub) ! 0) (format_code (errorCode c sub) ! 1) = class_value c"
    unfolding format_errorCode [OF assms] class_value_def c by simp
  show ?thesis unfolding getCategory_def v Let_def
    by (cases c) (simp_all add: exception_classes_def internal_classes_def)
qed

section \<open>Distinct codes\<close>

definition error_texts :: "(ErrorClass \<times> (string \<times> string) list) list \<Rightarrow> string list" where
  "error_texts T = concat (map (\<lambda>(c, l). map (\<lambda>e. class_text c @ fst e) l) T)"

lemma distinct_groups:
  assumes "distinct (map (\<lambda>p. class_text (fst p)) T)" "list_all (\<lambda>p. distinct (map fst (snd p))) T"
  shows "distinct (error_texts T)"
  using assms
proof (induction T)
  case (Cons p T)
  obtain c l where p: "p = (c, l)" by fastforce
  have "take 2 x = class_text c" if "x \<in> set (map (\<lambda>e. class_text c @ fst e) l)" for x
    using that class_text_ascii [of c] by auto
  moreover have "take 2 x \<in> (\<lambda>p. class_text (fst p)) ` set T" if x: "x \<in> set (error_texts T)" for x
  proof -
    obtain d str where "d \<in> fst ` set T" "x = class_text d @ str"
      using x by (force simp: error_texts_def)
    then show ?thesis using class_text_ascii [of d] by force
  qed
  moreover have "class_text c \<notin> (\<lambda>p. class_text (fst p)) ` set T" using Cons.prems(1) p by simp
  ultimately have "set (map (\<lambda>e. class_text c @ fst e) l) \<inter> set (error_texts T) = {}"
    unfolding disjoint_iff by metis
  moreover have "distinct (map (\<lambda>e. class_text c @ fst e) l)"
    using Cons.prems(2) p by (auto simp: distinct_map inj_on_def)
  moreover have "error_texts (p # T) = map (\<lambda>e. class_text c @ fst e) l @ error_texts T"
    by (simp add: error_texts_def p)
  moreover have "distinct (error_texts T)" using Cons by simp
  ultimately show ?case by (simp only: distinct_append)
qed (simp add: error_texts_def)

definition codes_of :: "(ErrorClass \<times> (string \<times> string) list) list \<Rightarrow> uint64 list" where
  "codes_of T = concat (map (\<lambda>(c, l). map (\<lambda>e. errorCode c (fst e)) l) T)"

definition drop_names :: "string list \<Rightarrow> (ErrorClass \<times> (string \<times> string) list) list
    \<Rightarrow> (ErrorClass \<times> (string \<times> string) list) list" where
  "drop_names ns T = map (\<lambda>(c, l). (c, filter (\<lambda>e. snd e \<notin> set ns) l)) T"

definition well_formed :: "(ErrorClass \<times> (string \<times> string) list) list \<Rightarrow> bool" where
  "well_formed T \<longleftrightarrow> list_all (\<lambda>p. list_all (\<lambda>e. length (fst e) = 3 \<and> list_all ascii (fst e)) (snd p)) T"

lemma format_codes: "well_formed T \<Longrightarrow> map format_code (codes_of T) = error_texts T"
  by (induction T) (auto simp: well_formed_def codes_of_def error_texts_def format_errorCode list_all_iff)

lemma table_well_formed: "well_formed ErrorCode_table"
  by code_simp

lemma drop_names_well_formed: "well_formed T \<Longrightarrow> well_formed (drop_names ns T)"
  by (fastforce simp: well_formed_def drop_names_def list_all_iff)

definition repeated_names :: "string list" where
  "repeated_names = [''CATALOG_INDEX_TYPE_NOT_SUPPORTED'', ''JOB_TYPE_UNKNOWN'']"

lemma table_classes: "distinct (map (\<lambda>p. class_text (fst p)) (drop_names repeated_names ErrorCode_table))"
  by code_simp

lemma table_subclasses:
  "list_all (\<lambda>p. distinct (map fst (snd p))) (drop_names repeated_names ErrorCode_table)"
  by code_simp

section \<open>Properties\<close>

text \<open>Claim C26. The enumerators have different codes, with two exceptions: \<^verbatim>\<open>CATALOG_NODE_TYPE_USED\<close>
  and \<^verbatim>\<open>CATALOG_INDEX_TYPE_NOT_SUPPORTED\<close> are both NC205, \<^verbatim>\<open>JOB_DESCRIPTION_INVALID\<close> and
  \<^verbatim>\<open>JOB_TYPE_UNKNOWN\<close> are both NJ001.\<close>

theorem error_code_collisions:
  "distinct (codes_of (drop_names [''CATALOG_INDEX_TYPE_NOT_SUPPORTED'', ''JOB_TYPE_UNKNOWN''] ErrorCode_table))
   \<and> map fst (filter (\<lambda>e. snd e = ''CATALOG_NODE_TYPE_USED'' \<or> snd e = ''CATALOG_INDEX_TYPE_NOT_SUPPORTED'')
       codes_CATALOG_ERROR) = [''205'', ''205'']
   \<and> map fst (filter (\<lambda>e. snd e = ''JOB_DESCRIPTION_INVALID'' \<or> snd e = ''JOB_TYPE_UNKNOWN'')
       (codes_JOB_ERROR @ codes_JOB_ERROR_2)) = [''001'', ''001'']"
proof (intro conjI)
  let ?T = "drop_names repeated_names ErrorCode_table"
  have "distinct (map format_code (codes_of ?T))"
    unfolding format_codes [OF drop_names_well_formed [OF table_well_formed]]
    by (rule distinct_groups [OF table_classes table_subclasses])
  then show "distinct (codes_of (drop_names [''CATALOG_INDEX_TYPE_NOT_SUPPORTED'', ''JOB_TYPE_UNKNOWN''] ErrorCode_table))"
    unfolding repeated_names_def by (simp only: distinct_map)
qed (code_simp, code_simp)

text \<open>Packing and printing a code are inverse on five ASCII characters, so that an error
  code survives its text form.\<close>

theorem code_text_roundtrip:
  assumes "length s = 5" "list_all ascii s"
  shows "\<exists>c. parseFrom s = Some c \<and> format_code c = s"
  using parse_bytes [OF assms] format_bytes [OF assms(1)] by blast

theorem code_text_roundtrip_witness:
  "\<exists>c. parseFrom ''NR001'' = Some c \<and> format_code c = ''NR001''"
  by (rule code_text_roundtrip) (simp_all add: ascii_def)

text \<open>\<^verbatim>\<open>getCategory\<close> gives every class the category of its section in the enumeration, except
  backup errors, listed with the exceptions, license errors and \<^verbatim>\<open>UNKNOWN\<close>, listed with the
  internal errors: these three fall through to the category unknown.\<close>

theorem category_of_class:
  assumes "length sub = 3" "list_all ascii sub"
  shows "getCategory (errorCode c sub) =
    (if c \<in> {BACKUP_ERROR, LICENSE_ERROR, UNKNOWN} then catU else declared_category c)"
  by (rule getCategory_class [OF assms])

theorem category_of_class_witness:
  "getCategory (errorCode BACKUP_ERROR ''001'') = catU \<and> getCategory (errorCode RPC_ERROR ''001'') = catT"
  using category_of_class [of "''001''" BACKUP_ERROR] category_of_class [of "''001''" RPC_ERROR]
  by (simp add: ascii_def)



end
