(* ===== verification/ModuleRef.thy ===== *)
theory ModuleRef
  imports Prelude
begin

text \<open>
  Reference counting of loaded modules, \<^verbatim>\<open>src/include/nebula/common/module/Module.h\<close>. A \<^verbatim>\<open>Holder\<close> is a
  variable that points to a procedure, function or plugin of a module or is null; its constructors,
  assignments and destructor count the references of the module. The model keeps the counter of
  every module and the live holders by their variable. A \<^verbatim>\<open>size_t\<close> counter that is decremented
  below zero would wrap; the invariant shows that it is never decremented to zero.
\<close>

section \<open>State\<close>

text \<open>A target is the module it belongs to and its name in it.\<close>

type_synonym target = "nat \<times> string"

record modules =
  refcnt :: "nat \<Rightarrow> int"
  holders :: "nat \<rightharpoonup> target option"

definition mod_ref :: "nat \<Rightarrow> modules \<Rightarrow> modules" where
  "mod_ref m s = s\<lparr>refcnt := (refcnt s)(m := refcnt s m + 1)\<rparr>"

definition mod_unref :: "nat \<Rightarrow> modules \<Rightarrow> modules" where
  "mod_unref m s = s\<lparr>refcnt := (refcnt s)(m := refcnt s m - 1)\<rparr>"

definition ref_target :: "target option \<Rightarrow> modules \<Rightarrow> modules" where
  "ref_target t s = (case t of None \<Rightarrow> s | Some p \<Rightarrow> mod_ref (fst p) s)"

definition unref_target :: "target option \<Rightarrow> modules \<Rightarrow> modules" where
  "unref_target t s = (case t of None \<Rightarrow> s | Some p \<Rightarrow> mod_unref (fst p) s)"

definition set_holder :: "nat \<Rightarrow> target option \<Rightarrow> modules \<Rightarrow> modules" where
  "set_holder h t s = s\<lparr>holders := (holders s)(h \<mapsto> t)\<rparr>"

section \<open>Operations of a holder\<close>

definition Holder_new :: "nat \<Rightarrow> target option \<Rightarrow> modules \<Rightarrow> modules" where
  "Holder_new h t s = ref_target t (set_holder h t s)"

definition Holder_destroy :: "nat \<Rightarrow> target option \<Rightarrow> modules \<Rightarrow> modules" where
  "Holder_destroy h t s = (unref_target t s)\<lparr>holders := (holders s)(h := None)\<rparr>"

definition Holder_move_new :: "nat \<Rightarrow> nat \<Rightarrow> target option \<Rightarrow> modules \<Rightarrow> modules" where
  "Holder_move_new h rhs t s = set_holder rhs None (set_holder h t s)"

definition Holder_move_assign :: "nat \<Rightarrow> nat \<Rightarrow> target option \<Rightarrow> target option \<Rightarrow> modules \<Rightarrow> modules" where
  "Holder_move_assign h rhs old t s =
     (if h \<noteq> rhs then set_holder rhs None (set_holder h t (unref_target old s)) else s)"

definition Holder_copy_new :: "nat \<Rightarrow> target option \<Rightarrow> modules \<Rightarrow> modules" where
  "Holder_copy_new h t s = ref_target t (set_holder h t s)"

definition Holder_copy_assign :: "nat \<Rightarrow> nat \<Rightarrow> target option \<Rightarrow> target option \<Rightarrow> modules \<Rightarrow> modules" where
  "Holder_copy_assign h rhs old t s =
     (if h \<noteq> rhs then ref_target t (set_holder h t (unref_target old s)) else s)"

definition Holder_reset :: "nat \<Rightarrow> target option \<Rightarrow> modules \<Rightarrow> modules" where
  "Holder_reset h t s = set_holder h None (unref_target t s)"

text \<open>A program creates, copies, moves, resets and destroys holders in any order.\<close>

inductive holder_step :: "modules \<Rightarrow> modules \<Rightarrow> bool" where
  create: "holders s h = None \<Longrightarrow> holder_step s (Holder_new h t s)"
| destroy: "holders s h = Some t \<Longrightarrow> holder_step s (Holder_destroy h t s)"
| move_new: "holders s h = None \<Longrightarrow> holders s r = Some t \<Longrightarrow> holder_step s (Holder_move_new h r t s)"
| move_assign: "holders s h = Some old \<Longrightarrow> holders s r = Some t \<Longrightarrow>
     holder_step s (Holder_move_assign h r old t s)"
| copy_new: "holders s h = None \<Longrightarrow> holders s r = Some t \<Longrightarrow> holder_step s (Holder_copy_new h t s)"
| copy_assign: "holders s h = Some old \<Longrightarrow> holders s r = Some t \<Longrightarrow>
     holder_step s (Holder_copy_assign h r old t s)"
| reset: "holders s h = Some t \<Longrightarrow> holder_step s (Holder_reset h t s)"

definition modules_init :: modules where
  "modules_init = \<lparr>refcnt = (\<lambda>_. 1), holders = Map.empty\<rparr>"

section \<open>The invariant\<close>

definition pointing :: "nat \<Rightarrow> (nat \<rightharpoonup> target option) \<Rightarrow> nat set" where
  "pointing m hs = {h. \<exists>p. hs h = Some (Some p) \<and> fst p = m}"

definition counts :: "modules \<Rightarrow> bool" where
  "counts s \<longleftrightarrow> finite (dom (holders s)) \<and> (\<forall>m. refcnt s m = 1 + int (card (pointing m (holders s))))"

definition points :: "nat \<Rightarrow> target option \<Rightarrow> int" where
  "points m t = (case t of None \<Rightarrow> 0 | Some p \<Rightarrow> if fst p = m then 1 else 0)"

lemma finite_pointing: "finite (dom hs) \<Longrightarrow> finite (pointing m hs)"
  by (rule finite_subset [of _ "dom hs"]) (auto simp: pointing_def)

lemma card_pointing_update:
  assumes "finite (dom hs)"
  shows "int (card (pointing m (hs(h := v)))) = int (card (pointing m hs))
    - (case hs h of None \<Rightarrow> 0 | Some t \<Rightarrow> points m t) + (case v of None \<Rightarrow> 0 | Some t \<Rightarrow> points m t)"
proof -
  define R where "R = pointing m hs - {h}"
  let ?in = "\<lambda>w. (case w of None \<Rightarrow> False | Some t \<Rightarrow> points m t = 1)"
  have R: "finite R" "h \<notin> R" using finite_pointing [OF assms] by (simp_all add: R_def)
  have "pointing m (hs(h := w)) = (if ?in w then insert h R else R)" for w
    by (auto simp: pointing_def points_def R_def split: option.splits if_splits)
  then have "int (card (pointing m (hs(h := w))))
      = int (card R) + (case w of None \<Rightarrow> 0 | Some t \<Rightarrow> points m t)" for w
    using R by (auto simp: points_def split: option.splits if_splits)
  from this [of v] this [of "hs h"] show ?thesis by simp
qed

lemma target_simps [simp]:
  "refcnt (ref_target t s) m = refcnt s m + points m t" "holders (ref_target t s) = holders s"
  "refcnt (unref_target t s) m = refcnt s m - points m t" "holders (unref_target t s) = holders s"
  "refcnt (set_holder h t s) = refcnt s" "holders (set_holder h t s) = (holders s)(h \<mapsto> t)"
  by (auto simp: ref_target_def unref_target_def set_holder_def mod_ref_def mod_unref_def points_def
      split: option.splits)

lemma points_None [simp]: "points m None = 0"
  by (simp add: points_def)

lemmas holder_defs = Holder_new_def Holder_destroy_def Holder_move_new_def Holder_move_assign_def
  Holder_copy_new_def Holder_copy_assign_def Holder_reset_def

lemma step_counts: "holder_step s s' \<Longrightarrow> counts s \<Longrightarrow> counts s'"
  by (induction rule: holder_step.induct)
    (auto simp: counts_def holder_defs card_pointing_update)

lemma reachable_counts: "holder_step\<^sup>*\<^sup>* modules_init s \<Longrightarrow> counts s"
proof (induction rule: rtranclp_induct)
  case base
  show ?case by (simp add: counts_def modules_init_def pointing_def)
qed (rule step_counts)

section \<open>Properties\<close>

text \<open>Claim C12. Whatever a program does with its holders, the reference count of a module is one more
  than the number of holders that point into it; so a count of one, at which a module may be
  unloaded, means that no holder points into it.\<close>

theorem module_refcount:
  assumes "holder_step\<^sup>*\<^sup>* modules_init s"
  shows "refcnt s m = 1 + int (card (pointing m (holders s)))
    \<and> (refcnt s m = 1 \<longleftrightarrow> (\<forall>h p. holders s h = Some (Some p) \<longrightarrow> fst p \<noteq> m))"
proof -
  have c: "counts s" by (rule reachable_counts [OF assms])
  then have "finite (pointing m (holders s))" by (simp add: counts_def finite_pointing)
  then have "card (pointing m (holders s)) = 0 \<longleftrightarrow> pointing m (holders s) = {}" by simp
  then show ?thesis using c by (auto simp: counts_def pointing_def)
qed

theorem module_refcount_witness:
  "refcnt (Holder_new 1 (Some (7, ''network_topo'')) modules_init) 7
     = 1 + int (card (pointing 7 (holders (Holder_new 1 (Some (7, ''network_topo'')) modules_init))))"
proof -
  have "holder_step\<^sup>*\<^sup>* modules_init (Holder_new 1 (Some (7, ''network_topo'')) modules_init)"
    using create [of modules_init 1 "Some (7, ''network_topo'')"] by (simp add: modules_init_def)
  then show ?thesis using module_refcount by blast
qed

end
