(* ===== verification/ThreadPool.thy ===== *)
theory ThreadPool
  imports Prelude "HOL-Library.Multiset"
begin

text \<open>
  The thread pool of \<^verbatim>\<open>src/include/nebula/common/thread\<close>: \<^verbatim>\<open>GenericThreadPool.h\<close> hands tasks to its
  workers in turn and packs the number of the worker into the ids of timers; \<^verbatim>\<open>GenericWorker.h\<close>
  queues them. The event loop that takes tasks from the queues is in the binary library. A pool without
  threads is the value \<open>None\<close>. A call on the pool is two atomic actions, the increment of
  \<^verbatim>\<open>nextThread_\<close> and the body under the lock of the worker, and the calls of several threads interleave
  between them: the step relation \<open>pool_step\<close>.
\<close>

unbundle bit_operations_syntax

section \<open>Workers\<close>

record 't timer =
  timer_id :: uint64
  delayMSec :: uint64
  intervalMSec :: uint64
  callback :: 't

record 't worker =
  nextTimer :: uint64
  pendingTasks :: "'t list"
  pendingTimers :: "'t timer list"

definition worker_new :: "'t worker" where
  "worker_new = \<lparr>nextTimer = 0, pendingTasks = [], pendingTimers = []\<rparr>"

definition TIMER_ID_BITS :: nat where "TIMER_ID_BITS = 6 * 8"

definition TIMER_ID_MASK :: uint64 where
  "TIMER_ID_MASK = drop_bit (64 - TIMER_ID_BITS) (NOT 0)"

definition nextTimerId :: "'t worker \<Rightarrow> uint64 \<times> 't worker" where
  "nextTimerId w = (nextTimer w AND TIMER_ID_MASK, w\<lparr>nextTimer := nextTimer w + 1\<rparr>)"

definition worker_addTask :: "'t \<Rightarrow> 't worker \<Rightarrow> 't worker" where
  "worker_addTask t w = w\<lparr>pendingTasks := pendingTasks w @ [t]\<rparr>"

definition worker_addTimerTask :: "uint64 \<Rightarrow> uint64 \<Rightarrow> 't \<Rightarrow> 't worker \<Rightarrow> uint64 \<times> 't worker" where
  "worker_addTimerTask delay interval t w = (case nextTimerId w of (i, w) \<Rightarrow>
     (i, w\<lparr>pendingTimers := pendingTimers w @
            [\<lparr>timer_id = i, delayMSec = delay, intervalMSec = interval, callback = t\<rparr>]\<rparr>))"

definition worker_addRepeatTask :: "uint64 \<Rightarrow> 't \<Rightarrow> 't worker \<Rightarrow> uint64 \<times> 't worker" where
  "worker_addRepeatTask ms t w = worker_addTimerTask ms ms t w"

definition worker_addDelayTask :: "uint64 \<Rightarrow> 't \<Rightarrow> 't worker \<Rightarrow> uint64 \<times> 't worker" where
  "worker_addDelayTask ms t w = worker_addTimerTask ms 0 t w"

section \<open>The pool\<close>

record 't pool =
  nextThread :: uint64
  workers :: "'t worker list"

definition nrThreads :: "'t pool \<Rightarrow> nat" where
  "nrThreads p = length (workers p)"

text \<open>\<^verbatim>\<open>nextThread_++ % nrThreads_\<close>.\<close>

definition pick :: "'t pool \<Rightarrow> (nat \<times> 't pool) option" where
  "pick p = (if nrThreads p = 0 then None
     else Some (unat (nextThread p) mod nrThreads p, p\<lparr>nextThread := nextThread p + 1\<rparr>))"

text \<open>The rest of each call, on the worker that was picked.\<close>

definition addTask_on :: "nat \<Rightarrow> 't \<Rightarrow> 't pool \<Rightarrow> 't pool" where
  "addTask_on idx t p = p\<lparr>workers := (workers p)[idx := worker_addTask t (workers p ! idx)]\<rparr>"

definition addDelayTask_on :: "nat \<Rightarrow> uint64 \<Rightarrow> 't \<Rightarrow> 't pool \<Rightarrow> 't pool" where
  "addDelayTask_on idx ms t p =
     p\<lparr>workers := (workers p)[idx := snd (worker_addDelayTask ms t (workers p ! idx))]\<rparr>"

definition addRepeatTask_on :: "nat \<Rightarrow> uint64 \<Rightarrow> 't \<Rightarrow> 't pool \<Rightarrow> uint64 \<times> 't pool" where
  "addRepeatTask_on idx ms t p = (case worker_addRepeatTask ms t (workers p ! idx) of (i, w) \<Rightarrow>
     (push_bit TIMER_ID_BITS (of_nat idx) OR i, p\<lparr>workers := (workers p)[idx := w]\<rparr>))"

definition addTimerTask_on :: "nat \<Rightarrow> uint64 \<Rightarrow> uint64 \<Rightarrow> 't \<Rightarrow> 't pool \<Rightarrow> uint64 \<times> 't pool" where
  "addTimerTask_on idx delay interval t p = (case worker_addTimerTask delay interval t (workers p ! idx) of (i, w) \<Rightarrow>
     (push_bit TIMER_ID_BITS (of_nat idx) OR i, p\<lparr>workers := (workers p)[idx := w]\<rparr>))"

definition pool_addTask :: "'t \<Rightarrow> 't pool \<Rightarrow> 't pool option" where
  "pool_addTask t p = (case pick p of None \<Rightarrow> None | Some (idx, p) \<Rightarrow> Some (addTask_on idx t p))"

definition pool_addTimerTask :: "uint64 \<Rightarrow> uint64 \<Rightarrow> 't \<Rightarrow> 't pool \<Rightarrow> (uint64 \<times> 't pool) option" where
  "pool_addTimerTask delay interval t p =
     (case pick p of None \<Rightarrow> None | Some (idx, p) \<Rightarrow> Some (addTimerTask_on idx delay interval t p))"

definition pool_addRepeatTask :: "uint64 \<Rightarrow> 't \<Rightarrow> 't pool \<Rightarrow> (uint64 \<times> 't pool) option" where
  "pool_addRepeatTask ms t p =
     (case pick p of None \<Rightarrow> None | Some (idx, p) \<Rightarrow> Some (addRepeatTask_on idx ms t p))"

definition pool_addDelayTask :: "uint64 \<Rightarrow> 't \<Rightarrow> 't pool \<Rightarrow> 't pool option" where
  "pool_addDelayTask ms t p =
     (case pick p of None \<Rightarrow> None | Some (idx, p) \<Rightarrow> Some (addDelayTask_on idx ms t p))"

definition pool_new :: "nat \<Rightarrow> 't pool" where
  "pool_new n = \<lparr>nextThread = 0, workers = replicate n worker_new\<rparr>"

text \<open>A sequence of calls.\<close>

fun addTasks :: "'t list \<Rightarrow> 't pool \<Rightarrow> 't pool option" where
  "addTasks [] p = Some p"
| "addTasks (t # ts) p = (case pool_addTask t p of None \<Rightarrow> None | Some p \<Rightarrow> addTasks ts p)"

section \<open>Concurrent calls\<close>

datatype 't call = AddTask 't | AddDelayTask uint64 't | AddRepeatTask uint64 't | AddTimerTask uint64 uint64 't

text \<open>What a call returns as the id of a timer, and what it leaves.\<close>

definition call_on :: "nat \<Rightarrow> 't call \<Rightarrow> 't pool \<Rightarrow> uint64 option \<times> 't pool" where
  "call_on idx c p = (case c of
       AddTask t \<Rightarrow> (None, addTask_on idx t p)
     | AddDelayTask ms t \<Rightarrow> (None, addDelayTask_on idx ms t p)
     | AddRepeatTask ms t \<Rightarrow> (case addRepeatTask_on idx ms t p of (i, p) \<Rightarrow> (Some i, p))
     | AddTimerTask delay interval t \<Rightarrow> (case addTimerTask_on idx delay interval t p of (i, p) \<Rightarrow> (Some i, p)))"

text \<open>The pool, the calls that have picked their worker, and the calls that have returned with their result.\<close>

record 't system =
  the_pool :: "'t pool"
  in_flight :: "(nat \<times> 't call) list"
  returned :: "(nat \<times> 't call \<times> uint64 option) list"

inductive pool_step :: "'t system \<Rightarrow> 't system \<Rightarrow> bool" where
  pick: "pick (the_pool s) = Some (idx, p) \<Longrightarrow>
     pool_step s (s\<lparr>the_pool := p, in_flight := in_flight s @ [(idx, c)]\<rparr>)"
| call: "\<lbrakk>in_flight s = xs @ (idx, c) # ys; call_on idx c (the_pool s) = (r, p)\<rbrakk> \<Longrightarrow>
     pool_step s (s\<lparr>the_pool := p, in_flight := xs @ ys, returned := returned s @ [(idx, c, r)]\<rparr>)"

inductive_cases pool_stepE: "pool_step s s'"

definition system_of :: "'t pool \<Rightarrow> 't system" where
  "system_of p = \<lparr>the_pool = p, in_flight = [], returned = []\<rparr>"

text \<open>A call of one thread alone is two steps.\<close>

lemma pool_calls:
  "pool_addTask t p = (case pick p of None \<Rightarrow> None | Some (idx, p) \<Rightarrow> Some (snd (call_on idx (AddTask t) p)))"
  "pool_addDelayTask ms t p =
     (case pick p of None \<Rightarrow> None | Some (idx, p) \<Rightarrow> Some (snd (call_on idx (AddDelayTask ms t) p)))"
  "pool_addRepeatTask ms t p = (case pick p of None \<Rightarrow> None
     | Some (idx, p) \<Rightarrow> (case call_on idx (AddRepeatTask ms t) p of (r, p) \<Rightarrow> Some (the r, p)))"
  "pool_addTimerTask delay interval t p = (case pick p of None \<Rightarrow> None
     | Some (idx, p) \<Rightarrow> (case call_on idx (AddTimerTask delay interval t) p of (r, p) \<Rightarrow> Some (the r, p)))"
  by (auto simp: pool_addTask_def pool_addDelayTask_def pool_addRepeatTask_def pool_addTimerTask_def call_on_def
      split: option.splits prod.splits)

section \<open>Round robin\<close>

definition share :: "nat \<Rightarrow> nat \<Rightarrow> 't list \<Rightarrow> 't list" where
  "share n i ts = map (\<lambda>j. ts ! j) (filter (\<lambda>j. j mod n = i) [0..<length ts])"

lemma share_snoc: "share n i (ts @ [t]) = share n i ts @ (if length ts mod n = i then [t] else [])"
  by (auto simp: share_def nth_append intro!: map_cong)

lemma addTasks_snoc:
  "addTasks (ts @ [t]) p = (case addTasks ts p of None \<Rightarrow> None | Some p \<Rightarrow> pool_addTask t p)"
  by (induction ts arbitrary: p) (auto split: option.splits)

lemma round_robin:
  assumes "0 < n" "length ts < 2 ^ 64"
  shows "\<exists>p. addTasks ts (pool_new n) = Some p \<and> nextThread p = of_nat (length ts)
    \<and> length (workers p) = n \<and> (\<forall>i < n. pendingTasks (workers p ! i) = share n i ts)"
  using assms(2)
proof (induction ts rule: rev_induct)
  case Nil
  show ?case by (simp add: pool_new_def worker_new_def share_def)
next
  case (snoc t ts)
  then obtain p where p: "addTasks ts (pool_new n) = Some p" "nextThread p = of_nat (length ts)"
    "length (workers p) = n" "\<forall>i < n. pendingTasks (workers p ! i) = share n i ts" by auto
  have idx: "unat (nextThread p) = length ts"
    using p(2) snoc.prems by (simp add: unat_of_nat take_bit_nat_eq_self)
  show ?case
    using p idx assms(1)
    by (auto simp: addTasks_snoc pool_addTask_def addTask_on_def pick_def nrThreads_def worker_addTask_def
        share_snoc nth_list_update)
qed

section \<open>Timer ids\<close>

lemma timer_mask: "TIMER_ID_MASK = mask 48"
  by (simp add: TIMER_ID_MASK_def TIMER_ID_BITS_def mask_eq_exp_minus_1 drop_bit_eq_div)

text \<open>The id of the pool for a timer of worker \<open>i\<close>.\<close>

definition pool_id :: "nat \<Rightarrow> uint64 \<Rightarrow> uint64" where
  "pool_id i k = push_bit 48 (of_nat i) OR k"

lemma bit_nat_bound: "bit n k \<Longrightarrow> n < 2 ^ m \<Longrightarrow> k < m" for n :: nat
proof (rule ccontr)
  assume "bit n k" "n < 2 ^ m" "\<not> k < m"
  then have "n < 2 ^ k" by (meson less_le_trans not_less one_le_numeral power_increasing)
  then show False using \<open>bit n k\<close> by (simp add: bit_iff_odd)
qed

lemma bit_of_nat_word: "bit (of_nat n :: 'a::len word) k \<longleftrightarrow> k < LENGTH('a) \<and> bit n k"
  by transfer (simp add: bit_take_bit_iff bit_of_nat_iff_bit)

lemma pool_id_parts:
  assumes "i < 2 ^ 16"
  shows "unat (drop_bit 48 (pool_id i (k AND mask 48))) = i" "pool_id i (k AND mask 48) AND mask 48 = k AND mask 48"
proof -
  have "drop_bit 48 (pool_id i (k AND mask 48)) = of_nat i"
    by (rule bit_word_eqI)
      (auto simp: pool_id_def bit_drop_bit_eq bit_or_iff bit_push_bit_iff bit_of_nat_word bit_and_iff bit_mask_iff
        dest: bit_nat_bound [OF _ assms])
  then show "unat (drop_bit 48 (pool_id i (k AND mask 48))) = i"
    using assms by (simp add: unat_of_nat take_bit_nat_eq_self)
  show "pool_id i (k AND mask 48) AND mask 48 = k AND mask 48"
    by (rule bit_word_eqI) (auto simp: pool_id_def bit_or_iff bit_push_bit_iff bit_and_iff bit_mask_iff)
qed

text \<open>Consecutive values of \<^verbatim>\<open>nextTimerId_\<close> differ in their lower 48 bits, wherever the counter starts.\<close>

lemma unat_timer_id:
  fixes a :: uint64
  shows "unat ((a + of_nat j) AND mask 48) = (unat a + j) mod 2 ^ 48"
proof -
  have "unat ((a + of_nat j) AND mask 48) = take_bit 48 (unat (a + of_nat j))"
    by (simp only: take_bit_eq_mask [symmetric] unsigned_take_bit_eq)
  then have "unat ((a + of_nat j) AND mask 48) = unat (a + of_nat j) mod 2 ^ 48"
    by (simp only: take_bit_eq_mod)
  also have "\<dots> = (unat a + j) mod 2 ^ 64 mod 2 ^ 48"
    by (simp add: unat_word_ariths unat_of_nat take_bit_eq_mod mod_simps)
  also have "\<dots> = (unat a + j) mod 2 ^ 48"
    by (rule mod_mod_cancel) (rule le_imp_power_dvd, simp)
  finally show ?thesis .
qed

lemma mod_add_cancel:
  fixes i j m :: nat
  assumes "(a + i) mod m = (a + j) mod m" "i < m" "j < m"
  shows "i = j"
  using assms
proof (induction i j rule: linorder_wlog)
  case (le i j)
  then have "m dvd (a + j) - (a + i)" by (metis mod_eq_dvd_iff_nat add_le_cancel_left)
  then show ?case using le by (auto dest: dvd_imp_le)
qed simp

lemma timer_ids_inj: "inj_on (\<lambda>j. (a + of_nat j) AND mask 48 :: uint64) {..<2 ^ 48}"
proof (rule inj_onI)
  fix i j :: nat
  assume ij: "i \<in> {..<2 ^ 48}" "j \<in> {..<2 ^ 48}" and e: "(a + of_nat i) AND mask 48 = ((a + of_nat j) AND mask 48 :: uint64)"
  have "(unat a + i) mod 2 ^ 48 = (unat a + j) mod 2 ^ 48" using arg_cong [OF e, of unat] by (simp only: unat_timer_id)
  then show "i = j" by (rule mod_add_cancel) (use ij in \<open>simp_all only: lessThan_iff\<close>)
qed

text \<open>The timers that a worker got since the pool \<open>p0\<close>, and their ids of the pool.\<close>

definition new_timers :: "'t pool \<Rightarrow> 't pool \<Rightarrow> nat \<Rightarrow> 't timer list" where
  "new_timers p0 p i = drop (length (pendingTimers (workers p0 ! i))) (pendingTimers (workers p ! i))"

definition new_ids :: "'t pool \<Rightarrow> 't pool \<Rightarrow> uint64 list" where
  "new_ids p0 p = concat (map (\<lambda>i. map (\<lambda>t. pool_id i (timer_id t)) (new_timers p0 p i)) [0..<length (workers p0)])"

definition returned_ids :: "'t system \<Rightarrow> uint64 list" where
  "returned_ids s = List.map_filter (\<lambda>(idx, c, r). r) (returned s)"

text \<open>The timer that a call asks for.\<close>

fun call_timer :: "'t call \<Rightarrow> uint64 \<Rightarrow> 't timer option" where
  "call_timer (AddTask t) k = None"
| "call_timer (AddDelayTask ms t) k = Some \<lparr>timer_id = k, delayMSec = ms, intervalMSec = 0, callback = t\<rparr>"
| "call_timer (AddRepeatTask ms t) k = Some \<lparr>timer_id = k, delayMSec = ms, intervalMSec = ms, callback = t\<rparr>"
| "call_timer (AddTimerTask d i t) k = Some \<lparr>timer_id = k, delayMSec = d, intervalMSec = i, callback = t\<rparr>"

definition timer_id_of :: "'t worker \<Rightarrow> uint64" where
  "timer_id_of w = nextTimer w AND mask 48"

lemma call_on_cases:
  assumes "idx < length (workers p)" "call_on idx c p = (r, p')"
  obtains (task) w where "call_timer c (timer_id_of (workers p ! idx)) = None" "r = None"
      "p' = p\<lparr>workers := (workers p)[idx := w]\<rparr>" "nextTimer w = nextTimer (workers p ! idx)"
      "pendingTimers w = pendingTimers (workers p ! idx)"
  | (timer) w t where "call_timer c (timer_id_of (workers p ! idx)) = Some t"
      "timer_id t = timer_id_of (workers p ! idx)"
      "r = None \<or> r = Some (pool_id idx (timer_id t))"
      "p' = p\<lparr>workers := (workers p)[idx := w]\<rparr>" "nextTimer w = nextTimer (workers p ! idx) + 1"
      "pendingTimers w = pendingTimers (workers p ! idx) @ [t]"
proof (cases c)
  case (AddTask t)
  then show thesis using assms task by (auto simp: call_on_def addTask_on_def worker_addTask_def)
qed (use assms timer in \<open>auto simp: call_on_def addDelayTask_on_def addRepeatTask_on_def addTimerTask_on_def
    worker_addDelayTask_def worker_addRepeatTask_def worker_addTimerTask_def nextTimerId_def timer_mask
    timer_id_of_def pool_id_def TIMER_ID_BITS_def\<close>)

text \<open>What holds after any interleaving: the timers of each worker have consecutive numbers, and the ids returned are
  ids of new timers.\<close>

definition worker_inv :: "'t worker \<Rightarrow> 't worker \<Rightarrow> bool" where
  "worker_inv w0 w \<longleftrightarrow> (\<exists>ts. pendingTimers w = pendingTimers w0 @ ts
     \<and> map timer_id ts = map (\<lambda>j. (nextTimer w0 + of_nat j) AND mask 48) [0..<length ts]
     \<and> nextTimer w = nextTimer w0 + of_nat (length ts))"

definition returned_ok :: "'t pool \<Rightarrow> 't pool \<Rightarrow> nat \<times> 't call \<times> uint64 option \<Rightarrow> bool" where
  "returned_ok p0 p = (\<lambda>(idx, c, r). r = None \<or> idx < length (workers p0)
     \<and> (\<exists>t \<in> set (new_timers p0 p idx). r = Some (pool_id idx (timer_id t)) \<and> call_timer c (timer_id t) = Some t))"

lemma returned_ok_mono:
  assumes "returned_ok p0 p x" "\<And>i. i < length (workers p0) \<Longrightarrow> set (new_timers p0 p i) \<subseteq> set (new_timers p0 p' i)"
  shows "returned_ok p0 p' x"
  using assms unfolding returned_ok_def by (cases x) blast

definition system_inv :: "'t pool \<Rightarrow> 't system \<Rightarrow> bool" where
  "system_inv p0 s \<longleftrightarrow> length (workers (the_pool s)) = length (workers p0)
     \<and> (\<forall>i < length (workers p0). worker_inv (workers p0 ! i) (workers (the_pool s) ! i))
     \<and> (\<forall>x \<in> set (in_flight s). fst x < length (workers p0))
     \<and> mset (returned_ids s) \<subseteq># mset (new_ids p0 (the_pool s))
     \<and> (\<forall>x \<in> set (returned s). returned_ok p0 (the_pool s) x)"

lemma worker_inv_add:
  assumes "worker_inv w0 w" "nextTimer w' = nextTimer w + 1" "pendingTimers w' = pendingTimers w @ [t]"
    "timer_id t = timer_id_of w"
  shows "worker_inv w0 w'"
proof -
  obtain ts where ts: "pendingTimers w = pendingTimers w0 @ ts"
    "map timer_id ts = map (\<lambda>j. (nextTimer w0 + of_nat j) AND mask 48) [0..<length ts]"
    "nextTimer w = nextTimer w0 + of_nat (length ts)"
    using assms(1) unfolding worker_inv_def by blast
  show ?thesis unfolding worker_inv_def
    by (rule exI [of _ "ts @ [t]"]) (use assms(2-4) ts in \<open>simp add: timer_id_of_def algebra_simps\<close>)
qed

lemma worker_inv_same:
  "worker_inv w0 w \<Longrightarrow> nextTimer w' = nextTimer w \<Longrightarrow> pendingTimers w' = pendingTimers w \<Longrightarrow> worker_inv w0 w'"
  unfolding worker_inv_def by simp

lemma new_timers_other:
  "i < length (workers p) \<Longrightarrow> new_timers p0 (p\<lparr>workers := (workers p)[idx := w]\<rparr>) i =
     (if i = idx then drop (length (pendingTimers (workers p0 ! i))) (pendingTimers w) else new_timers p0 p i)"
  by (simp add: new_timers_def)

lemma mset_concat_update:
  assumes "idx < n" "mset (f' idx) = add_mset x (mset (f idx))" "\<And>i. i \<noteq> idx \<Longrightarrow> f' i = f i"
  shows "mset (concat (map f' [0..<n])) = add_mset x (mset (concat (map f [0..<n])))"
  using assms(1)
proof (induction n)
  case (Suc n)
  show ?case
  proof (cases "idx = n")
    case True
    then have "concat (map f' [0..<n]) = concat (map f [0..<n])"
      by (intro arg_cong [where f = concat] map_cong) (simp_all add: assms(3))
    then have "concat (map f' [0..<Suc n]) = concat (map f [0..<n]) @ f' n" by (simp only: upt_Suc_append map_append concat_append) simp
    then show ?thesis using True assms(2) by simp
  next
    case False
    then show ?thesis using Suc assms(3) [of n] by simp
  qed
qed simp

lemma new_timers_add:
  assumes "worker_inv (workers p0 ! idx) (workers p ! idx)" "pendingTimers w = pendingTimers (workers p ! idx) @ [t]"
  shows "drop (length (pendingTimers (workers p0 ! idx))) (pendingTimers w) = new_timers p0 p idx @ [t]"
  using assms by (auto simp: worker_inv_def new_timers_def)

lemma system_inv_call:
  assumes inv: "system_inv p0 s" and fl: "in_flight s = xs @ (idx, c) # ys" and c: "call_on idx c (the_pool s) = (r, p)"
  shows "system_inv p0 (s\<lparr>the_pool := p, in_flight := xs @ ys, returned := returned s @ [(idx, c, r)]\<rparr>)"
proof -
  let ?p = "the_pool s"
  have len: "length (workers ?p) = length (workers p0)" and idx0: "idx < length (workers p0)"
    using inv fl by (auto simp: system_inv_def)
  then have idx: "idx < length (workers ?p)" by simp
  have w: "worker_inv (workers p0 ! i) (workers ?p ! i)" if "i < length (workers p0)" for i
    using inv that by (simp add: system_inv_def)
  from idx c show ?thesis
  proof (cases rule: call_on_cases)
    case (task w)
    have same: "new_timers p0 p i = new_timers p0 ?p i" if "i < length (workers p0)" for i
      using that len task(5) unfolding task(3) by (simp add: new_timers_other) (simp add: new_timers_def)
    then have ids: "new_ids p0 p = new_ids p0 ?p"
      unfolding new_ids_def by (intro arg_cong [where f = concat] map_cong) simp_all
    have "worker_inv (workers p0 ! i) (workers p ! i)" if "i < length (workers p0)" for i
      using w [OF that] worker_inv_same [OF w [OF idx0] task(4,5)] that len task(3) by (cases "i = idx") simp_all
    moreover have "returned_ok p0 p x" if "x \<in> set (returned s)" for x
      using returned_ok_mono [of p0 ?p x p] inv that same by (auto simp: system_inv_def)
    ultimately show ?thesis
      using inv len fl task(2,3) ids
      by (auto simp: system_inv_def returned_ids_def map_filter_def returned_ok_def)
  next
    case (timer w t)
    have new: "new_timers p0 p i = (if i = idx then new_timers p0 ?p i @ [t] else new_timers p0 ?p i)"
      if "i < length (workers p0)" for i
      using that len new_timers_add [OF w [OF idx0] timer(6)] unfolding timer(4) by (simp add: new_timers_other)
    let ?f = "\<lambda>p i. map (\<lambda>t. pool_id i (timer_id t)) (new_timers p0 p i)"
    have ids: "mset (new_ids p0 p) = add_mset (pool_id idx (timer_id t)) (mset (new_ids p0 ?p))"
    proof -
      have "mset (concat (map (\<lambda>i. if i < length (workers p0) then ?f p i else ?f ?p i) [0..<length (workers p0)]))
          = add_mset (pool_id idx (timer_id t)) (mset (concat (map (?f ?p) [0..<length (workers p0)])))"
        by (rule mset_concat_update [OF idx0]) (use idx0 new in auto)
      moreover have "map (\<lambda>i. if i < length (workers p0) then ?f p i else ?f ?p i) [0..<length (workers p0)]
          = map (?f p) [0..<length (workers p0)]" by (rule map_cong) simp_all
      ultimately show ?thesis by (simp add: new_ids_def)
    qed
    have "worker_inv (workers p0 ! i) (workers p ! i)" if "i < length (workers p0)" for i
      using w [OF that] worker_inv_add [OF w [OF idx0] timer(5,6,2)] that len timer(4) by (cases "i = idx") simp_all
    moreover have "returned_ok p0 p x" if "x \<in> set (returned s)" for x
    proof (rule returned_ok_mono)
      show "returned_ok p0 ?p x" using inv that by (simp add: system_inv_def)
      show "set (new_timers p0 ?p i) \<subseteq> set (new_timers p0 p i)" if "i < length (workers p0)" for i
        using new [OF that] by auto
    qed
    moreover have "returned_ok p0 p (idx, c, r)"
      using timer(1-3) new [OF idx0] idx0 by (auto simp: returned_ok_def)
    moreover have "mset (returned_ids (s\<lparr>the_pool := p, in_flight := xs @ ys, returned := returned s @ [(idx, c, r)]\<rparr>))
        \<subseteq># mset (new_ids p0 p)"
    proof -
      have "mset (returned_ids s) \<subseteq># mset (new_ids p0 ?p)" using inv by (simp add: system_inv_def)
      then show ?thesis using timer(3) unfolding ids
        by (auto simp: returned_ids_def map_filter_def intro: subset_mset.order_trans)
    qed
    ultimately show ?thesis using inv len fl timer(4) by (auto simp: system_inv_def)
  qed
qed

lemma system_inv_step: "pool_step s s' \<Longrightarrow> system_inv p0 s \<Longrightarrow> system_inv p0 s'"
proof (induction rule: pool_step.induct)
  case (pick s idx p c)
  then have p: "p = (the_pool s)\<lparr>nextThread := nextThread (the_pool s) + 1\<rparr>" and idx: "idx < length (workers (the_pool s))"
    by (auto simp: pick_def nrThreads_def split: if_splits)
  have "new_timers p0 p = new_timers p0 (the_pool s)" by (simp add: p new_timers_def fun_eq_iff)
  then have "new_ids p0 p = new_ids p0 (the_pool s)" "returned_ok p0 p = returned_ok p0 (the_pool s)"
    by (simp_all add: new_ids_def returned_ok_def)
  then show ?case using pick.prems idx by (auto simp: system_inv_def returned_ids_def p)
next
  case (call s xs idx c ys r p)
  then show ?case by (intro system_inv_call)
qed

lemma system_inv_start: "system_inv p (system_of p)"
  by (auto simp: system_inv_def system_of_def worker_inv_def returned_ids_def map_filter_def)

lemma system_inv_reachable: "pool_step\<^sup>*\<^sup>* (system_of p) s \<Longrightarrow> system_inv p s"
  by (induction rule: rtranclp_induct) (auto intro: system_inv_start system_inv_step)

lemma new_timer_ids:
  assumes "system_inv p0 s" "i < length (workers p0)"
  shows "map timer_id (new_timers p0 (the_pool s) i)
    = map (\<lambda>j. (nextTimer (workers p0 ! i) + of_nat j) AND mask 48) [0..<length (new_timers p0 (the_pool s) i)]"
  using assms by (auto simp: system_inv_def worker_inv_def new_timers_def)

lemma new_timer_masked:
  assumes "system_inv p0 s" "i < length (workers p0)" "t \<in> set (new_timers p0 (the_pool s) i)"
  shows "timer_id t = timer_id t AND mask 48"
proof -
  have "timer_id t \<in> set (map timer_id (new_timers p0 (the_pool s) i))" using assms(3) by simp
  then show ?thesis unfolding new_timer_ids [OF assms(1,2)] by (auto simp: and.assoc)
qed

lemma new_timer_owner:
  assumes "system_inv p0 s" "length (workers p0) \<le> 2 ^ 16" "i < length (workers p0)"
    "t \<in> set (new_timers p0 (the_pool s) i)"
  shows "unat (drop_bit 48 (pool_id i (timer_id t))) = i"
  using pool_id_parts(1) [of i "timer_id t"] new_timer_masked [OF assms(1,3,4)] assms(2,3) by simp

lemma new_ids_distinct:
  assumes "system_inv p0 s" "length (workers p0) \<le> 2 ^ 16" "length (new_ids p0 (the_pool s)) \<le> 2 ^ 48"
  shows "distinct (new_ids p0 (the_pool s))"
proof -
  let ?n = "length (workers p0)" and ?new = "new_timers p0 (the_pool s)"
  note w = new_timer_ids [OF assms(1)] and masked = new_timer_masked [OF assms(1)]
  have le: "length (?new i) \<le> 2 ^ 48" if "i < ?n" for i
  proof -
    have "length (?new i) \<le> length (new_ids p0 (the_pool s))"
      using member_le_sum_list [of "length (?new i)" "map (\<lambda>i. length (?new i)) [0..<?n]"] that
      by (simp add: new_ids_def length_concat comp_def)
    then show ?thesis using assms(3) by simp
  qed
  have inner: "distinct (map (\<lambda>t. pool_id i (timer_id t)) (?new i))" if i: "i < ?n" for i
  proof -
    have d: "distinct (map timer_id (?new i))"
      unfolding w [OF i] using le [OF i]
      by (simp add: distinct_map) (rule inj_on_subset [OF timer_ids_inj], auto)
    have "inj_on (pool_id i) (set (map timer_id (?new i)))"
    proof (rule inj_onI)
      fix a b assume a: "a \<in> set (map timer_id (?new i))" and b: "b \<in> set (map timer_id (?new i))"
        and e: "pool_id i a = pool_id i b"
      have "a = a AND mask 48" "b = b AND mask 48" using a b masked [OF i] by auto
      then show "a = b" using e pool_id_parts(2) [of i a] pool_id_parts(2) [of i b] i assms(2) by simp
    qed
    then have "distinct (map (pool_id i) (map timer_id (?new i)))" using d by (simp only: distinct_map)
    then show ?thesis by (simp add: comp_def)
  qed
  note owner = new_timer_owner [OF assms(1,2)]
  have outer: "i = j" if "i < ?n" "j < ?n" "t \<in> set (?new i)" "u \<in> set (?new j)"
    "pool_id i (timer_id t) = pool_id j (timer_id u)" for i j t u
    using owner [OF that(1,3)] owner [OF that(2,4)] that(5) by simp
  have "distinct (concat (map (\<lambda>i. map (\<lambda>t. pool_id i (timer_id t)) (?new i)) (filter (\<lambda>i. i < ?n) xs)))" if "distinct xs" for xs
    using that
  proof (induction xs)
    case (Cons x xs)
    show ?case
    proof (cases "x < ?n")
      case True
      have "set (map (\<lambda>t. pool_id x (timer_id t)) (?new x))
          \<inter> set (concat (map (\<lambda>i. map (\<lambda>t. pool_id i (timer_id t)) (?new i)) (filter (\<lambda>i. i < ?n) xs))) = {}"
        using outer [OF True] Cons.prems by fastforce
      then show ?thesis using True Cons inner [OF True] by simp
    qed (use Cons in simp)
  qed simp
  from this [of "[0..<?n]"] show ?thesis by (simp add: new_ids_def)
qed

section \<open>Properties\<close>

text \<open>The pool hands out tasks in turn: of a sequence of tasks added to a new pool of \<open>n\<close>
  threads, worker \<open>i\<close> queues exactly those whose position is \<open>i\<close> modulo \<open>n\<close>, in the order in which
  they were added.\<close>

theorem pool_round_robin:
  assumes "0 < n" "length ts < 2 ^ 64"
  shows "\<exists>p. addTasks ts (pool_new n) = Some p \<and> length (workers p) = n
    \<and> (\<forall>i < n. pendingTasks (workers p ! i) = share n i ts)"
  using round_robin [OF assms] by blast

theorem pool_round_robin_witness:
  "\<exists>p. addTasks [''a'', ''b'', ''c'', ''d'', ''e''] (pool_new 2) = Some p
    \<and> pendingTasks (workers p ! 1) = [''b'', ''d'']"
  using pool_round_robin [of 2 "[''a'', ''b'', ''c'', ''d'', ''e'']"] by (auto simp: share_def)

text \<open>Claim C31. Whatever calls (tasks, delayed tasks, repeated tasks and timers with any delay and interval) any threads make on a
  pool of at most \<open>2 ^ 16\<close> workers, in whatever state the pool was and however the calls interleave, as long as they create at most
  \<open>2 ^ 48\<close> timers: the timers created, delayed tasks included, have different ids, so the ids returned are
  different; and an id that a call returned has the worker of its timer in the upper 16 bits, and is that of a timer
  queued there with the task, the delay and the interval of the call.\<close>

theorem timer_ids_unique:
  assumes "pool_step\<^sup>*\<^sup>* (system_of p) s" "length (workers p) \<le> 2 ^ 16"
    "length (new_ids p (the_pool s)) \<le> 2 ^ 48"
  shows "distinct (new_ids p (the_pool s)) \<and> distinct (returned_ids s)
    \<and> (\<forall>idx c i. (idx, c, Some i) \<in> set (returned s) \<longrightarrow> unat (drop_bit 48 i) = idx
        \<and> (\<exists>t. t \<in> set (new_timers p (the_pool s) idx) \<and> i = pool_id idx (timer_id t)
             \<and> call_timer c (timer_id t) = Some t))"
proof -
  note inv = system_inv_reachable [OF assms(1)]
  note d = new_ids_distinct [OF inv assms(2,3)]
  have sub: "mset (returned_ids s) \<subseteq># mset (new_ids p (the_pool s))" using inv by (simp add: system_inv_def)
  have "count (mset (new_ids p (the_pool s))) x \<le> 1" for x
    using distinct_count_atmost_1 [THEN iffD1, OF d, rule_format, of x] by (simp split: if_splits)
  then have le: "count (mset (returned_ids s)) x \<le> 1" for x
    using mset_subset_eq_count [OF sub, of x] by (meson order.trans)
  have r: "distinct (returned_ids s)" unfolding distinct_count_atmost_1
  proof
    fix x show "count (mset (returned_ids s)) x = (if x \<in> set (returned_ids s) then 1 else 0)"
    proof (cases "x \<in> set (returned_ids s)")
      case True
      then have "count (mset (returned_ids s)) x \<noteq> 0" by (simp only: count_eq_zero_iff set_mset_mset) simp
      then have "count (mset (returned_ids s)) x = 1" using le [of x] by linarith
      then show ?thesis using True by simp
    next
      case False
      then show ?thesis by (simp add: count_eq_zero_iff)
    qed
  qed
  have owner: "unat (drop_bit 48 i) = idx \<and> (\<exists>t. t \<in> set (new_timers p (the_pool s) idx) \<and> i = pool_id idx (timer_id t)
      \<and> call_timer c (timer_id t) = Some t)" if m: "(idx, c, Some i) \<in> set (returned s)" for idx c i
  proof -
    have "returned_ok p (the_pool s) (idx, c, Some i)" using inv m by (simp add: system_inv_def)
    then obtain t where t: "idx < length (workers p)" "t \<in> set (new_timers p (the_pool s) idx)"
      "i = pool_id idx (timer_id t)" "call_timer c (timer_id t) = Some t" by (auto simp: returned_ok_def)
    then show ?thesis using new_timer_owner [OF inv assms(2) t(1,2)] by blast
  qed
  show ?thesis using d r owner by blast
qed

definition sample_system :: "string system" where
  "sample_system =
     \<lparr>the_pool = \<lparr>nextThread = 2, workers =
        [\<lparr>nextTimer = 1, pendingTasks = [], pendingTimers = [\<lparr>timer_id = 0, delayMSec = 1, intervalMSec = 2, callback = ''a''\<rparr>]\<rparr>,
         \<lparr>nextTimer = 1, pendingTasks = [], pendingTimers = [\<lparr>timer_id = 0, delayMSec = 5, intervalMSec = 5, callback = ''b''\<rparr>]\<rparr>]\<rparr>,
      in_flight = [],
      returned = [(1, AddRepeatTask 5 ''b'', Some (2 ^ 48)), (0, AddTimerTask 1 2 ''a'', Some 0)]\<rparr>"

text \<open>Two threads pick their workers, and the second one finishes first.\<close>

lemma sample_system_reachable: "pool_step\<^sup>*\<^sup>* (system_of (pool_new 2)) sample_system"
proof -
  let ?p = "\<lambda>k. (pool_new 2)\<lparr>nextThread := k\<rparr> :: string pool"
  let ?s1 = "\<lparr>the_pool = ?p 1, in_flight = [(0, AddTimerTask 1 2 ''a'')], returned = []\<rparr>"
  let ?s2 = "\<lparr>the_pool = ?p 2, in_flight = [(0, AddTimerTask 1 2 ''a''), (1, AddRepeatTask 5 ''b'')], returned = []\<rparr>"
  let ?s3 = "\<lparr>the_pool = snd (call_on 1 (AddRepeatTask 5 ''b'') (?p 2)), in_flight = [(0, AddTimerTask 1 2 ''a'')],
    returned = [(1, AddRepeatTask 5 ''b'', Some (2 ^ 48))]\<rparr>"
  have "pool_step (system_of (pool_new 2)) ?s1"
    using pool_step.pick [of "system_of (pool_new 2)" 0 "?p 1" "AddTimerTask 1 2 ''a''"]
    by (simp add: system_of_def pick_def pool_new_def nrThreads_def)
  moreover have "pool_step ?s1 ?s2"
    using pool_step.pick [of ?s1 1 "?p 2" "AddRepeatTask 5 ''b''"]
    by (simp add: pick_def pool_new_def nrThreads_def)
  moreover have "pool_step ?s2 ?s3"
    using pool_step.call [of ?s2 "[(0, AddTimerTask 1 2 ''a'')]" 1 "AddRepeatTask 5 ''b''" "[]" "Some (2 ^ 48)"
        "snd (call_on 1 (AddRepeatTask 5 ''b'') (?p 2))"]
    by (simp add: call_on_def addRepeatTask_on_def worker_addRepeatTask_def worker_addTimerTask_def nextTimerId_def
        pool_new_def worker_new_def TIMER_ID_BITS_def push_bit_eq_mult)
  moreover have "pool_step ?s3 sample_system"
    using pool_step.call [of ?s3 "[]" 0 "AddTimerTask 1 2 ''a''" "[]" "Some 0" "the_pool sample_system"]
    by (simp add: call_on_def addRepeatTask_on_def addTimerTask_on_def worker_addRepeatTask_def worker_addTimerTask_def
        nextTimerId_def pool_new_def worker_new_def TIMER_ID_BITS_def sample_system_def numeral_2_eq_2)
  ultimately show ?thesis by (meson converse_rtranclp_into_rtranclp rtranclp.rtrancl_refl)
qed

theorem timer_ids_unique_witness:
  "distinct (returned_ids sample_system) \<and> unat (drop_bit 48 (2 ^ 48 :: uint64)) = 1"
proof -
  have "length (new_ids (pool_new 2) (the_pool sample_system)) \<le> 2 ^ 48"
    by (simp add: new_ids_def new_timers_def pool_new_def worker_new_def sample_system_def upt_rec)
  moreover have "length (workers (pool_new 2 :: string pool)) \<le> 2 ^ 16" by (simp add: pool_new_def)
  moreover have "(1, AddRepeatTask 5 ''b'', Some (2 ^ 48)) \<in> set (returned sample_system)"
    by (simp add: sample_system_def)
  ultimately show ?thesis using timer_ids_unique [OF sample_system_reachable] by blast
qed

end
