(* ===== verification/KVCodec.thy ===== *)
theory KVCodec
  imports Codec TimeTypes
begin

text \<open>
  Keys and values of the key value store, \<^verbatim>\<open>src/include/nebula/common/utils/KVEncodeDecode.h\<close>, with the
  host addresses of \<^verbatim>\<open>common/service/Service.h\<close>. Integers are stored with the most significant byte
  first, so that the order of unsigned keys is the order of their bytes. A decoder reads from a
  string piece; advancing it past its end throws \<^verbatim>\<open>std::out_of_range\<close>, the error \<open>OUT_OF_RANGE\<close>.
  The decoders of vectors and maps add to the container they are given, which is their first
  argument here; what a container holds after an exception is not modelled.
\<close>

section \<open>Scalars\<close>

definition be_write :: "nat \<Rightarrow> 'l::len word \<Rightarrow> byte list" where
  "be_write n x = rev (le_write n x)"

definition be_read :: "nat \<Rightarrow> 'l::len word reader" where
  "be_read n buf = (if length buf < n then Inl OUT_OF_RANGE
     else Inr (le_word (rev (take n buf)), drop n buf))"

definition kv_bool_encode :: "bool \<Rightarrow> byte list" where
  "kv_bool_encode b = be_write 1 (if b then 1 else 0 :: byte)"

definition kv_bool_decode :: "bool reader" where
  "kv_bool_decode = rbind (be_read 1) (\<lambda>b :: byte. rreturn (b \<noteq> 0))"

section \<open>Strings, addresses, datetimes\<close>

definition kv_count :: "'a list \<Rightarrow> byte list" where
  "kv_count xs = be_write 4 (of_nat (length xs) :: uint32)"

definition kv_size :: "nat reader" where
  "kv_size = rbind (be_read 4) (\<lambda>n :: uint32. rreturn (unat n))"

text \<open>\<^verbatim>\<open>subpiece(0, size)\<close> takes what is there, \<^verbatim>\<open>advance(size)\<close> then throws when it is too little.\<close>

definition kv_piece :: "nat \<Rightarrow> byte list reader" where
  "kv_piece n buf = (if length buf < n then Inl OUT_OF_RANGE else Inr (take n buf, drop n buf))"

definition kv_string_encode :: "string \<Rightarrow> byte list" where
  "kv_string_encode str = kv_count str @ map byte_of_char str"

definition kv_string_decode :: "string reader" where
  "kv_string_decode = rbind kv_size (\<lambda>n. rbind (kv_piece n) (\<lambda>bs. rreturn (map char_of_byte bs)))"

record HostAddress =
  host :: string
  port :: uint32

definition kv_host_encode :: "HostAddress \<Rightarrow> byte list" where
  "kv_host_encode a = kv_string_encode (host a) @ be_write 4 (port a)"

definition kv_host_decode :: "HostAddress reader" where
  "kv_host_decode = rbind kv_string_decode (\<lambda>h. rbind (be_read 4) (\<lambda>p. rreturn \<lparr>host = h, port = p\<rparr>))"

definition kv_datetime_encode :: "ZonedDatetime \<Rightarrow> byte list" where
  "kv_datetime_encode dt = be_write 8 (qword (datetime dt))"

definition kv_datetime_decode :: "ZonedDatetime reader" where
  "kv_datetime_decode = rbind (be_read 8) (\<lambda>q. rreturn \<lparr>datetime = \<lparr>qword = q\<rparr>\<rparr>)"

section \<open>Containers\<close>

definition kv_vector_encode :: "('a \<Rightarrow> byte list) \<Rightarrow> 'a list \<Rightarrow> byte list" where
  "kv_vector_encode w xs = kv_count xs @ concat (map w xs)"

definition kv_vector_decode :: "'a reader \<Rightarrow> 'a list \<Rightarrow> 'a list reader" where
  "kv_vector_decode r vec = rbind kv_size (\<lambda>n. rbind (read_n r n) (\<lambda>xs. rreturn (vec @ xs)))"

definition kv_pair_encode :: "('a \<Rightarrow> byte list) \<Rightarrow> ('b \<Rightarrow> byte list) \<Rightarrow> 'a \<times> 'b \<Rightarrow> byte list" where
  "kv_pair_encode w1 w2 p = w1 (fst p) @ w2 (snd p)"

definition kv_pair_decode :: "'a reader \<Rightarrow> 'b reader \<Rightarrow> ('a \<times> 'b) reader" where
  "kv_pair_decode r1 r2 = rbind r1 (\<lambda>x. rbind r2 (\<lambda>y. rreturn (x, y)))"

definition kv_map_encode :: "('k \<Rightarrow> byte list) \<Rightarrow> ('v \<Rightarrow> byte list) \<Rightarrow> ('k \<times> 'v) list \<Rightarrow> byte list" where
  "kv_map_encode wk wv m = kv_count m @ concat (map (\<lambda>(k, v). wk k @ wv v) m)"

definition kv_map_decode ::
  "'k::linorder reader \<Rightarrow> 'v reader \<Rightarrow> ('k \<times> 'v) list \<Rightarrow> ('k \<times> 'v) list reader" where
  "kv_map_decode rk rv m = rbind kv_size
     (\<lambda>n. rbind (read_n (kv_pair_decode rk rv) n) (\<lambda>ps. rreturn (foldl map_emplace m ps)))"

definition kv_umap_encode :: "('k \<Rightarrow> byte list) \<Rightarrow> ('v \<Rightarrow> byte list) \<Rightarrow> ('k \<times> 'v) list \<Rightarrow> byte list" where
  "kv_umap_encode wk wv m = kv_count m @ concat (map (\<lambda>(k, v). wk k @ wv v) m)"

definition kv_umap_decode :: "'k reader \<Rightarrow> 'v reader \<Rightarrow> ('k \<times> 'v) list \<Rightarrow> ('k \<times> 'v) list reader" where
  "kv_umap_decode rk rv m = rbind kv_size
     (\<lambda>n. rbind (read_n (kv_pair_decode rk rv) n) (\<lambda>ps. rreturn (foldl umap_emplace m ps)))"

section \<open>Laws of the scalars\<close>

lemma length_be_write [simp]: "length (be_write n x) = n"
  by (simp add: be_write_def)

lemma consumes_check:
  assumes "\<And>buf. r buf = (if length buf < n then Inl e else Inr (f (take n buf), drop n buf))"
  shows "consumes r"
  unfolding consumes_def assms by (metis Inl_Inr_False append_take_drop_id prod.inject sum.inject(2))

lemma be_codec:
  assumes "LENGTH('l::len) = 8 * n"
  shows "codec (be_write n) (be_read n :: 'l word reader) (\<lambda>_. n) (\<lambda>_. True)"
proof
  fix x :: "'l word"
  show "decodes (be_read n) (be_write n x) x"
    using le_word_write [OF assms, of x] by (auto simp: decodes_def be_read_def be_write_def)
  show "consumes (be_read n :: 'l word reader)"
    by (rule consumes_check [where n = n and e = OUT_OF_RANGE and f = "\<lambda>bs. le_word (rev bs)"]) (simp add: be_read_def)
qed simp

interpretation kv8: codec "be_write 1" "be_read 1 :: byte reader" "\<lambda>_. 1" "\<lambda>_. True"
  by (rule be_codec) simp
interpretation kv32: codec "be_write 4" "be_read 4 :: uint32 reader" "\<lambda>_. 4" "\<lambda>_. True"
  by (rule be_codec) simp
interpretation kv64: codec "be_write 8" "be_read 8 :: uint64 reader" "\<lambda>_. 8" "\<lambda>_. True"
  by (rule be_codec) simp

interpretation kv_bool: codec kv_bool_encode kv_bool_decode "\<lambda>_. 1" "\<lambda>_. True"
proof
  fix x
  show "decodes kv_bool_decode (kv_bool_encode x) x"
    unfolding kv_bool_decode_def kv_bool_encode_def
    by (rule decodes_last [OF kv8.decodes_write]) auto
  show "consumes kv_bool_decode"
    unfolding kv_bool_decode_def by (intro consumes_bind consumes_return kv8.consumes_read)
qed (simp add: kv_bool_encode_def)

interpretation kv_datetime: codec kv_datetime_encode kv_datetime_decode "\<lambda>_. 8" "\<lambda>_. True"
proof
  fix x
  show "decodes kv_datetime_decode (kv_datetime_encode x) x"
    unfolding kv_datetime_decode_def kv_datetime_encode_def
    by (rule decodes_last [OF kv64.decodes_write]) simp_all
  show "consumes kv_datetime_decode"
    unfolding kv_datetime_decode_def by (intro consumes_bind consumes_return kv64.consumes_read)
qed (simp add: kv_datetime_encode_def)

section \<open>Laws of strings and containers\<close>

lemma length_kv_count [simp]: "length (kv_count xs) = 4"
  by (simp add: kv_count_def)

lemma decodes_kv_size: "length xs < 2 ^ 32 \<Longrightarrow> decodes kv_size (kv_count xs) (length xs)"
  unfolding kv_size_def kv_count_def
  by (rule decodes_last [OF kv32.decodes_write]) (simp_all add: unat_of_nat take_bit_nat_eq_self)

lemma consumes_kv_size: "consumes kv_size"
  unfolding kv_size_def by (intro consumes_bind consumes_return kv32.consumes_read)

lemma decodes_kv_piece: "length w = n \<Longrightarrow> decodes (kv_piece n) w w"
  by (auto simp: decodes_def kv_piece_def)

lemma consumes_kv_piece: "consumes (kv_piece n)"
  by (rule consumes_check [where n = n and e = OUT_OF_RANGE and f = id]) (simp add: kv_piece_def)

interpretation kv_string: codec kv_string_encode kv_string_decode string_size "\<lambda>str. length str < 2 ^ 32"
proof
  fix str :: string assume n: "length str < 2 ^ 32"
  show "decodes kv_string_decode (kv_string_encode str) str"
    unfolding kv_string_decode_def kv_string_encode_def
    by (rule decodes_bind [OF decodes_kv_size [OF n]], rule decodes_last [OF decodes_kv_piece])
      (simp_all add: comp_def)
next
  show "consumes kv_string_decode"
    unfolding kv_string_decode_def
    by (intro consumes_bind consumes_kv_size consumes_kv_piece consumes_return)
qed (simp add: kv_string_encode_def string_size_def)

interpretation kv_host: codec kv_host_encode kv_host_decode "\<lambda>a. string_size (host a) + 4"
  "\<lambda>a. length (host a) < 2 ^ 32"
proof
  fix a :: HostAddress assume n: "length (host a) < 2 ^ 32"
  show "decodes kv_host_decode (kv_host_encode a) a"
    unfolding kv_host_decode_def kv_host_encode_def
    by (rule decodes_bind [OF kv_string.decodes_write [OF n]], rule decodes_last [OF kv32.decodes_write])
      simp_all
  show "length (kv_host_encode a) = string_size (host a) + 4"
    using kv_string.size_write [OF n] by (simp add: kv_host_encode_def)
next
  show "consumes kv_host_decode"
    unfolding kv_host_decode_def
    by (intro consumes_bind kv_string.consumes_read kv32.consumes_read consumes_return)
qed

lemma kv_pair_eq: "kv_pair_encode = pair_write" "kv_pair_decode = pair_read"
  by (simp_all add: fun_eq_iff kv_pair_encode_def pair_write_def kv_pair_decode_def pair_read_def)

lemma kv_map_entries: "(\<lambda>(k, v). wk k @ wv v) = pair_write wk wv"
  by (simp add: fun_eq_iff pair_write_def)

lemma decodes_kv_elements:
  assumes "codec w r s v" "list_all v xs" "length xs < 2 ^ 32"
  shows "decodes (rbind kv_size (\<lambda>n. rbind (read_n r n) (\<lambda>xs. rreturn (f xs))))
    (kv_count xs @ concat (map w xs)) (f xs)"
  by (rule decodes_bind [OF decodes_kv_size [OF assms(3)]], rule decodes_last [OF decodes_read_n])
    (use assms codec.decodes_write [OF assms(1)] in \<open>auto simp: list_all_iff\<close>)

section \<open>The order of keys\<close>

text \<open>The number a list of bytes stands for, least significant byte first.\<close>

fun le_value :: "byte list \<Rightarrow> nat" where
  "le_value [] = 0"
| "le_value (b # bs) = unat b + 256 * le_value bs"

lemma le_value_append: "le_value (xs @ [b]) = le_value xs + 256 ^ length xs * unat b"
  by (induction xs) (simp_all add: algebra_simps)

lemma unat_byte: "unat (b :: byte) < 256"
  by (rule order_less_le_trans [OF unsigned_less]) simp

lemma unat_byte_of: "unat (ucast (drop_bit (8 * i) x) :: byte) = unat x div 256 ^ i mod 256" for x :: "'l::len word"
proof -
  have "unat (drop_bit (8 * i) x) = drop_bit (8 * i) (unat x)"
    by (rule bit_eqI) (auto simp: bit_unsigned_iff bit_drop_bit_eq dest: bit_imp_le_length)
  then have "unat (drop_bit (8 * i) x) = unat x div 256 ^ i"
    by (simp add: drop_bit_eq_div power_mult)
  moreover have "unat (ucast y :: byte) = unat y mod 256" for y :: "'l word"
    by (simp add: unsigned_ucast_eq take_bit_eq_mod)
  ultimately show ?thesis by (simp only:)
qed

lemma le_value_write: "le_value (le_write n x) = unat x mod 256 ^ n"
proof (induction n)
  case (Suc n)
  have "le_write (Suc n) x = le_write n x @ [ucast (drop_bit (8 * n) x)]" by (simp add: le_write_def)
  then show ?case
    using Suc mod_mult2_eq [of "unat x" "256 ^ n" 256]
    by (simp add: le_value_append unat_byte_of mult.commute [of 256])
qed (simp add: le_write_def)

lemma lexordp_Cons_bytes: "ord_class.lexordp (x # xs) (y # ys) \<longleftrightarrow> x < y \<or> x = y \<and> ord_class.lexordp xs ys"
  for x y :: "'a::linorder"
  by (auto simp: lexordp_simps)

lemma lex_radix:
  fixes a b c d k :: nat
  assumes "a < k" "b < k"
  shows "a + k * c < b + k * d \<longleftrightarrow> c < d \<or> c = d \<and> a < b"
proof -
  have "a + k * c < b + k * d" if "a < k" "c < d" for a b c d
  proof -
    have "k * Suc c \<le> k * d" using that(2) by (intro mult_le_mono2) simp
    then show ?thesis using that(1) by simp
  qed
  from this [of a c d b] this [of b d c a] assms show ?thesis by (cases c d rule: linorder_cases) auto
qed

lemma le_value_rev_less:
  assumes "length xs = length ys"
  shows "ord_class.lexordp (rev xs) (rev ys) \<longleftrightarrow> le_value xs < le_value ys"
  using assms
proof (induction xs arbitrary: ys rule: rev_induct)
  case (snoc x xs)
  obtain y zs where ys: "ys = zs @ [y]" "length zs = length xs"
    using snoc.prems by (cases ys rule: rev_cases) auto
  have bound: "le_value vs < 256 ^ length vs" for vs
  proof (induction vs)
    case (Cons b bs)
    then show ?case using unat_byte [of b] by simp
  qed simp
  have "le_value xs + 256 ^ length xs * unat x < le_value zs + 256 ^ length xs * unat y \<longleftrightarrow>
      unat x < unat y \<or> unat x = unat y \<and> le_value xs < le_value zs"
    using bound [of xs] bound [of zs] ys(2) by (simp add: lex_radix)
  then show ?case
    using snoc.IH [of zs] ys
    by (auto simp: le_value_append lexordp_Cons_bytes word_less_nat_alt word_unat_eq_iff)
qed simp

lemma be_write_less:
  fixes x y :: "'l::len word"
  assumes "LENGTH('l) = 8 * n"
  shows "ord_class.lexordp (be_write n x) (be_write n y) \<longleftrightarrow> x < y"
proof -
  have "unat z < 256 ^ n" for z :: "'l word"
    using unsigned_less [of z] assms by (simp add: power_mult)
  then show ?thesis
    by (simp add: be_write_def le_value_rev_less le_value_write word_less_nat_alt)
qed

lemma sint_half:
  fixes x :: "'l::len word"
  shows "- (2 ^ (LENGTH('l) - 1)) \<le> sint x" "sint x < 2 ^ (LENGTH('l) - 1)"
    and "uint x = (if sint x < 0 then sint x + 2 * 2 ^ (LENGTH('l) - 1) else sint x)"
proof -
  show b: "- (2 ^ (LENGTH('l) - 1)) \<le> sint x" "sint x < 2 ^ (LENGTH('l) - 1)"
    using sint_greater_eq [of x] sint_less [of x] by simp_all
  have two: "(2 :: int) ^ LENGTH('l) = 2 * 2 ^ (LENGTH('l) - 1)"
    using len_gt_0 [where 'a = 'l] by (simp flip: power_Suc)
  have u: "uint x = sint x mod 2 ^ LENGTH('l)" by (simp add: uint_sint take_bit_eq_mod)
  have "(sint x + 2 ^ LENGTH('l)) mod 2 ^ LENGTH('l) = sint x + 2 ^ LENGTH('l)" if "sint x < 0"
    using that b by (intro mod_pos_pos_trivial) (simp_all add: two)
  then have "uint x = (if sint x < 0 then sint x + 2 ^ LENGTH('l) else sint x)"
    using b u by (auto simp: two intro: mod_pos_pos_trivial)
  then show "uint x = (if sint x < 0 then sint x + 2 * 2 ^ (LENGTH('l) - 1) else sint x)"
    by (simp add: two)
qed

lemma unsigned_signed_less:
  "x < y \<longleftrightarrow> (if (sint x < 0) = (sint y < 0) then sint x < sint y else sint y < sint x)" for x y :: "'l::len word"
  using sint_half [of x] sint_half [of y] by (simp add: word_less_def)

section \<open>Decoding into a container\<close>

lemma foldl_umap_emplace_into:
  "distinct (map fst ps) \<Longrightarrow> foldl umap_emplace m ps = m @ filter (\<lambda>p. fst p \<notin> fst ` set m) ps"
proof (induction ps arbitrary: m)
  case (Cons p ps)
  have "filter (\<lambda>q. fst q \<notin> fst ` set (m @ [p])) ps = filter (\<lambda>q. fst q \<notin> fst ` set m) ps"
    using Cons.prems by (intro filter_cong) (auto simp: image_iff)
  then show ?case using Cons by (simp add: umap_emplace_def)
qed simp

section \<open>Properties\<close>

text \<open>Claim C32. Keys are stored in the order of the numbers they encode: of two unsigned keys of the same
  width the smaller one has the smaller bytes. Of two signed keys this holds exactly when they
  have the same sign; a negative key is stored after every other one.\<close>

theorem key_order:
  fixes x y :: "'l::len word"
  assumes "LENGTH('l) = 8 * n"
  shows "(ord_class.lexordp (be_write n x) (be_write n y) \<longleftrightarrow> x < y)
    \<and> (ord_class.lexordp (be_write n x) (be_write n y) \<longleftrightarrow>
        (if (sint x < 0) = (sint y < 0) then sint x < sint y else sint y < sint x))"
  using be_write_less [OF assms, of x y] unsigned_signed_less [of x y] by simp

theorem key_order_witness:
  "ord_class.lexordp (be_write 4 (200 :: uint32)) (be_write 4 (70000 :: uint32))
   \<and> ord_class.lexordp (be_write 8 (5 :: int64)) (be_write 8 (-1 :: int64))"
  using key_order [of 4 "200 :: uint32" 70000] key_order [of 8 "5 :: int64" "-1"] by simp

text \<open>Decoding adds to the container it is given: a vector keeps its elements in front of the
  decoded ones, and an unordered map keeps the values of the keys it already has. Only into
  empty containers is the round trip the identity.\<close>

theorem decode_into:
  assumes "codec w r s v" "list_all v xs" "length xs < 2 ^ 32"
    and "codec wk rk sk vk" "codec wv rv sv vv" "umap_valid vk vv m"
  shows "kv_vector_decode r vec (kv_vector_encode w xs @ rest) = Inr (vec @ xs, rest)
    \<and> kv_umap_decode rk rv old (kv_umap_encode wk wv m @ rest)
        = Inr (old @ filter (\<lambda>p. fst p \<notin> fst ` set old) m, rest)"
proof
  show "kv_vector_decode r vec (kv_vector_encode w xs @ rest) = Inr (vec @ xs, rest)"
    using decodes_kv_elements [OF assms(1-3), of "\<lambda>xs. vec @ xs"]
    by (simp add: decodes_def kv_vector_decode_def kv_vector_encode_def)
  have "foldl umap_emplace old m = old @ filter (\<lambda>p. fst p \<notin> fst ` set old) m"
    using assms(6) foldl_umap_emplace_into [of m old] by (simp add: umap_valid_def)
  then show "kv_umap_decode rk rv old (kv_umap_encode wk wv m @ rest)
      = Inr (old @ filter (\<lambda>p. fst p \<notin> fst ` set old) m, rest)"
    using decodes_kv_elements [OF pair_codec [OF assms(4,5)], of m "foldl umap_emplace old"] assms(6)
    by (simp add: decodes_def kv_umap_decode_def kv_umap_encode_def kv_map_entries kv_pair_eq umap_valid_def)
qed

theorem decode_into_witness:
  "kv_vector_decode kv_string_decode [''a''] (kv_vector_encode kv_string_encode [''b'', ''c''] @ [])
     = Inr ([''a'', ''b'', ''c''], [])
   \<and> kv_umap_decode kv_string_decode (be_read 4 :: uint32 reader) [(''k'', 1)]
       (kv_umap_encode kv_string_encode (be_write 4) [(''k'', 2 :: uint32), (''l'', 3)] @ [])
     = Inr ([(''k'', 1), (''l'', 3)], [])"
  using decode_into [OF kv_string.codec_axioms _ _ kv_string.codec_axioms kv32.codec_axioms,
      of "[''b'', ''c'']" "[(''k'', 2), (''l'', 3)]" "[''a'']" "[]" "[(''k'', 1)]"]
  by (simp add: umap_valid_def)

end
