(* ===== verification/NetAddr.thy ===== *)
theory NetAddr
  imports KVCodec EdgeIdent Double
begin

text \<open>
  Addresses of services: \<^verbatim>\<open>HostAddress\<close> of \<^verbatim>\<open>src/include/nebula/common/service/Service.h\<close>, a host name and a
  port with an order, a hash and a text form, and \<^verbatim>\<open>Address\<close> of \<^verbatim>\<open>common/nrpc/Address.h\<close>, a packed
  socket address. The text functions of folly (\<^verbatim>\<open>split\<close>, \<^verbatim>\<open>to\<close>, \<^verbatim>\<open>sformat\<close>) and its hash functions are
  parameters.
\<close>

section \<open>HostAddress\<close>

definition nullAddr :: HostAddress where
  "nullAddr = \<lparr>host = [], port = 0\<rparr>"

definition HostAddress_eq :: "HostAddress \<Rightarrow> HostAddress \<Rightarrow> bool" where
  "HostAddress_eq l r \<longleftrightarrow> host l = host r \<and> port l = port r"

definition HostAddress_less :: "HostAddress \<Rightarrow> HostAddress \<Rightarrow> bool" where
  "HostAddress_less l r = (if host l = host r then port l < port r else str_less (host l) (host r))"

definition HostAddress_hash :: "(string \<Rightarrow> uint32) \<Rightarrow> (int64 \<Rightarrow> uint32 \<Rightarrow> uint64) \<Rightarrow> HostAddress \<Rightarrow> uint64" where
  "HostAddress_hash fnv32_buf hash_combine a = hash_combine (ucast (fnv32_buf (host a))) (port a)"

datatype net_error = NETWORK_INVALID_HOST string

definition fromString :: "(char \<Rightarrow> string \<Rightarrow> string list) \<Rightarrow> (string \<Rightarrow> uint32 option) \<Rightarrow> string
    \<Rightarrow> net_error + HostAddress" where
  "fromString split to_port str = (let out = split CHR '':'' str in
     if length out \<noteq> 2 then Inl (NETWORK_INVALID_HOST str)
     else case to_port (out ! 1) of None \<Rightarrow> Inl (NETWORK_INVALID_HOST str)
       | Some p \<Rightarrow> Inr \<lparr>host = out ! 0, port = p\<rparr>)"

definition HostAddress_toString :: "(uint32 \<Rightarrow> string) \<Rightarrow> HostAddress \<Rightarrow> string" where
  "HostAddress_toString fmt a = host a @ '':'' @ fmt (port a)"

interpretation host_order: comparison HostAddress_less HostAddress_eq
proof unfold_locales
  fix a b c :: HostAddress
  show "HostAddress_eq a b \<Longrightarrow> \<not> HostAddress_less a b" by (simp add: HostAddress_eq_def HostAddress_less_def)
  show "HostAddress_less a b \<Longrightarrow> HostAddress_less b c \<Longrightarrow> HostAddress_less a c"
    using string_order.less_trans [of "host a" "host b" "host c"] string_order.less_asym [of "host a" "host b"]
    by (auto simp: HostAddress_less_def split: if_splits)
  show "\<not> HostAddress_less a b \<Longrightarrow> \<not> HostAddress_eq a b \<Longrightarrow> HostAddress_less b a"
    using string_order.less_total [of "host a" "host b"]
    by (auto simp: HostAddress_less_def HostAddress_eq_def split: if_splits)
qed (auto simp: HostAddress_eq_def)

interpretation host_key: hashed_key HostAddress_eq "HostAddress_hash fnv hc" id for fnv hc
  by unfold_locales (auto simp: HostAddress_eq_def)

section \<open>Text\<close>

fun join_with :: "char \<Rightarrow> string list \<Rightarrow> string" where
  "join_with d [] = []"
| "join_with d [p] = p"
| "join_with d (p # q # ps) = p @ d # join_with d (q # ps)"

text \<open>What the text functions promise: splitting gives the pieces between the delimiters, printing a
  port gives digits from which it is parsed back.\<close>

definition splits :: "(char \<Rightarrow> string \<Rightarrow> string list) \<Rightarrow> bool" where
  "splits split \<longleftrightarrow> (\<forall>d str. split d str \<noteq> [] \<and> join_with d (split d str) = str
     \<and> (\<forall>p \<in> set (split d str). d \<notin> set p))"

definition prints :: "(uint32 \<Rightarrow> string) \<Rightarrow> (string \<Rightarrow> uint32 option) \<Rightarrow> bool" where
  "prints fmt to_port \<longleftrightarrow> (\<forall>p. to_port (fmt p) = Some p \<and> CHR '':'' \<notin> set (fmt p))"

lemma join_with_count:
  "ps \<noteq> [] \<Longrightarrow> \<forall>p \<in> set ps. d \<notin> set p \<Longrightarrow> count_list (join_with d ps) d = length ps - 1"
  by (induction d ps rule: join_with.induct) simp_all

lemma split_host:
  assumes "splits split" "CHR '':'' \<notin> set p"
  shows "split CHR '':'' (h @ '':'' @ p) = [h, p] \<or>
    CHR '':'' \<in> set h \<and> length (split CHR '':'' (h @ '':'' @ p)) \<noteq> 2"
proof -
  let ?out = "split CHR '':'' (h @ '':'' @ p)"
  have out: "?out \<noteq> []" "join_with CHR '':'' ?out = h @ '':'' @ p" "\<forall>q \<in> set ?out. CHR '':'' \<notin> set q"
    using assms(1) by (simp_all add: splits_def)
  have n: "count_list (h @ '':'' @ p) CHR '':'' = length ?out - 1"
    using join_with_count [OF out(1,3)] out(2) by simp
  show ?thesis
  proof (cases "CHR '':'' \<in> set h")
    case True
    then have "0 < count_list h CHR '':''" by (metis count_list_0_iff gr0I)
    then show ?thesis using True n by auto
  next
    case False
    then have "length ?out = 2" using n assms(2) out(1) by simp
    then obtain a b where ab: "?out = [a, b]" by (auto simp: length_Suc_conv numeral_2_eq_2)
    then have "a @ CHR '':'' # b = h @ CHR '':'' # p" "CHR '':'' \<notin> set a" "CHR '':'' \<notin> set b" using out(2,3) by simp_all
    then have "a = h \<and> b = p" using append_Cons_eq_iff [of "CHR '':''" a b h p] by simp
    then show ?thesis using ab by simp
  qed
qed

text \<open>Text functions with these properties.\<close>

fun split_on :: "char \<Rightarrow> string \<Rightarrow> string list" where
  "split_on d [] = [[]]"
| "split_on d (c # cs) = (if c = d then [] # split_on d cs
     else case split_on d cs of [] \<Rightarrow> [[c]] | p # ps \<Rightarrow> (c # p) # ps)"

lemma join_with_Cons: "ps \<noteq> [] \<Longrightarrow> join_with d (p # ps) = p @ d # join_with d ps"
  by (cases ps) simp_all

lemma join_with_head: "join_with d ((c # p) # ps) = c # join_with d (p # ps)"
  by (cases ps) simp_all

lemma split_on_splits: "splits split_on"
proof -
  have "split_on d str \<noteq> [] \<and> join_with d (split_on d str) = str \<and> (\<forall>p \<in> set (split_on d str). d \<notin> set p)"
    for d str
    by (induction d str rule: split_on.induct)
      (auto simp: join_with_Cons join_with_head split: list.splits)
  then show ?thesis by (simp add: splits_def)
qed

definition parse_dec :: "string \<Rightarrow> int" where
  "parse_dec str = foldl (\<lambda>a c. 10 * a + (of_char c - 48)) 0 str"

lemma dec_digits_parse:
  "0 \<le> n \<Longrightarrow> parse_dec (dec_digits n) = n \<and> (\<forall>c \<in> set (dec_digits n). of_char c < (58 :: int))"
proof (induction n rule: dec_digits.induct)
  case (1 n)
  show ?case
  proof (cases "n < 10")
    case True
    then show ?thesis using 1(2) by (simp add: dec_digits.simps parse_dec_def of_char_of take_bit_int_eq_self)
  next
    case False
    then have "parse_dec (dec_digits (n div 10)) = n div 10 \<and> (\<forall>c \<in> set (dec_digits (n div 10)). of_char c < (58 :: int))"
      using 1 by simp
    moreover have "dec_digits n = dec_digits (n div 10) @ [char_of (48 + n mod 10)]"
      using False by (subst dec_digits.simps) simp
    moreover have "0 \<le> n mod 10" "n mod 10 < 10" by simp_all
    ultimately show ?thesis by (simp add: parse_dec_def of_char_of take_bit_int_eq_self)
  qed
qed

definition dec_port :: "uint32 \<Rightarrow> string" where
  "dec_port p = dec_digits (uint p)"

definition parse_port :: "string \<Rightarrow> uint32 option" where
  "parse_port str = Some (word_of_int (parse_dec str))"

lemma dec_port_prints: "prints dec_port parse_port"
proof -
  have "CHR '':'' \<notin> set (dec_digits n)" if "0 \<le> n" for n
    using dec_digits_parse [OF that] by auto
  then show ?thesis using dec_digits_parse by (simp add: prints_def dec_port_def parse_port_def)
qed

section \<open>Address\<close>

text \<open>The union is its sixteen bytes; the IPv4 address is the word of the first four.\<close>

record Address =
  a_family :: uint16
  a_port :: uint16
  a_ipv6 :: "byte list"
  a_id :: uint64

definition AF_INET :: uint16 where "AF_INET = 2"

definition Address_new :: Address where
  "Address_new = \<lparr>a_family = AF_INET, a_port = 0, a_ipv6 = replicate 16 0, a_id = 0\<rparr>"

definition a_ipv4 :: "Address \<Rightarrow> uint32" where
  "a_ipv4 a = le_word (take 4 (a_ipv6 a))"

definition Address_eq :: "Address \<Rightarrow> Address \<Rightarrow> bool" where
  "Address_eq l r =
     (if a_id l \<noteq> a_id r then False
      else if a_family l \<noteq> a_family r \<or> a_port l \<noteq> a_port r then False
      else if a_family l = AF_INET then a_ipv4 l = a_ipv4 r else a_ipv6 l = a_ipv6 r)"

definition Address_bytes :: "Address \<Rightarrow> byte list" where
  "Address_bytes a = le_write 2 (a_family a) @ le_write 2 (a_port a) @ a_ipv6 a @ le_write 8 (a_id a)"

definition Address_hash :: "(byte list \<Rightarrow> uint64) \<Rightarrow> Address \<Rightarrow> uint64" where
  "Address_hash fnv64_buf a = fnv64_buf (Address_bytes a)"

lemma le_word_inject:
  assumes "length bs = n" "length cs = n" "LENGTH('l::len) = 8 * n" "(le_word bs :: 'l word) = le_word cs"
  shows "bs = cs"
proof (rule nth_equalityI)
  fix i assume i: "i < length bs"
  show "bs ! i = cs ! i"
  proof (rule bit_word_eqI)
    fix k assume k: "k < LENGTH(8)"
    have "bit (le_word bs :: 'l word) (8 * i + k) = bit (le_word cs :: 'l word) (8 * i + k)"
      using assms(4) by simp
    moreover have "(8 * i + k) div 8 = i" "(8 * i + k) mod 8 = k" "8 * i + k < 8 * n"
      using i k assms(1) by simp_all
    ultimately show "bit (bs ! i) k = bit (cs ! i) k"
      using i assms(1-3) by (simp add: bit_le_word)
  qed
qed (simp add: assms)

section \<open>Properties\<close>

text \<open>A printed address is parsed back exactly when its host has no colon; an IPv6 host, which
  has, is refused as an invalid host.\<close>

theorem host_text_roundtrip:
  assumes "splits split" "prints fmt to_port"
  shows "fromString split to_port (HostAddress_toString fmt a) =
    (if CHR '':'' \<in> set (host a) then Inl (NETWORK_INVALID_HOST (HostAddress_toString fmt a)) else Inr a)"
proof -
  have p: "to_port (fmt (port a)) = Some (port a)" "CHR '':'' \<notin> set (fmt (port a))"
    using assms(2) by (simp_all add: prints_def)
  have "\<forall>q \<in> set (split CHR '':'' (host a @ '':'' @ fmt (port a))). CHR '':'' \<notin> set q"
    using assms(1) by (simp add: splits_def)
  then show ?thesis
    using split_host [OF assms(1) p(2), of "host a"] p(1)
    by (auto simp: fromString_def HostAddress_toString_def)
qed

theorem host_text_roundtrip_witness:
  "fromString split_on parse_port (HostAddress_toString dec_port \<lparr>host = ''meta0'', port = 9559\<rparr>)
     = Inr \<lparr>host = ''meta0'', port = 9559\<rparr>
   \<and> fromString split_on parse_port (HostAddress_toString dec_port \<lparr>host = ''::1'', port = 9559\<rparr>)
     = Inl (NETWORK_INVALID_HOST (HostAddress_toString dec_port \<lparr>host = ''::1'', port = 9559\<rparr>))"
  using host_text_roundtrip [OF split_on_splits dec_port_prints] by simp

text \<open>The hash of a socket address reads bytes that its equality ignores: two equal addresses
  are hashed from the same bytes exactly when they are not IPv4 or the unused twelve bytes agree.\<close>

theorem address_hash_bytes:
  assumes "length (a_ipv6 a) = 16" "length (a_ipv6 b) = 16" "Address_eq a b"
  shows "Address_bytes a = Address_bytes b \<longleftrightarrow>
    a_family a \<noteq> AF_INET \<or> drop 4 (a_ipv6 a) = drop 4 (a_ipv6 b)"
proof -
  have e: "a_id a = a_id b" "a_family a = a_family b" "a_port a = a_port b"
    using assms(3) by (auto simp: Address_eq_def split: if_splits)
  have "Address_bytes a = Address_bytes b \<longleftrightarrow> a_ipv6 a = a_ipv6 b"
    using assms(1,2) e by (simp add: Address_bytes_def)
  moreover have "take 4 (a_ipv6 a) = take 4 (a_ipv6 b)" if "a_family a = AF_INET"
  proof (rule le_word_inject [where 'l = 32])
    show "(le_word (take 4 (a_ipv6 a)) :: uint32) = le_word (take 4 (a_ipv6 b))"
      using that assms(3) e by (simp add: Address_eq_def a_ipv4_def)
  qed (use assms(1,2) in simp_all)
  moreover have "a_ipv6 a = a_ipv6 b" if "a_family a \<noteq> AF_INET"
    using that assms(3) e by (simp add: Address_eq_def)
  ultimately show ?thesis by (metis append_take_drop_id)
qed

theorem address_hash_bytes_witness:
  "Address_eq (Address_new\<lparr>a_ipv6 := [127, 0, 0, 1, 0, 0, 0, 0, 0, 0, 0, 0, 0, 0, 0, 0]\<rparr>)
     (Address_new\<lparr>a_ipv6 := [127, 0, 0, 1, 9, 0, 0, 0, 0, 0, 0, 0, 0, 0, 0, 0]\<rparr>)
   \<and> Address_bytes (Address_new\<lparr>a_ipv6 := [127, 0, 0, 1, 0, 0, 0, 0, 0, 0, 0, 0, 0, 0, 0, 0]\<rparr>)
     \<noteq> Address_bytes (Address_new\<lparr>a_ipv6 := [127, 0, 0, 1, 9, 0, 0, 0, 0, 0, 0, 0, 0, 0, 0, 0]\<rparr>)"
proof -
  let ?a = "Address_new\<lparr>a_ipv6 := [127, 0, 0, 1, 0, 0, 0, 0, 0, 0, 0, 0, 0, 0, 0, 0]\<rparr>"
  let ?b = "Address_new\<lparr>a_ipv6 := [127, 0, 0, 1, 9, 0, 0, 0, 0, 0, 0, 0, 0, 0, 0, 0]\<rparr>"
  have "Address_eq ?a ?b" by (simp add: Address_eq_def a_ipv4_def Address_new_def)
  moreover have "a_family ?a = AF_INET" by (simp add: Address_new_def)
  ultimately show ?thesis using address_hash_bytes [of ?a ?b] by simp
qed

end
