(* ===== verification/TypeKinds.thy ===== *)
theory TypeKinds
  imports Values
begin

text \<open>
  The type traits of \<^verbatim>\<open>src/include/nebula/common/datatype/ValueTypeKind.h\<close>: for each kind of value the
  C++ types that represent it, its flags, name and limits, and the macros that select the traits of
  a kind at run time. C++ types are their names, a member that a specialisation does not have is
  \<open>None\<close>; the aliases for the Arrow library are left out. \<^verbatim>\<open>TypeTraits<kFunction>\<close> has no members.
\<close>

section \<open>Traits\<close>

text \<open>\<^verbatim>\<open>std::numeric_limits\<close>: an integer, or the bits of a float or double.\<close>

datatype limit_value = LInt int | LFloat uint32 | LDouble double

record type_traits =
  native :: string
  view :: "string option"
  writer :: "string option"
  memory :: "string option"
  typeKind :: ValueTypeKind
  refTypeKind :: "RefKind option"
  numeric :: bool
  primitive :: bool
  fixedWidth :: bool
  refGetter :: "bool option"
  type_name :: string
  limits :: "(limit_value \<times> limit_value) option"
  precision :: "nat option"
  scale :: "nat option"
  kSigned :: "bool option"
  dataType :: bool

text \<open>\<^verbatim>\<open>CHECK_IF_TYPE_IS_TRIVIAL\<close> and \<^verbatim>\<open>CHECK_IF_TYPE_IS_PLAIN\<close>.\<close>

definition isTrivial :: "type_traits \<Rightarrow> bool option" where
  "isTrivial t = (case (view t, writer t, memory t) of
     (Some v, Some w, Some m) \<Rightarrow> Some (native t = v \<and> native t = w \<and> native t = m) | _ \<Rightarrow> None)"

definition isPlain :: "type_traits \<Rightarrow> bool option" where
  "isPlain t = (case (view t, memory t) of (Some v, Some m) \<Rightarrow> Some (v = m) | _ \<Rightarrow> None)"

definition traits_kNode :: type_traits where
  "traits_kNode = \<lparr>native = ''Node'', view = Some ''NodeView'', writer = Some ''vector::NodeWriter'',
     memory = Some ''vector::NodeHeader'', typeKind = kNode,
     refTypeKind = Some refNode, numeric = False, primitive = False, fixedWidth = False,
     refGetter = Some True, type_name = ''Node'',
     limits = None,
     precision = None, scale = None, kSigned = None,
     dataType = True\<rparr>"

definition traits_kRef :: type_traits where
  "traits_kRef = \<lparr>native = ''Ref'', view = Some ''Ref'', writer = Some ''Ref'',
     memory = Some ''Ref'', typeKind = kRef,
     refTypeKind = None, numeric = False, primitive = False, fixedWidth = False,
     refGetter = None, type_name = ''Ref'',
     limits = None,
     precision = None, scale = None, kSigned = None,
     dataType = True\<rparr>"

definition traits_kEdge :: type_traits where
  "traits_kEdge = \<lparr>native = ''Edge'', view = Some ''EdgeView'', writer = Some ''vector::EdgeWriter'',
     memory = Some ''vector::EdgeHeader'', typeKind = kEdge,
     refTypeKind = Some refEdge, numeric = False, primitive = False, fixedWidth = False,
     refGetter = Some True, type_name = ''Edge'',
     limits = None,
     precision = None, scale = None, kSigned = None,
     dataType = True\<rparr>"

definition traits_kBool :: type_traits where
  "traits_kBool = \<lparr>native = ''bool'', view = Some ''bool'', writer = Some ''bool'',
     memory = Some ''bool'', typeKind = kBool,
     refTypeKind = None, numeric = False, primitive = True, fixedWidth = True,
     refGetter = Some False, type_name = ''BOOL'',
     limits = Some (LInt 0, LInt 1),
     precision = None, scale = None, kSigned = None,
     dataType = True\<rparr>"

definition traits_kInt8 :: type_traits where
  "traits_kInt8 = \<lparr>native = ''int8_t'', view = Some ''int8_t'', writer = Some ''int8_t'',
     memory = Some ''int8_t'', typeKind = kInt8,
     refTypeKind = None, numeric = True, primitive = True, fixedWidth = True,
     refGetter = Some False, type_name = ''INT8'',
     limits = Some (LInt (-128), LInt 127),
     precision = Some (7), scale = Some (0), kSigned = Some (True),
     dataType = True\<rparr>"

definition traits_kInt16 :: type_traits where
  "traits_kInt16 = \<lparr>native = ''int16_t'', view = Some ''int16_t'', writer = Some ''int16_t'',
     memory = Some ''int16_t'', typeKind = kInt16,
     refTypeKind = None, numeric = True, primitive = True, fixedWidth = True,
     refGetter = Some False, type_name = ''INT16'',
     limits = Some (LInt (-32768), LInt 32767),
     precision = Some (15), scale = Some (0), kSigned = Some (True),
     dataType = True\<rparr>"

definition traits_kInt32 :: type_traits where
  "traits_kInt32 = \<lparr>native = ''int32_t'', view = Some ''int32_t'', writer = Some ''int32_t'',
     memory = Some ''int32_t'', typeKind = kInt32,
     refTypeKind = None, numeric = True, primitive = True, fixedWidth = True,
     refGetter = Some False, type_name = ''INT32'',
     limits = Some (LInt (-2147483648), LInt 2147483647),
     precision = Some (31), scale = Some (0), kSigned = Some (True),
     dataType = True\<rparr>"

definition traits_kInt64 :: type_traits where
  "traits_kInt64 = \<lparr>native = ''int64_t'', view = Some ''int64_t'', writer = Some ''int64_t'',
     memory = Some ''int64_t'', typeKind = kInt64,
     refTypeKind = None, numeric = True, primitive = True, fixedWidth = True,
     refGetter = Some False, type_name = ''INT64'',
     limits = Some (LInt (-9223372036854775808), LInt 9223372036854775807),
     precision = Some (63), scale = Some (0), kSigned = Some (True),
     dataType = True\<rparr>"

definition traits_kUint8 :: type_traits where
  "traits_kUint8 = \<lparr>native = ''uint8_t'', view = Some ''uint8_t'', writer = Some ''uint8_t'',
     memory = Some ''uint8_t'', typeKind = kUint8,
     refTypeKind = None, numeric = True, primitive = True, fixedWidth = True,
     refGetter = Some False, type_name = ''UINT8'',
     limits = Some (LInt 0, LInt 255),
     precision = Some (7), scale = Some (0), kSigned = Some (False),
     dataType = True\<rparr>"

definition traits_kUint16 :: type_traits where
  "traits_kUint16 = \<lparr>native = ''uint16_t'', view = Some ''uint16_t'', writer = Some ''uint16_t'',
     memory = Some ''uint16_t'', typeKind = kUint16,
     refTypeKind = None, numeric = True, primitive = True, fixedWidth = True,
     refGetter = Some False, type_name = ''UINT16'',
     limits = Some (LInt 0, LInt 65535),
     precision = Some (15), scale = Some (0), kSigned = Some (False),
     dataType = True\<rparr>"

definition traits_kUint32 :: type_traits where
  "traits_kUint32 = \<lparr>native = ''uint32_t'', view = Some ''uint32_t'', writer = Some ''uint32_t'',
     memory = Some ''uint32_t'', typeKind = kUint32,
     refTypeKind = None, numeric = True, primitive = True, fixedWidth = True,
     refGetter = Some False, type_name = ''UINT32'',
     limits = Some (LInt 0, LInt 4294967295),
     precision = Some (31), scale = Some (0), kSigned = Some (False),
     dataType = True\<rparr>"

definition traits_kUint64 :: type_traits where
  "traits_kUint64 = \<lparr>native = ''uint64_t'', view = Some ''uint64_t'', writer = Some ''uint64_t'',
     memory = Some ''uint64_t'', typeKind = kUint64,
     refTypeKind = None, numeric = True, primitive = True, fixedWidth = True,
     refGetter = Some False, type_name = ''UINT64'',
     limits = Some (LInt 0, LInt 18446744073709551615),
     precision = Some (63), scale = Some (0), kSigned = Some (False),
     dataType = True\<rparr>"

definition traits_kFloat32 :: type_traits where
  "traits_kFloat32 = \<lparr>native = ''float'', view = Some ''float'', writer = Some ''float'',
     memory = Some ''float'', typeKind = kFloat32,
     refTypeKind = None, numeric = True, primitive = True, fixedWidth = True,
     refGetter = Some False, type_name = ''FLOAT'',
     limits = Some (LFloat 0x00800000, LFloat 0x7F7FFFFF),
     precision = Some (23), scale = Some (8), kSigned = Some (True),
     dataType = True\<rparr>"

definition traits_kFloat64 :: type_traits where
  "traits_kFloat64 = \<lparr>native = ''double'', view = Some ''double'', writer = Some ''double'',
     memory = Some ''double'', typeKind = kFloat64,
     refTypeKind = None, numeric = True, primitive = True, fixedWidth = True,
     refGetter = Some False, type_name = ''DOUBLE'',
     limits = Some (LDouble 0x0010000000000000, LDouble 0x7FEFFFFFFFFFFFFF),
     precision = Some (52), scale = Some (11), kSigned = Some (True),
     dataType = True\<rparr>"

definition traits_kBytes :: type_traits where
  "traits_kBytes = \<lparr>native = ''String'', view = Some ''StringView'', writer = Some ''vector::StringWriter'',
     memory = Some ''StringView'', typeKind = kBytes,
     refTypeKind = None, numeric = False, primitive = True, fixedWidth = False,
     refGetter = Some True, type_name = ''BYTES'',
     limits = None,
     precision = None, scale = None, kSigned = None,
     dataType = True\<rparr>"

definition traits_kString :: type_traits where
  "traits_kString = \<lparr>native = ''String'', view = Some ''StringView'', writer = Some ''vector::StringWriter'',
     memory = Some ''StringView'', typeKind = kString,
     refTypeKind = None, numeric = False, primitive = True, fixedWidth = False,
     refGetter = Some True, type_name = ''STRING'',
     limits = None,
     precision = None, scale = None, kSigned = None,
     dataType = True\<rparr>"

definition traits_kList :: type_traits where
  "traits_kList = \<lparr>native = ''List'', view = Some ''vector::ListView'', writer = Some ''vector::ListWriter'',
     memory = Some ''vector::ListHeader'', typeKind = kList,
     refTypeKind = None, numeric = False, primitive = False, fixedWidth = False,
     refGetter = Some True, type_name = ''LIST'',
     limits = None,
     precision = None, scale = None, kSigned = None,
     dataType = True\<rparr>"

definition traits_kPath :: type_traits where
  "traits_kPath = \<lparr>native = ''Path'', view = Some ''vector::PathView'', writer = Some ''vector::PathWriter'',
     memory = Some ''vector::PathHeader'', typeKind = kPath,
     refTypeKind = None, numeric = False, primitive = False, fixedWidth = False,
     refGetter = Some True, type_name = ''Path'',
     limits = None,
     precision = None, scale = None, kSigned = None,
     dataType = True\<rparr>"

definition traits_kRecord :: type_traits where
  "traits_kRecord = \<lparr>native = ''Record'', view = Some ''vector::RecordView'', writer = Some ''vector::RecordWriter'',
     memory = Some ''folly::Unit'', typeKind = kRecord,
     refTypeKind = None, numeric = False, primitive = False, fixedWidth = False,
     refGetter = Some True, type_name = ''RECORD'',
     limits = None,
     precision = None, scale = None, kSigned = None,
     dataType = True\<rparr>"

definition traits_kLocalTime :: type_traits where
  "traits_kLocalTime = \<lparr>native = ''LocalTime'', view = Some ''LocalTime'', writer = Some ''LocalTime'',
     memory = Some ''LocalTime'', typeKind = kLocalTime,
     refTypeKind = None, numeric = False, primitive = True, fixedWidth = True,
     refGetter = Some True, type_name = ''LocalTime'',
     limits = None,
     precision = None, scale = None, kSigned = None,
     dataType = True\<rparr>"

definition traits_kZonedTime :: type_traits where
  "traits_kZonedTime = \<lparr>native = ''ZonedTime'', view = Some ''ZonedTime'', writer = Some ''ZonedTime'',
     memory = Some ''ZonedTime'', typeKind = kZonedTime,
     refTypeKind = None, numeric = False, primitive = True, fixedWidth = True,
     refGetter = Some True, type_name = ''ZonedTime'',
     limits = None,
     precision = None, scale = None, kSigned = None,
     dataType = True\<rparr>"

definition traits_kDuration :: type_traits where
  "traits_kDuration = \<lparr>native = ''Duration'', view = Some ''Duration'', writer = Some ''Duration'',
     memory = Some ''Duration'', typeKind = kDuration,
     refTypeKind = None, numeric = False, primitive = True, fixedWidth = True,
     refGetter = Some True, type_name = ''Duration'',
     limits = None,
     precision = None, scale = None, kSigned = None,
     dataType = True\<rparr>"

definition traits_kLocalDatetime :: type_traits where
  "traits_kLocalDatetime = \<lparr>native = ''LocalDatetime'', view = Some ''LocalDatetime'', writer = Some ''LocalDatetime'',
     memory = Some ''LocalDatetime'', typeKind = kLocalDatetime,
     refTypeKind = None, numeric = False, primitive = True, fixedWidth = True,
     refGetter = Some True, type_name = ''LocalDatetime'',
     limits = None,
     precision = None, scale = None, kSigned = None,
     dataType = True\<rparr>"

definition traits_kZonedDatetime :: type_traits where
  "traits_kZonedDatetime = \<lparr>native = ''ZonedDatetime'', view = Some ''ZonedDatetime'', writer = Some ''ZonedDatetime'',
     memory = Some ''ZonedDatetime'', typeKind = kZonedDatetime,
     refTypeKind = None, numeric = False, primitive = True, fixedWidth = True,
     refGetter = Some True, type_name = ''ZonedDatetime'',
     limits = None,
     precision = None, scale = None, kSigned = None,
     dataType = True\<rparr>"

definition traits_kDate :: type_traits where
  "traits_kDate = \<lparr>native = ''Date'', view = Some ''Date'', writer = Some ''Date'',
     memory = Some ''Date'', typeKind = kDate,
     refTypeKind = None, numeric = False, primitive = True, fixedWidth = True,
     refGetter = Some True, type_name = ''Date'',
     limits = None,
     precision = None, scale = None, kSigned = None,
     dataType = True\<rparr>"

definition traits_kAny :: type_traits where
  "traits_kAny = \<lparr>native = ''Value'', view = Some ''vector::DynamicView'', writer = Some ''vector::ScalarWriter'',
     memory = Some ''vector::ScalarData'', typeKind = kAny,
     refTypeKind = None, numeric = False, primitive = False, fixedWidth = False,
     refGetter = Some True, type_name = ''Any'',
     limits = None,
     precision = None, scale = None, kSigned = None,
     dataType = True\<rparr>"

definition traits_kNull :: type_traits where
  "traits_kNull = \<lparr>native = ''NullValue'', view = Some ''vector::NullView'', writer = Some ''vector::NullWriter'',
     memory = Some ''folly::Unit'', typeKind = kNull,
     refTypeKind = None, numeric = False, primitive = False, fixedWidth = True,
     refGetter = Some True, type_name = ''Null'',
     limits = None,
     precision = None, scale = None, kSigned = None,
     dataType = True\<rparr>"

definition traits_kInvalid :: type_traits where
  "traits_kInvalid = \<lparr>native = ''bool'', view = None, writer = None,
     memory = None, typeKind = kInvalid,
     refTypeKind = None, numeric = False, primitive = False, fixedWidth = False,
     refGetter = Some False, type_name = ''Invalid'',
     limits = None,
     precision = None, scale = None, kSigned = None,
     dataType = False\<rparr>"

fun TypeTraits :: "ValueTypeKind \<Rightarrow> type_traits option" where
  "TypeTraits kNode = Some traits_kNode"
| "TypeTraits kRef = Some traits_kRef"
| "TypeTraits kEdge = Some traits_kEdge"
| "TypeTraits kBool = Some traits_kBool"
| "TypeTraits kInt8 = Some traits_kInt8"
| "TypeTraits kInt16 = Some traits_kInt16"
| "TypeTraits kInt32 = Some traits_kInt32"
| "TypeTraits kInt64 = Some traits_kInt64"
| "TypeTraits kUint8 = Some traits_kUint8"
| "TypeTraits kUint16 = Some traits_kUint16"
| "TypeTraits kUint32 = Some traits_kUint32"
| "TypeTraits kUint64 = Some traits_kUint64"
| "TypeTraits kFloat32 = Some traits_kFloat32"
| "TypeTraits kFloat64 = Some traits_kFloat64"
| "TypeTraits kBytes = Some traits_kBytes"
| "TypeTraits kString = Some traits_kString"
| "TypeTraits kList = Some traits_kList"
| "TypeTraits kPath = Some traits_kPath"
| "TypeTraits kRecord = Some traits_kRecord"
| "TypeTraits kLocalTime = Some traits_kLocalTime"
| "TypeTraits kZonedTime = Some traits_kZonedTime"
| "TypeTraits kDuration = Some traits_kDuration"
| "TypeTraits kLocalDatetime = Some traits_kLocalDatetime"
| "TypeTraits kZonedDatetime = Some traits_kZonedDatetime"
| "TypeTraits kDate = Some traits_kDate"
| "TypeTraits kAny = Some traits_kAny"
| "TypeTraits kNull = Some traits_kNull"
| "TypeTraits kInvalid = Some traits_kInvalid"
| "TypeTraits kFunction = None"

section \<open>Dispatch\<close>

text \<open>A dispatch macro is the list of the kinds it has a case for; other kinds throw
  \<^verbatim>\<open>std::runtime_error\<close>, here \<open>None\<close>.\<close>

definition dispatch :: "ValueTypeKind list \<Rightarrow> (type_traits \<Rightarrow> 'a option) \<Rightarrow> ValueTypeKind \<Rightarrow> 'a option" where
  "dispatch kinds member k = (if k \<in> set kinds then Option.bind (TypeTraits k) member else None)"

definition type_dispatch :: "ValueTypeKind list" where
  "type_dispatch = [kNull, kNode, kEdge, kBool, kInt8, kInt16, kInt32, kInt64, kUint8, kUint16, kUint32,
     kUint64, kFloat32, kFloat64, kBytes, kString, kList, kPath, kRecord, kLocalTime, kZonedTime,
     kDuration, kDate, kLocalDatetime, kZonedDatetime, kRef, kAny, kInvalid]"

definition property_dispatch :: "ValueTypeKind list" where
  "property_dispatch = [kNull, kBool, kInt8, kInt16, kInt32, kInt64, kUint8, kUint16, kUint32, kUint64, kFloat32,
     kFloat64, kString, kList, kLocalTime, kZonedTime, kDuration, kDate, kLocalDatetime, kZonedDatetime,
     kRecord, kAny]"

definition physical_dispatch :: "ValueTypeKind list" where
  "physical_dispatch = [kBool, kInt8, kInt16, kInt32, kInt64, kUint8, kUint16, kUint32, kUint64, kFloat32, kFloat64,
     kString, kList, kLocalTime, kZonedTime, kDuration, kDate, kLocalDatetime, kZonedDatetime,
     kRecord, kNode, kEdge, kPath, kRef, kNull]"

definition physical_any_dispatch :: "ValueTypeKind list" where
  "physical_any_dispatch = [kBool, kInt8, kInt16, kInt32, kInt64, kUint8, kUint16, kUint32, kUint64, kFloat32, kFloat64,
     kString, kList, kLocalTime, kZonedTime, kDuration, kDate, kLocalDatetime, kZonedDatetime,
     kRecord, kNode, kEdge, kPath, kAny, kRef, kNull]"

definition isPrimitiveType :: "ValueTypeKind \<Rightarrow> bool option" where
  "isPrimitiveType k = dispatch type_dispatch (\<lambda>t. Some (primitive t)) k"

definition isNumericType :: "ValueTypeKind \<Rightarrow> bool option" where
  "isNumericType k = dispatch type_dispatch (\<lambda>t. Some (numeric t)) k"

definition isFixedWidth :: "ValueTypeKind \<Rightarrow> bool option" where
  "isFixedWidth k = dispatch type_dispatch (\<lambda>t. Some (fixedWidth t)) k"

definition kind_enum2String :: "ValueTypeKind \<Rightarrow> string option" where
  "kind_enum2String k = dispatch type_dispatch (\<lambda>t. Some (type_name t)) k"

definition isTrivialType :: "ValueTypeKind \<Rightarrow> bool option" where
  "isTrivialType k = dispatch physical_any_dispatch isTrivial k"

fun unableInline :: "ValueTypeKind \<Rightarrow> bool" where
  "unableInline kString = True"
| "unableInline kList = True"
| "unableInline kDuration = True"
| "unableInline kRecord = True"
| "unableInline kNode = True"
| "unableInline kEdge = True"
| "unableInline kPath = True"
| "unableInline _ = False"

lemmas traits_defs = traits_kNode_def traits_kRef_def traits_kEdge_def traits_kBool_def traits_kInt8_def
  traits_kInt16_def traits_kInt32_def traits_kInt64_def traits_kUint8_def traits_kUint16_def
  traits_kUint32_def traits_kUint64_def traits_kFloat32_def traits_kFloat64_def traits_kBytes_def
  traits_kString_def traits_kList_def traits_kPath_def traits_kRecord_def traits_kLocalTime_def
  traits_kZonedTime_def traits_kDuration_def traits_kLocalDatetime_def traits_kZonedDatetime_def
  traits_kDate_def traits_kAny_def traits_kNull_def traits_kInvalid_def

lemmas dispatch_defs = dispatch_def type_dispatch_def property_dispatch_def physical_dispatch_def
  physical_any_dispatch_def

section \<open>Properties\<close>

text \<open>Every kind but functions has traits, under its own kind. A kind is trivially copied
  exactly when it has a fixed width, with two exceptions, nulls (fixed width but not trivial) and
  references (trivial but not of fixed width); asking for byte strings, functions or the invalid
  kind throws.\<close>

theorem trivial_types:
  "(case TypeTraits k of None \<Rightarrow> k = kFunction | Some t \<Rightarrow> typeKind t = k)
   \<and> isTrivialType k =
      (if k \<in> {kBytes, kFunction, kInvalid} then None
       else if k = kNull then Some False
       else if k = kRef then Some True
       else isFixedWidth k)"
  by (cases k) (simp_all add: traits_defs dispatch_defs isTrivialType_def isFixedWidth_def isTrivial_def)

text \<open>The limits of the signed integer kinds are the range of their precision, \<open>- 2 ^ p\<close> to
  \<open>2 ^ p - 1\<close>; the unsigned kinds hold one bit more than their declared precision. The lower limit of the floating point kinds is not the least value but the smallest
  positive normal number, so a value of zero or below lies outside the declared limits.\<close>

theorem kind_limits:
  assumes "TypeTraits k = Some t" "precision t = Some p" "kSigned t = Some sg"
  shows "case limits t of
      Some (LInt lo, LInt hi) \<Rightarrow> (if sg then lo = - (2 ^ p) \<and> hi = 2 ^ p - 1 else lo = 0 \<and> hi = 2 ^ (p + 1) - 1)
    | Some (LFloat lo, LFloat hi) \<Rightarrow> k = kFloat32 \<and> lo = 2 ^ p \<and> lo < hi \<and> hi < 2 ^ 31
    | Some (LDouble lo, LDouble hi) \<Rightarrow> k = kFloat64 \<and> lo = 2 ^ p \<and> lo < hi \<and> hi < 2 ^ 63
    | _ \<Rightarrow> False"
  using assms by (cases k) (auto simp: traits_defs)

theorem kind_limits_witness:
  "limits traits_kInt16 = Some (LInt (- (2 ^ 15)), LInt (2 ^ 15 - 1))"
  using kind_limits [of kInt16 traits_kInt16 15 True] by (simp add: traits_kInt16_def)

end
