(* ===== verification/Hashing.thy ===== *)
theory Hashing
  imports Wire "HOL-Library.Multiset"
begin

text \<open>
  Hashing of values: \<^verbatim>\<open>hashCombine\<close> and \<^verbatim>\<open>hashContainer\<close> of
  \<^verbatim>\<open>src/include/nebula/common/datatype/ValueTypeKind.h\<close>, the hash functions of rows, lists, paths and
  records over them, the hash keys of nodes and edges (\<^verbatim>\<open>HashKeyAppender\<close> in \<^verbatim>\<open>Value.h\<close>), and
  \<^verbatim>\<open>BucketUtils::genBucketId\<close> of \<^verbatim>\<open>common/utils/Utils.h\<close>, which places a primary key in a bucket. The
  hash of a single value and the hash key of a value are compiled into the library and are
  parameters.
\<close>

unbundle bit_operations_syntax

section \<open>Containers\<close>

definition hashCombine :: "uint64 \<Rightarrow> uint64 \<Rightarrow> uint64" where
  "hashCombine seed hash = seed XOR (hash + 0x9e3779b9 + push_bit 6 seed + drop_bit 2 seed)"

definition hashContainer :: "('a \<Rightarrow> uint64) \<Rightarrow> 'a list \<Rightarrow> uint64" where
  "hashContainer hasher xs = foldl (\<lambda>seed v. hashCombine seed (hasher v)) 0 xs"

text \<open>The overload for unordered maps; the list is the order of iteration.\<close>

definition hashContainer_map :: "('k \<times> 'v \<Rightarrow> uint64) \<Rightarrow> ('k \<times> 'v) list \<Rightarrow> uint64" where
  "hashContainer_map hasher m = foldl (\<lambda>seed v. seed XOR hasher v) 0 m"

definition Row_hash :: "(Value \<Rightarrow> uint64) \<Rightarrow> Row \<Rightarrow> uint64" where
  "Row_hash hasher r = hashContainer hasher r"

definition Record_hash :: "(string \<times> Value \<Rightarrow> uint64) \<Rightarrow> properties_type \<Rightarrow> uint64" where
  "Record_hash hasher m = hashContainer_map hasher m"

section \<open>Hash keys\<close>

text \<open>\<^verbatim>\<open>append\<close> adds the bytes of an object in memory.\<close>

definition Node_hashKey :: "Node \<Rightarrow> byte list \<Rightarrow> byte list" where
  "Node_hashKey n key = key @ le_write 8 (nodeIdent n)"

definition Edge_hashKey :: "Edge \<Rightarrow> byte list \<Rightarrow> byte list" where
  "Edge_hashKey e key = (let i = edgeIdent e in
     key @ le_write 8 (srcID i) @ le_write 8 (dstID i) @ le_write 4 (graphID i)
       @ le_write 4 (edgeTypeID i) @ le_write 8 (rank i))"

definition List_hashKey :: "('v \<Rightarrow> byte list \<Rightarrow> byte list) \<Rightarrow> 'v list \<Rightarrow> byte list \<Rightarrow> byte list" where
  "List_hashKey value_hashKey vs key = foldl (\<lambda>key v. value_hashKey v key) key vs"

section \<open>Buckets\<close>

definition bucket_step :: "uint64 \<Rightarrow> uint64" where
  "bucket_step seed = (drop_bit 16 seed XOR seed) * 0x119de1f3"

definition bucket_mix :: "uint64 \<Rightarrow> uint64" where
  "bucket_mix seed = (let seed = bucket_step (bucket_step seed) in drop_bit 16 seed XOR seed)"

definition genBucketId :: "('v \<Rightarrow> uint64) \<Rightarrow> 'v list \<Rightarrow> BucketID" where
  "genBucketId hasher pkValues = ucast (bucket_mix (hashContainer hasher pkValues))"

section \<open>Laws\<close>

lemma foldl_xor: "foldl (\<lambda>s v. s XOR h v) s xs = s XOR foldl (\<lambda>s v. s XOR h v) 0 xs" for s :: uint64
proof (induction xs arbitrary: s)
  case (Cons x xs)
  show ?case
    using Cons.IH [of "s XOR h x"] Cons.IH [of "h x"] by (simp add: ac_simps)
qed simp

lemma hash_map_remove:
  "x \<in> set m \<Longrightarrow> hashContainer_map h m = h x XOR hashContainer_map h (remove1 x m)"
proof (induction m)
  case (Cons y m)
  have "hashContainer_map h (z # ys) = h z XOR hashContainer_map h ys" for z ys
    using foldl_xor [of h "h z" ys] by (simp add: hashContainer_map_def)
  then show ?case using Cons by (auto simp: ac_simps)
qed simp

lemma hash_map_mset: "mset m = mset m' \<Longrightarrow> hashContainer_map h m = hashContainer_map h m'"
proof (induction m arbitrary: m')
  case (Cons x m)
  have x: "x \<in> set m'" using Cons.prems by (metis list.set_intros(1) set_mset_mset)
  have "mset m = mset (remove1 x m')" using Cons.prems by (metis add_mset_remove_trivial mset.simps(2) mset_remove1)
  then have "hashContainer_map h m = hashContainer_map h (remove1 x m')" by (rule Cons.IH)
  then show ?case using hash_map_remove [of x "x # m" h] hash_map_remove [OF x, of h] by simp
qed simp

lemma le_write_inject:
  assumes "LENGTH('l::len) = 8 * n"
  shows "le_write n x = le_write n (y :: 'l word) \<longleftrightarrow> x = y"
  using le_word_write [OF assms] by metis

lemma Edge_hashKey_inject: "Edge_hashKey l key = Edge_hashKey r key \<longleftrightarrow> edgeIdent l = edgeIdent r"
proof
  assume "Edge_hashKey l key = Edge_hashKey r key"
  then have "srcID (edgeIdent l) = srcID (edgeIdent r)" "dstID (edgeIdent l) = dstID (edgeIdent r)"
    "graphID (edgeIdent l) = graphID (edgeIdent r)" "edgeTypeID (edgeIdent l) = edgeTypeID (edgeIdent r)"
    "rank (edgeIdent l) = rank (edgeIdent r)"
    by (simp_all add: Edge_hashKey_def Let_def le_write_inject)
  then show "edgeIdent l = edgeIdent r" by simp
qed (simp add: Edge_hashKey_def)

lemma xorshift_inj: "inj (\<lambda>x :: uint64. drop_bit 16 x XOR x)"
proof (rule injI)
  fix x y :: uint64
  assume e: "drop_bit 16 x XOR x = drop_bit 16 y XOR y"
  define z where "z = x XOR y"
  have "drop_bit 16 z = z"
  proof -
    have "(drop_bit 16 x XOR x) XOR (drop_bit 16 y XOR y) = 0" using e by simp
    then have "drop_bit 16 z XOR z = 0" by (simp add: z_def drop_bit_xor ac_simps)
    then show ?thesis by (simp add: bit_eq_iff bit_xor_iff)
  qed
  then have "bit (drop_bit 16 z) n \<longleftrightarrow> bit z n" for n by simp
  then have step: "bit z (16 + n) \<longleftrightarrow> bit z n" for n by (simp add: bit_drop_bit_eq)
  have "bit z n \<longleftrightarrow> bit z (16 + (16 + (16 + (16 + n))))" for n by (simp only: step)
  then have "\<not> bit z n" for n using bit_imp_le_length [of z "16 + (16 + (16 + (16 + n)))"] by auto
  then have "z = 0" by (simp add: bit_eq_iff)
  then show "x = y" unfolding z_def by (simp add: bit_eq_iff bit_xor_iff)
qed

lemma odd_mult_inj: "inj (\<lambda>x :: uint64. x * 0x119de1f3)"
proof (rule injI)
  fix x y :: uint64
  assume "x * 0x119de1f3 = y * 0x119de1f3"
  then have "x * 0x119de1f3 * 0x33302e38045d9f3b = y * 0x119de1f3 * 0x33302e38045d9f3b" by simp
  moreover have "(0x119de1f3 :: uint64) * 0x33302e38045d9f3b = 1" by simp
  ultimately show "x = y" unfolding mult.assoc by (metis mult.right_neutral)
qed

lemma bucket_mix_inj: "inj bucket_mix"
proof -
  have "bucket_step = (\<lambda>x. x * 0x119de1f3) \<circ> (\<lambda>x. drop_bit 16 x XOR x)"
    by (simp add: fun_eq_iff bucket_step_def)
  then have s: "inj bucket_step" using inj_compose [OF odd_mult_inj xorshift_inj] by simp
  have "bucket_mix = (\<lambda>x. drop_bit 16 x XOR x) \<circ> bucket_step \<circ> bucket_step"
    by (simp add: fun_eq_iff bucket_mix_def Let_def)
  then show ?thesis using inj_compose [OF inj_compose [OF xorshift_inj s] s] by simp
qed

section \<open>Properties\<close>

text \<open>The hash of a record does not depend on the order in which its fields are stored: two
  property maps with the same entries have the same hash.\<close>

theorem record_hash_order:
  assumes "distinct (map fst m)" "distinct (map fst m')" "map_of m = map_of m'"
  shows "Record_hash hasher m = Record_hash hasher m'"
proof -
  have "set m = set m'" using assms map_of_inject_set by blast
  then have "mset m = mset m'"
    using assms(1,2) by (metis distinct_map set_eq_iff_mset_eq_distinct)
  then show ?thesis unfolding Record_hash_def by (rule hash_map_mset)
qed

theorem record_hash_order_witness:
  "Record_hash (\<lambda>p. of_nat (length (fst p))) [(''name'', VBool True), (''id'', VBool False)]
   = Record_hash (\<lambda>p. of_nat (length (fst p))) [(''id'', VBool False), (''name'', VBool True)]"
  by (rule record_hash_order) (auto simp: fun_eq_iff)

text \<open>The hash key of an edge is exactly its identifier, field by field. The identifiers of
  an edge and of its reverse are equal, and yet their keys always differ: grouping by hash key
  separates equal edges.\<close>

theorem edge_hash_key:
  "(Edge_hashKey l key = Edge_hashKey r key \<longleftrightarrow> edgeIdent l = edgeIdent r)
   \<and> edgeID_eq (edgeIdent l) (reverseEdge (edgeIdent l))
   \<and> Edge_hashKey (l\<lparr>edgeIdent := reverseEdge (edgeIdent l)\<rparr>) key \<noteq> Edge_hashKey l key"
proof -
  have "reverseType t \<noteq> t" for t
    by (simp add: type_eq_iff dir_bits)
  then have "reverseEdge e \<noteq> e" for e by (metis EdgeID.select_convs(5) EdgeID.surjective EdgeID.update_convs(5) reverseEdge_def)
  then show ?thesis by (simp add: Edge_hashKey_inject edgeID_eq_reverse)
qed

text \<open>Placing keys in buckets loses nothing before the final truncation: the mixing is a
  bijection of 64 bit words, so that single column keys with different hashes stay different, and
  every bucket is hit.\<close>

theorem bucket_mixing:
  "bij bucket_mix
   \<and> (bucket_mix (hashContainer hasher [v]) = bucket_mix (hashContainer hasher [w]) \<longleftrightarrow> hasher v = hasher w)
   \<and> (\<exists>x. genBucketId (\<lambda>u. x) [v] = b)"
proof -
  have bij: "bij bucket_mix" using bucket_mix_inj by (simp add: bijI finite_UNIV_inj_surj)
  have one: "hashContainer h [u] = h u + 0x9e3779b9" for h :: "'a \<Rightarrow> uint64" and u
    by (simp add: hashContainer_def hashCombine_def)
  obtain y where "bucket_mix y = ucast b" using bij by (metis bij_pointE)
  moreover have "ucast (ucast b :: uint64) = b" by (rule bit_word_eqI) (simp add: bit_ucast_iff)
  ultimately have "genBucketId (\<lambda>u. y - 0x9e3779b9) [v] = b" by (simp add: genBucketId_def one)
  then show ?thesis using bij bucket_mix_inj by (auto simp: one inj_eq)
qed

end
