(* ===== verification/StrView.thy ===== *)
theory StrView
  imports EdgeIdent
begin

text \<open>
  \<^verbatim>\<open>StringView\<close> of \<^verbatim>\<open>src/include/nebula/common/datatype/String.h\<close>: a string in sixteen bytes, its size, its
  first four characters and either the next eight or a pointer to all of them. Comparisons look at
  the prefix first and at the rest only when they have to. The model keeps the bytes of the
  inlined part, or the memory the pointer leads to; the part that the constructor leaves
  uninitialised for the empty string is the parameter \<open>junk\<close>.
\<close>

section \<open>Memory\<close>

fun byte_cmp :: "byte list \<Rightarrow> byte list \<Rightarrow> int" where
  "byte_cmp (x # xs) (y # ys) = (if x < y then -1 else if y < x then 1 else byte_cmp xs ys)"
| "byte_cmp _ _ = 0"

definition memcmp :: "byte list \<Rightarrow> byte list \<Rightarrow> nat \<Rightarrow> int" where
  "memcmp a b n = byte_cmp (take n a) (take n b)"

section \<open>StringView\<close>

definition kPrefixSize :: uint32 where "kPrefixSize = 4"

definition kInlineSize :: uint32 where "kInlineSize = 12"

datatype sv_value = Inlined "byte list" | Pointer "byte list"

record StringView =
  sv_size :: uint32
  sv_prefix :: "byte list"
  sv_value :: sv_value

definition isInline :: "StringView \<Rightarrow> bool" where
  "isInline v \<longleftrightarrow> sv_size v \<le> kInlineSize"

definition StringView_make :: "byte list \<Rightarrow> byte list \<Rightarrow> uint32 \<Rightarrow> StringView" where
  "StringView_make junk str len =
     (if len \<le> kInlineSize then
        (if len = 0 then \<lparr>sv_size = len, sv_prefix = replicate 4 0, sv_value = Inlined junk\<rparr>
         else let buf = take (unat len) str @ replicate (12 - unat len) 0 in
           \<lparr>sv_size = len, sv_prefix = take 4 buf, sv_value = Inlined (drop 4 buf)\<rparr>)
      else \<lparr>sv_size = len, sv_prefix = take 4 str, sv_value = Pointer str\<rparr>)"

definition StringView_of :: "byte list \<Rightarrow> byte list \<Rightarrow> StringView" where
  "StringView_of junk str = StringView_make junk str (of_nat (length str))"

definition sv_data :: "StringView \<Rightarrow> byte list" where
  "sv_data v = (case sv_value v of Inlined bs \<Rightarrow> sv_prefix v @ bs | Pointer p \<Rightarrow> p)"

definition sv_string :: "StringView \<Rightarrow> byte list" where
  "sv_string v = take (unat (sv_size v)) (sv_data v)"

definition isAllAscii :: "StringView \<Rightarrow> bool" where
  "isAllAscii v = list_all (\<lambda>c. \<not> bit c 7) (sv_string v)"

definition inlined :: "StringView \<Rightarrow> byte list" where
  "inlined v = (case sv_value v of Inlined bs \<Rightarrow> bs | Pointer p \<Rightarrow> [])"

definition sv_eq :: "StringView \<Rightarrow> StringView \<Rightarrow> bool" where
  "sv_eq v w =
     (if sv_size v \<noteq> sv_size w \<or> sv_prefix v \<noteq> sv_prefix w then False
      else if isInline v then sv_size v \<le> kPrefixSize \<or> inlined v = inlined w
      else memcmp (drop 4 (sv_data v)) (drop 4 (sv_data w)) (unat (sv_size v - kPrefixSize)) = 0)"

definition sv_compare :: "StringView \<Rightarrow> StringView \<Rightarrow> int" where
  "sv_compare v w =
     (let prefixRes = memcmp (sv_prefix v) (sv_prefix w) 4;
          size = sint (min (sv_size v) (sv_size w) - kPrefixSize);
          diff = sint (sv_size v - sv_size w) in
      if prefixRes \<noteq> 0 then prefixRes
      else if size \<le> 0 then diff
      else if isInline v \<and> isInline w then
        (let result = memcmp (inlined v) (inlined w) (nat size) in if result \<noteq> 0 then result else diff)
      else
        (let result = memcmp (drop 4 (sv_data v)) (drop 4 (sv_data w)) (nat size) in
         if result \<noteq> 0 then result else diff))"

definition sv_hash :: "(byte list \<Rightarrow> uint64) \<Rightarrow> StringView \<Rightarrow> uint64" where
  "sv_hash string_hash v = string_hash (sv_string v)"

section \<open>Reference: comparison of byte strings\<close>

fun lexcmp :: "byte list \<Rightarrow> byte list \<Rightarrow> int" where
  "lexcmp [] [] = 0"
| "lexcmp [] (y # ys) = -1"
| "lexcmp (x # xs) [] = 1"
| "lexcmp (x # xs) (y # ys) = (if x < y then -1 else if y < x then 1 else lexcmp xs ys)"

lemma lexcmp_0: "lexcmp a b = 0 \<longleftrightarrow> a = b"
  by (induction a b rule: lexcmp.induct) auto

lemma lexcmp_less: "lexcmp a b < 0 \<longleftrightarrow> ord_class.lexordp a b"
  by (induction a b rule: lexcmp.induct) (auto simp: lexordp_simps)

lemma byte_cmp_0: "length a = length b \<Longrightarrow> byte_cmp a b = 0 \<longleftrightarrow> a = b"
  by (induction a b rule: byte_cmp.induct) auto

text \<open>Comparing the common part decides, unless one string is a prefix of the other.\<close>

lemma lexcmp_common:
  "lexcmp a b = (let r = byte_cmp (take (min (length a) (length b)) a) (take (min (length a) (length b)) b)
     in if r \<noteq> 0 then r else sgn (int (length a) - int (length b)))"
  by (induction a b rule: lexcmp.induct) (auto simp: Let_def)

definition padded :: "nat \<Rightarrow> byte list \<Rightarrow> byte list" where
  "padded n s = take n s @ replicate (n - length s) 0"

lemma padded_simps [simp]:
  "padded 0 s = []" "padded (Suc n) [] = 0 # padded n []" "padded (Suc n) (x # xs) = x # padded n xs"
  by (simp_all add: padded_def)

lemma byte_cmp_same [simp]: "byte_cmp a a = 0"
  by (simp add: byte_cmp_0)

lemma length_padded [simp]: "length (padded n s) = n"
  by (simp add: padded_def)

text \<open>A difference within the zero padded prefixes is a difference of the strings.\<close>

lemma byte_cmp_padded:
  "byte_cmp (padded n a) (padded n b) \<noteq> 0 \<Longrightarrow> byte_cmp (padded n a) (padded n b) = lexcmp a b"
proof (induction n arbitrary: a b)
  case (Suc n)
  show ?case
  proof (cases a; cases b)
    fix y ys assume "a = []" "b = y # ys"
    then show ?thesis using Suc.prems Suc.IH [of "[]" ys] by (cases ys) (auto split: if_splits)
  next
    fix x xs assume "a = x # xs" "b = []"
    then show ?thesis using Suc.prems Suc.IH [of xs "[]"] by (cases xs) (auto split: if_splits)
  qed (use Suc in \<open>auto split: if_splits\<close>)
qed simp

section \<open>What a view holds\<close>

lemma inline_iff: "length str < 2 ^ 32 \<Longrightarrow> (of_nat (length str) :: uint32) \<le> kInlineSize \<longleftrightarrow> length str \<le> 12"
  by (simp add: kInlineSize_def word_le_nat_alt unat_of_nat take_bit_nat_eq_self)

lemma view_size: "sv_size (StringView_of junk str) = of_nat (length str)"
  by (simp add: StringView_of_def StringView_make_def Let_def)

lemma size_unat: "length str < 2 ^ 32 \<Longrightarrow> unat (sv_size (StringView_of junk str)) = length str"
  by (simp add: view_size unat_of_nat take_bit_nat_eq_self)

lemma view_inline: "length str < 2 ^ 32 \<Longrightarrow> isInline (StringView_of junk str) \<longleftrightarrow> length str \<le> 12"
  by (simp add: isInline_def view_size inline_iff)

lemma size_zero: "length str < 2 ^ 32 \<Longrightarrow> (of_nat (length str) :: uint32) = 0 \<longleftrightarrow> str = []"
  by (simp add: word_unat_eq_iff unat_of_nat take_bit_nat_eq_self)

lemma view_short:
  assumes "length str \<le> 12" "str \<noteq> []"
  shows "StringView_of junk str = \<lparr>sv_size = of_nat (length str), sv_prefix = take 4 (padded 12 str),
    sv_value = Inlined (drop 4 (padded 12 str))\<rparr>"
proof -
  have n: "length str < 2 ^ 32" using assms(1) by simp
  then have u: "unat (of_nat (length str) :: uint32) = length str" by (simp add: unat_of_nat take_bit_nat_eq_self)
  have "str @ replicate (12 - length str) 0 = padded 12 str" using assms(1) by (simp add: padded_def)
  then show ?thesis
    using assms inline_iff [OF n] size_zero [OF n] by (simp add: StringView_of_def StringView_make_def Let_def u)
qed

lemma take_padded: "n \<le> m \<Longrightarrow> take n (padded m s) = padded n s"
  by (simp add: padded_def min_def)

lemma view_prefix:
  assumes "length str < 2 ^ 32"
  shows "sv_prefix (StringView_of junk str) = padded 4 str"
proof (cases "length str \<le> 12 \<and> str \<noteq> []")
  case True
  then show ?thesis by (simp add: view_short take_padded)
next
  case False
  then show ?thesis
    using assms inline_iff [OF assms] size_zero [OF assms]
    by (auto simp: StringView_of_def StringView_make_def padded_def)
qed

lemma view_rest:
  assumes "length str < 2 ^ 32" "4 < length str"
  shows "take (length str - 4) (drop 4 (sv_data (StringView_of junk str))) = drop 4 str"
    and "length str \<le> 12 \<Longrightarrow> inlined (StringView_of junk str) = drop 4 (padded 12 str)"
proof -
  have ne: "str \<noteq> []" using assms(2) by auto
  show "inlined (StringView_of junk str) = drop 4 (padded 12 str)" if "length str \<le> 12"
    using view_short [OF that ne] by (simp add: inlined_def)
  show "take (length str - 4) (drop 4 (sv_data (StringView_of junk str))) = drop 4 str"
  proof (cases "length str \<le> 12")
    case True
    then show ?thesis using view_short [OF True ne] assms(2) by (simp add: sv_data_def padded_def)
  next
    case False
    then show ?thesis
      using inline_iff [OF assms(1)] by (simp add: StringView_of_def StringView_make_def sv_data_def)
  qed
qed

lemma view_string: "length str < 2 ^ 32 \<Longrightarrow> sv_string (StringView_of junk str) = str"
proof (cases "str = []")
  case True
  then show ?thesis by (simp add: sv_string_def view_size)
next
  case False
  assume n: "length str < 2 ^ 32"
  show ?thesis
  proof (cases "length str \<le> 12")
    case True
    have "sv_data (StringView_of junk str) = padded 12 str"
      using view_short [OF True False] by (simp add: sv_data_def)
    moreover have "take (length str) (padded 12 str) = str" using True by (simp add: padded_def)
    ultimately show ?thesis using size_unat [OF n, of junk] by (simp add: sv_string_def)
  next
    case False
    then show ?thesis using inline_iff [OF n] size_unat [OF n, of junk]
      by (simp add: sv_string_def sv_data_def StringView_of_def StringView_make_def)
  qed
qed

section \<open>Comparisons\<close>

lemma unpad: "length s \<le> n \<Longrightarrow> take (length s) (padded n s) = s"
  by (simp add: padded_def)

lemma padded_inject: "length a = length b \<Longrightarrow> length a \<le> n \<Longrightarrow> padded n a = padded n b \<longleftrightarrow> a = b"
  by (metis unpad)

lemma padded_split: "4 < length s \<Longrightarrow> padded 4 s = take 4 s"
  by (simp add: padded_def)

lemma unat_minus_prefix:
  assumes "length s < 2 ^ 32" "4 \<le> length s"
  shows "unat ((of_nat (length s) :: uint32) - kPrefixSize) = length s - 4"
proof -
  have u: "unat (of_nat (length s) :: uint32) = length s" using assms(1) by (simp add: unat_of_nat take_bit_nat_eq_self)
  then have "kPrefixSize \<le> (of_nat (length s) :: uint32)" using assms(2) by (simp add: kPrefixSize_def word_le_nat_alt)
  then show ?thesis using u by (simp add: unat_sub kPrefixSize_def)
qed

lemma view_eq_correct:
  assumes "length a < 2 ^ 32" "length b < 2 ^ 32"
  shows "sv_eq (StringView_of j a) (StringView_of k b) \<longleftrightarrow> a = b"
proof (cases "length a = length b \<and> padded 4 a = padded 4 b")
  case False
  have "sv_size (StringView_of j a) = sv_size (StringView_of k b) \<longleftrightarrow> length a = length b"
    using size_unat [OF assms(1), of j] size_unat [OF assms(2), of k] by (metis word_unat_eq_iff)
  then show ?thesis using False view_prefix assms by (auto simp: sv_eq_def)
next
  case True
  then have l: "length a = length b" and p: "padded 4 a = padded 4 b" by simp_all
  have small: "(of_nat (length a) :: uint32) \<le> kPrefixSize \<longleftrightarrow> length a \<le> 4"
    using assms(1) by (simp add: kPrefixSize_def word_le_nat_alt unat_of_nat take_bit_nat_eq_self)
  have head: "sv_eq (StringView_of j a) (StringView_of k b) \<longleftrightarrow>
      (if length a \<le> 12 then length a \<le> 4 \<or> inlined (StringView_of j a) = inlined (StringView_of k b)
       else memcmp (drop 4 (sv_data (StringView_of j a))) (drop 4 (sv_data (StringView_of k b))) (length a - 4) = 0)"
    using assms l p small unat_minus_prefix [OF assms(1)]
    by (simp add: sv_eq_def view_size view_prefix view_inline)
  show ?thesis
  proof (cases "length a \<le> 4")
    case True
    then show ?thesis using head p l padded_inject [of a b 4] by simp
  next
    case False
    note ra = view_rest [OF assms(1), of j] and rb = view_rest [OF assms(2), of k]
    have four: "take 4 a = take 4 b" using p False l by (simp add: padded_split)
    have "sv_eq (StringView_of j a) (StringView_of k b) \<longleftrightarrow> drop 4 a = drop 4 b"
    proof (cases "length a \<le> 12")
      case True
      have "inlined (StringView_of j a) = inlined (StringView_of k b) \<longleftrightarrow> drop 4 a = drop 4 b"
        using ra(2) rb(2) True False l by (simp add: padded_def)
      then show ?thesis using head True False by simp
    next
      case n: False
      have "memcmp (drop 4 (sv_data (StringView_of j a))) (drop 4 (sv_data (StringView_of k b))) (length a - 4)
          = byte_cmp (drop 4 a) (drop 4 b)"
        using ra(1) rb(1) False l by (simp add: memcmp_def)
      then show ?thesis using head n byte_cmp_0 [of "drop 4 a" "drop 4 b"] l by simp
    qed
    then show ?thesis using four by (metis append_take_drop_id)
  qed
qed

lemma sint_small: "m < 2 ^ 31 \<Longrightarrow> n < 2 ^ 31 \<Longrightarrow> sint (of_nat m - of_nat n :: uint32) = int m - int n"
proof -
  assume a: "m < 2 ^ 31" "n < 2 ^ 31"
  have "(of_nat m - of_nat n :: uint32) = word_of_int (int m - int n)" by simp
  then have "sint (of_nat m - of_nat n :: uint32) = signed_take_bit 31 (int m - int n)"
    by (simp only: signed_of_int) simp
  also have "\<dots> = int m - int n" using a by (intro signed_take_bit_int_eq_self) auto
  finally show ?thesis .
qed

lemma view_tail:
  assumes "length s < 2 ^ 32" "4 < length s" "m \<le> length s - 4"
  shows "take m (drop 4 (sv_data (StringView_of j s))) = take m (drop 4 s)"
    and "length s \<le> 12 \<Longrightarrow> take m (inlined (StringView_of j s)) = take m (drop 4 s)"
proof -
  have "take m (drop 4 (sv_data (StringView_of j s)))
      = take m (take (length s - 4) (drop 4 (sv_data (StringView_of j s))))"
    using assms(3) by (simp only: take_take min.absorb1)
  then show "take m (drop 4 (sv_data (StringView_of j s))) = take m (drop 4 s)"
    by (simp only: view_rest(1) [OF assms(1,2)])
  show "take m (inlined (StringView_of j s)) = take m (drop 4 s)" if "length s \<le> 12"
    using view_rest(2) [OF assms(1,2) that, of j] assms(2,3) that by (simp add: padded_def)
qed

lemma byte_cmp_append: "byte_cmp (x @ y) (x @ z) = byte_cmp y z"
  by (induction x) simp_all

lemma take_split: "m \<le> n \<Longrightarrow> take n s = take m s @ take (n - m) (drop m s)"
  by (subst take_add [symmetric]) simp

lemma take_padded_le: "m \<le> n \<Longrightarrow> m \<le> length s \<Longrightarrow> take m (padded n s) = take m s"
  by (simp add: padded_def)

lemma view_compare_correct:
  assumes "length a < 2 ^ 31" "length b < 2 ^ 31"
  shows "sgn (sv_compare (StringView_of j a) (StringView_of k b)) = lexcmp a b"
proof -
  let ?v = "StringView_of j a" and ?w = "StringView_of k b"
  let ?n = "min (length a) (length b)"
  have a32: "length a < 2 ^ 32" "length b < 2 ^ 32" using assms by simp_all
  have sgn_cmp: "sgn (lexcmp xs ys) = lexcmp xs ys" for xs ys by (induction xs ys rule: lexcmp.induct) auto
  have sgn_byte: "sgn (byte_cmp xs ys) = byte_cmp xs ys" for xs ys by (induction xs ys rule: byte_cmp.induct) auto
  have "min (sv_size ?v) (sv_size ?w) = of_nat ?n"
    using a32 by (auto simp: view_size min_def word_le_nat_alt unat_of_nat take_bit_nat_eq_self)
  then have size: "sint (min (sv_size ?v) (sv_size ?w) - kPrefixSize) = int ?n - 4"
    using sint_small [of ?n 4] assms by (simp add: kPrefixSize_def min_def split: if_splits)
  have diff: "sint (sv_size ?v - sv_size ?w) = int (length a) - int (length b)"
    using sint_small [OF assms] by (simp add: view_size)
  have pre: "memcmp (sv_prefix ?v) (sv_prefix ?w) 4 = byte_cmp (padded 4 a) (padded 4 b)"
    using a32 by (simp add: view_prefix memcmp_def)
  show ?thesis
  proof (cases "padded 4 a = padded 4 b")
    case False
    then have ne: "byte_cmp (padded 4 a) (padded 4 b) \<noteq> 0" by (simp add: byte_cmp_0 padded_def)
    then show ?thesis using pre byte_cmp_padded [OF ne] by (simp add: sv_compare_def Let_def sgn_cmp)
  next
    case eq: True
    show ?thesis
    proof (cases "?n \<le> 4")
      case True
      then have "byte_cmp (take ?n a) (take ?n b) = 0"
        using eq by (metis byte_cmp_same min.cobounded1 min.cobounded2 take_padded_le)
      then show ?thesis using True pre eq size diff lexcmp_common [of a b] by (simp add: sv_compare_def Let_def)
    next
      case False
      have four: "take 4 a = take 4 b" using eq False by (simp add: padded_split)
      have m: "?n - 4 \<le> length a - 4" "?n - 4 \<le> length b - 4" by simp_all
      have len: "4 < length a" "4 < length b" using False by simp_all
      have nat: "nat (int ?n - 4) = ?n - 4" by simp
      define r where "r = byte_cmp (take (?n - 4) (drop 4 a)) (take (?n - 4) (drop 4 b))"
      have c: "sv_compare ?v ?w = (if r \<noteq> 0 then r else int (length a) - int (length b))"
        using False pre eq size diff view_tail [OF a32(1) len(1) m(1), of j] view_tail [OF a32(2) len(2) m(2), of k]
          view_inline [OF a32(1), of j] view_inline [OF a32(2), of k]
        by (simp add: sv_compare_def Let_def memcmp_def nat r_def)
      have "byte_cmp (take ?n a) (take ?n b) = r"
      proof -
        have "4 \<le> ?n" using False by linarith
        show ?thesis unfolding take_split [OF \<open>4 \<le> ?n\<close>, of a] take_split [OF \<open>4 \<le> ?n\<close>, of b] four r_def
          by (rule byte_cmp_append)
      qed
      then have l: "lexcmp a b = (if r \<noteq> 0 then r else sgn (int (length a) - int (length b)))"
        unfolding lexcmp_common [of a b] Let_def by (simp only:)
      have "sgn r = r" unfolding r_def by (rule sgn_byte)
      then show ?thesis unfolding c l by (simp only: if_distrib [of sgn])
    qed
  qed
qed

interpretation view_key: hashed_key "\<lambda>v w. sv_string v = sv_string w" "sv_hash h" sv_string for h
  by unfold_locales (simp_all add: sv_hash_def)

section \<open>Properties\<close>

text \<open>Claim C19. Comparing views is comparing the strings. A view gives back the string it was made from;
  two views are equal exactly when their strings are, whatever the uninitialised bytes of an empty
  view are; the hash is a function of the string; and for strings shorter than \<open>2 ^ 31\<close> bytes the sign of
  \<^verbatim>\<open>compare\<close> is that of the comparison of the strings byte by byte, a proper prefix being smaller.\<close>

theorem string_view_refines:
  assumes "length a < 2 ^ 31" "length b < 2 ^ 31"
  shows "sv_string (StringView_of j a) = a
    \<and> (sv_eq (StringView_of j a) (StringView_of k b) \<longleftrightarrow> a = b)
    \<and> (sv_compare (StringView_of j a) (StringView_of k b) < 0 \<longleftrightarrow> ord_class.lexordp a b)
    \<and> (sv_compare (StringView_of j a) (StringView_of k b) = 0 \<longleftrightarrow> a = b)
    \<and> sv_hash h (StringView_of j a) = h a"
proof -
  have n: "length a < 2 ^ 32" "length b < 2 ^ 32" using assms by simp_all
  have "sgn (sv_compare (StringView_of j a) (StringView_of k b)) = lexcmp a b"
    by (rule view_compare_correct [OF assms])
  then show ?thesis
    using view_string [OF n(1)] view_eq_correct [OF n] lexcmp_less [of a b] lexcmp_0 [of a b]
    by (metis sgn_0_0 sgn_less sv_hash_def)
qed

theorem string_view_refines_witness:
  "sv_compare (StringView_of [] [97, 98]) (StringView_of [] [97, 98, 0, 1]) < 0
   \<and> \<not> sv_eq (StringView_of [1] []) (StringView_of [2] [0])"
  using string_view_refines [of "[97, 98]" "[97, 98, 0, 1]" "[]" "[]"] string_view_refines [of "[]" "[0]" "[1]" "[2]"]
  by (simp add: lexordp_simps)

end
