(* ===== verification/ValueTypes.thy ===== *)
theory ValueTypes
  imports Values
begin

text \<open>
  The value types of \<^verbatim>\<open>src/include/nebula/common/valuetype/ValueType.h\<close>: the class hierarchy as a datatype,
  and the virtual operations \<^verbatim>\<open>supertypeOf\<close>, \<^verbatim>\<open>eq\<close>, \<^verbatim>\<open>compatibleWith\<close>, \<^verbatim>\<open>compare\<close> and \<^verbatim>\<open>clone\<close>. A class whose
  override is only declared in the header is served by the parameter \<open>lib\<close> of the operation. A
  reference to nodes or edges holds object types, of type \<open>'o\<close>. A \<^verbatim>\<open>ValueTypeSet\<close> is the list of its
  elements in their order. A null pointer that is followed is \<open>None\<close>.
\<close>

section \<open>Types\<close>

datatype 'o ValueType =
    TAny "'o ValueType list"
  | TBool | TBytes | TString
  | TNumeric ValueTypeKind
  | TDate | TLocalTime | TZonedTime | TLocalDatetime | TZonedDatetime | TDuration
  | TList "'o ValueType" bool
  | TPath "'o ValueType list"
  | TRecord "(string \<times> 'o ValueType) list"
  | TGraphRef "'o ValueType list" "'o ValueType list"
  | TTableRef "(string \<times> 'o ValueType) list option"
  | TNodeRef "'o list" | TEdgeRef "'o list"
  | TFunction string "'o ValueType list" "'o ValueType option"
  | TNull | TInvalid

fun type_of :: "'o ValueType \<Rightarrow> ValueTypeKind" where
  "type_of (TAny vs) = kAny"
| "type_of TBool = kBool"
| "type_of TBytes = kBytes"
| "type_of TString = kString"
| "type_of (TNumeric k) = k"
| "type_of TDate = kDate"
| "type_of TLocalTime = kLocalTime"
| "type_of TZonedTime = kZonedTime"
| "type_of TLocalDatetime = kLocalDatetime"
| "type_of TZonedDatetime = kZonedDatetime"
| "type_of TDuration = kDuration"
| "type_of (TList c g) = kList"
| "type_of (TPath cs) = kPath"
| "type_of (TRecord fs) = kRecord"
| "type_of (TGraphRef ns es) = kRef"
| "type_of (TTableRef r) = kRef"
| "type_of (TNodeRef os) = kNode"
| "type_of (TEdgeRef os) = kEdge"
| "type_of (TFunction n as r) = kFunction"
| "type_of TNull = kNull"
| "type_of TInvalid = kInvalid"

section \<open>supertypeOf\<close>

text \<open>The classes whose \<^verbatim>\<open>supertypeOf\<close> has its body in the header.\<close>

fun header_class :: "'o ValueType \<Rightarrow> bool" where
  "header_class TBool = True"
| "header_class TBytes = True"
| "header_class TString = True"
| "header_class TDate = True"
| "header_class TLocalTime = True"
| "header_class TZonedTime = True"
| "header_class TLocalDatetime = True"
| "header_class TZonedDatetime = True"
| "header_class TDuration = True"
| "header_class TNull = True"
| "header_class TInvalid = True"
| "header_class _ = False"

text \<open>What follows \<^verbatim>\<open>SUPERTYPE_OF_ANY\<close> in the body.\<close>

fun base_supertypeOf :: "'o ValueType \<Rightarrow> 'o ValueType \<Rightarrow> bool" where
  "base_supertypeOf TBytes rhs = (kBytes = type_of rhs \<or> type_of rhs = kString)"
| "base_supertypeOf TLocalDatetime rhs =
     (kLocalDatetime = type_of rhs \<or> type_of rhs = kDate \<or> type_of rhs = kLocalTime)"
| "base_supertypeOf TZonedDatetime rhs =
     (kZonedDatetime = type_of rhs \<or> type_of rhs = kDate \<or> type_of rhs = kZonedTime)"
| "base_supertypeOf TNull rhs = (rhs = TNull)"
| "base_supertypeOf TInvalid rhs = (rhs = TNull)"
| "base_supertypeOf lhs rhs = (type_of lhs = type_of rhs)"

function (sequential) supertypeOf ::
  "('o ValueType \<Rightarrow> 'o ValueType \<Rightarrow> bool) \<Rightarrow> 'o ValueType \<Rightarrow> 'o ValueType \<Rightarrow> bool" where
  "supertypeOf lib lhs (TAny vs) =
     (if \<not> header_class lhs then lib lhs (TAny vs)
      else if vs = [] then False else list_all (supertypeOf lib lhs) vs)"
| "supertypeOf lib lhs rhs = (if \<not> header_class lhs then lib lhs rhs else base_supertypeOf lhs rhs)"
  by pat_completeness auto
termination
  by (relation "measure (\<lambda>(lib, lhs, rhs). size rhs)") (auto simp: less_Suc_eq_le size_list_estimation')

definition subtypeOf :: "('o ValueType \<Rightarrow> 'o ValueType \<Rightarrow> bool) \<Rightarrow> 'o ValueType \<Rightarrow> 'o ValueType \<Rightarrow> bool" where
  "subtypeOf lib lhs rhs = supertypeOf lib rhs lhs"

section \<open>eq, compatibleWith, compare\<close>

text \<open>Which classes override the operation out of line.\<close>

fun overrides_eq :: "'o ValueType \<Rightarrow> bool" where
  "overrides_eq (TAny vs) = True"
| "overrides_eq (TList c g) = True"
| "overrides_eq (TPath cs) = True"
| "overrides_eq (TRecord fs) = True"
| "overrides_eq (TGraphRef ns es) = True"
| "overrides_eq (TTableRef r) = True"
| "overrides_eq (TNodeRef os) = True"
| "overrides_eq (TEdgeRef os) = True"
| "overrides_eq (TFunction n as r) = True"
| "overrides_eq _ = False"

definition type_eq :: "('o ValueType \<Rightarrow> 'o ValueType \<Rightarrow> bool) \<Rightarrow> 'o ValueType \<Rightarrow> 'o ValueType \<Rightarrow> bool" where
  "type_eq lib lhs rhs = (if overrides_eq lhs then lib lhs rhs
     else if lhs = TNull then rhs = TNull else type_of lhs = type_of rhs)"

fun overrides_compatible :: "'o ValueType \<Rightarrow> bool" where
  "overrides_compatible (TList c g) = True"
| "overrides_compatible (TRecord fs) = True"
| "overrides_compatible (TGraphRef ns es) = True"
| "overrides_compatible _ = False"

definition compatibleWith :: "('o ValueType \<Rightarrow> 'o ValueType \<Rightarrow> bool) \<Rightarrow> ('o ValueType \<Rightarrow> 'o ValueType \<Rightarrow> bool)
    \<Rightarrow> 'o ValueType \<Rightarrow> 'o ValueType \<Rightarrow> bool" where
  "compatibleWith lib_eq lib lhs rhs = (if overrides_compatible lhs then lib lhs rhs
     else if lhs = TNull then True else type_eq lib_eq lhs rhs)"

fun overrides_compare :: "'o ValueType \<Rightarrow> bool" where
  "overrides_compare (TAny vs) = True"
| "overrides_compare (TList c g) = True"
| "overrides_compare (TPath cs) = True"
| "overrides_compare (TRecord fs) = True"
| "overrides_compare (TGraphRef ns es) = True"
| "overrides_compare (TNodeRef os) = True"
| "overrides_compare (TEdgeRef os) = True"
| "overrides_compare _ = False"

definition type_compare :: "('o ValueType \<Rightarrow> 'o ValueType \<Rightarrow> int) \<Rightarrow> 'o ValueType \<Rightarrow> 'o ValueType \<Rightarrow> int" where
  "type_compare lib lhs rhs = (if overrides_compare lhs then lib lhs rhs
     else if type_of lhs \<noteq> type_of rhs then
       (if kind_code (type_of lhs) < kind_code (type_of rhs) then -1 else 1)
     else 0)"

definition ValueTypeLess :: "('o ValueType \<Rightarrow> 'o ValueType \<Rightarrow> int) \<Rightarrow> 'o ValueType \<Rightarrow> 'o ValueType \<Rightarrow> bool" where
  "ValueTypeLess lib lhs rhs \<longleftrightarrow> type_compare lib lhs rhs < 0"

text \<open>\<^verbatim>\<open>emplace\<close> into a \<^verbatim>\<open>std::set\<close> with this order.\<close>

fun set_emplace_by :: "('a \<Rightarrow> 'a \<Rightarrow> bool) \<Rightarrow> 'a \<Rightarrow> 'a list \<Rightarrow> 'a list" where
  "set_emplace_by lt x [] = [x]"
| "set_emplace_by lt x (y # ys) =
     (if lt x y then x # y # ys else if lt y x then y # set_emplace_by lt x ys else y # ys)"

definition ValueTypeSet_emplace ::
  "('o ValueType \<Rightarrow> 'o ValueType \<Rightarrow> int) \<Rightarrow> 'o ValueType \<Rightarrow> 'o ValueType list \<Rightarrow> 'o ValueType list" where
  "ValueTypeSet_emplace lib t ts = set_emplace_by (ValueTypeLess lib) t ts"

definition pushNodeType ::
  "('o ValueType \<Rightarrow> 'o ValueType \<Rightarrow> int) \<Rightarrow> 'o ValueType \<Rightarrow> 'o ValueType \<Rightarrow> 'o ValueType option" where
  "pushNodeType lib t g = (case g of
     TGraphRef ns es \<Rightarrow> Some (TGraphRef (ValueTypeSet_emplace lib t ns) es) | _ \<Rightarrow> None)"

definition pushEdgeType ::
  "('o ValueType \<Rightarrow> 'o ValueType \<Rightarrow> int) \<Rightarrow> 'o ValueType \<Rightarrow> 'o ValueType \<Rightarrow> 'o ValueType option" where
  "pushEdgeType lib t g = (case g of
     TGraphRef ns es \<Rightarrow> Some (TGraphRef ns (ValueTypeSet_emplace lib t es)) | _ \<Rightarrow> None)"

section \<open>clone\<close>

fun clone :: "('o ValueType \<Rightarrow> 'o ValueType \<Rightarrow> int) \<Rightarrow> ('o ValueType \<Rightarrow> 'o ValueType option)
    \<Rightarrow> 'o ValueType \<Rightarrow> 'o ValueType option" where
  "clone cmp lib (TAny vs) =
     map_option (\<lambda>cs. TAny (foldl (\<lambda>s c. ValueTypeSet_emplace cmp c s) [] cs)) (those (map (clone cmp lib) vs))"
| "clone cmp lib (TList c g) = map_option (\<lambda>c. TList c g) (clone cmp lib c)"
| "clone cmp lib (TPath cs) = map_option TPath (those (map (clone cmp lib) cs))"
| "clone cmp lib (TRecord fs) =
     map_option TRecord (those (map (\<lambda>f. map_option (Pair (fst f)) (clone cmp lib (snd f))) fs))"
| "clone cmp lib (TGraphRef ns es) = Some (TGraphRef ns es)"
| "clone cmp lib (TTableRef None) = None"
| "clone cmp lib (TTableRef (Some fs)) =
     map_option (\<lambda>r. TTableRef (Some r)) (those (map (\<lambda>f. map_option (Pair (fst f)) (clone cmp lib (snd f))) fs))"
| "clone cmp lib (TNodeRef os) = lib (TNodeRef os)"
| "clone cmp lib (TEdgeRef os) = lib (TEdgeRef os)"
| "clone cmp lib (TFunction n as None) = None"
| "clone cmp lib (TFunction n as (Some r)) =
     (case those (map (clone cmp lib) as) of None \<Rightarrow> None
      | Some as' \<Rightarrow> map_option (\<lambda>r'. TFunction n as' (Some r')) (clone cmp lib r))"
| "clone cmp lib t = Some t"

text \<open>Types without null pointers, whose sets are in the order of \<open>cmp\<close>.\<close>

fun well_built :: "('o ValueType \<Rightarrow> 'o ValueType \<Rightarrow> int) \<Rightarrow> 'o ValueType \<Rightarrow> bool" where
  "well_built cmp (TAny vs) \<longleftrightarrow> list_all (well_built cmp) vs
     \<and> sorted_wrt (\<lambda>a b. ValueTypeLess cmp a b \<and> \<not> ValueTypeLess cmp b a) vs"
| "well_built cmp (TList c g) \<longleftrightarrow> well_built cmp c"
| "well_built cmp (TPath cs) \<longleftrightarrow> list_all (well_built cmp) cs"
| "well_built cmp (TRecord fs) \<longleftrightarrow> list_all (\<lambda>f. well_built cmp (snd f)) fs"
| "well_built cmp (TTableRef None) \<longleftrightarrow> False"
| "well_built cmp (TTableRef (Some fs)) \<longleftrightarrow> list_all (\<lambda>f. well_built cmp (snd f)) fs"
| "well_built cmp (TFunction n as None) \<longleftrightarrow> False"
| "well_built cmp (TFunction n as (Some r)) \<longleftrightarrow> list_all (well_built cmp) as \<and> well_built cmp r"
| "well_built cmp t \<longleftrightarrow> True"

section \<open>Laws\<close>

lemma those_map_Some: "(\<And>x. x \<in> set xs \<Longrightarrow> f x = Some x) \<Longrightarrow> those (map f xs) = Some xs"
  by (induction xs) simp_all

lemma emplace_last:
  "\<forall>y \<in> set ys. lt y x \<and> \<not> lt x y \<Longrightarrow> set_emplace_by lt x ys = ys @ [x]"
  by (induction ys) auto

lemma foldl_emplace:
  assumes "sorted_wrt (\<lambda>a b. lt a b \<and> \<not> lt b a) (ys @ xs)"
  shows "foldl (\<lambda>s c. set_emplace_by lt c s) ys xs = ys @ xs"
  using assms
proof (induction xs arbitrary: ys)
  case (Cons x xs)
  have "set_emplace_by lt x ys = ys @ [x]"
    using Cons.prems by (intro emplace_last) (auto simp: sorted_wrt_append)
  then show ?case using Cons.IH [of "ys @ [x]"] Cons.prems by simp
qed simp

lemma clone_well_built:
  assumes "\<And>os. lib (TNodeRef os) = Some (TNodeRef os)" "\<And>os. lib (TEdgeRef os) = Some (TEdgeRef os)"
  shows "well_built cmp t \<Longrightarrow> clone cmp lib t = Some t"
  using assms
proof (induction cmp lib t rule: clone.induct)
  case (1 cmp lib vs)
  then have "those (map (clone cmp lib) vs) = Some vs"
    by (intro those_map_Some) (simp add: list_all_iff)
  moreover have "foldl (\<lambda>s c. set_emplace_by (ValueTypeLess cmp) c s) [] vs = vs"
    using 1(2) foldl_emplace [of "ValueTypeLess cmp" "[]" vs] by simp
  ultimately show ?case by (simp add: ValueTypeSet_emplace_def)
next
  case (11 cmp lib n as r)
  then have "those (map (clone cmp lib) as) = Some as"
    by (intro those_map_Some) (simp add: list_all_iff)
  then show ?case using 11 by simp
qed (simp_all add: list_all_iff those_map_Some)

lemma kind_scalar:
  assumes "header_class b" "header_class a"
  shows "type_of a = type_of b \<longleftrightarrow> a = b"
  using assms by (cases a; simp) (cases b; simp)+

lemma kind_scalar_of:
  "header_class b \<Longrightarrow> type_of b = kString \<longleftrightarrow> b = TString"
  "header_class b \<Longrightarrow> type_of b = kDate \<longleftrightarrow> b = TDate"
  "header_class b \<Longrightarrow> type_of b = kLocalTime \<longleftrightarrow> b = TLocalTime"
  "header_class b \<Longrightarrow> type_of b = kZonedTime \<longleftrightarrow> b = TZonedTime"
  by (cases b; simp)+

text \<open>On scalar types \<^verbatim>\<open>supertypeOf\<close> is equality and five more pairs.\<close>

lemma supertype_scalar:
  assumes "header_class a" "header_class b" "a \<noteq> TInvalid"
  shows "supertypeOf lib a b \<longleftrightarrow> a = b \<or> (a = TBytes \<and> b = TString)
    \<or> (a = TLocalDatetime \<and> b \<in> {TDate, TLocalTime}) \<or> (a = TZonedDatetime \<and> b \<in> {TDate, TZonedTime})"
proof -
  have "supertypeOf lib a b = base_supertypeOf a b" using assms(1,2) by (cases b) simp_all
  then show ?thesis
    using assms(1,3) kind_scalar [OF assms(2), of a] kind_scalar_of [OF assms(2)] by (cases a) auto
qed

section \<open>Properties\<close>

text \<open>Claim C33. On the scalar types of the header, the invalid type aside, \<^verbatim>\<open>supertypeOf\<close> is a partial order;
  an open union is a subtype of none of them, a closed union exactly when all its variants are. The
  invalid type is not a supertype of itself, but of null.\<close>

theorem supertype_order:
  assumes "header_class a" "header_class b" "header_class c" "a \<noteq> TInvalid" "b \<noteq> TInvalid" "c \<noteq> TInvalid"
  shows "supertypeOf lib a a
    \<and> (supertypeOf lib a b \<and> supertypeOf lib b c \<longrightarrow> supertypeOf lib a c)
    \<and> (supertypeOf lib a b \<and> supertypeOf lib b a \<longrightarrow> a = b)
    \<and> (supertypeOf lib a (TAny vs) \<longleftrightarrow> vs \<noteq> [] \<and> list_all (supertypeOf lib a) vs)
    \<and> \<not> supertypeOf lib TInvalid TInvalid \<and> supertypeOf lib TInvalid TNull"
proof (intro conjI impI)
  note super = supertype_scalar [OF assms(1) _ assms(4)] supertype_scalar [OF assms(2) _ assms(5)]
  show "supertypeOf lib a a" by (simp add: super assms)
  show "supertypeOf lib a c" if "supertypeOf lib a b \<and> supertypeOf lib b c"
    using that by (auto simp: super assms)
  show "a = b" if "supertypeOf lib a b \<and> supertypeOf lib b a"
    using that by (auto simp: super assms)
qed (use assms(1) in simp_all)

theorem supertype_order_witness:
  "supertypeOf (\<lambda>_ _. False) (TLocalDatetime :: unit ValueType) TLocalDatetime
   \<and> supertypeOf (\<lambda>_ _. False) (TLocalDatetime :: unit ValueType) (TAny [TDate, TLocalTime])"
  using supertype_order [of "TLocalDatetime :: unit ValueType" TDate TDate "\<lambda>_ _. False" "[TDate, TLocalTime]"]
  by simp

text \<open>A set of types holds at most one function type and one table type: neither class orders
  its types beyond the kind, so adding a second one, however different, changes nothing.\<close>

theorem type_set_merges:
  assumes "ValueTypeSet_emplace lib s [] = ts"
    and "type_of s = type_of t" "\<not> overrides_compare s" "\<not> overrides_compare t"
  shows "ValueTypeSet_emplace lib t ts = ts"
  using assms by (auto simp: ValueTypeSet_emplace_def ValueTypeLess_def type_compare_def)

theorem type_set_merges_witness:
  "ValueTypeSet_emplace (\<lambda>_ _. 0) (TFunction ''g'' [TBool] (Some TString))
     [TFunction ''f'' [] (Some TBool) :: unit ValueType] = [TFunction ''f'' [] (Some TBool)]"
  by (rule type_set_merges [of "\<lambda>_ _. 0" "TFunction ''f'' [] (Some TBool)"])
    (simp_all add: ValueTypeSet_emplace_def)

text \<open>A clone is equal to its original, for every type without null pointers whose sets are in
  order, when the library clones references to nodes and edges faithfully.\<close>

theorem clone_identity:
  assumes "well_built cmp t"
    and "\<forall>os. lib (TNodeRef os) = Some (TNodeRef os) \<and> lib (TEdgeRef os) = Some (TEdgeRef os)"
  shows "clone cmp lib t = Some t"
  using clone_well_built [of lib cmp t] assms by simp

theorem clone_identity_witness:
  "clone (\<lambda>_ _. 0) Some (TFunction ''f'' [TList (TRecord [(''a'', TAny [TBool, TString])]) False]
     (Some TDate) :: unit ValueType)
   = Some (TFunction ''f'' [TList (TRecord [(''a'', TAny [TBool, TString])]) False] (Some TDate))"
  by (rule clone_identity) (simp_all add: ValueTypeLess_def type_compare_def)

end
