(* ===== verification/RowTypes.thy ===== *)
theory RowTypes
  imports ValueTypes
begin

text \<open>
  Row types: \<^verbatim>\<open>FieldType.h\<close> and \<^verbatim>\<open>RowType.h\<close> of \<^verbatim>\<open>src/include/nebula/common/datatype\<close>, the named and typed
  columns of a row, with lookup by name and by position and the merge of two row types. A failing
  \<^verbatim>\<open>CHECK\<close> and a null type that is followed are \<open>None\<close>; the equality of types and the hash functions
  are parameters.
\<close>

section \<open>Fields\<close>

record 'o FieldType =
  field_name :: string
  field_type :: "'o ValueType option"

definition hasType :: "'o FieldType \<Rightarrow> bool" where
  "hasType f \<longleftrightarrow> field_type f \<noteq> None"

definition FieldType_eq :: "('o ValueType \<Rightarrow> 'o ValueType \<Rightarrow> bool) \<Rightarrow> 'o FieldType \<Rightarrow> 'o FieldType \<Rightarrow> bool option" where
  "FieldType_eq eq l r = (if field_name l \<noteq> field_name r then Some False
     else case (field_type l, field_type r) of (Some s, Some t) \<Rightarrow> Some (eq s t) | _ \<Rightarrow> None)"

definition FieldType_hash :: "(string \<Rightarrow> uint64) \<Rightarrow> 'o FieldType \<Rightarrow> uint64" where
  "FieldType_hash name_hash f = name_hash (field_name f)"

section \<open>Rows\<close>

type_synonym 'o RowType = "'o FieldType list"

definition RowType_of :: "string list \<Rightarrow> 'o ValueType option list \<Rightarrow> 'o RowType option" where
  "RowType_of names valueTypes = (if length names \<noteq> length valueTypes then None
     else Some (map2 (\<lambda>n t. \<lparr>field_name = n, field_type = t\<rparr>) names valueTypes))"

definition makeAny :: "string list \<Rightarrow> 'o RowType option" where
  "makeAny names = RowType_of names (replicate (length names) (Some (TAny [])))"

definition row_names :: "'o RowType \<Rightarrow> string list" where
  "row_names r = map field_name r"

fun find_name :: "string \<Rightarrow> 'o RowType \<Rightarrow> nat \<Rightarrow> nat option" where
  "find_name n [] i = None"
| "find_name n (f # fs) i = (if field_name f = n then Some i else find_name n fs (i + 1))"

definition maybeIndexOf :: "string \<Rightarrow> 'o RowType \<Rightarrow> nat option" where
  "maybeIndexOf n r = find_name n r 0"

definition indexOf :: "string \<Rightarrow> 'o RowType \<Rightarrow> nat option" where
  "indexOf n r = maybeIndexOf n r"

definition maybeNameOf :: "nat \<Rightarrow> 'o RowType \<Rightarrow> string option" where
  "maybeNameOf i r = (if length r \<le> i then None else Some (field_name (r ! i)))"

definition row_contains :: "string \<Rightarrow> 'o RowType \<Rightarrow> bool" where
  "row_contains n r \<longleftrightarrow> find_name n r 0 \<noteq> None"

text \<open>The loop of \<^verbatim>\<open>getIndex\<close> at \<open>i\<close>; \<open>k\<close> positions are left.\<close>

fun getIndex_loop :: "string \<Rightarrow> bool \<Rightarrow> 'o RowType \<Rightarrow> nat \<Rightarrow> nat \<Rightarrow> int" where
  "getIndex_loop n forward r i 0 = -1"
| "getIndex_loop n forward r i (Suc k) =
     (let idx = (if forward then i else length r - i - 1) in
      if field_name (r ! idx) = n then int idx else getIndex_loop n forward r (i + 1) k)"

definition getIndex :: "string \<Rightarrow> bool \<Rightarrow> 'o RowType \<Rightarrow> int" where
  "getIndex n forward r = getIndex_loop n forward r 0 (length r)"

fun row_merge :: "'o RowType \<Rightarrow> 'o RowType \<Rightarrow> 'o RowType" where
  "row_merge r [] = r"
| "row_merge r (f # fs) = row_merge (if find_name (field_name f) r 0 = None then r @ [f] else r) fs"

definition RowType_hash :: "(uint64 \<Rightarrow> uint64 \<Rightarrow> uint64) \<Rightarrow> (string \<Rightarrow> uint64) \<Rightarrow> 'o RowType \<Rightarrow> uint64" where
  "RowType_hash hash_combine name_hash r =
     foldl (\<lambda>h f. hash_combine h (FieldType_hash name_hash f)) 0 r"

section \<open>Laws\<close>

lemma find_name_None: "find_name n r i = None \<longleftrightarrow> n \<notin> set (row_names r)"
  by (induction n r i rule: find_name.induct) (auto simp: row_names_def)

lemma find_name_Some:
  "find_name n r i = Some k \<longleftrightarrow>
     i \<le> k \<and> k - i < length r \<and> field_name (r ! (k - i)) = n \<and> (\<forall>j < k - i. field_name (r ! j) \<noteq> n)"
proof (induction n r i rule: find_name.induct)
  case (2 n f fs i)
  show ?case
  proof (cases "field_name f = n")
    case True
    have "k = i" if "i \<le> k" "\<forall>j < k - i. field_name ((f # fs) ! j) \<noteq> n"
      using that(1) spec [OF that(2), of 0] True by (cases "k = i") auto
    then show ?thesis using True by auto
  next
    case False
    have "(i \<le> k \<and> k - i < length (f # fs) \<and> field_name ((f # fs) ! (k - i)) = n
        \<and> (\<forall>j < k - i. field_name ((f # fs) ! j) \<noteq> n)) \<longleftrightarrow>
      (i + 1 \<le> k \<and> k - (i + 1) < length fs \<and> field_name (fs ! (k - (i + 1))) = n
        \<and> (\<forall>j < k - (i + 1). field_name (fs ! j) \<noteq> n))"
    proof (cases "i < k")
      case True
      then have k: "k - i = Suc (k - (i + 1))" by simp
      show ?thesis unfolding k using True False by (auto simp: less_Suc_eq_0_disj)
    next
      case n: False
      then show ?thesis using False by (cases "k = i") auto
    qed
    then show ?thesis using 2 False by simp
  qed
qed simp

lemma merge_names:
  "row_names (row_merge r fs) = foldl (\<lambda>ns n. if n \<in> set ns then ns else ns @ [n]) (row_names r) (row_names fs)"
  by (induction r fs rule: row_merge.induct) (auto simp: find_name_None, auto simp: row_names_def)

lemma merge_keeps: "\<exists>gs. row_merge r fs = r @ gs"
proof (induction r fs rule: row_merge.induct)
  case (2 r f fs)
  then obtain gs where "row_merge r (f # fs) = (if find_name (field_name f) r 0 = None then r @ [f] else r) @ gs"
    by auto
  then show ?case by (cases "find_name (field_name f) r 0 = None") auto
qed simp

lemma foldl_names:
  "set (foldl (\<lambda>ns n. if n \<in> set ns then ns else ns @ [n]) as bs) = set as \<union> set bs
   \<and> (distinct as \<longrightarrow> distinct (foldl (\<lambda>ns n. if n \<in> set ns then ns else ns @ [n]) as bs))"
  by (induction bs arbitrary: as) auto

lemma getIndex_forward_loop:
  "i + k = length r \<Longrightarrow> getIndex_loop n True r i k = (case find_name n (drop i r) i of None \<Rightarrow> -1 | Some j \<Rightarrow> int j)"
proof (induction k arbitrary: i)
  case (Suc k)
  then have "drop i r = r ! i # drop (i + 1) r" by (simp add: Cons_nth_drop_Suc)
  then show ?case using Suc.IH [of "i + 1"] Suc.prems by (simp add: Let_def)
qed simp

lemma getIndex_backward_loop:
  "i + k = length r \<Longrightarrow> getIndex_loop n False r i k = getIndex_loop n False (take k r) 0 k"
proof (induction k arbitrary: i r)
  case (Suc k)
  have idx: "length r - i - 1 = k" "length (take (Suc k) r) - 0 - 1 = k" using Suc.prems by auto
  have "getIndex_loop n False (take (Suc k) r) 1 k = getIndex_loop n False (take k (take (Suc k) r)) 0 k"
    using Suc.IH [of 1 "take (Suc k) r"] Suc.prems by simp
  then show ?case using Suc.IH [of "i + 1" r] Suc.prems idx by (simp add: Let_def min_def)
qed simp

lemma getIndex_backward_step:
  "getIndex_loop n False (r @ [f]) 0 (length (r @ [f])) =
     (if field_name f = n then int (length r) else getIndex_loop n False r 0 (length r))"
  using getIndex_backward_loop [of 1 "length r" "r @ [f]" n] by (simp add: Let_def)

lemma getIndex_backward:
  "getIndex n False r = (case find_name n (rev r) 0 of None \<Rightarrow> -1 | Some j \<Rightarrow> int (length r) - 1 - int j)"
proof (induction r rule: rev_induct)
  case (snoc f r)
  have shift: "find_name n fs (i + 1) = map_option Suc (find_name n fs i)" for fs :: "'a RowType" and i
    by (induction n fs i rule: find_name.induct) auto
  show ?case using snoc shift [of "rev r" 0] unfolding getIndex_def getIndex_backward_step
    by (auto split: option.splits)
qed (simp add: getIndex_def)

lemma find_name_append:
  "find_name n (r @ s) i = (case find_name n r i of None \<Rightarrow> find_name n s (i + length r) | Some j \<Rightarrow> Some j)"
  by (induction n r i rule: find_name.induct) (auto split: option.split)

lemma row_contains_iff: "row_contains n r \<longleftrightarrow> n \<in> set (row_names r)"
  by (simp add: row_contains_def find_name_None)

text \<open>\<^verbatim>\<open>merge\<close> is the union its comment announces: a name is a column of the result when it is one of either
  side, the columns of the left side keep their positions and their types, and two row types without
  repeated names give one without repeated names.
\<close>

theorem row_merge_union:
  "(row_contains n (row_merge r s) \<longleftrightarrow> row_contains n r \<or> row_contains n s)
   \<and> take (length r) (row_merge r s) = r
   \<and> (row_contains n r \<longrightarrow> maybeIndexOf n (row_merge r s) = maybeIndexOf n r)
   \<and> (distinct (row_names r) \<longrightarrow> distinct (row_names (row_merge r s)))"
proof -
  obtain gs where gs: "row_merge r s = r @ gs" using merge_keeps by blast
  have "row_contains n r \<longrightarrow> maybeIndexOf n (row_merge r s) = maybeIndexOf n r"
    by (auto simp: row_contains_def maybeIndexOf_def gs find_name_append)
  moreover have "take (length r) (row_merge r s) = r" by (simp add: gs)
  moreover have "row_contains n (row_merge r s) \<longleftrightarrow> row_contains n r \<or> row_contains n s"
    unfolding row_contains_iff merge_names using foldl_names [of "row_names r" "row_names s"] by simp
  moreover have "distinct (row_names r) \<longrightarrow> distinct (row_names (row_merge r s))"
    unfolding merge_names using foldl_names [of "row_names r" "row_names s"] by simp
  ultimately show ?thesis by blast
qed

theorem row_merge_union_witness:
  "let r = [\<lparr>field_name = ''a'', field_type = None\<rparr>, \<lparr>field_name = ''b'', field_type = None\<rparr>];
       s = [\<lparr>field_name = ''b'', field_type = Some (TAny [] :: nat ValueType)\<rparr>, \<lparr>field_name = ''c'', field_type = None\<rparr>]
   in maybeIndexOf ''b'' (row_merge r s) = Some 1 \<and> distinct (row_names (row_merge r s))
     \<and> row_contains ''c'' (row_merge r s)"
  using row_merge_union [of "''b''" "[\<lparr>field_name = ''a'', field_type = None\<rparr>, \<lparr>field_name = ''b'', field_type = None\<rparr>]"
      "[\<lparr>field_name = ''b'', field_type = Some (TAny [] :: nat ValueType)\<rparr>, \<lparr>field_name = ''c'', field_type = None\<rparr>]"]
  by (simp add: maybeIndexOf_def row_contains_def row_names_def)

text \<open>
  \<^verbatim>\<open>getIndex\<close> finds the first column of a name forward and the last one backward, and gives -1 exactly
  when no column has the name, the case in which \<^verbatim>\<open>maybeIndexOf\<close> is empty.
\<close>

theorem getIndex_finds:
  "getIndex n True r = (case maybeIndexOf n r of None \<Rightarrow> -1 | Some i \<Rightarrow> int i)
   \<and> getIndex n False r = (case maybeIndexOf n (rev r) of None \<Rightarrow> -1 | Some i \<Rightarrow> int (length r) - 1 - int i)
   \<and> (getIndex n forward r = -1 \<longleftrightarrow> \<not> row_contains n r)"
proof -
  have f: "getIndex n True r = (case maybeIndexOf n r of None \<Rightarrow> -1 | Some i \<Rightarrow> int i)"
    using getIndex_forward_loop [of 0 "length r" r n] by (simp add: getIndex_def maybeIndexOf_def)
  have b: "getIndex n False r = (case maybeIndexOf n (rev r) of None \<Rightarrow> -1 | Some i \<Rightarrow> int (length r) - 1 - int i)"
    by (simp add: getIndex_backward maybeIndexOf_def)
  have "i < length r" if "find_name n (rev r) 0 = Some i" for i using that by (simp add: find_name_Some)
  then have "getIndex n forward r = -1 \<longleftrightarrow> \<not> row_contains n r"
    using find_name_None [of n r 0] find_name_None [of n "rev r" 0]
    by (cases forward) (force simp: f b maybeIndexOf_def row_contains_iff row_names_def split: option.splits)+
  then show ?thesis using f b by blast
qed

text \<open>A position that \<^verbatim>\<open>maybeIndexOf\<close> returns is read back by \<^verbatim>\<open>maybeNameOf\<close> as the same name.\<close>

theorem row_index_name:
  "maybeIndexOf n r = Some i \<Longrightarrow> maybeNameOf i r = Some n"
  by (simp add: maybeIndexOf_def maybeNameOf_def find_name_Some)

end
