(* ===== verification/MemberCodec.thy ===== *)
theory MemberCodec
  imports NetAddr RowTypes
begin

text \<open>
  Codecs that are generated from the members of a class: \<^verbatim>\<open>FoldWrapper\<close> of \<^verbatim>\<open>BufferReaderWriter.h\<close> and the macros
  of \<^verbatim>\<open>src/include/nebula/common/nrpc/CommonDefine.h\<close>, with the classes that use them: \<^verbatim>\<open>HostAddress\<close>, \<^verbatim>\<open>FieldType\<close> and
  \<^verbatim>\<open>RowType\<close>. These readers fill an object in place, so a reader takes the object and the buffer and
  returns the status, the object and the buffer, also when it fails half way. The locale
  \<open>member_class\<close> says when a list of members is a codec of the class. The virtual \<^verbatim>\<open>write\<close>, \<^verbatim>\<open>read\<close>,
  \<^verbatim>\<open>encodedSize\<close> of value types and \<^verbatim>\<open>makeByType\<close> are only declared; they are parameters.
\<close>

section \<open>Readers that fill an object\<close>

type_synonym 'a inplace = "'a \<Rightarrow> byte list \<Rightarrow> read_error option \<times> 'a \<times> byte list"

record 'a rw =
  rw_write :: "'a \<Rightarrow> byte list"
  rw_read :: "'a inplace"
  rw_size :: "'a \<Rightarrow> nat"

definition scalar_rw :: "nat \<Rightarrow> 'l::len word rw" where
  "scalar_rw n = \<lparr>rw_write = le_write n,
     rw_read = (\<lambda>obj buf. if length buf < n then (Some (RPC_FAILED n (length buf)), obj, buf)
       else (None, le_word (take n buf), drop n buf)),
     rw_size = (\<lambda>_. n)\<rparr>"

definition string_rw :: "string rw" where
  "string_rw = \<lparr>rw_write = string_write,
     rw_read = (\<lambda>str buf. if length buf < 4 then (Some (RPC_DESERIALIZE_ERROR 4 (length buf)), str, buf)
       else let len = unat (le_word (take 4 buf) :: uint32); buf = drop 4 buf in
         if length buf < len then (Some (RPC_DESERIALIZE_ERROR len (length buf)), str, buf)
         else (None, map char_of_byte (take len buf), drop len buf)),
     rw_size = string_size\<rparr>"

text \<open>A member of a class, read and written through a reference to it; also the part of a base class.\<close>

definition member_of :: "('c \<Rightarrow> 'a) \<Rightarrow> ('a \<Rightarrow> 'c \<Rightarrow> 'c) \<Rightarrow> 'a rw \<Rightarrow> 'c rw" where
  "member_of sel upd f = \<lparr>rw_write = (\<lambda>obj. rw_write f (sel obj)),
     rw_read = (\<lambda>obj buf. case rw_read f (sel obj) buf of (st, v, rest) \<Rightarrow> (st, upd v obj, rest)),
     rw_size = (\<lambda>obj. rw_size f (sel obj))\<rparr>"

section \<open>FoldWrapper\<close>

fun fold_write :: "'c rw list \<Rightarrow> 'c \<Rightarrow> byte list" where
  "fold_write [] obj = []"
| "fold_write (m # ms) obj = rw_write m obj @ fold_write ms obj"

fun fold_read :: "'c rw list \<Rightarrow> 'c inplace" where
  "fold_read [] obj buf = (None, obj, buf)"
| "fold_read (m # ms) obj buf = (case rw_read m obj buf of
     (Some e, obj', buf') \<Rightarrow> (Some e, obj', buf')
   | (None, obj', buf') \<Rightarrow> fold_read ms obj' buf')"

definition fold_size :: "'c rw list \<Rightarrow> 'c \<Rightarrow> nat" where
  "fold_size ms obj = sum_list (map (\<lambda>m. rw_size m obj) ms)"

text \<open>The size of a type without a constant size is \<^verbatim>\<open>~0UL\<close>; a failed \<^verbatim>\<open>static_assert\<close> is \<open>None\<close>.\<close>

definition constEncodedSize :: "uint64 list \<Rightarrow> uint64 option" where
  "constEncodedSize sizes = (if (\<forall>n \<in> set sizes. n \<noteq> -1) then Some (sum_list sizes) else None)"

section \<open>Macros\<close>

text \<open>Counting: the arguments push the numbers to the right, and the one at position 30 is taken.\<close>

datatype token = Name string | Number nat

definition MacroArgCount :: "string list \<Rightarrow> token" where
  "MacroArgCount args = (map Name args @ map Number (rev [0..<31])) ! 30"

text \<open>\<open>MEMBERS n\<close> is \<^verbatim>\<open>MEMBERS1\<close> to \<^verbatim>\<open>MEMBERS30\<close>; a macro that is not defined, or called with the wrong number of
  arguments, is \<open>None\<close>.\<close>

fun MEMBERS :: "nat \<Rightarrow> string list \<Rightarrow> string list option" where
  "MEMBERS (Suc 0) [a] = Some [''msg.'' @ a]"
| "MEMBERS (Suc (Suc n)) (a # as) =
     (if n < 29 then map_option ((#) (''msg.'' @ a)) (MEMBERS (Suc n) as) else None)"
| "MEMBERS _ _ = None"

definition member_list :: "string list \<Rightarrow> string list option" where
  "member_list args = (case MacroArgCount args of Number n \<Rightarrow> MEMBERS n args | Name _ \<Rightarrow> None)"

text \<open>\<^verbatim>\<open>STATIC_MEMBER2\<close> and the longer ones expand to \<^verbatim>\<open>_STATIC_MEMBER1\<close> and so on, with a leading underscore;
  these names are defined nowhere.\<close>

fun STATIC_MEMBER :: "nat \<Rightarrow> string \<Rightarrow> string list \<Rightarrow> string list option" where
  "STATIC_MEMBER (Suc 0) c [a] = Some [''decltype('' @ c @ ''::'' @ a @ '')'']"
| "STATIC_MEMBER _ _ _ = None"

definition CONSTANT_LENGTH :: "(string \<Rightarrow> uint64) \<Rightarrow> string \<Rightarrow> string list \<Rightarrow> uint64 option" where
  "CONSTANT_LENGTH size_of c args = (case MacroArgCount args of Name _ \<Rightarrow> None
   | Number n \<Rightarrow> Option.bind (STATIC_MEMBER n c args) (\<lambda>ts. constEncodedSize (map size_of ts)))"

text \<open>The codecs that the macros define.\<close>

definition SERIALIZE_NO_MEMBER :: "'c rw" where
  "SERIALIZE_NO_MEMBER = \<lparr>rw_write = (\<lambda>_. []), rw_read = (\<lambda>obj buf. (None, obj, buf)), rw_size = (\<lambda>_. 0)\<rparr>"

definition SERIALIZE_NO_MEMBER_BASE :: "'c rw \<Rightarrow> 'c rw" where
  "SERIALIZE_NO_MEMBER_BASE base = \<lparr>rw_write = rw_write base, rw_read = rw_read base, rw_size = rw_size base\<rparr>"

definition SERIALIZE_EACH_MEMBER :: "'c rw list \<Rightarrow> 'c rw" where
  "SERIALIZE_EACH_MEMBER ms = \<lparr>rw_write = fold_write ms, rw_read = fold_read ms, rw_size = fold_size ms\<rparr>"

definition SERIALIZE_EACH_MEMBER_BASE :: "'c rw \<Rightarrow> 'c rw list \<Rightarrow> 'c rw" where
  "SERIALIZE_EACH_MEMBER_BASE base ms =
    \<lparr>rw_write = (\<lambda>obj. rw_write base obj @ fold_write ms obj),
     rw_read = (\<lambda>obj buf. case rw_read base obj buf of (_, obj', buf') \<Rightarrow> fold_read ms obj' buf'),
     rw_size = (\<lambda>obj. rw_size base obj + fold_size ms obj)\<rparr>"

section \<open>The classes\<close>

definition host_members :: "HostAddress rw list" where
  "host_members = [member_of host (\<lambda>v. host_update (\<lambda>_. v)) string_rw,
     member_of port (\<lambda>v. port_update (\<lambda>_. v)) (scalar_rw 4)]"

definition HostAddress_rw :: "HostAddress rw" where
  "HostAddress_rw = SERIALIZE_EACH_MEMBER host_members"

text \<open>A pointer to a value type: \<open>v\<close> is the virtual codec of the object and \<open>mk\<close> is \<^verbatim>\<open>makeByType\<close>.\<close>

definition ValueTypePtr_rw :: "'o ValueType rw \<Rightarrow> (byte \<Rightarrow> 'o ValueType option) \<Rightarrow> 'o ValueType option rw" where
  "ValueTypePtr_rw v mk = \<lparr>
     rw_write = (\<lambda>obj. case obj of None \<Rightarrow> bool_write False
       | Some t \<Rightarrow> bool_write True @ le_write 1 (kind_code (type_of t)) @ rw_write v t),
     rw_read = (\<lambda>obj buf. case buf of
         [] \<Rightarrow> (Some (RPC_FAILED 1 0), obj, [])
       | hasVal # buf \<Rightarrow> if hasVal = 0 then (None, None, buf) else (case buf of
           [] \<Rightarrow> (Some (RPC_FAILED 1 0), obj, [])
         | kind # buf \<Rightarrow> (case mk kind of None \<Rightarrow> (None, None, buf)
           | Some t \<Rightarrow> (case rw_read v t buf of (st, t', rest) \<Rightarrow> (st, Some t', rest))))),
     rw_size = (\<lambda>obj. case obj of None \<Rightarrow> 1 | Some t \<Rightarrow> 1 + (1 + rw_size v t))\<rparr>"

definition field_members :: "'o ValueType option rw \<Rightarrow> 'o FieldType rw list" where
  "field_members p = [member_of field_name (\<lambda>v. field_name_update (\<lambda>_. v)) string_rw,
     member_of field_type (\<lambda>v. field_type_update (\<lambda>_. v)) p]"

definition FieldType_rw :: "'o ValueType option rw \<Rightarrow> 'o FieldType rw" where
  "FieldType_rw p = SERIALIZE_EACH_MEMBER (field_members p)"

text \<open>The vector of fields: it is cleared and resized, and each new field is filled in turn.\<close>

definition FieldType_default :: "'o FieldType" where
  "FieldType_default = \<lparr>field_name = '''', field_type = None\<rparr>"

fun fill :: "'a rw \<Rightarrow> nat \<Rightarrow> nat \<Rightarrow> 'a list inplace" where
  "fill f i 0 vec buf = (None, vec, buf)"
| "fill f i (Suc k) vec buf = (case rw_read f (vec ! i) buf of
     (Some e, x, buf') \<Rightarrow> (Some e, vec[i := x], buf')
   | (None, x, buf') \<Rightarrow> fill f (i + 1) k (vec[i := x]) buf')"

definition vector_rw :: "'a \<Rightarrow> 'a rw \<Rightarrow> 'a list rw" where
  "vector_rw dflt f = \<lparr>rw_write = vector_write (rw_write f),
     rw_read = (\<lambda>vec buf. if length buf < 4 then (Some (RPC_DESERIALIZE_ERROR 4 (length buf)), vec, buf)
       else let n = unat (le_word (take 4 buf) :: uint32) in fill f 0 n (replicate n dflt) (drop 4 buf)),
     rw_size = vector_size (rw_size f)\<rparr>"

definition row_members :: "'o ValueType option rw \<Rightarrow> 'o RowType rw list" where
  "row_members p = [member_of (\<lambda>r. r) (\<lambda>v _. v) (vector_rw FieldType_default (FieldType_rw p))]"

definition RowType_rw :: "'o ValueType option rw \<Rightarrow> 'o RowType rw" where
  "RowType_rw p = SERIALIZE_EACH_MEMBER (row_members p)"

section \<open>Laws\<close>

text \<open>An object that is filled in place, as a reader.\<close>

definition in_reader :: "'a inplace \<Rightarrow> 'a \<Rightarrow> 'a reader" where
  "in_reader r obj buf = (case r obj buf of (Some e, _, _) \<Rightarrow> Inl e | (None, v, rest) \<Rightarrow> Inr (v, rest))"

lemma in_reader_scalar: "in_reader (rw_read (scalar_rw n)) obj = le_read n"
  by (simp add: fun_eq_iff in_reader_def scalar_rw_def le_read_def)

lemma in_reader_string: "in_reader (rw_read string_rw) obj = string_read"
  by (simp add: fun_eq_iff in_reader_def string_rw_def string_read_def rbind_def count_read_def bytes_read_def
      rreturn_def Let_def)

lemma in_reader_member:
  "in_reader (rw_read (member_of sel upd f)) obj = rbind (in_reader (rw_read f) (sel obj)) (\<lambda>v. rreturn (upd v obj))"
  by (auto simp: fun_eq_iff in_reader_def member_of_def rbind_def rreturn_def split: prod.splits option.splits)

lemma in_reader_fold_Nil: "in_reader (fold_read []) obj = rreturn obj"
  by (simp add: fun_eq_iff in_reader_def rreturn_def)

lemma in_reader_fold_Cons:
  "in_reader (fold_read (m # ms)) obj = rbind (in_reader (rw_read m) obj) (in_reader (fold_read ms))"
  by (auto simp: fun_eq_iff in_reader_def rbind_def split: prod.splits option.splits)

lemma fill_read_n:
  "i + k = length vec \<Longrightarrow> (\<forall>j < length vec. i \<le> j \<longrightarrow> vec ! j = d) \<Longrightarrow>
   in_reader (fill f i k) vec = rbind (read_n (in_reader (rw_read f) d) k) (\<lambda>xs. rreturn (take i vec @ xs))"
proof (induction k arbitrary: i vec)
  case 0
  then show ?case by (simp add: fun_eq_iff in_reader_def rbind_def rreturn_def)
next
  case (Suc k)
  then have i: "i < length vec" "vec ! i = d" by auto
  have "in_reader (fill f i (Suc k)) vec =
      rbind (in_reader (rw_read f) d) (\<lambda>x. in_reader (fill f (i + 1) k) (vec[i := x]))"
    using i by (auto simp: fun_eq_iff in_reader_def rbind_def split: prod.splits option.splits)
  also have "\<dots> = rbind (in_reader (rw_read f) d) (\<lambda>x. rbind (read_n (in_reader (rw_read f) d) k)
      (\<lambda>xs. rreturn (take i vec @ x # xs)))"
  proof -
    have "in_reader (fill f (i + 1) k) (vec[i := x]) =
        rbind (read_n (in_reader (rw_read f) d) k) (\<lambda>xs. rreturn (take (i + 1) (vec[i := x]) @ xs))" for x
      by (rule Suc.IH) (use Suc.prems in auto)
    moreover have "take (i + 1) (vec[i := x]) = take i vec @ [x]" for x
      using i by (simp add: take_Suc_conv_app_nth)
    ultimately show ?thesis by simp
  qed
  also have "\<dots> = rbind (read_n (in_reader (rw_read f) d) (Suc k)) (\<lambda>xs. rreturn (take i vec @ xs))"
    by (auto simp: fun_eq_iff rbind_def rreturn_def split: sum.splits)
  finally show ?case .
qed

lemma in_reader_vector: "in_reader (rw_read (vector_rw d f)) vec = vector_read (in_reader (rw_read f) d)"
proof
  fix buf
  define n where "n = unat (le_word (take 4 buf) :: uint32)"
  have "in_reader (fill f 0 n) (replicate n d) = read_n (in_reader (rw_read f) d) n"
    using fill_read_n [of 0 n "replicate n d" d f] by (auto simp: fun_eq_iff rbind_def rreturn_def split: sum.splits)
  then show "in_reader (rw_read (vector_rw d f)) vec buf = vector_read (in_reader (rw_read f) d) buf"
    by (simp add: in_reader_def vector_rw_def vector_read_def rbind_def count_read_def Let_def n_def fun_eq_iff)
qed

text \<open>A member that fills the object like \<open>copy\<close> does.\<close>

definition member_ok :: "('c \<Rightarrow> bool) \<Rightarrow> 'c rw \<Rightarrow> ('c \<Rightarrow> 'c \<Rightarrow> 'c) \<Rightarrow> bool" where
  "member_ok valid m copy \<longleftrightarrow>
     (\<forall>x obj. valid x \<longrightarrow> decodes (in_reader (rw_read m) obj) (rw_write m x) (copy x obj)) \<and>
     (\<forall>x. valid x \<longrightarrow> length (rw_write m x) = rw_size m x) \<and>
     (\<forall>obj. consumes (in_reader (rw_read m) obj))"

lemma member_of_ok:
  assumes "\<And>v. codec (rw_write f) (in_reader (rw_read f) v) (rw_size f) ok" "\<forall>x. valid x \<longrightarrow> ok (sel x)"
  shows "member_ok valid (member_of sel upd f) (\<lambda>x. upd (sel x))"
  unfolding member_ok_def in_reader_member
proof (intro conjI allI impI)
  fix x obj assume "valid x"
  then show "decodes (rbind (in_reader (rw_read f) (sel obj)) (\<lambda>v. rreturn (upd v obj)))
      (rw_write (member_of sel upd f) x) (upd (sel x) obj)"
    using codec.decodes_write [OF assms(1), of "sel x" "sel obj"] assms(2)
    by (intro decodes_last [where x = "sel x"]) (simp_all add: member_of_def)
next
  fix x assume "valid x"
  then show "length (rw_write (member_of sel upd f) x) = rw_size (member_of sel upd f) x"
    using codec.size_write [OF assms(1), of "sel x"] assms(2) by (simp add: member_of_def)
next
  fix obj show "consumes (rbind (in_reader (rw_read f) (sel obj)) (\<lambda>v. rreturn (upd v obj)))"
    using codec.consumes_read [OF assms(1)] by (intro consumes_bind consumes_return)
qed

lemma fold_decodes_copies:
  assumes "list_all2 (member_ok valid) ms copies" "valid x"
  shows "decodes (in_reader (fold_read ms) obj) (fold_write ms x) (foldl (\<lambda>obj c. c x obj) obj copies)"
  using assms(1)
proof (induction ms copies arbitrary: obj rule: list_all2_induct)
  case Nil
  then show ?case unfolding in_reader_fold_Nil by (simp add: decodes_return)
next
  case (Cons m ms c cs)
  then show ?case unfolding in_reader_fold_Cons fold_write.simps foldl_Cons
    by (intro decodes_bind [where x = "c x obj"]) (simp_all add: member_ok_def assms(2))
qed

lemma fold_length_copies:
  "list_all2 (member_ok valid) ms copies \<Longrightarrow> valid x \<Longrightarrow> length (fold_write ms x) = fold_size ms x"
  by (induction ms copies rule: list_all2_induct) (simp_all add: fold_size_def member_ok_def)

locale member_class =
  fixes ms :: "'c rw list" and copies :: "('c \<Rightarrow> 'c \<Rightarrow> 'c) list" and valid :: "'c \<Rightarrow> bool"
  assumes members: "list_all2 (member_ok valid) ms copies"
    and complete: "valid x \<Longrightarrow> foldl (\<lambda>obj c. c x obj) obj copies = x"
begin

lemma fold_decodes: "valid x \<Longrightarrow> decodes (in_reader (fold_read ms) obj) (fold_write ms x) x"
  using fold_decodes_copies [OF members, of x obj] by (simp add: complete)

lemma fold_length: "valid x \<Longrightarrow> length (fold_write ms x) = fold_size ms x"
  by (rule fold_length_copies [OF members])

lemma fold_consumes: "consumes (in_reader (fold_read ms) obj)"
  using members
  by (induction ms copies arbitrary: obj rule: list_all2_induct)
    (simp_all add: in_reader_fold_Nil in_reader_fold_Cons consumes_return consumes_bind member_ok_def)

lemma class_codec:
  "codec (rw_write (SERIALIZE_EACH_MEMBER ms)) (in_reader (rw_read (SERIALIZE_EACH_MEMBER ms)) obj)
     (rw_size (SERIALIZE_EACH_MEMBER ms)) valid"
  by unfold_locales (simp_all add: SERIALIZE_EACH_MEMBER_def fold_decodes fold_length fold_consumes)

end

lemma in_reader_Inr: "in_reader r obj buf = Inr (v, rest) \<longleftrightarrow> r obj buf = (None, v, rest)"
  by (auto simp: in_reader_def split: prod.splits option.splits)

lemma in_reader_Inl: "in_reader r obj buf = Inl e \<longleftrightarrow> (\<exists>v rest. r obj buf = (Some e, v, rest))"
  by (auto simp: in_reader_def split: prod.splits option.splits)

lemma le_word_single [simp]: "le_word [b] = (b :: byte)"
  by (simp add: push_bit_eq_mult)

lemma in_reader_value_ptr:
  "in_reader (rw_read (ValueTypePtr_rw v mk)) obj = rbind bool_read (\<lambda>b. if b then
     rbind (le_read 1) (\<lambda>k. case mk k of None \<Rightarrow> rreturn None
       | Some t \<Rightarrow> rbind (in_reader (rw_read v) t) (\<lambda>t'. rreturn (Some t'))) else rreturn None)"
proof
  fix buf show "in_reader (rw_read (ValueTypePtr_rw v mk)) obj buf = rbind bool_read (\<lambda>b. if b then
     rbind (le_read 1) (\<lambda>k. case mk k of None \<Rightarrow> rreturn None
       | Some t \<Rightarrow> rbind (in_reader (rw_read v) t) (\<lambda>t'. rreturn (Some t'))) else rreturn None) buf"
    by (auto simp: in_reader_def ValueTypePtr_rw_def rbind_def bool_read_def le_read_def rreturn_def
        split: list.splits option.splits prod.splits)
qed

text \<open>What is assumed of the virtual operations: the object that \<^verbatim>\<open>makeByType\<close> makes for the kind of a type
  reads what the type wrote.\<close>

definition virtual_ok :: "'o ValueType rw \<Rightarrow> (byte \<Rightarrow> 'o ValueType option) \<Rightarrow> ('o ValueType \<Rightarrow> bool) \<Rightarrow> bool" where
  "virtual_ok v mk ok \<longleftrightarrow>
     (\<forall>t. ok t \<longrightarrow> (\<exists>d. mk (kind_code (type_of t)) = Some d \<and>
        decodes (in_reader (rw_read v) d) (rw_write v t) t) \<and> length (rw_write v t) = rw_size v t) \<and>
     (\<forall>d. consumes (in_reader (rw_read v) d))"

lemma value_ptr_codec:
  assumes "virtual_ok v mk ok"
  shows "codec (rw_write (ValueTypePtr_rw v mk)) (in_reader (rw_read (ValueTypePtr_rw v mk)) obj)
    (rw_size (ValueTypePtr_rw v mk)) (pred_option ok)"
proof
  fix x assume x: "pred_option ok x"
  show "decodes (in_reader (rw_read (ValueTypePtr_rw v mk)) obj) (rw_write (ValueTypePtr_rw v mk) x) x"
  proof (cases x)
    case None
    have "decodes (in_reader (rw_read (ValueTypePtr_rw v mk)) obj) (bool_write False @ []) None"
      unfolding in_reader_value_ptr by (rule decodes_bind [OF bool.decodes_write]) (simp_all add: decodes_return)
    then show ?thesis using None by (simp add: ValueTypePtr_rw_def)
  next
    case (Some t)
    then obtain d where d: "mk (kind_code (type_of t)) = Some d" "decodes (in_reader (rw_read v) d) (rw_write v t) t"
      using x assms by (auto simp: virtual_ok_def)
    have "decodes (in_reader (rw_read (ValueTypePtr_rw v mk)) obj)
        (bool_write True @ le_write 1 (kind_code (type_of t)) @ rw_write v t) (Some t)"
      unfolding in_reader_value_ptr
    proof (rule decodes_bind [OF bool.decodes_write], simp)
      have "decodes (rbind (in_reader (rw_read v) d) (\<lambda>t'. rreturn (Some t'))) (rw_write v t) (Some t)"
        by (rule decodes_last [OF d(2)]) simp
      then have "decodes (rbind (le_read 1) (\<lambda>k. case mk k of None \<Rightarrow> rreturn None
          | Some t \<Rightarrow> rbind (in_reader (rw_read v) t) (\<lambda>t'. rreturn (Some t'))))
          (le_write 1 (kind_code (type_of t)) @ rw_write v t) (Some t)"
        by (intro decodes_bind [OF u8.decodes_write]) (simp_all add: d(1))
      then show "decodes (if True then rbind (le_read 1) (\<lambda>k. case mk k of None \<Rightarrow> rreturn None
          | Some t \<Rightarrow> rbind (in_reader (rw_read v) t) (\<lambda>t'. rreturn (Some t'))) else rreturn None)
          (le_write 1 (kind_code (type_of t)) @ rw_write v t) (Some t)" by simp
    qed
    then show ?thesis using Some by (simp add: ValueTypePtr_rw_def)
  qed
  show "length (rw_write (ValueTypePtr_rw v mk) x) = rw_size (ValueTypePtr_rw v mk) x"
    using x assms bool.size_write by (cases x) (auto simp: ValueTypePtr_rw_def virtual_ok_def)
next
  show "consumes (in_reader (rw_read (ValueTypePtr_rw v mk)) obj)"
    unfolding in_reader_value_ptr using assms
    by (intro consumes_bind bool.consumes_read)
      (auto simp: virtual_ok_def split: option.splits intro!: consumes_bind u8.consumes_read [simplified] consumes_return)
qed

lemma string_rw_codec:
  "codec (rw_write string_rw) (in_reader (rw_read string_rw) obj) (rw_size string_rw) (\<lambda>str. length str < 2 ^ 32)"
  using string_codec unfolding in_reader_string by (simp add: string_rw_def)

lemma port_rw_codec:
  "codec (rw_write (scalar_rw 4 :: uint32 rw)) (in_reader (rw_read (scalar_rw 4)) obj) (rw_size (scalar_rw 4 :: uint32 rw))
    (\<lambda>_. True)"
  using i32.codec_axioms unfolding in_reader_scalar by (simp add: scalar_rw_def)

interpretation host_wire: member_class host_members
  "[\<lambda>x. host_update (\<lambda>_. host x), \<lambda>x. port_update (\<lambda>_. port x)]" "\<lambda>a. length (host a) < 2 ^ 32"
proof
  show "list_all2 (member_ok (\<lambda>a. length (host a) < 2 ^ 32)) host_members
      [\<lambda>x. host_update (\<lambda>_. host x), \<lambda>x. port_update (\<lambda>_. port x)]"
    using member_of_ok [OF string_rw_codec, of "\<lambda>a. length (host a) < 2 ^ 32" host "\<lambda>v. host_update (\<lambda>_. v)"]
      member_of_ok [OF port_rw_codec, of "\<lambda>a. length (host a) < 2 ^ 32" port "\<lambda>v. port_update (\<lambda>_. v)"]
    by (simp add: host_members_def)
qed simp

definition field_ok :: "('o ValueType \<Rightarrow> bool) \<Rightarrow> 'o FieldType \<Rightarrow> bool" where
  "field_ok ok f \<longleftrightarrow> length (field_name f) < 2 ^ 32 \<and> pred_option ok (field_type f)"

lemma field_class:
  assumes "virtual_ok v mk ok"
  shows "member_class (field_members (ValueTypePtr_rw v mk))
    [\<lambda>x. field_name_update (\<lambda>_. field_name x), \<lambda>x. field_type_update (\<lambda>_. field_type x)] (field_ok ok)"
proof
  show "list_all2 (member_ok (field_ok ok)) (field_members (ValueTypePtr_rw v mk))
      [\<lambda>x. field_name_update (\<lambda>_. field_name x), \<lambda>x. field_type_update (\<lambda>_. field_type x)]"
    using member_of_ok [OF string_rw_codec, of "field_ok ok" field_name "\<lambda>v. field_name_update (\<lambda>_. v)"]
      member_of_ok [OF value_ptr_codec [OF assms], of "field_ok ok" field_type "\<lambda>v. field_type_update (\<lambda>_. v)"]
    by (simp add: field_members_def field_ok_def)
qed simp

lemma fields_codec:
  assumes "virtual_ok v mk ok"
  shows "codec (rw_write (vector_rw FieldType_default (FieldType_rw (ValueTypePtr_rw v mk))))
    (in_reader (rw_read (vector_rw FieldType_default (FieldType_rw (ValueTypePtr_rw v mk)))) vec)
    (rw_size (vector_rw FieldType_default (FieldType_rw (ValueTypePtr_rw v mk))))
    (\<lambda>r. list_all (field_ok ok) r \<and> length r < 2 ^ 32)"
  using vector_codec [OF member_class.class_codec [OF field_class [OF assms]]]
  unfolding in_reader_vector by (simp add: vector_rw_def FieldType_rw_def)

lemma row_class:
  assumes "virtual_ok v mk ok"
  shows "member_class (row_members (ValueTypePtr_rw v mk)) [\<lambda>x _. x] (\<lambda>r. list_all (field_ok ok) r \<and> length r < 2 ^ 32)"
proof
  show "list_all2 (member_ok (\<lambda>r. list_all (field_ok ok) r \<and> length r < 2 ^ 32)) (row_members (ValueTypePtr_rw v mk)) [\<lambda>x _. x]"
    using member_of_ok [OF fields_codec [OF assms], of _ "\<lambda>r. r" "\<lambda>v _. v"] 
    by (simp add: row_members_def)
qed simp

section \<open>Properties\<close>

text \<open>Claim C34. A row type survives the wire. Provided the virtual operations of the value types read what they
  write, with names and rows shorter than \<open>2 ^ 32\<close>, the generated readers of \<^verbatim>\<open>RowType\<close> and \<^verbatim>\<open>FieldType\<close> give the row
  type back, whatever the object held before and whatever follows in the buffer; \<^verbatim>\<open>encodedSize\<close> is the
  number of bytes written; and a buffer that is cut anywhere is refused.\<close>

theorem row_type_wire:
  assumes "virtual_ok v mk ok" "list_all (field_ok ok) r" "length r < 2 ^ 32"
    "n < rw_size (RowType_rw (ValueTypePtr_rw v mk)) r"
  shows "rw_read (RowType_rw (ValueTypePtr_rw v mk)) r0 (rw_write (RowType_rw (ValueTypePtr_rw v mk)) r @ rest)
      = (None, r, rest)
    \<and> length (rw_write (RowType_rw (ValueTypePtr_rw v mk)) r) = rw_size (RowType_rw (ValueTypePtr_rw v mk)) r
    \<and> (\<exists>e r1 b. rw_read (RowType_rw (ValueTypePtr_rw v mk)) r0 (take n (rw_write (RowType_rw (ValueTypePtr_rw v mk)) r))
        = (Some e, r1, b))"
proof -
  have c: "codec (rw_write (RowType_rw (ValueTypePtr_rw v mk))) (in_reader (rw_read (RowType_rw (ValueTypePtr_rw v mk))) r0)
      (rw_size (RowType_rw (ValueTypePtr_rw v mk))) (\<lambda>r. list_all (field_ok ok) r \<and> length r < 2 ^ 32)"
    unfolding RowType_rw_def by (rule member_class.class_codec [OF row_class [OF assms(1)]])
  have r: "list_all (field_ok ok) r \<and> length r < 2 ^ 32" using assms(2,3) by blast
  show ?thesis
    using codec.roundtrip [OF c r, of rest] codec.size_write [OF c r] codec.truncated [OF c r assms(4)]
    unfolding in_reader_Inr in_reader_Inl by blast
qed

lemma bool_type_virtual:
  "virtual_ok SERIALIZE_NO_MEMBER (\<lambda>k. if k = kind_code kBool then Some TBool else None) (\<lambda>t. t = TBool)"
  by (auto simp: virtual_ok_def SERIALIZE_NO_MEMBER_def in_reader_def decodes_def consumes_def)

theorem row_type_wire_witness:
  "let p = ValueTypePtr_rw SERIALIZE_NO_MEMBER (\<lambda>k. if k = kind_code kBool then Some TBool else None);
       r = [\<lparr>field_name = ''id'', field_type = Some (TBool :: nat ValueType)\<rparr>, \<lparr>field_name = '''', field_type = None\<rparr>]
   in rw_size (RowType_rw p) r = 17 \<and> rw_read (RowType_rw p) [] (rw_write (RowType_rw p) r @ [7]) = (None, r, [7])"
proof -
  define p :: "nat ValueType option rw" where
    "p = ValueTypePtr_rw SERIALIZE_NO_MEMBER (\<lambda>k. if k = kind_code kBool then Some TBool else None)"
  define r where "r = [\<lparr>field_name = ''id'', field_type = Some (TBool :: nat ValueType)\<rparr>, \<lparr>field_name = '''', field_type = None\<rparr>]"
  have n: "rw_size (RowType_rw p) r = 17"
    by (simp add: p_def r_def RowType_rw_def SERIALIZE_EACH_MEMBER_def fold_size_def row_members_def member_of_def
        vector_rw_def vector_size_def FieldType_rw_def field_members_def string_rw_def string_size_def ValueTypePtr_rw_def
        SERIALIZE_NO_MEMBER_def)
  have "rw_read (RowType_rw p) [] (rw_write (RowType_rw p) r @ [7]) = (None, r, [7])"
    using row_type_wire [OF bool_type_virtual, of r 0 "[]" "[7]"] n
    by (simp add: p_def r_def field_ok_def)
  then show ?thesis using n by (simp add: p_def r_def)
qed

text \<open>The generated codec of \<^verbatim>\<open>HostAddress\<close>: it gives the address back and refuses a cut buffer.\<close>

theorem host_address_wire:
  assumes "length (host a) < 2 ^ 32" "n < length (host a) + 8"
  shows "rw_read HostAddress_rw a0 (rw_write HostAddress_rw a @ rest) = (None, a, rest)
    \<and> length (rw_write HostAddress_rw a) = length (host a) + 8
    \<and> (\<exists>e a1 b. rw_read HostAddress_rw a0 (take n (rw_write HostAddress_rw a)) = (Some e, a1, b))"
proof -
  have c: "codec (rw_write HostAddress_rw) (in_reader (rw_read HostAddress_rw) a0) (rw_size HostAddress_rw)
      (\<lambda>a. length (host a) < 2 ^ 32)"
    unfolding HostAddress_rw_def by (rule host_wire.class_codec)
  have s: "rw_size HostAddress_rw a = length (host a) + 8"
    by (simp add: HostAddress_rw_def SERIALIZE_EACH_MEMBER_def fold_size_def host_members_def member_of_def
        string_rw_def string_size_def scalar_rw_def)
  show ?thesis
    using codec.roundtrip [OF c assms(1), of rest] codec.size_write [OF c assms(1)]
      codec.truncated [OF c assms(1), of n] assms(2) s
    unfolding in_reader_Inr in_reader_Inl by auto
qed

text \<open>
  A class with a base: the status of reading the base is dropped. With a base of one 64 bit integer
  and a member of 32 bits, a buffer of four to seven bytes is accepted, the base keeps what it held,
  and the member is read from the bytes of the base.
\<close>

theorem base_status_dropped:
  assumes "4 \<le> length buf" "length buf < 8"
  shows "rw_read (SERIALIZE_EACH_MEMBER_BASE (member_of fst (\<lambda>v x. (v, snd x)) (scalar_rw 8))
      [member_of snd (\<lambda>v x. (fst x, v)) (scalar_rw 4)]) (b0 :: uint64, m0 :: uint32) buf
    = (None, (b0, le_word (take 4 buf)), drop 4 buf)"
  using assms by (simp add: SERIALIZE_EACH_MEMBER_BASE_def member_of_def scalar_rw_def)

text \<open>
  The macros take one to thirty members; \<^verbatim>\<open>CONSTANT_LENGTH\<close>, because of the undefined names, only one.
\<close>

lemma MEMBERS_expand:
  "0 < length args \<Longrightarrow> length args \<le> 30 \<Longrightarrow> MEMBERS (length args) args = Some (map ((@) ''msg.'') args)"
proof (induction args)
  case (Cons a as)
  then show ?case by (cases as) simp_all
qed simp

lemma MacroArgCount_le: "length args \<le> 30 \<Longrightarrow> MacroArgCount args = Number (length args)"
  by (simp add: MacroArgCount_def nth_append rev_nth)

lemma MacroArgCount_gt: "30 < length args \<Longrightarrow> MacroArgCount args = Name (args ! 30)"
  by (simp add: MacroArgCount_def nth_append)

theorem macro_expansion:
  assumes "0 < length args"
  shows "member_list args = (if length args \<le> 30 then Some (map ((@) ''msg.'') args) else None)
    \<and> (CONSTANT_LENGTH size_of c args \<noteq> None \<longrightarrow> length args = 1)"
proof (cases "length args \<le> 30")
  case True
  have "STATIC_MEMBER (length args) c args = None" if "length args \<noteq> 1"
    using assms that by (cases "(length args, c, args)" rule: STATIC_MEMBER.cases) auto
  then show ?thesis using True assms MEMBERS_expand [of args]
    by (cases "length args = 1") (simp_all add: member_list_def CONSTANT_LENGTH_def MacroArgCount_le)
next
  case False
  then show ?thesis by (simp add: member_list_def CONSTANT_LENGTH_def MacroArgCount_gt)
qed

end
