(* ===== verification/BindingTables.thy ===== *)
theory BindingTables
  imports MemberCodec
begin

text \<open>
  Binding tables: \<^verbatim>\<open>src/include/nebula/common/table/BindingTableCommon.h\<close>. Part one is \<^verbatim>\<open>LinkedChunks\<close>, a doubly
  linked list of chunks in a heap: a heap is a partial map from addresses to chunks, \<open>None\<close> is memory
  that is not allocated, and an operation that follows such a pointer, or fails a \<^verbatim>\<open>DCHECK\<close>, is \<open>None\<close>. The
  address that \<^verbatim>\<open>new\<close> returns and the object it constructs are arguments. Part two is \<^verbatim>\<open>BitSet\<close> and its codec,
  part three \<^verbatim>\<open>BindingTableDescriptor\<close> with its codec.
\<close>

unbundle bit_operations_syntax

section \<open>Chunk sizes\<close>

definition MINIMUM_MT_CHUNK_SIZE :: uint64 where "MINIMUM_MT_CHUNK_SIZE = 4096"
definition BASE_MT_CHUNK_SIZE :: uint64 where "BASE_MT_CHUNK_SIZE = 16384"
definition MAXIMUM_MT_CHUNK_SIZE :: uint64 where "MAXIMUM_MT_CHUNK_SIZE = 4194304"

lemmas chunk_size_defs = MINIMUM_MT_CHUNK_SIZE_def BASE_MT_CHUNK_SIZE_def MAXIMUM_MT_CHUNK_SIZE_def

definition ALIGN_64 :: "uint64 \<Rightarrow> uint64" where
  "ALIGN_64 x = (x + 63) AND 0xFFFFFFFFFFFFFFC0"

text \<open>\<open>Hint\<close> is any other value of the one byte enumeration.\<close>

datatype ScenarioHint = kAnalytical | kTransactional | kTopological | Hint byte

fun calculateChunkSize :: "uint64 \<Rightarrow> ScenarioHint \<Rightarrow> uint64" where
  "calculateChunkSize chunkID kTransactional =
     (if chunkID < 8 then MINIMUM_MT_CHUNK_SIZE
      else if chunkID < 64 then BASE_MT_CHUNK_SIZE else 64 * BASE_MT_CHUNK_SIZE)"
| "calculateChunkSize chunkID kAnalytical =
     (if chunkID < 64 then BASE_MT_CHUNK_SIZE else 64 * BASE_MT_CHUNK_SIZE)"
| "calculateChunkSize chunkID kTopological = 64 * BASE_MT_CHUNK_SIZE"
| "calculateChunkSize chunkID (Hint b) = BASE_MT_CHUNK_SIZE"

section \<open>Linked chunks\<close>

type_synonym addr = nat

record 'p BasicChunk =
  prevChunkPtr :: "addr option"
  nextChunkPtr :: "addr option"
  content :: 'p

type_synonym 'p chunk_heap = "addr \<Rightarrow> 'p BasicChunk option"

record LinkedChunks =
  numChunks :: uint64
  numRecords :: uint64
  totalBytes :: uint64
  firstChunk :: "addr option"
  lastChunk :: "addr option"
  isSparse :: bool

definition LinkedChunks_new :: "bool \<Rightarrow> LinkedChunks" where
  "LinkedChunks_new sparse = \<lparr>numChunks = 0, numRecords = 0, totalBytes = 0, firstChunk = None, lastChunk = None,
     isSparse = sparse\<rparr>"

definition setNext :: "addr \<Rightarrow> addr option \<Rightarrow> 'p chunk_heap \<Rightarrow> 'p chunk_heap option" where
  "setNext a n h = map_option (\<lambda>c. h(a \<mapsto> c\<lparr>nextChunkPtr := n\<rparr>)) (h a)"

definition setPrev :: "addr \<Rightarrow> addr option \<Rightarrow> 'p chunk_heap \<Rightarrow> 'p chunk_heap option" where
  "setPrev a n h = map_option (\<lambda>c. h(a \<mapsto> c\<lparr>prevChunkPtr := n\<rparr>)) (h a)"

text \<open>\<open>newT\<close> is the constructor of the chunk, \<open>p\<close> the address \<^verbatim>\<open>new\<close> returns.\<close>

definition addNewChunk :: "(uint64 \<Rightarrow> 'p) \<Rightarrow> addr \<Rightarrow> uint64 \<Rightarrow> 'p chunk_heap \<times> LinkedChunks \<Rightarrow>
    ('p chunk_heap \<times> LinkedChunks) option" where
  "addNewChunk newT p chunkSize s = (case s of (h, l) \<Rightarrow>
     let chunkSize = (if chunkSize = 0 then calculateChunkSize (numChunks l) kTransactional else chunkSize) in
     if chunkSize > MAXIMUM_MT_CHUNK_SIZE then None else do {
       let h = h(p \<mapsto> \<lparr>prevChunkPtr = None, nextChunkPtr = None, content = newT chunkSize\<rparr>);
       h \<leftarrow> setNext p None h;
       let l = (if firstChunk l = None then l\<lparr>firstChunk := Some p\<rparr> else l);
       h \<leftarrow> (case lastChunk l of None \<Rightarrow> Some h | Some q \<Rightarrow> setNext q (Some p) h);
       h \<leftarrow> setPrev p (lastChunk l) h;
       Some (h, l\<lparr>lastChunk := Some p, totalBytes := totalBytes l + chunkSize, numChunks := numChunks l + 1\<rparr>)
     })"

definition emplaceNewChunk :: "'p \<Rightarrow> addr \<Rightarrow> 'p chunk_heap \<times> LinkedChunks \<Rightarrow> ('p chunk_heap \<times> LinkedChunks) option" where
  "emplaceNewChunk dflt p s = (case s of (h, l) \<Rightarrow> do {
       let h = h(p \<mapsto> \<lparr>prevChunkPtr = None, nextChunkPtr = None, content = dflt\<rparr>);
       h \<leftarrow> setNext p None h;
       (h, l) \<leftarrow> (if firstChunk l = None then do {
             h \<leftarrow> setPrev p None h;
             Some (h, l\<lparr>firstChunk := Some p\<rparr>)
           } else case lastChunk l of None \<Rightarrow> Some (h, l)
             | Some q \<Rightarrow> do {
                 h \<leftarrow> setNext q (Some p) h;
                 h \<leftarrow> setPrev p (Some q) h;
                 Some (h, l)
               });
       Some (h, l\<lparr>lastChunk := Some p, numChunks := numChunks l + 1\<rparr>)
     })"

text \<open>The destructor; \<open>None\<close> also when the loop does not end.\<close>

partial_function (option) free_chunks :: "addr option \<Rightarrow> 'p chunk_heap \<Rightarrow> 'p chunk_heap option" where
  "free_chunks ptr h = (case ptr of None \<Rightarrow> Some h
     | Some a \<Rightarrow> do {
         c \<leftarrow> h a;
         free_chunks (nextChunkPtr c) (h(a := None))
       })"

definition LinkedChunks_destroy :: "'p chunk_heap \<times> LinkedChunks \<Rightarrow> 'p chunk_heap option" where
  "LinkedChunks_destroy s = free_chunks (firstChunk (snd s)) (fst s)"

text \<open>A walk over the chunks, from \<^verbatim>\<open>getFirstChunk\<close> with \<^verbatim>\<open>getNextChunk\<close> or from \<^verbatim>\<open>getLastChunk\<close> with \<^verbatim>\<open>prev\<close>; the
  fuel is the number of chunks.\<close>

definition getNextChunk :: "addr \<Rightarrow> 'p chunk_heap \<Rightarrow> addr option option" where
  "getNextChunk a h = map_option nextChunkPtr (h a)"

definition chunk_prev :: "addr \<Rightarrow> 'p chunk_heap \<Rightarrow> addr option option" where
  "chunk_prev a h = map_option prevChunkPtr (h a)"

fun walk :: "(addr \<Rightarrow> 'p chunk_heap \<Rightarrow> addr option option) \<Rightarrow> nat \<Rightarrow> addr option \<Rightarrow> 'p chunk_heap \<Rightarrow> addr list option" where
  "walk step n None h = Some []"
| "walk step 0 (Some a) h = None"
| "walk step (Suc n) (Some a) h = do {
     next_a \<leftarrow> step a h;
     rest \<leftarrow> walk step n next_a h;
     Some (a # rest)
   }"

section \<open>Chains in the heap\<close>

text \<open>\<open>chain h p q as e b\<close>: from \<open>p\<close> the next pointers lead through \<open>as\<close> to \<open>e\<close>, and from \<open>b\<close> the previous pointers
  lead back through them to \<open>q\<close>.\<close>

fun chain :: "'p chunk_heap \<Rightarrow> addr option \<Rightarrow> addr option \<Rightarrow> addr list \<Rightarrow> addr option \<Rightarrow> addr option \<Rightarrow> bool" where
  "chain h p q [] e b \<longleftrightarrow> p = e \<and> b = q"
| "chain h p q (a # as) e b \<longleftrightarrow>
     p = Some a \<and> (\<exists>c. h a = Some c \<and> prevChunkPtr c = q \<and> chain h (nextChunkPtr c) (Some a) as e b)"

lemma chain_append:
  "chain h p q (as @ bs) e b \<longleftrightarrow> (\<exists>m n. chain h p q as m n \<and> chain h m n bs e b)"
  by (induction as arbitrary: p q) auto

lemma chain_upd [simp]: "a \<notin> set as \<Longrightarrow> chain (h(a := c)) p q as e b = chain h p q as e b"
  by (induction as arbitrary: p q) auto

lemma chain_back: "chain h p q as e b \<Longrightarrow> b = (if as = [] then q else Some (last as))"
  by (induction as arbitrary: p q) auto

lemma chain_front: "chain h p q as e b \<Longrightarrow> p = (if as = [] then e else Some (hd as))"
  by (cases as) auto

lemma chain_dom: "chain h p q as e b \<Longrightarrow> set as \<subseteq> dom h"
  by (induction as arbitrary: p q) auto

text \<open>The state of the list: its chunks in order.\<close>

definition holds_chunks :: "'p chunk_heap \<times> LinkedChunks \<Rightarrow> addr list \<Rightarrow> bool" where
  "holds_chunks s as \<longleftrightarrow> distinct as \<and> chain (fst s) (firstChunk (snd s)) None as None (lastChunk (snd s)) \<and>
     numChunks (snd s) = of_nat (length as)"

text \<open>The effect of an append on the heap.\<close>

definition link_chunk :: "addr \<Rightarrow> addr option \<Rightarrow> 'p \<Rightarrow> 'p chunk_heap \<Rightarrow> 'p chunk_heap" where
  "link_chunk p l x h = (case l of None \<Rightarrow> h | Some q \<Rightarrow> h(q := map_option (nextChunkPtr_update (\<lambda>_. Some p)) (h q)))
     (p \<mapsto> \<lparr>prevChunkPtr = l, nextChunkPtr = None, content = x\<rparr>)"

lemma chain_link:
  assumes "chain h f None as None l" "distinct as" "p \<notin> dom h"
  shows "chain (link_chunk p l x h) (if as = [] then Some p else f) None (as @ [p]) None (Some p)"
proof (cases as rule: rev_cases)
  case Nil
  then show ?thesis using assms by (simp add: link_chunk_def)
next
  case (snoc bs q)
  have p: "p \<notin> set as" using chain_dom [OF assms(1)] assms(3) by blast
  have l: "l = Some q" using chain_back [OF assms(1)] snoc by simp
  obtain m n where "chain h f None bs m n" "chain h m n [q] None l"
    using assms(1) unfolding snoc chain_append by blast
  then obtain c where c: "chain h f None bs (Some q) n" "h q = Some c" "prevChunkPtr c = n" by auto
  have "chain (link_chunk p l x h) f None bs (Some q) n"
    using c(1) assms(2) p by (simp add: link_chunk_def l snoc)
  moreover have "chain (link_chunk p l x h) (Some q) n [q, p] None (Some p)"
    using c p by (auto simp: link_chunk_def l snoc)
  ultimately have "chain (link_chunk p l x h) f None (bs @ [q, p]) None (Some p)" unfolding chain_append by blast
  then show ?thesis by (simp add: snoc)
qed

lemma link_content:
  assumes "chain h f None as None l" "p \<notin> dom h"
  shows "map_option content \<circ> link_chunk p l x h = (map_option content \<circ> h)(p \<mapsto> x)"
  by (auto simp: link_chunk_def fun_eq_iff option.map_comp comp_def split: option.splits)

lemma link_frame: "chain h f None as None l \<Longrightarrow> a \<notin> set as \<Longrightarrow> a \<noteq> p \<Longrightarrow> link_chunk p l x h a = h a"
  using chain_back [of h f None as None l] by (auto simp: link_chunk_def split: if_splits)

section \<open>Appending chunks\<close>

datatype chunk_op = AddChunk addr uint64 | EmplaceChunk addr

fun op_addr :: "chunk_op \<Rightarrow> addr" where
  "op_addr (AddChunk p n) = p"
| "op_addr (EmplaceChunk p) = p"

text \<open>The bytes an operation adds to \<^verbatim>\<open>totalBytes_\<close>, given the number of chunks before it.\<close>

fun op_bytes :: "chunk_op \<Rightarrow> uint64 \<Rightarrow> uint64" where
  "op_bytes (AddChunk p n) k = (if n = 0 then calculateChunkSize k kTransactional else n)"
| "op_bytes (EmplaceChunk p) k = 0"

fun op_content :: "(uint64 \<Rightarrow> 'p) \<Rightarrow> 'p \<Rightarrow> chunk_op \<Rightarrow> uint64 \<Rightarrow> 'p" where
  "op_content newT dflt (AddChunk p n) k = newT (op_bytes (AddChunk p n) k)"
| "op_content newT dflt (EmplaceChunk p) k = dflt"

fun op_ok :: "chunk_op \<Rightarrow> bool" where
  "op_ok (AddChunk p n) \<longleftrightarrow> n \<le> MAXIMUM_MT_CHUNK_SIZE"
| "op_ok (EmplaceChunk p) \<longleftrightarrow> True"

fun chunk_exec :: "(uint64 \<Rightarrow> 'p) \<Rightarrow> 'p \<Rightarrow> chunk_op \<Rightarrow> 'p chunk_heap \<times> LinkedChunks \<Rightarrow> ('p chunk_heap \<times> LinkedChunks) option" where
  "chunk_exec newT dflt (AddChunk p n) s = addNewChunk newT p n s"
| "chunk_exec newT dflt (EmplaceChunk p) s = emplaceNewChunk dflt p s"

text \<open>A sequence of operations, and the bytes it adds when \<open>k\<close> chunks are there before it.\<close>

fun run_ops :: "('op \<Rightarrow> 's \<Rightarrow> 's option) \<Rightarrow> 'op list \<Rightarrow> 's \<Rightarrow> 's option" where
  "run_ops exec [] s = Some s"
| "run_ops exec (x # xs) s = exec x s \<bind> run_ops exec xs"

fun bytes_all :: "('op \<Rightarrow> uint64 \<Rightarrow> uint64) \<Rightarrow> 'op list \<Rightarrow> uint64 \<Rightarrow> uint64" where
  "bytes_all bytes [] k = 0"
| "bytes_all bytes (x # xs) k = bytes x k + bytes_all bytes xs (k + 1)"

text \<open>What an operation that appends owes to the list: at a fresh address it succeeds, the list has one
  chunk more, and memory outside the list is unchanged.\<close>

locale chunk_appender =
  fixes exec :: "'op \<Rightarrow> 'p chunk_heap \<times> LinkedChunks \<Rightarrow> ('p chunk_heap \<times> LinkedChunks) option"
    and at :: "'op \<Rightarrow> addr" and ok :: "'op \<Rightarrow> bool"
    and bytes :: "'op \<Rightarrow> uint64 \<Rightarrow> uint64" and made :: "'op \<Rightarrow> uint64 \<Rightarrow> 'p"
  assumes exec_appends: "\<lbrakk>holds_chunks s as; ok x; at x \<notin> dom (fst s)\<rbrakk> \<Longrightarrow>
    \<exists>s'. exec x s = Some s' \<and> holds_chunks s' (as @ [at x]) \<and>
      map_option content \<circ> fst s' = (map_option content \<circ> fst s)(at x \<mapsto> made x (of_nat (length as))) \<and>
      (\<forall>a. a \<notin> set as \<longrightarrow> a \<noteq> at x \<longrightarrow> fst s' a = fst s a) \<and>
      totalBytes (snd s') = totalBytes (snd s) + bytes x (of_nat (length as))"
begin

lemma run_appends:
  "\<lbrakk>holds_chunks s as; list_all ok xs; distinct (map at xs); set (map at xs) \<inter> dom (fst s) = {}\<rbrakk> \<Longrightarrow>
    \<exists>s'. run_ops exec xs s = Some s' \<and> holds_chunks s' (as @ map at xs) \<and>
      (\<forall>a. a \<notin> set as \<longrightarrow> a \<notin> set (map at xs) \<longrightarrow> fst s' a = fst s a) \<and>
      (\<forall>a. a \<notin> set (map at xs) \<longrightarrow> map_option content (fst s' a) = map_option content (fst s a)) \<and>
      totalBytes (snd s') = totalBytes (snd s) + bytes_all bytes xs (of_nat (length as))"
proof (induction xs arbitrary: s as)
  case (Cons x xs)
  then obtain t where t: "exec x s = Some t" "holds_chunks t (as @ [at x])"
    "map_option content \<circ> fst t = (map_option content \<circ> fst s)(at x \<mapsto> made x (of_nat (length as)))"
    "\<forall>a. a \<notin> set as \<longrightarrow> a \<noteq> at x \<longrightarrow> fst t a = fst s a"
    "totalBytes (snd t) = totalBytes (snd s) + bytes x (of_nat (length as))"
    using exec_appends [of s as x] by auto
  have "dom (fst t) = insert (at x) (dom (fst s))"
  proof -
    have "dom (map_option content \<circ> fst t) = insert (at x) (dom (map_option content \<circ> fst s))" by (simp add: t(3))
    then show ?thesis by (simp add: dom_def)
  qed
  then have "set (map at xs) \<inter> dom (fst t) = {}" using Cons.prems by auto
  then obtain s' where s': "run_ops exec xs t = Some s'" "holds_chunks s' ((as @ [at x]) @ map at xs)"
    "\<forall>a. a \<notin> set (as @ [at x]) \<longrightarrow> a \<notin> set (map at xs) \<longrightarrow> fst s' a = fst t a"
    "\<forall>a. a \<notin> set (map at xs) \<longrightarrow> map_option content (fst s' a) = map_option content (fst t a)"
    "totalBytes (snd s') = totalBytes (snd t) + bytes_all bytes xs (of_nat (length (as @ [at x])))"
    using Cons.IH [OF t(2)] Cons.prems by auto
  have c: "map_option content (fst t a) = map_option content (fst s a)" if "a \<noteq> at x" for a
    using fun_cong [OF t(3), of a] that by simp
  have "\<forall>a. a \<notin> set (map at (x # xs)) \<longrightarrow> map_option content (fst s' a) = map_option content (fst s a)"
    using s'(4) c by simp
  moreover have "\<forall>a. a \<notin> set as \<longrightarrow> a \<notin> set (map at (x # xs)) \<longrightarrow> fst s' a = fst s a" using s'(3) t(4) by simp
  moreover have "totalBytes (snd s') = totalBytes (snd s) + bytes_all bytes (x # xs) (of_nat (length as))"
    using s'(5) t(5) by (simp add: ac_simps)
  ultimately show ?case using t(1) s'(1,2) by simp
qed simp

end

lemma holds_ends:
  assumes "holds_chunks (h, l) as"
  shows "firstChunk l = None \<longleftrightarrow> as = []" "lastChunk l = (if as = [] then None else Some (last as))"
    "p \<notin> dom h \<Longrightarrow> as \<noteq> [] \<Longrightarrow> \<exists>c. h (last as) = Some c \<and> last as \<noteq> p"
proof -
  have c: "chain h (firstChunk l) None as None (lastChunk l)" using assms by (simp add: holds_chunks_def)
  show "firstChunk l = None \<longleftrightarrow> as = []" using chain_front [OF c] by auto
  show "lastChunk l = (if as = [] then None else Some (last as))" by (rule chain_back [OF c])
  show "\<exists>c. h (last as) = Some c \<and> last as \<noteq> p" if "p \<notin> dom h" "as \<noteq> []"
    using chain_dom [OF c] that last_in_set [of as] by fastforce
qed

lemma addNewChunk_link:
  assumes "holds_chunks (h, l) as" "p \<notin> dom h" "n \<le> MAXIMUM_MT_CHUNK_SIZE"
  shows "addNewChunk newT p n (h, l) = Some (link_chunk p (lastChunk l) (newT (op_bytes (AddChunk p n) (numChunks l))) h,
    l\<lparr>firstChunk := (if as = [] then Some p else firstChunk l), lastChunk := Some p,
      totalBytes := totalBytes l + op_bytes (AddChunk p n) (numChunks l), numChunks := numChunks l + 1\<rparr>)"
proof -
  define k where "k = op_bytes (AddChunk p n) (numChunks l)"
  have k: "(if n = 0 then calculateChunkSize (numChunks l) kTransactional else n) = k" by (simp add: k_def)
  have le: "\<not> MAXIMUM_MT_CHUNK_SIZE < k" using assms(3) by (auto simp: k_def chunk_size_defs not_less)
  note f = holds_ends(1) [OF assms(1)] and b = holds_ends(2) [OF assms(1)] and q = holds_ends(3) [OF assms(1,2)]
  show ?thesis
  proof (cases "as = []")
    case True
    then show ?thesis unfolding addNewChunk_def prod.case Let_def k k_def [symmetric] using f b le
      by (simp add: setNext_def setPrev_def link_chunk_def)
  next
    case False
    then obtain c where "h (last as) = Some c" "last as \<noteq> p" using q by blast
    then show ?thesis unfolding addNewChunk_def prod.case Let_def k k_def [symmetric] using False f b le
      by (auto simp: setNext_def setPrev_def link_chunk_def fun_upd_twist)
  qed
qed

lemma emplaceNewChunk_link:
  assumes "holds_chunks (h, l) as" "p \<notin> dom h"
  shows "emplaceNewChunk x p (h, l) = Some (link_chunk p (lastChunk l) x h,
    l\<lparr>firstChunk := (if as = [] then Some p else firstChunk l), lastChunk := Some p, numChunks := numChunks l + 1\<rparr>)"
proof -
  note f = holds_ends(1) [OF assms(1)] and b = holds_ends(2) [OF assms(1)] and q = holds_ends(3) [OF assms(1,2)]
  show ?thesis
  proof (cases "as = []")
    case True
    then show ?thesis unfolding emplaceNewChunk_def prod.case Let_def using f b
      by (simp add: setNext_def setPrev_def link_chunk_def)
  next
    case False
    then obtain c where "h (last as) = Some c" "last as \<noteq> p" using q by blast
    then show ?thesis unfolding emplaceNewChunk_def prod.case Let_def using False f b
      by (auto simp: setNext_def setPrev_def link_chunk_def fun_upd_twist)
  qed
qed

lemma link_holds:
  assumes "holds_chunks (h, l) as" "p \<notin> dom h"
  shows "firstChunk l' = (if as = [] then Some p else firstChunk l) \<Longrightarrow> lastChunk l' = Some p \<Longrightarrow>
      numChunks l' = numChunks l + 1 \<Longrightarrow> holds_chunks (link_chunk p (lastChunk l) x h, l') (as @ [p])"
    "map_option content \<circ> link_chunk p (lastChunk l) x h = (map_option content \<circ> h)(p \<mapsto> x)"
    "\<forall>a. a \<notin> set as \<longrightarrow> a \<noteq> p \<longrightarrow> link_chunk p (lastChunk l) x h a = h a"
proof -
  have c: "chain h (firstChunk l) None as None (lastChunk l)" "distinct as" "numChunks l = of_nat (length as)"
    using assms(1) by (auto simp: holds_chunks_def)
  have p: "p \<notin> set as" using chain_dom [OF c(1)] assms(2) by blast
  show "holds_chunks (link_chunk p (lastChunk l) x h, l') (as @ [p])"
    if "firstChunk l' = (if as = [] then Some p else firstChunk l)" "lastChunk l' = Some p"
      "numChunks l' = numChunks l + 1"
    using chain_link [OF c(1,2) assms(2), of x] that c(2,3) p by (auto simp: holds_chunks_def)
  show "map_option content \<circ> link_chunk p (lastChunk l) x h = (map_option content \<circ> h)(p \<mapsto> x)"
    by (rule link_content [OF c(1) assms(2)])
  show "\<forall>a. a \<notin> set as \<longrightarrow> a \<noteq> p \<longrightarrow> link_chunk p (lastChunk l) x h a = h a" using link_frame [OF c(1)] by blast
qed

interpretation chunks: chunk_appender "chunk_exec newT dflt" op_addr op_ok op_bytes "op_content newT dflt"
  for newT :: "uint64 \<Rightarrow> 'p" and dflt :: 'p
proof
  fix s :: "'p chunk_heap \<times> LinkedChunks" and as x
  assume a: "holds_chunks s as" "op_ok x" "op_addr x \<notin> dom (fst s)"
  obtain h l where s: "s = (h, l)" by (cases s)
  have n: "numChunks l = of_nat (length as)" using a(1) by (simp add: s holds_chunks_def)
  show "\<exists>s'. chunk_exec newT dflt x s = Some s' \<and> holds_chunks s' (as @ [op_addr x]) \<and>
      map_option content \<circ> fst s' =
        (map_option content \<circ> fst s)(op_addr x \<mapsto> op_content newT dflt x (of_nat (length as))) \<and>
      (\<forall>a. a \<notin> set as \<longrightarrow> a \<noteq> op_addr x \<longrightarrow> fst s' a = fst s a) \<and>
      totalBytes (snd s') = totalBytes (snd s) + op_bytes x (of_nat (length as))"
  proof (cases x)
    case (AddChunk p k)
    then show ?thesis
      using a link_holds [of h l as p] addNewChunk_link [of h l as p k newT] unfolding s n [symmetric]
      by (simp del: op_bytes.simps)
  next
    case (EmplaceChunk p)
    then show ?thesis
      using a link_holds [of h l as p] emplaceNewChunk_link [of h l as p dflt] unfolding s n [symmetric] by simp
  qed
qed

section \<open>Walking and freeing\<close>

lemma walk_forward: "chain h p q as None b \<Longrightarrow> length as \<le> n \<Longrightarrow> walk getNextChunk n p h = Some as"
proof (induction as arbitrary: p q n)
  case (Cons a as)
  then show ?case by (cases n) (auto simp: getNextChunk_def)
qed simp

lemma walk_backward: "chain h p None as e b \<Longrightarrow> length as \<le> n \<Longrightarrow> walk chunk_prev n b h = Some (rev as)"
proof (induction as arbitrary: e b n rule: rev_induct)
  case (snoc a as)
  then obtain m k where "chain h p None as m k" "chain h m k [a] e b" unfolding chain_append by blast
  then show ?case using snoc.IH [of m k "n - 1"] snoc.prems(2) by (cases n) (auto simp: chunk_prev_def)
qed simp

lemma free_chain:
  "chain h p q as None b \<Longrightarrow> distinct as \<Longrightarrow> free_chunks p h = Some (\<lambda>a. if a \<in> set as then None else h a)"
proof (induction as arbitrary: h p q)
  case Nil
  then show ?case by (subst free_chunks.simps) (simp add: fun_eq_iff)
next
  case (Cons a as)
  then obtain c where c: "p = Some a" "h a = Some c" "chain h (nextChunkPtr c) (Some a) as None b" by auto
  have "free_chunks (nextChunkPtr c) (h(a := None)) = Some (\<lambda>x. if x \<in> set as then None else (h(a := None)) x)"
    by (rule Cons.IH [OF chain_upd [THEN iffD2, OF _ c(3)]]) (use Cons.prems in simp_all)
  then show ?case using c by (subst free_chunks.simps) (auto simp: fun_eq_iff)
qed

section \<open>Bit sets\<close>

text \<open>\<^verbatim>\<open>count\<close>, \<^verbatim>\<open>bytes\<close> and \<^verbatim>\<open>extend\<close> are only declared; they are parameters. \<open>bitmaps\<close> is the memory that the pointer
  leads to; an access outside of it is \<open>None\<close>.\<close>

record BitSet =
  bs_size :: uint64
  bs_bytes :: uint64
  bitmaps :: "byte list"

definition BitSet_empty :: BitSet where
  "BitSet_empty = \<lparr>bs_size = 0, bs_bytes = 0, bitmaps = []\<rparr>"

definition BitSet_init :: "uint64 \<Rightarrow> BitSet \<Rightarrow> BitSet" where
  "BitSet_init maximumNumBits b = (let n = drop_bit 3 (maximumNumBits + 7) in
     b\<lparr>bs_bytes := n, bitmaps := replicate (unat n) 0\<rparr>)"

definition BitSet_at :: "BitSet \<Rightarrow> uint64 \<Rightarrow> bool option" where
  "BitSet_at b index = (if length (bitmaps b) \<le> unat (index div 8) then None
     else let byt = bitmaps b ! unat (index div 8); pos = unat (index mod 8) in
       Some (drop_bit (7 - pos) (byt AND drop_bit pos 0x80) \<noteq> 0))"

definition BitSet_eq :: "(BitSet \<Rightarrow> uint64) \<Rightarrow> BitSet \<Rightarrow> BitSet \<Rightarrow> bool option" where
  "BitSet_eq count l r = (if count l \<noteq> count r then Some False
     else if bs_size l \<noteq> bs_size r then Some False
     else if length (bitmaps l) < unat (bs_bytes l) \<or> length (bitmaps r) < unat (bs_bytes l) then None
     else Some (take (unat (bs_bytes l)) (bitmaps l) = take (unat (bs_bytes l)) (bitmaps r)))"

definition BitSet_write :: "BitSet \<Rightarrow> byte list" where
  "BitSet_write b = le_write 8 (bs_size b) @ le_write 8 (bs_bytes b) @ take (unat (bs_bytes b)) (bitmaps b)"

text \<open>A reader that finds too few bytes leaves its target and the buffer as they are; its status is
  dropped. \<open>None\<close> is a copy past the end of the memory of the bit set.\<close>

definition read_size_t :: "uint64 \<Rightarrow> byte list \<Rightarrow> uint64 \<times> byte list" where
  "read_size_t old buf = (case rw_read (scalar_rw 8) old buf of (_, v, rest) \<Rightarrow> (v, rest))"

definition BitSet_read_bytes :: "uint64 \<Rightarrow> byte list \<Rightarrow> byte list \<Rightarrow> (read_error option \<times> byte list \<times> byte list) option" where
  "BitSet_read_bytes len mem buf =
     (if length buf < unat len then Some (Some (RPC_DESERIALIZE_ERROR 4 (length buf)), mem, buf)
      else if length mem < unat len then None
      else Some (None, take (unat len) buf @ drop (unat len) mem, drop (unat len) buf))"

definition BitSet_read :: "(BitSet \<Rightarrow> uint64) \<Rightarrow> (uint64 \<Rightarrow> BitSet \<Rightarrow> BitSet) \<Rightarrow> BitSet \<Rightarrow> byte list \<Rightarrow>
    (read_error option \<times> BitSet \<times> byte list) option" where
  "BitSet_read bytes ext b buf = (
     let (n, buf) = read_size_t (bs_size b) buf;
         b = b\<lparr>bs_size := n\<rparr>;
         (neededBytes, buf) = read_size_t 0 buf;
         b = (if neededBytes > bytes b then ext neededBytes b else b)
     in map_option (\<lambda>(_, mem, rest). (None, b\<lparr>bitmaps := mem\<rparr>, rest)) (BitSet_read_bytes neededBytes (bitmaps b) buf))"

definition BitSet_encodedSize :: "BitSet \<Rightarrow> uint64" where
  "BitSet_encodedSize b = 8 * 2 + bs_bytes b"

section \<open>Descriptors\<close>

record 'o BindingTableDescriptor =
  recordType :: "'o RowType"
  ordered :: bool
  duplicateFree :: bool
  hint :: ScenarioHint

definition Descriptor_default :: "'o BindingTableDescriptor" where
  "Descriptor_default = \<lparr>recordType = [], ordered = False, duplicateFree = False, hint = kAnalytical\<rparr>"

definition Descriptor_new :: "'o RowType \<Rightarrow> bool \<Rightarrow> bool \<Rightarrow> 'o BindingTableDescriptor" where
  "Descriptor_new rowType ord dup = Descriptor_default\<lparr>recordType := rowType, ordered := ord, duplicateFree := dup\<rparr>"

definition getColumnNames :: "'o BindingTableDescriptor \<Rightarrow> string list" where
  "getColumnNames d = row_names (recordType d)"

definition getValueTypeByName :: "string \<Rightarrow> 'o BindingTableDescriptor \<Rightarrow> 'o ValueType option" where
  "getValueTypeByName name d = (if row_names (recordType d) = [] then None
     else let rowIdx = getIndex name True (recordType d) in
       if rowIdx = -1 then None else map field_type (recordType d) ! nat rowIdx)"

definition appendCol :: "'o FieldType \<Rightarrow> 'o BindingTableDescriptor \<Rightarrow> 'o BindingTableDescriptor" where
  "appendCol f d = d\<lparr>recordType := recordType d @ [f]\<rparr>"

definition Descriptor_merge :: "'o BindingTableDescriptor \<Rightarrow> 'o BindingTableDescriptor \<Rightarrow> 'o BindingTableDescriptor" where
  "Descriptor_merge d other = d\<lparr>ordered := ordered d \<and> ordered other,
     duplicateFree := duplicateFree d \<and> duplicateFree other,
     recordType := row_merge (recordType d) (recordType other)\<rparr>"

definition Descriptor_clear :: "'o BindingTableDescriptor \<Rightarrow> 'o BindingTableDescriptor" where
  "Descriptor_clear d = d\<lparr>recordType := [], ordered := False, duplicateFree := False\<rparr>"

definition bool_rw :: "bool rw" where
  "bool_rw = \<lparr>rw_write = bool_write,
     rw_read = (\<lambda>obj buf. if length buf < 1 then (Some (RPC_FAILED 1 (length buf)), obj, buf)
       else (None, hd buf \<noteq> 0, drop 1 buf)),
     rw_size = (\<lambda>_. 1)\<rparr>"

definition Descriptor_rw :: "'o RowType rw \<Rightarrow> 'o BindingTableDescriptor rw" where
  "Descriptor_rw row = \<lparr>
     rw_write = (\<lambda>d. rw_write row (recordType d) @ bool_write (ordered d) @ bool_write (duplicateFree d)),
     rw_read = (\<lambda>d buf. case rw_read row (recordType d) buf of
         (Some e, r, buf) \<Rightarrow> (Some e, d\<lparr>recordType := r\<rparr>, buf)
       | (None, r, buf) \<Rightarrow> (let d = d\<lparr>recordType := r\<rparr> in case rw_read bool_rw (ordered d) buf of
           (Some e, b, buf) \<Rightarrow> (Some e, d\<lparr>ordered := b\<rparr>, buf)
         | (None, b, buf) \<Rightarrow> (let d = d\<lparr>ordered := b\<rparr> in case rw_read bool_rw (duplicateFree d) buf of
             (st, b, buf) \<Rightarrow> (st, d\<lparr>duplicateFree := b\<rparr>, buf)))),
     rw_size = (\<lambda>d. rw_size row (recordType d) + rw_size bool_rw (ordered d) + rw_size bool_rw (duplicateFree d))\<rparr>"

section \<open>Laws\<close>

text \<open>Bits are counted from the most significant one.\<close>

lemma single_bit:
  fixes b :: byte
  assumes "pos < 8"
  shows "drop_bit (7 - pos) (b AND drop_bit pos 0x80) \<noteq> 0 \<longleftrightarrow> bit b (7 - pos)"
proof -
  have "(0x80 :: byte) = push_bit 7 1" by simp
  moreover have "drop_bit pos (push_bit 7 1 :: byte) = push_bit (7 - pos) 1"
  proof (rule bit_word_eqI)
    fix n assume "n < LENGTH(8)"
    then show "bit (drop_bit pos (push_bit 7 1 :: byte)) n = bit (push_bit (7 - pos) 1 :: byte) n"
      unfolding bit_drop_bit_eq comp_def bit_push_bit_iff bit_1_iff possible_bit_word using assms by auto
  qed
  ultimately have "drop_bit pos (0x80 :: byte) = push_bit (7 - pos) 1" by (simp only:)
  then have "drop_bit (7 - pos) (b AND drop_bit pos 0x80) = of_bool (bit b (7 - pos))"
    by (intro bit_word_eqI) (auto simp: bit_simps)
  then show ?thesis by simp
qed

lemma BitSet_at_bit:
  assumes "unat (index div 8) < length (bitmaps b)"
  shows "BitSet_at b index = Some (bit (bitmaps b ! unat (index div 8)) (7 - unat (index mod 8)))"
proof -
  have "unat (index mod 8) < 8" by (simp add: unat_mod)
  note bit = single_bit [OF this, of "bitmaps b ! unat (index div 8)"]
  show ?thesis unfolding BitSet_at_def Let_def bit using assms by simp
qed

text \<open>A new bit set has room for the bits that were asked for, unless the count wraps around, and all of them are
  clear; its \<^verbatim>\<open>size()\<close> stays 0.\<close>

lemma BitSet_init_clear:
  assumes "index < n" "n \<le> - 8"
  shows "BitSet_at (BitSet_init n BitSet_empty) index = Some False"
proof -
  have "unat n \<le> unat (- 8 :: uint64)" using assms(2) by (simp add: word_le_nat_alt)
  then have "unat n + unat (7 :: uint64) < 2 ^ LENGTH(64)" by simp
  then have w: "unat (n + 7) = unat n + 7" by (simp add: unat_word_ariths)
  have "unat (index div 8) < unat (drop_bit 3 (n + 7))"
    using assms(1) by (simp add: unat_drop_bit_eq w unat_div drop_bit_nat_def word_less_nat_alt)
  then show ?thesis by (subst BitSet_at_bit) (simp_all add: BitSet_init_def Let_def BitSet_empty_def)
qed

text \<open>The first field of a name.\<close>

definition first_field :: "string \<Rightarrow> 'o RowType \<Rightarrow> 'o FieldType option" where
  "first_field n r = List.find (\<lambda>f. field_name f = n) r"

lemma find_name_find: "find_name n r i = Some (i + k) \<Longrightarrow> first_field n r = Some (r ! k)"
proof (induction n r i arbitrary: k rule: find_name.induct)
  case (2 n f fs i)
  show ?case
  proof (cases "field_name f = n")
    case False
    then have n: "find_name n fs (i + 1) = Some (i + k)" using 2(2) by simp
    then have "i + 1 \<le> i + k" by (simp add: find_name_Some)
    then obtain j where "k = Suc j" by (cases k) auto
    then show ?thesis using 2(1) [OF False, of j] n False by (simp add: first_field_def)
  qed (use 2(2) in \<open>auto simp: first_field_def\<close>)
qed simp

lemma first_field_None: "first_field n r = None \<longleftrightarrow> \<not> row_contains n r"
  by (auto simp: first_field_def find_None_iff row_contains_iff row_names_def)

lemma getValueTypeByName_first:
  "getValueTypeByName n d = Option.bind (first_field n (recordType d)) field_type"
proof (cases "row_contains n (recordType d)")
  case True
  then obtain k where k: "find_name n (recordType d) 0 = Some k" by (auto simp: row_contains_def)
  then have "getIndex n True (recordType d) = int k" "k < length (recordType d)"
    using getIndex_forward_loop [of 0 "length (recordType d)" "recordType d" n] find_name_Some [of n "recordType d" 0 k]
    by (simp_all add: getIndex_def)
  moreover have "row_names (recordType d) \<noteq> []" using True by (auto simp: row_contains_iff)
  moreover have "first_field n (recordType d) = Some (recordType d ! k)" using find_name_find [of n "recordType d" 0 k] k by simp
  ultimately show ?thesis by (simp add: getValueTypeByName_def Let_def)
next
  case False
  then have "getIndex n True (recordType d) = -1"
    using getIndex_forward_loop [of 0 "length (recordType d)" "recordType d" n]
    by (simp add: getIndex_def row_contains_def)
  then show ?thesis using False first_field_None [of n "recordType d"] by (simp add: getValueTypeByName_def Let_def)
qed

lemma find_snoc: "List.find P (xs @ [x]) = (case List.find P xs of Some y \<Rightarrow> Some y | None \<Rightarrow> if P x then Some x else None)"
  by (induction xs) auto

lemma first_field_merge:
  "first_field n (row_merge r s) = (case first_field n r of Some f \<Rightarrow> Some f | None \<Rightarrow> first_field n s)"
proof (induction r s rule: row_merge.induct)
  case (1 r)
  then show ?case by (simp add: first_field_def split: option.split)
next
  case (2 r f fs)
  show ?case
  proof (cases "find_name (field_name f) r 0 = None")
    case True
    then have "field_name f = n \<Longrightarrow> first_field n r = None" by (simp add: first_field_None row_contains_def)
    then show ?thesis using 2 True by (auto simp: first_field_def find_snoc split: option.splits)
  next
    case False
    then have "field_name f = n \<Longrightarrow> first_field n r \<noteq> None" using first_field_None [of n r] by (simp add: row_contains_def)
    then show ?thesis using 2 False by (auto simp: first_field_def split: option.splits)
  qed
qed

section \<open>Properties\<close>

text \<open>Claim C13. The linked chunks are the list of the chunks that were added. For any sequence of \<^verbatim>\<open>addNewChunk\<close> and
  \<^verbatim>\<open>emplaceNewChunk\<close> at fresh addresses, with sizes up to the maximum, every call succeeds; walking the next
  pointers gives the chunks in the order of the calls and walking the previous pointers the
  reverse; the count and the bytes are the sums of what the calls added; and the destructor ends and
  frees exactly these chunks: memory is then as it was before.\<close>

theorem linked_chunks_refine:
  assumes "list_all op_ok ops" "distinct (map op_addr ops)" "set (map op_addr ops) \<inter> dom h = {}"
  shows "\<exists>h' l. run_ops (chunk_exec newT dflt) ops (h, LinkedChunks_new sparse) = Some (h', l)
    \<and> walk getNextChunk (length ops) (firstChunk l) h' = Some (map op_addr ops)
    \<and> walk chunk_prev (length ops) (lastChunk l) h' = Some (rev (map op_addr ops))
    \<and> numChunks l = of_nat (length ops) \<and> totalBytes l = bytes_all op_bytes ops 0
    \<and> LinkedChunks_destroy (h', l) = Some h"
proof -
  have "holds_chunks (h, LinkedChunks_new sparse) []" by (simp add: holds_chunks_def LinkedChunks_new_def)
  then obtain h' l where r: "run_ops (chunk_exec newT dflt) ops (h, LinkedChunks_new sparse) = Some (h', l)"
    "holds_chunks (h', l) (map op_addr ops)" "\<forall>a. a \<notin> set (map op_addr ops) \<longrightarrow> h' a = h a"
    "totalBytes l = bytes_all op_bytes ops 0"
    using chunks.run_appends [of "(h, LinkedChunks_new sparse)" "[]" ops newT dflt] assms
    by (auto simp: LinkedChunks_new_def)
  then have c: "chain h' (firstChunk l) None (map op_addr ops) None (lastChunk l)" "numChunks l = of_nat (length ops)"
    by (auto simp: holds_chunks_def)
  have "LinkedChunks_destroy (h', l) = Some (\<lambda>a. if a \<in> set (map op_addr ops) then None else h' a)"
    using free_chain [OF c(1) assms(2)] by (simp add: LinkedChunks_destroy_def)
  also have "(\<lambda>a. if a \<in> set (map op_addr ops) then None else h' a) = h" 
  proof
    fix a show "(if a \<in> set (map op_addr ops) then None else h' a) = h a"
      using r(3) assms(3) by (cases "h a") auto
  qed
  finally show ?thesis using r c walk_forward [OF c(1)] walk_backward [OF c(1)] by simp
qed

theorem linked_chunks_refine_witness:
  "\<exists>h' l. run_ops (chunk_exec id 0) [AddChunk 7 0, EmplaceChunk 9, AddChunk 5 100] (Map.empty, LinkedChunks_new False)
      = Some (h', l)
    \<and> walk getNextChunk 3 (firstChunk l) h' = Some [7, 9, 5] \<and> totalBytes l = 4196
    \<and> LinkedChunks_destroy (h', l) = Some Map.empty"
  using linked_chunks_refine [of "[AddChunk 7 0, EmplaceChunk 9, AddChunk 5 100]" Map.empty id 0 False]
  by (auto simp: chunk_size_defs numeral_3_eq_3)

text \<open>Every default chunk size is a multiple of the smallest one and at most the largest, and grows with the number
  of chunks, so that \<^verbatim>\<open>addNewChunk()\<close> never fails its size check.\<close>

theorem chunk_size_bounds:
  "4096 dvd uint (calculateChunkSize k hnt) \<and> calculateChunkSize k hnt \<le> MAXIMUM_MT_CHUNK_SIZE
   \<and> (k \<le> k' \<longrightarrow> calculateChunkSize k hnt \<le> calculateChunkSize k' hnt)"
  by (cases hnt) (auto simp: chunk_size_defs)

text \<open>
  Reading a bit set always reports success, also from a buffer that is cut anywhere; of a complete
  buffer it copies the bytes over the front of the target, whose byte count it does not change: a target
  that was larger keeps its old bits behind them.
\<close>

theorem bitset_read_result:
  assumes bytes: "\<And>x. bytes x = bs_bytes x" and b: "length (bitmaps b) = unat (bs_bytes b)"
    and b0: "length (bitmaps b0) = unat (bs_bytes b0)" "bs_bytes b \<le> bs_bytes b0"
  shows "BitSet_read bytes ext b0 (BitSet_write b @ rest) =
      Some (None, b0\<lparr>bs_size := bs_size b, bitmaps := bitmaps b @ drop (length (bitmaps b)) (bitmaps b0)\<rparr>, rest)"
    and "n < 8 \<Longrightarrow> BitSet_read bytes ext b0 (take n (BitSet_write b)) = Some (None, b0, take n (BitSet_write b))"
proof -
  have rd: "read_size_t v (le_write 8 x @ buf) = (x, buf)" for v x buf
    using le_word_write [where 'l = 64 and n = 8 and x = x] by (simp add: read_size_t_def scalar_rw_def)
  have sh: "length buf < 8 \<Longrightarrow> read_size_t v buf = (v, buf)" for v buf by (simp add: read_size_t_def scalar_rw_def)
  show "BitSet_read bytes ext b0 (BitSet_write b @ rest) =
      Some (None, b0\<lparr>bs_size := bs_size b, bitmaps := bitmaps b @ drop (length (bitmaps b)) (bitmaps b0)\<rparr>, rest)"
    using b b0 by (simp add: BitSet_read_def BitSet_write_def rd bytes BitSet_read_bytes_def word_le_nat_alt word_less_nat_alt Let_def)
  show "BitSet_read bytes ext b0 (take n (BitSet_write b)) = Some (None, b0, take n (BitSet_write b))" if "n < 8"
    using that by (simp add: BitSet_read_def BitSet_write_def sh bytes BitSet_read_bytes_def not_less)
qed

lemma in_reader_bool: "in_reader (rw_read bool_rw) obj = bool_read"
proof
  fix buf show "in_reader (rw_read bool_rw) obj buf = bool_read buf"
    by (cases buf) (simp_all add: in_reader_def bool_rw_def bool_read_def rbind_def le_read_def rreturn_def)
qed

lemma in_reader_descriptor:
  "in_reader (rw_read (Descriptor_rw row)) d = rbind (in_reader (rw_read row) (recordType d)) (\<lambda>r.
     rbind (in_reader (rw_read bool_rw) (ordered d)) (\<lambda>x. rbind (in_reader (rw_read bool_rw) (duplicateFree d))
       (\<lambda>y. rreturn (d\<lparr>recordType := r, ordered := x, duplicateFree := y\<rparr>))))"
  by (auto simp: fun_eq_iff in_reader_def Descriptor_rw_def rbind_def rreturn_def Let_def split: prod.splits option.splits)

text \<open>A descriptor on the wire keeps its columns and its two flags and loses its hint: the
  reader leaves the hint of the object it fills. A cut buffer is refused.\<close>

theorem descriptor_wire:
  assumes "virtual_ok v mk ok" "list_all (field_ok ok) (recordType d)" "length (recordType d) < 2 ^ 32"
    "n < rw_size (Descriptor_rw (RowType_rw (ValueTypePtr_rw v mk))) d"
  shows "rw_read (Descriptor_rw (RowType_rw (ValueTypePtr_rw v mk))) d0
        (rw_write (Descriptor_rw (RowType_rw (ValueTypePtr_rw v mk))) d @ rest) = (None, d\<lparr>hint := hint d0\<rparr>, rest)
    \<and> length (rw_write (Descriptor_rw (RowType_rw (ValueTypePtr_rw v mk))) d) =
        rw_size (Descriptor_rw (RowType_rw (ValueTypePtr_rw v mk))) d
    \<and> (\<exists>e d1 b. rw_read (Descriptor_rw (RowType_rw (ValueTypePtr_rw v mk))) d0
        (take n (rw_write (Descriptor_rw (RowType_rw (ValueTypePtr_rw v mk))) d)) = (Some e, d1, b))"
proof -
  define row where "row = RowType_rw (ValueTypePtr_rw v mk)"
  have c: "codec (rw_write row) (in_reader (rw_read row) r0) (rw_size row) (\<lambda>r. list_all (field_ok ok) r \<and> length r < 2 ^ 32)" for r0
    unfolding row_def RowType_rw_def by (rule member_class.class_codec [OF row_class [OF assms(1)]])
  have r: "list_all (field_ok ok) (recordType d) \<and> length (recordType d) < 2 ^ 32" using assms(2,3) by blast
  have "decodes (in_reader (rw_read (Descriptor_rw row)) d0)
      (rw_write row (recordType d) @ bool_write (ordered d) @ bool_write (duplicateFree d)) (d\<lparr>hint := hint d0\<rparr>)"
    unfolding in_reader_descriptor in_reader_bool
    by (intro decodes_bind [OF codec.decodes_write [OF c r]] decodes_bind [OF bool.decodes_write]
        decodes_last [OF bool.decodes_write]) simp_all
  then have dec: "decodes (in_reader (rw_read (Descriptor_rw row)) d0) (rw_write (Descriptor_rw row) d) (d\<lparr>hint := hint d0\<rparr>)"
    by (simp add: Descriptor_rw_def)
  have len: "length (rw_write (Descriptor_rw row) d) = rw_size (Descriptor_rw row) d"
    using codec.size_write [OF c r] bool.size_write by (simp add: Descriptor_rw_def bool_rw_def)
  show ?thesis using dec len assms(4) unfolding decodes_def in_reader_Inr in_reader_Inl row_def by simp
qed

theorem descriptor_wire_witness:
  "let p = ValueTypePtr_rw SERIALIZE_NO_MEMBER (\<lambda>k. if k = kind_code kBool then Some (TBool :: nat ValueType) else None);
       d = \<lparr>recordType = [\<lparr>field_name = ''x'', field_type = Some TBool\<rparr>], ordered = True, duplicateFree = False,
         hint = kTopological\<rparr>
   in rw_size (Descriptor_rw (RowType_rw p)) d = 13
     \<and> rw_read (Descriptor_rw (RowType_rw p)) Descriptor_default (rw_write (Descriptor_rw (RowType_rw p)) d)
       = (None, d\<lparr>hint := kAnalytical\<rparr>, [])"
proof -
  define p :: "nat ValueType option rw" where
    "p = ValueTypePtr_rw SERIALIZE_NO_MEMBER (\<lambda>k. if k = kind_code kBool then Some TBool else None)"
  define d :: "nat BindingTableDescriptor" where
    "d = \<lparr>recordType = [\<lparr>field_name = ''x'', field_type = Some TBool\<rparr>], ordered = True, duplicateFree = False,
      hint = kTopological\<rparr>"
  have n: "rw_size (Descriptor_rw (RowType_rw p)) d = 13"
    by (simp add: p_def d_def Descriptor_rw_def bool_rw_def RowType_rw_def SERIALIZE_EACH_MEMBER_def fold_size_def
        row_members_def member_of_def vector_rw_def vector_size_def FieldType_rw_def field_members_def string_rw_def
        string_size_def ValueTypePtr_rw_def SERIALIZE_NO_MEMBER_def)
  have "rw_read (Descriptor_rw (RowType_rw p)) Descriptor_default (rw_write (Descriptor_rw (RowType_rw p)) d @ [])
      = (None, d\<lparr>hint := kAnalytical\<rparr>, [])"
    using descriptor_wire [OF bool_type_virtual, of d 0 Descriptor_default "[]"] n
    by (simp add: p_def d_def field_ok_def Descriptor_default_def)
  then show ?thesis using n by (simp add: p_def d_def)
qed

text \<open>
  Merging descriptors: a column that both have keeps the type of the left one, a column of the right one is
  found with its type, and the merged table is declared ordered or free of duplicates only when both are.
\<close>

theorem descriptor_merge_lookup:
  "getValueTypeByName n (Descriptor_merge d e) =
     (if row_contains n (recordType d) then getValueTypeByName n d else getValueTypeByName n e)
   \<and> (ordered (Descriptor_merge d e) \<longleftrightarrow> ordered d \<and> ordered e)
   \<and> (duplicateFree (Descriptor_merge d e) \<longleftrightarrow> duplicateFree d \<and> duplicateFree e)
   \<and> hint (Descriptor_merge d e) = hint d"
  using first_field_None [of n "recordType d"]
  by (auto simp: getValueTypeByName_first Descriptor_merge_def first_field_merge split: option.splits)

end
