(* ===== verification/ErrorMessageTable.thy ===== *)
theory ErrorMessageTable
  imports ErrorTable
begin

text \<open>
  The message templates of \<^verbatim>\<open>src/include/nebula/common/base/ErrorMessage.h\<close>, by the sections of the header: the
  name of the template, which is meant to be that of an error code, and its text.
\<close>

definition msgs_COMMON :: "(string \<times> string) list" where
  "msgs_COMMON = [
     (''EMPTY_STATEMENT'', ''Empty statement''),
     (''GET_ALL_PART_FAILED'', ''Get all partitions failed''),
     (''GET_ALL_LEADER_FAILED'', ''Get all leaders failed''),
     (''PART_NOT_FOUND'', ''Partition `{}` not found''),
     (''PROPERTY_NOT_FOUND'', ''Property `{}` of type `{}` not found''),
     (''BAD_PLAN_NODE_TYPE'', ''Bad plan node type''),
     (''SPLIT_PLAN_TO_STORAGE_FAILED'', ''Split plan to storage failed''),
     (''PROPERTY_NOT_NULLABLE'', ''Property `{}` of type `{}` is not nullable''),
     (''VALUES_NOT_COMPARABLE'', ''{} is not comparable'')]"

definition msgs_UNSUPPORTED :: "(string \<times> string) list" where
  "msgs_UNSUPPORTED = [
     (''UNSUPPORTED_INDEX_PROPERTY_TYPE'', ''Index property type `{}` not supported'')]"

definition msgs_DML :: "(string \<times> string) list" where
  "msgs_DML = [
     (''DML_NUM_OF_PROPERTY_NOT_MATCH'', ''Insert number of properties of type `{}` does not match, expect: {}, got: {}''),
     (''INVALID_DELETE_TYPE'', ''Invalid delete type, `{}` should be Node or Edge''),
     (''INSERT_INFER_MORE_THAN_ONE_TYPE'', ''Type inference for `{}` failed, multiple types inferred: `{}`, `{}`''),
     (''ENDPOINT_NODE_TYPES_MISMATCH'', ''Endpoint node types of edge type `{}` mismatch''),
     (''INSERT_PROPERTY_NOT_FOUND'', ''Insert failed, property `{}` of type `{}` not found''),
     (''NOT_IN_CURRENT_GRAPH'', ''`{}` in `{}` is not in current working graph `{}`.'')]"

definition msgs_CATALOG :: "(string \<times> string) list" where
  "msgs_CATALOG = [
     (''CATALOG_NODE_TYPE_NOT_FOUND'', ''Node type not found: `{}`''),
     (''CATALOG_EDGE_TYPE_NOT_FOUND'', ''Edge type not found: `{}`''),
     (''CATALOG_PRIMARY_KEY_PROPERTY_NOT_FOUND'', ''Primary key property not found: `{}`''),
     (''CATALOG_PRIMARY_KEY_NULLABLE'', ''Property `{}` of node type `{}` is nullable, can't be primary index property''),
     (''CATALOG_PRIMARY_KEY_NOT_FOUND'', ''Primary key of node type `{}` not found''),
     (''CATALOG_PROPERTY_NOT_FOUND'', ''Property `{}` of type `{}` not found''),
     (''CATALOG_ELEMENT_TYPE_FOR_INSERT_NOT_FOUND'', ''Element type matching `{}` not found''),
     (''CATALOG_INDEX_NOT_FOUND'', ''Catalog index not found: `{}`''),
     (''CATALOG_NODE_TYPE_ALREADY_EXIST'', ''Node type already exist: `{}`''),
     (''CATALOG_EDGE_TYPE_ALREADY_EXIST'', ''Edge type already exist: `{}`''),
     (''CATALOG_LABEL_ALREADY_EXIST'', ''Label already exist: `{}.{}`''),
     (''CATALOG_LABEL_NOT_FOUND'', ''Label not found: `{}.{}`''),
     (''INVALID_SCHEMA_PATH'', ''Invalid schema path, it should be a canonical path''),
     (''CATALOG_GRAPH_TYPE_NOT_FOUND'', ''Graph type not found: `{}`''),
     (''CATALOG_GRAPH_TYPE_ALREADY_EXIST'', ''Graph type already exist: `{}`''),
     (''CATALOG_GRAPH_NOT_FOUND'', ''Graph not found: `{}`''),
     (''CATALOG_GRAPH_ALREADY_EXIST'', ''Graph already exist: `{}`''),
     (''DROP_REFERENCED_GRAPH_TYPE'', ''Can not drop graph type `{}` that is referenced by graph `{}`''),
     (''CATALOG_MIRROR_GRAPH_ALREADY_EXIST'', ''Mirror graph already exist: `{}`''),
     (''CATALOG_MIRROR_GRAPH_NOT_FOUND'', ''Mirror graph not found `{}`''),
     (''CATALOG_GRAPH_ALREADY_HAVE_MIRROR_GRAPH'', ''Graph `{}` already have a mirror graph `{}`''),
     (''CATALOG_GRAPH_DO_NOT_HAVE_MIRROR_GRAPH'', ''Graph `{}` does not have a mirror graph''),
     (''CATALOG_MIRROR_GRAPH_NAME_CONFLICT'', ''Mirror graph name is same as an existing graph name: `{}`''),
     (''CATALOG_MIRROR_GRAPH_BASE_GRAPH_EMPTY'', ''Create mirror graph, base graph is empty''),
     (''CATALOG_NODE_INDEX_ALREADY_EXISTS'', ''Node index already exists: {}''),
     (''CATALOG_EDGE_INDEX_ALREADY_EXISTS'', ''Edge index already exists: {}''),
     (''CATALOG_INDEX_PROPERTY_TYPE_NOT_SUPPORTED'', ''Index property type `{}` not supported''),
     (''CATALOG_VERSION_RETIRED'', ''Catalog version retired: {}''),
     (''CATALOG_STATE_PERMISSION_DENIED'', ''Catalog state permission denied''),
     (''CATALOG_SCHEMA_NOT_FOUND'', ''Catalog schema not found: `{}`''),
     (''CATALOG_SCHEMA_ALREADY_EXISTS'', ''Catalog schema already exists: `{}`''),
     (''CATALOG_DIRECTORY_NOT_FOUND'', ''Catalog directory not found: `{}`''),
     (''CATALOG_PROPERTY_ALREADY_EXIST'', ''Property `{}.{}` already exists''),
     (''CATALOG_DDL_MANAGER_STOPPED'', ''Catalog ddl manager stopped''),
     (''CATALOG_DDL_TIMEOUT'', ''Catalog ddl timeout, job id is {}''),
     (''CATALOG_MAXIMUM_PENDING_DDL_EXCEEDED'', ''Pending ddl exceeds maximum threshold''),
     (''CATALOG_INDEX_TYPE_NOT_SUPPORTED'', ''Index type not supported'')]"

definition msgs_FUNCTION :: "(string \<times> string) list" where
  "msgs_FUNCTION = [
     (''NUMERIC_VALUE_OUT_OF_RANGE'', ''Numeric value out of range: `{}`, type: `{}`''),
     (''INVALID_ARGUMENT_FOR_POWER_FUNCTION'', ''Invalid argument for power function: {}.''),
     (''DIVISION_BY_ZERO'', ''Division by zero: `{}`, type: `{}`''),
     (''INVALID_CAST'', ''Invalid cast from `{}`:`{}` to `{}`''),
     (''TRIM_LIST_OUT_OF_RANGE'', ''Trim list out of range, list size: `{}`, trim number: `{}`''),
     (''INVALID_CHARACTER_VALUE_FOR_CAST'', ''Invalid character value cast from `{}`:`{}` to `{}`''),
     (''LIST_ELEMENT_ERROR'', ''List element error: {}''),
     (''INVALID_FUNCTION_ARGUMENT'', ''Invalid function argument `{}` of `{}`''),
     (''SUBSTRING_ERROR'', ''Substring error, invalid length `{}`, must greater than or equal to 0''),
     (''INVALID_DATE_TIME_OR_DATETIME_FORMAT'', ''Invalid format: `{}` is not a valid `{}`''),
     (''PARSE_TEMPORAL_FAIL'', ''Parse {}: `{}` fail''),
     (''INVALID_LOGICAL_EXPRESSION'', ''Invalid logical expression, only support bool type, expression `{}`, type: `{}`''),
     (''EXPR_COMPILE_FAILED'', ''Failed to compile expression, expr: `{}`, error: {}''),
     (''EXPR_EVAL_FAILED'', ''Failed to evaluate expression: `{}`, exception: {}''),
     (''RESOLVE_FUNCTION_FAILED'', ''Resolve function failed: `{}`''),
     (''EXPR_TYPE_INFER_FAILED'', ''Expression type infer failed, expression: `{}`''),
     (''INVALID_CAST_EXPR'', ''Invalid cast expression: `{}`, can not cast from `{}` to `{}`''),
     (''INVALID_CONST_EXPR'', ''Invalid const expression: `{}`''),
     (''INVALID_CONSTRUCT_PATH_EXPR_INPUT'', ''Invalid construct path expression input type: `{}`, only support node, edge, list<edge>''),
     (''INVALID_CONSTRUCT_LIST_EXPR_INPUT'', ''Invalid construct list expression input types: `{}`. All elements in list should have compatible types''),
     (''INVALID_CONSTRUCT_RECORD_EXPR_INPUT'', ''Record could only contain unique field names, but `{}` appears more than once.''),
     (''INVALID_CASE_EXPR_WHEN_INPUT'', ''The when operand of case expression should be type of boolean, but got {}: {}''),
     (''INVALID_CASE_EXPR_THEN_INPUT'', ''The then/else operands of case expression should have compatible types, but got: {}''),
     (''FUNCTION_TRANSFORM_FAILED'', ''Transform to execution expression failed: `{}`'')]"

definition msgs_SEMANTIC :: "(string \<times> string) list" where
  "msgs_SEMANTIC = [
     (''UNDEFINED_VARIABLE'', ''Semantic error, undefined variable: `{}`''),
     (''DUPLICATE_DEFINE_VARIABLE'', ''Semantic error, duplicate defined variable: `{}`''),
     (''UNDEFINED_PARAMETER'', ''Semantic error, undefined parameter: `{}`''),
     (''SEMANTIC_LINEAR_QUERY_COLUMN_SIZE_MISMATCH'', ''Semantic error, column size `{}` vs. `{}` mismatched for the linear query of composite query statement: `{}`''),
     (''SEMANTIC_FILTER_CLAUSE_MUST_BE_BOOL_TYPE'', ''Semantic error, filter clause must be type of bool''),
     (''SEMANTIC_INVALID_EXPRESSION_TYPE'', ''Semantic error, invalid expression type, expect `{}` but got `{}` at expression: `{}`''),
     (''SEMANTIC_LINEAR_QUERY_COLUMN_NAME_MISMATCH'', ''Semantic error, column name `{}` vs. `{}` mismatched for the linear query of composite query statement: `{}`''),
     (''SEMANTIC_NODE_PRIMARY_KEY_PROPERTY_NUM_MISMATCH'', ''Semantic error, node properties mismatched primary index, expect `{}` but got `{}`''),
     (''SEMANTIC_NODE_PRIMARY_KEY_PROPERTY_NOT_FOUND'', ''Semantic error, primary index property not found: `{}`''),
     (''SEMANTIC_GRAPH_PATTERN_QUANTIFIER_EXCEED_LOW_BOUND'', ''Semantic error, the value of upper bound of graph pattern quantifier shall be greater than 0''),
     (''SEMANTIC_GRAPH_PATTERN_QUANTIFIER_LOW_BOUND_EXCEED_UP_BOUND'', ''Semantic error, lower bound of graph pattern quantifier shall be less than or equal to upper bound''),
     (''SEMANTIC_INVALID_EDGE_PATTERN'', ''Semantic error, expect the path primary to be EdgePattern, but got: {}''),
     (''SEMANTIC_INCONSISTENT_VARIABLE_DEFINITION'', ''Semantic error, variable {} cannot be defined as both group variable and {}''),
     (''SEMANTIC_GROUP_VARIABLE_REDEFINITION'', ''Semantic error, group variable redefinition {}''),
     (''SEMANTIC_INVALID_EDGE_PREDICATE'', ''Semantic error, The predicate can only refer to the binding variable itself `{}` in element pattern: {}''),
     (''PATTERN_NOT_SUPPORTED'', ''Pattern not supported: `{}`''),
     (''SEMANTIC_RETURN_ALL_WITH_GROUPBY'', ''Semantic error, return all can't be used with user specified group bys''),
     (''SEMANTIC_RETURN_ALL_WITH_NO_VARS_IN_SCOPE'', ''RETURN * is not allowed when there are no variables in scope''),
     (''SEMANTIC_RETURN_ALL_WITH_EMPTY_GROUPBY'', ''Semantic error, return all can't be used with empty group by''),
     (''SEMANTIC_RETURN_DUPLICATE_COLUMN'', ''Semantic error, duplicate column name in return statement: `{}`''),
     (''SEMANTIC_EMPTY_GROUPBY_MISMATCH'', ''Semantic error, empty group by mismatched''),
     (''SEMANTIC_NO_AGG_FOUND_WITH_GROUPBY'', ''Semantic error, no aggregates found but specified group bys''),
     (''SEMANTIC_GROUPBY_NO_BINDING'', ''Semantic error, user specified group bys must be binding variable: `{}`''),
     (''SEMANTIC_GROUPBY_CONTAIN_AGG_EXPR'', ''Semantic error, group by item `{}` can't contain aggregate expressions: `{}`''),
     (''SEMANTIC_GROUPBY_MISMATCH'', ''Semantic error, group bys mismatched''),
     (''SEMANTIC_IMPLICIT_AGG_IN_RETURN'', ''Semantic error, implicit aggregation is not allowed in return statement''),
     (''SEMANTIC_VAR_PROP_SETITEM_ERROR'', ''Variable and property name between any two SetPropertyItem should not be the same''),
     (''SEMANTIC_ASSIGN_EXPR_TYPE_ERROR'', ''The type of `{}({})` cannot be assigned to `{}({})`''),
     (''SEMANTIC_CURRENT_WORKING_GRAPH_NOT_FOUND'', ''Current working graph not found''),
     (''INVALID_LABEL_EXPR_INPUT'', ''Invalid label expression input: `{}`, expect NODE or EDGE type but got `{}`''),
     (''INVALID_TYPE_EXPR_INPUT'', ''Invalid type expression input: `{}`, expect NODE or EDGE type but got `{}`''),
     (''INVALID_OFFSET_EXPR_TYPE'', ''Invalid type OFFSET expression type: `{}`, expect `{}`''),
     (''INVALID_LIMIT_EXPR_TYPE'', ''Invalid type LIMIT expression type: `{}`, expect `{}`''),
     (''INVALID_NUM_OF_PATHS_EXPR_TYPE'', ''Invalid type NUMBER OF PATHS expression type: `{}`, expect `{}`''),
     (''INVALID_NUM_OF_GROUPS_EXPR_TYPE'', ''Invalid type NUMBER OF GROUPS expression type: `{}`, expect `{}`'')]"

definition msgs_SYNTAX :: "(string \<times> string) list" where
  "msgs_SYNTAX = [
     (''INVALID_SYNTAX_MULTIPLE_PRIMARY_KEY'', ''Invalid syntax, multiple primary key defined''),
     (''INVALID_SYNTAX_PRIMARY_KEY_NOT_FOUND_IN_PROPS'', ''Invalid syntax, primary key `{}` not found in properties list''),
     (''INVALID_SYNTAX_SRC_TYPE_OF_EDGE_NOT_SPECIFIED'', ''Invalid syntax, source node type of edge type `{}` not specified''),
     (''INVALID_SYNTAX_DST_TYPE_OF_EDGE_NOT_SPECIFIED'', ''Invalid syntax, destination node type of edge type `{}` not specified''),
     (''INVALID_SYNTAX_UNKNOWN_ELEMENT_TYPE'', ''Invalid syntax, unknown element type''),
     (''INVALID_SYNTAX_INDEX_TYPE_ALIAS_ILLEGAL'', ''Invalid syntax, index `{}` type alias `{}` illegal''),
     (''INVALID_SYNTAX_DUPLICATE_PROPERTY'', ''Invalid syntax, duplicate property: `{}`''),
     (''INVALID_SYNTAX_NEST_QUERY_LAST_STATEMENT_ERROR'', ''Invalid syntax, last statement in value query expression is not a query statement: `{}`''),
     (''INVALID_SYNTAX_NEST_QUERY_RESULT_STATEMENT_ERROR'', ''Invalid syntax, result statement in value query expression should be linear query statement''),
     (''INVALID_SYNTAX_NEST_QUERY_COLUMN_SIZE_ERROR'', ''Invalid syntax, value query expression should have only 1 column, but got: `{}`''),
     (''INVALID_SYNTAX_NEST_QUERY_RETURN_AGG_ERROR'', ''Invalid syntax, result of expression should generated by aggregate function without group by, but got: `{}`''),
     (''INVALID_SYNTAX_NEST_QUERY_RETURN_LIMIT_ERROR'', ''Invalid syntax, result in value query expression should be aggregate expression without group by or add limit 1 clause in return statement''),
     (''INVALID_SYNTAX_VAR_TYPE_CONFLICT'', ''Invalid syntax, variable `{}` defined with conflicting type''),
     (''INVALID_SYNTAX_EQUI_JOIN_ON_CONDITIONAL_VAR'', ''Invalid syntax, implicit equi-joins on conditional variable `{}` are prohibited''),
     (''INVALID_SYNTAX_EQUI_JOIN_ON_GROUP_VAR'', ''Invalid syntax, implicit equi-joins on group variable `{}` are prohibited''),
     (''INVALID_SYNTAX_VAR_TYPE_ERROR'', ''Invalid syntax, type of Variable `{}` is not {}''),
     (''INVALID_SYNTAX_VAR_NOT_DEFINED'', ''Invalid syntax, variable `{}` not defined''),
     (''INVALID_SYNTAX_INSERT_BOUND_NODE'', ''Invalid syntax, cannot insert bound node `{}`''),
     (''INVALID_SYNTAX_VAR_INVALID_NODE_TYPE'', ''Invalid syntax, `{}` does not refer to a valid node type''),
     (''INVALID_SYNTAX_VAR_REFER_MULTIPLE_NODE_TYPE'', ''Invalid syntax, `{}` shouldn't refer to multiple node types''),
     (''INVALID_SYNTAX_REDEFINED_VAR'', ''Invalid syntax, redefined variable: `{}`''),
     (''INVALID_SYNTAX_CONFLICT_VAR_TYPE'', ''Invalid syntax, redefined variable: `{}` with conflict type(`{}` vs `{}`)''),
     (''INVALID_SYNTAX_YIELD_ITEM_TYPE'', ''Invalid syntax, yield item should be NODE, EDGE or PATH type''),
     (''INVALID_SYNTAX_MULTIPLE_NODE_INSERT'', ''Invalid syntax, cannot insert node `{}` more than once''),
     (''INVALID_SYNTAX_DUPLICATED_PROPERTY_NAME'', ''Invalid syntax, duplicate property names in `{}`''),
     (''INVALID_SYNTAX_DUPLICATED_INDEX_PROPERTY'', ''Invalid syntax, duplicate index property names in `{}`''),
     (''INVALID_SYNTAX_CONFLICT_PROPERTY_VALUE_TYPE'', ''Invalid syntax, property `{}` of type `{}` defined conflict type: `{}`, previous defined as `{}`''),
     (''INVALID_SYNTAX_ALTER_ELEMENT_MULTI_TIME'', ''Invalid syntax, `{}` cannot occur more than once in an alter graph type statement.''),
     (''INVALID_SYNTAX_ADD_PRIMARY_KEY_OR_MULTI_EDGE_KEY'', ''Invalid syntax, adding PRIMARY KEY or MULTI EDGE KEY `{}` is not allowed.''),
     (''INVALID_SYNTAX_ADD_INVALID_PROPERTY'', ''Invalid syntax, add not nullable property {} without default value is not allowed.''),
     (''INVALID_SYNTAX_ELEMENT_TYPE_NAME_REDEFINE'', ''Invalid syntax, `{}` cannot be defined multiple times.''),
     (''INVALID_SYNTAX_ILLEGAL_BYTE_STRING'', ''Invalid syntax, illegal byte string: {}''),
     (''INVALID_SYNTAX_LABEL_EXPR_ELEMENT_TYPE_EXPR_COEXIST'', ''Invalid syntax, label expression and type expression cannot coexist in single {} pattern `{}`''),
     (''INVALID_SYNTAX_FIELD_NUMBER_MISMATCH'', ''Invalid syntax, the number of fields in `{}` does not match with `{}`.''),
     (''INVALID_SYNTAX_FIELD_NOT_FOUND'', ''Invalid syntax, field `{}` not found in table.''),
     (''INVALID_IDENTIFIER'', ''Invalid syntax, illegal identifier: `{}`, error: {}'')]"

definition msgs_MUTATE :: "(string \<times> string) list" where
  "msgs_MUTATE = [
     (''DEPENDENT_OBJECT_ERROR'', ''Dependent object error, node {} can not be deleted, {} edge connected''),
     (''PRIMARY_KEY_CONSTRAINT_VIOLATION'', ''Insert node failed, primary key constraint violation, node already exist''),
     (''EDGE_RANK_CONSTRAINT_VIOLATION'', ''Insert edge failed, rank constraint violation, edge already exist''),
     (''NODE_IS_MISSING'', ''Insert edge failed, node `{}` is missing.''),
     (''GET_NODE_ID_FROM_PRIMARY_KEY_FAILED'', ''Get node id from primary key failed : in part={}, nodeType={}, primary key first={}''),
     (''MULTI_GET_NODE_ID_FROM_PRIMARY_KEY_FAILED'', ''Get id from primary keys failed in part {}''),
     (''SRC_NODE_NOT_EXISTED'', ''Source node not existed''),
     (''DST_NODE_NOT_EXISTED'', ''Destination node not existed''),
     (''SET_INVALID_TYPE'', ''The type of element {} updated in the set statement must be Node or Edge''),
     (''NODE_ALREADY_EXIST'', ''Node already exist, id: `{}`''),
     (''EDGE_ALREADY_EXIST'', ''Edge already exist''),
     (''DISCRIMINATOR_NOT_FOUND_IN_PROPS'', ''Discriminator property name `{}` is not found in property set'')]"

definition msgs_STORAGE :: "(string \<times> string) list" where
  "msgs_STORAGE = [
     (''STORAGE_EXECUTOR_PARAMETER_INVALID'', ''Storage executor invalid parameter''),
     (''STORAGE_EXECUTOR_PARAMETER_TYPE_INVALID'', ''{} should be int64, but got: `{}`, value: `{}`''),
     (''STORAGE_EXECUTOR_PARAMETER_PRIMARY_KEY_INVALID'', ''Primary key is not consistent with latest schema''),
     (''LEADER_CHANGED'', ''Leader changed''),
     (''STORAGE_CODEC_PROPERTY_NOT_NULLABLE'', ''Property not nullable: {}''),
     (''STORAGE_CODEC_PROPERTY_NOT_SET'', ''Property not set: {}''),
     (''STORAGE_CODEC_PROPERTY_NOT_FOUND'', ''Property not found: {}''),
     (''STORAGE_CODEC_PROPERTY_TYPE_NOT_MATCH'', ''Property type not match, property: `{}`:`{}`, got: `{}`:`{}`''),
     (''STORAGE_CODEC_PROPERTY_UNABLE_TO_ENCODE'', ''Property type unable to encode: `{}`''),
     (''STORAGE_CODEC_PROPERTY_OUT_OF_RANGE'', ''Property out of range, property: `{}`:`{}` got: `{}`:`{}`''),
     (''STORAGE_CODEC_PROPERTY_LIST_NEST_TYPE_NOT_FOUND'', ''Property list nested property not found: {}''),
     (''STORAGE_CODEC_INDEX_CORRUPTION_NO_TERMINATOR'', ''Index corruption: no terminator found''),
     (''STORAGE_CODEC_INDEX_PROPERTY_NOT_REQUIRED'', ''Index property not required''),
     (''STORAGE_CODEC_INDEX_PROPERTIES_ILLEGAL'', ''Index property type illegal''),
     (''STORAGE_CODEC_INDEX_ILLEGAL'', ''Index corruption: index illegal''),
     (''STORAGE_CODEC_INDEX_PROPERTIES_ILLEGAL_PROPERTY_NOT_EXIST'', ''The required property does not exist in index: {}''),
     (''STORAGE_CODEC_INDEX_ILLEGAL_NOT_RESERVED_PROPERTY'', ''`{}` is not a reserved properties''),
     (''KVSTORE_OPEN_FAILED'', ''Open kvstore failed: {}''),
     (''KVSTORE_LOCK_FAILED'', ''KVStore lock failed''),
     (''KVSTORE_COLUMN_FAMILY_NOT_FOUND'', ''KVStore column family not found''),
     (''KVSTORE_INGEST_FAILED'', ''KVStore ingest failed''),
     (''KVSTORE_SET_PROPERTY_FAILED'', ''KVStore set property failed''),
     (''KVSTORE_GET_PROPERTY_FAILED'', ''KVStore get property failed''),
     (''KVSTORE_COMPACT_FAILED'', ''KVStore compact failed''),
     (''KVSTORE_FLUSH_FAILED'', ''KVStore flush failed''),
     (''KVSTORE_CHECKPOINT_FAILED'', ''KVStore checkpoint failed, {}''),
     (''KVSTORE_BATCH_WRITE_FAILED'', ''KVStore batch write failed''),
     (''KVSTORE_COMMIT_FAILED'', ''KVStore commit failed''),
     (''KVSTORE_KEY_NOT_FOUND'', ''KVStore key not found''),
     (''KVSTORE_GET_FAILED'', ''KVStore get failed''),
     (''KVSTORE_PUT_FAILED'', ''KVStore put failed''),
     (''KVSTORE_REMOVE_FAILED'', ''KVStore remove failed''),
     (''KVSTORE_EXPORT_TABLE_FAILED'', ''KVStore export table failed, {}''),
     (''KVSTORE_OPEN_SST_FAILED'', ''KVStore open sst file `{}` failed''),
     (''RAFT_BUSY'', ''Raft busy''),
     (''RAFT_INVALID_PEER'', ''Raft invalid peer''),
     (''RAFT_LEADER_CONFLICT'', ''Raft leader conflict'')]"

definition msgs_CONFIGURATION :: "(string \<times> string) list" where
  "msgs_CONFIGURATION = [
     (''CONFIGURATION_INVALID'', ''Configuration invalid: `{}`''),
     (''CONFIGURATION_ITEM_NOT_FOUND'', ''Configuration item `{}` not found''),
     (''CONFIGURATION_ITEM_TYPE_INVALID'', ''Invalid config value type `{}` for key `{}`, expect `{}`''),
     (''CONFIGURATION_ITEM_RANGE_INVALID'', ''Invalid config value `{}`, valid range: `{}` for key `{}`''),
     (''CONFIGURATION_INFO_FILE_FORMAT_ILLEGAL'', ''Info file format illegal''),
     (''CONFIGURATION_INVALID_CONFIG_KEY'', ''Invalid config key `{}`''),
     (''CONFIGURATION_INVALID_AUDIT_CATEGORY'', ''Invalid audit log category `{}`''),
     (''CONFIGURATION_MISSING_CONFIG_KEY'', ''Missing `{}` configuration''),
     (''CONFIGURATION_ILLEGAL_FORMAT'', ''Configuration illegal format: {}'')]"

definition msgs_PROCEDURE :: "(string \<times> string) list" where
  "msgs_PROCEDURE = [
     (''PROCEDURE_ERROR'', ''Procedure error: {}''),
     (''PROCEDURE_NOT_FOUND'', ''Procedure `{}` not found''),
     (''PROCEDURE_NO_OUTPUT'', ''Procedure `{}` has no output''),
     (''PROCEDURE_NUM_ARGS_NOT_ENOUGH'', ''The number of arguments for procedure `{}` is not enough, expect: {}, got {}''),
     (''PROCEDURE_NUM_ARGS_EXCEEDED'', ''The number of arguments passed in exceeds the max allowed for procedure `{}`: {} > {}''),
     (''PROCEDURE_INVALID_ARGUMENT_TYPE'', ''Invalid type of `{}` argument: `{}`, type:`{}`, expect:`{}`''),
     (''PROCEDURE_INVALID_ARGUMENT_ENCODE'', ''Invalid encoding of `{}` argument: `{}`, expect encoding:`{}`, error: {}''),
     (''PROCEDURE_YIELD_COLUMN_ERROR'', ''The yield column `{}` of procedure `{}` has conflicts with the previous statement, please use an alias to distinguish them''),
     (''PROCEDURE_UNKNOWN_YIELD_COLUMN'', ''Unknown yield column `{}` for procedure `{}`''),
     (''GET_PART_ROUTER_FAILED'', ''Get partition router failed''),
     (''GET_META_CLIENT_FAILED'', ''Get meta client failed'')]"

definition msgs_META :: "(string \<times> string) list" where
  "msgs_META = [
     (''META_CLUSTER_ALREADY_EXISTS'', ''Cluster already exists: {}''),
     (''META_CLUSTER_NOT_FOUND'', ''Cluster not found: {}''),
     (''META_GET_KV_FAILED'', ''MetaStore::get failed''),
     (''META_GET_KV_PREFIX_FAILED'', ''MetaStore::prefix failed''),
     (''META_SERVICE_HOST_NOT_ADDED'', ''No matched service from host: {}''),
     (''META_FAILED_CHECK_SERVICE'', ''Failed to check service''),
     (''META_FAILED_CHECK_SERVICE_EXIST'', ''Failed to check service exist: {}''),
     (''META_SERVICE_ALREADY_EXISTS'', ''Service for host already exists''),
     (''META_HOST_ALREADY_EXISTS'', ''Host already exists: {}''),
     (''META_HOST_NOT_FOUND'', ''Host not found: {}''),
     (''META_AGENT_ALREADY_EXISTS'', ''Agent already exists: {}''),
     (''META_SERVICE_STATIC_PORT_ALREADY_EXISTS'', ''Service with static port already exists''),
     (''META_SERVICE_DYNAMIC_PORT_ALREADY_EXISTS'', ''Service with dynamic port already exists''),
     (''META_FAILED_ADD_SERVICE'', ''Failed to add service: {}''),
     (''META_PUT_SERVICE_ADDRESS_FAILED'', ''Put service address failed''),
     (''META_LIST_SERVICE_FAILED'', ''List services failed''),
     (''META_SERVICE_REPORT_NOT_MATCH_ADDED'', ''Report service not match added''),
     (''META_PART_CONFIG_INVALID'', ''Can't find proper replica number under given parts per service config''),
     (''META_NOT_ENOUGH_LOCATION'', ''No enough services({}) to hold replica({})''),
     (''META_NOT_SUPPORTED'', ''Meta not support, Unknown opType: {}''),
     (''META_NOT_INIT'', ''Meta not init''),
     (''META_FETCH_SERVICE_KEY_FAILED'', ''Failed to fetch service key''),
     (''META_SERVICE_NOT_FOUND'', ''Service not found: {}''),
     (''META_SERVICE_NOT_ADDED'', ''Service not added''),
     (''META_SERVICE_IN_USE'', ''Service is in part''),
     (''META_SERVICE_NOT_IN_CLUSTER'', ''Service not in cluster''),
     (''META_PURGE_SERVICE_INFO_FAILED'', ''Failed to purge service info''),
     (''META_LOCATION_NOT_FOUND'', ''Location {} not found''),
     (''META_LOCATION_ALREADY_EXIST'', ''Location {} already exist''),
     (''META_PART_ALREADY_EXIST'', ''Meta Part {} already exist''),
     (''META_PART_LEADER_NOT_ENOUGH'', ''Meta Part with leader not enough''),
     (''META_PART_NOT_ENOUGH'', ''Meta Part not enough''),
     (''META_PART_NOT_FOUND'', ''Meta Part not found: `{}`''),
     (''META_ACTIVE_SERVICE_NOT_ENOUGH'', ''Active service not enough''),
     (''META_CANNOT_FIND_SERVICE'', ''Can't find service: {}''),
     (''META_SERVICE_ID_ERROR'', ''Failed to fetch service id from meta: {}''),
     (''META_REPORT_ADDRESS_ERROR'', ''Failed to report address to meta''),
     (''META_UNSUPPORTED_SERVICE'', ''Unsupported service type''),
     (''META_SERVICE_FAIL_TO_ALLOC_ID'', ''Failed to allocate service id: {}''),
     (''META_DROP_CLUSTER_IS_NOT_EMPTY'', ''Cluster is not empty.'')]"

definition msgs_UNSUPPORTED_2 :: "(string \<times> string) list" where
  "msgs_UNSUPPORTED_2 = [
     (''UNSUPPORTED'', ''Unsupported: {}''),
     (''UNSUPPORTED_NODE_TYPE_WITHOUT_PRIMARY_KEY'', ''Unsupported, node type without primary key: `{}`''),
     (''UNSUPPORTED_GRAPH_TYPE_EXPR'', ''Unsupported graph type expression: `{}`''),
     (''UNSUPPORTED_GRAPH_TYPE_INITIALIZER'', ''Unsupported graph type initializer: `{}`''),
     (''UNSUPPORTED_EDGE_DIRECTION'', ''Unsupported edge direction: `{}`''),
     (''UNSUPPORTED_INSERT_EDGE_STATEMENT'', ''InsertEdge Statement doesn't support pattern like `{}`''),
     (''UNSUPPORTED_INSERT_NODE_STATEMENT'', ''InsertNode Statement doesn't support pattern like `{}`''),
     (''UNSUPPORTED_DATE_MODIFY_STATEMENT'', ''Adding any statement after data modify statement is not supported.''),
     (''UNSUPPORTED_MULTIPLE_PATH_PATTERN'', ''Not supported path pattern with more than one path term''),
     (''UNSUPPORTED_PATH_FACTOR'', ''Not supported path factor: {}''),
     (''UNSUPPORTED_UPDATE_PRIMARY_KEY'', ''Updating the primary key is not supported, node type: `{}`, property name: `{}`''),
     (''UNSUPPORTED_SET_MULTIPLE_NODE_TYPE'', ''Unsupported set multiple node types''),
     (''UNSUPPORTED_SET_ALL_SET_LABEL'', ''SetAllProperties and kSetLabel are not supported yet''),
     (''UNSUPPORTED_UPDATE_MULTIEDGE_KEY'', ''Updating the multiedge key is not supported, egde type: `{}`, property name: `{}`''),
     (''UNSUPPORTED_TRIM_NON_ASCII_CHAR'', ''Trim functions with custom trim characters and non-ASCII inputs are not supported yet''),
     (''UNSUPPORTED_TYPE_GET_PROP'', ''ValueType {} can't get property''),
     (''UNSUPPORTED_AGGREGATION_EXPRESSION_NESTED'', ''Unsupported, aggregate expressions cannot be nested: `{}`''),
     (''AGGREGATION_EXPRESSION_NOT_ALLOWED'', ''Aggregate function `{}` is not allowed in this context''),
     (''UNDEFINED_AGG_FUNCTION'', ''Unknown aggregate function `{}`''),
     (''UNSUPPORTED_CHARSET'', ''Charset `{}` not support''),
     (''UNSUPPORTED_COLLATION'', ''Collation `{}` not support''),
     (''UNSUPPORTED_CHARSET_COLLATION_NOT_MATCH'', ''Charset `{}` and Collation `{}` not match'')]"

definition msgs_SESSION :: "(string \<times> string) list" where
  "msgs_SESSION = [
     (''QUERY_ID_NOT_FOUND'', ''Query id not found: {}''),
     (''SESSION_NOT_FOUND'', ''Session not found: {}''),
     (''SESSION_IS_BUSY'', ''Session is busy''),
     (''KILL_QUERY_FAILED'', ''Kill query failed: {}''),
     (''MAX_EXECUTION_TIME_EXCEEDED'', ''Max execution time exceeded, query was killed.''),
     (''KILL_SESSION_FAILED'', ''Kill session failed: {}'')]"

definition msgs_AUTHORIZATION_RUNTIME_ERROR :: "(string \<times> string) list" where
  "msgs_AUTHORIZATION_RUNTIME_ERROR = [
     (''CREATE_ROLE_FAILED'', ''Create role failed: {}''),
     (''ALTER_ROLE_FAILED'', ''Alter role failed: {}''),
     (''DROP_ROLE_FAILED'', ''Drop role failed: {}''),
     (''ALTER_OWNER_FAILED'', ''Alter Owner failed: {}''),
     (''GRANT_ROLE_FAILED'', ''Grant role failed: {}''),
     (''REVOKE_ROLE_FAILED'', ''Revoke role failed: {}''),
     (''GRANT_PRIVILEGE_FAILED'', ''Grant privilege failed: {}''),
     (''REVOKE_PRIVILEGE_FAILED'', ''Revoke privilege failed: {}'')]"

definition msgs_GRAPH_COMPUTING :: "(string \<times> string) list" where
  "msgs_GRAPH_COMPUTING = [
     (''GRAPH_COMPUTE_ERROR'', ''Graph compute error: {}'')]"

definition msgs_JOB :: "(string \<times> string) list" where
  "msgs_JOB = [
     (''JOB_DESCRIPTION_INVALID'', ''Job description invalid: {}'')]"

definition msgs_PLUGIN :: "(string \<times> string) list" where
  "msgs_PLUGIN = [
     (''PLUGIN_INVALID_TYPE'', ''Invalid plugin type `{}` for {}''),
     (''PLUGIN_MULTIPLE_PLUGIN'', ''Multiple plugins found, {} found for {}''),
     (''PLUGIN_CONFIG_NOT_FOUND'', ''Plugin `{}`, configuration not found: `{}`''),
     (''PLUGIN_CONFIG_PARSE_ERROR'', ''Plugin `{}`, parse configuration error: `{}`''),
     (''PLUGIN_INIT_ERROR'', ''Plugin `{}`, init error: `{}`''),
     (''PLUGIN_DESTROY_ERROR'', ''Plugin `{}`, destroy error: `{}`''),
     (''PLUGIN_UNSUPPORT_AUTH_TYPE'', ''Unsupported authentication plugin: {}'')]"

definition msgs_MODULE :: "(string \<times> string) list" where
  "msgs_MODULE = [
     (''MODULE_ALREADY_LOADED'', ''Module already loaded: `{}`''),
     (''MODULE_NOT_FOUND'', ''Module not found: `{}`''),
     (''MODULE_BEING_USED'', ''Module is being used: `{}`''),
     (''MODULE_INVALID_PROC_NAME'', ''Invalid procedure name: `{}`''),
     (''MODULE_INVALID_FUNC_NAME'', ''Invalid function name: `{}`''),
     (''MODULE_INVALID_PLUGIN_NAME'', ''Invalid plugin name: `{}`''),
     (''MODULE_INVALID_PLUGIN_API_VERSION'', ''Invalid plugin api version: `{}`''),
     (''MODULE_INVALID_NULL_PLUGIN'', ''Invalid null plugin''),
     (''MODULE_INVALID_REGISTER'', ''Invalid register `{}` for module: `{}`''),
     (''MODULE_DLOPEN_ERROR'', ''Module dlopen error, name: {} error: {}''),
     (''MODULE_CANNOT_UNLOAD'', ''The Module `{}` can not be unloaded or reloaded'')]"

definition msgs_AUTHENTICATE :: "(string \<times> string) list" where
  "msgs_AUTHENTICATE = [
     (''AUTH_INVALID_PASSWORD'', ''The password must be at least 8 characters long and should include at least one digit, one lowercase letter, and one uppercase letter''),
     (''AUTH_USER_EXIST'', ''User `{}` exist''),
     (''AUTH_USER_NOT_EXIST'', ''User `{}` not exist''),
     (''AUTH_USER_DISABLED'', ''User `{}` disabled''),
     (''AUTH_USER_LOCKED'', ''Login blocked for {} minutes due to too many failed attempts''),
     (''AUTH_INVALID_USERNAME'', ''The username should be between 4 and 32 characters in length and can only include letters, numbers, and underscores''),
     (''AUTH_INVALID_USERNAME_OR_PASSWORD'', ''Authenticate error: invalid username or password''),
     (''AUTH_CANNOT_DISABLE_SYSTEM_USER'', ''Authenticate error: cannot disable system user''),
     (''AUTH_NEED_CHANGE_PASSWORD'', ''Authenticate error: need to change password''),
     (''AUTH_INVALID_AUTH_INFO'', ''Authenticate error: invalid config {}''),
     (''AUTH_INVALID_TOKEN'', ''Authenticate error: invalid token''),
     (''AUTH_INIT_ERROR'', ''AuthenticatorMangager init error: `{}`'')]"

definition msgs_AUTHORIZATION :: "(string \<times> string) list" where
  "msgs_AUTHORIZATION = [
     (''AUTHORIZE_ERROR'', ''Authorizate error: `{}`''),
     (''AUTHORIZE_INVALID_ROLENAME'', ''Authorizate error: The role name should be between 4 and 32 characters in length and can only include letters, numbers, and underscores''),
     (''AUTHORIZE_INVALID_OBJECT'', ''Authorizate error: Invalid object name `{}`''),
     (''AUTHORIZE_ROLE_EXIST'', ''Role `{}` exist''),
     (''AUTHORIZE_ROLE_NOT_EXIST'', ''Role `{}` not exist''),
     (''AUTHORIZE_USER_NOT_EXIST'', ''User `{}` not exist in this cluster''),
     (''AUTHORIZE_USER_EXIST'', ''User `{}` exist in this cluster''),
     (''AUTHORIZE_INSUFFICIENT_PRIVILEGE'', ''Insufficient privilege: `{}`''),
     (''AUTHORIZE_CONSTRAINT'', ''Cannot grant or revoke `{}` on `{}`'')]"

definition msgs_SESSION_2 :: "(string \<times> string) list" where
  "msgs_SESSION_2 = [
     (''CREATE_SESSION_FAILED'', ''Failed to create session, {}''),
     (''UNSUPPORTED_PROTOCOL_VERSION'', ''Your client protocol version({}) is unsupported. Please use one of the following supported protocol version clients to access: {}.''),
     (''SESSION_SET_ERROR'', ''Setting the session parameter: {} failed because: {}.'')]"

definition msgs_RPC :: "(string \<times> string) list" where
  "msgs_RPC = [
     (''RPC_DESERIALIZE_OBJECT_TYPE_ERROR'', ''RPC deserialize error, unknown object type: `{}` '')]"

definition msgs_SYSTEM :: "(string \<times> string) list" where
  "msgs_SYSTEM = [
     (''NETWORK_ERROR'', ''Network error: {}: {}''),
     (''FILE_CREATE_DIR_FAILED'', ''Create `{}` directory failed''),
     (''FILE_READ_SERVICE_ID_FILE_ERROR'', ''Failed to read service id file''),
     (''FILE_PARSE_SERVICE_ID_FILE_ERROR'', ''Failed to parse service id file''),
     (''FILE_SAVE_SERVICE_ID_FILE_ERROR'', ''Failed to save service id to file''),
     (''FILE_REMOVE_DIR_FAILED'', ''Remove `{}` directory failed''),
     (''NO_VALIDATOR'', ''No validator implemented for `{}`''),
     (''UNKNOWN'', ''Unknown error''),
     (''MEMORY_EXCEEDED'', ''Memory exceeded''),
     (''QUERY_CANCELED'', ''Query is canceled by user''),
     (''MEMORY_CONFIG_ERROR'', ''[MEM] configured max memory {} MiB, exceed system total memory {}''),
     (''MEMORY_BACKGROUND_CHECK'', ''Memory background thread start failed''),
     (''MEMORY_SYSTEM_INFO'', ''Read system memory info from /proc/meminfo failed''),
     (''MEMORY_VECTOR_INVALID_SIZE'', ''Invalid vector size, which should be [0, 134217727], but got {}''),
     (''FILE_NOT_FOUND'', ''File not found: `{}`''),
     (''FILE_IS_EMPTY'', ''File is empty: `{}`''),
     (''FILE_READ_PERMISSION'', ''No permission to read file `{}`''),
     (''FILE_READ_LINK'', ''Read link failed {}: {}''),
     (''FILE_READ_PATH'', ''Read path failed {}: {}''),
     (''FILE_OPEN_DIR'', ''Open dir failed `{}`: {}''),
     (''FILE_OPEN_FILE'', ''Open file failed `{}`: {}''),
     (''FILE_TYPE_NOT_SUPPORT'', ''File type not supported `{}`: {}''),
     (''FILE_FILE_STATE'', ''Get file state failed of `{}`''),
     (''NETWORK_CREATE_SOCKET'', ''Create socket failed: {}''),
     (''NETWORK_UNKNOWN_ADDR'', ''Unknown address family: {}''),
     (''NETWORK_BIND_FAILED'', ''Failed to bind on {}: {}''),
     (''NETWORK_LISTEN_FAILED'', ''Failed to listen on {}: {}''),
     (''NETWORK_NBIO_STOPPED'', ''NBIO is not started or has been stopped''),
     (''NETWORK_CONN_CLOSED'', ''{}: Connection closed by remote host''),
     (''NETWORK_PROTOCAL'', ''{}: Protocol Error''),
     (''NETWORK_TIMEOUT'', ''Timeout''),
     (''NETWORK_DISCONNECTED'', ''{}: Connection was disconnected''),
     (''NETWORK_ADDR_NOT_FOUND'', ''No IPv4 address found for `{}`''),
     (''NETWORK_INVALID_HOST'', ''Invalid host address: {}''),
     (''JOB_ERROR'', ''JOB_ERROR: `{}`''),
     (''JOB_TYPE_UNKNOWN'', ''Job type unknown: `{}`''),
     (''JOB_NOT_FOUND'', ''Can't find job: `{}`''),
     (''JOB_TASK_NOT_FOUND'', ''Can't find task `{}` of job `{}`''),
     (''JOB_CAN_NOT_RUN'', ''Can't run job: `{}`''),
     (''TASK_NOT_FOUND_IN_STORAGE'', ''Task not found in storage. (jobId: {}, taskId: {})''),
     (''TASK_STOPPED'', ''Task stopped by outside'')]"

definition msgs_OPTIMIZER :: "(string \<times> string) list" where
  "msgs_OPTIMIZER = [
     (''PLAN_GENERATE_FAILED'', ''Execution plan generation failed due to disabled optimizer rules. Check configs or consult documentation''),
     (''BACKUP_ERROR'', ''Backup error: {}''),
     (''BACKUP_RECORD_EXISTS'', ''A valid backup with same name already exists: `{}`''),
     (''BACKUP_RUNNING_JOBS'', ''Cannot do backup now, some conflict jobs are running''),
     (''BACKUP_META_TABLE_EMPTY'', ''Meta table `{}` is empty''),
     (''BACKUP_LOST_PART'', ''Some parts are lost, should be {}, actually {}''),
     (''BACKUP_DUPLICATE_PART'', ''Part {} is duplicate backed up''),
     (''BACKUP_RESTORE_INVALID_REQEUST'', ''Invalid Restore request: {}''),
     (''BACKUP_REMAP_PART_FAILED'', ''Part info does not match when restore''),
     (''BACKUP_RESTORE_TABLE_FAILED'', ''Restore table failed: {}''),
     (''BACKUP_DROP_NAME_EMPTY'', ''Empty backup name to drop''),
     (''BACKUP_DROP_NAME_NOT_EXIST'', ''Backup name `{}` doesn't exist'')]"

definition ErrorMessage_table :: "(string \<times> string) list" where
  "ErrorMessage_table = msgs_COMMON @ msgs_UNSUPPORTED @ msgs_DML @ msgs_CATALOG
     @ msgs_FUNCTION @ msgs_SEMANTIC @ msgs_SYNTAX @ msgs_MUTATE
     @ msgs_STORAGE @ msgs_CONFIGURATION @ msgs_PROCEDURE @ msgs_META
     @ msgs_UNSUPPORTED_2 @ msgs_SESSION @ msgs_AUTHORIZATION_RUNTIME_ERROR @ msgs_GRAPH_COMPUTING
     @ msgs_JOB @ msgs_PLUGIN @ msgs_MODULE @ msgs_AUTHENTICATE
     @ msgs_AUTHORIZATION @ msgs_SESSION_2 @ msgs_RPC @ msgs_SYSTEM
     @ msgs_OPTIMIZER"

lemmas msgs_defs =
  msgs_COMMON_def
  msgs_UNSUPPORTED_def
  msgs_DML_def
  msgs_CATALOG_def
  msgs_FUNCTION_def
  msgs_SEMANTIC_def
  msgs_SYNTAX_def
  msgs_MUTATE_def
  msgs_STORAGE_def
  msgs_CONFIGURATION_def
  msgs_PROCEDURE_def
  msgs_META_def
  msgs_UNSUPPORTED_2_def
  msgs_SESSION_def
  msgs_AUTHORIZATION_RUNTIME_ERROR_def
  msgs_GRAPH_COMPUTING_def
  msgs_JOB_def
  msgs_PLUGIN_def
  msgs_MODULE_def
  msgs_AUTHENTICATE_def
  msgs_AUTHORIZATION_def
  msgs_SESSION_2_def
  msgs_RPC_def
  msgs_SYSTEM_def
  msgs_OPTIMIZER_def

end
