(* ===== verification/Format.thy ===== *)
theory Format
  imports Double
begin

text \<open>
  Format templates: what is assumed of \<^verbatim>\<open>fmt::format\<close>, which is not in the repository. \<open>fmt_ok\<close> says that in a template
  whose only braces are placeholders the placeholders are replaced by the arguments in order; \<open>fmt_ref\<close> is a function
  that does it. The last part shows when the arguments can be read back.
\<close>

text \<open>The pieces of text between the placeholders; other braces are not handled.\<close>

fun fmt_pieces :: "string \<Rightarrow> string list option" where
  "fmt_pieces [] = Some [[]]"
| "fmt_pieces (c # cs) =
     (if c = CHR ''{'' then (case cs of [] \<Rightarrow> None
        | d # ds \<Rightarrow> if d = CHR ''}'' then map_option ((#) []) (fmt_pieces ds) else None)
      else if c = CHR ''}'' then None
      else map_option (\<lambda>ps. (c # hd ps) # tl ps) (fmt_pieces cs))"

fun fill_pieces :: "string list \<Rightarrow> string list \<Rightarrow> string" where
  "fill_pieces [] args = []"
| "fill_pieces [p] args = p"
| "fill_pieces (p # q # ps) [] = p"
| "fill_pieces (p # q # ps) (a # args) = p @ a @ fill_pieces (q # ps) args"

definition fmt_ok :: "(string \<Rightarrow> string list \<Rightarrow> string) \<Rightarrow> bool" where
  "fmt_ok fmt \<longleftrightarrow> (\<forall>t ps args. fmt_pieces t = Some ps \<longrightarrow> length ps \<le> length args + 1 \<longrightarrow> fmt t args = fill_pieces ps args)"

text \<open>A format function as \<open>fmt_ok\<close> describes it.\<close>

definition fmt_ref :: "string \<Rightarrow> string list \<Rightarrow> string" where
  "fmt_ref t args = (case fmt_pieces t of Some ps \<Rightarrow> fill_pieces ps args | None \<Rightarrow> t)"

lemma fmt_ref_ok: "fmt_ok fmt_ref"
  by (simp add: fmt_ok_def fmt_ref_def)

lemma fmt_ok_pieces: "fmt_ok fmt \<Longrightarrow> fmt_pieces t = Some ps \<Longrightarrow> length ps \<le> length args + 1 \<Longrightarrow> fmt t args = fill_pieces ps args"
  unfolding fmt_ok_def by blast

text \<open>Lines, and decimal numbers.\<close>

fun join_lines :: "string list \<Rightarrow> string" where
  "join_lines [] = []"
| "join_lines [l] = l"
| "join_lines (l # m # ls) = l @ CHR 0x0A # join_lines (m # ls)"

definition show_int :: "int \<Rightarrow> string" where
  "show_int i = (if i < 0 then CHR ''-'' # dec_digits (- i) else dec_digits i)"

section \<open>Reading the arguments back\<close>

lemma split_at_unique:
  assumes "x @ c # r = y @ c # s" "c \<notin> set x" "c \<notin> set y"
  shows "x = y \<and> r = s"
proof -
  have "c \<notin> set x \<Longrightarrow> takeWhile (\<lambda>d. d \<noteq> c) (x @ c # r) = x" for x r :: "'a list"
    by (induction x) auto
  then have "x = y" using assms by metis
  then show ?thesis using assms(1) by simp
qed

text \<open>Every piece behind a placeholder starts with the character \<open>c\<close>.\<close>

definition delimited :: "char \<Rightarrow> string list \<Rightarrow> bool" where
  "delimited c ps \<longleftrightarrow> list_all (\<lambda>p. p \<noteq> [] \<and> hd p = c) (tl ps)"

lemma fill_starts: "q \<noteq> [] \<Longrightarrow> hd q = c \<Longrightarrow> \<exists>r. fill_pieces (q # ps) args = c # r"
  by (cases q; cases ps; cases args) auto

lemma fill_pieces_inj:
  "delimited c ps \<Longrightarrow> length ps = length xs + 1 \<Longrightarrow> length ys = length xs \<Longrightarrow> c \<notin> \<Union> (set ` set xs) \<Longrightarrow>
   c \<notin> \<Union> (set ` set ys) \<Longrightarrow> fill_pieces ps xs = fill_pieces ps ys \<Longrightarrow> xs = ys"
proof (induction xs arbitrary: ps ys)
  case (Cons x xs)
  obtain p q qs where ps: "ps = p # q # qs" using Cons.prems(2) by (cases ps; cases "tl ps") auto
  obtain y zs where ys: "ys = y # zs" using Cons.prems(3) by (cases ys) auto
  have q: "q \<noteq> []" "hd q = c" using Cons.prems(1) ps by (auto simp: delimited_def)
  obtain r s where rs: "fill_pieces (q # qs) xs = c # r" "fill_pieces (q # qs) zs = c # s"
    using fill_starts [OF q] by metis
  have "x @ c # r = y @ c # s" using Cons.prems(6) ps ys rs by simp
  then have "x = y" "r = s" using split_at_unique [of x c r y s] Cons.prems(4,5) ys by auto
  moreover have "xs = zs"
    by (rule Cons.IH [of "q # qs"]) (use Cons.prems ps ys rs \<open>r = s\<close> in \<open>auto simp: delimited_def\<close>)
  ultimately show ?case using ys by simp
qed simp

end
