(* ===== verification/ErrorMessages.thy ===== *)
theory ErrorMessages
  imports ErrorMessageTable ErrorCodes Format
begin

text \<open>
  Building a status from a message template: \<^verbatim>\<open>N_STATUS\<close> and \<^verbatim>\<open>V_STATUS\<close> of \<^verbatim>\<open>ErrorMessage.h\<close>, which take the error
  code and the template of the same name. \<^verbatim>\<open>fmt::format\<close> is a parameter; what is assumed of it is \<open>fmt_ok\<close>.
\<close>

section \<open>Statuses\<close>

definition find_code :: "string \<Rightarrow> (string \<times> string) list \<Rightarrow> string option" where
  "find_code name cs = map_option fst (List.find (\<lambda>e. snd e = name) cs)"

text \<open>\<^verbatim>\<open>ErrorCode::TYPE\<close>; \<open>None\<close> when there is no such enumerator.\<close>

fun code_named :: "string \<Rightarrow> (ErrorClass \<times> (string \<times> string) list) list \<Rightarrow> uint64 option" where
  "code_named name [] = None"
| "code_named name ((c, cs) # rest) =
     (case find_code name cs of Some sub \<Rightarrow> Some (errorCode c sub) | None \<Rightarrow> code_named name rest)"

text \<open>A name that is not an enumerator or not a template does not compile: \<open>None\<close>. Without arguments the text is
  taken as it is.\<close>

definition N_STATUS :: "string \<Rightarrow> Status option" where
  "N_STATUS name = (case (code_named name ErrorCode_table, map_of ErrorMessage_table name) of
     (Some c, Some t) \<Rightarrow> Some \<lparr>st_code = c, st_message = t\<rparr> | _ \<Rightarrow> None)"

definition V_STATUS :: "(string \<Rightarrow> string list \<Rightarrow> string) \<Rightarrow> string \<Rightarrow> string list \<Rightarrow> Status option" where
  "V_STATUS fmt name args = (if args = [] then N_STATUS name else
     case (code_named name ErrorCode_table, map_of ErrorMessage_table name) of
       (Some c, Some t) \<Rightarrow> Some \<lparr>st_code = c, st_message = fmt t args\<rparr> | _ \<Rightarrow> None)"

text \<open>The message of a status that the readers of \<^verbatim>\<open>BufferReaderWriter.h\<close> return when bytes are missing.\<close>

definition scalar_read_message :: "(string \<Rightarrow> string list \<Rightarrow> string) \<Rightarrow> string \<Rightarrow> string \<Rightarrow> string" where
  "scalar_read_message fmt required left_over = fmt ''Data not enough, %lu required, %lu left'' [required, left_over]"

section \<open>Every template has a code, with two exceptions\<close>

definition uncoded_messages :: "(string \<times> string) list" where
  "uncoded_messages = [([], ''FUNCTION_TRANSFORM_FAILED''), ([], ''MULTI_GET_NODE_ID_FROM_PRIMARY_KEY_FAILED'')]"

text \<open>A section of the header follows the enumeration in runs: \<open>(cs, i, k)\<close> are the \<open>k\<close> names at position \<open>i\<close> of \<open>cs\<close>.\<close>

fun check_runs :: "((string \<times> string) list \<times> nat \<times> nat) list \<Rightarrow> (string \<times> string) list \<Rightarrow> bool" where
  "check_runs [] ms \<longleftrightarrow> ms = []"
| "check_runs ((cs, i, k) # rs) ms \<longleftrightarrow> map fst (take k ms) = map snd (take k (drop i cs)) \<and> check_runs rs (drop k ms)"

lemma check_runs_set: "check_runs rs ms \<Longrightarrow> n \<in> fst ` set ms \<Longrightarrow> \<exists>r \<in> set rs. n \<in> snd ` set (fst r)"
proof (induction rs ms rule: check_runs.induct)
  case (2 cs i k rs ms)
  have "set ms = set (take k ms) \<union> set (drop k ms)" by (metis append_take_drop_id set_append)
  then have "n \<in> set (map fst (take k ms)) \<or> n \<in> fst ` set (drop k ms)" using 2(3) by auto
  moreover have "n \<in> snd ` set cs" if "n \<in> set (map snd (take k (drop i cs)))"
    using that by (auto dest: in_set_takeD in_set_dropD)
  moreover have "map fst (take k ms) = map snd (take k (drop i cs))" "check_runs rs (drop k ms)" using 2(2) by simp_all
  ultimately have "n \<in> snd ` set cs \<or> (\<exists>r \<in> set rs. n \<in> snd ` set (fst r))" using 2(1) by metis
  then show ?case by auto
qed simp

definition has_code :: "string \<Rightarrow> bool" where
  "has_code n \<longleftrightarrow> code_named n ErrorCode_table \<noteq> None"

lemma code_named_iff: "code_named n T \<noteq> None \<longleftrightarrow> (\<exists>cs \<in> snd ` set T. n \<in> snd ` set cs)"
proof (induction n T rule: code_named.induct)
  case (2 n c cs rest)
  have "find_code n cs = None \<longleftrightarrow> n \<notin> snd ` set cs" by (force simp: find_code_def find_None_iff)
  then show ?case using 2 by (cases "find_code n cs") auto
qed simp

abbreviation all_DATA_EXCEPTION :: "(string \<times> string) list" where
  "all_DATA_EXCEPTION \<equiv> codes_DATA_EXCEPTION @ codes_DATA_EXCEPTION_2"

abbreviation all_JOB_ERROR :: "(string \<times> string) list" where
  "all_JOB_ERROR \<equiv> codes_JOB_ERROR @ codes_JOB_ERROR_2"

definition run_ok :: "(string \<times> string) list \<times> nat \<times> nat \<Rightarrow> bool" where
  "run_ok r \<longleftrightarrow> fst r = uncoded_messages \<or> fst r \<in> snd ` set ErrorCode_table"

lemma runs_have_code:
  assumes "check_runs rs ms" "list_all run_ok rs" "n \<in> fst ` set ms"
  shows "has_code n \<or> n \<in> snd ` set uncoded_messages"
proof -
  obtain r where r: "r \<in> set rs" "n \<in> snd ` set (fst r)" using check_runs_set [OF assms(1,3)] by blast
  then have "fst r = uncoded_messages \<or> fst r \<in> snd ` set ErrorCode_table" using assms(2) by (auto simp: list_all_iff run_ok_def)
  then show ?thesis
  proof
    assume "fst r \<in> snd ` set ErrorCode_table"
    then show ?thesis using r(2) unfolding has_code_def code_named_iff by (intro disjI1 bexI)
  qed (use r(2) in simp)
qed

lemma runs_common: "check_runs [(codes_SYNTAX_ERROR_OR_ACCESS_RULE_VIOLATION, 14, 1),
    (codes_STORAGE_ERROR, 15, 1), (codes_STORAGE_ERROR, 17, 1), (codes_DATA_READ_WRITE_ERROR, 0, 1),
    (codes_DATA_READ_WRITE_ERROR, 3, 1), (codes_RUNTIME_ERROR, 42, 2), (codes_DATA_READ_WRITE_ERROR, 7, 1),
    (all_DATA_EXCEPTION, 17, 1)] msgs_COMMON"
  by code_simp

lemma pieces_common: "list_all (\<lambda>m. fmt_pieces (snd m) \<noteq> None) msgs_COMMON"
  by code_simp

lemma runs_unsupported: "check_runs [(codes_UNSUPPORTED, 1, 1)] msgs_UNSUPPORTED"
  by code_simp

lemma pieces_unsupported: "list_all (\<lambda>m. fmt_pieces (snd m) \<noteq> None) msgs_UNSUPPORTED"
  by code_simp

lemma runs_dml: "check_runs [(codes_RUNTIME_ERROR, 29, 1), (codes_RUNTIME_ERROR, 39, 1),
    (codes_RUNTIME_ERROR, 34, 4)] msgs_DML"
  by code_simp

lemma pieces_dml: "list_all (\<lambda>m. fmt_pieces (snd m) \<noteq> None) msgs_DML"
  by code_simp

lemma runs_catalog: "check_runs [(codes_CATALOG_ERROR, 2, 2), (codes_CATALOG_ERROR, 7, 1),
    (codes_CATALOG_ERROR, 21, 1), (codes_CATALOG_ERROR, 4, 2), (codes_CATALOG_ERROR, 8, 1),
    (codes_CATALOG_ERROR, 6, 1), (codes_CATALOG_ERROR, 13, 1), (codes_CATALOG_ERROR, 12, 1),
    (codes_CATALOG_ERROR, 19, 1), (codes_CATALOG_ERROR, 10, 1), (codes_RUNTIME_ERROR, 25, 1),
    (codes_WARNING, 3, 1), (codes_CATALOG_ERROR, 14, 1), (codes_WARNING, 2, 1), (codes_CATALOG_ERROR, 15, 1),
    (codes_RUNTIME_ERROR, 17, 7), (codes_CATALOG_ERROR, 17, 2), (codes_CATALOG_ERROR, 22, 1),
    (codes_CATALOG_ERROR, 29, 1), (codes_CATALOG_ERROR, 28, 1), (codes_CATALOG_ERROR, 1, 1),
    (codes_CATALOG_ERROR, 11, 1), (codes_CATALOG_ERROR, 0, 1), (codes_CATALOG_ERROR, 16, 1),
    (codes_CATALOG_ERROR, 27, 1), (codes_CATALOG_ERROR, 30, 1), (codes_CATALOG_ERROR, 33, 1),
    (codes_CATALOG_ERROR, 25, 1)] msgs_CATALOG"
  by code_simp

lemma pieces_catalog: "list_all (\<lambda>m. fmt_pieces (snd m) \<noteq> None) msgs_CATALOG"
  by code_simp

lemma runs_function: "check_runs [(all_DATA_EXCEPTION, 2, 1), (all_DATA_EXCEPTION, 12, 1),
    (all_DATA_EXCEPTION, 8, 1), (all_DATA_EXCEPTION, 42, 2), (all_DATA_EXCEPTION, 10, 1),
    (all_DATA_EXCEPTION, 22, 1), (codes_RUNTIME_ERROR, 3, 1), (all_DATA_EXCEPTION, 7, 1),
    (all_DATA_EXCEPTION, 4, 1), (all_DATA_EXCEPTION, 6, 1), (codes_RUNTIME_ERROR, 4, 2),
    (all_DATA_EXCEPTION, 44, 1), (codes_RUNTIME_ERROR, 6, 5), (codes_RUNTIME_ERROR, 13, 1),
    (codes_RUNTIME_ERROR, 15, 1), (codes_RUNTIME_ERROR, 11, 1), (codes_RUNTIME_ERROR, 14, 1),
    (uncoded_messages, 0, 1)] msgs_FUNCTION"
  by code_simp

lemma pieces_function: "list_all (\<lambda>m. fmt_pieces (snd m) \<noteq> None) msgs_FUNCTION"
  by code_simp

lemma runs_semantic: "check_runs [(codes_SEMANTIC_ERROR, 1, 7), (codes_SEMANTIC_ERROR, 10, 5),
    (codes_SEMANTIC_ERROR, 8, 2), (codes_SEMANTIC_ERROR, 19, 2), (codes_SEMANTIC_ERROR, 15, 4),
    (codes_SEMANTIC_ERROR, 21, 15)] msgs_SEMANTIC"
  by code_simp

lemma pieces_semantic: "list_all (\<lambda>m. fmt_pieces (snd m) \<noteq> None) msgs_SEMANTIC"
  by code_simp

lemma runs_syntax: "check_runs [(codes_SYNTAX_ERROR_OR_ACCESS_RULE_VIOLATION, 15, 33),
    (codes_SYNTAX_ERROR_OR_ACCESS_RULE_VIOLATION, 49, 2),
    (codes_SYNTAX_ERROR_OR_ACCESS_RULE_VIOLATION, 48, 1)] msgs_SYNTAX"
  by code_simp

lemma pieces_syntax: "list_all (\<lambda>m. fmt_pieces (snd m) \<noteq> None) msgs_SYNTAX"
  by code_simp

lemma runs_mutate: "check_runs [(codes_DEPENDENT_OBJECT_ERROR, 0, 1), (codes_RUNTIME_ERROR, 30, 4),
    (uncoded_messages, 1, 1), (codes_RUNTIME_ERROR, 27, 2), (codes_RUNTIME_ERROR, 38, 1),
    (codes_DATA_READ_WRITE_ERROR, 1, 2), (codes_RUNTIME_ERROR, 24, 1)] msgs_MUTATE"
  by code_simp

lemma pieces_mutate: "list_all (\<lambda>m. fmt_pieces (snd m) \<noteq> None) msgs_MUTATE"
  by code_simp

lemma runs_storage: "check_runs [(codes_INVALID_PARAMETER, 9, 3), (codes_DATA_READ_WRITE_ERROR, 4, 1),
    (codes_STORAGE_ERROR, 0, 4), (codes_STORAGE_ERROR, 5, 1), (codes_STORAGE_ERROR, 4, 1),
    (codes_STORAGE_ERROR, 10, 2), (codes_STORAGE_ERROR, 8, 1), (codes_STORAGE_ERROR, 7, 1),
    (codes_STORAGE_ERROR, 6, 1), (codes_STORAGE_ERROR, 12, 2), (codes_KVSTORE_ERROR, 13, 1),
    (codes_KVSTORE_ERROR, 15, 1), (codes_KVSTORE_ERROR, 12, 1), (codes_KVSTORE_ERROR, 8, 1),
    (codes_KVSTORE_ERROR, 2, 1), (codes_KVSTORE_ERROR, 1, 1), (codes_KVSTORE_ERROR, 9, 3),
    (codes_KVSTORE_ERROR, 0, 1), (codes_KVSTORE_ERROR, 4, 1), (codes_KVSTORE_ERROR, 3, 1),
    (codes_KVSTORE_ERROR, 5, 3), (codes_KVSTORE_ERROR, 16, 2), (codes_RAFT_ERROR, 15, 1),
    (codes_RAFT_ERROR, 0, 1), (codes_RAFT_ERROR, 12, 1)] msgs_STORAGE"
  by code_simp

lemma pieces_storage: "list_all (\<lambda>m. fmt_pieces (snd m) \<noteq> None) msgs_STORAGE"
  by code_simp

lemma runs_configuration: "check_runs [(codes_INVALID_PARAMETER, 12, 9)] msgs_CONFIGURATION"
  by code_simp

lemma pieces_configuration: "list_all (\<lambda>m. fmt_pieces (snd m) \<noteq> None) msgs_CONFIGURATION"
  by code_simp

lemma runs_procedure: "check_runs [(codes_PLUGIN_ERROR, 8, 1), (codes_PLUGIN_ERROR, 10, 8),
    (codes_STORAGE_ERROR, 16, 1), (codes_METADATA_ERROR, 36, 1)] msgs_PROCEDURE"
  by code_simp

lemma pieces_procedure: "list_all (\<lambda>m. fmt_pieces (snd m) \<noteq> None) msgs_PROCEDURE"
  by code_simp

lemma runs_meta: "check_runs [(codes_INVALID_PARAMETER, 0, 2), (codes_METADATA_ERROR, 3, 1),
    (codes_METADATA_ERROR, 15, 1), (codes_INVALID_PARAMETER, 2, 1), (codes_METADATA_ERROR, 16, 2),
    (codes_INVALID_PARAMETER, 4, 4), (codes_METADATA_ERROR, 18, 5), (codes_INVALID_PARAMETER, 3, 1),
    (codes_INVALID_PARAMETER, 8, 1), (codes_METADATA_ERROR, 10, 1), (codes_METADATA_ERROR, 0, 2),
    (codes_METADATA_ERROR, 23, 1), (codes_METADATA_ERROR, 5, 1), (codes_METADATA_ERROR, 24, 4),
    (codes_METADATA_ERROR, 9, 1), (codes_METADATA_ERROR, 8, 1), (codes_METADATA_ERROR, 6, 1),
    (codes_METADATA_ERROR, 28, 2), (codes_METADATA_ERROR, 7, 1), (codes_METADATA_ERROR, 30, 2),
    (codes_METADATA_ERROR, 13, 2), (codes_METADATA_ERROR, 37, 3)] msgs_META"
  by code_simp

lemma pieces_meta: "list_all (\<lambda>m. fmt_pieces (snd m) \<noteq> None) msgs_META"
  by code_simp

lemma runs_unsupported_2: "check_runs [(codes_UNSUPPORTED, 0, 1), (codes_UNSUPPORTED, 2, 8),
    (codes_UNSUPPORTED, 20, 1), (codes_UNSUPPORTED, 10, 4), (codes_UNSUPPORTED, 18, 2),
    (codes_UNSUPPORTED, 15, 3), (codes_UNSUPPORTED, 21, 3)] msgs_UNSUPPORTED_2"
  by code_simp

lemma pieces_unsupported_2: "list_all (\<lambda>m. fmt_pieces (snd m) \<noteq> None) msgs_UNSUPPORTED_2"
  by code_simp

lemma runs_session: "check_runs [(codes_RUNTIME_ERROR, 46, 1), (codes_RUNTIME_ERROR, 48, 2),
    (codes_RUNTIME_ERROR, 44, 1), (codes_RUNTIME_ERROR, 47, 1), (codes_RUNTIME_ERROR, 45, 1)] msgs_SESSION"
  by code_simp

lemma pieces_session: "list_all (\<lambda>m. fmt_pieces (snd m) \<noteq> None) msgs_SESSION"
  by code_simp

lemma runs_authorization_runtime_error: "check_runs [(codes_RUNTIME_ERROR, 50, 8)] msgs_AUTHORIZATION_RUNTIME_ERROR"
  by code_simp

lemma pieces_authorization_runtime_error: "list_all (\<lambda>m. fmt_pieces (snd m) \<noteq> None) msgs_AUTHORIZATION_RUNTIME_ERROR"
  by code_simp

lemma runs_graph_computing: "check_runs [(codes_GRAPH_COMPUTE_ERROR, 0, 1)] msgs_GRAPH_COMPUTING"
  by code_simp

lemma pieces_graph_computing: "list_all (\<lambda>m. fmt_pieces (snd m) \<noteq> None) msgs_GRAPH_COMPUTING"
  by code_simp

lemma runs_job: "check_runs [(all_JOB_ERROR, 0, 1)] msgs_JOB"
  by code_simp

lemma pieces_job: "list_all (\<lambda>m. fmt_pieces (snd m) \<noteq> None) msgs_JOB"
  by code_simp

lemma runs_plugin: "check_runs [(codes_PLUGIN_ERROR, 1, 7)] msgs_PLUGIN"
  by code_simp

lemma pieces_plugin: "list_all (\<lambda>m. fmt_pieces (snd m) \<noteq> None) msgs_PLUGIN"
  by code_simp

lemma runs_module: "check_runs [(codes_PLUGIN_ERROR, 20, 8), (codes_PLUGIN_ERROR, 30, 1),
    (codes_PLUGIN_ERROR, 28, 2)] msgs_MODULE"
  by code_simp

lemma pieces_module: "list_all (\<lambda>m. fmt_pieces (snd m) \<noteq> None) msgs_MODULE"
  by code_simp

lemma runs_authenticate: "check_runs [(codes_AUTHENTICATE_ERROR, 0, 12)] msgs_AUTHENTICATE"
  by code_simp

lemma pieces_authenticate: "list_all (\<lambda>m. fmt_pieces (snd m) \<noteq> None) msgs_AUTHENTICATE"
  by code_simp

lemma runs_authorization: "check_runs [(codes_AUTHORIZE_ERROR, 0, 9)] msgs_AUTHORIZATION"
  by code_simp

lemma pieces_authorization: "list_all (\<lambda>m. fmt_pieces (snd m) \<noteq> None) msgs_AUTHORIZATION"
  by code_simp

lemma runs_session_2: "check_runs [(codes_SESSION_ERROR, 1, 3)] msgs_SESSION_2"
  by code_simp

lemma pieces_session_2: "list_all (\<lambda>m. fmt_pieces (snd m) \<noteq> None) msgs_SESSION_2"
  by code_simp

lemma runs_rpc: "check_runs [(codes_RPC_ERROR, 5, 1)] msgs_RPC"
  by code_simp

lemma pieces_rpc: "list_all (\<lambda>m. fmt_pieces (snd m) \<noteq> None) msgs_RPC"
  by code_simp

lemma runs_system: "check_runs [(codes_SYSTEM_ERROR, 23, 1), (codes_SYSTEM_ERROR, 13, 5),
    (codes_SYSTEM_ERROR, 1, 1), (codes_UNKNOWN, 0, 1), (codes_RUNTIME_ERROR, 40, 2),
    (codes_SYSTEM_ERROR, 19, 4), (codes_SYSTEM_ERROR, 4, 9), (codes_SYSTEM_ERROR, 24, 11),
    (all_JOB_ERROR, 1, 7)] msgs_SYSTEM"
  by code_simp

lemma pieces_system: "list_all (\<lambda>m. fmt_pieces (snd m) \<noteq> None) msgs_SYSTEM"
  by code_simp

lemma runs_optimizer: "check_runs [(codes_OPTIMIZER_ERROR, 0, 1), (codes_BACKUP_ERROR, 0, 11)] msgs_OPTIMIZER"
  by code_simp

lemma pieces_optimizer: "list_all (\<lambda>m. fmt_pieces (snd m) \<noteq> None) msgs_OPTIMIZER"
  by code_simp

lemmas message_pieces =
  pieces_common pieces_unsupported pieces_dml pieces_catalog pieces_function
  pieces_semantic pieces_syntax pieces_mutate pieces_storage pieces_configuration
  pieces_procedure pieces_meta pieces_unsupported_2 pieces_session pieces_authorization_runtime_error
  pieces_graph_computing pieces_job pieces_plugin pieces_module pieces_authenticate
  pieces_authorization pieces_session_2 pieces_rpc pieces_system pieces_optimizer

text \<open>The runs of each section, over the codes of the enumeration.\<close>

lemma coded_common: "n \<in> fst ` set msgs_COMMON \<Longrightarrow> has_code n \<or> n \<in> snd ` set uncoded_messages"
  by (rule runs_have_code [OF runs_common]) (simp_all add: run_ok_def ErrorCode_table_def)

lemma coded_unsupported: "n \<in> fst ` set msgs_UNSUPPORTED \<Longrightarrow> has_code n \<or> n \<in> snd ` set uncoded_messages"
  by (rule runs_have_code [OF runs_unsupported]) (simp_all add: run_ok_def ErrorCode_table_def)

lemma coded_dml: "n \<in> fst ` set msgs_DML \<Longrightarrow> has_code n \<or> n \<in> snd ` set uncoded_messages"
  by (rule runs_have_code [OF runs_dml]) (simp_all add: run_ok_def ErrorCode_table_def)

lemma coded_catalog: "n \<in> fst ` set msgs_CATALOG \<Longrightarrow> has_code n \<or> n \<in> snd ` set uncoded_messages"
  by (rule runs_have_code [OF runs_catalog]) (simp_all add: run_ok_def ErrorCode_table_def)

lemma coded_function: "n \<in> fst ` set msgs_FUNCTION \<Longrightarrow> has_code n \<or> n \<in> snd ` set uncoded_messages"
  by (rule runs_have_code [OF runs_function]) (simp_all add: run_ok_def ErrorCode_table_def)

lemma coded_semantic: "n \<in> fst ` set msgs_SEMANTIC \<Longrightarrow> has_code n \<or> n \<in> snd ` set uncoded_messages"
  by (rule runs_have_code [OF runs_semantic]) (simp_all add: run_ok_def ErrorCode_table_def)

lemma coded_syntax: "n \<in> fst ` set msgs_SYNTAX \<Longrightarrow> has_code n \<or> n \<in> snd ` set uncoded_messages"
  by (rule runs_have_code [OF runs_syntax]) (simp_all add: run_ok_def ErrorCode_table_def)

lemma coded_mutate: "n \<in> fst ` set msgs_MUTATE \<Longrightarrow> has_code n \<or> n \<in> snd ` set uncoded_messages"
  by (rule runs_have_code [OF runs_mutate]) (simp_all add: run_ok_def ErrorCode_table_def)

lemma coded_storage: "n \<in> fst ` set msgs_STORAGE \<Longrightarrow> has_code n \<or> n \<in> snd ` set uncoded_messages"
  by (rule runs_have_code [OF runs_storage]) (simp_all add: run_ok_def ErrorCode_table_def)

lemma coded_configuration: "n \<in> fst ` set msgs_CONFIGURATION \<Longrightarrow> has_code n \<or> n \<in> snd ` set uncoded_messages"
  by (rule runs_have_code [OF runs_configuration]) (simp_all add: run_ok_def ErrorCode_table_def)

lemma coded_procedure: "n \<in> fst ` set msgs_PROCEDURE \<Longrightarrow> has_code n \<or> n \<in> snd ` set uncoded_messages"
  by (rule runs_have_code [OF runs_procedure]) (simp_all add: run_ok_def ErrorCode_table_def)

lemma coded_meta: "n \<in> fst ` set msgs_META \<Longrightarrow> has_code n \<or> n \<in> snd ` set uncoded_messages"
  by (rule runs_have_code [OF runs_meta]) (simp_all add: run_ok_def ErrorCode_table_def)

lemma coded_unsupported_2: "n \<in> fst ` set msgs_UNSUPPORTED_2 \<Longrightarrow> has_code n \<or> n \<in> snd ` set uncoded_messages"
  by (rule runs_have_code [OF runs_unsupported_2]) (simp_all add: run_ok_def ErrorCode_table_def)

lemma coded_session: "n \<in> fst ` set msgs_SESSION \<Longrightarrow> has_code n \<or> n \<in> snd ` set uncoded_messages"
  by (rule runs_have_code [OF runs_session]) (simp_all add: run_ok_def ErrorCode_table_def)

lemma coded_authorization_runtime_error: "n \<in> fst ` set msgs_AUTHORIZATION_RUNTIME_ERROR \<Longrightarrow> has_code n \<or> n \<in> snd ` set uncoded_messages"
  by (rule runs_have_code [OF runs_authorization_runtime_error]) (simp_all add: run_ok_def ErrorCode_table_def)

lemma coded_graph_computing: "n \<in> fst ` set msgs_GRAPH_COMPUTING \<Longrightarrow> has_code n \<or> n \<in> snd ` set uncoded_messages"
  by (rule runs_have_code [OF runs_graph_computing]) (simp_all add: run_ok_def ErrorCode_table_def)

lemma coded_job: "n \<in> fst ` set msgs_JOB \<Longrightarrow> has_code n \<or> n \<in> snd ` set uncoded_messages"
  by (rule runs_have_code [OF runs_job]) (simp_all add: run_ok_def ErrorCode_table_def)

lemma coded_plugin: "n \<in> fst ` set msgs_PLUGIN \<Longrightarrow> has_code n \<or> n \<in> snd ` set uncoded_messages"
  by (rule runs_have_code [OF runs_plugin]) (simp_all add: run_ok_def ErrorCode_table_def)

lemma coded_module: "n \<in> fst ` set msgs_MODULE \<Longrightarrow> has_code n \<or> n \<in> snd ` set uncoded_messages"
  by (rule runs_have_code [OF runs_module]) (simp_all add: run_ok_def ErrorCode_table_def)

lemma coded_authenticate: "n \<in> fst ` set msgs_AUTHENTICATE \<Longrightarrow> has_code n \<or> n \<in> snd ` set uncoded_messages"
  by (rule runs_have_code [OF runs_authenticate]) (simp_all add: run_ok_def ErrorCode_table_def)

lemma coded_authorization: "n \<in> fst ` set msgs_AUTHORIZATION \<Longrightarrow> has_code n \<or> n \<in> snd ` set uncoded_messages"
  by (rule runs_have_code [OF runs_authorization]) (simp_all add: run_ok_def ErrorCode_table_def)

lemma coded_session_2: "n \<in> fst ` set msgs_SESSION_2 \<Longrightarrow> has_code n \<or> n \<in> snd ` set uncoded_messages"
  by (rule runs_have_code [OF runs_session_2]) (simp_all add: run_ok_def ErrorCode_table_def)

lemma coded_rpc: "n \<in> fst ` set msgs_RPC \<Longrightarrow> has_code n \<or> n \<in> snd ` set uncoded_messages"
  by (rule runs_have_code [OF runs_rpc]) (simp_all add: run_ok_def ErrorCode_table_def)

lemma coded_system: "n \<in> fst ` set msgs_SYSTEM \<Longrightarrow> has_code n \<or> n \<in> snd ` set uncoded_messages"
  by (rule runs_have_code [OF runs_system]) (simp_all add: run_ok_def ErrorCode_table_def)

lemma coded_optimizer: "n \<in> fst ` set msgs_OPTIMIZER \<Longrightarrow> has_code n \<or> n \<in> snd ` set uncoded_messages"
  by (rule runs_have_code [OF runs_optimizer]) (simp_all add: run_ok_def ErrorCode_table_def)

lemmas message_coded =
  coded_common coded_unsupported coded_dml coded_catalog coded_function
  coded_semantic coded_syntax coded_mutate coded_storage coded_configuration
  coded_procedure coded_meta coded_unsupported_2 coded_session coded_authorization_runtime_error
  coded_graph_computing coded_job coded_plugin coded_module coded_authenticate
  coded_authorization coded_session_2 coded_rpc coded_system coded_optimizer

lemma message_has_code:
  assumes "n \<in> fst ` set ErrorMessage_table" "n \<notin> snd ` set uncoded_messages"
  shows "has_code n"
  using assms message_coded [of n] unfolding ErrorMessage_table_def set_append image_Un Un_iff by (elim disjE) simp_all

lemma message_parses: "(n, t) \<in> set ErrorMessage_table \<Longrightarrow> fmt_pieces t \<noteq> None"
proof -
  have "list_all (\<lambda>m. fmt_pieces (snd m) \<noteq> None) ErrorMessage_table"
    unfolding ErrorMessage_table_def list_all_append by (intro conjI message_pieces)
  then show "(n, t) \<in> set ErrorMessage_table \<Longrightarrow> fmt_pieces t \<noteq> None" unfolding list_all_iff by force
qed

section \<open>Properties\<close>

text \<open>Claim C28. \<^verbatim>\<open>V_STATUS\<close> is defined for every template of the header but two, whose names are no error codes; it
  gives the code of that name, and as message the template with its placeholders filled by the arguments
  in order, when there are enough of them.\<close>

theorem v_status_text:
  assumes "fmt_ok fmt" "map_of ErrorMessage_table name = Some t"
    "name \<noteq> ''FUNCTION_TRANSFORM_FAILED''" "name \<noteq> ''MULTI_GET_NODE_ID_FROM_PRIMARY_KEY_FAILED''" "args \<noteq> []"
  shows "\<exists>ps c. fmt_pieces t = Some ps \<and> code_named name ErrorCode_table = Some c
    \<and> (length ps \<le> length args + 1 \<longrightarrow>
        V_STATUS fmt name args = Some \<lparr>st_code = c, st_message = fill_pieces ps args\<rparr>)"
proof -
  have m: "(name, t) \<in> set ErrorMessage_table" using assms(2) by (rule map_of_SomeD)
  then have "name \<in> fst ` set ErrorMessage_table" by force
  moreover have "name \<notin> snd ` set uncoded_messages" using assms(3,4) by (simp add: uncoded_messages_def)
  ultimately obtain c where "code_named name ErrorCode_table = Some c"
    using message_has_code [of name] by (auto simp: has_code_def)
  then show ?thesis using message_parses [OF m] assms(1,2,5) by (auto simp: V_STATUS_def fmt_ok_def)
qed

lemma property_message: "map_of ErrorMessage_table ''PROPERTY_NOT_FOUND'' = Some ''Property `{}` of type `{}` not found''"
proof -
  have "map_of msgs_COMMON ''PROPERTY_NOT_FOUND'' = Some ''Property `{}` of type `{}` not found''" by code_simp
  then show ?thesis unfolding ErrorMessage_table_def map_of_append by (rule map_add_find_right)
qed

theorem v_status_text_witness:
  "\<exists>c. V_STATUS fmt_ref ''PROPERTY_NOT_FOUND'' [''age'', ''Person'']
     = Some \<lparr>st_code = c, st_message = ''Property `age` of type `Person` not found''\<rparr>"
  using v_status_text [OF fmt_ref_ok property_message, of "[''age'', ''Person'']"]
  by auto

text \<open>The two templates that have no code: a status made from them does not compile.\<close>

theorem uncoded_templates:
  "V_STATUS fmt ''FUNCTION_TRANSFORM_FAILED'' args = None
   \<and> V_STATUS fmt ''MULTI_GET_NODE_ID_FROM_PRIMARY_KEY_FAILED'' args = None"
proof -
  have "code_named ''FUNCTION_TRANSFORM_FAILED'' ErrorCode_table = None" by code_simp
  moreover have "code_named ''MULTI_GET_NODE_ID_FROM_PRIMARY_KEY_FAILED'' ErrorCode_table = None" by code_simp
  ultimately show ?thesis by (simp add: V_STATUS_def N_STATUS_def)
qed

text \<open>The readers write \<^verbatim>\<open>printf\<close> conversions into a template of \<^verbatim>\<open>fmt\<close>, so their message does not show the
  numbers.\<close>

theorem read_error_numbers_lost:
  assumes "fmt_ok fmt"
  shows "scalar_read_message fmt required left_over = ''Data not enough, %lu required, %lu left''"
proof -
  have "fmt_pieces ''Data not enough, %lu required, %lu left'' = Some [''Data not enough, %lu required, %lu left'']"
    by code_simp
  then show ?thesis using assms by (simp add: fmt_ok_def scalar_read_message_def)
qed

end
