(* ===== verification/Results.thy ===== *)
theory Results
  imports ErrorCodes Wire
begin

text \<open>
  Values or failures: \<^verbatim>\<open>StatusOr\<close> of \<^verbatim>\<open>src/include/nebula/common/base/StatusOr.h\<close>, \<^verbatim>\<open>Result\<close> of \<^verbatim>\<open>Result.h\<close>, \<^verbatim>\<open>Error\<close> of
  \<^verbatim>\<open>Error.h\<close>, and the macros of \<^verbatim>\<open>Status.h\<close> that pass failures on. The variant of a value and a failure is a sum,
  \<open>Inr\<close> the value. A failed \<^verbatim>\<open>CHECK\<close> is \<open>None\<close>.
\<close>

section \<open>Error\<close>

definition Error_eq :: "Error \<Rightarrow> Error \<Rightarrow> bool" where
  "Error_eq l r \<longleftrightarrow> code l = code r \<and> message l = message r"

definition Error_less :: "Error \<Rightarrow> Error \<Rightarrow> bool" where
  "Error_less l r = (if code l < code r then True else if code l > code r then False
     else str_less (message l) (message r))"

definition Error_clear :: "Error \<Rightarrow> Error" where
  "Error_clear e = e\<lparr>code := errorCode UNKNOWN ''000'', message := []\<rparr>"

interpretation error_order: comparison Error_less Error_eq
proof unfold_locales
  fix a b c :: Error
  show "Error_eq a b \<Longrightarrow> \<not> Error_less a b"
    using string_order.less_asym [of "message a" "message a"] by (auto simp: Error_eq_def Error_less_def)
  show "Error_less a b \<Longrightarrow> Error_less b c \<Longrightarrow> Error_less a c"
    using string_order.less_trans [of "message a" "message b" "message c"]
    by (auto simp: Error_less_def split: if_splits)
  show "\<not> Error_less a b \<Longrightarrow> \<not> Error_eq a b \<Longrightarrow> Error_less b a"
    using string_order.less_total [of "message a" "message b"]
    by (auto simp: Error_less_def Error_eq_def split: if_splits)
qed (auto simp: Error_eq_def)

section \<open>Variants\<close>

text \<open>The relational operators of \<^verbatim>\<open>std::variant\<close>: the alternative first, and the value is the first one.\<close>

fun variant_eq :: "('v \<Rightarrow> 'v \<Rightarrow> bool) \<Rightarrow> ('f \<Rightarrow> 'f \<Rightarrow> bool) \<Rightarrow> 'f + 'v \<Rightarrow> 'f + 'v \<Rightarrow> bool" where
  "variant_eq ve fe (Inr x) (Inr y) = ve x y"
| "variant_eq ve fe (Inl x) (Inl y) = fe x y"
| "variant_eq ve fe _ _ = False"

fun variant_less :: "('v \<Rightarrow> 'v \<Rightarrow> bool) \<Rightarrow> ('f \<Rightarrow> 'f \<Rightarrow> bool) \<Rightarrow> 'f + 'v \<Rightarrow> 'f + 'v \<Rightarrow> bool" where
  "variant_less vl fl (Inr x) (Inr y) = vl x y"
| "variant_less vl fl (Inl x) (Inl y) = fl x y"
| "variant_less vl fl (Inr x) (Inl y) = True"
| "variant_less vl fl (Inl x) (Inr y) = False"

lemma variant_comparison:
  assumes v: "comparison vl ve" and f: "comparison fl fe"
  shows "comparison (variant_less vl fl) (variant_eq ve fe)"
proof
  fix a b c :: "'b + 'a"
  show "variant_eq ve fe a a" by (cases a) (simp_all add: comparison.eq_refl [OF v] comparison.eq_refl [OF f])
  show "variant_eq ve fe a b \<Longrightarrow> variant_eq ve fe b a"
    by (cases a; cases b) (simp_all add: comparison.eq_sym [OF v] comparison.eq_sym [OF f])
  show "variant_eq ve fe a b \<Longrightarrow> variant_eq ve fe b c \<Longrightarrow> variant_eq ve fe a c"
    by (cases a; cases b; cases c)
      (auto intro: comparison.eq_trans [OF v] comparison.eq_trans [OF f])
  show "variant_eq ve fe a b \<Longrightarrow> \<not> variant_less vl fl a b"
    by (cases a; cases b) (simp_all add: comparison.eq_not_less [OF v] comparison.eq_not_less [OF f])
  show "variant_less vl fl a b \<Longrightarrow> variant_less vl fl b c \<Longrightarrow> variant_less vl fl a c"
    by (cases a; cases b; cases c) (auto intro: comparison.less_trans [OF v] comparison.less_trans [OF f])
  show "\<not> variant_less vl fl a b \<Longrightarrow> \<not> variant_eq ve fe a b \<Longrightarrow> variant_less vl fl b a"
    by (cases a; cases b) (auto intro: comparison.less_total [OF v] comparison.less_total [OF f])
qed

section \<open>StatusOr\<close>

type_synonym 'v StatusOr = "Status + 'v"

definition StatusOr_value :: "'v \<Rightarrow> 'v StatusOr" where
  "StatusOr_value data = Inr data"

definition StatusOr_status :: "Status \<Rightarrow> 'v StatusOr" where
  "StatusOr_status err = Inl err"

definition StatusOr_code :: "uint64 \<Rightarrow> string \<Rightarrow> 'v StatusOr" where
  "StatusOr_code c m = Inl \<lparr>st_code = c, st_message = m\<rparr>"

definition so_ok :: "'v StatusOr \<Rightarrow> bool" where
  "so_ok x \<longleftrightarrow> (case x of Inr _ \<Rightarrow> True | Inl _ \<Rightarrow> False)"

definition so_value :: "'v StatusOr \<Rightarrow> 'v option" where
  "so_value x = (case x of Inr v \<Rightarrow> Some v | Inl _ \<Rightarrow> None)"

definition so_status :: "'v StatusOr \<Rightarrow> Status option" where
  "so_status x = (case x of Inl s \<Rightarrow> Some s | Inr _ \<Rightarrow> None)"

definition so_code :: "'v StatusOr \<Rightarrow> uint64 option" where
  "so_code x = map_option st_code (so_status x)"

definition so_message :: "'v StatusOr \<Rightarrow> string option" where
  "so_message x = map_option st_message (so_status x)"

definition so_toString :: "'v StatusOr \<Rightarrow> string" where
  "so_toString x = (case x of Inr _ \<Rightarrow> ''Ok'' | Inl s \<Rightarrow> Status_toString s)"

definition so_clear :: "'v \<Rightarrow> 'v StatusOr \<Rightarrow> 'v StatusOr" where
  "so_clear dflt x = Inr dflt"

definition StatusOr_eq :: "('v \<Rightarrow> 'v \<Rightarrow> bool) \<Rightarrow> 'v StatusOr \<Rightarrow> 'v StatusOr \<Rightarrow> bool" where
  "StatusOr_eq ve = variant_eq ve Status_eq"

definition StatusOr_less :: "('v \<Rightarrow> 'v \<Rightarrow> bool) \<Rightarrow> 'v StatusOr \<Rightarrow> 'v StatusOr \<Rightarrow> bool" where
  "StatusOr_less vl = variant_less vl Status_less"

text \<open>The branch of \<^verbatim>\<open>operator<\<close> for \<^verbatim>\<open>folly::Unit\<close>.\<close>

definition StatusOr_less_Unit :: "unit StatusOr \<Rightarrow> unit StatusOr \<Rightarrow> bool" where
  "StatusOr_less_Unit l r = (case (so_status l, so_status r) of (Some s, Some t) \<Rightarrow> Status_less s t | _ \<Rightarrow> False)"

section \<open>Result\<close>

definition res_ok :: "Error + 'v \<Rightarrow> bool" where
  "res_ok x \<longleftrightarrow> (case x of Inr _ \<Rightarrow> True | Inl _ \<Rightarrow> False)"

definition isError :: "Error + 'v \<Rightarrow> bool" where
  "isError x \<longleftrightarrow> \<not> res_ok x"

definition res_value :: "Error + 'v \<Rightarrow> 'v option" where
  "res_value x = (case x of Inr v \<Rightarrow> Some v | Inl _ \<Rightarrow> None)"

definition res_error :: "Error + 'v \<Rightarrow> Error option" where
  "res_error x = (case x of Inl e \<Rightarrow> Some e | Inr _ \<Rightarrow> None)"

definition res_code :: "Error + 'v \<Rightarrow> uint64 option" where
  "res_code x = map_option code (res_error x)"

definition res_message :: "Error + 'v \<Rightarrow> string option" where
  "res_message x = map_option message (res_error x)"

text \<open>\<^verbatim>\<open>Error::toString\<close> is only declared: a parameter.\<close>

definition res_toString :: "(Error \<Rightarrow> string) \<Rightarrow> Error + 'v \<Rightarrow> string" where
  "res_toString error_text x = (case x of Inr _ \<Rightarrow> ''Ok'' | Inl e \<Rightarrow> ''Err('' @ error_text e @ '')'')"

definition res_clear :: "'v \<Rightarrow> Error + 'v \<Rightarrow> Error + 'v" where
  "res_clear dflt x = Inr dflt"

definition Result_eq :: "('v \<Rightarrow> 'v \<Rightarrow> bool) \<Rightarrow> Error + 'v \<Rightarrow> Error + 'v \<Rightarrow> bool" where
  "Result_eq ve = variant_eq ve Error_eq"

definition Result_less :: "('v \<Rightarrow> 'v \<Rightarrow> bool) \<Rightarrow> Error + 'v \<Rightarrow> Error + 'v \<Rightarrow> bool" where
  "Result_less vl = variant_less vl Error_less"

definition Result_less_Unit :: "Error + unit \<Rightarrow> Error + unit \<Rightarrow> bool" where
  "Result_less_Unit l r = (case (res_error l, res_error r) of (Some s, Some t) \<Rightarrow> Error_less s t | _ \<Rightarrow> False)"

interpretation result_order: comparison "Result_less (<)" "Result_eq (=) :: Error + 'v::linorder \<Rightarrow> Error + 'v \<Rightarrow> bool"
  unfolding Result_less_def Result_eq_def
  by (rule variant_comparison [OF _ error_order.comparison_axioms]) (unfold_locales, auto)

interpretation status_or_order: comparison "StatusOr_less (<)" "StatusOr_eq (=) :: 'v::linorder StatusOr \<Rightarrow> 'v StatusOr \<Rightarrow> bool"
  unfolding StatusOr_less_def StatusOr_eq_def
  by (rule variant_comparison [OF _ status_order.comparison_axioms]) (unfold_locales, auto)

section \<open>Passing failures on\<close>

text \<open>What the caller of a function that runs the macro gets: \<open>Inl\<close> is the value of the \<^verbatim>\<open>return\<close> in the macro or the
  failure inside the exception that it throws, \<open>Inr\<close> that the statement after the macro is reached. \<open>stat\<close> and
  \<open>ok\<close> are \<^verbatim>\<open>status()\<close> and \<^verbatim>\<open>ok()\<close> of the type of the argument; \<open>None\<close> is a failed \<^verbatim>\<open>CHECK\<close>.\<close>

datatype ('f, 'a) flow = Return 'f | Throw 'f | Continue 'a

definition NG_RETURN_IF_ERROR :: "('t \<Rightarrow> bool) \<Rightarrow> ('t \<Rightarrow> 'f option) \<Rightarrow> 't \<Rightarrow> ('f, unit) flow option" where
  "NG_RETURN_IF_ERROR ok stat T = (if \<not> ok T then map_option Return (stat T) else Some (Continue ()))"

definition NG_THROW_IF_ERROR :: "('t \<Rightarrow> bool) \<Rightarrow> ('t \<Rightarrow> 'f option) \<Rightarrow> 't \<Rightarrow> ('f, unit) flow option" where
  "NG_THROW_IF_ERROR ok stat T = (if \<not> ok T then map_option Throw (stat T) else Some (Continue ()))"

definition NG_ASSIGN_OR_RETURN :: "'v StatusOr \<Rightarrow> (Status, 'v) flow option" where
  "NG_ASSIGN_OR_RETURN rexpr = Option.bind (NG_RETURN_IF_ERROR so_ok so_status rexpr)
     (\<lambda>f. case f of Return s \<Rightarrow> Some (Return s) | Throw s \<Rightarrow> Some (Throw s)
       | Continue _ \<Rightarrow> map_option Continue (so_value rexpr))"

definition NG_ASSIGN_OR_THROW :: "'v StatusOr \<Rightarrow> (Status, 'v) flow option" where
  "NG_ASSIGN_OR_THROW rexpr = Option.bind (NG_THROW_IF_ERROR so_ok so_status rexpr)
     (\<lambda>f. case f of Return s \<Rightarrow> Some (Return s) | Throw s \<Rightarrow> Some (Throw s)
       | Continue _ \<Rightarrow> map_option Continue (so_value rexpr))"

definition RES_RETURN_IF_ERROR :: "Error + 'v \<Rightarrow> (Error, unit) flow option" where
  "RES_RETURN_IF_ERROR T = (if \<not> res_ok T then map_option Return (res_error T) else Some (Continue ()))"

definition RES_THROW_IF_ERROR :: "Error + 'v \<Rightarrow> (Error, unit) flow option" where
  "RES_THROW_IF_ERROR T = (if \<not> res_ok T then map_option Throw (res_error T) else Some (Continue ()))"

text \<open>A function \<open>v = rexpr or return; return g(v)\<close> of type \<^verbatim>\<open>StatusOr\<close>.\<close>

definition assign_then :: "'v StatusOr \<Rightarrow> ('v \<Rightarrow> 'w StatusOr option) \<Rightarrow> 'w StatusOr option" where
  "assign_then rexpr g = Option.bind (NG_ASSIGN_OR_RETURN rexpr) (\<lambda>f. case f of
     Return s \<Rightarrow> Some (StatusOr_status s) | Throw s \<Rightarrow> None | Continue v \<Rightarrow> g v)"

section \<open>Properties\<close>

text \<open>The accessors never fail a check behind the test that guards them, and the macros never
  do: \<^verbatim>\<open>NG_ASSIGN_OR_RETURN\<close> either goes on with the value or returns the stored status.\<close>

theorem assign_or_return_flow:
  "NG_ASSIGN_OR_RETURN x = Some (case x of Inr v \<Rightarrow> Continue v | Inl s \<Rightarrow> Return s)
   \<and> NG_ASSIGN_OR_THROW x = Some (case x of Inr v \<Rightarrow> Continue v | Inl s \<Rightarrow> Throw s)
   \<and> (so_ok x \<longleftrightarrow> so_value x \<noteq> None) \<and> (so_ok x \<longleftrightarrow> so_status x = None)"
  by (cases x) (simp_all add: NG_ASSIGN_OR_RETURN_def NG_ASSIGN_OR_THROW_def NG_RETURN_IF_ERROR_def
      NG_THROW_IF_ERROR_def so_ok_def so_status_def so_value_def)

lemma assign_then_cases: "assign_then x g = (case x of Inr v \<Rightarrow> g v | Inl s \<Rightarrow> Some (Inl s))"
  by (cases x) (simp_all add: assign_then_def NG_ASSIGN_OR_RETURN_def NG_RETURN_IF_ERROR_def so_ok_def
      so_status_def so_value_def StatusOr_status_def)

text \<open>Chains of \<^verbatim>\<open>NG_ASSIGN_OR_RETURN\<close> compose: the first failure is the result, and nesting does not matter.\<close>

theorem assign_then_monad:
  "assign_then (StatusOr_value v) g = g v
   \<and> assign_then x (\<lambda>v. Some (StatusOr_value v)) = Some x
   \<and> Option.bind (assign_then x g) (\<lambda>y. assign_then y h) = assign_then x (\<lambda>v. Option.bind (g v) (\<lambda>y. assign_then y h))"
  by (cases x) (simp_all add: assign_then_cases StatusOr_value_def)

text \<open>A \<^verbatim>\<open>StatusOr\<close> that is made from a successful status is neither a value nor a failure: it is not
  \<^verbatim>\<open>ok()\<close> and \<^verbatim>\<open>value()\<close> fails its check, but its \<^verbatim>\<open>status()\<close> is \<^verbatim>\<open>ok()\<close>. A function that passes it on with
  \<^verbatim>\<open>NG_RETURN_IF_ERROR\<close> or \<^verbatim>\<open>NG_ASSIGN_OR_RETURN\<close> stops there and returns success; every other status makes it return
  a failure.\<close>

theorem status_or_success_lost:
  "\<not> so_ok (StatusOr_status s :: 'v StatusOr) \<and> so_value (StatusOr_status s :: 'v StatusOr) = None
   \<and> NG_RETURN_IF_ERROR so_ok so_status (StatusOr_status s :: 'v StatusOr) = Some (Return s)
   \<and> NG_ASSIGN_OR_RETURN (StatusOr_status s :: 'v StatusOr) = Some (Return s)
   \<and> Status_ok Status_OK \<and> (Status_ok s \<longleftrightarrow> st_code s = st_code Status_OK)
   \<and> NG_RETURN_IF_ERROR Status_ok Some Status_OK = Some (Continue ())"
  by (simp add: StatusOr_status_def so_ok_def so_value_def so_status_def NG_RETURN_IF_ERROR_def
      NG_ASSIGN_OR_RETURN_def Status_ok_def Status_OK_def)

text \<open>
  With ordered values \<^verbatim>\<open>operator<\<close> of \<^verbatim>\<open>Result\<close> and \<^verbatim>\<open>StatusOr\<close> is an order that agrees with \<^verbatim>\<open>operator==\<close>, all values
  before all failures. For \<^verbatim>\<open>folly::Unit\<close> it is not: success is equivalent to every failure, while failures
  differ, so that these operators do not order the keys of a map.
\<close>

theorem result_orders:
  fixes a b :: "Error + 'v::linorder" and v :: 'v and e :: Error
  shows "(Result_less (<) a b \<or> Result_eq (=) a b \<or> Result_less (<) b a)
   \<and> Result_less (<) (Inr v) (Inl e)
   \<and> \<not> comparison StatusOr_less_Unit (StatusOr_eq (=)) \<and> \<not> comparison Result_less_Unit (Result_eq (=))"
proof -
  have "\<not> comparison StatusOr_less_Unit (StatusOr_eq (=))"
  proof
    assume "comparison StatusOr_less_Unit (StatusOr_eq (=))"
    from comparison.less_total [OF this, of "Inr ()" "Inl Status_OK"] show False
      by (simp add: StatusOr_less_Unit_def so_status_def StatusOr_eq_def)
  qed
  moreover have "\<not> comparison Result_less_Unit (Result_eq (=))"
  proof
    assume "comparison Result_less_Unit (Result_eq (=))"
    from comparison.less_total [OF this, of "Inr ()" "Inl \<lparr>code = 0, message = []\<rparr>"] show False
      by (simp add: Result_less_Unit_def res_error_def Result_eq_def)
  qed
  moreover have "Result_less (<) (Inr v) (Inl e)" by (simp add: Result_less_def)
  ultimately show ?thesis using result_order.less_total [of a b] by blast
qed

end
