(* ===== verification/AuditLog.thy ===== *)
theory AuditLog
  imports Format ErrorCodes
begin

text \<open>
  Auditing: \<^verbatim>\<open>src/include/nebula/plugins/AuditMessage.h\<close> and \<^verbatim>\<open>AuditPlugin.h\<close>. Part one has the event types with
  their bits and their category names, and the mask of an audit plugin; part two the events, records that
  extend \<open>Event\<close> as the classes extend \<^verbatim>\<open>Event\<close>, and their records in XML; part three the log: an event is
  formatted into the buffer of the thread and recorded when the stream is flushed. \<^verbatim>\<open>fmt::format\<close>,
  \<^verbatim>\<open>date::format\<close>, the clock and \<^verbatim>\<open>record\<close> of the plugin are parameters.
\<close>

unbundle bit_operations_syntax

section \<open>Event types\<close>

datatype EventType =
    AUDIT_CONN_LOGIN | AUDIT_CONN_SIGNOUT | AUDIT_AUTHENTICATION | AUDIT_AUTHORIZATION_GRAPH
  | AUDIT_AUTHORIZATION_NODE | AUDIT_AUTHORIZATION_EDGE | AUDIT_AUTHORIZATION_PROP | AUDIT_QUERY_DDL
  | AUDIT_QUERY_DQL | AUDIT_QUERY_DCL | AUDIT_QUERY_DML_INSERT | AUDIT_QUERY_DML_SET
  | AUDIT_QUERY_DML_REMOVE | AUDIT_QUERY_DML_DELETE | AUDIT_QUERY_PROCEDURE | AUDIT_QUERY_RETURN_ERROR
  | AUDIT_JOB_START | AUDIT_JOB_END | AUDIT_CONFIGURATION | AUDIT_GENERAL
  | AUDIT_UNKNOWN

text \<open>The bit of an event type in the bitmap.\<close>

primrec event_shift :: "EventType \<Rightarrow> nat" where
  "event_shift AUDIT_CONN_LOGIN = 1"
| "event_shift AUDIT_CONN_SIGNOUT = 2"
| "event_shift AUDIT_AUTHENTICATION = 8"
| "event_shift AUDIT_AUTHORIZATION_GRAPH = 9"
| "event_shift AUDIT_AUTHORIZATION_NODE = 10"
| "event_shift AUDIT_AUTHORIZATION_EDGE = 11"
| "event_shift AUDIT_AUTHORIZATION_PROP = 12"
| "event_shift AUDIT_QUERY_DDL = 16"
| "event_shift AUDIT_QUERY_DQL = 17"
| "event_shift AUDIT_QUERY_DCL = 18"
| "event_shift AUDIT_QUERY_DML_INSERT = 20"
| "event_shift AUDIT_QUERY_DML_SET = 21"
| "event_shift AUDIT_QUERY_DML_REMOVE = 22"
| "event_shift AUDIT_QUERY_DML_DELETE = 23"
| "event_shift AUDIT_QUERY_PROCEDURE = 24"
| "event_shift AUDIT_QUERY_RETURN_ERROR = 25"
| "event_shift AUDIT_JOB_START = 32"
| "event_shift AUDIT_JOB_END = 33"
| "event_shift AUDIT_CONFIGURATION = 34"
| "event_shift AUDIT_GENERAL = 35"
| "event_shift AUDIT_UNKNOWN = 63"

definition event_bits :: "EventType \<Rightarrow> uint64" where
  "event_bits t = push_bit (event_shift t) 1"

primrec event_toString :: "EventType \<Rightarrow> string" where
  "event_toString AUDIT_CONN_LOGIN = ''LOGIN''"
| "event_toString AUDIT_CONN_SIGNOUT = ''SIGNOUT''"
| "event_toString AUDIT_AUTHENTICATION = ''AUTHENTICATION''"
| "event_toString AUDIT_AUTHORIZATION_GRAPH = ''AUTHORIZATION_GRAPH''"
| "event_toString AUDIT_AUTHORIZATION_NODE = ''AUTHORIZATION_NODE''"
| "event_toString AUDIT_AUTHORIZATION_EDGE = ''AUTHORIZATION_EDGE''"
| "event_toString AUDIT_AUTHORIZATION_PROP = ''AUTHORIZATION_PROP''"
| "event_toString AUDIT_QUERY_DDL = ''DDL''"
| "event_toString AUDIT_QUERY_DQL = ''DQL''"
| "event_toString AUDIT_QUERY_DCL = ''DCL''"
| "event_toString AUDIT_QUERY_DML_INSERT = ''DML_INSERT''"
| "event_toString AUDIT_QUERY_DML_SET = ''DML_SET''"
| "event_toString AUDIT_QUERY_DML_REMOVE = ''DML_REMOVE''"
| "event_toString AUDIT_QUERY_DML_DELETE = ''DML_DELETE''"
| "event_toString AUDIT_QUERY_PROCEDURE = ''PROCEDURE''"
| "event_toString AUDIT_QUERY_RETURN_ERROR = ''RETURN_ERROR''"
| "event_toString AUDIT_JOB_START = ''JOB_START''"
| "event_toString AUDIT_JOB_END = ''JOB_END''"
| "event_toString AUDIT_CONFIGURATION = ''CONFIGURATION''"
| "event_toString AUDIT_GENERAL = ''GENERAL''"
| "event_toString AUDIT_UNKNOWN = []"

text \<open>\<^verbatim>\<open>std::toupper\<close> in the locale of the C program.\<close>

definition toupper :: "char \<Rightarrow> char" where
  "toupper c = (if 97 \<le> (of_char c :: nat) \<and> (of_char c :: nat) \<le> 122 then char_of (of_char c - (32 :: nat)) else c)"

definition event_fromString :: "string \<Rightarrow> EventType list" where
  "event_fromString category = (let uppercase = map toupper category in
     if uppercase = ''LOGIN'' then [AUDIT_CONN_LOGIN]
     else if uppercase = ''SIGNOUT'' then [AUDIT_CONN_SIGNOUT]
     else if uppercase = ''AUTHENTICATION'' then [AUDIT_AUTHENTICATION]
     else if uppercase = ''AUTHORIZATION'' then 
       [AUDIT_AUTHORIZATION_GRAPH, AUDIT_AUTHORIZATION_NODE, AUDIT_AUTHORIZATION_EDGE, AUDIT_AUTHORIZATION_PROP]
     else if uppercase = ''AUTHORIZATION_GRAPH'' then [AUDIT_AUTHORIZATION_GRAPH]
     else if uppercase = ''AUTHORIZATION_NODE'' then [AUDIT_AUTHORIZATION_NODE]
     else if uppercase = ''AUTHORIZATION_EDGE'' then [AUDIT_AUTHORIZATION_EDGE]
     else if uppercase = ''AUTHORIZATION_PROP'' then [AUDIT_AUTHORIZATION_PROP]
     else if uppercase = ''DDL'' then [AUDIT_QUERY_DDL]
     else if uppercase = ''DQL'' then [AUDIT_QUERY_DQL]
     else if uppercase = ''DCL'' then [AUDIT_QUERY_DCL]
     else if uppercase = ''DML'' then 
       [AUDIT_QUERY_DML_INSERT, AUDIT_QUERY_DML_SET, AUDIT_QUERY_DML_REMOVE, AUDIT_QUERY_DML_DELETE]
     else if uppercase = ''DML_INSERT'' then [AUDIT_QUERY_DML_INSERT]
     else if uppercase = ''DML_SET'' then [AUDIT_QUERY_DML_SET]
     else if uppercase = ''DML_REMOVE'' then [AUDIT_QUERY_DML_REMOVE]
     else if uppercase = ''DML_DELETE'' then [AUDIT_QUERY_DML_DELETE]
     else if uppercase = ''PROCEDURE'' then [AUDIT_QUERY_PROCEDURE]
     else if uppercase = ''RETURN_ERROR'' then [AUDIT_QUERY_RETURN_ERROR]
     else if uppercase = ''JOB'' then [AUDIT_JOB_START, AUDIT_JOB_END]
     else if uppercase = ''JOB_START'' then [AUDIT_JOB_START]
     else if uppercase = ''JOB_END'' then [AUDIT_JOB_END]
     else if uppercase = ''CONFIGURATION'' then [AUDIT_CONFIGURATION]
     else if uppercase = ''GENERAL'' then [AUDIT_GENERAL]
     else [])"

section \<open>The mask\<close>

record AuditMask =
  mask :: uint64

definition AuditMask_empty :: AuditMask where
  "AuditMask_empty = \<lparr>mask = 0\<rparr>"

definition mask_add :: "EventType \<Rightarrow> AuditMask \<Rightarrow> AuditMask" where
  "mask_add type m = m\<lparr>mask := mask m OR event_bits type\<rparr>"

definition mask_filter :: "AuditMask \<Rightarrow> EventType \<Rightarrow> bool" where
  "mask_filter m type \<longleftrightarrow> mask m AND event_bits type \<noteq> 0"

section \<open>Events\<close>

datatype AdminOperationKind =
    SHOW_META | SET_META_AGENT | LOGIN | LOGOUT | CREATE_USER
  | DROP_USER | ALTER_USER | LIST_USER | CHANGE_PASSWORD | CREATE_CLUSTER
  | LIST_CLUSTER | DROP_CLUSTER | ADD_HOST | REMOVE_HOST | LIST_HOST
  | ADD_SERVICE | LIST_SERVICE | DROP_SERVICE | INIT_STORAGE | CREATE_BACKUP
  | RESTORE | DROP_BACKUP

primrec admin_toString :: "AdminOperationKind \<Rightarrow> string" where
  "admin_toString SHOW_META = ''SHOW_META''"
| "admin_toString SET_META_AGENT = ''SET_META_AGENT''"
| "admin_toString LOGIN = ''LOGIN''"
| "admin_toString LOGOUT = ''LOGOUT''"
| "admin_toString CREATE_USER = ''CREATE_USER''"
| "admin_toString DROP_USER = ''DROP_USER''"
| "admin_toString ALTER_USER = ''ALTER_USER''"
| "admin_toString LIST_USER = ''LIST_USER''"
| "admin_toString CHANGE_PASSWORD = ''CHANGE_PASSWORD''"
| "admin_toString CREATE_CLUSTER = ''CREATE_CLUSTER''"
| "admin_toString LIST_CLUSTER = ''LIST_CLUSTER''"
| "admin_toString DROP_CLUSTER = ''DROP_CLUSTER''"
| "admin_toString ADD_HOST = ''ADD_HOST''"
| "admin_toString REMOVE_HOST = ''REMOVE_HOST''"
| "admin_toString LIST_HOST = ''LIST_HOST''"
| "admin_toString ADD_SERVICE = ''ADD_SERVICE''"
| "admin_toString LIST_SERVICE = ''LIST_SERVICE''"
| "admin_toString DROP_SERVICE = ''DROP_SERVICE''"
| "admin_toString INIT_STORAGE = ''INIT_STORAGE''"
| "admin_toString CREATE_BACKUP = ''CREATE_BACKUP''"
| "admin_toString RESTORE = ''RESTORE''"
| "admin_toString DROP_BACKUP = ''DROP_BACKUP''"

datatype ConfigurationType = SET | SET_DEFAULT | GET

primrec conf_toString :: "ConfigurationType \<Rightarrow> string" where
  "conf_toString SET = ''SET''"
| "conf_toString SET_DEFAULT = ''SET_DEFAULT''"
| "conf_toString GET = ''GET''"

record 'tm Event =
  ev_type :: EventType
  ev_code :: uint64
  authId :: int64
  clientHost :: string
  serverHost :: string
  ev_user :: string
  timestamp :: 'tm

definition Event_new :: "'tm \<Rightarrow> EventType \<Rightarrow> uint64 \<Rightarrow> int64 \<Rightarrow> string \<Rightarrow> string \<Rightarrow> string \<Rightarrow> 'tm Event" where
  "Event_new now t c a ch sh u = \<lparr>ev_type = t, ev_code = c, authId = a, clientHost = ch, serverHost = sh,
     ev_user = u, timestamp = now\<rparr>"

type_synonym 'tm EventConnection = "'tm Event"

record 'tm EventAuthentication = "'tm Event" +
  clientLang :: string
  clientProtocolVersion :: string
  clientVersion :: string
  authn_message :: string

record 'tm EventAuthorization = "'tm Event" +
  authz_message :: string

record 'tm EventAdminOperation = "'tm Event" +
  operationKind :: AdminOperationKind
  operation :: string

record 'tm EventQueryFinish = "'tm Event" +
  finish_graph :: string
  finish_queryId :: string
  finish_query :: string

record 'tm EventQueryError = "'tm Event" +
  failed_graph :: string
  failed_queryId :: string
  failed_query :: string
  failed_error :: string

record 'tm EventJob = "'tm Event" +
  job_graph :: string
  job_commandId :: string
  job_command :: string
  job_error :: string

record 'tm EventConfiguration = "'tm Event" +
  configurationType :: ConfigurationType
  conf_name :: string
  conf_value :: string

section \<open>Records in XML\<close>

definition kTimestampFormat :: string where
  "kTimestampFormat = ''%FT%T %Z''"

definition kConnectFormat :: string where
  \<open>kConnectFormat = join_lines [
     ''<AUDIT_RECORD>"'',
     ''  <TYPE>{}</TYPE>"'',
     ''  <CODE>{}</CODE>"'',
     ''  <TIME_STAMP>{}</TIME_STAMP>"'',
     ''  <AUTH_ID>{}</AUTH_ID>"'',
     ''  <CLIENT_HOST>{}</CLIENT_HOST>"'',
     ''  <SERVER_HOST>{}</SERVER_HOST>"'',
     ''  <USER>{}</USER>'',
     ''</AUDIT_RECORD>'']\<close>

definition kAuthenticationFormat :: string where
  \<open>kAuthenticationFormat = join_lines [
     ''<AUDIT_RECORD>"'',
     ''  <TYPE>{}</TYPE>"'',
     ''  <CODE>{}</CODE>"'',
     ''  <TIME_STAMP>{}</TIME_STAMP>"'',
     ''  <AUTH_ID>{}</AUTH_ID>"'',
     ''  <CLIENT_HOST>{}</CLIENT_HOST>"'',
     ''  <SERVER_HOST>{}</SERVER_HOST>"'',
     ''  <USER>{}</USER>'',
     ''  <CLIENG_LANG>{}</CLIENG_LANG>'',
     ''  <CLIENT_PROTO_VERSION>{}</CLIENT_PROTO_VERSION>'',
     ''  <CLIENT_VERSION>{}</CLIENT_VERSION>'',
     ''  <MESSAGE>{}</MESSAGE>'',
     ''</AUDIT_RECORD>'']\<close>

definition kAuthorizationFormat :: string where
  \<open>kAuthorizationFormat = join_lines [
     ''<AUDIT_RECORD>"'',
     ''  <TYPE>{}</TYPE>"'',
     ''  <CODE>{}</CODE>"'',
     ''  <TIME_STAMP>{}</TIME_STAMP>"'',
     ''  <AUTH_ID>{}</AUTH_ID>"'',
     ''  <CLIENT_HOST>{}</CLIENT_HOST>"'',
     ''  <SERVER_HOST>{}</SERVER_HOST>"'',
     ''  <USER>{}</USER>'',
     ''  <MESSAGE>{}</MESSAGE>'',
     ''</AUDIT_RECORD>'']\<close>

definition kAdminOperationFormat :: string where
  \<open>kAdminOperationFormat = join_lines [
     ''<AUDIT_RECORD>"'',
     ''  <TYPE>{}</TYPE>"'',
     ''  <CODE>{}</CODE>"'',
     ''  <TIME_STAMP>{}</TIME_STAMP>"'',
     ''  <AUTH_ID>{}</AUTH_ID>"'',
     ''  <CLIENT_HOST>{}</CLIENT_HOST>"'',
     ''  <SERVER_HOST>{}</SERVER_HOST>"'',
     ''  <USER>{}</USER>'',
     ''  <OPERATION_KIND>{}</OPERATION_KIND>'',
     ''  <OPERATION>{}</OPERATION>'',
     ''</AUDIT_RECORD>'']\<close>

definition kQueryFinishFormat :: string where
  \<open>kQueryFinishFormat = join_lines [
     ''<AUDIT_RECORD>"'',
     ''  <TYPE>{}</TYPE>"'',
     ''  <CODE>{}</CODE>"'',
     ''  <TIME_STAMP>{}</TIME_STAMP>"'',
     ''  <AUTH_ID>{}</AUTH_ID>"'',
     ''  <CLIENT_HOST>{}</CLIENT_HOST>"'',
     ''  <SERVER_HOST>{}</SERVER_HOST>"'',
     ''  <USER>{}</USER>'',
     ''  <GRAPH>{}</GRAPH>'',
     ''  <QUERY_ID>{}</QUERY_ID>'',
     ''  <QUERY>{}</QUERY>'',
     ''</AUDIT_RECORD>'']\<close>

definition kQueryErrorFormat :: string where
  \<open>kQueryErrorFormat = join_lines [
     ''<AUDIT_RECORD>"'',
     ''  <TYPE>{}</TYPE>"'',
     ''  <CODE>{}</CODE>"'',
     ''  <TIME_STAMP>{}</TIME_STAMP>"'',
     ''  <AUTH_ID>{}</AUTH_ID>"'',
     ''  <CLIENT_HOST>{}</CLIENT_HOST>"'',
     ''  <SERVER_HOST>{}</SERVER_HOST>"'',
     ''  <USER>{}</USER>'',
     ''  <GRAPH>{}</GRAPH>'',
     ''  <QUERY_ID>{}</QUERY_ID>'',
     ''  <QUERY>{}</QUERY>'',
     ''  <ERROR>{}</ERROR>'',
     ''</AUDIT_RECORD>'']\<close>

definition kJobFormat :: string where
  \<open>kJobFormat = join_lines [
     ''<AUDIT_RECORD>"'',
     ''  <TYPE>{}</TYPE>"'',
     ''  <CODE>{}</CODE>"'',
     ''  <TIME_STAMP>{}</TIME_STAMP>"'',
     ''  <AUTH_ID>{}</AUTH_ID>"'',
     ''  <CLIENT_HOST>{}</CLIENT_HOST>"'',
     ''  <SERVER_HOST>{}</SERVER_HOST>"'',
     ''  <USER>{}</USER>'',
     ''  <GRAPH>{}</GRAPH>'',
     ''  <COMMAND_ID>{}</COMMAND_ID>'',
     ''  <COMMAND>{}</COMMAND>'',
     ''  <ERROR>{}</ERROR>'',
     ''</AUDIT_RECORD>'']\<close>

definition kConfigurationFormat :: string where
  \<open>kConfigurationFormat = join_lines [
     ''<AUDIT_RECORD>"'',
     ''  <TYPE>{}</TYPE>"'',
     ''  <CODE>{}</CODE>"'',
     ''  <TIME_STAMP>{}</TIME_STAMP>"'',
     ''  <AUTH_ID>{}</AUTH_ID>"'',
     ''  <CLIENT_HOST>{}</CLIENT_HOST>"'',
     ''  <SERVER_HOST>{}</SERVER_HOST>"'',
     ''  <USER>{}</USER>'',
     ''  <CONFIGURATION_TYPE>{}</CONFIGURATION_TYPE>'',
     ''  <NAME>{}</NAME>'',
     ''  <VALUE>{}</VALUE>'',
     ''</AUDIT_RECORD>'']\<close>

text \<open>The arguments of \<^verbatim>\<open>EVENT_FORMAT\<close> that every event has; \<open>date\<close> is \<^verbatim>\<open>date::format\<close>.\<close>

definition event_args :: "(string \<Rightarrow> 'tm \<Rightarrow> string) \<Rightarrow> ('tm, 'z) Event_scheme \<Rightarrow> string list" where
  "event_args date e = [event_toString (ev_type e), format_code (ev_code e), date kTimestampFormat (timestamp e),
     show_int (sint (authId e)), clientHost e, serverHost e, ev_user e]"

definition EVENT_FORMAT :: "(string \<Rightarrow> string list \<Rightarrow> string) \<Rightarrow> (string \<Rightarrow> 'tm \<Rightarrow> string) \<Rightarrow> string \<Rightarrow>
    ('tm, 'z) Event_scheme \<Rightarrow> string list \<Rightarrow> string" where
  "EVENT_FORMAT fmt date FORMATER e args = fmt FORMATER (event_args date e @ args)"

definition connection_toXml :: "(string \<Rightarrow> string list \<Rightarrow> string) \<Rightarrow> (string \<Rightarrow> 'tm \<Rightarrow> string) \<Rightarrow> 'tm EventConnection \<Rightarrow> string" where
  "connection_toXml fmt date e = fmt kConnectFormat (event_args date e)"

definition authentication_toXml :: "(string \<Rightarrow> string list \<Rightarrow> string) \<Rightarrow> (string \<Rightarrow> 'tm \<Rightarrow> string) \<Rightarrow> 'tm EventAuthentication \<Rightarrow> string" where
  "authentication_toXml fmt date e = EVENT_FORMAT fmt date kAuthenticationFormat e
     [clientLang e, clientProtocolVersion e, clientVersion e, authn_message e]"

definition authorization_toXml :: "(string \<Rightarrow> string list \<Rightarrow> string) \<Rightarrow> (string \<Rightarrow> 'tm \<Rightarrow> string) \<Rightarrow> 'tm EventAuthorization \<Rightarrow> string" where
  "authorization_toXml fmt date e = EVENT_FORMAT fmt date kAuthorizationFormat e [authz_message e]"

definition adminOperation_toXml :: "(string \<Rightarrow> string list \<Rightarrow> string) \<Rightarrow> (string \<Rightarrow> 'tm \<Rightarrow> string) \<Rightarrow> 'tm EventAdminOperation \<Rightarrow> string" where
  "adminOperation_toXml fmt date e = EVENT_FORMAT fmt date kAdminOperationFormat e
     [admin_toString (operationKind e), operation e]"

definition queryFinish_toXml :: "(string \<Rightarrow> string list \<Rightarrow> string) \<Rightarrow> (string \<Rightarrow> 'tm \<Rightarrow> string) \<Rightarrow> 'tm EventQueryFinish \<Rightarrow> string" where
  "queryFinish_toXml fmt date e = EVENT_FORMAT fmt date kQueryFinishFormat e [finish_graph e, finish_queryId e, finish_query e]"

definition queryError_toXml :: "(string \<Rightarrow> string list \<Rightarrow> string) \<Rightarrow> (string \<Rightarrow> 'tm \<Rightarrow> string) \<Rightarrow> 'tm EventQueryError \<Rightarrow> string" where
  "queryError_toXml fmt date e = EVENT_FORMAT fmt date kQueryErrorFormat e
     [failed_graph e, failed_queryId e, failed_query e, failed_error e]"

definition job_toXml :: "(string \<Rightarrow> string list \<Rightarrow> string) \<Rightarrow> (string \<Rightarrow> 'tm \<Rightarrow> string) \<Rightarrow> 'tm EventJob \<Rightarrow> string" where
  "job_toXml fmt date e = EVENT_FORMAT fmt date kJobFormat e [job_graph e, job_commandId e, job_command e, job_error e]"

definition configuration_toXml :: "(string \<Rightarrow> string list \<Rightarrow> string) \<Rightarrow> (string \<Rightarrow> 'tm \<Rightarrow> string) \<Rightarrow> 'tm EventConfiguration \<Rightarrow> string" where
  "configuration_toXml fmt date e = EVENT_FORMAT fmt date kConfigurationFormat e
     [conf_toString (configurationType e), conf_name e, conf_value e]"

section \<open>The log\<close>

text \<open>The buffer of the thread's stream and the state of the plugin; \<open>rec\<close> is \<^verbatim>\<open>record\<close> of the plugin.\<close>

type_synonym 'p log_state = "string \<times> 'p"

definition LogBuf_sync :: "(string \<Rightarrow> 'p \<Rightarrow> 'p) \<Rightarrow> 'p log_state \<Rightarrow> 'p log_state" where
  "LogBuf_sync rec s = (case s of (buf, p) \<Rightarrow> ([], rec buf p))"

definition AUDIT_LOG :: "(string \<Rightarrow> 'p \<Rightarrow> 'p) \<Rightarrow> AuditMask \<Rightarrow> EventType \<Rightarrow> string \<Rightarrow> 'p log_state \<Rightarrow> 'p log_state" where
  "AUDIT_LOG rec m type text s =
     (if \<not> mask_filter m type then s else case s of (buf, p) \<Rightarrow> LogBuf_sync rec (buf @ text, p))"

section \<open>Categories and masks\<close>

text \<open>The class of events that an event type belongs to, where it has one.\<close>

primrec super_category :: "EventType \<Rightarrow> string option" where
  "super_category AUDIT_CONN_LOGIN = None"
| "super_category AUDIT_CONN_SIGNOUT = None"
| "super_category AUDIT_AUTHENTICATION = None"
| "super_category AUDIT_AUTHORIZATION_GRAPH = Some ''AUTHORIZATION''"
| "super_category AUDIT_AUTHORIZATION_NODE = Some ''AUTHORIZATION''"
| "super_category AUDIT_AUTHORIZATION_EDGE = Some ''AUTHORIZATION''"
| "super_category AUDIT_AUTHORIZATION_PROP = Some ''AUTHORIZATION''"
| "super_category AUDIT_QUERY_DDL = None"
| "super_category AUDIT_QUERY_DQL = None"
| "super_category AUDIT_QUERY_DCL = None"
| "super_category AUDIT_QUERY_DML_INSERT = Some ''DML''"
| "super_category AUDIT_QUERY_DML_SET = Some ''DML''"
| "super_category AUDIT_QUERY_DML_REMOVE = Some ''DML''"
| "super_category AUDIT_QUERY_DML_DELETE = Some ''DML''"
| "super_category AUDIT_QUERY_PROCEDURE = None"
| "super_category AUDIT_QUERY_RETURN_ERROR = None"
| "super_category AUDIT_JOB_START = Some ''JOB''"
| "super_category AUDIT_JOB_END = Some ''JOB''"
| "super_category AUDIT_CONFIGURATION = None"
| "super_category AUDIT_GENERAL = None"
| "super_category AUDIT_UNKNOWN = None"

definition names_event :: "string \<Rightarrow> EventType \<Rightarrow> bool" where
  "names_event s t \<longleftrightarrow> t \<noteq> AUDIT_UNKNOWN \<and> (map toupper s = event_toString t \<or> super_category t = Some (map toupper s))"

lemma fromString_names: "t \<in> set (event_fromString s) \<longleftrightarrow> names_event s t"
  unfolding event_fromString_def Let_def names_event_def
  by (cases t) (auto split: if_split)

lemma toupper_toupper [simp]: "toupper (toupper c) = toupper c"
proof (cases "97 \<le> (of_char c :: nat) \<and> (of_char c :: nat) \<le> 122")
  case True
  then have "(of_char (toupper c) :: nat) = of_char c - 32" by (auto simp: toupper_def intro!: mod_less)
  then have "\<not> 97 \<le> (of_char (toupper c) :: nat)" using True by linarith
  then show ?thesis unfolding toupper_def [of "toupper c"] by simp
next
  case False
  then have "toupper c = c" unfolding toupper_def by (rule if_not_P)
  then show ?thesis by simp
qed

lemma event_shift_less: "event_shift t < 64"
  by (cases t) simp_all

lemma event_shift_inj: "event_shift t = event_shift u \<Longrightarrow> t = u"
  by (cases t; cases u) simp_all

lemma event_bits_iff: "bit (event_bits t) n \<longleftrightarrow> n = event_shift t"
  using event_shift_less [of t] by (auto simp: event_bits_def bit_simps bit_1_iff)

lemma mask_filter_iff: "mask_filter m t \<longleftrightarrow> bit (mask m) (event_shift t)"
proof -
  have "mask m AND event_bits t = (if bit (mask m) (event_shift t) then event_bits t else 0)"
    by (rule bit_word_eqI) (auto simp: bit_simps event_bits_iff)
  moreover have "event_bits t \<noteq> 0" using event_bits_iff [of t "event_shift t"] by auto
  ultimately show ?thesis by (simp add: mask_filter_def)
qed

lemma filter_empty [simp]: "\<not> mask_filter AuditMask_empty t"
  by (simp add: mask_filter_iff AuditMask_empty_def)

lemma filter_add: "mask_filter (mask_add u m) t \<longleftrightarrow> mask_filter m t \<or> t = u"
  using event_shift_inj [of t u] by (auto simp: mask_filter_iff mask_add_def bit_or_iff event_bits_iff)

lemma filter_fold: "mask_filter (fold mask_add ts m) t \<longleftrightarrow> mask_filter m t \<or> t \<in> set ts"
  by (induction ts arbitrary: m) (auto simp: filter_add)

text \<open>The mask of a list of category names.\<close>

definition mask_of :: "string list \<Rightarrow> AuditMask" where
  "mask_of cats = fold (\<lambda>s. fold mask_add (event_fromString s)) cats AuditMask_empty"

lemma filter_mask_of: "mask_filter (mask_of cats) t \<longleftrightarrow> (\<exists>s \<in> set cats. names_event s t)"
proof -
  have "mask_filter (fold (\<lambda>s. fold mask_add (event_fromString s)) cats m) t
      \<longleftrightarrow> mask_filter m t \<or> (\<exists>s \<in> set cats. names_event s t)" for m
    by (induction cats arbitrary: m) (auto simp: filter_fold fromString_names)
  then show ?thesis by (simp add: mask_of_def)
qed

lemma log_fold:
  "fold (\<lambda>(t, x). AUDIT_LOG rec m t x) es ([], p)
     = ([], fold rec (map snd (filter (\<lambda>(t, x). mask_filter m t) es)) p)"
  by (induction es arbitrary: p) (auto simp: AUDIT_LOG_def LogBuf_sync_def)

section \<open>Records\<close>

text \<open>The templates with the number of their placeholders.\<close>

definition audit_formats :: "(string \<times> nat) list" where
  "audit_formats = [(kConnectFormat, 7), (kAuthenticationFormat, 11), (kAuthorizationFormat, 8),
     (kAdminOperationFormat, 9), (kQueryFinishFormat, 10), (kQueryErrorFormat, 11), (kJobFormat, 11),
     (kConfigurationFormat, 10)]"

definition format_pieces_ok :: "string \<times> nat \<Rightarrow> bool" where
  "format_pieces_ok f \<longleftrightarrow> (case fmt_pieces (fst f) of None \<Rightarrow> False
     | Some ps \<Rightarrow> length ps = snd f + 1 \<and> delimited (CHR ''<'') ps)"

lemma audit_formats_ok: "list_all format_pieces_ok audit_formats"
  by code_simp

lemma authorization_pieces:
  \<open>fmt_pieces kAuthorizationFormat = Some [
     ''<AUDIT_RECORD>"'' @ CHR 0x0A # ''  <TYPE>'',
     ''</TYPE>"'' @ CHR 0x0A # ''  <CODE>'',
     ''</CODE>"'' @ CHR 0x0A # ''  <TIME_STAMP>'',
     ''</TIME_STAMP>"'' @ CHR 0x0A # ''  <AUTH_ID>'',
     ''</AUTH_ID>"'' @ CHR 0x0A # ''  <CLIENT_HOST>'',
     ''</CLIENT_HOST>"'' @ CHR 0x0A # ''  <SERVER_HOST>'',
     ''</SERVER_HOST>"'' @ CHR 0x0A # ''  <USER>'',
     ''</USER>'' @ CHR 0x0A # ''  <MESSAGE>'',
     ''</MESSAGE>'' @ CHR 0x0A # ''</AUDIT_RECORD>'']\<close>
  by code_simp

section \<open>Properties\<close>

text \<open>Claim C35. A category name, in upper or lower case, stands for the event types that have this name and
  for those of the class of this name, so that categories overlap (\<^verbatim>\<open>DML\<close> contains \<^verbatim>\<open>DML_INSERT\<close>); the
  name of each known type stands for exactly this type, and any other name, that of the unknown type included, for none.
  The mask built from a list of names lets through exactly the types that one of the names stands for.\<close>

theorem event_categories:
  "event_fromString (event_toString t) = (if t = AUDIT_UNKNOWN then [] else [t])
   \<and> event_fromString (map toupper s) = event_fromString s
   \<and> (t \<in> set (event_fromString s) \<longleftrightarrow> t \<noteq> AUDIT_UNKNOWN
        \<and> (map toupper s = event_toString t \<or> super_category t = Some (map toupper s)))
   \<and> (mask_filter (mask_of cats) t \<longleftrightarrow> (\<exists>c. c \<in> set cats \<and> t \<in> set (event_fromString c)))
   \<and> (mask_filter m t \<longleftrightarrow> bit (mask m) (event_shift t))"
proof (intro conjI)
  show "event_fromString (event_toString t) = (if t = AUDIT_UNKNOWN then [] else [t])"
    by (cases t; hypsubst; code_simp)
  show "event_fromString (map toupper s) = event_fromString s" by (simp add: event_fromString_def comp_def)
  show "mask_filter (mask_of cats) t \<longleftrightarrow> (\<exists>c. c \<in> set cats \<and> t \<in> set (event_fromString c))"
    by (auto simp: filter_mask_of fromString_names)
qed (simp_all only: fromString_names names_event_def mask_filter_iff)

text \<open>What is logged is exactly what the categories name. With the mask of a list of category names the
  log records, in order and each as one record, the texts of the events whose type one of the names stands for,
  and leaves nothing in the buffer of the stream.\<close>

theorem audited_exactly:
  "fold (\<lambda>(t, x). AUDIT_LOG rec (mask_of cats) t x) es ([], p)
     = ([], fold rec (map snd (filter (\<lambda>(t, x). \<exists>s \<in> set cats. names_event s t) es)) p)"
  by (simp add: log_fold filter_mask_of)

text \<open>A record determines the event when no field contains an opening angle bracket: two records in
  the same template have the same text only if all their fields are the same.\<close>

theorem record_determines_event:
  assumes "fmt_ok fmt" "(f, 7 + length xs) \<in> set audit_formats" "length ys = length xs"
    "CHR ''<'' \<notin> set (concat (event_args date e @ xs))" "CHR ''<'' \<notin> set (concat (event_args date e' @ ys))"
    "EVENT_FORMAT fmt date f e xs = EVENT_FORMAT fmt date f e' ys"
  shows "event_args date e = event_args date e' \<and> xs = ys"
proof -
  obtain ps where ps: "fmt_pieces f = Some ps" "length ps = 7 + length xs + 1" "delimited (CHR ''<'') ps"
    using audit_formats_ok assms(2) by (force simp: list_all_iff format_pieces_ok_def split: option.splits)
  have l: "length (event_args date e @ xs) = 7 + length xs" "length (event_args date e' @ ys) = 7 + length xs"
    using assms(3) by (simp_all add: event_args_def)
  have "fill_pieces ps (event_args date e @ xs) = fill_pieces ps (event_args date e' @ ys)"
    using assms(6) fmt_ok_pieces [OF assms(1) ps(1)] ps(2) l by (simp add: EVENT_FORMAT_def)
  then have "event_args date e @ xs = event_args date e' @ ys"
    by (rule fill_pieces_inj [OF ps(3), rotated 4]) (use ps(2) l assms(4,5) in auto)
  then show ?thesis by (simp add: event_args_def)
qed

theorem record_determines_event_witness:
  "let e = Event_new (1 :: nat) AUDIT_AUTHORIZATION_NODE 0 7 ''client'' ''server'' ''root''; f = Event_new (2 :: nat)
         AUDIT_AUTHORIZATION_NODE 0 7 ''client'' ''server'' ''root''
   in event_args (\<lambda>_ _. ''now'') e = event_args (\<lambda>_ _. ''now'') f \<and> [''denied''] = [''denied'']"
  unfolding Let_def
proof (rule record_determines_event [OF fmt_ref_ok, of kAuthorizationFormat])
  show "(kAuthorizationFormat, 7 + length [''denied'']) \<in> set audit_formats" by (simp add: audit_formats_def)
  show "CHR ''<'' \<notin> set (concat (event_args (\<lambda>_ _. ''now'') (Event_new (1 :: nat) AUDIT_AUTHORIZATION_NODE 0 7
      ''client'' ''server'' ''root'') @ [''denied'']))" by code_simp
  show "CHR ''<'' \<notin> set (concat (event_args (\<lambda>_ _. ''now'') (Event_new (2 :: nat) AUDIT_AUTHORIZATION_NODE 0 7
      ''client'' ''server'' ''root'') @ [''denied'']))" by code_simp
qed (simp_all add: event_args_def Event_new_def EVENT_FORMAT_def)

text \<open>Claim C36. Fields are not escaped, so whoever chooses a user name can choose the message of an authorization
  event as well: the two events below differ in both fields and have the same record.\<close>

theorem audit_record_forged:
  assumes "fmt_ok fmt"
  shows "authorization_toXml fmt date (e\<lparr>ev_user := u @ ''</USER>'' @ CHR 0x0A # ''  <MESSAGE>'' @ m, authz_message := r\<rparr>)
    = authorization_toXml fmt date (e\<lparr>ev_user := u, authz_message := m @ ''</USER>'' @ CHR 0x0A # ''  <MESSAGE>'' @ r\<rparr>)"
proof -
  note authorization_pieces
  then show ?thesis
    using fmt_ok_pieces [OF assms] by (simp add: authorization_toXml_def EVENT_FORMAT_def event_args_def)
qed

theorem audit_record_forged_witness:
  "let e = Event.extend (Event_new () AUDIT_AUTHORIZATION_NODE 0 7 ''client'' ''server'' []) (EventAuthorization.fields []);
       sep = ''</USER>'' @ CHR 0x0A # ''  <MESSAGE>'';
       a = e\<lparr>ev_user := ''eve'' @ sep @ ''granted'', authz_message := ''denied''\<rparr>;
       b = e\<lparr>ev_user := ''eve'', authz_message := ''granted'' @ sep @ ''denied''\<rparr>
   in authorization_toXml fmt_ref (\<lambda>_ _. []) a = authorization_toXml fmt_ref (\<lambda>_ _. []) b \<and> a \<noteq> b"
  unfolding Let_def
proof (intro conjI)
  let ?e = "Event.extend (Event_new () AUDIT_AUTHORIZATION_NODE 0 7 ''client'' ''server'' []) (EventAuthorization.fields [])"
  let ?sep = "''</USER>'' @ CHR 0x0A # ''  <MESSAGE>''"
  show "authorization_toXml fmt_ref (\<lambda>_ _. []) (?e\<lparr>ev_user := ''eve'' @ ?sep @ ''granted'', authz_message := ''denied''\<rparr>)
      = authorization_toXml fmt_ref (\<lambda>_ _. []) (?e\<lparr>ev_user := ''eve'', authz_message := ''granted'' @ ?sep @ ''denied''\<rparr>)"
    using audit_record_forged [OF fmt_ref_ok, where date = "\<lambda>_ _. []" and e = ?e and u = "''eve''"
      and m = "''granted''" and r = "''denied''"] by simp
qed (simp add: Event.extend_def Event_new_def EventAuthorization.fields_def)

end
