(* ===== verification/ContainerCodec.thy ===== *)
theory ContainerCodec
  imports MemberCodec MemTracker
begin

text \<open>
  The rest of \<^verbatim>\<open>src/include/nebula/common/nrpc/BufferReaderWriter.h\<close>: sizes that depend on the traits of the element
  type, writers of sets and ordered maps, tuples, pointers, empty types and types that are copied as they are in memory;
  and the codec of \<^verbatim>\<open>MemoryUsage.h\<close>. Tuples are codecs because they are folds over their elements
  (locale \<open>member_class\<close>).
\<close>

section \<open>Traits\<close>

text \<open>\<open>IsConstantEncodedSize\<close> gives the \<^verbatim>\<open>size\<close> of the trait when its \<^verbatim>\<open>value\<close> is true; only scalars have one.\<close>

definition IsConstantEncodedSize :: "bool \<Rightarrow> nat \<Rightarrow> nat option" where
  "IsConstantEncodedSize is_scalar sizeof = (if is_scalar then Some sizeof else None)"

definition IsTriviallyEncoding :: "nat option \<Rightarrow> nat \<Rightarrow> bool" where
  "IsTriviallyEncoding const sizeof \<longleftrightarrow> (case const of Some n \<Rightarrow> n = sizeof | None \<Rightarrow> False)"

section \<open>Containers\<close>

text \<open>\<open>const\<close> is the trait of the element; for the entries of a map or set it is used only when the
  type is encoded trivially.\<close>

definition deque_size :: "nat option \<Rightarrow> ('a \<Rightarrow> nat) \<Rightarrow> 'a list \<Rightarrow> nat" where
  "deque_size const s deq = (case const of Some n \<Rightarrow> 4 + length deq * n | None \<Rightarrow> 4 + sum_list (map s deq))"

definition std_map_write :: "('k \<Rightarrow> byte list) \<Rightarrow> ('v \<Rightarrow> byte list) \<Rightarrow> ('k \<times> 'v) list \<Rightarrow> byte list" where
  "std_map_write wk wv m = count_write m @ concat (map (\<lambda>(k, v). wk k @ wv v) m)"

definition std_map_size :: "nat option \<Rightarrow> nat option \<Rightarrow> ('k \<Rightarrow> nat) \<Rightarrow> ('v \<Rightarrow> nat) \<Rightarrow> ('k \<times> 'v) list \<Rightarrow> nat" where
  "std_map_size const_k const_v sk sv m = (case (const_k, const_v) of
     (Some a, Some b) \<Rightarrow> 4 + (a + b) * length m
   | _ \<Rightarrow> 4 + sum_list (map (\<lambda>(k, v). sk k + sv v) m))"

definition uset_write :: "('k \<Rightarrow> byte list) \<Rightarrow> 'k list \<Rightarrow> byte list" where
  "uset_write w ks = count_write ks @ concat (map w ks)"

definition uset_size :: "nat option \<Rightarrow> ('k \<Rightarrow> nat) \<Rightarrow> 'k list \<Rightarrow> nat" where
  "uset_size const s ks = (case const of Some n \<Rightarrow> 4 + n * length ks | None \<Rightarrow> 4 + sum_list (map s ks))"

definition set_write :: "('k \<Rightarrow> byte list) \<Rightarrow> 'k list \<Rightarrow> byte list" where
  "set_write w ks = count_write ks @ concat (map w ks)"

definition set_size :: "nat option \<Rightarrow> ('k \<Rightarrow> nat) \<Rightarrow> 'k list \<Rightarrow> nat" where
  "set_size const s ks = (case const of Some n \<Rightarrow> 4 + n * length ks | None \<Rightarrow> 4 + sum_list (map s ks))"

section \<open>Tuples\<close>

text \<open>A tuple is read element by element; the fold over \<^verbatim>\<open>&&\<close> stops at the first failure, and the status of
  the last read is the result. \<open>es\<close> are the codecs of the elements.\<close>

fun tuple_readImpl :: "'c rw list \<Rightarrow> read_error option \<Rightarrow> 'c inplace" where
  "tuple_readImpl [] status tup buf = (status, tup, buf)"
| "tuple_readImpl (e # es) status tup buf = (case rw_read e tup buf of (status, tup, buf) \<Rightarrow>
     if status \<noteq> None then (status, tup, buf) else tuple_readImpl es status tup buf)"

definition tuple_rw :: "'c rw list \<Rightarrow> 'c rw" where
  "tuple_rw es = \<lparr>rw_write = (\<lambda>tup. concat (map (\<lambda>e. rw_write e tup) es)),
     rw_read = tuple_readImpl es None,
     rw_size = (\<lambda>tup. sum_list (map (\<lambda>e. rw_size e tup) es))\<rparr>"

section \<open>Pointers and types without a format of their own\<close>

text \<open>A raw pointer is written as the object it points to, and read into that object; \<open>None\<close> is a null
  pointer that is followed.\<close>

definition raw_write :: "'a rw \<Rightarrow> 'a option \<Rightarrow> byte list option" where
  "raw_write f obj = map_option (rw_write f) obj"

definition raw_read :: "'a rw \<Rightarrow> 'a option \<Rightarrow> byte list \<Rightarrow> (read_error option \<times> 'a option \<times> byte list) option" where
  "raw_read f obj buf = map_option (\<lambda>x. case rw_read f x buf of (st, y, rest) \<Rightarrow> (st, Some y, rest)) obj"

definition raw_size :: "'a rw \<Rightarrow> 'a option \<Rightarrow> nat option" where
  "raw_size f obj = map_option (rw_size f) obj"

text \<open>\<open>dflt\<close> is the object that \<^verbatim>\<open>make_shared\<close> or \<^verbatim>\<open>make_unique\<close> makes.\<close>

definition pointer_rw :: "'a \<Rightarrow> 'a rw \<Rightarrow> 'a option rw" where
  "pointer_rw dflt f = \<lparr>
     rw_write = (\<lambda>obj. bool_write (obj \<noteq> None) @ (case obj of Some x \<Rightarrow> rw_write f x | None \<Rightarrow> [])),
     rw_read = (\<lambda>obj buf. case buf of [] \<Rightarrow> (Some (RPC_FAILED 1 0), Some dflt, [])
       | b # buf \<Rightarrow> if b \<noteq> 0 then (case rw_read f dflt buf of (st, x, rest) \<Rightarrow> (st, Some x, rest))
           else (None, Some dflt, buf)),
     rw_size = (\<lambda>obj. 1 + (case obj of Some x \<Rightarrow> rw_size f x | None \<Rightarrow> 0))\<rparr>"

definition shared_ptr_rw :: "'a \<Rightarrow> 'a rw \<Rightarrow> 'a option rw" where
  "shared_ptr_rw dflt f = pointer_rw dflt f"

definition unique_ptr_rw :: "'a \<Rightarrow> 'a rw \<Rightarrow> 'a option rw" where
  "unique_ptr_rw dflt f = pointer_rw dflt f"

definition shared_ptr_read_flag :: "(bool \<Rightarrow> 'a) \<Rightarrow> 'a rw \<Rightarrow> bool \<Rightarrow> 'a option inplace" where
  "shared_ptr_read_flag new f flag = rw_read (pointer_rw (new flag) f)"

definition empty_rw :: "'a rw" where
  "empty_rw = \<lparr>rw_write = (\<lambda>_. []), rw_read = (\<lambda>obj buf. (None, obj, buf)), rw_size = (\<lambda>_. 0)\<rparr>"

text \<open>An object that is encoded trivially is the list of its bytes in memory.\<close>

definition trivial_rw :: "nat \<Rightarrow> byte list rw" where
  "trivial_rw sizeof = \<lparr>rw_write = (\<lambda>obj. obj),
     rw_read = (\<lambda>obj buf. if length buf < sizeof then (Some (RPC_DESERIALIZE_ERROR sizeof (length buf)), obj, buf)
       else (None, take sizeof buf, drop sizeof buf)),
     rw_size = (\<lambda>_. sizeof)\<rparr>"

section \<open>Memory statistics\<close>

text \<open>The members that are written depend on the build: \<open>ndebug\<close> is \<^verbatim>\<open>NDEBUG\<close>. Counters are \<^verbatim>\<open>int64_t\<close>.\<close>

definition counter_member :: "(op_usage \<Rightarrow> int) \<Rightarrow> (int \<Rightarrow> op_usage \<Rightarrow> op_usage) \<Rightarrow> op_usage rw" where
  "counter_member sel upd =
     member_of (\<lambda>u. word_of_int (sel u) :: int64) (\<lambda>v. upd (sint v)) (scalar_rw 8)"

definition counters :: "((op_usage \<Rightarrow> int) \<times> (int \<Rightarrow> op_usage \<Rightarrow> op_usage)) list" where
  "counters = [(op_amount, \<lambda>v. op_amount_update (\<lambda>_. v)), (op_peak, \<lambda>v. op_peak_update (\<lambda>_. v))]"

definition debug_counters :: "((op_usage \<Rightarrow> int) \<times> (int \<Rightarrow> op_usage \<Rightarrow> op_usage)) list" where
  "debug_counters = [(allocated, \<lambda>v. allocated_update (\<lambda>_. v)), (freed, \<lambda>v. freed_update (\<lambda>_. v))]
     @ map (\<lambda>i. (\<lambda>u. hist u ! i, \<lambda>v u. u\<lparr>hist := (hist u)[i := v]\<rparr>)) [0..<8]"

definition usage_rw :: "bool \<Rightarrow> op_usage rw" where
  "usage_rw ndebug = SERIALIZE_EACH_MEMBER
     (map (\<lambda>(sel, upd). counter_member sel upd) (counters @ (if ndebug then [] else debug_counters)))"

section \<open>Laws of containers, tuples and pointers\<close>

text \<open>The trait, when it is there, is the size of every value.\<close>

definition trait_ok :: "nat option \<Rightarrow> ('a \<Rightarrow> nat) \<Rightarrow> bool" where
  "trait_ok const s \<longleftrightarrow> (\<forall>n. const = Some n \<longrightarrow> (\<forall>x. s x = n))"

lemma trait_ok_None [simp]: "trait_ok None s"
  by (simp add: trait_ok_def)

lemma trait_ok_Some: "trait_ok (Some n) s \<longleftrightarrow> s = (\<lambda>_. n)"
  by (auto simp: trait_ok_def)

lemma deque_size_vector: "trait_ok const s \<Longrightarrow> deque_size const s = vector_size s"
  by (auto simp: deque_size_def vector_size_def trait_ok_Some fun_eq_iff sum_list_const split: option.split)

lemma set_size_vector:
  "trait_ok const s \<Longrightarrow> uset_size const s = vector_size s"
  "trait_ok const s \<Longrightarrow> set_size const s = vector_size s"
  by (auto simp: uset_size_def set_size_def vector_size_def trait_ok_Some fun_eq_iff sum_list_const split: option.split)

lemma set_write_vector: "uset_write w = vector_write w" "set_write w = vector_write w"
  by (simp_all add: fun_eq_iff uset_write_def set_write_def vector_write_def)

lemma std_map_write_map: "std_map_write wk wv = map_write wk wv"
  by (simp add: fun_eq_iff std_map_write_def map_write_def pair_write_def [abs_def] case_prod_beta')

lemma std_map_size_map:
  "trait_ok ck sk \<Longrightarrow> trait_ok cv sv \<Longrightarrow> std_map_size ck cv sk sv = map_size sk sv"
  by (auto simp: std_map_size_def map_size_def trait_ok_Some fun_eq_iff pair_size_def [abs_def] case_prod_beta' sum_list_const
      split: option.split)

lemma tuple_readImpl_fold: "tuple_readImpl es None tup buf = fold_read es tup buf"
  by (induction es arbitrary: tup buf) (auto split: prod.split option.split)

lemma tuple_members: "tuple_rw es = SERIALIZE_EACH_MEMBER es"
proof -
  have "concat (map (\<lambda>e. rw_write e tup) es) = fold_write es tup" for tup by (induction es) simp_all
  then show ?thesis
    by (simp add: tuple_rw_def SERIALIZE_EACH_MEMBER_def tuple_readImpl_fold fun_eq_iff fold_size_def)
qed

lemma in_reader_pointer: "in_reader (rw_read (pointer_rw d f)) obj = ptr_read d (in_reader (rw_read f) d)"
proof
  fix buf show "in_reader (rw_read (pointer_rw d f)) obj buf = ptr_read d (in_reader (rw_read f) d) buf"
    by (cases buf) (auto simp: in_reader_def pointer_rw_def ptr_read_def rbind_def bool_read_def le_read_def
        rreturn_def split: prod.splits option.splits)
qed

text \<open>The elements of a tuple of three.\<close>

definition triple_elements :: "'a rw \<Rightarrow> 'b rw \<Rightarrow> 'c rw \<Rightarrow> ('a \<times> 'b \<times> 'c) rw list" where
  "triple_elements f g h = [member_of fst (\<lambda>v t. (v, snd t)) f, member_of (fst \<circ> snd) (\<lambda>v t. (fst t, v, snd (snd t))) g,
     member_of (snd \<circ> snd) (\<lambda>v t. (fst t, fst (snd t), v)) h]"

lemma triple_codec:
  assumes "\<And>x. codec (rw_write f) (in_reader (rw_read f) x) (rw_size f) u"
    "\<And>x. codec (rw_write g) (in_reader (rw_read g) x) (rw_size g) v"
    "\<And>x. codec (rw_write h) (in_reader (rw_read h) x) (rw_size h) w"
  shows "codec (rw_write (tuple_rw (triple_elements f g h))) (in_reader (rw_read (tuple_rw (triple_elements f g h))) obj)
    (rw_size (tuple_rw (triple_elements f g h))) (\<lambda>(x, y, z). u x \<and> v y \<and> w z)"
  unfolding tuple_members
proof (rule member_class.class_codec, unfold_locales)
  show "list_all2 (member_ok (\<lambda>(x, y, z). u x \<and> v y \<and> w z)) (triple_elements f g h)
      [\<lambda>x t. (fst x, snd t), \<lambda>x t. (fst t, fst (snd x), snd (snd t)), \<lambda>x t. (fst t, fst (snd t), snd (snd x))]"
    using member_of_ok [OF assms(1), of "\<lambda>(x, y, z). u x \<and> v y \<and> w z" fst "\<lambda>v t. (v, snd t)"]
      member_of_ok [OF assms(2), of "\<lambda>(x, y, z). u x \<and> v y \<and> w z" "fst \<circ> snd" "\<lambda>v t. (fst t, v, snd (snd t))"]
      member_of_ok [OF assms(3), of "\<lambda>(x, y, z). u x \<and> v y \<and> w z" "snd \<circ> snd" "\<lambda>v t. (fst t, fst (snd t), v)"]
    by (simp add: triple_elements_def)
qed simp

section \<open>Laws of the statistics\<close>

definition counter_ok :: "int \<Rightarrow> bool" where
  "counter_ok i \<longleftrightarrow> - (2 ^ 63) \<le> i \<and> i < 2 ^ 63"

definition usage_valid :: "op_usage \<Rightarrow> bool" where
  "usage_valid u \<longleftrightarrow> length (hist u) = 8 \<and> list_all (\<lambda>(sel, upd). counter_ok (sel u)) (counters @ debug_counters)"

lemma sint_counter: "counter_ok i \<Longrightarrow> sint (word_of_int i :: int64) = i"
  unfolding counter_ok_def by (simp add: sint_sbintrunc' signed_take_bit_int_eq_self)

lemma counter_member_ok:
  assumes "\<And>u. valid u \<Longrightarrow> counter_ok (sel u)"
  shows "member_ok valid (counter_member sel upd) (\<lambda>u. upd (sel u))"
proof -
  have c: "codec (rw_write (scalar_rw 8 :: int64 rw)) (in_reader (rw_read (scalar_rw 8)) v) (rw_size (scalar_rw 8 :: int64 rw)) (\<lambda>_. True)" for v
    using i64.codec_axioms unfolding in_reader_scalar by (simp add: scalar_rw_def)
  have "member_ok valid (counter_member sel upd) (\<lambda>u. upd (sint (word_of_int (sel u) :: int64)))"
    unfolding counter_member_def by (rule member_of_ok [OF c]) simp
  then show ?thesis using assms unfolding member_ok_def by (simp add: sint_counter)
qed

lemma counters_ok:
  "set cs \<subseteq> set (counters @ debug_counters) \<Longrightarrow>
   list_all2 (member_ok usage_valid) (map (\<lambda>(sel, upd). counter_member sel upd) cs) (map (\<lambda>(sel, upd) u. upd (sel u)) cs)"
proof (induction cs)
  case (Cons c cs)
  obtain sel upd where c: "c = (sel, upd)" by (cases c)
  have "usage_valid u \<Longrightarrow> counter_ok (sel u)" for u
    using Cons.prems c unfolding usage_valid_def list_all_iff by fastforce
  then show ?case using Cons c by (simp add: counter_member_ok)
qed simp

lemma usage_decodes:
  assumes "usage_valid u" "set cs \<subseteq> set (counters @ debug_counters)"
  shows "decodes (in_reader (fold_read (map (\<lambda>(sel, upd). counter_member sel upd) cs)) u0)
      (fold_write (map (\<lambda>(sel, upd). counter_member sel upd) cs) u) (foldl (\<lambda>obj (sel, upd). upd (sel u) obj) u0 cs)"
proof -
  have "foldl (\<lambda>obj c. c u obj) u0 (map (\<lambda>(sel, upd) u. upd (sel u)) cs) = foldl (\<lambda>obj (sel, upd). upd (sel u) obj) u0 cs"
    by (induction cs arbitrary: u0) auto
  then show ?thesis using fold_decodes_copies [OF counters_ok [OF assms(2)] assms(1), of u0] by simp
qed

lemma copy_release: "foldl (\<lambda>obj (sel, upd). upd (sel u) obj) u0 counters = u0\<lparr>op_amount := op_amount u, op_peak := op_peak u\<rparr>"
  by (simp add: counters_def)

lemma copy_debug:
  assumes "length (hist u0) = 8" "length (hist u) = 8"
  shows "foldl (\<lambda>obj (sel, upd). upd (sel u) obj) u0 (counters @ debug_counters) = u"
proof -
  obtain a0 a1 a2 a3 a4 a5 a6 a7 where a: "hist u0 = [a0, a1, a2, a3, a4, a5, a6, a7]"
    using assms(1) by (auto simp: length_Suc_conv eval_nat_numeral)
  obtain b0 b1 b2 b3 b4 b5 b6 b7 where b: "hist u = [b0, b1, b2, b3, b4, b5, b6, b7]"
    using assms(2) by (auto simp: length_Suc_conv eval_nat_numeral)
  show ?thesis by (simp add: counters_def debug_counters_def upt_rec a b)
qed

lemma length_counters: "length (fold_write (map (\<lambda>(sel, upd). counter_member sel upd) cs) u) = 8 * length cs"
  by (induction cs) (auto simp: counter_member_def member_of_def scalar_rw_def)

lemma fold_write_append: "fold_write (ms @ ms') x = fold_write ms x @ fold_write ms' x"
  by (induction ms) simp_all

section \<open>Properties\<close>

text \<open>Tuples on the wire: a tuple is given back by its reader, with the bytes behind it, it takes
  \<^verbatim>\<open>encodedSize\<close> bytes and a cut buffer is refused, whenever its elements have codecs.\<close>

theorem tuple_wire:
  assumes "\<And>x. codec (rw_write f) (in_reader (rw_read f) x) (rw_size f) u"
    "\<And>x. codec (rw_write g) (in_reader (rw_read g) x) (rw_size g) v"
    "\<And>x. codec (rw_write h) (in_reader (rw_read h) x) (rw_size h) w"
    "u a" "v b" "w c" "tup = tuple_rw (triple_elements f g h)" "n < rw_size tup (a, b, c)"
  shows "rw_read tup t (rw_write tup (a, b, c) @ rest) = (None, (a, b, c), rest)
    \<and> length (rw_write tup (a, b, c)) = rw_size tup (a, b, c)
    \<and> (\<exists>e t' buf. rw_read tup t (take n (rw_write tup (a, b, c))) = (Some e, t', buf))"
proof -
  note c = triple_codec [OF assms(1-3), folded assms(7)]
  have abc: "case (a, b, c) of (x, y, z) \<Rightarrow> u x \<and> v y \<and> w z" using assms by simp
  show ?thesis
    using codec.roundtrip [OF c abc, of t rest] codec.size_write [OF c abc] codec.truncated [OF c abc assms(8), of t]
    unfolding in_reader_Inr in_reader_Inl by simp
qed

theorem tuple_wire_witness:
  "let tup = tuple_rw (triple_elements string_rw (scalar_rw 4 :: uint32 rw) string_rw)
   in rw_size tup (''bus'', 7, ''line'') = 19
     \<and> rw_read tup ([], 0, []) (rw_write tup (''bus'', 7, ''line'') @ [1]) = (None, (''bus'', 7, ''line''), [1])"
proof -
  have n: "rw_size (tuple_rw (triple_elements string_rw (scalar_rw 4 :: uint32 rw) string_rw)) (''bus'', 7, ''line'') = 19"
    by (simp add: tuple_rw_def triple_elements_def member_of_def string_rw_def scalar_rw_def string_size_def)
  then show ?thesis
    using tuple_wire [OF string_rw_codec port_rw_codec string_rw_codec, where a = "''bus''" and b = 7 and c = "''line''"
      and n = 0 and t = "([], 0, [])" and rest = "[1]"]
    by (simp add: Let_def)
qed

text \<open>Sets and ordered maps are codecs with either size function, and a deque has the size of a vector.\<close>

theorem container_sizes:
  assumes "codec w r s v" "trait_ok const s" "list_all v ks" "length ks < 2 ^ 32" "sorted ks" "distinct ks"
  shows "set_read r (set_write w ks @ rest) = Inr (ks, rest) \<and> length (set_write w ks) = set_size const s ks
    \<and> uset_read r (uset_write w ks @ rest) = Inr (ks, rest) \<and> length (uset_write w ks) = uset_size const s ks
    \<and> length (deque_write w ks) = deque_size const s ks"
proof -
  have 1: "list_all v ks \<and> length ks < 2 ^ 32 \<and> distinct ks \<and> sorted ks" using assms by blast
  have 2: "list_all v ks \<and> length ks < 2 ^ 32 \<and> distinct ks" using assms by blast
  show ?thesis
    using codec.roundtrip [OF set_codec [OF assms(1)] 1] codec.size_write [OF set_codec [OF assms(1)] 1]
      codec.roundtrip [OF uset_codec [OF assms(1)] 2]
    by (simp add: set_write_vector set_size_vector [OF assms(2)] deque_size_vector [OF assms(2)] deque_vector)
qed

text \<open>Any bytes are counters: reading counters succeeds exactly when there are eight bytes for each.\<close>

lemma fold_read_counters:
  "8 * length cs \<le> length buf \<Longrightarrow>
     \<exists>v. fold_read (map (\<lambda>(sel, upd). counter_member sel upd) cs) obj buf = (None, v, drop (8 * length cs) buf)"
  "length buf < 8 * length cs \<Longrightarrow>
     \<exists>e v rest. fold_read (map (\<lambda>(sel, upd). counter_member sel upd) cs) obj buf = (Some e, v, rest)"
proof (induction cs arbitrary: obj buf)
  case (Cons c cs)
  obtain sel upd where c: "c = (sel, upd)" by (cases c)
  {
    case 1
    then show ?case using Cons.IH(1) [of "drop 8 buf"]
      by (simp add: c counter_member_def member_of_def scalar_rw_def algebra_simps)
  next
    case 2
    then show ?case using Cons.IH(2) [of "drop 8 buf"]
      by (simp add: c counter_member_def member_of_def scalar_rw_def)
  }
qed simp_all

text \<open>Claim C37. The statistics of an operator have one format per build type: two counters in a release build,
  twelve in a debug build. Within one build they are read back, in a release build the two counters it has. A release
  build accepts the statistics of a debug build, takes the first two counters and leaves 80 bytes in the
  buffer. A debug build that reads those of a release build refuses them exactly when fewer than 80 bytes
  follow; otherwise it succeeds and takes the next 80 bytes of the buffer for its own counters.\<close>

theorem usage_wire:
  assumes "usage_valid u" "length (hist u0) = 8"
  shows "rw_read (usage_rw False) u0 (rw_write (usage_rw False) u @ rest) = (None, u, rest)
    \<and> rw_read (usage_rw True) u0 (rw_write (usage_rw True) u @ rest)
        = (None, u0\<lparr>op_amount := op_amount u, op_peak := op_peak u\<rparr>, rest)
    \<and> (\<exists>more. length more = 80 \<and> rw_read (usage_rw True) u0 (rw_write (usage_rw False) u @ rest)
        = (None, u0\<lparr>op_amount := op_amount u, op_peak := op_peak u\<rparr>, more @ rest))
    \<and> (if length rest < 80
       then \<exists>e v buf. rw_read (usage_rw False) u0 (rw_write (usage_rw True) u @ rest) = (Some e, v, buf)
       else \<exists>v. rw_read (usage_rw False) u0 (rw_write (usage_rw True) u @ rest) = (None, v, drop 80 rest))"
proof (intro conjI)
  let ?w = "\<lambda>cs. fold_write (map (\<lambda>(sel, upd). counter_member sel upd) cs)"
  let ?r = "u0\<lparr>op_amount := op_amount u, op_peak := op_peak u\<rparr>"
  have h: "length (hist u) = 8" using assms(1) by (simp add: usage_valid_def)
  have d: "decodes (in_reader (rw_read (usage_rw False)) u0) (?w (counters @ debug_counters) u) u"
    using usage_decodes [OF assms(1), of "counters @ debug_counters" u0] copy_debug [OF assms(2) h]
    by (simp add: usage_rw_def SERIALIZE_EACH_MEMBER_def)
  have "decodes (in_reader (rw_read (usage_rw True)) u0) (?w counters u) ?r"
    using usage_decodes [OF assms(1), of counters u0] copy_release [of u u0]
    by (simp add: usage_rw_def SERIALIZE_EACH_MEMBER_def)
  then have r: "rw_read (usage_rw True) u0 (?w counters u @ tl) = (None, ?r, tl)" for tl
    unfolding decodes_def in_reader_Inr by blast
  have split: "?w (counters @ debug_counters) u = ?w counters u @ ?w debug_counters u" by (simp add: fold_write_append)
  have len: "length (?w debug_counters u) = 80" "length (?w counters u) = 16" "length (counters @ debug_counters) = 12"
    unfolding length_counters by (simp_all add: counters_def debug_counters_def)
  have w: "rw_write (usage_rw False) u = ?w (counters @ debug_counters) u" "rw_write (usage_rw True) u = ?w counters u"
    by (simp_all add: usage_rw_def SERIALIZE_EACH_MEMBER_def)
  show "rw_read (usage_rw False) u0 (rw_write (usage_rw False) u @ rest) = (None, u, rest)"
    using d unfolding w decodes_def in_reader_Inr by blast
  show "rw_read (usage_rw True) u0 (rw_write (usage_rw True) u @ rest) = (None, ?r, rest)"
    unfolding w by (rule r)
  show "\<exists>more. length more = 80 \<and> rw_read (usage_rw True) u0 (rw_write (usage_rw False) u @ rest) = (None, ?r, more @ rest)"
    using len(1) r [of "?w debug_counters u @ rest"] unfolding w split append_assoc by blast
  have rd: "rw_read (usage_rw False) u0 (?w counters u @ rest)
      = fold_read (map (\<lambda>(sel, upd). counter_member sel upd) (counters @ debug_counters)) u0 (?w counters u @ rest)"
    by (simp add: usage_rw_def SERIALIZE_EACH_MEMBER_def)
  note f = fold_read_counters [where cs = "counters @ debug_counters" and buf = "?w counters u @ rest" and obj = u0,
      folded rd, unfolded len(3)]
  have b: "length (?w counters u @ rest) = 16 + length rest" "drop (8 * 12) (?w counters u @ rest) = drop 80 rest"
    by (simp_all add: len(2))
  show "if length rest < 80
     then \<exists>e v buf. rw_read (usage_rw False) u0 (rw_write (usage_rw True) u @ rest) = (Some e, v, buf)
     else \<exists>v. rw_read (usage_rw False) u0 (rw_write (usage_rw True) u @ rest) = (None, v, drop 80 rest)"
    using f unfolding w b by (cases "length rest < 80") simp_all
qed

theorem usage_wire_witness:
  "\<exists>more. length more = 80 \<and> rw_read (usage_rw True) op_usage_zero (rw_write (usage_rw False) (op_alloc 100 op_usage_zero) @ [1])
      = (None, op_usage_zero\<lparr>op_amount := 100, op_peak := 100\<rparr>, more @ [1])"
proof -
  have "usage_valid (op_alloc 100 op_usage_zero)"
    by (simp add: usage_valid_def counters_def debug_counters_def upt_rec counter_ok_def op_alloc_def op_usage_zero_def
        Let_def hist_class_def eval_nat_numeral)
  then show ?thesis using usage_wire [of "op_alloc 100 op_usage_zero" op_usage_zero "[1]"]
    by (simp add: op_alloc_def op_usage_zero_def Let_def)
qed

end
