(* ===== verification/ValueOps.thy ===== *)
theory ValueOps
  imports Hashing MemberCodec
begin

text \<open>
  More operations of values (\<^verbatim>\<open>src/include/nebula/common/datatype/Value.h\<close>): the accessors that are not in \<open>Values\<close>,
  casts between numeric kinds with the conversions of C++, hash keys; and the operations of \<^verbatim>\<open>List.h\<close>,
  \<^verbatim>\<open>Path.h\<close>, \<^verbatim>\<open>Record.h\<close>, \<^verbatim>\<open>Node.h\<close> and \<^verbatim>\<open>Edge.h\<close>. The relational operators of \<^verbatim>\<open>Value\<close> are only declared:
  parameters, with the locale \<open>comparison\<close> as what is asked of them. A failed check and undefined
  behaviour are \<open>None\<close>.
\<close>

section \<open>Predicates and accessors\<close>

type_synonym float = "32 word"

definition isBool :: "Value \<Rightarrow> bool" where "isBool v \<longleftrightarrow> getType v = kBool"
definition isInt8 :: "Value \<Rightarrow> bool" where "isInt8 v \<longleftrightarrow> getType v = kInt8"
definition isInt16 :: "Value \<Rightarrow> bool" where "isInt16 v \<longleftrightarrow> getType v = kInt16"
definition isInt32 :: "Value \<Rightarrow> bool" where "isInt32 v \<longleftrightarrow> getType v = kInt32"
definition isList :: "Value \<Rightarrow> bool" where "isList v \<longleftrightarrow> getType v = kList"
definition isPath :: "Value \<Rightarrow> bool" where "isPath v \<longleftrightarrow> getType v = kPath"
definition isRecord :: "Value \<Rightarrow> bool" where "isRecord v \<longleftrightarrow> getType v = kRecord"
definition isNode :: "Value \<Rightarrow> bool" where "isNode v \<longleftrightarrow> getType v = kNode"
definition isEdge :: "Value \<Rightarrow> bool" where "isEdge v \<longleftrightarrow> getType v = kEdge"
definition isLocalTime :: "Value \<Rightarrow> bool" where "isLocalTime v \<longleftrightarrow> getType v = kLocalTime"
definition isZonedTime :: "Value \<Rightarrow> bool" where "isZonedTime v \<longleftrightarrow> getType v = kZonedTime"
definition isDuration :: "Value \<Rightarrow> bool" where "isDuration v \<longleftrightarrow> getType v = kDuration"
definition isDate :: "Value \<Rightarrow> bool" where "isDate v \<longleftrightarrow> getType v = kDate"
definition isLocalDatetime :: "Value \<Rightarrow> bool" where "isLocalDatetime v \<longleftrightarrow> getType v = kLocalDatetime"
definition isZonedDatetime :: "Value \<Rightarrow> bool" where "isZonedDatetime v \<longleftrightarrow> getType v = kZonedDatetime"

definition getInt8 :: "Value \<Rightarrow> int8 option" where
  "getInt8 v = (case v of VInt8 x \<Rightarrow> Some x | _ \<Rightarrow> None)"

definition getInt16 :: "Value \<Rightarrow> int16 option" where
  "getInt16 v = (case v of VInt16 x \<Rightarrow> Some x | _ \<Rightarrow> None)"

definition getUint8 :: "Value \<Rightarrow> byte option" where
  "getUint8 v = (case v of VUint8 x \<Rightarrow> Some x | _ \<Rightarrow> None)"

definition getUint16 :: "Value \<Rightarrow> uint16 option" where
  "getUint16 v = (case v of VUint16 x \<Rightarrow> Some x | _ \<Rightarrow> None)"

definition getUint32 :: "Value \<Rightarrow> uint32 option" where
  "getUint32 v = (case v of VUint32 x \<Rightarrow> Some x | _ \<Rightarrow> None)"

definition getUint64 :: "Value \<Rightarrow> uint64 option" where
  "getUint64 v = (case v of VUint64 x \<Rightarrow> Some x | _ \<Rightarrow> None)"

definition getFloat :: "Value \<Rightarrow> float option" where
  "getFloat v = (case v of VFloat x \<Rightarrow> Some x | _ \<Rightarrow> None)"

definition getList :: "Value \<Rightarrow> (Value list) option" where
  "getList v = (case v of VList x \<Rightarrow> Some x | _ \<Rightarrow> None)"

definition getPath :: "Value \<Rightarrow> (Value list) option" where
  "getPath v = (case v of VPath x \<Rightarrow> Some x | _ \<Rightarrow> None)"

definition getRecord :: "Value \<Rightarrow> ((string \<times> Value) list) option" where
  "getRecord v = (case v of VRecord x \<Rightarrow> Some x | _ \<Rightarrow> None)"

definition getLocalTime :: "Value \<Rightarrow> LocalTime option" where
  "getLocalTime v = (case v of VLocalTime x \<Rightarrow> Some x | _ \<Rightarrow> None)"

definition getZonedTime :: "Value \<Rightarrow> ZonedTime option" where
  "getZonedTime v = (case v of VZonedTime x \<Rightarrow> Some x | _ \<Rightarrow> None)"

definition getDate :: "Value \<Rightarrow> Date option" where
  "getDate v = (case v of VDate x \<Rightarrow> Some x | _ \<Rightarrow> None)"

definition getLocalDatetime :: "Value \<Rightarrow> LocalDatetime option" where
  "getLocalDatetime v = (case v of VLocalDatetime x \<Rightarrow> Some x | _ \<Rightarrow> None)"

definition getZonedDatetime :: "Value \<Rightarrow> ZonedDatetime option" where
  "getZonedDatetime v = (case v of VZonedDatetime x \<Rightarrow> Some x | _ \<Rightarrow> None)"

definition getDuration :: "Value \<Rightarrow> Duration option" where
  "getDuration v = (case v of VDuration x \<Rightarrow> Some x | _ \<Rightarrow> None)"

definition getNode :: "Value \<Rightarrow> Node option" where
  "getNode v = (case v of VNode i g ps \<Rightarrow> Some \<lparr>nodeIdent = i, nodeGraphID = g, node_properties = ps\<rparr> | _ \<Rightarrow> None)"

definition getEdge :: "Value \<Rightarrow> Edge option" where
  "getEdge v = (case v of VEdge i ps \<Rightarrow> Some \<lparr>edgeIdent = i, edge_properties = ps\<rparr> | _ \<Rightarrow> None)"

section \<open>float\<close>

text \<open>The binary32 counterpart of \<open>Double\<close>: 8 bits of exponent and 23 of mantissa.\<close>

definition f_decode :: "float \<Rightarrow> fp" where
  "f_decode w = (let s = bit w 31; ex = uint (take_bit 8 (drop_bit 23 w)); fr = uint (take_bit 23 w) in
     if ex = 255 then (if fr = 0 then FInf s else FNaN)
     else if ex = 0 then FFin s fr (-149)
     else FFin s (fr + 2 ^ 23) (ex - 150))"

definition f_sign :: "bool \<Rightarrow> float" where
  "f_sign s = (if s then 0x80000000 else 0)"

definition f_ulp_exponent :: "int \<Rightarrow> int \<Rightarrow> int" where
  "f_ulp_exponent n d =
     (let k = bitlen n - bitlen d;
          ge = (if 0 \<le> k then d * 2 ^ nat k \<le> n else d \<le> n * 2 ^ nat (- k));
          e = (if ge then k - 23 else k - 24)
      in max e (-149))"

definition f_round_ratio :: "bool \<Rightarrow> int \<Rightarrow> int \<Rightarrow> float" where
  "f_round_ratio s n d =
     (if n = 0 then f_sign s
      else let e = f_ulp_exponent n d; (a, b) = scale_ratio n d e; m = round_div a b;
               bits = (e + 149) * 2 ^ 23 + m
           in if 255 * 2 ^ 23 \<le> bits then f_sign s OR 0x7F800000
              else word_of_int bits OR f_sign s)"

definition f_of_int :: "int \<Rightarrow> float" where
  "f_of_int i = f_round_ratio (i < 0) \<bar>i\<bar> 1"

definition float_of_double :: "double \<Rightarrow> float" where
  "float_of_double w = (case decode w of
     FNaN \<Rightarrow> 0x7FC00000
   | FInf s \<Rightarrow> f_sign s OR 0x7F800000
   | FFin s m e \<Rightarrow> if 0 \<le> e then f_round_ratio s (m * 2 ^ nat e) 1 else f_round_ratio s m (2 ^ nat (- e)))"

definition double_of_float :: "float \<Rightarrow> double" where
  "double_of_float w = (case f_decode w of
     FNaN \<Rightarrow> fp_nan
   | FInf s \<Rightarrow> fp_inf s
   | FFin s m e \<Rightarrow> if 0 \<le> e then round_ratio s (m * 2 ^ nat e) 1 else round_ratio s m (2 ^ nat (- e)))"

definition isNaN :: "Value \<Rightarrow> bool" where
  "isNaN v \<longleftrightarrow> (case v of VFloat w \<Rightarrow> f_decode w = FNaN | VDouble w \<Rightarrow> decode w = FNaN | _ \<Rightarrow> False)"

definition getFloatingVal :: "Value \<Rightarrow> double option" where
  "getFloatingVal v = (case getType v of
     kFloat64 \<Rightarrow> getDouble v
   | kFloat32 \<Rightarrow> map_option double_of_float (getFloat v)
   | _ \<Rightarrow> None)"

section \<open>Numeric casts\<close>

text \<open>The argument of \<^verbatim>\<open>doCastNumeric\<close>: an integer of any type, a float or a double.\<close>

datatype number = NInt int | NFloat float | NDouble double

text \<open>\<^verbatim>\<open>static_cast\<close> to an integer type: integers wrap around, floating point numbers are truncated, and out of the
  range \<open>lo\<close> to \<open>hi\<close> of the type the conversion is undefined.\<close>

definition truncate_in :: "int \<Rightarrow> int \<Rightarrow> fp \<Rightarrow> int option" where
  "truncate_in lo hi x = (case x of
     FFin s m e \<Rightarrow> (let i = signed_mant s (trunc_fp m e) in if lo \<le> i \<and> i \<le> hi then Some i else None)
   | _ \<Rightarrow> None)"

definition cast_int :: "int \<Rightarrow> int \<Rightarrow> number \<Rightarrow> 'l::len word option" where
  "cast_int lo hi n = map_option word_of_int (case n of
     NInt i \<Rightarrow> Some i | NFloat w \<Rightarrow> truncate_in lo hi (f_decode w) | NDouble w \<Rightarrow> truncate_in lo hi (decode w))"

definition cast_float :: "number \<Rightarrow> float" where
  "cast_float n = (case n of NInt i \<Rightarrow> f_of_int i | NFloat w \<Rightarrow> w | NDouble w \<Rightarrow> float_of_double w)"

definition cast_double :: "number \<Rightarrow> double" where
  "cast_double n = (case n of NInt i \<Rightarrow> d_of_int i | NFloat w \<Rightarrow> double_of_float w | NDouble w \<Rightarrow> w)"

fun doCastNumeric :: "number \<Rightarrow> ValueTypeKind \<Rightarrow> Value option" where
  "doCastNumeric val kInt8 = map_option VInt8 (cast_int (-128) 127 val)"
| "doCastNumeric val kInt16 = map_option VInt16 (cast_int (-32768) 32767 val)"
| "doCastNumeric val kInt32 = map_option VInt32 (cast_int (- (2 ^ 31)) (2 ^ 31 - 1) val)"
| "doCastNumeric val kInt64 = map_option VInt64 (cast_int (- (2 ^ 63)) (2 ^ 63 - 1) val)"
| "doCastNumeric val kUint8 = map_option VUint8 (cast_int 0 255 val)"
| "doCastNumeric val kUint16 = map_option VUint16 (cast_int 0 65535 val)"
| "doCastNumeric val kUint32 = map_option VUint32 (cast_int 0 (2 ^ 32 - 1) val)"
| "doCastNumeric val kUint64 = map_option VUint64 (cast_int 0 (2 ^ 64 - 1) val)"
| "doCastNumeric val kFloat32 = Some (VFloat (cast_float val))"
| "doCastNumeric val kFloat64 = Some (VDouble (cast_double val))"
| "doCastNumeric val _ = None"

section \<open>Laws of the casts\<close>

text \<open>The range of an integer kind and the number in an integer value.\<close>

fun int_range :: "ValueTypeKind \<Rightarrow> (int \<times> int) option" where
  "int_range kInt8 = Some (-128, 127)"
| "int_range kInt16 = Some (-32768, 32767)"
| "int_range kInt32 = Some (- (2 ^ 31), 2 ^ 31 - 1)"
| "int_range kInt64 = Some (- (2 ^ 63), 2 ^ 63 - 1)"
| "int_range kUint8 = Some (0, 255)"
| "int_range kUint16 = Some (0, 65535)"
| "int_range kUint32 = Some (0, 2 ^ 32 - 1)"
| "int_range kUint64 = Some (0, 2 ^ 64 - 1)"
| "int_range _ = None"

fun value_int :: "Value \<Rightarrow> int option" where
  "value_int (VInt8 i) = Some (sint i)"
| "value_int (VInt16 i) = Some (sint i)"
| "value_int (VInt32 i) = Some (sint i)"
| "value_int (VInt64 i) = Some (sint i)"
| "value_int (VUint8 i) = Some (uint i)"
| "value_int (VUint16 i) = Some (uint i)"
| "value_int (VUint32 i) = Some (uint i)"
| "value_int (VUint64 i) = Some (uint i)"
| "value_int _ = None"

text \<open>The integers of the range \<open>lo\<close> to \<open>hi\<close> as the values of a word.\<close>

definition represents :: "int \<Rightarrow> int \<Rightarrow> ('l::len word \<Rightarrow> int) \<Rightarrow> bool" where
  "represents lo hi val \<longleftrightarrow> (\<forall>i. lo \<le> val (word_of_int i) \<and> val (word_of_int i) \<le> hi
     \<and> (hi - lo + 1) dvd (i - val (word_of_int i)))"

lemma represents_uint: "represents 0 (2 ^ LENGTH('l) - 1) (uint :: 'l::len word \<Rightarrow> int)"
  by (simp add: represents_def uint_word_of_int dvd_eq_mod_eq_0 mod_diff_right_eq zle_diff1_eq)

lemma represents_sint:
  "represents (- (2 ^ (LENGTH('l) - 1))) (2 ^ (LENGTH('l) - 1) - 1) (sint :: 'l::len word \<Rightarrow> int)"
  unfolding represents_def
proof (intro allI conjI)
  fix i
  let ?w = "word_of_int i :: 'l word"
  show "- (2 ^ (LENGTH('l) - 1)) \<le> sint ?w" by (rule sint_ge)
  show "sint ?w \<le> 2 ^ (LENGTH('l) - 1) - 1" using sint_lt [of ?w] by simp
  have "uint ?w = sint ?w mod 2 ^ LENGTH('l)" by (simp add: uint_sint take_bit_eq_mod)
  then have "i mod 2 ^ LENGTH('l) = sint ?w mod 2 ^ LENGTH('l)" by (simp add: uint_word_of_int)
  then have "2 ^ LENGTH('l) dvd i - sint ?w" by (simp add: mod_eq_dvd_iff)
  moreover have "(2 :: int) ^ (LENGTH('l) - 1) - 1 - - (2 ^ (LENGTH('l) - 1)) + 1 = 2 ^ LENGTH('l)"
    by (cases "LENGTH('l)") simp_all
  ultimately show "2 ^ (LENGTH('l) - 1) - 1 - - (2 ^ (LENGTH('l) - 1)) + 1 dvd i - sint ?w" by simp
qed

lemma represents_id:
  assumes "represents lo hi val" "lo \<le> i" "i \<le> hi"
  shows "val (word_of_int i) = i"
proof (rule ccontr)
  assume n: "val (word_of_int i) \<noteq> i"
  have d: "(hi - lo + 1) dvd (i - val (word_of_int i))" "lo \<le> val (word_of_int i)" "val (word_of_int i) \<le> hi"
    using assms(1) by (simp_all add: represents_def)
  then have "hi - lo + 1 \<le> \<bar>i - val (word_of_int i)\<bar>" using n by (intro zdvd_imp_le [of _ "\<bar>_\<bar>", simplified]) auto
  then show False using assms(2,3) d(2,3) by linarith
qed

text \<open>What a cast to an integer kind gives: the representative of an integer modulo the size of the range, or the
  truncated floating point number.\<close>

definition cast_result :: "number \<Rightarrow> int \<Rightarrow> int \<Rightarrow> int \<Rightarrow> bool" where
  "cast_result n lo hi j \<longleftrightarrow> lo \<le> j \<and> j \<le> hi \<and> (case n of
     NInt i \<Rightarrow> (hi - lo + 1) dvd (i - j)
   | NFloat w \<Rightarrow> truncate_in lo hi (f_decode w) = Some j
   | NDouble w \<Rightarrow> truncate_in lo hi (decode w) = Some j)"

lemma truncate_in_range: "truncate_in lo hi x = Some j \<Longrightarrow> lo \<le> j \<and> j \<le> hi"
  by (auto simp: truncate_in_def Let_def split: fp.splits if_splits)

lemma cast_int_result:
  assumes "represents lo hi val" "cast_int lo hi n = Some w"
  shows "cast_result n lo hi (val w)"
proof (cases n)
  case (NInt i)
  then show ?thesis using assms by (auto simp: cast_int_def cast_result_def represents_def)
next
  case (NFloat x)
  then obtain j where j: "truncate_in lo hi (f_decode x) = Some j" "w = word_of_int j"
    using assms(2) by (auto simp: cast_int_def)
  then show ?thesis using NFloat truncate_in_range [OF j(1)] represents_id [OF assms(1), of j]
    by (simp add: cast_result_def)
next
  case (NDouble x)
  then obtain j where j: "truncate_in lo hi (decode x) = Some j" "w = word_of_int j"
    using assms(2) by (auto simp: cast_int_def)
  then show ?thesis using NDouble truncate_in_range [OF j(1)] represents_id [OF assms(1), of j]
    by (simp add: cast_result_def)
qed

lemmas int_representations =
  represents_sint [where 'l = 8, simplified] represents_sint [where 'l = 16, simplified]
  represents_sint [where 'l = 32, simplified] represents_sint [where 'l = 64, simplified]
  represents_uint [where 'l = 8, simplified] represents_uint [where 'l = 16, simplified]
  represents_uint [where 'l = 32, simplified] represents_uint [where 'l = 64, simplified]

section \<open>Lists, paths, records\<close>

text \<open>\<open>eq\<close> and \<open>lt\<close> are \<^verbatim>\<open>operator==\<close> and \<^verbatim>\<open>operator<\<close> of values.\<close>

definition List_type :: "Value list \<Rightarrow> ValueTypeKind" where
  "List_type vs = (case vs of [] \<Rightarrow> kNull | v # _ \<Rightarrow> getType v)"

definition List_contains :: "(Value \<Rightarrow> Value \<Rightarrow> bool) \<Rightarrow> Value list \<Rightarrow> Value \<Rightarrow> bool" where
  "List_contains eq vs val \<longleftrightarrow> List.find (\<lambda>v. eq v val) vs \<noteq> None"

definition List_merge :: "Value list \<Rightarrow> Value list \<Rightarrow> Value list" where
  "List_merge vs other = vs @ other"

text \<open>\<^verbatim>\<open>operator<\<close> of \<^verbatim>\<open>std::vector\<close>.\<close>

fun vector_less :: "('a \<Rightarrow> 'a \<Rightarrow> bool) \<Rightarrow> 'a list \<Rightarrow> 'a list \<Rightarrow> bool" where
  "vector_less lt [] ys \<longleftrightarrow> ys \<noteq> []"
| "vector_less lt (x # xs) [] \<longleftrightarrow> False"
| "vector_less lt (x # xs) (y # ys) \<longleftrightarrow> lt x y \<or> (\<not> lt y x \<and> vector_less lt xs ys)"

definition List_less :: "(Value \<Rightarrow> Value \<Rightarrow> bool) \<Rightarrow> Value list \<Rightarrow> Value list \<Rightarrow> bool" where
  "List_less lt l r = vector_less lt l r"

definition Path_length :: "Value list \<Rightarrow> nat" where
  "Path_length vs = length (filter isEdge vs)"

definition Path_front :: "Value list \<Rightarrow> Node option" where
  "Path_front vs = (if vs = [] then None else if isNode (hd vs) then getNode (hd vs) else None)"

definition Path_back :: "Value list \<Rightarrow> Node option" where
  "Path_back vs = (if vs = [] then None else if isNode (last vs) then getNode (last vs) else None)"

definition Path_contains :: "(Value \<Rightarrow> Value \<Rightarrow> bool) \<Rightarrow> Value list \<Rightarrow> Value \<Rightarrow> bool" where
  "Path_contains eq vs val \<longleftrightarrow> List.find (\<lambda>v. eq v val) vs \<noteq> None"

definition Path_less :: "(Value \<Rightarrow> Value \<Rightarrow> bool) \<Rightarrow> Value list \<Rightarrow> Value list \<Rightarrow> bool" where
  "Path_less lt l r = vector_less lt l r"

definition Path_hashKey :: "('v \<Rightarrow> byte list \<Rightarrow> byte list) \<Rightarrow> 'v list \<Rightarrow> byte list \<Rightarrow> byte list" where
  "Path_hashKey value_hashKey vs key = foldl (\<lambda>key v. value_hashKey v key) key vs"

text \<open>The fields of a record in the order of iteration; \<^verbatim>\<open>HashKeyAppender::append\<close> of a string appends its characters.\<close>

definition append_string :: "string \<Rightarrow> byte list \<Rightarrow> byte list" where
  "append_string t key = key @ map byte_of_char t"

definition Record_hashKey :: "('v \<Rightarrow> byte list \<Rightarrow> byte list) \<Rightarrow> (string \<times> 'v) list \<Rightarrow> byte list \<Rightarrow> byte list" where
  "Record_hashKey value_hashKey fs key = foldl (\<lambda>key (n, v). value_hashKey v (append_string n key)) key fs"

definition Record_emplace :: "(string \<times> 'v) list \<Rightarrow> string \<Rightarrow> 'v \<Rightarrow> (string \<times> 'v) list" where
  "Record_emplace fs n v = umap_emplace fs (n, v)"

text \<open>Codecs and hashes. \<open>fnv64_buf\<close> is the hash function of folly on bytes.\<close>

definition List_rw :: "Value \<Rightarrow> Value rw \<Rightarrow> Value list rw" where
  "List_rw dflt f = vector_rw dflt f"

definition Path_rw :: "Value \<Rightarrow> Value rw \<Rightarrow> Value list rw" where
  "Path_rw dflt f = vector_rw dflt f"

definition List_hash :: "(Value \<Rightarrow> uint64) \<Rightarrow> Value list \<Rightarrow> uint64" where
  "List_hash hasher vs = hashContainer hasher vs"

definition Path_hash :: "(Value \<Rightarrow> uint64) \<Rightarrow> Value list \<Rightarrow> uint64" where
  "Path_hash hasher vs = hashContainer hasher vs"

definition Node_hash :: "(byte list \<Rightarrow> uint64) \<Rightarrow> Node \<Rightarrow> uint64" where
  "Node_hash fnv64_buf n = fnv64_buf (le_write 8 (nodeIdent n))"

section \<open>Names as views of memory\<close>

text \<open>A \<^verbatim>\<open>std::string_view\<close> is its characters and the memory behind them. The lookups pass \<^verbatim>\<open>data()\<close>, which is
  read up to the next zero byte.\<close>

type_synonym string_view = "string \<times> string"

definition view_data :: "string_view \<Rightarrow> string option" where
  "view_data view = (let m = fst view @ snd view in
     if CHR 0x00 \<in> set m then Some (takeWhile (\<lambda>c. c \<noteq> CHR 0x00) m) else None)"

definition Node_hasProperty :: "Node \<Rightarrow> string_view \<Rightarrow> bool option" where
  "Node_hasProperty n propName = map_option (hasProperty (node_properties n)) (view_data propName)"

definition Node_getProperty :: "Node \<Rightarrow> string_view \<Rightarrow> Value option" where
  "Node_getProperty n propName = Option.bind (view_data propName) (getProperty (node_properties n))"

definition Node_setProperty :: "Node \<Rightarrow> string_view \<Rightarrow> Value \<Rightarrow> Node" where
  "Node_setProperty n propName v = n\<lparr>node_properties := setProperty (node_properties n) (fst propName) v\<rparr>"

definition Edge_hasProperty :: "Edge \<Rightarrow> string_view \<Rightarrow> bool option" where
  "Edge_hasProperty e propName = map_option (hasProperty (edge_properties e)) (view_data propName)"

definition Edge_getProperty :: "Edge \<Rightarrow> string_view \<Rightarrow> Value option" where
  "Edge_getProperty e propName = Option.bind (view_data propName) (getProperty (edge_properties e))"

definition Record_hasField :: "properties_type \<Rightarrow> string_view \<Rightarrow> bool option" where
  "Record_hasField r key = map_option (hasProperty r) (view_data key)"

definition Record_getValue :: "properties_type \<Rightarrow> string_view \<Rightarrow> Value option" where
  "Record_getValue r key = Option.bind (view_data key) (getProperty r)"

section \<open>Nodes and edges\<close>

definition Node_new :: "NodeID \<Rightarrow> GraphID \<Rightarrow> properties_type \<Rightarrow> Node" where
  "Node_new i g ps = \<lparr>nodeIdent = i, nodeGraphID = g, node_properties = ps\<rparr>"

definition Node_new_typed :: "NodeID \<Rightarrow> GraphID \<Rightarrow> NodeTypeID \<Rightarrow> properties_type \<Rightarrow> Node" where
  "Node_new_typed i g t ps = setNodeTypeID (Node_new i g ps) t"

definition Edge_new :: "NodeID \<Rightarrow> NodeID \<Rightarrow> GraphID \<Rightarrow> EdgeTypeID \<Rightarrow> EdgeRank \<Rightarrow> properties_type \<Rightarrow> Edge" where
  "Edge_new s d g t rk ps = \<lparr>edgeIdent = \<lparr>srcID = s, dstID = d, rank = rk, graphID = g, edgeTypeID = t\<rparr>,
     edge_properties = ps\<rparr>"

definition swapSrcAndDst :: "Edge \<Rightarrow> Edge" where
  "swapSrcAndDst e = e\<lparr>edgeIdent := (edgeIdent e)\<lparr>srcID := dstID (edgeIdent e), dstID := srcID (edgeIdent e)\<rparr>\<rparr>"

section \<open>Laws of lists and names\<close>

text \<open>A list of values is ordered when the values are.\<close>

lemma vector_less_comparison:
  assumes "comparison lt eq"
  shows "comparison (vector_less lt) (list_all2 eq)"
proof
  note asym = comparison.less_asym [OF assms] and trans = comparison.less_trans [OF assms]
    and total = comparison.less_total [OF assms] and not_less = comparison.eq_not_less [OF assms]
    and sym = comparison.eq_sym [OF assms] and less_eq = comparison.less_eq_trans [OF assms]
    and eq_less = comparison.eq_less_trans [OF assms]
  fix a b c
  show "list_all2 eq a a" by (simp add: list_all2_refl comparison.eq_refl [OF assms])
  show "list_all2 eq a b \<Longrightarrow> list_all2 eq b a"
    by (induction rule: list_all2_induct) (simp_all add: sym)
  show "list_all2 eq a b \<Longrightarrow> list_all2 eq b c \<Longrightarrow> list_all2 eq a c"
    by (rule list_all2_trans [OF comparison.eq_trans [OF assms]])
  show "list_all2 eq a b \<Longrightarrow> \<not> vector_less lt a b"
    by (induction rule: list_all2_induct) (simp_all add: not_less)
  show "vector_less lt a b \<Longrightarrow> vector_less lt b c \<Longrightarrow> vector_less lt a c"
  proof (induction a arbitrary: b c)
    case Nil
    then show ?case by (cases c; cases b) auto
  next
    case (Cons x xs)
    then obtain y ys z zs where bc: "b = y # ys" "c = z # zs" by (cases b; cases c) auto
    consider "lt x y" "lt y z" | "lt x y" "eq y z" | "eq x y" "lt y z"
      | "eq x y" "eq y z" "vector_less lt xs ys" "vector_less lt ys zs"
      using Cons.prems bc comparison.eq_iff_incomparable [OF assms] by auto
    then have "lt x z \<or> (eq x z \<and> vector_less lt xs zs)"
      using trans less_eq eq_less comparison.eq_trans [OF assms] Cons.IH by cases blast+
    then show ?case using bc not_less [OF sym] by auto
  qed
  show "\<not> vector_less lt a b \<Longrightarrow> \<not> list_all2 eq a b \<Longrightarrow> vector_less lt b a"
  proof (induction a arbitrary: b)
    case (Cons x xs)
    then show ?case using total [of x] asym [of _ x] by (cases b) auto
  qed (auto simp: neq_Nil_conv)
qed

lemma swap_is_swapEnds: "edgeIdent (swapSrcAndDst e) = swapEnds (edgeIdent e)"
  by (simp add: swapSrcAndDst_def swapEnds_def)

lemma view_data_Some:
  assumes "CHR 0x00 \<notin> set t" "CHR 0x00 \<in> set behind"
  shows "view_data (t, behind) = Some (t @ takeWhile (\<lambda>c. c \<noteq> CHR 0x00) behind)"
proof -
  have "takeWhile (\<lambda>c. c \<noteq> CHR 0x00) (t @ behind) = t @ takeWhile (\<lambda>c. c \<noteq> CHR 0x00) behind"
    by (rule takeWhile_append2) (use assms in auto)
  then show ?thesis using assms by (simp add: view_data_def Let_def)
qed

lemma hasProperty_set: "hasProperty (setProperty ps p v) q \<longleftrightarrow> q = p \<or> hasProperty ps q"
  by (simp add: hasProperty_def setProperty_def update_conv')

section \<open>Properties\<close>

text \<open>Claim C38. A numeric cast gives a value of the kind that was asked for. Of an integer kind it is the integer in
  the range of the kind that is congruent to the argument modulo the size of the range, or the argument truncated
  towards zero when it is a floating point number; the cast is undefined when that is out of range.\<close>

theorem cast_type:
  assumes "doCastNumeric n k = Some v"
  shows "getType v = k \<and> isNumeric v \<and> (case int_range k of
     Some (lo, hi) \<Rightarrow> \<exists>j. value_int v = Some j \<and> cast_result n lo hi j
   | None \<Rightarrow> v = VFloat (cast_float n) \<or> v = VDouble (cast_double n))"
  using assms by (cases k) (auto simp: isNumeric_def isInteger_def isFloat_def isDouble_def
      intro: cast_int_result [OF int_representations(1)] cast_int_result [OF int_representations(2)]
        cast_int_result [OF int_representations(3)] cast_int_result [OF int_representations(4)]
        cast_int_result [OF int_representations(5)] cast_int_result [OF int_representations(6)]
        cast_int_result [OF int_representations(7)] cast_int_result [OF int_representations(8)])

theorem cast_type_witness:
  "doCastNumeric (NInt 300) kInt8 = Some (VInt8 44) \<and> (\<exists>j. value_int (VInt8 44) = Some j \<and> cast_result (NInt 300) (-128) 127 j)"
proof -
  have v: "doCastNumeric (NInt 300) kInt8 = Some (VInt8 44)" by (simp add: cast_int_def)
  show ?thesis using cast_type [OF v] v by simp
qed

text \<open>The cast of an integer is defined for the numeric kinds and fatal for the others.\<close>

theorem cast_defined: "doCastNumeric (NInt i) k \<noteq> None \<longleftrightarrow> int_range k \<noteq> None \<or> k = kFloat32 \<or> k = kFloat64"
  by (cases k) (simp_all add: cast_int_def)

text \<open>Claim C39. Properties are looked up by the characters up to the next zero byte in memory, not by the
  characters of the view. After a property is set with a view as its name, looking it up with the
  same view finds it exactly when a zero byte follows the view at once, or when the node had a property with
  the longer name already.\<close>

theorem view_property_lookup:
  assumes "CHR 0x00 \<notin> set t" "CHR 0x00 \<in> set behind"
  shows "Node_hasProperty (Node_setProperty n (t, behind) v) (t, behind) =
    Some (hd behind = CHR 0x00 \<or> hasProperty (node_properties n) (t @ takeWhile (\<lambda>c. c \<noteq> CHR 0x00) behind))"
proof -
  have "t @ takeWhile (\<lambda>c. c \<noteq> CHR 0x00) behind = t \<longleftrightarrow> hd behind = CHR 0x00"
    using assms(2) by (cases behind) auto
  then show ?thesis
    using view_data_Some [OF assms] by (simp add: Node_hasProperty_def Node_setProperty_def hasProperty_set)
qed

theorem view_property_lookup_witness:
  "Node_hasProperty (Node_setProperty (Node_new 1 1 []) (''name'', ''s=x'' @ [CHR 0x00]) (VInt64 7)) (''name'', ''s=x'' @ [CHR 0x00])
     = Some False"
  using view_property_lookup [of "''name''" "''s=x'' @ [CHR 0x00]" "Node_new 1 1 []" "VInt64 7"]
  by (simp add: Node_new_def hasProperty_def)

text \<open>Lists and paths of values are ordered when values are.\<close>

theorem list_order: "comparison lt eq \<Longrightarrow> comparison (List_less lt) (list_all2 eq) \<and> comparison (Path_less lt) (list_all2 eq)"
  using vector_less_comparison [of lt eq] by (simp add: List_less_def [abs_def] Path_less_def [abs_def])

text \<open>Two orders of iteration of the same record give different hash keys.\<close>

theorem record_key_order:
  assumes "\<And>v key. value_hashKey v key = key @ text v"
  shows "Record_hashKey value_hashKey [(''x'', v), (''y'', w)] key \<noteq> Record_hashKey value_hashKey [(''y'', w), (''x'', v)] key"
  by (simp add: Record_hashKey_def append_string_def assms byte_of_char_def)

text \<open>Exchanging the ends of an edge, without its direction bit, gives an equal edge exactly when the edge is undirected
  or a loop.\<close>

theorem swap_equal:
  "edgeID_eq (edgeIdent e) (edgeIdent (swapSrcAndDst e))
     \<longleftrightarrow> \<not> isDirected (edgeTypeID (edgeIdent e)) \<or> srcID (edgeIdent e) = dstID (edgeIdent e)"
proof (cases "isDirected (edgeTypeID (edgeIdent e))")
  case True
  then show ?thesis
    by (cases "edgeIdent e") (auto simp: edgeID_eq_iff_standardization swap_is_swapEnds standardization_directed
        swapEnds_def Let_def)
next
  case False
  then show ?thesis
    by (cases "edgeIdent e") (auto simp: edgeID_eq_iff_standardization swap_is_swapEnds standardization_undirected
        swapEnds_def Let_def dest!: signed_word_eqI)
qed

end
