(* ===== verification/ObjectTypes.thy ===== *)
theory ObjectTypes
  imports MemberCodec
begin

text \<open>
  Object types: \<^verbatim>\<open>src/include/nebula/common/valuetype/ObjectType.h\<close>. The classes are records, a derived class extends the
  record of its base; \<open>'v\<close> is a pointer to a value type. What is only declared (\<^verbatim>\<open>eq\<close>, \<^verbatim>\<open>compare\<close>, \<^verbatim>\<open>doClone\<close>, the
  codecs of the classes) is a parameter. The codec of pointers is an instance of what every pointer with a kind byte
  is: \<open>tagged_ptr\<close>.
\<close>

section \<open>Classes\<close>

record 'v GraphElementObjectType =
  object_kind :: ValueTypeKind
  elemType :: "nat option"
  object_name :: string
  object_fieldTypes :: "(string \<times> 'v) list"
  object_labels :: "string list"

record 'v NodeObjectType = "'v GraphElementObjectType" +
  node_type_id :: NodeTypeID

record 'v EdgeObjectType = "'v GraphElementObjectType" +
  edge_type_id :: EdgeTypeID
  edge_directed :: bool
  edge_src :: "'v NodeObjectType"
  edge_dst :: "'v NodeObjectType"

datatype 'v ObjectType = NodeObject "'v NodeObjectType" | EdgeObject "'v EdgeObjectType"

definition element_type :: "ValueTypeKind \<Rightarrow> 'v GraphElementObjectType" where
  "element_type k = \<lparr>object_kind = k, elemType = None, object_name = [], object_fieldTypes = [], object_labels = []\<rparr>"

definition element_type_named :: "ValueTypeKind \<Rightarrow> nat option \<Rightarrow> string \<Rightarrow> (string \<times> 'v) list \<Rightarrow> string list \<Rightarrow>
    'v GraphElementObjectType" where
  "element_type_named k et n fs ls =
     \<lparr>object_kind = k, elemType = et, object_name = n, object_fieldTypes = fs, object_labels = ls\<rparr>"

definition propNames :: "('v, 'z) GraphElementObjectType_scheme \<Rightarrow> string list" where
  "propNames t = map fst (object_fieldTypes t)"

text \<open>The identifier of a node type is -1 by default; that of an edge type is not initialised (\<open>i\<close>).\<close>

definition NodeObjectType_default :: "'v NodeObjectType" where
  "NodeObjectType_default = GraphElementObjectType.extend (element_type kNode) (NodeObjectType.fields (-1))"

definition NodeObjectType_id :: "NodeTypeID \<Rightarrow> (string \<times> 'v) list \<Rightarrow> 'v NodeObjectType" where
  "NodeObjectType_id i fs = NodeObjectType_default\<lparr>object_fieldTypes := fs, node_type_id := i\<rparr>"

definition NodeObjectType_named :: "string \<Rightarrow> NodeTypeID \<Rightarrow> (string \<times> 'v) list \<Rightarrow> string list \<Rightarrow> 'v NodeObjectType" where
  "NodeObjectType_named n i fs ls =
     GraphElementObjectType.extend (element_type_named kNode None n fs ls) (NodeObjectType.fields i)"

definition EdgeObjectType_default :: "EdgeTypeID \<Rightarrow> 'v EdgeObjectType" where
  "EdgeObjectType_default i = GraphElementObjectType.extend (element_type kEdge)
     (EdgeObjectType.fields i False NodeObjectType_default NodeObjectType_default)"

definition EdgeObjectType_id :: "EdgeTypeID \<Rightarrow> (string \<times> 'v) list \<Rightarrow> 'v EdgeObjectType" where
  "EdgeObjectType_id i fs = (EdgeObjectType_default i)\<lparr>object_fieldTypes := fs\<rparr>"

definition EdgeObjectType_named :: "string \<Rightarrow> EdgeTypeID \<Rightarrow> (string \<times> 'v) list \<Rightarrow> string list \<Rightarrow> bool \<Rightarrow>
    'v NodeObjectType \<Rightarrow> 'v NodeObjectType \<Rightarrow> 'v EdgeObjectType" where
  "EdgeObjectType_named n i fs ls dir s d = GraphElementObjectType.extend (element_type_named kEdge None n fs ls)
     (EdgeObjectType.fields i dir s d)"

fun object_type :: "'v ObjectType \<Rightarrow> ValueTypeKind" where
  "object_type (NodeObject t) = object_kind t"
| "object_type (EdgeObject t) = object_kind t"

text \<open>The order of a set of object types; \<open>cmp\<close> is the virtual \<^verbatim>\<open>compare\<close>.\<close>

definition ObjectType_less :: "('v ObjectType \<Rightarrow> 'v ObjectType \<Rightarrow> int) \<Rightarrow> 'v ObjectType \<Rightarrow> 'v ObjectType \<Rightarrow> bool" where
  "ObjectType_less cmp l r \<longleftrightarrow> cmp l r < 0"

definition ObjectTypeLess :: "('v ObjectType \<Rightarrow> 'v ObjectType \<Rightarrow> int) \<Rightarrow> 'v ObjectType option \<Rightarrow> 'v ObjectType option \<Rightarrow> bool option" where
  "ObjectTypeLess cmp l r = (case (l, r) of (Some a, Some b) \<Rightarrow> Some (cmp a b < 0) | _ \<Rightarrow> None)"

section \<open>The codec of pointers\<close>

text \<open>\<open>v\<close> is the virtual codec of the object, \<open>i\<close> what a new edge type has as its identifier.\<close>

definition ObjectTypePtr_rw :: "EdgeTypeID \<Rightarrow> 'v ObjectType rw \<Rightarrow> 'v ObjectType option rw" where
  "ObjectTypePtr_rw i v = \<lparr>
     rw_write = (\<lambda>obj. case obj of None \<Rightarrow> bool_write False
       | Some t \<Rightarrow> bool_write True @ le_write 1 (kind_code (object_type t)) @ rw_write v t),
     rw_read = (\<lambda>obj buf. case buf of
         [] \<Rightarrow> (Some (RPC_FAILED 1 0), obj, [])
       | hasVal # buf \<Rightarrow> if hasVal = 0 then (None, None, buf) else (case buf of
           [] \<Rightarrow> (Some (RPC_FAILED 1 0), obj, [])
         | kind # buf \<Rightarrow>
             if kind = kind_code kNode then
               (case rw_read v (NodeObject NodeObjectType_default) buf of (st, t, rest) \<Rightarrow> (st, Some t, rest))
             else if kind = kind_code kEdge then
               (case rw_read v (EdgeObject (EdgeObjectType_default i)) buf of (st, t, rest) \<Rightarrow> (st, Some t, rest))
             else (Some (RPC_DESERIALIZE_OBJECT_TYPE_ERROR kind), obj, buf))),
     rw_size = (\<lambda>obj. 1 + (case obj of Some t \<Rightarrow> 1 + rw_size v t | None \<Rightarrow> 0))\<rparr>"

text \<open>The reader of a pointer: a flag, a kind, and the object that \<open>mk\<close> makes for the kind, or an error.\<close>

definition tagged_ptr :: "(byte \<Rightarrow> read_error + 'a) \<Rightarrow> 'a inplace \<Rightarrow> 'a option reader" where
  "tagged_ptr mk r = rbind bool_read (\<lambda>b. if b then rbind (le_read 1) (\<lambda>k. case mk k of Inl e \<Rightarrow> (\<lambda>_. Inl e)
     | Inr t \<Rightarrow> rbind (in_reader r t) (\<lambda>t'. rreturn (Some t'))) else rreturn None)"

definition object_maker :: "EdgeTypeID \<Rightarrow> byte \<Rightarrow> read_error + 'v ObjectType" where
  "object_maker i k = (if k = kind_code kNode then Inr (NodeObject NodeObjectType_default)
     else if k = kind_code kEdge then Inr (EdgeObject (EdgeObjectType_default i))
     else Inl (RPC_DESERIALIZE_OBJECT_TYPE_ERROR k))"

lemma in_reader_object_ptr: "in_reader (rw_read (ObjectTypePtr_rw i v)) obj = tagged_ptr (object_maker i) (rw_read v)"
proof
  fix buf show "in_reader (rw_read (ObjectTypePtr_rw i v)) obj buf = tagged_ptr (object_maker i) (rw_read v) buf"
    by (auto simp: in_reader_def ObjectTypePtr_rw_def tagged_ptr_def object_maker_def rbind_def bool_read_def
        le_read_def rreturn_def split: list.splits option.splits prod.splits sum.splits)
qed

lemma tagged_ptr_Some:
  assumes "mk k = Inr d" "decodes (in_reader r d) w t"
  shows "decodes (tagged_ptr mk r) (bool_write True @ le_write 1 k @ w) (Some t)"
proof -
  have "decodes (rbind (in_reader r d) (\<lambda>t'. rreturn (Some t'))) w (Some t)" by (rule decodes_last [OF assms(2)]) simp
  then have "decodes (rbind (le_read 1) (\<lambda>k. case mk k of Inl e \<Rightarrow> (\<lambda>_. Inl e)
      | Inr t \<Rightarrow> rbind (in_reader r t) (\<lambda>t'. rreturn (Some t')))) (le_write 1 k @ w) (Some t)"
    by (intro decodes_bind [OF u8.decodes_write]) (simp_all add: assms(1))
  then show ?thesis unfolding tagged_ptr_def by (intro decodes_bind [OF bool.decodes_write]) simp_all
qed

lemma tagged_ptr_None: "decodes (tagged_ptr mk r) (bool_write False) None"
proof -
  have "decodes (tagged_ptr mk r) (bool_write False @ []) None"
    unfolding tagged_ptr_def by (rule decodes_bind [OF bool.decodes_write]) (simp_all add: decodes_return)
  then show ?thesis by simp
qed

text \<open>The kind of an object is that of its class.\<close>

definition kind_ok :: "'v ObjectType \<Rightarrow> bool" where
  "kind_ok t \<longleftrightarrow> object_type t = (case t of NodeObject _ \<Rightarrow> kNode | EdgeObject _ \<Rightarrow> kEdge)"

section \<open>Properties\<close>

text \<open>Pointers to object types on the wire, whatever the virtual codec \<open>v\<close> of the classes does: the object's own bytes are
  handed unchanged to a new object of the same class, and what this object reads is the result; a null pointer is
  read back; the size is two bytes and that of the object; a kind that is not one of nodes or edges is refused and
  the target left as it was.\<close>

theorem object_type_wire:
  assumes "kind_ok t"
  shows "\<exists>d. object_maker i (kind_code (object_type t)) = Inr d
      \<and> (case (t, d) of (NodeObject _, NodeObject n) \<Rightarrow> n = NodeObjectType_default
          | (EdgeObject _, EdgeObject e) \<Rightarrow> e = EdgeObjectType_default i | _ \<Rightarrow> False)
      \<and> rw_read (ObjectTypePtr_rw i v) obj (rw_write (ObjectTypePtr_rw i v) (Some t) @ rest)
          = (case rw_read v d (rw_write v t @ rest) of (st, t', rest') \<Rightarrow> (st, Some t', rest'))"
    and "rw_read (ObjectTypePtr_rw i v) obj (rw_write (ObjectTypePtr_rw i v) None @ rest) = (None, None, rest)"
    and "rw_size (ObjectTypePtr_rw i v) (Some t) = 2 + rw_size v t"
    and "length (rw_write (ObjectTypePtr_rw i v) (Some t)) = 2 + length (rw_write v t)"
    and "k \<notin> {kind_code kNode, kind_code kEdge} \<Longrightarrow>
      rw_read (ObjectTypePtr_rw i v) obj (1 # k # rest) = (Some (RPC_DESERIALIZE_OBJECT_TYPE_ERROR k), obj, rest)"
  using assms by (cases t; simp add: ObjectTypePtr_rw_def object_maker_def kind_ok_def bool_write_def le_write_def)+

text \<open>So a virtual codec that decodes what it wrote, in a new object of the class, makes a pointer codec that does.\<close>

theorem object_ptr_decodes:
  assumes "object_maker i (kind_code (object_type t)) = Inr d" "decodes (in_reader (rw_read v) d) (rw_write v t) t"
  shows "decodes (in_reader (rw_read (ObjectTypePtr_rw i v)) obj) (rw_write (ObjectTypePtr_rw i v) (Some t)) (Some t)"
  unfolding in_reader_object_ptr
  using tagged_ptr_Some [where mk = "object_maker i", OF assms] by (simp add: ObjectTypePtr_rw_def)

end
