(* ===== verification/RpcList.thy ===== *)
theory RpcList
  imports NetAddr Results
begin

text \<open>
  Requests of the RPC layer: the intrusive list of \<^verbatim>\<open>src/include/nebula/common/nrpc/List.h\<close>, whose nodes are members of
  the listed objects, with its two loops, and the contexts of \<^verbatim>\<open>nrpc/Context.h\<close> that are kept in such lists. What the
  headers only declare (\<^verbatim>\<open>append\<close>, \<^verbatim>\<open>remove\<close>, sending) is not modelled; \<open>ring\<close> is the shape that lists have.
\<close>

section \<open>The list\<close>

record ListNode =
  prev :: uint64
  succ :: uint64

type_synonym node_heap = "uint64 \<Rightarrow> ListNode option"

definition List_clear :: "uint64 \<Rightarrow> node_heap \<Rightarrow> node_heap" where
  "List_clear root h = h(root \<mapsto> \<lparr>prev = root, succ = root\<rparr>)"

definition List_new :: "uint64 \<Rightarrow> node_heap \<Rightarrow> node_heap" where
  "List_new root h = h(root \<mapsto> \<lparr>prev = root, succ = root\<rparr>)"

definition succ_of :: "node_heap \<Rightarrow> uint64 \<Rightarrow> uint64 option" where
  "succ_of h p = map_option succ (h p)"

definition prev_of :: "node_heap \<Rightarrow> uint64 \<Rightarrow> uint64 option" where
  "prev_of h p = map_option prev (h p)"

definition List_empty :: "uint64 \<Rightarrow> node_heap \<Rightarrow> bool option" where
  "List_empty root h = map_option (\<lambda>n. n = root) (succ_of h root)"

text \<open>The object whose member at \<open>off\<close> is the node at \<open>ptr\<close>, with the wrap-around of pointers.\<close>

definition list_element :: "uint64 \<Rightarrow> uint64 \<Rightarrow> uint64" where
  "list_element off ptr = ptr - off"

definition LIST_HEAD :: "uint64 \<Rightarrow> uint64 \<Rightarrow> node_heap \<Rightarrow> uint64 option option" where
  "LIST_HEAD off root h = do {
     e \<leftarrow> List_empty root h;
     if e then Some None else do { n \<leftarrow> succ_of h root; Some (Some (list_element off n)) }
   }"

definition LIST_TAIL :: "uint64 \<Rightarrow> uint64 \<Rightarrow> node_heap \<Rightarrow> uint64 option option" where
  "LIST_TAIL off root h = do {
     e \<leftarrow> List_empty root h;
     if e then Some None else do { n \<leftarrow> prev_of h root; Some (Some (list_element off n)) }
   }"

text \<open>The loops run a body on each object; \<open>None\<close> is a node that is not there, or a loop that does not end.\<close>

type_synonym 's loop_body = "uint64 \<Rightarrow> node_heap \<times> 's \<Rightarrow> (node_heap \<times> 's) option"

partial_function (option) for_each_loop ::
  "uint64 \<Rightarrow> uint64 \<Rightarrow> 's loop_body \<Rightarrow> uint64 \<Rightarrow> node_heap \<times> 's \<Rightarrow> (node_heap \<times> 's) option" where
  "for_each_loop off root body cur st =
     (if cur + off = root then Some st
      else do {
        st \<leftarrow> body cur st;
        n \<leftarrow> succ_of (fst st) (cur + off);
        for_each_loop off root body (list_element off n) st
      })"

definition LIST_FOR_EACH :: "uint64 \<Rightarrow> uint64 \<Rightarrow> 's loop_body \<Rightarrow> node_heap \<times> 's \<Rightarrow> (node_heap \<times> 's) option" where
  "LIST_FOR_EACH off root body st = do {
     n \<leftarrow> succ_of (fst st) root;
     for_each_loop off root body (list_element off n) st
   }"

partial_function (option) for_each_safe_loop ::
  "uint64 \<Rightarrow> uint64 \<Rightarrow> 's loop_body \<Rightarrow> uint64 \<Rightarrow> uint64 \<Rightarrow> node_heap \<times> 's \<Rightarrow> (node_heap \<times> 's) option" where
  "for_each_safe_loop off root body cur nxt st =
     (if cur + off = root then Some st
      else do {
        st \<leftarrow> body cur st;
        n \<leftarrow> succ_of (fst st) (nxt + off);
        for_each_safe_loop off root body nxt (list_element off n) st
      })"

definition LIST_FOR_EACH_SAFE :: "uint64 \<Rightarrow> uint64 \<Rightarrow> 's loop_body \<Rightarrow> node_heap \<times> 's \<Rightarrow> (node_heap \<times> 's) option" where
  "LIST_FOR_EACH_SAFE off root body st = do {
     n \<leftarrow> succ_of (fst st) root;
     n2 \<leftarrow> succ_of (fst st) (list_element off n + off);
     for_each_safe_loop off root body (list_element off n) (list_element off n2) st
   }"

section \<open>Laws of the list\<close>

fun chain_to :: "(uint64 \<Rightarrow> uint64 option) \<Rightarrow> uint64 \<Rightarrow> uint64 list \<Rightarrow> uint64 \<Rightarrow> bool" where
  "chain_to nx p [] q \<longleftrightarrow> nx p = Some q"
| "chain_to nx p (x # xs) q \<longleftrightarrow> nx p = Some x \<and> chain_to nx x xs q"

text \<open>The nodes \<open>xs\<close> are linked in a ring through the root, in both directions.\<close>

definition ring :: "node_heap \<Rightarrow> uint64 \<Rightarrow> uint64 list \<Rightarrow> bool" where
  "ring h root xs \<longleftrightarrow> distinct (root # xs) \<and> chain_to (succ_of h) root xs root \<and> chain_to (prev_of h) root (rev xs) root"

lemma list_element_node [simp]: "list_element off p + off = p"
  by (simp add: list_element_def)

lemma ring_new: "ring (List_new root h) root []" "ring (List_clear root h) root []"
  by (simp_all add: ring_def List_new_def List_clear_def succ_of_def prev_of_def)

lemma ring_empty: "ring h root xs \<Longrightarrow> List_empty root h = Some (xs = [])"
  by (cases xs) (auto simp: ring_def List_empty_def)

lemma ring_ends:
  assumes "ring h root xs"
  shows "LIST_HEAD off root h = Some (if xs = [] then None else Some (list_element off (hd xs)))"
    "LIST_TAIL off root h = Some (if xs = [] then None else Some (list_element off (last xs)))"
proof -
  show "LIST_HEAD off root h = Some (if xs = [] then None else Some (list_element off (hd xs)))"
    using assms by (cases xs) (auto simp: LIST_HEAD_def ring_empty [OF assms] ring_def)
  show "LIST_TAIL off root h = Some (if xs = [] then None else Some (list_element off (last xs)))"
    using assms by (cases xs rule: rev_cases) (auto simp: LIST_TAIL_def ring_empty [OF assms] ring_def)
qed

text \<open>Running a body on the objects in order.\<close>

fun run_body :: "'s loop_body \<Rightarrow> uint64 list \<Rightarrow> node_heap \<times> 's \<Rightarrow> (node_heap \<times> 's) option" where
  "run_body body [] st = Some st"
| "run_body body (e # es) st = do { st \<leftarrow> body e st; run_body body es st }"

lemma chain_to_cong: "\<forall>x \<in> set (p # xs). f x = g x \<Longrightarrow> chain_to f p xs q \<longleftrightarrow> chain_to g p xs q"
  by (induction xs arbitrary: p) auto

text \<open>A body may change what it likes except the links of the nodes that \<open>kept\<close> names, which depend on the node it
  is at.\<close>

definition keeps_links :: "uint64 \<Rightarrow> (uint64 \<Rightarrow> uint64 set) \<Rightarrow> uint64 list \<Rightarrow> 's loop_body \<Rightarrow> bool" where
  "keeps_links off kept xs body \<longleftrightarrow> (\<forall>x \<in> set xs. \<forall>h a h' a'. body (list_element off x) (h, a) = Some (h', a') \<longrightarrow>
     (\<forall>y \<in> kept x. succ_of h' y = succ_of h y))"

lemma keeps_linksD:
  "keeps_links off kept xs body \<Longrightarrow> x \<in> set xs \<Longrightarrow> body (list_element off x) (h, a) = Some (h', a') \<Longrightarrow> y \<in> kept x
     \<Longrightarrow> succ_of h' y = succ_of h y"
  unfolding keeps_links_def by blast

lemma for_each_loop_run:
  assumes "keeps_links off (\<lambda>_. set xs) zs body" "set xs \<subseteq> set zs" "root \<notin> set xs"
    "case xs of [] \<Rightarrow> c = root | x # ys \<Rightarrow> c = x \<and> chain_to (succ_of h) x ys root"
  shows "for_each_loop off root body (list_element off c) (h, a) = run_body body (map (list_element off) xs) (h, a)"
  using assms
proof (induction xs arbitrary: c h a)
  case (Cons x ys)
  show ?case
  proof (cases "body (list_element off x) (h, a)")
    case (Some st)
    obtain h' a' where st: "st = (h', a')" by (cases st)
    have k: "\<forall>y \<in> set (x # ys). succ_of h' y = succ_of h y"
      using keeps_linksD [OF Cons.prems(1)] Cons.prems(2) Some st by auto
    have ch: "chain_to (succ_of h') x ys root" using Cons.prems(4) chain_to_cong [OF k] by simp
    obtain c' where c': "succ_of h' x = Some c'" "case ys of [] \<Rightarrow> c' = root | z # zs \<Rightarrow> c' = z \<and> chain_to (succ_of h') z zs root"
      using ch by (cases ys) auto
    have sub: "keeps_links off (\<lambda>_. set ys) zs body" using Cons.prems(1) by (auto simp: keeps_links_def)
    have "for_each_loop off root body (list_element off c') (h', a') = run_body body (map (list_element off) ys) (h', a')"
      by (rule Cons.IH [OF sub _ _ c'(2)]) (use Cons.prems in auto)
    then show ?thesis using Cons.prems c'(1) Some st by (subst for_each_loop.simps) auto
  qed (use Cons.prems in \<open>subst for_each_loop.simps, auto\<close>)
qed (subst for_each_loop.simps, simp)

lemma for_each_safe_loop_run:
  assumes "keeps_links off (\<lambda>x. set (root # zs) - {x}) zs body" "set xs \<subseteq> set zs" "root \<notin> set zs" "distinct xs"
    "succ_of h root = Some r"
    "case xs of [] \<Rightarrow> c = root | x # ys \<Rightarrow> c = x \<and> (case ys of [] \<Rightarrow> n = root | y # us \<Rightarrow> n = y \<and> chain_to (succ_of h) y us root)"
  shows "for_each_safe_loop off root body (list_element off c) (list_element off n) (h, a)
    = run_body body (map (list_element off) xs) (h, a)"
  using assms
proof (induction xs arbitrary: c n h a)
  case (Cons x ys)
  then have x: "c = x" "x \<noteq> root" "x \<in> set zs" by auto
  show ?case
  proof (cases "body (list_element off x) (h, a)")
    case (Some st)
    obtain h' a' where st: "st = (h', a')" by (cases st)
    have k: "\<forall>y \<in> set (root # ys). succ_of h' y = succ_of h y"
      using keeps_linksD [OF Cons.prems(1) x(3), of h a h' a'] Some st Cons.prems(2-4) x(2) by auto
    have "chain_to (succ_of h') y us root \<longleftrightarrow> chain_to (succ_of h) y us root" if "ys = y # us" for y us
      using k that by (intro chain_to_cong) auto
    then obtain n' where n': "succ_of h' n = Some n'"
        "case ys of [] \<Rightarrow> n = root | y # us \<Rightarrow> n = y \<and> (case us of [] \<Rightarrow> n' = root | z # vs \<Rightarrow> n' = z \<and> chain_to (succ_of h') z vs root)"
      using Cons.prems(5,6) k by (cases ys; cases "tl ys") auto
    have "for_each_safe_loop off root body (list_element off n) (list_element off n') (h', a')
        = run_body body (map (list_element off) ys) (h', a')"
      by (rule Cons.IH [OF Cons.prems(1) _ Cons.prems(3) _ _ n'(2)]) (use Cons.prems k in auto)
    then show ?thesis using x n'(1) Some st by (subst for_each_safe_loop.simps) simp
  qed (use x in \<open>subst for_each_safe_loop.simps, simp\<close>)
qed (subst for_each_safe_loop.simps, simp)

section \<open>Contexts\<close>

text \<open>A buffer is a list of bytes, \<open>None\<close> a null pointer; connections and timers are addresses.\<close>

type_synonym buffer = "byte list"

record ServerContext =
  sc_conn :: uint64
  sc_more :: bool
  sc_valid :: bool
  sc_timeout :: uint32
  sc_chid :: uint64
  sc_req :: "buffer option"
  sc_resp :: "buffer option"

definition ServerContext_new :: "uint64 \<Rightarrow> buffer option \<Rightarrow> uint64 \<Rightarrow> uint32 \<Rightarrow> ServerContext" where
  "ServerContext_new c req chid timeout = \<lparr>sc_conn = c, sc_more = False, sc_valid = True, sc_timeout = timeout, sc_chid = chid,
     sc_req = req, sc_resp = None\<rparr>"

definition sc_moveReq :: "ServerContext \<Rightarrow> buffer option \<times> ServerContext" where
  "sc_moveReq c = (sc_req c, c\<lparr>sc_req := None\<rparr>)"

definition sc_moveResp :: "ServerContext \<Rightarrow> buffer option \<times> ServerContext" where
  "sc_moveResp c = (sc_resp c, c\<lparr>sc_resp := None\<rparr>)"

definition sc_setInvalid :: "ServerContext \<Rightarrow> ServerContext" where
  "sc_setInvalid c = c\<lparr>sc_valid := False\<rparr>"

record ClientContext =
  cc_status :: Status
  cc_addr :: Address
  cc_chid :: uint64
  cc_more :: bool
  cc_aborted :: bool
  cc_timeout :: int32
  cc_conn :: uint64
  cc_req :: "buffer option"
  cc_resp :: "buffer option"

definition cc_moveReq :: "ClientContext \<Rightarrow> buffer option \<times> ClientContext" where
  "cc_moveReq c = (cc_req c, c\<lparr>cc_req := None\<rparr>)"

definition cc_moveResp :: "ClientContext \<Rightarrow> buffer option \<times> ClientContext" where
  "cc_moveResp c = (cc_resp c, c\<lparr>cc_resp := None\<rparr>)"

definition cc_abort :: "ClientContext \<Rightarrow> ClientContext" where
  "cc_abort c = c\<lparr>cc_aborted := True\<rparr>"

text \<open>\<^verbatim>\<open>finish\<close> stores the answer and runs the callback on the context; \<open>cb\<close> is what the callback makes of it.\<close>

definition cc_finish_resp :: "(ClientContext \<Rightarrow> 'r) \<Rightarrow> buffer option \<Rightarrow> ClientContext \<Rightarrow> 'r" where
  "cc_finish_resp cb resp c = cb (c\<lparr>cc_resp := resp\<rparr>)"

definition cc_finish_status :: "(ClientContext \<Rightarrow> 'r) \<Rightarrow> Status \<Rightarrow> ClientContext \<Rightarrow> 'r" where
  "cc_finish_status cb status c = cb (c\<lparr>cc_status := status\<rparr>)"

definition cc_setConn :: "uint64 \<Rightarrow> ClientContext \<Rightarrow> ClientContext" where
  "cc_setConn conn c = c\<lparr>cc_conn := conn\<rparr>"

definition cc_setchid :: "uint64 \<Rightarrow> ClientContext \<Rightarrow> ClientContext" where
  "cc_setchid chid c = c\<lparr>cc_chid := chid\<rparr>"

text \<open>\<^verbatim>\<open>chid()\<close> returns \<^verbatim>\<open>uint32_t\<close>, \<^verbatim>\<open>timeout()\<close> an \<^verbatim>\<open>int\<close> as \<^verbatim>\<open>uint32_t\<close>.\<close>

definition cc_get_chid :: "ClientContext \<Rightarrow> uint32" where
  "cc_get_chid c = ucast (cc_chid c)"

definition cc_get_timeout :: "ClientContext \<Rightarrow> uint32" where
  "cc_get_timeout c = cc_timeout c"

definition cc_set_more :: "bool \<Rightarrow> ClientContext \<Rightarrow> ClientContext" where
  "cc_set_more m c = c\<lparr>cc_more := m\<rparr>"

section \<open>Properties\<close>

text \<open>Claim C14. The loops over a list. Both run the body on every object of the list, once and in order, if the body leaves
  the links alone; the safe loop also when the body unlinks or frees the node it is at, where the plain loop
  fails.\<close>

theorem list_iteration:
  assumes "ring h root xs"
  shows "(keeps_links off (\<lambda>_. set xs) xs body \<longrightarrow>
       LIST_FOR_EACH off root body (h, a) = run_body body (map (list_element off) xs) (h, a))
    \<and> (keeps_links off (\<lambda>x. set (root # xs) - {x}) xs body \<longrightarrow>
       LIST_FOR_EACH_SAFE off root body (h, a) = run_body body (map (list_element off) xs) (h, a))
    \<and> (xs \<noteq> [] \<longrightarrow> (\<forall>x h a h' a'. body (list_element off x) (h, a) = Some (h', a') \<longrightarrow> h' x = None) \<longrightarrow>
       LIST_FOR_EACH off root body (h, a) = None)"
proof (intro conjI impI)
  have d: "root \<notin> set xs" "distinct xs" and ch: "chain_to (succ_of h) root xs root" using assms by (simp_all add: ring_def)
  obtain c where c: "succ_of h root = Some c" "case xs of [] \<Rightarrow> c = root | x # ys \<Rightarrow> c = x \<and> chain_to (succ_of h) x ys root"
    using ch by (cases xs) auto
  show "LIST_FOR_EACH off root body (h, a) = run_body body (map (list_element off) xs) (h, a)"
    if "keeps_links off (\<lambda>_. set xs) xs body"
    using for_each_loop_run [OF that order_refl d(1) c(2)] c(1) by (simp add: LIST_FOR_EACH_def)
  obtain n where n: "succ_of h c = Some n"
      "case xs of [] \<Rightarrow> c = root | x # ys \<Rightarrow> c = x \<and> (case ys of [] \<Rightarrow> n = root | y # us \<Rightarrow> n = y \<and> chain_to (succ_of h) y us root)"
    using c by (cases xs; cases "tl xs") auto
  show "LIST_FOR_EACH_SAFE off root body (h, a) = run_body body (map (list_element off) xs) (h, a)"
    if "keeps_links off (\<lambda>x. set (root # xs) - {x}) xs body"
    using for_each_safe_loop_run [OF that order_refl d c(1) n(2)] c(1) n(1) by (simp add: LIST_FOR_EACH_SAFE_def)
  show "LIST_FOR_EACH off root body (h, a) = None"
    if "xs \<noteq> []" "\<forall>x h a h' a'. body (list_element off x) (h, a) = Some (h', a') \<longrightarrow> h' x = None"
  proof -
    have "c \<noteq> root" using that(1) c(2) d(1) by (cases xs) auto
    moreover have "succ_of h' c = None" if "body (list_element off c) (h, a) = Some (h', a')" for h' a'
      using \<open>\<forall>x h a h' a'. body (list_element off x) (h, a) = Some (h', a') \<longrightarrow> h' x = None\<close> that
      unfolding succ_of_def by (metis option.simps(8))
    ultimately have "for_each_loop off root body (list_element off c) (h, a) = None"
      by (subst for_each_loop.simps) (auto simp: bind_eq_None_conv)
    then show ?thesis using c(1) by (simp add: LIST_FOR_EACH_def)
  qed
qed

text \<open>Two objects (nodes at 100 and 200, members at offset 8) and a body that counts and frees its node.\<close>

theorem list_iteration_witness:
  "let h = [10 \<mapsto> \<lparr>prev = 200, succ = 100\<rparr>, 100 \<mapsto> \<lparr>prev = 10, succ = 200\<rparr>, 200 \<mapsto> \<lparr>prev = 100, succ = 10\<rparr>];
       body = (\<lambda>e (h, es). Some (h(e + 8 := None), es @ [e]))
   in LIST_FOR_EACH_SAFE 8 10 body (h, []) = Some ([10 \<mapsto> \<lparr>prev = 200, succ = 100\<rparr>], [92, 192])
     \<and> LIST_FOR_EACH 8 10 body (h, []) = None"
proof -
  let ?h = "[10 \<mapsto> \<lparr>prev = 200, succ = 100\<rparr>, 100 \<mapsto> \<lparr>prev = 10, succ = 200\<rparr>, 200 \<mapsto> \<lparr>prev = 100, succ = 10\<rparr>]"
  let ?b = "\<lambda>e (h :: node_heap, es). Some (h(e + 8 := None), es @ [e])"
  have r: "ring ?h 10 [100, 200]" by (simp add: ring_def succ_of_def prev_of_def)
  have k: "keeps_links 8 (\<lambda>x. set (10 # [100, 200]) - {x}) [100, 200] ?b"
    by (auto simp: keeps_links_def list_element_def succ_of_def)
  have "\<forall>x h a h' a'. ?b (list_element 8 x) (h, a) = Some (h', a') \<longrightarrow> h' x = None" by (auto simp: list_element_def)
  with list_iteration [OF r, of 8 ?b "[]"] k show ?thesis by (simp add: list_element_def fun_upd_twist fun_eq_iff)
qed

text \<open>The id of a request on its channel is stored with 64 bits and returned with 32: two ids that differ by a multiple of
  2 to the 32 are not told apart.\<close>

theorem chid_truncated: "cc_get_chid (cc_setchid i c) = cc_get_chid (cc_setchid j c) \<longleftrightarrow> uint i mod 2 ^ 32 = uint j mod 2 ^ 32"
  by (simp add: cc_get_chid_def cc_setchid_def word_uint_eq_iff unsigned_ucast_eq take_bit_eq_mod)

text \<open>A buffer that has been moved out of a context is not there any more.\<close>

theorem buffers_move:
  "fst (sc_moveReq (snd (sc_moveReq c))) = None" "fst (cc_moveReq (snd (cc_moveReq d))) = None"
  "cc_finish_resp (\<lambda>c. fst (cc_moveResp c)) r d = r" "fst (cc_moveResp (snd (cc_moveResp d))) = None"
  by (simp_all add: sc_moveReq_def cc_moveReq_def cc_moveResp_def cc_finish_resp_def)

end
