(* ===== verification/LogSampling.thy ===== *)
theory LogSampling
  imports Prelude
begin

text \<open>
  The logging macros of \<^verbatim>\<open>src/include/nebula/common/base/Logging.h\<close>: which messages are written at a minimal level, and the
  macros that write every n-th or the first n messages of a place in the code, with their static counters of
  type \<^verbatim>\<open>int\<close>. Overflow of a counter is \<open>None\<close>; \<^verbatim>\<open>++\<close> from several threads is not modelled.
\<close>

section \<open>Levels\<close>

datatype severity = INFO | WARNING | ERROR | FATAL | DFATAL

fun GLOG_severity :: "bool \<Rightarrow> severity \<Rightarrow> int" where
  "GLOG_severity ndebug INFO = 0"
| "GLOG_severity ndebug WARNING = 1"
| "GLOG_severity ndebug ERROR = 2"
| "GLOG_severity ndebug FATAL = 3"
| "GLOG_severity ndebug DFATAL = (if ndebug then 2 else 3)"

definition MINLOGLEVEL_GT :: "bool \<Rightarrow> int \<Rightarrow> severity \<Rightarrow> bool" where
  "MINLOGLEVEL_GT ndebug minloglevel s \<longleftrightarrow> minloglevel > GLOG_severity ndebug s"

text \<open>Whether a message is made; the plain macro makes all fatal ones.\<close>

fun LOG :: "bool \<Rightarrow> int \<Rightarrow> severity \<Rightarrow> bool" where
  "LOG ndebug minloglevel FATAL = True"
| "LOG ndebug minloglevel s = (\<not> MINLOGLEVEL_GT ndebug minloglevel s)"

definition LOG_IF :: "bool \<Rightarrow> int \<Rightarrow> severity \<Rightarrow> bool \<Rightarrow> bool" where
  "LOG_IF ndebug minloglevel s condition = (\<not> (\<not> condition \<or> MINLOGLEVEL_GT ndebug minloglevel s))"

definition DLOG :: "bool \<Rightarrow> int \<Rightarrow> severity \<Rightarrow> bool" where
  "DLOG ndebug minloglevel s = (if ndebug then False else LOG ndebug minloglevel s)"

definition DLOG_IF :: "bool \<Rightarrow> int \<Rightarrow> severity \<Rightarrow> bool \<Rightarrow> bool" where
  "DLOG_IF ndebug minloglevel s condition = (if ndebug then False else LOG_IF ndebug minloglevel s condition)"

section \<open>Sampling\<close>

record log_site =
  LOG_OCCURRENCES :: int32
  LOG_OCCURRENCES_MOD_N :: int32

definition log_site_init :: log_site where
  "log_site_init = \<lparr>LOG_OCCURRENCES = 0, LOG_OCCURRENCES_MOD_N = 0\<rparr>"

definition checked32 :: "int \<Rightarrow> int32 option" where
  "checked32 i = (if - (2 ^ 31) \<le> i \<and> i < 2 ^ 31 then Some (word_of_int i) else None)"

text \<open>The macros say whether the message is written; the second is the conditional one.\<close>

definition LOG_IF_EVERY_N :: "bool \<Rightarrow> int \<Rightarrow> severity \<Rightarrow> bool \<Rightarrow> int32 \<Rightarrow> log_site \<Rightarrow> (bool \<times> log_site) option" where
  "LOG_IF_EVERY_N ndebug minloglevel s condition n c = do {
     occ \<leftarrow> checked32 (sint (LOG_OCCURRENCES c) + 1);
     m \<leftarrow> checked32 (sint (LOG_OCCURRENCES_MOD_N c) + 1);
     m \<leftarrow> (if sint m > sint n then checked32 (sint m - sint n) else Some m);
     Some (\<not> MINLOGLEVEL_GT ndebug minloglevel s \<and> condition \<and> m = 1, \<lparr>LOG_OCCURRENCES = occ, LOG_OCCURRENCES_MOD_N = m\<rparr>)
   }"

definition LOG_EVERY_N :: "bool \<Rightarrow> int \<Rightarrow> severity \<Rightarrow> int32 \<Rightarrow> log_site \<Rightarrow> (bool \<times> log_site) option" where
  "LOG_EVERY_N ndebug minloglevel s n c = do {
     occ \<leftarrow> checked32 (sint (LOG_OCCURRENCES c) + 1);
     m \<leftarrow> checked32 (sint (LOG_OCCURRENCES_MOD_N c) + 1);
     m \<leftarrow> (if sint m > sint n then checked32 (sint m - sint n) else Some m);
     Some (\<not> MINLOGLEVEL_GT ndebug minloglevel s \<and> m = 1, \<lparr>LOG_OCCURRENCES = occ, LOG_OCCURRENCES_MOD_N = m\<rparr>)
   }"

definition LOG_FIRST_N :: "bool \<Rightarrow> int \<Rightarrow> severity \<Rightarrow> int32 \<Rightarrow> log_site \<Rightarrow> (bool \<times> log_site) option" where
  "LOG_FIRST_N ndebug minloglevel s n c = do {
     occ \<leftarrow> (if sint (LOG_OCCURRENCES c) \<le> sint n then checked32 (sint (LOG_OCCURRENCES c) + 1) else Some (LOG_OCCURRENCES c));
     Some (\<not> MINLOGLEVEL_GT ndebug minloglevel s \<and> sint occ \<le> sint n, c\<lparr>LOG_OCCURRENCES := occ\<rparr>)
   }"

text \<open>A place that is passed once for each element of a list.\<close>

fun log_run :: "('a \<Rightarrow> log_site \<Rightarrow> (bool \<times> log_site) option) \<Rightarrow> 'a list \<Rightarrow> log_site \<Rightarrow> bool list option" where
  "log_run f [] c = Some []"
| "log_run f (x # xs) c = do { (b, c) \<leftarrow> f x c; bs \<leftarrow> log_run f xs c; Some (b # bs) }"

section \<open>Laws\<close>

lemma checked32_sint: "checked32 i = Some w \<longleftrightarrow> - (2 ^ 31) \<le> i \<and> i < 2 ^ 31 \<and> w = word_of_int i"
  by (auto simp: checked32_def)

lemma sint_checked: "- (2 ^ 31) \<le> i \<Longrightarrow> i < 2 ^ 31 \<Longrightarrow> sint (word_of_int i :: int32) = i"
  by (rule sint_of_int_id) simp_all

text \<open>The counters after \<open>k\<close> messages of which every \<open>n\<close>-th is written, and of which the first \<open>n\<close> are.\<close>

definition every_site :: "nat \<Rightarrow> nat \<Rightarrow> log_site" where
  "every_site n k = \<lparr>LOG_OCCURRENCES = word_of_int (int k),
     LOG_OCCURRENCES_MOD_N = word_of_int (if k = 0 then 0 else int ((k - 1) mod n + 1))\<rparr>"

definition first_site :: "nat \<Rightarrow> nat \<Rightarrow> log_site" where
  "first_site n k = \<lparr>LOG_OCCURRENCES = word_of_int (int (min k (n + 1))), LOG_OCCURRENCES_MOD_N = 0\<rparr>"

lemma every_step:
  assumes "0 < n" "n < 2 ^ 31" "k + 1 < 2 ^ 31"
  shows "LOG_IF_EVERY_N nd lvl s b (word_of_int (int n)) (every_site n k)
    = Some (\<not> MINLOGLEVEL_GT nd lvl s \<and> b \<and> k mod n = 0, every_site n (k + 1))"
proof -
  define W :: "nat \<Rightarrow> int32" where "W i = word_of_int (int i)" for i
  define m where "m = (if k = 0 then 0 else (k - 1) mod n + 1)"
  have W: "sint (W i) = int i" "checked32 (int i) = Some (W i)" if "i < 2 ^ 31" for i
    using that sint_checked [of "int i"] by (auto simp: W_def checked32_def)
  have m: "m \<le> n" "m \<le> k"
    using assms(1) mod_less_divisor [OF assms(1), of "k - 1"] mod_less_eq_dividend [of "k - 1" n] by (cases k; simp add: m_def)+
  have next_m: "(if n < m + 1 then m + 1 - n else m + 1) = k mod n + 1"
  proof (cases k)
    case (Suc j)
    then show ?thesis using mod_Suc [of j n] assms(1) mod_less_divisor [OF assms(1), of j] by (auto simp: m_def)
  qed (use assms(1) in \<open>auto simp: m_def\<close>)
  have r: "k mod n + 1 < 2 ^ 31" using mod_less_eq_dividend [of k n] assms(3) by linarith
  have one: "W (k mod n + 1) = 1 \<longleftrightarrow> k mod n = 0"
    using W(1) [OF r] by (simp flip: sint_eq_iff)
  have site: "every_site n i = \<lparr>LOG_OCCURRENCES = W i, LOG_OCCURRENCES_MOD_N = W (if i = 0 then 0 else (i - 1) mod n + 1)\<rparr>" for i
    by (simp add: every_site_def W_def)
  have subtract: "(if int n < int (m + 1) then checked32 (int (m + 1) - int n) else Some (W (m + 1))) = Some (W (k mod n + 1))"
  proof (cases "n < m + 1")
    case True
    then have "int (m + 1) - int n = int (k mod n + 1)" using next_m by (simp add: of_nat_diff)
    with True W(2) [OF r] show ?thesis by (simp only: of_nat_less_iff if_True)
  qed (use next_m in simp)
  have "checked32 (int k + 1) = Some (W (k + 1))" "checked32 (int m + 1) = Some (W (m + 1))"
    using W(2) [of "k + 1"] W(2) [of "m + 1"] assms m by (simp_all add: add.commute)
  moreover have "sint (W k) = int k" "sint (W m) = int m" "sint (W (m + 1)) = int (m + 1)" "sint (W n) = int n"
    using assms m by (intro W; linarith)+
  ultimately have "LOG_IF_EVERY_N nd lvl s b (W n) \<lparr>LOG_OCCURRENCES = W k, LOG_OCCURRENCES_MOD_N = W m\<rparr>
      = Some (\<not> MINLOGLEVEL_GT nd lvl s \<and> b \<and> k mod n = 0, \<lparr>LOG_OCCURRENCES = W (k + 1), LOG_OCCURRENCES_MOD_N = W (k mod n + 1)\<rparr>)"
    using one subtract by (auto simp: LOG_IF_EVERY_N_def simp del: of_nat_add of_nat_Suc split: if_splits)
  then show ?thesis using site [of k] site [of "k + 1"] by (simp add: m_def W_def del: of_nat_add of_nat_Suc of_int_of_nat_eq)
qed

lemma every_plain: "LOG_EVERY_N nd lvl s n c = LOG_IF_EVERY_N nd lvl s True n c"
  by (simp add: LOG_EVERY_N_def LOG_IF_EVERY_N_def)

lemma first_step:
  assumes "n + 1 < 2 ^ 31"
  shows "LOG_FIRST_N nd lvl s (word_of_int (int n)) (first_site n k)
    = Some (\<not> MINLOGLEVEL_GT nd lvl s \<and> k < n, first_site n (k + 1))"
proof -
  have w: "sint (word_of_int (int i) :: int32) = int i" if "i \<le> n + 1" for i
    using that assms by (intro sint_checked) simp_all
  show ?thesis
  proof (cases "k \<le> n")
    case True
    have "checked32 (int k + 1) = Some (word_of_int (int (k + 1)))" using True assms by (simp add: checked32_def)
    then show ?thesis using w [of k] w [of n] w [of "k + 1"] True by (auto simp: LOG_FIRST_N_def first_site_def)
  next
    case False
    then show ?thesis using w [of "n + 1"] w [of n] by (simp add: LOG_FIRST_N_def first_site_def)
  qed
qed

section \<open>Properties\<close>

text \<open>Claim C30. Sampling. Of the messages at a place \<^verbatim>\<open>LOG_IF_EVERY_N\<close> writes those whose position is a multiple of \<open>n\<close> and
  whose condition holds: positions are counted whether the condition holds or not. \<^verbatim>\<open>LOG_FIRST_N\<close> writes the first
  \<open>n\<close>. No counter overflows below 2 to the 31 messages.\<close>

theorem log_sampling:
  assumes "0 < n" "n + 1 < 2 ^ 31" "length conds < 2 ^ 31" "\<not> MINLOGLEVEL_GT nd lvl s"
  shows "log_run (\<lambda>b. LOG_IF_EVERY_N nd lvl s b (word_of_int (int n))) conds log_site_init
      = Some (map (\<lambda>i. conds ! i \<and> i mod n = 0) [0..<length conds])
    \<and> log_run (\<lambda>_. LOG_FIRST_N nd lvl s (word_of_int (int n))) conds log_site_init
      = Some (map (\<lambda>i. i < n) [0..<length conds])"
proof -
  have e: "log_run (\<lambda>b. LOG_IF_EVERY_N nd lvl s b (word_of_int (int n))) bs (every_site n k)
      = Some (map (\<lambda>i. bs ! (i - k) \<and> i mod n = 0) [k..<k + length bs])" if "k + length bs < 2 ^ 31" for bs k
    using that
  proof (induction bs arbitrary: k)
    case (Cons b bs)
    have "LOG_IF_EVERY_N nd lvl s b (word_of_int (int n)) (every_site n k) = Some (b \<and> k mod n = 0, every_site n (k + 1))"
      using every_step [OF assms(1), of k nd lvl s b] assms(2,4) Cons.prems by simp
    moreover have "[k..<k + length (b # bs)] = k # [Suc k..<Suc k + length bs]" by (simp add: upt_conv_Cons del: upt_Suc)
    moreover have "map (\<lambda>i. (b # bs) ! (i - k) \<and> i mod n = 0) [Suc k..<Suc k + length bs]
        = map (\<lambda>i. bs ! (i - Suc k) \<and> i mod n = 0) [Suc k..<Suc k + length bs]"
      by (rule map_cong) (auto simp: nth_Cons')
    ultimately show ?case using Cons.IH [of "k + 1"] Cons.prems by (simp del: upt_Suc)
  qed simp
  have f: "log_run (\<lambda>_. LOG_FIRST_N nd lvl s (word_of_int (int n))) bs (first_site n k)
      = Some (map (\<lambda>i. i < n) [k..<k + length bs])" for bs :: "bool list" and k
  proof (induction bs arbitrary: k)
    case (Cons b bs)
    have "LOG_FIRST_N nd lvl s (word_of_int (int n)) (first_site n k) = Some (k < n, first_site n (k + 1))"
      using first_step [OF assms(2), of nd lvl s k] assms(4) by simp
    moreover have "[k..<k + length (b # bs)] = k # [Suc k..<Suc k + length bs]" by (simp add: upt_conv_Cons del: upt_Suc)
    ultimately show ?case using Cons.IH [of "k + 1"] by (simp del: upt_Suc)
  qed simp
  have "log_site_init = every_site n 0" "log_site_init = first_site n 0"
    by (simp_all add: log_site_init_def every_site_def first_site_def)
  then show ?thesis using e [of 0 conds] f [of conds 0] assms(3) by simp
qed

theorem log_sampling_witness:
  "log_run (\<lambda>b. LOG_IF_EVERY_N True 0 WARNING b 2) [True, True, False, True, True] log_site_init = Some [True, False, False, False, True]
   \<and> log_run (\<lambda>_. LOG_FIRST_N True 0 WARNING 2) [True, True, False, True, True] log_site_init = Some [True, True, False, False, False]"
  using log_sampling [of 2 "[True, True, False, True, True]" True 0 WARNING] by (simp add: MINLOGLEVEL_GT_def upt_rec)

text \<open>With \<open>n\<close> zero a place writes its first message only; the plain macro at a fatal level is not filtered, the
  conditional one is.\<close>

theorem log_corners:
  "log_run (\<lambda>_. LOG_EVERY_N nd 0 FATAL 0) [(), (), ()] log_site_init = Some [True, False, False]"
  "LOG nd 4 FATAL" "\<not> LOG_IF nd 4 FATAL True"
  by (simp_all add: LOG_EVERY_N_def log_site_init_def checked32_def MINLOGLEVEL_GT_def LOG_IF_def)

end
