(* ===== verification/Plugins.thy ===== *)
theory Plugins
  imports NetworkTopo ErrorMessages Results
begin

text \<open>
  The plugins of \<^verbatim>\<open>src/include/nebula/plugins\<close>: the description of a plugin as JSON, the base class, the plugins of
  procedures, functions and authenticators with their life cycle, the text of a procedure's prototype, and the hook
  that \<^verbatim>\<open>REGISTER_PLUGIN\<close> of \<^verbatim>\<open>ModuleManager.h\<close> defines. Both registries of named entries are instances of one
  locale. The JSON printer, \<^verbatim>\<open>fmt::format\<close>, the text of a value type and \<^verbatim>\<open>addPlugin\<close> of a module are parameters.
\<close>

section \<open>The description of a plugin\<close>

text \<open>The values that are stored in a JSON object of \<^verbatim>\<open>folly::dynamic\<close>; an object is a map from its keys.\<close>

datatype dynamic = Dyn_string string | Dyn_int int

definition PluginInfo_toJson :: "PluginInfo \<Rightarrow> string \<rightharpoonup> dynamic" where
  "PluginInfo_toJson i = Map.empty(
     ''type'' \<mapsto> Dyn_string (pluginTypeString (pi_type i)),
     ''author'' \<mapsto> Dyn_string (pi_author i),
     ''description'' \<mapsto> Dyn_string (pi_description i),
     ''license'' \<mapsto> Dyn_string (pi_license i),
     ''pluginVersion'' \<mapsto> Dyn_string (pi_pluginVersion i),
     ''apiVersion'' \<mapsto> Dyn_int (uint (pi_apiVersion i)))"

definition PluginInfo_toString :: "((string \<rightharpoonup> dynamic) \<Rightarrow> string) \<Rightarrow> PluginInfo \<Rightarrow> string" where
  "PluginInfo_toString toJson i = toJson (PluginInfo_toJson i)"

section \<open>The base class\<close>

text \<open>A plugin of the base class is its information; \<^verbatim>\<open>init\<close> takes the configuration and does not read it.\<close>

type_synonym config = "string \<rightharpoonup> string"

definition Plugin_info :: "PluginInfo \<Rightarrow> PluginInfo" where
  "Plugin_info i = i"

definition Plugin_init :: "config \<Rightarrow> Status" where
  "Plugin_init cfg = Status_OK"

definition Plugin_destroy :: Status where
  "Plugin_destroy = Status_OK"

definition Plugin_toJson :: "PluginInfo \<Rightarrow> string \<rightharpoonup> dynamic" where
  "Plugin_toJson i = PluginInfo_toJson i"

section \<open>Plugins of procedures\<close>

definition ProcedurePlugin_init :: "(string \<Rightarrow> string list \<Rightarrow> string) \<Rightarrow> ((string \<rightharpoonup> dynamic) \<Rightarrow> string) \<Rightarrow> ProcedurePlugin
    \<Rightarrow> config \<Rightarrow> Status option" where
  "ProcedurePlugin_init fmt toJson pl cfg =
     (if pi_type (plugin_info pl) \<noteq> PROCEDURE
      then V_STATUS fmt ''PLUGIN_INVALID_TYPE'' [PluginInfo_toString toJson (plugin_info pl), ''Procedure Plugin'']
      else Some (Plugin_init cfg))"

definition ProcedurePlugin_destroy :: Status where
  "ProcedurePlugin_destroy = Plugin_destroy"

definition getAllProcedures :: "ProcedurePlugin \<Rightarrow> string \<rightharpoonup> procedure" where
  "getAllProcedures pl = procedures pl"

text \<open>The prototype as text; \<open>ts\<close> is \<^verbatim>\<open>toString\<close> of a value type.\<close>

definition Parameter_toString :: "(ValueTypeKind \<Rightarrow> string) \<Rightarrow> ValueTypeKind \<times> string \<times> string \<Rightarrow> string" where
  "Parameter_toString ts p = (case p of (t, n, c) \<Rightarrow> n @ '':'' @ ts t)"

definition Field_toString :: "(ValueTypeKind \<Rightarrow> string) \<Rightarrow> bool \<Rightarrow> ValueTypeKind \<times> string \<Rightarrow> string" where
  "Field_toString ts verbose f = (case f of (t, n) \<Rightarrow>
     if \<not> verbose then colName n else colName n @ '':'' @ ts t)"

text \<open>\<^verbatim>\<open>folly::join\<close> puts the separator between the texts.\<close>

fun join :: "string \<Rightarrow> string list \<Rightarrow> string" where
  "join sep [] = []"
| "join sep [s] = s"
| "join sep (s # t # ss) = s @ sep @ join sep (t # ss)"

definition Procedure_toString :: "(ValueTypeKind \<Rightarrow> string) \<Rightarrow> procedure \<Rightarrow> string" where
  "Procedure_toString ts p =
     (let paramStrList = map (Parameter_toString ts) (proc_params p);
          returnStrList = map (Field_toString ts True) (proc_fields p) in
      ''PROCEDURE '' @ proc_name p @ ''('' @ join '', '' paramStrList @ '') RETURN ('' @
      join '', '' returnStrList @ '')'')"

section \<open>Plugins of functions\<close>

text \<open>The arguments of a function are passed by reference: it returns them as it leaves them.\<close>

record 'ctx Function =
  fun_name :: string
  fun_params :: "(ValueTypeKind \<times> string \<times> string) list"
  returnType :: ValueTypeKind
  fun_func :: "'ctx \<Rightarrow> Value list \<Rightarrow> Value \<times> Value list"
  fun_comment :: string

record 'ctx FunctionPlugin =
  fplugin_info :: PluginInfo
  fn_table :: "string \<rightharpoonup> 'ctx Function"

definition FunctionPlugin_new :: "PluginInfo \<Rightarrow> 'ctx FunctionPlugin" where
  "FunctionPlugin_new i = \<lparr>fplugin_info = i, fn_table = Map.empty\<rparr>"

definition FunctionPlugin_init :: "(string \<Rightarrow> string list \<Rightarrow> string) \<Rightarrow> ((string \<rightharpoonup> dynamic) \<Rightarrow> string)
    \<Rightarrow> 'ctx FunctionPlugin \<Rightarrow> config \<Rightarrow> Status option" where
  "FunctionPlugin_init fmt toJson pl cfg =
     (if pi_type (fplugin_info pl) \<noteq> FUNCTION
      then V_STATUS fmt ''PLUGIN_INVALID_TYPE'' [PluginInfo_toString toJson (fplugin_info pl), ''Function Plugin'']
      else Some (Plugin_init cfg))"

definition FunctionPlugin_destroy :: Status where
  "FunctionPlugin_destroy = Plugin_destroy"

text \<open>\<^verbatim>\<open>emplace\<close> keeps an entry that is there; the status does not tell.\<close>

definition addFunction :: "'ctx Function \<Rightarrow> 'ctx FunctionPlugin \<Rightarrow> Status \<times> 'ctx FunctionPlugin" where
  "addFunction f pl = (Status_OK,
     case fn_table pl (fun_name f) of
       None \<Rightarrow> pl\<lparr>fn_table := (fn_table pl)(fun_name f \<mapsto> f)\<rparr>
     | Some _ \<Rightarrow> pl)"

definition getFunction :: "'ctx FunctionPlugin \<Rightarrow> string \<Rightarrow> 'ctx Function option" where
  "getFunction pl n = fn_table pl n"

definition getAllFunctions :: "'ctx FunctionPlugin \<Rightarrow> string \<rightharpoonup> 'ctx Function" where
  "getAllFunctions pl = fn_table pl"

section \<open>Authenticators\<close>

text \<open>The base class of authenticators; what a plugin overrides is not part of the program.\<close>

definition AuthenticatorPlugin_new :: "PluginInfo \<Rightarrow> PluginInfo" where
  "AuthenticatorPlugin_new i = i"

definition AuthenticatorPlugin_destroy :: Status where
  "AuthenticatorPlugin_destroy = Plugin_destroy"

definition AuthenticatorPlugin_stop :: Status where
  "AuthenticatorPlugin_stop = Status_OK"

definition AuthenticatorPlugin_init :: "config \<Rightarrow> Status" where
  "AuthenticatorPlugin_init cfg = Plugin_init cfg"

definition AuthenticatorPlugin_init_worker :: "'worker \<Rightarrow> Status" where
  "AuthenticatorPlugin_init_worker w = Status_OK"

section \<open>The hooks of a shared library\<close>

text \<open>\<open>newP\<close> is the constructor of the plugin class, \<open>None\<close> when a \<^verbatim>\<open>CHECK\<close> of it fails; \<open>addPlugin\<close> of the module
  is compiled into the binary library.\<close>

definition nebula_module_load :: "'p option \<Rightarrow> ('p \<Rightarrow> 'm \<Rightarrow> Status \<times> 'm) \<Rightarrow> 'm \<Rightarrow> (Status \<times> 'm) option" where
  "nebula_module_load newP addPlugin m = (case newP of None \<Rightarrow> None | Some p \<Rightarrow>
     (case addPlugin p m of (s, m') \<Rightarrow>
        (case NG_RETURN_IF_ERROR Status_ok Some s of
           None \<Rightarrow> None
         | Some (Continue _) \<Rightarrow> Some (Status_OK, m')
         | Some (Return e) \<Rightarrow> Some (e, m')
         | Some (Throw e) \<Rightarrow> None)))"

definition nebula_module_unload :: "'m \<Rightarrow> 'm" where
  "nebula_module_unload m = m"

section \<open>Registries of named entries\<close>

text \<open>What both plugins promise: an entry is found under its name, and the first one of a name stays.\<close>

locale registry =
  fixes add :: "'e \<Rightarrow> 'r \<Rightarrow> 'r"
    and get :: "'r \<Rightarrow> string \<Rightarrow> 'e option"
    and name_of :: "'e \<Rightarrow> string"
  assumes get_add: "get (add e r) n = (case get r n of Some x \<Rightarrow> Some x
    | None \<Rightarrow> if n = name_of e then Some e else None)"
begin

lemma get_add_other: "n \<noteq> name_of e \<Longrightarrow> get (add e r) n = get r n"
  by (simp add: get_add split: option.split)

lemma get_add_kept: "get r n = Some x \<Longrightarrow> get (add e r) n = Some x"
  by (simp add: get_add)

text \<open>A sequence of additions is a search for the first entry of the name.\<close>

lemma get_fold: "get (fold add es r) n = (case get r n of Some x \<Rightarrow> Some x
    | None \<Rightarrow> List.find (\<lambda>e. name_of e = n) es)"
  by (induction es arbitrary: r) (auto simp: get_add split: option.split)

lemma get_fold_kept: "get r n = Some x \<Longrightarrow> get (fold add es r) n = Some x"
  by (simp add: get_fold)

lemma names_inv: "(\<forall>n x. get r n = Some x \<longrightarrow> name_of x = n) \<Longrightarrow>
    get (fold add es r) n = Some x \<Longrightarrow> name_of x = n"
  by (auto simp: get_fold find_Some_iff split: option.splits)

end

interpretation procs: registry addProcedure getProcedure proc_name
  by unfold_locales (auto simp: addProcedure_def getProcedure_def split: option.split)

interpretation funs: registry "\<lambda>f pl. snd (addFunction f pl)" getFunction fun_name
  by unfold_locales (auto simp: addFunction_def getFunction_def split: option.split)

lemma fold_procedures_info: "plugin_info (fold addProcedure ps pl) = plugin_info pl"
  by (induction ps arbitrary: pl) (auto simp: addProcedure_def split: option.split)

lemma fold_functions_info: "fplugin_info (fold (\<lambda>f pl. snd (addFunction f pl)) fs pl) = fplugin_info pl"
  by (induction fs arbitrary: pl) (auto simp: addFunction_def split: option.split)

section \<open>Properties\<close>

text \<open>A new plugin of functions to which a list of functions is added finds under a name the first one of the list
  with it, and stores every function under its own name; each addition reports success, also when it drops the
  function. Adding does not change the information of the plugin.\<close>

theorem function_registry:
  fixes fs :: "'ctx Function list"
  shows "getFunction (fold (\<lambda>f pl. snd (addFunction f pl)) fs (FunctionPlugin_new i)) n
      = List.find (\<lambda>f. fun_name f = n) fs
    \<and> getAllFunctions (fold (\<lambda>f pl. snd (addFunction f pl)) fs (FunctionPlugin_new i)) n
      = List.find (\<lambda>f. fun_name f = n) fs
    \<and> fplugin_info (fold (\<lambda>f pl. snd (addFunction f pl)) fs (FunctionPlugin_new i)) = i
    \<and> (\<forall>pl :: 'ctx FunctionPlugin. \<forall>f. Status_ok (fst (addFunction f pl)))"
  using funs.get_fold [of fs "FunctionPlugin_new i" n]
  by (simp add: fold_functions_info)
    (simp add: FunctionPlugin_new_def getFunction_def getAllFunctions_def addFunction_def Status_ok_def Status_OK_def)

text \<open>The same for procedures, and what is added to the plugin of this repository never replaces its procedure.\<close>

theorem procedure_registry:
  "getProcedure (fold addProcedure ps (the YJProcedurePlugin)) n
     = (if n = ''network_topo'' then Some declareNetworkTopoProcedure else List.find (\<lambda>p. proc_name p = n) ps)
   \<and> plugin_info (fold addProcedure ps (the YJProcedurePlugin)) = plugin_info (the YJProcedurePlugin)"
  using procs.get_fold [of ps "the YJProcedurePlugin" n]
  by (simp add: fold_procedures_info)
    (simp add: YJProcedurePlugin_def ProcedurePlugin_new_def addProcedure_def getProcedure_def
      declareNetworkTopoProcedure_def)

lemma invalid_type_message:
  "map_of ErrorMessage_table ''PLUGIN_INVALID_TYPE'' = Some ''Invalid plugin type `{}` for {}''"
  by code_simp

lemma invalid_type_code: "code_named ''PLUGIN_INVALID_TYPE'' ErrorCode_table = Some (errorCode PLUGIN_ERROR ''001'')"
  by code_simp

text \<open>Initialising a plugin under the wrong class fails with the code of that error and a text that holds the
  description of the plugin, whatever the configuration; under the right class it succeeds.\<close>

lemma pieces_invalid_type: "fmt_pieces ''Invalid plugin type `{}` for {}'' = Some [''Invalid plugin type `'', ''` for '', []]"
  by code_simp

theorem plugin_init_checks_type:
  assumes "fmt_ok fmt"
  shows "ProcedurePlugin_init fmt toJson pl cfg = Some (if pi_type (plugin_info pl) = PROCEDURE then Status_OK
      else \<lparr>st_code = errorCode PLUGIN_ERROR ''001'',
            st_message = ''Invalid plugin type `'' @ PluginInfo_toString toJson (plugin_info pl) @ ''` for Procedure Plugin''\<rparr>)
    \<and> FunctionPlugin_init fmt toJson fpl cfg = Some (if pi_type (fplugin_info fpl) = FUNCTION then Status_OK
      else \<lparr>st_code = errorCode PLUGIN_ERROR ''001'',
            st_message = ''Invalid plugin type `'' @ PluginInfo_toString toJson (fplugin_info fpl) @ ''` for Function Plugin''\<rparr>)"
  using assms by (simp add: ProcedurePlugin_init_def FunctionPlugin_init_def Plugin_init_def V_STATUS_def
      invalid_type_message invalid_type_code fmt_ok_def pieces_invalid_type)

theorem plugin_init_checks_type_witness:
  "ProcedurePlugin_init fmt_ref (\<lambda>_. ''{}'')
     \<lparr>plugin_info = \<lparr>pi_type = AUDIT, pi_name = ''a'', pi_author = [], pi_description = [], pi_license = [],
        pi_pluginVersion = [], pi_apiVersion = 0\<rparr>, procedures = Map.empty\<rparr> Map.empty
   = Some \<lparr>st_code = errorCode PLUGIN_ERROR ''001'', st_message = ''Invalid plugin type `{}` for Procedure Plugin''\<rparr>"
  by (subst plugin_init_checks_type [OF fmt_ref_ok, THEN conjunct1]) (simp add: PluginInfo_toString_def)

text \<open>The JSON text of a plugin does not hold its name: plugins that differ in it only have the same one.\<close>

theorem plugin_json_omits_name:
  "(PluginInfo_toJson i = PluginInfo_toJson j \<longleftrightarrow> i = j\<lparr>pi_name := pi_name i\<rparr>)
   \<and> ''name'' \<notin> dom (PluginInfo_toJson i)"
proof (intro conjI iffI)
  have inj: "pluginTypeString a = pluginTypeString b \<Longrightarrow> a = b" for a b
    by (cases a; cases b) simp_all
  assume "PluginInfo_toJson i = PluginInfo_toJson j"
  then have "PluginInfo_toJson i k = PluginInfo_toJson j k" for k by simp
  from this [of "''type''"] this [of "''author''"] this [of "''description''"] this [of "''license''"]
    this [of "''pluginVersion''"] this [of "''apiVersion''"]
  show "i = j\<lparr>pi_name := pi_name i\<rparr>"
    by (intro PluginInfo.equality) (auto simp: PluginInfo_toJson_def word_uint_eq_iff dest: inj)
next
  assume i: "i = j\<lparr>pi_name := pi_name i\<rparr>"
  show "PluginInfo_toJson i = PluginInfo_toJson j" by (subst i) (simp add: PluginInfo_toJson_def)
qed (simp add: PluginInfo_toJson_def)

text \<open>The hook of the library of this repository: its plugin is built and handed to the module, and what
  \<^verbatim>\<open>addPlugin\<close> reports is passed on, with success always in the form of \<^verbatim>\<open>Status::OK()\<close>.\<close>

theorem yj_module_load:
  "nebula_module_load YJProcedurePlugin addPlugin m =
     (case addPlugin (the YJProcedurePlugin) m of (s, m') \<Rightarrow> Some (if Status_ok s then Status_OK else s, m'))"
  by (simp add: nebula_module_load_def NG_RETURN_IF_ERROR_def YJProcedurePlugin_def ProcedurePlugin_new_def
      split: prod.split)

text \<open>The prototype of the procedure as text.\<close>

theorem network_topo_prototype:
  "Procedure_toString ts declareNetworkTopoProcedure =
     ''PROCEDURE network_topo(graphName:'' @ ts kString @ '') RETURN (topoID:'' @ ts kString @ '', point:'' @ ts kString
       @ '', itopoID:'' @ ts kString @ '', jtopoID:'' @ ts kString @ '')''"
  by (simp add: Procedure_toString_def declareNetworkTopoProcedure_def kColumnNames_def Parameter_toString_def
      Field_toString_def colName_def)

end
