(* ===== verification/Responses.thy ===== *)
theory Responses
  imports Results Double
begin

text \<open>
  Responses and exceptions: \<^verbatim>\<open>GQLStatus\<close> and the outcomes of \<^verbatim>\<open>src/include/nebula/common/response\<close> with the query
  statistics, and both classes \<^verbatim>\<open>nebula::Exception\<close> (\<^verbatim>\<open>common/base/Exception.h\<close>, \<^verbatim>\<open>common/exception/Exception.h\<close>).
  What is only declared is a parameter: the status \<^verbatim>\<open>GQLStatus::success()\<close>, the text of an error
  (\<^verbatim>\<open>ErrorCodeUtils::toString\<close> with a message) and the comparison of result tables.
\<close>

section \<open>GQLStatus\<close>

definition Error_default :: Error where
  "Error_default = \<lparr>code = errorCode UNKNOWN ''000'', message = []\<rparr>"

record GQLStatus =
  gql_text :: string
  gql_error :: Error

definition GQLStatus_default :: GQLStatus where
  "GQLStatus_default = \<lparr>gql_text = [], gql_error = Error_default\<rparr>"

definition GQLStatus_new :: "(uint64 \<Rightarrow> string \<Rightarrow> string) \<Rightarrow> uint64 \<Rightarrow> string \<Rightarrow> GQLStatus" where
  "GQLStatus_new codeText c m = \<lparr>gql_text = codeText c m, gql_error = \<lparr>code = c, message = m\<rparr>\<rparr>"

definition GQLStatus_from :: "(uint64 \<Rightarrow> string \<Rightarrow> string) \<Rightarrow> Error \<Rightarrow> GQLStatus" where
  "GQLStatus_from codeText err = GQLStatus_new codeText (code err) (message err)"

definition GQLStatus_eq :: "GQLStatus \<Rightarrow> GQLStatus \<Rightarrow> bool" where
  "GQLStatus_eq l r \<longleftrightarrow> gql_text l = gql_text r"

definition GQLStatus_less :: "GQLStatus \<Rightarrow> GQLStatus \<Rightarrow> bool" where
  "GQLStatus_less l r = False"

definition GQLStatus_greater :: "GQLStatus \<Rightarrow> GQLStatus \<Rightarrow> bool" where
  "GQLStatus_greater l r = False"

definition GQLStatus_ok :: "GQLStatus \<Rightarrow> GQLStatus \<Rightarrow> bool" where
  "GQLStatus_ok success s \<longleftrightarrow> GQLStatus_eq s success"

definition GQLStatus_clear :: "GQLStatus \<Rightarrow> GQLStatus" where
  "GQLStatus_clear s = s\<lparr>gql_text := [], gql_error := Error_clear (gql_error s)\<rparr>"

definition GQLStatus_toString :: "GQLStatus \<Rightarrow> string" where
  "GQLStatus_toString s = gql_text s"

section \<open>Outcomes\<close>

text \<open>The result of an outcome is of any type; its comparison is a parameter.\<close>

record 'table ExecutionOutcome =
  oc_status :: Status
  oc_result :: "'table option"

definition ExecutionOutcome_new :: "'table ExecutionOutcome" where
  "ExecutionOutcome_new = \<lparr>oc_status = Status_OK, oc_result = None\<rparr>"

definition ExecutionOutcome_clear :: "'table ExecutionOutcome \<Rightarrow> 'table ExecutionOutcome" where
  "ExecutionOutcome_clear r = r\<lparr>oc_status := Status_clear (oc_status r), oc_result := None\<rparr>"

text \<open>\<^verbatim>\<open>operator==\<close> of \<^verbatim>\<open>std::optional\<close>.\<close>

fun optional_eq :: "('v \<Rightarrow> 'v \<Rightarrow> bool) \<Rightarrow> 'v option \<Rightarrow> 'v option \<Rightarrow> bool" where
  "optional_eq eq None None = True"
| "optional_eq eq (Some x) (Some y) = eq x y"
| "optional_eq eq _ _ = False"

definition ExecutionOutcome_eq :: "('table \<Rightarrow> 'table \<Rightarrow> bool) \<Rightarrow> 'table ExecutionOutcome \<Rightarrow> 'table ExecutionOutcome \<Rightarrow> bool" where
  "ExecutionOutcome_eq teq l r \<longleftrightarrow> Status_eq (oc_status l) (oc_status r) \<and> optional_eq teq (oc_result l) (oc_result r)"

record AuthResponse =
  au_status :: Status
  au_identifier :: "int64 option"

definition AuthResponse_clear :: "AuthResponse \<Rightarrow> AuthResponse" where
  "AuthResponse_clear r = r\<lparr>au_status := Status_clear (au_status r), au_identifier := None\<rparr>"

definition AuthResponse_eq :: "AuthResponse \<Rightarrow> AuthResponse \<Rightarrow> bool" where
  "AuthResponse_eq l r \<longleftrightarrow> Status_eq (au_status l) (au_status r) \<and> optional_eq (=) (au_identifier l) (au_identifier r)"

section \<open>Query statistics and summaries\<close>

record QueryStats =
  numAffectedNodes :: int64
  numAffectedEdges :: int64

definition QueryStats_new :: QueryStats where
  "QueryStats_new = \<lparr>numAffectedNodes = 0, numAffectedEdges = 0\<rparr>"

text \<open>The assignment copies one counter after the other, with an atomic load and an atomic store each. Its state is the
  source, the target, and the loaded value; other threads may add to the source between its steps.\<close>

datatype stats_pc = Load_nodes | Store_nodes int64 | Load_edges | Store_edges int64 | Stats_copied

inductive stats_step :: "stats_pc \<times> QueryStats \<times> QueryStats \<Rightarrow> stats_pc \<times> QueryStats \<times> QueryStats \<Rightarrow> bool" where
  load_nodes: "stats_step (Load_nodes, rhs, t) (Store_nodes (numAffectedNodes rhs), rhs, t)"
| store_nodes: "stats_step (Store_nodes x, rhs, t) (Load_edges, rhs, t\<lparr>numAffectedNodes := x\<rparr>)"
| load_edges: "stats_step (Load_edges, rhs, t) (Store_edges (numAffectedEdges rhs), rhs, t)"
| store_edges: "stats_step (Store_edges x, rhs, t) (Stats_copied, rhs, t\<lparr>numAffectedEdges := x\<rparr>)"

inductive_cases stats_stepE: "stats_step (pc, rhs, t) s"

inductive stats_env :: "stats_pc \<times> QueryStats \<times> QueryStats \<Rightarrow> stats_pc \<times> QueryStats \<times> QueryStats \<Rightarrow> bool" where
  own: "stats_step s s' \<Longrightarrow> stats_env s s'"
| count_node: "stats_env (pc, rhs, t) (pc, rhs\<lparr>numAffectedNodes := numAffectedNodes rhs + n\<rparr>, t)"
| count_edge: "stats_env (pc, rhs, t) (pc, rhs\<lparr>numAffectedEdges := numAffectedEdges rhs + n\<rparr>, t)"

inductive_cases stats_envE: "stats_env (pc, rhs, t) s"

datatype PlanInfo = PlanInfo (plan_id: string) (plan_name: string) (plan_details: string) (plan_columns: "string list")
  (timeMs: double) (plan_rows: int64) (memoryKib: double) (blockedMs: double) (queuedMs: double) (consumeMs: double)
  (produceMs: double) (finishMs: double) (batches: int64) (concurrency: int64) (otherStatsJson: string)
  (children: "PlanInfo list")

definition PlanInfo_new :: PlanInfo where
  "PlanInfo_new = PlanInfo [] [] [] [] 0 0 0 0 0 0 0 0 0 0 [] []"

record Summary =
  buildTimeUs :: int64
  optimizeTimeUs :: int64
  totalServerTimeUs :: int64
  explainType :: string
  planInfo :: PlanInfo
  queryStats :: QueryStats

definition Summary_new :: Summary where
  "Summary_new = \<lparr>buildTimeUs = 0, optimizeTimeUs = 0, totalServerTimeUs = 0, explainType = [], planInfo = PlanInfo_new,
     queryStats = QueryStats_new\<rparr>"

text \<open>The result of a response is a pointer to a table; moving a response takes it over.\<close>

record 'table ExecuteResponse =
  er_status :: Status
  er_result :: "'table option"
  er_summary :: Summary
  er_cursor :: string

definition ExecuteResponse_new :: "'table ExecuteResponse" where
  "ExecuteResponse_new = \<lparr>er_status = Status_OK, er_result = None, er_summary = Summary_new, er_cursor = []\<rparr>"

definition ExecuteResponse_move :: "'table ExecuteResponse \<Rightarrow> 'table ExecuteResponse" where
  "ExecuteResponse_move resp =
     (let r = ExecuteResponse_new;
          r = r\<lparr>er_status := er_status resp\<rparr>;
          r = r\<lparr>er_result := er_result resp\<rparr>;
          r = r\<lparr>er_summary := er_summary resp\<rparr> in
      r\<lparr>er_cursor := er_cursor resp\<rparr>)"

definition ExecuteResponse_ok :: "'table ExecuteResponse \<Rightarrow> bool" where
  "ExecuteResponse_ok r = Status_ok (er_status r)"

section \<open>Exceptions\<close>

text \<open>The class of \<^verbatim>\<open>common/base/Exception.h\<close>; what a reader of \<^verbatim>\<open>what()\<close> sees ends before the first zero character.\<close>

record StatusException =
  ex_status :: Status

definition StatusException_new :: "Status \<Rightarrow> StatusException" where
  "StatusException_new s = \<lparr>ex_status = s\<rparr>"

definition c_str :: "string \<Rightarrow> string" where
  "c_str s = takeWhile (\<lambda>c. c \<noteq> CHR 0x00) s"

definition StatusException_what :: "StatusException \<Rightarrow> string" where
  "StatusException_what e = c_str (st_message (ex_status e))"

definition StatusException_toString :: "StatusException \<Rightarrow> string" where
  "StatusException_toString e = Status_toString (ex_status e)"

definition StatusException_eq :: "StatusException \<Rightarrow> StatusException \<Rightarrow> bool" where
  "StatusException_eq l r = Status_eq (ex_status l) (ex_status r)"

definition MemoryExceededException :: "string \<Rightarrow> StatusException" where
  "MemoryExceededException m = StatusException_new \<lparr>st_code = errorCode RUNTIME_ERROR ''301'', st_message = m\<rparr>"

text \<open>The class of \<^verbatim>\<open>common/exception/Exception.h\<close>; its constructor from a code and a message is the parameter \<open>mk\<close>.\<close>

record CodeException =
  ce_code :: uint64
  ce_message :: string

definition CodeException_from :: "(uint64 \<Rightarrow> string \<Rightarrow> CodeException) \<Rightarrow> Error \<Rightarrow> CodeException" where
  "CodeException_from mk e = mk (code e) (message e)"

definition CodeException_errorCode :: "CodeException \<Rightarrow> uint64" where
  "CodeException_errorCode e = ce_code e"

definition CodeException_eq :: "CodeException \<Rightarrow> CodeException \<Rightarrow> bool" where
  "CodeException_eq l r \<longleftrightarrow> ce_code l = ce_code r \<and> ce_message l = ce_message r"

definition CodeMemoryExceeded :: "(uint64 \<Rightarrow> string \<Rightarrow> CodeException) \<Rightarrow> string \<Rightarrow> CodeException" where
  "CodeMemoryExceeded mk m = mk (errorCode RUNTIME_ERROR ''301'') m"

section \<open>Properties\<close>

lemma Status_eq_iff: "Status_eq l r \<longleftrightarrow> l = r"
  by (auto simp: Status_eq_def)

lemma cleared_status [simp]: "Status_clear s = Status_OK"
  by (simp add: Status_clear_def Status_OK_def)

text \<open>A status of the query language is its text: the error does not take part in the comparison, nor in \<^verbatim>\<open>ok\<close>. A
  cleared status is the default one, and it is a success only if the text of success is empty; a cleared status of
  the other class is always a success.\<close>

theorem gql_status_is_its_text:
  "GQLStatus_eq l r = (GQLStatus_toString l = GQLStatus_toString r)
   \<and> GQLStatus_ok success (s\<lparr>gql_error := e\<rparr>) = GQLStatus_ok success s
   \<and> GQLStatus_clear s = GQLStatus_default
   \<and> (GQLStatus_ok success (GQLStatus_clear s) \<longleftrightarrow> GQLStatus_toString success = [])
   \<and> Status_ok (Status_clear st)"
  by (auto simp: GQLStatus_eq_def GQLStatus_toString_def GQLStatus_ok_def GQLStatus_clear_def GQLStatus_default_def
      Error_clear_def Error_default_def Status_ok_def Status_OK_def)

text \<open>Its order is no order of its values: two statuses with different texts are not equal, and neither is before the
  other, so an ordered container takes all of them for one.\<close>

theorem gql_status_unordered:
  assumes "gql_text l \<noteq> gql_text r"
  shows "\<not> GQLStatus_eq l r \<and> \<not> GQLStatus_less l r \<and> \<not> GQLStatus_less r l \<and> \<not> GQLStatus_greater l r
    \<and> \<not> comparison GQLStatus_less GQLStatus_eq"
proof -
  have "\<not> comparison GQLStatus_less GQLStatus_eq"
  proof
    assume "comparison GQLStatus_less GQLStatus_eq"
    from comparison.less_total [OF this, of l r] assms show False
      by (simp add: GQLStatus_eq_def GQLStatus_less_def)
  qed
  with assms show ?thesis by (simp add: GQLStatus_eq_def GQLStatus_less_def GQLStatus_greater_def)
qed

theorem gql_status_unordered_witness:
  "\<not> comparison GQLStatus_less GQLStatus_eq"
  using gql_status_unordered [of "GQLStatus_default\<lparr>gql_text := ''00000''\<rparr>" GQLStatus_default]
  by (simp add: GQLStatus_default_def)

text \<open>Clearing an outcome or a response to an authentication gives the new one, whatever was in it; and when the
  comparison of tables is the equality, two of them are equal exactly when their parts are.\<close>

theorem outcomes_cleared:
  "ExecutionOutcome_clear oc = (ExecutionOutcome_new :: 'table ExecutionOutcome)
   \<and> AuthResponse_clear au = \<lparr>au_status = Status_OK, au_identifier = None\<rparr>
   \<and> (ExecutionOutcome_eq (=) oc oc' \<longleftrightarrow> oc = oc')
   \<and> (AuthResponse_eq au au' \<longleftrightarrow> au = au')"
proof -
  have opt: "optional_eq (=) x y \<longleftrightarrow> x = y" for x y :: "'v option"
    by (cases x; cases y) simp_all
  show ?thesis
    by (auto simp: ExecutionOutcome_clear_def ExecutionOutcome_new_def AuthResponse_clear_def
        ExecutionOutcome_eq_def AuthResponse_eq_def Status_eq_iff opt)
qed

text \<open>A moved response has all the parts of the old one.\<close>

theorem response_moved:
  "ExecuteResponse_move resp = resp \<and> ExecuteResponse_ok (ExecuteResponse_new :: 'table ExecuteResponse)"
  by (simp add: ExecuteResponse_move_def ExecuteResponse_new_def ExecuteResponse_ok_def Status_ok_def Status_OK_def)

text \<open>Without other threads a copy of the statistics is exact.\<close>

definition copy_inv :: "QueryStats \<Rightarrow> stats_pc \<times> QueryStats \<times> QueryStats \<Rightarrow> bool" where
  "copy_inv r s = (case s of (pc, rhs, t) \<Rightarrow> rhs = r \<and> (case pc of Load_nodes \<Rightarrow> True
     | Store_nodes x \<Rightarrow> x = numAffectedNodes r
     | Load_edges \<Rightarrow> numAffectedNodes t = numAffectedNodes r
     | Store_edges x \<Rightarrow> numAffectedNodes t = numAffectedNodes r \<and> x = numAffectedEdges r
     | Stats_copied \<Rightarrow> t = r))"

lemma copy_inv_step: "stats_step s s' \<Longrightarrow> copy_inv r s \<Longrightarrow> copy_inv r s'"
  by (induction rule: stats_step.induct) (auto simp: copy_inv_def)

lemma copy_inv_reach: "stats_step\<^sup>*\<^sup>* s s' \<Longrightarrow> copy_inv r s \<Longrightarrow> copy_inv r s'"
  by (induction rule: rtranclp_induct) (auto intro: copy_inv_step)

theorem stats_copy_exact:
  assumes "stats_step\<^sup>*\<^sup>* (Load_nodes, rhs, t) (Stats_copied, rhs', t')"
  shows "rhs' = rhs \<and> t' = rhs"
  using copy_inv_reach [OF assms, of rhs] by (simp add: copy_inv_def)

lemma stats_copy_runs: "stats_step\<^sup>*\<^sup>* (Load_nodes, rhs, t) (Stats_copied, rhs, rhs)"
proof -
  let ?t = "t\<lparr>numAffectedNodes := numAffectedNodes rhs\<rparr>"
  have "stats_step\<^sup>*\<^sup>* (Load_nodes, rhs, t) (Store_nodes (numAffectedNodes rhs), rhs, t)" by (blast intro: stats_step.intros)
  also have "stats_step\<^sup>*\<^sup>* \<dots> (Load_edges, rhs, ?t)" by (blast intro: stats_step.intros)
  also have "stats_step\<^sup>*\<^sup>* \<dots> (Store_edges (numAffectedEdges rhs), rhs, ?t)" by (blast intro: stats_step.intros)
  also have "stats_step\<^sup>*\<^sup>* \<dots> (Stats_copied, rhs, ?t\<lparr>numAffectedEdges := numAffectedEdges rhs\<rparr>)"
    by (blast intro: stats_step.intros)
  also have "?t\<lparr>numAffectedEdges := numAffectedEdges rhs\<rparr> = rhs" by simp
  finally show ?thesis .
qed

theorem stats_copy_exact_witness:
  "stats_step\<^sup>*\<^sup>* (Load_nodes, \<lparr>numAffectedNodes = 1, numAffectedEdges = 2\<rparr>, QueryStats_new)
     (Stats_copied, \<lparr>numAffectedNodes = 1, numAffectedEdges = 2\<rparr>, \<lparr>numAffectedNodes = 1, numAffectedEdges = 2\<rparr>)
   \<and> \<lparr>numAffectedNodes = 1, numAffectedEdges = 2\<rparr> = \<lparr>numAffectedNodes = 1, numAffectedEdges = 2 :: int64\<rparr>"
  using stats_copy_exact [OF stats_copy_runs] stats_copy_runs by blast

text \<open>With a thread that counts in between, the copy can be a state that the source never had: here the source counts
  a node and an edge, in this order, and the copy has the edge without the node.\<close>

theorem stats_copy_torn:
  "stats_env\<^sup>*\<^sup>* (Load_nodes, QueryStats_new, QueryStats_new)
     (Stats_copied, \<lparr>numAffectedNodes = 1, numAffectedEdges = 1\<rparr>, \<lparr>numAffectedNodes = 0, numAffectedEdges = 1\<rparr>)"
proof -
  let ?s = "\<lambda>a b. \<lparr>numAffectedNodes = a, numAffectedEdges = b :: int64\<rparr>"
  have "stats_env (Load_nodes, ?s 0 0, ?s 0 0) (Store_nodes 0, ?s 0 0, ?s 0 0)"
    using own [OF load_nodes, of "?s 0 0" "?s 0 0"] by simp
  moreover have "stats_env (Store_nodes 0, ?s 0 0, ?s 0 0) (Store_nodes 0, ?s 1 0, ?s 0 0)"
    using count_node [of "Store_nodes 0" "?s 0 0" "?s 0 0" 1] by simp
  moreover have "stats_env (Store_nodes 0, ?s 1 0, ?s 0 0) (Store_nodes 0, ?s 1 1, ?s 0 0)"
    using count_edge [of "Store_nodes 0" "?s 1 0" "?s 0 0" 1] by simp
  moreover have "stats_env (Store_nodes 0, ?s 1 1, ?s 0 0) (Load_edges, ?s 1 1, ?s 0 0)"
    using own [OF store_nodes, of 0 "?s 1 1" "?s 0 0"] by simp
  moreover have "stats_env (Load_edges, ?s 1 1, ?s 0 0) (Store_edges 1, ?s 1 1, ?s 0 0)"
    using own [OF load_edges, of "?s 1 1" "?s 0 0"] by simp
  moreover have "stats_env (Store_edges 1, ?s 1 1, ?s 0 0) (Stats_copied, ?s 1 1, ?s 0 1)"
    using own [OF store_edges, of 1 "?s 1 1" "?s 0 0"] by simp
  ultimately show ?thesis unfolding QueryStats_new_def by (meson rtranclp.rtrancl_into_rtrancl rtranclp.rtrancl_refl)
qed

text \<open>The two exception classes agree on their comparison, and \<^verbatim>\<open>what\<close> gives the whole message exactly when it has no
  zero character.\<close>

theorem exceptions_compare:
  "StatusException_eq (StatusException_new \<lparr>st_code = c, st_message = m\<rparr>) (StatusException_new \<lparr>st_code = c', st_message = m'\<rparr>)
     = CodeException_eq \<lparr>ce_code = c, ce_message = m\<rparr> \<lparr>ce_code = c', ce_message = m'\<rparr>
   \<and> (StatusException_what (MemoryExceededException m) = m \<longleftrightarrow> CHR 0x00 \<notin> set m)"
  by (auto simp: StatusException_eq_def StatusException_new_def Status_eq_def CodeException_eq_def c_str_def
      StatusException_what_def MemoryExceededException_def takeWhile_eq_all_conv)

end
