(* ===== verification/Guards.thy ===== *)
theory Guards
  imports MemAllocator
begin

text \<open>
  Guards that set a value for the time of a scope and put the old one back: \<^verbatim>\<open>MemoryTrackerGuard\<close> of
  \<^verbatim>\<open>src/include/nebula/common/memory/MemoryTracker.h\<close> for the thread's current tracker and \<^verbatim>\<open>NamedThread::Nominator\<close> of
  \<^verbatim>\<open>common/thread/NamedThread.h\<close> for the thread's name, with one locale for both; and the allocator of
  \<^verbatim>\<open>common/memory/StlAllocator.h\<close>, which counts on the current tracker.
\<close>

section \<open>The current tracker\<close>

text \<open>The trackers of a thread have addresses; \<^verbatim>\<open>currentTracker\<close> may be null. A guard remembers the previous one.\<close>

type_synonym tracker_ptr = "nat option"

record MemoryTrackerGuard =
  prevTracker :: tracker_ptr

definition MemoryTrackerGuard_new :: "tracker_ptr \<Rightarrow> tracker_ptr \<Rightarrow> MemoryTrackerGuard \<times> tracker_ptr" where
  "MemoryTrackerGuard_new tracker currentTracker = (\<lparr>prevTracker = currentTracker\<rparr>, tracker)"

definition MemoryTrackerGuard_destroy :: "MemoryTrackerGuard \<Rightarrow> tracker_ptr \<Rightarrow> tracker_ptr" where
  "MemoryTrackerGuard_destroy g currentTracker = prevTracker g"

section \<open>The name of a thread\<close>

text \<open>\<^verbatim>\<open>prctl(PR_SET_NAME)\<close> takes a string up to its first zero character and keeps at most fifteen characters of it;
  \<^verbatim>\<open>prctl(PR_GET_NAME)\<close> gives what is kept.\<close>

definition prctl_set_name :: "string \<Rightarrow> string" where
  "prctl_set_name n = take 15 (takeWhile (\<lambda>c. c \<noteq> CHR 0x00) n)"

definition thread_name_ok :: "string \<Rightarrow> bool" where
  "thread_name_ok s \<longleftrightarrow> length s \<le> 15 \<and> CHR 0x00 \<notin> set s"

definition Nominator_set :: "string \<Rightarrow> string \<Rightarrow> string" where
  "Nominator_set name s = prctl_set_name name"

definition Nominator_get :: "string \<Rightarrow> string" where
  "Nominator_get s = s"

record Nominator =
  prevName :: string

definition Nominator_new :: "string \<Rightarrow> string \<Rightarrow> Nominator \<times> string" where
  "Nominator_new name s = (let n = \<lparr>prevName = Nominator_get s\<rparr> in (n, Nominator_set name s))"

definition Nominator_destroy :: "Nominator \<Rightarrow> string \<Rightarrow> string" where
  "Nominator_destroy n s = Nominator_set (prevName n) s"

text \<open>What a new thread runs: \<open>f\<close> is the function under the name that the thread has then.\<close>

definition NamedThread_hook :: "string \<Rightarrow> (string \<Rightarrow> 'r) \<Rightarrow> string \<Rightarrow> 'r" where
  "NamedThread_hook name f s = (let s = (if name \<noteq> [] then Nominator_set name s else s) in f s)"

section \<open>Scopes\<close>

text \<open>A scope makes a guard for a value, runs the scopes inside it one after the other, and destroys its guard; the
  list is what the current value is inside the scopes, in the order in which they are entered.\<close>

datatype 'v scope = Scope 'v "'v scope list"

fun run_scope :: "('v \<Rightarrow> 's \<Rightarrow> 'g \<times> 's) \<Rightarrow> ('g \<Rightarrow> 's \<Rightarrow> 's) \<Rightarrow> 'v scope \<Rightarrow> 's \<Rightarrow> 's \<times> 's list"
  and run_scopes :: "('v \<Rightarrow> 's \<Rightarrow> 'g \<times> 's) \<Rightarrow> ('g \<Rightarrow> 's \<Rightarrow> 's) \<Rightarrow> 'v scope list \<Rightarrow> 's \<Rightarrow> 's \<times> 's list" where
  "run_scope enter leave (Scope v body) s = (case enter v s of (g, s1) \<Rightarrow>
     (case run_scopes enter leave body s1 of (s2, seen) \<Rightarrow> (leave g s2, s1 # seen)))"
| "run_scopes enter leave [] s = (s, [])"
| "run_scopes enter leave (b # bs) s = (case run_scope enter leave b s of (s1, seen) \<Rightarrow>
     (case run_scopes enter leave bs s1 of (s2, seen') \<Rightarrow> (s2, seen @ seen')))"

fun scope_values :: "'v scope \<Rightarrow> 'v list"
  and scopes_values :: "'v scope list \<Rightarrow> 'v list" where
  "scope_values (Scope v body) = v # scopes_values body"
| "scopes_values [] = []"
| "scopes_values (b # bs) = scope_values b @ scopes_values bs"

locale scoped_guard =
  fixes enter :: "'v \<Rightarrow> 's \<Rightarrow> 'g \<times> 's" and leave :: "'g \<Rightarrow> 's \<Rightarrow> 's"
    and valid :: "'s \<Rightarrow> bool" and shown :: "'v \<Rightarrow> 's"
  assumes enter_state: "snd (enter v s) = shown v"
    and shown_valid: "valid (shown v)"
    and leave_restores: "valid s \<Longrightarrow> leave (fst (enter v s)) (snd (enter v s)) = s"
begin

text \<open>However the scopes are nested, the value is afterwards what it was before, and inside a scope it is the one of
  that scope.\<close>

lemma scopes_restore:
  "valid s \<Longrightarrow> run_scope enter leave b s = (s, map shown (scope_values b))"
  "valid s \<Longrightarrow> run_scopes enter leave bs s = (s, map shown (scopes_values bs))"
proof (induction b and bs arbitrary: s and s rule: scope_values_scopes_values.induct)
  case (1 v body)
  obtain g s1 where e: "enter v s = (g, s1)" by fastforce
  then have s1: "s1 = shown v" using enter_state [of v s] by simp
  then show ?case using e 1(1) [of s1] shown_valid leave_restores [OF 1(2), of v] by simp
qed simp_all

end

interpretation tracker_guard: scoped_guard MemoryTrackerGuard_new MemoryTrackerGuard_destroy "\<lambda>_. True" id
  by unfold_locales (simp_all add: MemoryTrackerGuard_new_def MemoryTrackerGuard_destroy_def)

lemma prctl_set_name_ok: "thread_name_ok (prctl_set_name n)"
  by (auto simp: thread_name_ok_def prctl_set_name_def dest: in_set_takeD set_takeWhileD)

lemma prctl_set_name_id: "thread_name_ok s \<Longrightarrow> prctl_set_name s = s"
proof -
  assume ok: "thread_name_ok s"
  then have t: "takeWhile (\<lambda>c. c \<noteq> CHR 0x00) s = s" by (auto simp: thread_name_ok_def takeWhile_eq_all_conv)
  show ?thesis using ok by (simp add: prctl_set_name_def t thread_name_ok_def)
qed

interpretation name_guard: scoped_guard Nominator_new Nominator_destroy thread_name_ok prctl_set_name
  by unfold_locales (simp_all add: Nominator_new_def Nominator_destroy_def Nominator_set_def Nominator_get_def
      prctl_set_name_ok prctl_set_name_id)

section \<open>The allocator for containers\<close>

text \<open>\<open>szT\<close> is \<^verbatim>\<open>sizeof(T)\<close>. The product is one of \<^verbatim>\<open>size_t\<close>, and the tracker takes it as a signed number.\<close>

definition stl_bytes :: "uint64 \<Rightarrow> uint64 \<Rightarrow> uint64" where
  "stl_bytes szT n = szT * n"

definition StlAllocator_allocate :: "(c_request \<Rightarrow> bool) \<Rightarrow> uint64 \<Rightarrow> uint64 \<Rightarrow> trackers option
    \<Rightarrow> (alloc_error + c_request) \<times> trackers option" where
  "StlAllocator_allocate av szT n t =
     (case (case t of None \<Rightarrow> (True, None)
        | Some tr \<Rightarrow> (case op_acquire (sint (stl_bytes szT n)) tr of (ok, tr) \<Rightarrow> (ok, Some tr))) of
        (ok, t) \<Rightarrow> (if ok then mem_allocate av (stl_bytes szT n) else Inl MemoryExceeded, t))"

definition StlAllocator_deallocate :: "uint64 \<Rightarrow> uint64 \<Rightarrow> trackers option \<Rightarrow> trackers option" where
  "StlAllocator_deallocate szT n t = map_option (op_release (sint (stl_bytes szT n))) t"

text \<open>Types are compared by a name of theirs.\<close>

definition StlAllocator_eq :: "'type \<Rightarrow> 'type \<Rightarrow> bool" where
  "StlAllocator_eq T T1 \<longleftrightarrow> T = T1"

lemma stl_acquire:
  "StlAllocator_allocate av szT n t = Allocator_allocate av (stl_bytes szT n) 0 t"
  "StlAllocator_deallocate szT n t = Allocator_deallocate (stl_bytes szT n) t"
  unfolding StlAllocator_allocate_def Allocator_allocate_def track_acquire_def block_request_def
      StlAllocator_deallocate_def Allocator_deallocate_def track_release_def by simp_all

section \<open>Properties\<close>

text \<open>Whatever scopes with guards a thread runs, the current tracker is afterwards what it was, and in each scope it is
  the tracker of its guard.\<close>

theorem tracker_restored:
  "run_scope MemoryTrackerGuard_new MemoryTrackerGuard_destroy b currentTracker = (currentTracker, scope_values b)"
  using tracker_guard.scopes_restore(1) [of b currentTracker] by simp

text \<open>The same for names, as far as the system keeps them: in each scope the thread has the first fifteen characters of
  its name up to a zero character, and afterwards its old one.\<close>

theorem thread_name_restored:
  assumes "thread_name_ok s"
  shows "run_scope Nominator_new Nominator_destroy b s = (s, map prctl_set_name (scope_values b))"
  using assms by (rule name_guard.scopes_restore(1))

theorem thread_name_restored_witness:
  "run_scope Nominator_new Nominator_destroy (Scope ''network_topo_worker'' [Scope ''io'' []]) ''main''
     = (''main'', [''network_topo_wo'', ''io''])"
  using thread_name_restored [of "''main''" "Scope ''network_topo_worker'' [Scope ''io'' []]"]
  by (simp add: thread_name_ok_def prctl_set_name_def)

text \<open>Guards that are destroyed in the order in which they were made leave a tracker that was current inside.\<close>

theorem tracker_guard_order:
  "(let (g1, c) = MemoryTrackerGuard_new t1 c0; (g2, c) = MemoryTrackerGuard_new t2 c;
        c = MemoryTrackerGuard_destroy g1 c in MemoryTrackerGuard_destroy g2 c) = t1"
  by (simp add: MemoryTrackerGuard_new_def MemoryTrackerGuard_destroy_def)

text \<open>A new thread with an empty name keeps the name of the thread that made it.\<close>

theorem named_thread_hook:
  "NamedThread_hook name f s = f (if name = [] then s else prctl_set_name name)"
  by (simp add: NamedThread_hook_def Nominator_set_def)

text \<open>An allocation for containers counts and gives the product of the two sizes modulo \<open>2 ^ 64\<close>: as long as the
  product fits, the block has all its bytes, and releasing it counts them back; and a product that does not fit gives a
  block that is too small.\<close>

theorem stl_allocation:
  assumes "trackers_ok (Some tr)" "unat szT * unat n < 2 ^ 63"
    "StlAllocator_allocate av szT n (Some tr) = (Inr req, t')"
  shows "block_bytes req = unat szT * unat n \<and> trackers_ok t' \<and> counted t' = counted (Some tr) + int (unat szT * unat n)
    \<and> counted (StlAllocator_deallocate szT n t') = counted (Some tr)"
proof -
  have b: "unat (stl_bytes szT n) = unat szT * unat n"
    using assms(2) by (simp add: stl_bytes_def unat_mult_lem [THEN iffD1])
  have small: "unat (stl_bytes szT n) < 2 ^ 63" using b assms(2) by simp
  obtain ok u where a: "track_acquire (stl_bytes szT n) (Some tr) = (ok, u)" by fastforce
  have ok: "ok" "u = t'" "block_request av (stl_bytes szT n) 0 = Inr req"
    using assms(3) a by (auto simp: stl_acquire Allocator_allocate_def split: if_splits)
  have t: "trackers_ok t'" "counted t' = counted (Some tr) + int (unat (stl_bytes szT n))"
    using track_acquire_spec [OF a assms(1) small] ok by simp_all
  have "t' \<noteq> None" using a ok(2) by (auto simp: track_acquire_def split: prod.splits)
  then have "counted (StlAllocator_deallocate szT n t') = counted (Some tr)"
    using track_release_spec [OF t(1) small] t(2) by (simp add: stl_acquire Allocator_deallocate_def)
  then show ?thesis using t b block_request_result(1) [OF ok(3)] by simp
qed

theorem stl_allocation_wraps:
  "StlAllocator_allocate (\<lambda>_. True) szT n None = (Inr (Malloc (szT * n)), None)
   \<and> block_bytes (Malloc (szT * n)) = (unat szT * unat n) mod 2 ^ 64"
  by (simp add: StlAllocator_allocate_def stl_bytes_def mem_allocate_def unat_word_ariths)

end
