(* ===== verification/Views.thy ===== *)
theory Views
  imports Wire Values ErrorCodes
begin

text \<open>
  The headers of vectors, \<^verbatim>\<open>src/include/nebula/common/table/vector/VectorTypeDefs.h\<close>, and the views of nodes and edges,
  \<^verbatim>\<open>common/graph/NodeView.h\<close> and \<^verbatim>\<open>EdgeView.h\<close>. A scalar is a union of eight bytes: constructing it from a member
  writes the bytes of the member and leaves the others as they were. Readers of vectors are compiled into the binary
  library; what the views take from them is a parameter.
\<close>

section \<open>Sizes\<close>

definition kMaxMemoryTypeSize :: uint32 where "kMaxMemoryTypeSize = 32"
definition kMaximumVectorBytes :: uint32 where "kMaximumVectorBytes = 0xFFFFFFFF"
definition kMaximumVectorSize :: uint32 where "kMaximumVectorSize = kMaximumVectorBytes div kMaxMemoryTypeSize"
definition kInvalidVectorIndex :: uint32 where "kInvalidVectorIndex = 0xFFFFFFFF"
definition kPreferredBatchSize :: uint32 where "kPreferredBatchSize = 1024"

section \<open>Headers\<close>

record ListHeader =
  lh_offset :: uint32
  lh_size :: uint32

record NodeKey =
  nk_nodeID :: NodeID
  nk_graphID :: GraphID

text \<open>The union of a node is used through its key.\<close>

definition NodeHeader_new :: "NodeID \<Rightarrow> GraphID \<Rightarrow> NodeKey" where
  "NodeHeader_new n g = \<lparr>nk_nodeID = n, nk_graphID = g\<rparr>"

definition NodeHeader_default :: NodeKey where
  "NodeHeader_default = NodeHeader_new 0 (- 1)"

definition EdgeHeader_default :: EdgeID where
  "EdgeHeader_default = defaultEdgeID"

definition EdgeHeader_new :: "EdgeID \<Rightarrow> EdgeID" where
  "EdgeHeader_new e = e"

definition EdgeHeader_typeID :: "EdgeID \<Rightarrow> EdgeTypeID" where
  "EdgeHeader_typeID h = removeDirection (edgeTypeID h)"

record PathHeader =
  headNodeID :: NodeID
  tailNodeID :: NodeID
  ph_size :: uint32
  ph_length :: uint32
  headOffset :: uint32
  tailOffset :: uint32

section \<open>Scalars\<close>

datatype scalar_member =
    S_bool bool | S_int8 int8 | S_int16 int16 | S_int32 int32 | S_int64 int64
  | S_uint8 byte | S_uint16 uint16 | S_uint32 uint32 | S_uint64 uint64
  | S_float "32 word" | S_double double
  | S_localTime LocalTime | S_zonedTime ZonedTime | S_date Date
  | S_localDatetime LocalDatetime | S_zonedDatetime LocalDatetime
  | S_ref Ref | S_ptr uint64

definition time_image :: "LocalTime \<Rightarrow> byte list" where
  "time_image t = le_write 1 (hour t) @ le_write 1 (minute t) @ le_write 1 (sec t) @ le_write 1 (padding t)
     @ le_write 4 (microsec t)"

fun member_bytes :: "scalar_member \<Rightarrow> byte list" where
  "member_bytes (S_bool b) = [if b then 1 else 0]"
| "member_bytes (S_int8 v) = le_write 1 v"
| "member_bytes (S_int16 v) = le_write 2 v"
| "member_bytes (S_int32 v) = le_write 4 v"
| "member_bytes (S_int64 v) = le_write 8 v"
| "member_bytes (S_uint8 v) = le_write 1 v"
| "member_bytes (S_uint16 v) = le_write 2 v"
| "member_bytes (S_uint32 v) = le_write 4 v"
| "member_bytes (S_uint64 v) = le_write 8 v"
| "member_bytes (S_float v) = le_write 4 v"
| "member_bytes (S_double v) = le_write 8 v"
| "member_bytes (S_localTime t) = time_image t"
| "member_bytes (S_zonedTime z) = time_image (time z)"
| "member_bytes (S_date d) = le_write 2 (year d) @ le_write 1 (month d) @ le_write 1 (day d)"
| "member_bytes (S_localDatetime t) = le_write 8 (qword t)"
| "member_bytes (S_zonedDatetime t) = le_write 8 (qword t)"
| "member_bytes (S_ref r) = le_write 4 (refCode r) @ le_write 4 (refOffset r)"
| "member_bytes (S_ptr p) = le_write 8 p"

text \<open>\<open>mem\<close> is what was in the eight bytes before.\<close>

definition ScalarData_new :: "byte list \<Rightarrow> scalar_member \<Rightarrow> byte list" where
  "ScalarData_new mem m = member_bytes m @ drop (length (member_bytes m)) mem"

definition ScalarData_default :: "byte list \<Rightarrow> byte list" where
  "ScalarData_default mem = ScalarData_new mem (S_ptr 0)"

definition kEmptyScalarData :: "byte list" where
  "kEmptyScalarData = ScalarData_default (replicate 8 0)"

definition ScalarData_isEmpty :: "byte list \<Rightarrow> bool" where
  "ScalarData_isEmpty d \<longleftrightarrow> (le_word d :: uint64) = 0"

section \<open>Views\<close>

record 'reader NodeView =
  nv_header :: NodeKey
  nv_vreader :: "'reader option"
  nv_offset :: uint32
  nv_node :: "Node option"

definition NodeView_new :: "Node \<Rightarrow> 'reader NodeView" where
  "NodeView_new node =
     (let v = \<lparr>nv_header = NodeHeader_default, nv_vreader = None, nv_offset = kInvalidVectorIndex, nv_node = Some node\<rparr>;
          v = v\<lparr>nv_header := (nv_header v)\<lparr>nk_nodeID := nodeIdent node\<rparr>\<rparr> in
      v\<lparr>nv_header := (nv_header v)\<lparr>nk_graphID := nodeGraphID node\<rparr>\<rparr>)"

definition NodeView_getNodeID :: "'reader NodeView \<Rightarrow> NodeID" where
  "NodeView_getNodeID v = nk_nodeID (nv_header v)"

definition NodeView_getGraphID :: "'reader NodeView \<Rightarrow> GraphID" where
  "NodeView_getGraphID v = nk_graphID (nv_header v)"

definition NodeView_getNodeTypeID :: "'reader NodeView \<Rightarrow> NodeTypeID" where
  "NodeView_getNodeTypeID v = nodeType (nk_nodeID (nv_header v))"

definition NodeView_neq :: "('reader NodeView \<Rightarrow> 'reader NodeView \<Rightarrow> bool) \<Rightarrow> 'reader NodeView \<Rightarrow> 'reader NodeView \<Rightarrow> bool" where
  "NodeView_neq eq v w \<longleftrightarrow> \<not> eq v w"

text \<open>Text and hash key are those of the node that \<^verbatim>\<open>toNative\<close> makes.\<close>

definition NodeView_toString :: "('reader NodeView \<Rightarrow> Node) \<Rightarrow> (Node \<Rightarrow> string) \<Rightarrow> 'reader NodeView \<Rightarrow> string" where
  "NodeView_toString toNative nodeText v = nodeText (toNative v)"

definition NodeView_hashKey :: "('reader NodeView \<Rightarrow> Node) \<Rightarrow> (Node \<Rightarrow> byte list \<Rightarrow> byte list) \<Rightarrow> 'reader NodeView
    \<Rightarrow> byte list \<Rightarrow> byte list" where
  "NodeView_hashKey toNative nodeKey v key = nodeKey (toNative v) key"

record 'reader EdgeView =
  ev_header :: EdgeID
  ev_vreader :: "'reader option"
  ev_offset :: uint32
  ev_edge :: "Edge option"

definition EdgeView_new :: "Edge \<Rightarrow> 'reader EdgeView" where
  "EdgeView_new edge =
     \<lparr>ev_header = EdgeHeader_default, ev_vreader = None, ev_offset = kInvalidVectorIndex, ev_edge = Some edge\<rparr>"

text \<open>\<^verbatim>\<open>getEdgeID\<close> is only declared; the other accessors go through it.\<close>

definition EdgeView_getSrcID :: "('reader EdgeView \<Rightarrow> EdgeID) \<Rightarrow> 'reader EdgeView \<Rightarrow> NodeID" where
  "EdgeView_getSrcID getEdgeID v = srcID (getEdgeID v)"

definition EdgeView_getDstID :: "('reader EdgeView \<Rightarrow> EdgeID) \<Rightarrow> 'reader EdgeView \<Rightarrow> NodeID" where
  "EdgeView_getDstID getEdgeID v = dstID (getEdgeID v)"

definition EdgeView_getGraphID :: "('reader EdgeView \<Rightarrow> EdgeID) \<Rightarrow> 'reader EdgeView \<Rightarrow> GraphID" where
  "EdgeView_getGraphID getEdgeID v = graphID (getEdgeID v)"

definition EdgeView_getEdgeTypeID :: "('reader EdgeView \<Rightarrow> EdgeID) \<Rightarrow> 'reader EdgeView \<Rightarrow> EdgeTypeID" where
  "EdgeView_getEdgeTypeID getEdgeID v = edgeTypeID (getEdgeID v)"

definition EdgeView_getEdgeRank :: "('reader EdgeView \<Rightarrow> EdgeID) \<Rightarrow> 'reader EdgeView \<Rightarrow> EdgeRank" where
  "EdgeView_getEdgeRank getEdgeID v = rank (getEdgeID v)"

definition EdgeView_neq :: "('reader EdgeView \<Rightarrow> 'reader EdgeView \<Rightarrow> bool) \<Rightarrow> 'reader EdgeView \<Rightarrow> 'reader EdgeView \<Rightarrow> bool" where
  "EdgeView_neq eq v w \<longleftrightarrow> \<not> eq v w"

definition EdgeView_toString :: "('reader EdgeView \<Rightarrow> Edge) \<Rightarrow> (Edge \<Rightarrow> string) \<Rightarrow> 'reader EdgeView \<Rightarrow> string" where
  "EdgeView_toString toNative edgeText v = edgeText (toNative v)"

definition EdgeView_hashKey :: "('reader EdgeView \<Rightarrow> Edge) \<Rightarrow> (Edge \<Rightarrow> byte list \<Rightarrow> byte list) \<Rightarrow> 'reader EdgeView
    \<Rightarrow> byte list \<Rightarrow> byte list" where
  "EdgeView_hashKey toNative edgeKey v key = edgeKey (toNative v) key"

section \<open>Properties\<close>

text \<open>A view of a node shows the node's own numbers, and its type.\<close>

theorem node_view_shows:
  "NodeView_getNodeID (NodeView_new n :: 'reader NodeView) = nodeIdent n
   \<and> NodeView_getGraphID (NodeView_new n :: 'reader NodeView) = nodeGraphID n
   \<and> NodeView_getNodeTypeID (NodeView_new n :: 'reader NodeView) = getNodeTypeID n"
  by (simp add: NodeView_new_def NodeView_getNodeID_def NodeView_getGraphID_def NodeView_getNodeTypeID_def
      getNodeTypeID_def NodeHeader_default_def NodeHeader_new_def)

text \<open>A view of an edge does not keep the identity of the edge in its header: the header is the default one for every
  edge, so \<^verbatim>\<open>getEdgeID\<close> has to look at the edge.\<close>

theorem edge_view_header:
  "ev_header (EdgeView_new e :: 'reader EdgeView) = ev_header (EdgeView_new e' :: 'reader EdgeView)
   \<and> ev_edge (EdgeView_new e :: 'reader EdgeView) = Some e"
  by (simp add: EdgeView_new_def)

lemma le_word_zero: "length d = 8 \<Longrightarrow> (le_word d :: uint64) = 0 \<longleftrightarrow> d = replicate 8 0"
proof
  assume l: "length d = 8" and "(le_word d :: uint64) = 0"
  moreover have "le_write 8 (le_word d :: uint64) = d" using le_write_le_word [of d, where 'l = 64] l by simp
  ultimately have "d = le_write 8 (0 :: uint64)" by simp
  also have "\<dots> = replicate 8 0" by code_simp
  finally show "d = replicate 8 0" .
qed (simp add: bit_eq_iff bit_le_word)

lemma member_length: "length (member_bytes m) \<le> 8"
  by (cases m) (simp_all add: time_image_def)

lemma scalar_length: "length mem = 8 \<Longrightarrow> length (ScalarData_new mem m) = 8"
  using member_length [of m] by (simp add: ScalarData_new_def)

lemma scalar_empty_iff:
  assumes "length mem = 8"
  shows "ScalarData_isEmpty (ScalarData_new mem m) \<longleftrightarrow>
    member_bytes m = replicate (length (member_bytes m)) 0
    \<and> drop (length (member_bytes m)) mem = replicate (8 - length (member_bytes m)) 0"
proof -
  let ?k = "length (member_bytes m)"
  have "replicate 8 (0 :: byte) = replicate ?k 0 @ replicate (8 - ?k) 0"
    using member_length [of m] by (simp flip: replicate_add)
  then have "ScalarData_new mem m = replicate 8 0 \<longleftrightarrow>
      member_bytes m = replicate ?k 0 \<and> drop ?k mem = replicate (8 - ?k) 0"
    by (simp add: ScalarData_new_def)
  then show ?thesis
    using le_word_zero [OF scalar_length [OF assms]] by (simp add: ScalarData_isEmpty_def)
qed

lemma le_write_zero: "LENGTH('l::len) = 8 * n \<Longrightarrow> le_write n (x :: 'l word) = replicate n 0 \<longleftrightarrow> x = 0"
proof -
  assume l: "LENGTH('l) = 8 * n"
  have "le_write n (0 :: 'l word) = replicate n 0" by (rule nth_equalityI) (simp_all add: le_write_def)
  then show ?thesis using le_word_write [OF l, of x] le_word_write [OF l, of 0] by metis
qed

lemma zeros_append: "xs @ ys = replicate n (0 :: byte) \<longleftrightarrow>
    length xs \<le> n \<and> xs = replicate (length xs) 0 \<and> ys = replicate (n - length xs) 0"
proof (induction xs arbitrary: n)
  case (Cons x xs)
  then show ?case by (cases n) auto
qed simp

lemma le_write_zero1: "le_write 1 (x :: byte) = [0] \<longleftrightarrow> x = 0"
  using le_write_zero [of 1 x] by simp

text \<open>The empty scalar is the null pointer, so values whose memory is zero count as empty: the integer and the floating
  point zero, a time at midnight, the reference with code and offset zero. A date is never empty while its month is
  not zero, and a short member is empty only if the rest of the memory happens to be zero.\<close>

theorem scalar_zero_is_empty:
  assumes "length mem = 8"
  shows "(ScalarData_isEmpty (ScalarData_new mem (S_int64 x)) \<longleftrightarrow> x = 0)
    \<and> (ScalarData_isEmpty (ScalarData_new mem (S_double d)) \<longleftrightarrow> d = 0)
    \<and> (ScalarData_isEmpty (ScalarData_new mem (S_localTime t)) \<longleftrightarrow>
         hour t = 0 \<and> minute t = 0 \<and> sec t = 0 \<and> padding t = 0 \<and> microsec t = 0)
    \<and> (ScalarData_isEmpty (ScalarData_new mem (S_ref r)) \<longleftrightarrow> refCode r = 0 \<and> refOffset r = 0)
    \<and> (ScalarData_isEmpty (ScalarData_new mem (S_date dt)) \<longleftrightarrow>
         year dt = 0 \<and> month dt = 0 \<and> day dt = 0 \<and> drop 4 mem = replicate 4 0)
    \<and> (ScalarData_isEmpty (ScalarData_new mem (S_int32 i)) \<longleftrightarrow> i = 0 \<and> drop 4 mem = replicate 4 0)
    \<and> ScalarData_isEmpty (ScalarData_default mem)"
proof -
  note e = scalar_empty_iff [OF assms]
  have int64: "ScalarData_isEmpty (ScalarData_new mem (S_int64 x)) \<longleftrightarrow> x = 0"
    unfolding e using assms by (simp add: le_write_zero)
  have dbl: "ScalarData_isEmpty (ScalarData_new mem (S_double d)) \<longleftrightarrow> d = 0"
    unfolding e using assms by (simp add: le_write_zero)
  have int32: "ScalarData_isEmpty (ScalarData_new mem (S_int32 i)) \<longleftrightarrow> i = 0 \<and> drop 4 mem = replicate 4 0"
    unfolding e by (simp add: le_write_zero)
  have ptr: "ScalarData_isEmpty (ScalarData_default mem)"
    unfolding ScalarData_default_def e using assms by (simp add: le_write_zero)
  have ref: "ScalarData_isEmpty (ScalarData_new mem (S_ref r)) \<longleftrightarrow> refCode r = 0 \<and> refOffset r = 0"
    unfolding e using assms by (simp add: zeros_append le_write_zero)
  have tm: "ScalarData_isEmpty (ScalarData_new mem (S_localTime t)) \<longleftrightarrow>
         hour t = 0 \<and> minute t = 0 \<and> sec t = 0 \<and> padding t = 0 \<and> microsec t = 0"
    unfolding e using assms by (simp add: time_image_def zeros_append le_write_zero del: One_nat_def)
  have dt: "ScalarData_isEmpty (ScalarData_new mem (S_date dt)) \<longleftrightarrow>
         year dt = 0 \<and> month dt = 0 \<and> day dt = 0 \<and> drop 4 mem = replicate 4 0"
    unfolding e by (simp add: zeros_append le_write_zero le_write_zero1 del: One_nat_def)
  show ?thesis using int64 dbl int32 ptr ref tm dt by simp
qed

theorem scalar_zero_is_empty_witness:
  "ScalarData_isEmpty (ScalarData_new (replicate 8 7) (S_int64 0))
   \<and> \<not> ScalarData_isEmpty (ScalarData_new (replicate 8 7) (S_int32 0))"
  using scalar_zero_is_empty [of "replicate 8 7" 0 0 undefined undefined undefined 0] by simp

text \<open>A vector of the greatest size has a number of bytes that fits, for elements of the size that the bound is made
  for.\<close>

theorem vector_bytes_fit:
  "unat kMaximumVectorSize * unat kMaxMemoryTypeSize \<le> unat kMaximumVectorBytes
   \<and> unat kMaximumVectorBytes < (unat kMaximumVectorSize + 1) * unat kMaxMemoryTypeSize"
  by (simp add: kMaximumVectorSize_def kMaximumVectorBytes_def kMaxMemoryTypeSize_def)

text \<open>The type in the header of an edge has no direction, so both views of an edge have the same.\<close>

theorem edge_header_type:
  "EdgeHeader_typeID (EdgeHeader_new (reverseEdge e)) = EdgeHeader_typeID (EdgeHeader_new e)"
  by (auto simp: EdgeHeader_typeID_def EdgeHeader_new_def reverseEdge_def swapEnds_def dir_bits removeDirection_eq_iff)

end
