(* ===== verification/TypeShapes.thy ===== *)
theory TypeShapes
  imports ValueTypes TypeKinds
begin

text \<open>
  The classes of \<^verbatim>\<open>src/include/nebula/common/valuetype/ValueType.h\<close> one by one: their constructors, accessors, texts
  and the steps of \<^verbatim>\<open>clone\<close>, which makes an object with the default constructor and lets \<^verbatim>\<open>doClone\<close> fill it. The
  theorem \<open>clone_steps\<close> shows that these steps are the function \<open>clone\<close>. A failed \<^verbatim>\<open>DCHECK\<close> and a null pointer that is
  followed are \<open>None\<close>. \<^verbatim>\<open>std::unordered_map\<close> is a list of its entries with different names.
\<close>

section \<open>The base class\<close>

definition isA_kind :: "ValueTypeKind \<Rightarrow> 'o ValueType \<Rightarrow> bool" where
  "isA_kind k t \<longleftrightarrow> type_of t = k"

fun isGraphElementType :: "'o ValueType \<Rightarrow> bool" where
  "isGraphElementType (TNodeRef os) = True"
| "isGraphElementType (TEdgeRef os) = True"
| "isGraphElementType _ = False"

text \<open>Which classes override \<^verbatim>\<open>toString\<close> out of line; their texts are the parameter \<open>lib\<close>.\<close>

fun overrides_toString :: "'o ValueType \<Rightarrow> bool" where
  "overrides_toString (TAny vs) = True"
| "overrides_toString (TPath cs) = True"
| "overrides_toString (TRecord fs) = True"
| "overrides_toString (TGraphRef ns es) = True"
| "overrides_toString (TTableRef r) = True"
| "overrides_toString (TNodeRef os) = True"
| "overrides_toString (TEdgeRef os) = True"
| "overrides_toString _ = False"

text \<open>\<open>None\<close> is a kind that \<^verbatim>\<open>enum2String\<close> does not know.\<close>

definition base_toString :: "'o ValueType \<Rightarrow> string option" where
  "base_toString t = kind_enum2String (type_of t)"

definition bracketed :: "string \<Rightarrow> string \<Rightarrow> string" where
  "bracketed l c = l @ ''<'' @ c @ ''>''"

fun type_toString :: "('o ValueType \<Rightarrow> string) \<Rightarrow> 'o ValueType \<Rightarrow> string option" where
  "type_toString lib (TList c g) = (case (base_toString (TList c g), type_toString lib c) of
     (Some l, Some t) \<Rightarrow> Some (bracketed l t) | _ \<Rightarrow> None)"
| "type_toString lib t = (if overrides_toString t then Some (lib t) else base_toString t)"

definition type_equal :: "('o ValueType \<Rightarrow> 'o ValueType \<Rightarrow> bool) \<Rightarrow> 'o ValueType \<Rightarrow> 'o ValueType \<Rightarrow> bool" where
  "type_equal lib lhs rhs = type_eq lib lhs rhs"

definition type_less :: "('o ValueType \<Rightarrow> 'o ValueType \<Rightarrow> int) \<Rightarrow> 'o ValueType \<Rightarrow> 'o ValueType \<Rightarrow> bool" where
  "type_less lib lhs rhs \<longleftrightarrow> type_compare lib lhs rhs < 0"

definition type_not_equal :: "('o ValueType \<Rightarrow> 'o ValueType \<Rightarrow> bool) \<Rightarrow> 'o ValueType \<Rightarrow> 'o ValueType \<Rightarrow> bool" where
  "type_not_equal lib lhs rhs \<longleftrightarrow> \<not> type_eq lib lhs rhs"

section \<open>Unions and lists\<close>

definition Any_default :: "'o ValueType" where
  "Any_default = TAny []"

definition Any_open :: "'o ValueType list \<Rightarrow> bool" where
  "Any_open variants \<longleftrightarrow> variants = []"

text \<open>\<open>cln\<close> is \<^verbatim>\<open>clone\<close> of the variants.\<close>

fun Any_clone :: "('o ValueType \<Rightarrow> 'o ValueType \<Rightarrow> int) \<Rightarrow> ('o ValueType \<Rightarrow> 'o ValueType option) \<Rightarrow> 'o ValueType list
    \<Rightarrow> 'o ValueType list \<Rightarrow> 'o ValueType list option" where
  "Any_clone cmp cln p [] = Some p"
| "Any_clone cmp cln p (variant # rest) = (case cln variant of None \<Rightarrow> None
     | Some c \<Rightarrow> Any_clone cmp cln (ValueTypeSet_emplace cmp c p) rest)"

definition ListType_default :: "'o ValueType" where
  "ListType_default = TList Any_default False"

definition ListType_new :: "'o ValueType option \<Rightarrow> bool \<Rightarrow> 'o ValueType option" where
  "ListType_new child grouped = map_option (\<lambda>c. TList c grouped) child"

definition ListType_doClone :: "('o ValueType \<Rightarrow> 'o ValueType option) \<Rightarrow> 'o ValueType \<Rightarrow> bool \<Rightarrow> 'o ValueType option" where
  "ListType_doClone cln inputChild inputGroup = map_option (\<lambda>c. TList c inputGroup) (cln inputChild)"

section \<open>Paths\<close>

definition Path_new :: "('o ValueType list \<Rightarrow> 'o ValueType list) \<Rightarrow> ('o ValueType list \<Rightarrow> bool) \<Rightarrow> 'o ValueType list
    \<Rightarrow> 'o ValueType option" where
  "Path_new mergeProps isValid children =
     (if isValid (mergeProps children) then Some (TPath (mergeProps children)) else None)"

text \<open>The children are appended to those of the object that is filled.\<close>

fun Path_doClone :: "('o ValueType \<Rightarrow> 'o ValueType option) \<Rightarrow> 'o ValueType list \<Rightarrow> 'o ValueType list
    \<Rightarrow> 'o ValueType list option" where
  "Path_doClone cln p [] = Some p"
| "Path_doClone cln p (child # rest) = (case cln child of None \<Rightarrow> None
     | Some c \<Rightarrow> Path_doClone cln (p @ [c]) rest)"

definition Path_clone :: "('o ValueType \<Rightarrow> 'o ValueType option) \<Rightarrow> 'o ValueType list \<Rightarrow> 'o ValueType option" where
  "Path_clone cln children = map_option TPath (Path_doClone cln [] children)"

section \<open>Records\<close>

text \<open>\<^verbatim>\<open>emplace\<close> keeps an entry that is there.\<close>

definition field_emplace :: "string \<Rightarrow> 'v \<Rightarrow> (string \<times> 'v) list \<Rightarrow> (string \<times> 'v) list" where
  "field_emplace n t fs = (if n \<in> fst ` set fs then fs else fs @ [(n, t)])"

fun Record_of_pairs :: "(string \<times> 'v) list \<Rightarrow> (string \<times> 'v) list \<Rightarrow> (string \<times> 'v) list" where
  "Record_of_pairs fieldTypes [] = fieldTypes"
| "Record_of_pairs fieldTypes ((n, t) # rest) = Record_of_pairs (field_emplace n t fieldTypes) rest"

definition Record_new :: "(string \<times> 'o ValueType) list \<Rightarrow> 'o ValueType" where
  "Record_new flds = TRecord (Record_of_pairs [] flds)"

function Record_of_lists :: "(string \<times> 'v) list \<Rightarrow> string list \<Rightarrow> 'v list \<Rightarrow> nat \<Rightarrow> (string \<times> 'v) list" where
  "Record_of_lists fieldTypes names types i = (if i < length names
     then Record_of_lists (field_emplace (names ! i) (types ! i) fieldTypes) names types (Suc i) else fieldTypes)"
  by pat_completeness auto
termination by (relation "measure (\<lambda>(fieldTypes, names, types, i). length names - i)") auto

declare Record_of_lists.simps [simp del]

definition Record_new_lists :: "string list \<Rightarrow> 'o ValueType list \<Rightarrow> 'o ValueType option" where
  "Record_new_lists names types =
     (if length names = length types then Some (TRecord (Record_of_lists [] names types 0)) else None)"

definition Record_fieldNames :: "(string \<times> 'v) list \<Rightarrow> string list" where
  "Record_fieldNames fieldTypes = map fst fieldTypes"

fun Record_doClone :: "('v \<Rightarrow> 'v option) \<Rightarrow> (string \<times> 'v) list \<Rightarrow> (string \<times> 'v) list \<Rightarrow> (string \<times> 'v) list option" where
  "Record_doClone cln p [] = Some p"
| "Record_doClone cln p ((n, t) # rest) = (case cln t of None \<Rightarrow> None
     | Some c \<Rightarrow> Record_doClone cln (field_emplace n c p) rest)"

definition Record_clone :: "('o ValueType \<Rightarrow> 'o ValueType option) \<Rightarrow> (string \<times> 'o ValueType) list \<Rightarrow> 'o ValueType option" where
  "Record_clone cln flds = map_option TRecord (Record_doClone cln [] flds)"

section \<open>References and functions\<close>

definition Graph_new :: "'o ValueType list \<Rightarrow> 'o ValueType list \<Rightarrow> 'o ValueType" where
  "Graph_new nodeTypeSet edgeTypeSet = TGraphRef nodeTypeSet edgeTypeSet"

definition Graph_doClone :: "'o ValueType list \<Rightarrow> 'o ValueType list \<Rightarrow> 'o ValueType" where
  "Graph_doClone nodeTypes edgeTypes = TGraphRef nodeTypes edgeTypes"

definition numNodeTypes :: "'o ValueType list \<Rightarrow> nat" where
  "numNodeTypes nodeTypes = length nodeTypes"

definition numEdgeTypes :: "'o ValueType list \<Rightarrow> nat" where
  "numEdgeTypes edgeTypes = length edgeTypes"

definition Table_new :: "(string \<times> 'o ValueType) list option \<Rightarrow> 'o ValueType" where
  "Table_new recordType = TTableRef recordType"

definition Table_clone :: "('o ValueType \<Rightarrow> 'o ValueType option) \<Rightarrow> (string \<times> 'o ValueType) list option
    \<Rightarrow> 'o ValueType option" where
  "Table_clone cln recordType = (case recordType of None \<Rightarrow> None
     | Some flds \<Rightarrow> map_option (\<lambda>p. Table_new (Some p)) (Record_doClone cln [] flds))"

definition Table_fieldTypes :: "(string \<times> 'o ValueType) list option \<Rightarrow> (string \<times> 'o ValueType) list option" where
  "Table_fieldTypes recordType = recordType"

definition Table_fieldNames :: "(string \<times> 'o ValueType) list option \<Rightarrow> string list option" where
  "Table_fieldNames recordType = map_option Record_fieldNames recordType"

text \<open>The check of a set of variants is only declared.\<close>

definition GraphElement_new :: "('o list \<Rightarrow> bool) \<Rightarrow> ('o list \<Rightarrow> 'o ValueType) \<Rightarrow> 'o list \<Rightarrow> 'o ValueType option" where
  "GraphElement_new isValid con variants = (if isValid variants then Some (con variants) else None)"

definition NodeReference_of :: "('o list \<Rightarrow> bool) \<Rightarrow> ('o \<Rightarrow> 'o) \<Rightarrow> 'o \<Rightarrow> 'o ValueType option" where
  "NodeReference_of isValid cloneObj obj = GraphElement_new isValid TNodeRef [cloneObj obj]"

definition NodeReference_of_set :: "('o list \<Rightarrow> bool) \<Rightarrow> 'o list \<Rightarrow> 'o ValueType option" where
  "NodeReference_of_set isValid nodeTypes = GraphElement_new isValid TNodeRef nodeTypes"

definition NodeReference_of_types :: "('o list \<Rightarrow> bool) \<Rightarrow> ('o ValueType list \<Rightarrow> 'o list) \<Rightarrow> 'o ValueType list
    \<Rightarrow> 'o ValueType option" where
  "NodeReference_of_types isValid flatRef types = GraphElement_new isValid TNodeRef (flatRef types)"

definition NodeReference_of_id :: "('o list \<Rightarrow> bool) \<Rightarrow> (NodeTypeID \<Rightarrow> 'o) \<Rightarrow> NodeTypeID \<Rightarrow> 'o ValueType option" where
  "NodeReference_of_id isValid mk i = GraphElement_new isValid TNodeRef [mk i]"

definition EdgeReference_of :: "('o list \<Rightarrow> bool) \<Rightarrow> ('o \<Rightarrow> 'o) \<Rightarrow> 'o \<Rightarrow> 'o ValueType option" where
  "EdgeReference_of isValid cloneObj obj = GraphElement_new isValid TEdgeRef [cloneObj obj]"

definition EdgeReference_of_set :: "('o list \<Rightarrow> bool) \<Rightarrow> 'o list \<Rightarrow> 'o ValueType option" where
  "EdgeReference_of_set isValid edgeTypes = GraphElement_new isValid TEdgeRef edgeTypes"

definition EdgeReference_of_types :: "('o list \<Rightarrow> bool) \<Rightarrow> ('o ValueType list \<Rightarrow> 'o list) \<Rightarrow> 'o ValueType list
    \<Rightarrow> 'o ValueType option" where
  "EdgeReference_of_types isValid flatRef types = GraphElement_new isValid TEdgeRef (flatRef types)"

definition EdgeReference_of_id :: "('o list \<Rightarrow> bool) \<Rightarrow> (EdgeTypeID \<Rightarrow> 'o) \<Rightarrow> EdgeTypeID \<Rightarrow> 'o ValueType option" where
  "EdgeReference_of_id isValid mk i = GraphElement_new isValid TEdgeRef [mk i]"

definition Function_default :: "'o ValueType" where
  "Function_default = TFunction [] [] None"

definition Function_new :: "string \<Rightarrow> 'o ValueType list \<Rightarrow> 'o ValueType option \<Rightarrow> 'o ValueType" where
  "Function_new name args ret = TFunction name args ret"

definition Function_doClone :: "('o ValueType \<Rightarrow> 'o ValueType option) \<Rightarrow> string \<Rightarrow> 'o ValueType list \<Rightarrow> 'o ValueType option
    \<Rightarrow> 'o ValueType option" where
  "Function_doClone cln name args ret = (case Path_doClone cln [] args of None \<Rightarrow> None
     | Some as \<Rightarrow> (case ret of None \<Rightarrow> None | Some r \<Rightarrow> map_option (\<lambda>c. TFunction name as (Some c)) (cln r)))"

section \<open>Loops\<close>

lemma those_Cons: "those (x # xs) = (case x of None \<Rightarrow> None | Some y \<Rightarrow> map_option (Cons y) (those xs))"
  by (simp split: option.split)

lemma Any_clone_those:
  "Any_clone cmp cln p vs = map_option (foldl (\<lambda>s c. ValueTypeSet_emplace cmp c s) p) (those (map cln vs))"
  by (induction vs arbitrary: p) (auto simp: option.map_comp comp_def split: option.split)

lemma append_snoc: "(@) (p @ [x]) = (\<lambda>y. p @ x # y)"
  by (simp add: fun_eq_iff)

lemma append_Nil_option: "map_option ((@) []) x = x"
  by (cases x) simp_all

lemma Path_doClone_those: "Path_doClone cln p cs = map_option ((@) p) (those (map cln cs))"
  by (induction cs arbitrary: p) (auto simp: option.map_comp comp_def append_snoc split: option.split)

lemma Record_doClone_those:
  assumes "distinct (map fst (p @ fs))"
  shows "Record_doClone cln p fs = map_option ((@) p) (those (map (\<lambda>f. map_option (Pair (fst f)) (cln (snd f))) fs))"
  using assms
proof (induction fs arbitrary: p)
  case (Cons f fs)
  obtain n t where f: "f = (n, t)" by fastforce
  show ?case
  proof (cases "cln t")
    case (Some c)
    have "distinct (map fst ((p @ [(n, c)]) @ fs))" using Cons.prems f by auto
    moreover have "field_emplace n c p = p @ [(n, c)]" using Cons.prems f by (auto simp: field_emplace_def)
    ultimately show ?thesis using f Some Cons.IH by (simp add: option.map_comp comp_def append_snoc)
  qed (simp add: f)
qed simp

lemma map_of_emplace: "map_of (field_emplace n t fs) = (\<lambda>k. case map_of fs k of Some x \<Rightarrow> Some x
    | None \<Rightarrow> if k = n then Some t else None)"
proof (cases "n \<in> fst ` set fs")
  case True
  then obtain x where "map_of fs n = Some x" by (metis map_of_eq_None_iff not_None_eq)
  then show ?thesis using True by (auto simp: field_emplace_def fun_eq_iff split: option.split)
next
  case False
  then have "map_of fs n = None" by (simp add: map_of_eq_None_iff)
  then show ?thesis using False by (auto simp: field_emplace_def fun_eq_iff map_add_def split: option.split)
qed

lemma distinct_emplace: "distinct (map fst fs) \<Longrightarrow> distinct (map fst (field_emplace n t fs))"
  by (auto simp: field_emplace_def)

lemma Record_of_pairs_map: "map_of (Record_of_pairs ts fs) = map_of fs ++ map_of ts"
proof (induction ts fs rule: Record_of_pairs.induct)
  case (2 ts n t rest)
  then show ?case by (auto simp: map_of_emplace map_add_def fun_eq_iff split: option.split)
qed simp

lemma Record_of_pairs_distinct: "distinct (map fst ts) \<Longrightarrow> distinct (map fst (Record_of_pairs ts fs))"
  by (induction ts fs rule: Record_of_pairs.induct) (auto intro: distinct_emplace)

lemma Record_of_lists_pairs:
  "length names = length types \<Longrightarrow>
     Record_of_lists ts names types i = Record_of_pairs ts (drop i (zip names types))"
proof (induction "length names - i" arbitrary: ts i)
  case 0
  then show ?case by (simp add: Record_of_lists.simps [of ts])
next
  case (Suc d)
  then have "i < length (zip names types)" by simp
  then have "drop i (zip names types) = (names ! i, types ! i) # drop (Suc i) (zip names types)"
    using Suc.prems by (simp flip: Cons_nth_drop_Suc)
  moreover have "Record_of_lists ts names types i
      = Record_of_lists (field_emplace (names ! i) (types ! i) ts) names types (Suc i)"
    using \<open>i < length (zip names types)\<close> by (subst Record_of_lists.simps) simp
  ultimately show ?case using Suc(1) [of "Suc i"] Suc(2) Suc.prems by simp
qed

section \<open>Properties\<close>

text \<open>The steps of \<^verbatim>\<open>clone\<close> in each class are the function \<open>clone\<close>, if a record has no name twice.\<close>

theorem clone_steps:
  assumes "distinct (map fst fs)"
  shows "clone cmp lib (TAny vs) = map_option TAny (Any_clone cmp (clone cmp lib) [] vs)
    \<and> clone cmp lib (TList c g) = ListType_doClone (clone cmp lib) c g
    \<and> clone cmp lib (TPath cs) = Path_clone (clone cmp lib) cs
    \<and> clone cmp lib (TRecord fs) = Record_clone (clone cmp lib) fs
    \<and> clone cmp lib (TGraphRef ns es) = Some (Graph_doClone ns es)
    \<and> clone cmp lib (TTableRef (Some fs)) = Table_clone (clone cmp lib) (Some fs)
    \<and> clone cmp lib (TFunction n as r) = Function_doClone (clone cmp lib) n as r"
proof -
  have r: "Record_doClone (clone cmp lib) [] fs
      = those (map (\<lambda>f. map_option (Pair (fst f)) (clone cmp lib (snd f))) fs)"
    using Record_doClone_those [of "[]" fs "clone cmp lib"] assms by (simp add: append_Nil_option)
  have p: "Path_doClone (clone cmp lib) [] xs = those (map (clone cmp lib) xs)" for xs
    using Path_doClone_those [of "clone cmp lib" "[]" xs] by (simp add: append_Nil_option)
  show ?thesis
    by (cases r) (auto simp: Any_clone_those ListType_doClone_def Path_clone_def p r Record_clone_def Graph_doClone_def
        Table_clone_def Table_new_def Function_doClone_def option.map_comp comp_def split: option.split)
qed

theorem clone_steps_witness:
  "Record_clone (clone (\<lambda>_ _. 0) Some) [(''a'', TAny [TBool]), (''b'', TDate :: unit ValueType)]
     = Some (TRecord [(''a'', TAny [TBool]), (''b'', TDate)])"
  using clone_steps [of "[(''a'', TAny [TBool]), (''b'', TDate :: unit ValueType)]" "\<lambda>_ _. 0" Some]
  by (simp add: ValueTypeSet_emplace_def)

text \<open>A record that is made from pairs, or from names and types, gives each name the first type of it; there is no name
  twice, and the number of names and of types has to be the same.\<close>

theorem record_fields:
  "map_of (Record_of_pairs [] flds) = map_of flds
   \<and> distinct (Record_fieldNames (Record_of_pairs [] flds))
   \<and> Record_new_lists names types =
       (if length names = length types then Some (Record_new (zip names types)) else None)"
  using Record_of_pairs_map [of "[]" flds] Record_of_pairs_distinct [of "[]" flds]
    Record_of_lists_pairs [of names types "[]" 0]
  by (simp add: Record_fieldNames_def Record_new_lists_def Record_new_def)

text \<open>Texts: every type outside the functions has one, a scalar type that of its kind, and the text of nested lists
  determines how deep they are nested around a scalar.\<close>

lemma list_kind_text: "kind_enum2String kList = Some ''LIST''"
  by code_simp

lemma list_text: "type_toString lib (TList c g) = map_option (bracketed ''LIST'') (type_toString lib c)"
  by (simp add: base_toString_def list_kind_text split: option.split)

theorem nested_list_text:
  "type_toString lib (((\<lambda>c. TList c g) ^^ n) t) = map_option (bracketed ''LIST'' ^^ n) (type_toString lib t)"
  by (induction n) (simp_all only: funpow.simps comp_def list_text option.map_comp option.map_ident id_def)

end
