(* ===== verification/MemConcurrent.thy ===== *)
theory MemConcurrent
  imports MemTracker
begin

text \<open>
  The trackers of \<^verbatim>\<open>src/include/nebula/common/memory/MemoryTracker.h\<close> under concurrency. An operator's tracker
  belongs to one thread; the counters of its query and of the global tracker are shared. A call of the
  operator is a program whose steps are the accesses to shared counters, each one atomic operation of
  \<^verbatim>\<open>MemoryTracker.h\<close> or \<^verbatim>\<open>MemoryUsage.h\<close>; what a thread does with its own data belongs to the step before. The steps of all
  operators of all queries, creations, destructions and \<^verbatim>\<open>setHardLimit\<close> interleave in any order. Any operator can
  release any size, so that memory moves between operators, as \<^verbatim>\<open>MemoryUsage.h\<close> has it. A step is only defined where the sum it
  computes fits in \<^verbatim>\<open>int64_t\<close>: beyond that the code has undefined behaviour (\<open>None\<close>).
\<close>

section \<open>Programs of the calls\<close>

definition fits64 :: "int \<Rightarrow> bool" where
  "fits64 x \<longleftrightarrow> - (2 ^ 63) \<le> x \<and> x < 2 ^ 63"

text \<open>What follows after memory was given back to the query: the loop of \<^verbatim>\<open>release(size)\<close>, or the rest of the destructor.\<close>

datatype after = FreeSize int | DtorReservation | DtorAmount

text \<open>Where a thread is: \<open>sz\<close> is the size of the call, \<open>n\<close> what it takes from or gives to the query, \<open>k\<close> what the query takes from the global
  tracker, \<open>rel\<close> what it gives back, \<open>v\<close> a \<^verbatim>\<open>newAmount\<close>. \<open>Idle\<close> is between calls, \<open>Gone\<close> after the destructor.\<close>

datatype pc =
    Idle
  | QAdd int int | QCheck int int int | QUndo int | QLoad int int
  | GAdd int int int | GCheck int int int int | GUndo int int | RAdd int int int | RTake int int
  | RReturn int after | GReturn int int after | RSub int int after | QFree int after
  | Gone

definition op_loop :: "int \<Rightarrow> oper \<Rightarrow> oper \<times> pc" where
  "op_loop sz opr =
     (if maxReserveBytes Operator < o_reservation opr then (opr, RReturn (maxReserveBytes Operator) (FreeSize sz))
      else (opr\<lparr>o_usage := op_free sz (o_usage opr)\<rparr>, Idle))"

definition dtor_amount :: "oper \<Rightarrow> oper \<times> pc" where
  "dtor_amount opr =
     (if op_amount (o_usage opr) \<noteq> 0 then (opr, RReturn (op_amount (o_usage opr)) DtorAmount) else (opr, Gone))"

definition dtor :: "oper \<Rightarrow> oper \<times> pc" where
  "dtor opr = (if o_reservation opr \<noteq> 0 then (opr, RReturn (o_reservation opr) DtorReservation) else dtor_amount opr)"

text \<open>A field of a destroyed operator that has been given back is set to zero, which nothing can read.\<close>

fun resume :: "after \<Rightarrow> oper \<Rightarrow> oper \<times> pc" where
  "resume (FreeSize sz) opr = op_loop sz (opr\<lparr>o_reservation := o_reservation opr - maxReserveBytes Operator\<rparr>)"
| "resume DtorReservation opr = dtor_amount (opr\<lparr>o_reservation := 0\<rparr>)"
| "resume DtorAmount opr = (opr\<lparr>o_usage := (o_usage opr)\<lparr>op_amount := 0\<rparr>\<rparr>, Gone)"

datatype tracker_call = Acquire int | Release int | Destroy

fun begin_call :: "tracker_call \<Rightarrow> oper \<Rightarrow> oper \<times> pc" where
  "begin_call (Acquire sz) opr = (let willBe = o_reservation opr - sz in
     if willBe < 0
     then (opr, QAdd sz (get_from_parent (maxReserveBytes Operator) willBe (maxReserveBytes Operator)))
     else (opr\<lparr>o_reservation := willBe, o_usage := op_alloc sz (o_usage opr)\<rparr>, Idle))"
| "begin_call (Release sz) opr = op_loop sz (opr\<lparr>o_reservation := o_reservation opr + sz\<rparr>)"
| "begin_call Destroy opr = dtor opr"

definition add_amount :: "int \<Rightarrow> usage \<Rightarrow> usage" where
  "add_amount n u = u\<lparr>amount := amount u + n\<rparr>"

definition raise_peak :: "int \<Rightarrow> usage \<Rightarrow> usage" where
  "raise_peak v u = u\<lparr>peak := if v > peak u then v else peak u\<rparr>"

text \<open>One shared access of the thread and what it does until the next one.\<close>

fun advance :: "oper \<Rightarrow> pc \<Rightarrow> query \<Rightarrow> usage \<Rightarrow> (oper \<times> pc \<times> query \<times> usage) option" where
  "advance opr Idle q g = None"
| "advance opr (QAdd sz n) q g = (let v = amount (q_usage q) + n in
     if fits64 v then Some (opr, QCheck sz n v, q\<lparr>q_usage := add_amount n (q_usage q)\<rparr>, g) else None)"
| "advance opr (QCheck sz n v) q g =
     (if v > hardLimit (q_usage q) then Some (opr, QUndo n, q, g)
      else Some (opr, QLoad sz n, q\<lparr>q_usage := raise_peak v (q_usage q)\<rparr>, g))"
| "advance opr (QUndo n) q g = (if fits64 (amount (q_usage q) - n)
     then Some (opr, Idle, q\<lparr>q_usage := add_amount (- n) (q_usage q)\<rparr>, g) else None)"
| "advance opr (QLoad sz n) q g = (let willReserve = q_reservation q - n in
     if \<not> fits64 willReserve then None
     else if willReserve < 0
     then Some (opr, GAdd sz n (get_from_parent (maxReserveBytes Query) willReserve (maxReserveBytes Query)), q, g)
     else Some (opr, RTake sz n, q, g))"
| "advance opr (GAdd sz n k) q g = (let v = amount g + k in
     if fits64 v then Some (opr, GCheck sz n k v, q, add_amount k g) else None)"
| "advance opr (GCheck sz n k v) q g =
     (if v > hardLimit g then Some (opr, GUndo n k, q, g) else Some (opr, RAdd sz n k, q, raise_peak v g))"
| "advance opr (GUndo n k) q g = (if fits64 (amount g - k)
     then Some (opr, Idle, q, add_amount (- k) g) else None)"
| "advance opr (RAdd sz n k) q g = (if fits64 (q_reservation q + k)
     then Some (opr, RTake sz n, q\<lparr>q_reservation := q_reservation q + k\<rparr>, g) else None)"
| "advance opr (RTake sz n) q g = (if fits64 (q_reservation q - n)
     then Some (opr\<lparr>o_reservation := o_reservation opr - sz + n, o_usage := op_alloc sz (o_usage opr)\<rparr>, Idle,
       q\<lparr>q_reservation := q_reservation q - n\<rparr>, g) else None)"
| "advance opr (RReturn n a) q g = (let willReserve = q_reservation q + n;
       rel = release_parent (maxReserveBytes Query) willReserve 0 in
     if \<not> fits64 willReserve then None
     else Some (opr, if rel > 0 then GReturn n rel a else QFree n a, q\<lparr>q_reservation := willReserve\<rparr>, g))"
| "advance opr (GReturn n rel a) q g = (if fits64 (amount g - rel)
     then Some (opr, RSub n rel a, q, add_amount (- rel) g) else None)"
| "advance opr (RSub n rel a) q g = (if fits64 (q_reservation q - rel)
     then Some (opr, QFree n a, q\<lparr>q_reservation := q_reservation q - rel\<rparr>, g) else None)"
| "advance opr (QFree n a) q g = (if fits64 (amount (q_usage q) - n)
     then (case resume a opr of (opr, p) \<Rightarrow> Some (opr, p, q\<lparr>q_usage := add_amount (- n) (q_usage q)\<rparr>, g))
     else None)"
| "advance opr Gone q g = None"

section \<open>The system\<close>

type_synonym thread = "oper \<times> pc"

text \<open>\<open>q_max\<close> and \<open>g_max\<close> are the largest limits so far. The debts are what destructors added to a counter without a
  check: those of operators that had freed more than they allocated, to the query, and those of queries with a negative
  reservation, to the global tracker. These fields are read by the theorems only.\<close>

record query_node =
  the_query :: query
  threads :: "thread list"
  destroyed :: bool
  q_max :: int
  q_debt :: int

record memory =
  glob :: usage
  nodes :: "query_node list"
  g_max :: int
  g_debt :: int

fun debt_of :: "pc \<Rightarrow> int" where
  "debt_of (QFree n DtorAmount) = (if n < 0 then - n else 0)"
| "debt_of _ = 0"

datatype event =
    Begin nat nat tracker_call
  | Step nat nat
  | CreateQuery int int
  | CreateOp nat
  | DestroyQuery nat
  | SetQueryLimit nat int
  | SetGlobalLimit int

definition with_thread :: "nat \<Rightarrow> nat \<Rightarrow> memory \<Rightarrow> (query_node \<Rightarrow> thread \<Rightarrow> memory option) \<Rightarrow> memory option" where
  "with_thread j i m f = (if j < length (nodes m) \<and> \<not> destroyed (nodes m ! j) \<and> i < length (threads (nodes m ! j))
     then f (nodes m ! j) (threads (nodes m ! j) ! i) else None)"

definition set_node :: "nat \<Rightarrow> query_node \<Rightarrow> memory \<Rightarrow> memory" where
  "set_node j d m = m\<lparr>nodes := (nodes m)[j := d]\<rparr>"

fun call_ok :: "tracker_call \<Rightarrow> bool" where
  "call_ok (Acquire sz) \<longleftrightarrow> 0 \<le> sz"
| "call_ok (Release sz) \<longleftrightarrow> 0 \<le> sz"
| "call_ok Destroy \<longleftrightarrow> True"

fun happen :: "event \<Rightarrow> memory \<Rightarrow> memory option" where
  "happen (Begin j i c) m = with_thread j i m (\<lambda>d (opr, p).
     if p = Idle \<and> call_ok c then Some (set_node j (d\<lparr>threads := (threads d)[i := begin_call c opr]\<rparr>) m) else None)"
| "happen (Step j i) m = with_thread j i m (\<lambda>d (opr, p).
     case advance opr p (the_query d) (glob m) of None \<Rightarrow> None
     | Some (opr', p', q', g') \<Rightarrow> Some (set_node j (d\<lparr>the_query := q', threads := (threads d)[i := (opr', p')],
         q_debt := q_debt d + debt_of p\<rparr>) (m\<lparr>glob := g'\<rparr>)))"
| "happen (CreateQuery soft limit) m = (let q = new_query soft limit in
     Some (m\<lparr>nodes := nodes m @ [\<lparr>the_query = q, threads = [], destroyed = False,
        q_max = max 0 (hardLimit (q_usage q)), q_debt = 0\<rparr>]\<rparr>))"
| "happen (CreateOp j) m = (if j < length (nodes m) \<and> \<not> destroyed (nodes m ! j)
     then (let d = nodes m ! j in Some (set_node j (d\<lparr>threads := threads d @ [(new_op, Idle)]\<rparr>) m)) else None)"
| "happen (DestroyQuery j) m =
     (if j < length (nodes m) \<and> \<not> destroyed (nodes m ! j) \<and> list_all (\<lambda>t. snd t = Gone) (threads (nodes m ! j))
        \<and> fits64 (amount (glob m) - q_reservation (the_query (nodes m ! j)))
      then (let d = nodes m ! j; r = q_reservation (the_query d) in
        Some (set_node j (d\<lparr>the_query := (the_query d)\<lparr>q_reservation := 0\<rparr>, destroyed := True\<rparr>)
          (m\<lparr>glob := query_destroy (the_query d) (glob m), g_debt := g_debt m + (if r < 0 then - r else 0)\<rparr>)))
      else None)"
| "happen (SetQueryLimit j l) m = (if j < length (nodes m)
     then (let d = nodes m ! j; q = the_query d in
       Some (set_node j (d\<lparr>the_query := q\<lparr>q_usage := (q_usage q)\<lparr>hardLimit := l\<rparr>\<rparr>, q_max := max (q_max d) l\<rparr>) m))
     else None)"
| "happen (SetGlobalLimit l) m = Some (m\<lparr>glob := (glob m)\<lparr>hardLimit := l\<rparr>, g_max := max (g_max m) l\<rparr>)"

fun run_events :: "event list \<Rightarrow> memory \<Rightarrow> memory option" where
  "run_events [] m = Some m"
| "run_events (e # es) m = (case happen e m of None \<Rightarrow> None | Some m \<Rightarrow> run_events es m)"

definition memory_new :: "int \<Rightarrow> int \<Rightarrow> memory" where
  "memory_new soft limit = (let g = new_usage Global soft limit in
     \<lparr>glob = g, nodes = [], g_max = max 0 (hardLimit g), g_debt = 0\<rparr>)"

section \<open>What a thread accounts for\<close>

text \<open>What a release in progress is about to free no longer counts as in use.\<close>

fun freeing :: "pc \<Rightarrow> int" where
  "freeing (RReturn n (FreeSize sz)) = sz"
| "freeing (GReturn n rel (FreeSize sz)) = sz"
| "freeing (RSub n rel (FreeSize sz)) = sz"
| "freeing (QFree n (FreeSize sz)) = sz"
| "freeing _ = 0"

definition t_used :: "thread \<Rightarrow> int" where
  "t_used = (\<lambda>(opr, p). op_amount (o_usage opr) - freeing p)"

definition t_held :: "thread \<Rightarrow> int" where
  "t_held = (\<lambda>(opr, p). o_reservation opr + op_amount (o_usage opr) - freeing p)"

text \<open>What the thread has added to the counter of its query and does not hold yet: all of it, and the part that passes a limit \<open>m\<close>.\<close>

fun q_all :: "pc \<Rightarrow> int" where
  "q_all (QCheck sz n v) = n"
| "q_all (QUndo n) = n"
| "q_all (QLoad sz n) = n"
| "q_all (GAdd sz n k) = n"
| "q_all (GCheck sz n k v) = n"
| "q_all (GUndo n k) = n"
| "q_all (RAdd sz n k) = n"
| "q_all (RTake sz n) = n"
| "q_all _ = 0"

fun q_good :: "int \<Rightarrow> pc \<Rightarrow> int" where
  "q_good m (QCheck sz n v) = (if v \<le> m then n else 0)"
| "q_good m (QLoad sz n) = n"
| "q_good m (GAdd sz n k) = n"
| "q_good m (GCheck sz n k v) = n"
| "q_good m (RAdd sz n k) = n"
| "q_good m (RTake sz n) = n"
| "q_good m _ = 0"

text \<open>The same for the global counter; memory on its way back is neither with the query nor with the thread.\<close>

fun g_all :: "pc \<Rightarrow> int" where
  "g_all (GCheck sz n k v) = k"
| "g_all (GUndo n k) = k"
| "g_all (RAdd sz n k) = k"
| "g_all (GReturn n rel a) = - n"
| "g_all (RSub n rel a) = - n - rel"
| "g_all (QFree n a) = - n"
| "g_all _ = 0"

fun g_good :: "int \<Rightarrow> pc \<Rightarrow> int" where
  "g_good m (GCheck sz n k v) = (if v \<le> m then k else 0)"
| "g_good m (GUndo n k) = 0"
| "g_good m p = g_all p"

text \<open>What holds of a thread by itself.\<close>

fun after_ok :: "int \<Rightarrow> after \<Rightarrow> oper \<Rightarrow> bool" where
  "after_ok n (FreeSize sz) opr \<longleftrightarrow> n = maxReserveBytes Operator \<and> n < o_reservation opr"
| "after_ok n DtorReservation opr \<longleftrightarrow> n = o_reservation opr"
| "after_ok n DtorAmount opr \<longleftrightarrow> n = op_amount (o_usage opr) \<and> o_reservation opr = 0"

fun pc_ok :: "oper \<Rightarrow> pc \<Rightarrow> bool" where
  "pc_ok opr Idle \<longleftrightarrow> True"
| "pc_ok opr (QAdd sz n) \<longleftrightarrow> 0 \<le> n \<and> 0 \<le> o_reservation opr - sz + n"
| "pc_ok opr (QCheck sz n v) \<longleftrightarrow> 0 \<le> n \<and> 0 \<le> o_reservation opr - sz + n"
| "pc_ok opr (QUndo n) \<longleftrightarrow> 0 \<le> n"
| "pc_ok opr (QLoad sz n) \<longleftrightarrow> 0 \<le> n \<and> 0 \<le> o_reservation opr - sz + n"
| "pc_ok opr (GAdd sz n k) \<longleftrightarrow> 0 \<le> n \<and> 0 \<le> o_reservation opr - sz + n \<and> 0 \<le> k"
| "pc_ok opr (GCheck sz n k v) \<longleftrightarrow> 0 \<le> n \<and> 0 \<le> o_reservation opr - sz + n \<and> 0 \<le> k"
| "pc_ok opr (GUndo n k) \<longleftrightarrow> 0 \<le> n \<and> 0 \<le> k"
| "pc_ok opr (RAdd sz n k) \<longleftrightarrow> 0 \<le> n \<and> 0 \<le> o_reservation opr - sz + n \<and> 0 \<le> k"
| "pc_ok opr (RTake sz n) \<longleftrightarrow> 0 \<le> n \<and> 0 \<le> o_reservation opr - sz + n"
| "pc_ok opr (RReturn n a) \<longleftrightarrow> after_ok n a opr"
| "pc_ok opr (GReturn n rel a) \<longleftrightarrow> after_ok n a opr \<and> 0 \<le> rel"
| "pc_ok opr (RSub n rel a) \<longleftrightarrow> after_ok n a opr \<and> 0 \<le> rel"
| "pc_ok opr (QFree n a) \<longleftrightarrow> after_ok n a opr"
| "pc_ok opr Gone \<longleftrightarrow> o_reservation opr = 0 \<and> op_amount (o_usage opr) = 0"

definition thread_ok :: "thread \<Rightarrow> bool" where
  "thread_ok = (\<lambda>(opr, p). 0 \<le> o_reservation opr \<and> pc_ok opr p)"

lemma used_le_held: "thread_ok t \<Longrightarrow> t_used t \<le> t_held t"
  by (cases t) (simp add: thread_ok_def t_used_def t_held_def)

lemma good_le_all: "pc_ok opr p \<Longrightarrow> q_good m p \<le> q_all p" "pc_ok opr p \<Longrightarrow> g_good m p \<le> g_all p"
  by (cases p; simp)+

lemma op_counter_simps [simp]:
  "op_amount (op_alloc sz u) = op_amount u + sz" "op_amount (op_free sz u) = op_amount u - sz"
  by (simp_all add: op_alloc_def op_free_def Let_def)

lemma counter_simps [simp]:
  "amount (add_amount n u) = amount u + n" "hardLimit (add_amount n u) = hardLimit u"
  "amount (raise_peak v u) = amount u" "hardLimit (raise_peak v u) = hardLimit u"
  by (simp_all add: add_amount_def raise_peak_def)

lemma op_loop_ok:
  assumes "0 \<le> o_reservation opr" "op_loop sz opr = t"
  shows "thread_ok t \<and> t_held t = o_reservation opr + op_amount (o_usage opr) - sz
    \<and> q_all (snd t) = 0 \<and> q_good m (snd t) = 0 \<and> g_all (snd t) = 0 \<and> g_good m (snd t) = 0"
  using assms by (auto simp: op_loop_def thread_ok_def t_held_def split: if_splits)

lemma dtor_amount_ok:
  assumes "o_reservation opr = 0" "dtor_amount opr = t"
  shows "thread_ok t \<and> t_held t = op_amount (o_usage opr)
    \<and> q_all (snd t) = 0 \<and> q_good m (snd t) = 0 \<and> g_all (snd t) = 0 \<and> g_good m (snd t) = 0"
  using assms by (auto simp: dtor_amount_def thread_ok_def t_held_def split: if_splits)

lemma dtor_ok:
  assumes "0 \<le> o_reservation opr" "dtor opr = t"
  shows "thread_ok t \<and> t_held t = o_reservation opr + op_amount (o_usage opr)
    \<and> q_all (snd t) = 0 \<and> q_good m (snd t) = 0 \<and> g_all (snd t) = 0 \<and> g_good m (snd t) = 0"
proof (cases "o_reservation opr = 0")
  case True
  then show ?thesis using dtor_amount_ok [OF True, of t m] assms(2) by (simp add: dtor_def)
qed (use assms in \<open>auto simp: dtor_def thread_ok_def t_held_def\<close>)

lemma resume_ok:
  assumes "after_ok n a opr" "0 \<le> o_reservation opr" "resume a opr = t"
  shows "thread_ok t \<and> t_held t = t_held (opr, QFree n a) - n
    \<and> q_all (snd t) = 0 \<and> q_good m (snd t) = 0 \<and> g_all (snd t) = 0 \<and> g_good m (snd t) = 0"
proof (cases a)
  case (FreeSize sz)
  then show ?thesis
    using assms op_loop_ok [of "opr\<lparr>o_reservation := o_reservation opr - maxReserveBytes Operator\<rparr>" sz t m]
    by (auto simp: t_held_def)
next
  case DtorReservation
  then show ?thesis
    using assms dtor_amount_ok [of "opr\<lparr>o_reservation := 0\<rparr>" t m] by (auto simp: t_held_def)
next
  case DtorAmount
  then show ?thesis using assms by (auto simp: t_held_def thread_ok_def)
qed

lemma begin_call_ok:
  assumes "thread_ok (opr, Idle)" "call_ok c" "begin_call c opr = t"
  shows "thread_ok t \<and> t_held t = t_held (opr, Idle)
    \<and> q_all (snd t) = 0 \<and> q_good m (snd t) = 0 \<and> g_all (snd t) = 0 \<and> g_good m (snd t) = 0"
proof (cases c)
  case (Acquire sz)
  then show ?thesis
    using assms get_from_parent_bounds [of 4096 "o_reservation opr - sz" 4096]
    by (auto simp: thread_ok_def t_held_def Let_def split: if_splits)
next
  case (Release sz)
  then show ?thesis using assms op_loop_ok [of "opr\<lparr>o_reservation := o_reservation opr + sz\<rparr>" sz t m]
    by (auto simp: thread_ok_def t_held_def)
next
  case Destroy
  then show ?thesis using assms dtor_ok [of opr t m] by (simp add: thread_ok_def t_held_def)
qed

section \<open>What a step changes\<close>

text \<open>A step keeps the balance of a query and of the global tracker, and what passes the limits grows only by debts or within the
  limit \<open>m\<close>.\<close>

lemma advance_effect:
  assumes "advance opr p q g = Some (opr', p', q', g')" "thread_ok (opr, p)"
  shows "thread_ok (opr', p')"
    and "t_held (opr', p') + q_all p' - (t_held (opr, p) + q_all p) \<le> amount (q_usage q') - amount (q_usage q)"
    and "hardLimit (q_usage q) \<le> m \<Longrightarrow> t_held (opr', p') + q_good m p' \<le> t_held (opr, p) + q_good m p + debt_of p
      \<or> amount (q_usage q') \<le> m"
    and "q_reservation q' + t_held (opr', p') + g_all p' - (q_reservation q + t_held (opr, p) + g_all p) = amount g' - amount g"
    and "hardLimit g \<le> m \<Longrightarrow> q_reservation q' + t_held (opr', p') + g_good m p' \<le> q_reservation q + t_held (opr, p) + g_good m p
      \<or> amount g' \<le> m"
    and "hardLimit (q_usage q') = hardLimit (q_usage q)" "hardLimit g' = hardLimit g"
proof -
  have "thread_ok (opr', p')
    \<and> t_held (opr', p') + q_all p' - (t_held (opr, p) + q_all p) \<le> amount (q_usage q') - amount (q_usage q)
    \<and> (hardLimit (q_usage q) \<le> m \<longrightarrow> t_held (opr', p') + q_good m p' \<le> t_held (opr, p) + q_good m p + debt_of p
      \<or> amount (q_usage q') \<le> m)
    \<and> q_reservation q' + t_held (opr', p') + g_all p' - (q_reservation q + t_held (opr, p) + g_all p) = amount g' - amount g
    \<and> (hardLimit g \<le> m \<longrightarrow> q_reservation q' + t_held (opr', p') + g_good m p' \<le> q_reservation q + t_held (opr, p) + g_good m p
      \<or> amount g' \<le> m)
    \<and> hardLimit (q_usage q') = hardLimit (q_usage q) \<and> hardLimit g' = hardLimit g"
  proof (cases p)
    case (QFree n a)
    obtain t where t: "resume a opr = t" by blast
    have "after_ok n a opr" "0 \<le> o_reservation opr" using assms(2) QFree by (simp_all add: thread_ok_def)
    note r = resume_ok [OF this t, of m]
    have "debt_of p = (case a of DtorAmount \<Rightarrow> (if n < 0 then - n else 0) | _ \<Rightarrow> 0)" by (cases a) (simp_all add: QFree)
    moreover have "0 \<le> n" if "a \<noteq> DtorAmount" using that \<open>after_ok n a opr\<close> \<open>0 \<le> o_reservation opr\<close> by (cases a) auto
    ultimately show ?thesis using assms(1) QFree r t by (auto split: if_splits prod.splits after.splits)
  next
    case (RReturn n a)
    then show ?thesis using assms by (cases a) (auto simp: thread_ok_def t_held_def Let_def split: if_splits)
  next
    case (GReturn n rel a)
    then show ?thesis using assms by (cases a) (auto simp: thread_ok_def t_held_def Let_def split: if_splits)
  next
    case (RSub n rel a)
    then show ?thesis using assms by (cases a) (auto simp: thread_ok_def t_held_def Let_def split: if_splits)
  next
    case (QLoad sz n)
    then show ?thesis using assms get_from_parent_bounds [of 65536 "q_reservation q - n" 65536]
      by (auto simp: thread_ok_def t_held_def Let_def split: if_splits)
  qed (use assms in \<open>auto simp: thread_ok_def t_held_def Let_def split: if_splits\<close>)
  then show "thread_ok (opr', p')"
    "t_held (opr', p') + q_all p' - (t_held (opr, p) + q_all p) \<le> amount (q_usage q') - amount (q_usage q)"
    "hardLimit (q_usage q) \<le> m \<Longrightarrow> t_held (opr', p') + q_good m p' \<le> t_held (opr, p) + q_good m p + debt_of p
      \<or> amount (q_usage q') \<le> m"
    "q_reservation q' + t_held (opr', p') + g_all p' - (q_reservation q + t_held (opr, p) + g_all p) = amount g' - amount g"
    "hardLimit g \<le> m \<Longrightarrow> q_reservation q' + t_held (opr', p') + g_good m p' \<le> q_reservation q + t_held (opr, p) + g_good m p
      \<or> amount g' \<le> m"
    "hardLimit (q_usage q') = hardLimit (q_usage q)" "hardLimit g' = hardLimit g"
    by blast+
qed

section \<open>The invariant\<close>

definition q_full :: "query_node \<Rightarrow> int" where
  "q_full d = sum_list (map (\<lambda>t. t_held t + q_all (snd t)) (threads d))"

definition q_base :: "int \<Rightarrow> query_node \<Rightarrow> int" where
  "q_base m d = sum_list (map (\<lambda>t. t_held t + q_good m (snd t)) (threads d))"

definition g_full :: "query_node \<Rightarrow> int" where
  "g_full d = q_reservation (the_query d) + sum_list (map (\<lambda>t. t_held t + g_all (snd t)) (threads d))"

definition g_base :: "int \<Rightarrow> query_node \<Rightarrow> int" where
  "g_base m d = q_reservation (the_query d) + sum_list (map (\<lambda>t. t_held t + g_good m (snd t)) (threads d))"

definition node_inv :: "query_node \<Rightarrow> bool" where
  "node_inv d \<longleftrightarrow> list_all thread_ok (threads d) \<and> q_full d \<le> amount (q_usage (the_query d))
     \<and> (\<forall>m \<ge> q_max d. q_base m d \<le> m + q_debt d) \<and> hardLimit (q_usage (the_query d)) \<le> q_max d \<and> 0 \<le> q_debt d
     \<and> (destroyed d \<longrightarrow> list_all (\<lambda>t. snd t = Gone) (threads d) \<and> q_reservation (the_query d) = 0)"

definition memory_inv :: "memory \<Rightarrow> bool" where
  "memory_inv m \<longleftrightarrow> list_all node_inv (nodes m) \<and> amount (glob m) = sum_list (map g_full (nodes m))
     \<and> (\<forall>l \<ge> g_max m. sum_list (map (g_base l) (nodes m)) \<le> l + g_debt m)
     \<and> hardLimit (glob m) \<le> g_max m \<and> 0 \<le> g_debt m"

lemma sum_list_replace: "i < length xs \<Longrightarrow> sum_list (xs[i := x]) = sum_list xs - xs ! i + x" for x :: int
proof (induction xs arbitrary: i)
  case (Cons y ys)
  then show ?case by (cases i) auto
qed simp

lemma sum_map_replace:
  "i < length xs \<Longrightarrow> sum_list (map f (xs[i := x])) = sum_list (map f xs) - f (xs ! i) + f x" for f :: "'a \<Rightarrow> int"
  by (simp add: map_update sum_list_replace)

lemma list_all_update: "list_all P xs \<Longrightarrow> P x \<Longrightarrow> list_all P (xs[i := x])"
  by (auto simp: list_all_iff dest: set_update_subset_insert [THEN subsetD])

lemma list_all_nth: "list_all P xs \<Longrightarrow> i < length xs \<Longrightarrow> P (xs ! i)"
  by (simp add: list_all_length)

lemma base_le_full:
  "list_all thread_ok (threads d) \<Longrightarrow> q_base m d \<le> q_full d"
  "list_all thread_ok (threads d) \<Longrightarrow> g_base m d \<le> g_full d"
  unfolding q_base_def q_full_def g_base_def g_full_def
  by (auto simp: list_all_iff thread_ok_def good_le_all intro!: sum_list_mono add_mono)

lemma bases_le_fulls:
  "list_all node_inv ds \<Longrightarrow> sum_list (map (g_base m) ds) \<le> sum_list (map g_full ds)"
  by (auto simp: list_all_iff node_inv_def base_le_full intro!: sum_list_mono)

text \<open>Replacing one query keeps the invariant of the memory when the global counter changes as the balance of the query does.\<close>

lemma memory_inv_replace:
  assumes "memory_inv m" "j < length (nodes m)" "node_inv d'" "hardLimit g' = hardLimit (glob m)"
    and "amount g' - amount (glob m) = g_full d' - g_full (nodes m ! j)" "g_debt m \<le> e"
    and "\<And>l. g_max m \<le> l \<Longrightarrow> g_base l d' - g_base l (nodes m ! j) \<le> e - g_debt m \<or> amount g' \<le> l"
  shows "memory_inv (set_node j d' (m\<lparr>glob := g', g_debt := e\<rparr>))"
proof -
  let ?ds = "(nodes m)[j := d']"
  have inv: "list_all node_inv ?ds" using assms(1,3) by (simp add: memory_inv_def list_all_update)
  have full: "amount g' = sum_list (map g_full ?ds)"
    using assms(1,5) sum_map_replace [OF assms(2), of g_full d'] by (simp add: memory_inv_def)
  have "sum_list (map (g_base l) ?ds) \<le> l + e" if l: "g_max m \<le> l" for l
    using assms(7) [OF l]
  proof
    assume "g_base l d' - g_base l (nodes m ! j) \<le> e - g_debt m"
    moreover have "sum_list (map (g_base l) (nodes m)) \<le> l + g_debt m" using assms(1) l by (simp add: memory_inv_def)
    ultimately show ?thesis using sum_map_replace [OF assms(2), of "g_base l" d'] by linarith
  next
    assume "amount g' \<le> l"
    then show ?thesis using bases_le_fulls [OF inv, of l] full assms(1,6) by (simp add: memory_inv_def)
  qed
  then show ?thesis using inv full assms(1,4,6) by (simp add: memory_inv_def set_node_def)
qed

lemma memory_inv_same:
  assumes "memory_inv m" "j < length (nodes m)" "node_inv d'" "g_full d' = g_full (nodes m ! j)"
    and "\<And>l. g_base l d' = g_base l (nodes m ! j)"
  shows "memory_inv (set_node j d' m)"
  using memory_inv_replace [OF assms(1-3), of "glob m" "g_debt m"] assms(4,5) by simp

lemma memory_inv_node:
  "memory_inv m \<Longrightarrow> j < length (nodes m) \<Longrightarrow> node_inv (nodes m ! j)"
  by (simp add: memory_inv_def list_all_nth)

text \<open>Replacing one thread of a query.\<close>

lemma thread_sums:
  assumes "i < length (threads d)" "threads d' = (threads d)[i := t]"
  shows "q_full d' = q_full d - (t_held (threads d ! i) + q_all (snd (threads d ! i))) + (t_held t + q_all (snd t))"
    "q_base m d' = q_base m d - (t_held (threads d ! i) + q_good m (snd (threads d ! i))) + (t_held t + q_good m (snd t))"
    "g_full d' = g_full d - q_reservation (the_query d) - (t_held (threads d ! i) + g_all (snd (threads d ! i)))
      + q_reservation (the_query d') + (t_held t + g_all (snd t))"
    "g_base m d' = g_base m d - q_reservation (the_query d) - (t_held (threads d ! i) + g_good m (snd (threads d ! i)))
      + q_reservation (the_query d') + (t_held t + g_good m (snd t))"
  unfolding q_full_def q_base_def g_full_def g_base_def assms(2) by (simp_all add: sum_map_replace [OF assms(1)])

lemma begin_inv:
  assumes "memory_inv m" "happen (Begin j i c) m = Some m'"
  shows "memory_inv m'"
proof -
  obtain opr where j: "j < length (nodes m)" "\<not> destroyed (nodes m ! j)" "i < length (threads (nodes m ! j))"
    and t: "threads (nodes m ! j) ! i = (opr, Idle)" "call_ok c"
    and m': "m' = set_node j ((nodes m ! j)\<lparr>threads := (threads (nodes m ! j))[i := begin_call c opr]\<rparr>) m"
    using assms(2) by (auto simp: with_thread_def split: if_splits prod.splits)
  let ?d = "nodes m ! j" and ?t = "begin_call c opr"
  let ?d' = "?d\<lparr>threads := (threads ?d)[i := ?t]\<rparr>"
  have inv: "node_inv ?d" by (rule memory_inv_node [OF assms(1) j(1)])
  then have "thread_ok (opr, Idle)" using list_all_nth [of thread_ok "threads ?d" i] j(3) t(1) by (simp add: node_inv_def)
  note b = begin_call_ok [OF this t(2) refl]
  note s = thread_sums [OF j(3), of ?d' ?t]
  have same: "q_full ?d' = q_full ?d" "\<And>l. q_base l ?d' = q_base l ?d" "g_full ?d' = g_full ?d" "\<And>l. g_base l ?d' = g_base l ?d"
    using s b t(1) by simp_all
  have "node_inv ?d'" using inv same b j(2) by (simp add: node_inv_def list_all_update)
  then show ?thesis unfolding m' by (intro memory_inv_same [OF assms(1) j(1)]) (simp_all add: same)
qed

lemma step_inv:
  assumes "memory_inv m" "happen (Step j i) m = Some m'"
  shows "memory_inv m'"
proof -
  obtain opr p opr' p' q' g' where j: "j < length (nodes m)" "\<not> destroyed (nodes m ! j)" "i < length (threads (nodes m ! j))"
    and t: "threads (nodes m ! j) ! i = (opr, p)" "advance opr p (the_query (nodes m ! j)) (glob m) = Some (opr', p', q', g')"
    and m': "m' = set_node j ((nodes m ! j)\<lparr>the_query := q', threads := (threads (nodes m ! j))[i := (opr', p')],
         q_debt := q_debt (nodes m ! j) + debt_of p\<rparr>) (m\<lparr>glob := g'\<rparr>)"
    using assms(2) by (auto simp: with_thread_def split: if_splits prod.splits option.splits)
  let ?d = "nodes m ! j"
  let ?d' = "?d\<lparr>the_query := q', threads := (threads ?d)[i := (opr', p')], q_debt := q_debt ?d + debt_of p\<rparr>"
  have inv: "node_inv ?d" by (rule memory_inv_node [OF assms(1) j(1)])
  then have ok: "thread_ok (opr, p)" using list_all_nth [of thread_ok "threads ?d" i] j(3) t(1) by (simp add: node_inv_def)
  note eff = advance_effect [OF t(2) ok]
  have s: "q_full ?d' = q_full ?d - (t_held (opr, p) + q_all p) + (t_held (opr', p') + q_all p')"
    "q_base l ?d' = q_base l ?d - (t_held (opr, p) + q_good l p) + (t_held (opr', p') + q_good l p')"
    "g_full ?d' = g_full ?d - q_reservation (the_query ?d) - (t_held (opr, p) + g_all p) + q_reservation q' + (t_held (opr', p') + g_all p')"
    "g_base l ?d' = g_base l ?d - q_reservation (the_query ?d) - (t_held (opr, p) + g_good l p) + q_reservation q' + (t_held (opr', p') + g_good l p')"
    for l using thread_sums [OF j(3), of ?d' "(opr', p')"] t(1) by simp_all
  have debt: "0 \<le> debt_of p" by (cases p rule: debt_of.cases) simp_all
  have ok': "list_all thread_ok (threads ?d')" using inv eff(1) by (simp add: node_inv_def list_all_update)
  have full: "q_full ?d' \<le> amount (q_usage q')" using inv s(1) eff(2) by (simp add: node_inv_def)
  have "q_base l ?d' \<le> l + (q_debt ?d + debt_of p)" if l: "q_max ?d \<le> l" for l
  proof -
    have "hardLimit (q_usage (the_query ?d)) \<le> l" "q_base l ?d \<le> l + q_debt ?d" "0 \<le> q_debt ?d"
      using inv l by (auto simp: node_inv_def)
    then show ?thesis using eff(3) [of l] s(2) [of l] base_le_full(1) [OF ok', of l] full debt by auto
  qed
  then have node: "node_inv ?d'" using inv ok' full eff(6) debt j(2) by (simp add: node_inv_def)
  have "memory_inv (set_node j ?d' (m\<lparr>glob := g', g_debt := g_debt m\<rparr>))"
  proof (rule memory_inv_replace [OF assms(1) j(1) node eff(7)])
    show "amount g' - amount (glob m) = g_full ?d' - g_full ?d" using s(3) eff(4) by simp
    show "g_base l ?d' - g_base l ?d \<le> g_debt m - g_debt m \<or> amount g' \<le> l" if "g_max m \<le> l" for l
    proof -
      have "hardLimit (glob m) \<le> l" using assms(1) that by (simp add: memory_inv_def)
      from eff(5) [OF this] show ?thesis using s(4) [of l] by auto
    qed
  qed simp
  then show ?thesis unfolding m' by simp
qed

lemma create_op_inv:
  assumes "memory_inv m" "happen (CreateOp j) m = Some m'"
  shows "memory_inv m'"
proof -
  let ?d = "nodes m ! j"
  let ?d' = "?d\<lparr>threads := threads ?d @ [(new_op, Idle)]\<rparr>"
  have j: "j < length (nodes m)" "\<not> destroyed ?d" and m': "m' = set_node j ?d' m"
    using assms(2) by (auto simp: Let_def split: if_splits)
  have z: "t_held (new_op, Idle) = 0" "thread_ok (new_op, Idle)"
    by (simp_all add: t_held_def thread_ok_def new_op_def op_usage_zero_def)
  then have same: "q_full ?d' = q_full ?d" "\<And>l. q_base l ?d' = q_base l ?d" "g_full ?d' = g_full ?d" "\<And>l. g_base l ?d' = g_base l ?d"
    by (simp_all add: q_full_def q_base_def g_full_def g_base_def)
  have "node_inv ?d'" using memory_inv_node [OF assms(1) j(1)] same z(2) j(2) by (simp add: node_inv_def)
  then show ?thesis unfolding m' by (intro memory_inv_same [OF assms(1) j(1)]) (simp_all add: same)
qed

lemma set_query_limit_inv:
  assumes "memory_inv m" "happen (SetQueryLimit j l) m = Some m'"
  shows "memory_inv m'"
proof -
  let ?d = "nodes m ! j"
  let ?q = "the_query ?d"
  let ?d' = "?d\<lparr>the_query := ?q\<lparr>q_usage := (q_usage ?q)\<lparr>hardLimit := l\<rparr>\<rparr>, q_max := max (q_max ?d) l\<rparr>"
  have j: "j < length (nodes m)" and m': "m' = set_node j ?d' m"
    using assms(2) by (auto simp: Let_def split: if_splits)
  have same: "q_full ?d' = q_full ?d" "\<And>l. q_base l ?d' = q_base l ?d" "g_full ?d' = g_full ?d" "\<And>l. g_base l ?d' = g_base l ?d"
    by (simp_all add: q_full_def q_base_def g_full_def g_base_def)
  have "node_inv ?d'" using memory_inv_node [OF assms(1) j] same by (simp add: node_inv_def)
  then show ?thesis unfolding m' by (intro memory_inv_same [OF assms(1) j]) (simp_all add: same)
qed

lemma destroyed_sums:
  assumes "list_all (\<lambda>t. snd t = Gone) ts" "list_all thread_ok ts"
  shows "sum_list (map (\<lambda>t. t_held t + g_all (snd t)) ts) = 0" "sum_list (map (\<lambda>t. t_held t + g_good l (snd t)) ts) = 0"
  using assms by (induction ts) (auto simp: thread_ok_def t_held_def)

lemma destroy_query_inv:
  assumes "memory_inv m" "happen (DestroyQuery j) m = Some m'"
  shows "memory_inv m'"
proof -
  let ?d = "nodes m ! j"
  let ?r = "q_reservation (the_query ?d)"
  let ?d' = "?d\<lparr>the_query := (the_query ?d)\<lparr>q_reservation := 0\<rparr>, destroyed := True\<rparr>"
  have j: "j < length (nodes m)" "list_all (\<lambda>t. snd t = Gone) (threads ?d)"
    and m': "m' = set_node j ?d' (m\<lparr>glob := query_destroy (the_query ?d) (glob m), g_debt := g_debt m + (if ?r < 0 then - ?r else 0)\<rparr>)"
    using assms(2) by (auto simp: Let_def split: if_splits)
  have inv: "node_inv ?d" by (rule memory_inv_node [OF assms(1) j(1)])
  then have ok: "list_all thread_ok (threads ?d)" by (simp add: node_inv_def)
  note z = destroyed_sums [OF j(2) ok]
  have same: "q_full ?d' = q_full ?d" "\<And>l. q_base l ?d' = q_base l ?d" by (simp_all add: q_full_def q_base_def)
  have g: "amount (query_destroy (the_query ?d) (glob m)) = amount (glob m) - ?r"
    "hardLimit (query_destroy (the_query ?d) (glob m)) = hardLimit (glob m)"
    by (auto simp: query_destroy_def global_release_def)
  show ?thesis unfolding m'
  proof (rule memory_inv_replace [OF assms(1) j(1) _ g(2)])
    show "node_inv ?d'" using inv same j(2) by (simp add: node_inv_def)
    show "amount (query_destroy (the_query ?d) (glob m)) - amount (glob m) = g_full ?d' - g_full ?d"
      using z g(1) by (simp add: g_full_def)
    show "g_base l ?d' - g_base l ?d \<le> g_debt m + (if ?r < 0 then - ?r else 0) - g_debt m
        \<or> amount (query_destroy (the_query ?d) (glob m)) \<le> l" for l
      using z by (simp add: g_base_def)
  qed simp
qed

lemma happen_inv: "memory_inv m \<Longrightarrow> happen e m = Some m' \<Longrightarrow> memory_inv m'"
proof (cases e)
  case (CreateQuery soft limit)
  assume "memory_inv m" "happen e m = Some m'"
  moreover have "node_inv \<lparr>the_query = new_query soft limit, threads = [], destroyed = False,
        q_max = max 0 (hardLimit (q_usage (new_query soft limit))), q_debt = 0\<rparr>"
    by (auto simp: node_inv_def q_full_def q_base_def new_query_def new_usage_def)
  ultimately show ?thesis using CreateQuery
    by (auto simp: memory_inv_def g_full_def g_base_def new_query_def Let_def)
next
  case (SetGlobalLimit l)
  assume "memory_inv m" "happen e m = Some m'"
  then show ?thesis using SetGlobalLimit by (auto simp: memory_inv_def)
qed (use begin_inv step_inv create_op_inv destroy_query_inv set_query_limit_inv in blast)+

lemma run_events_inv: "memory_inv m \<Longrightarrow> run_events es m = Some m' \<Longrightarrow> memory_inv m'"
  by (induction es arbitrary: m) (auto split: option.splits intro: happen_inv)

lemma memory_new_inv: "memory_inv (memory_new soft limit)"
  by (auto simp: memory_inv_def memory_new_def new_usage_def Let_def)

section \<open>Properties\<close>

definition node_used :: "query_node \<Rightarrow> int" where
  "node_used d = sum_list (map t_used (threads d))"

definition node_held :: "query_node \<Rightarrow> int" where
  "node_held d = sum_list (map t_held (threads d))"

text \<open>No operator is in a call.\<close>

definition quiet :: "memory \<Rightarrow> bool" where
  "quiet m \<longleftrightarrow> list_all (\<lambda>d. list_all (\<lambda>t. snd t = Idle \<or> snd t = Gone) (threads d)) (nodes m)"

lemma node_used_le: "node_inv d \<Longrightarrow> node_used d \<le> node_held d"
  unfolding node_used_def node_held_def
  by (rule sum_list_mono) (auto simp: node_inv_def list_all_iff used_le_held)

lemma node_held_le: "node_inv d \<Longrightarrow> node_held d \<le> q_base m d"
  unfolding node_held_def q_base_def
proof (rule sum_list_mono)
  fix t assume "node_inv d" "t \<in> set (threads d)"
  then have "pc_ok (fst t) (snd t)" by (cases t) (auto simp: node_inv_def list_all_iff thread_ok_def)
  then show "t_held t \<le> t_held t + q_good m (snd t)" by (cases "snd t") auto
qed

lemma quiet_sums:
  assumes "list_all (\<lambda>t. snd t = Idle \<or> snd t = Gone) (threads d)"
  shows "g_full d = q_reservation (the_query d) + node_held d" "g_base l d = q_reservation (the_query d) + node_held d"
proof -
  have "g_all (snd t) = 0 \<and> g_good l (snd t) = 0" if "t \<in> set (threads d)" for t
  proof -
    have "snd t = Idle \<or> snd t = Gone" using assms that by (simp add: list_all_iff)
    then show ?thesis by (elim disjE) simp_all
  qed
  then have "map (\<lambda>t. t_held t + g_all (snd t)) (threads d) = map t_held (threads d)"
    "map (\<lambda>t. t_held t + g_good l (snd t)) (threads d) = map t_held (threads d)" by (simp_all cong: map_cong)
  then show "g_full d = q_reservation (the_query d) + node_held d" "g_base l d = q_reservation (the_query d) + node_held d"
    by (simp_all only: g_full_def g_base_def node_held_def)
qed

text \<open>Claim C11. The limits under concurrency. Whatever operators of whatever queries acquire, release and move memory, and however the
  accesses to the shared counters interleave with each other, with refused requests, with creations and
  destructions, and with changes of the limits, as long as no size is negative and no counter leaves the range of
  \<^verbatim>\<open>int64_t\<close>: at any moment the memory in use by the operators of a query, with their
  reservations, is at most the largest hard limit that the query had, plus what destroyed operators had freed beyond what
  they had allocated, which the destructor adds without a check. And whenever no operator is in a call, the global
  counter is exactly the reservations of the queries and what the operators hold, and that is at most the largest global limit, plus
  the negative reservations of destroyed queries.\<close>

theorem memory_limits:
  assumes "run_events es (memory_new soft limit) = Some m"
  shows "list_all (\<lambda>d. node_used d \<le> node_held d \<and> node_held d \<le> q_max d + q_debt d) (nodes m)
    \<and> (quiet m \<longrightarrow> amount (glob m) = sum_list (map (\<lambda>d. q_reservation (the_query d) + node_held d) (nodes m))
        \<and> sum_list (map (\<lambda>d. q_reservation (the_query d) + node_held d) (nodes m)) \<le> g_max m + g_debt m)"
proof -
  have inv: "memory_inv m" by (rule run_events_inv [OF memory_new_inv assms])
  have "node_used d \<le> node_held d \<and> node_held d \<le> q_max d + q_debt d" if "node_inv d" for d
  proof -
    have "q_base (q_max d) d \<le> q_max d + q_debt d" using that by (simp add: node_inv_def)
    then show ?thesis using node_used_le [OF that] node_held_le [OF that, of "q_max d"] by simp
  qed
  then have "list_all (\<lambda>d. node_used d \<le> node_held d \<and> node_held d \<le> q_max d + q_debt d) (nodes m)"
    using inv by (auto simp: memory_inv_def list_all_iff)
  moreover have "amount (glob m) = sum_list (map (\<lambda>d. q_reservation (the_query d) + node_held d) (nodes m))
        \<and> sum_list (map (\<lambda>d. q_reservation (the_query d) + node_held d) (nodes m)) \<le> g_max m + g_debt m" if "quiet m"
  proof -
    have "sum_list (map g_full (nodes m)) = sum_list (map (\<lambda>d. q_reservation (the_query d) + node_held d) (nodes m))"
      "sum_list (map (g_base (g_max m)) (nodes m)) = sum_list (map (\<lambda>d. q_reservation (the_query d) + node_held d) (nodes m))"
      using that quiet_sums by (auto simp: quiet_def list_all_iff intro!: arg_cong [where f = sum_list])
    moreover have "sum_list (map (g_base (g_max m)) (nodes m)) \<le> g_max m + g_debt m"
      "amount (glob m) = sum_list (map g_full (nodes m))" using inv by (simp_all add: memory_inv_def)
    ultimately show ?thesis by simp
  qed
  ultimately show ?thesis by blast
qed

text \<open>Two operators of one query whose calls interleave: both find the reservation large enough, and both take from it.\<close>

definition race_events :: "event list" where
  "race_events = [CreateQuery 0 UNLIMITED, CreateOp 0, CreateOp 0, Begin 0 0 (Acquire 100)] @ replicate 7 (Step 0 0)
     @ [Begin 0 0 (Acquire 57000), Begin 0 1 (Acquire 57000), Step 0 0, Step 0 1, Step 0 0, Step 0 1, Step 0 0, Step 0 1,
        Step 0 0, Step 0 1]"

theorem memory_limits_witness:
  "\<exists>m. run_events race_events (memory_new 0 65536) = Some m \<and> quiet m \<and> amount (glob m) = 65536
    \<and> sum_list (map (\<lambda>d. q_reservation (the_query d) + node_held d) (nodes m)) \<le> g_max m + g_debt m
    \<and> g_max m = 65536 \<and> g_debt m = 0"
proof -
  have "case run_events race_events (memory_new 0 65536) of None \<Rightarrow> False | Some m \<Rightarrow> quiet m \<and> amount (glob m) = 65536
      \<and> g_max m = 65536 \<and> g_debt m = 0" by code_simp
  then obtain m where m: "run_events race_events (memory_new 0 65536) = Some m" "quiet m" "amount (glob m) = 65536"
    "g_max m = 65536" "g_debt m = 0" by (auto split: option.splits)
  show ?thesis using memory_limits [OF m(1)] m by blast
qed

text \<open>But a reservation that two calls read before either takes from it becomes negative, and then the operators use
  more than the global limit, although no limit changed and nothing was moved: here 114100 bytes under
  a limit of 65536.\<close>

theorem limit_race:
  "case run_events race_events (memory_new 0 65536) of None \<Rightarrow> False
   | Some m \<Rightarrow> quiet m \<and> hardLimit (glob m) = 65536 \<and> map node_used (nodes m) = [114100]
      \<and> map (\<lambda>d. q_reservation (the_query d)) (nodes m) = [- 49152]"
  by code_simp

text \<open>An operator that freed a block of another one raises the counter of the query when it is destroyed, without a
  check: here above the hard limit of the query.\<close>

definition moved_events :: "event list" where
  "moved_events = [CreateQuery 0 0, CreateOp 0, CreateOp 0, CreateOp 0, Begin 0 0 (Acquire 30000)] @ replicate 7 (Step 0 0)
     @ [Begin 0 1 (Release 30000)] @ replicate 14 (Step 0 1) @ [Begin 0 2 (Acquire 60000)] @ replicate 4 (Step 0 2)
     @ [Begin 0 1 Destroy] @ replicate 4 (Step 0 1)"

theorem moved_memory_unchecked:
  "case run_events moved_events (memory_new 0 1000000) of None \<Rightarrow> False
   | Some m \<Rightarrow> map (\<lambda>d. hardLimit (q_usage (the_query d))) (nodes m) = [65536]
      \<and> map (\<lambda>d. amount (q_usage (the_query d))) (nodes m) = [94208] \<and> map q_debt (nodes m) = [30000]"
  by code_simp

text \<open>A call of a thread that no other thread interrupts is the call of \<open>MemTracker\<close>.\<close>

fun alone :: "nat \<Rightarrow> oper \<times> pc \<times> query \<times> usage \<Rightarrow> oper \<times> pc \<times> query \<times> usage" where
  "alone 0 s = s"
| "alone (Suc k) (opr, p, q, g) = (case advance opr p q g of None \<Rightarrow> (opr, p, q, g) | Some s \<Rightarrow> alone k s)"

theorem acquire_alone:
  assumes "begin_call (Acquire sz) opr = (opr0, p0)" "alone 8 (opr0, p0, q, g) = (opr', Idle, q', g')"
  shows "\<exists>ok. op_acquire sz (opr, q, g) = (ok, opr', q', g')"
  using assms
  by (auto simp: op_acquire_def query_acquire_def usage_alloc_def global_acquire_def Let_def eval_nat_numeral add_amount_def
      raise_peak_def split: if_splits)

end
