(* ===== verification/Spec2Isabelle.thy ===== *)
theory Spec2Isabelle
  imports TopoCorrect TopoFacts CasOps Wire EdgeMap MemAllocator ErrorCodes ModuleRef ThreadPool
    NetAddr TypeKinds Hashing StrView MemberCodec BindingTables ErrorMessages Results
    AuditLog ContainerCodec ValueOps ObjectTypes RpcList LogSampling
    Plugins Responses Guards Views TypeShapes MemConcurrent
begin

text \<open>
  Verification of the network topology plugin and of the parts of the graph database's headers that
  it is built on.

  \<^bold>\<open>The program.\<close> \<^verbatim>\<open>src/src/yj\<close> is a procedure plugin: \<^verbatim>\<open>YJProcedurePlugin.cpp\<close> registers the procedure
  \<^verbatim>\<open>network_topo\<close>, and \<^verbatim>\<open>NetworkTopoProcedure.cpp\<close> computes the topology of a power network: it reads
  switch positions, carries topology ids through closed switches until nothing changes, and then
  builds topology nodes, branches (\<^verbatim>\<open>topo_connect\<close>) and component edges. The algorithm derives from
  \<^verbatim>\<open>src/include/nebula/computing/ComputingAlgorithm.h\<close>, which gives each vertex a state with atomic
  updates and runs graph operators on the fork and join layer of \<^verbatim>\<open>ComputingEngine.h\<close>. Values, rows,
  nodes and edges come from \<^verbatim>\<open>src/include/nebula/common/datatype\<close>, their wire format from
  \<^verbatim>\<open>common/nrpc/BufferReaderWriter.h\<close>, errors from \<^verbatim>\<open>common/base\<close>, memory accounting from
  \<^verbatim>\<open>common/memory\<close>, modules and threads from \<^verbatim>\<open>common/module\<close> and \<^verbatim>\<open>common/thread\<close>. The implementation
  of the database itself is a binary library: what is only declared in a header is a parameter here.

  \<^bold>\<open>The theories.\<close>

  \<^item> \<open>Prelude\<close>: integer types of the sources, the collections of simplification rules, lemmas on words
    and options, the locale \<open>comparison\<close> (what a pair of \<^verbatim>\<open>operator<\<close> and \<^verbatim>\<open>operator==\<close> owes to the
    standard containers).
  \<^item> \<open>Double\<close>: binary64 arithmetic on bit patterns, round to nearest even; the \<^verbatim>\<open>double\<close> of the sources.
  \<^item> \<open>EdgeIdent\<close>: \<^verbatim>\<open>EdgeUtils.h\<close>, \<^verbatim>\<open>EdgeID.h\<close>, \<^verbatim>\<open>Utils.h\<close>: direction bits of edge types, identity, order
    and hash of edges, packed node ids, key increment. The locale \<open>hashed_key\<close> is what a hash table
    needs of its keys, \<open>packed_field\<close> what a bit field promises.
  \<^item> \<open>TimeTypes\<close>: \<^verbatim>\<open>Date.h\<close>, \<^verbatim>\<open>Time.h\<close>, \<^verbatim>\<open>Datetime.h\<close>, \<^verbatim>\<open>Duration.h\<close> and the zoned variants, with their bit
    fields; each order is an instance of \<open>comparison\<close>.
  \<^item> \<open>Values\<close>: \<^verbatim>\<open>ValueTypeKind.h\<close>, \<^verbatim>\<open>Value.h\<close>, \<^verbatim>\<open>Ref.h\<close>, \<^verbatim>\<open>Node.h\<close>, \<^verbatim>\<open>Edge.h\<close>, \<^verbatim>\<open>Row.h\<close>, \<^verbatim>\<open>ResultTable.h\<close>.
  \<^item> \<open>TopoModel\<close>, \<open>TopoStages\<close>, \<open>TopoEdges\<close>, \<open>TopoComp\<close>, \<open>NetworkTopo\<close>: \<^verbatim>\<open>NetworkTopoProcedure.cpp\<close> in
    the order of the source. \<open>NetworkTopoState\<close> is the state of a vertex, \<open>alg\<close> the members of
    \<^verbatim>\<open>NetworkTopoAlgorithm\<close> with the requests it sends to the storage; there is one definition per
    lambda and one per stage, and \<open>run\<close> composes them as \<^verbatim>\<open>run()\<close> does. \<open>networkTopoProcedure\<close> and
    \<open>YJProcedurePlugin\<close> are the procedure with its guards and the plugin.
  \<^item> \<open>TopoLaws\<close>, \<open>TopoRun\<close>: the locales \<open>frame_invariant\<close>, \<open>id_invariant\<close> and \<open>run_invariant\<close> (which updates a predicate on
    the state has to survive for each group of stages, and for the whole run, to keep it) and their interpretations. \<open>TopoExample\<close>: small networks.
  \<^item> \<open>TopoIds\<close>: what a completed run computes: the reported ids, the inserted nodes and edges in closed form.
  \<^item> \<open>Propagation\<close>: the propagation loop, its rounds and examples. \<open>Clusters\<close>: its specification, the highest id of
    the connection nodes that closed switches join, proved in the locale \<open>propagation_rounds\<close> of what the loop needs of a
    round. \<open>PropagationRace\<close>: the same loop with a thread for each switch and every access a step (the data race that the
    source names), a second interpretation of the locale; when the loop ends and when it does not. \<open>TopoCorrect\<close>: the run
    before the loop in closed form, and the specification of the whole run. \<open>TopoFacts\<close>: single stages, \<^verbatim>\<open>writeDouble\<close>, the procedure.
  \<^item> \<open>CasOps\<close>: \<^verbatim>\<open>write\<close>, \<^verbatim>\<open>writeAdd\<close>, \<^verbatim>\<open>writeMax\<close> as a step relation of any number of threads.
  \<^item> \<open>Engine\<close>: \<^verbatim>\<open>ComputingEngine.h\<close>: splitting a range, \<^verbatim>\<open>parallelFor\<close>, \<^verbatim>\<open>parallelFilter\<close>,
    \<^verbatim>\<open>parallelReduce\<close>.
  \<^item> \<open>EdgeMap\<close>: \<^verbatim>\<open>VertexSubset.h\<close> (locale \<open>vertex_set\<close>), \<^verbatim>\<open>edgeMap\<close> on the sparse and the dense path,
    \<^verbatim>\<open>vertexMap\<close>.
  \<^item> \<open>Codec\<close>, \<open>Wire\<close>: \<^verbatim>\<open>BufferReaderWriter.h\<close> and the readers and writers of the data types. The locale
    \<open>codec\<close> says that a reader inverts a writer, takes exactly the encoded size and refuses a cut
    buffer; every type is an interpretation, and the containers are codecs over codecs.
  \<^item> \<open>ErrorTable\<close>, \<open>ErrorCodes\<close>: \<^verbatim>\<open>ErrorCode.h\<close> (all enumerators, packing, categories) and \<^verbatim>\<open>Status.h\<close>.
    \<open>ErrorMessageTable\<close>, \<open>ErrorMessages\<close>: the message templates of \<^verbatim>\<open>ErrorMessage.h\<close> and the statuses made of
    them. \<open>Results\<close>: \<^verbatim>\<open>Error\<close>, \<^verbatim>\<open>StatusOr\<close>, \<^verbatim>\<open>Result\<close> and the macros that pass failures on.
  \<^item> \<open>Format\<close>: templates with placeholders, filled in order. \<open>AuditLog\<close>: \<^verbatim>\<open>AuditMessage.h\<close> and \<^verbatim>\<open>AuditPlugin.h\<close>:
    event types, the mask of an auditor, the records of all events and the log.
  \<^item> \<open>BindingTables\<close>: \<^verbatim>\<open>BindingTableCommon.h\<close>: linked chunks on a heap, which refine a list, bit sets and
    descriptors with their codecs.
  \<^item> \<open>TypeKinds\<close>: the type traits of \<^verbatim>\<open>ValueTypeKind.h\<close> and the macros that select them. \<open>ValueTypes\<close>: the
    class hierarchy of \<^verbatim>\<open>valuetype/ValueType.h\<close> as a datatype, with its virtual operations. \<open>TypeShapes\<close>: its constructors, accessors, texts and the steps of
    \<^verbatim>\<open>clone\<close>, class by class.
  \<^item> \<open>RowTypes\<close>: \<^verbatim>\<open>FieldType.h\<close>, \<^verbatim>\<open>RowType.h\<close>: columns, lookup and merge. \<open>StrView\<close>: \<^verbatim>\<open>StringView\<close> of
    \<^verbatim>\<open>String.h\<close> with its inlined bytes; its comparisons refine those of byte strings.
  \<^item> \<open>MemberCodec\<close>: \<^verbatim>\<open>FoldWrapper\<close> and the macros of \<^verbatim>\<open>CommonDefine.h\<close> that generate codecs from members (locale
    \<open>member_class\<close>), with \<^verbatim>\<open>HostAddress\<close>, \<^verbatim>\<open>FieldType\<close>, \<^verbatim>\<open>RowType\<close> and pointers to value types.
    \<open>ContainerCodec\<close>: tuples, pointers, sizes that depend on traits, and the statistics of \<^verbatim>\<open>MemoryUsage.h\<close>.
    \<open>ObjectTypes\<close>: \<^verbatim>\<open>valuetype/ObjectType.h\<close>, the types of nodes and edges and their codec.
  \<^item> \<open>ValueOps\<close>: accessors and numeric casts of \<^verbatim>\<open>Value.h\<close>, \<^verbatim>\<open>List.h\<close>, \<^verbatim>\<open>Path.h\<close>, \<^verbatim>\<open>Record.h\<close> and lookups by
    name in nodes and edges.
  \<^item> \<open>Hashing\<close>: hashes of containers and records, hash keys, placing keys in buckets.
  \<^item> \<open>KVCodec\<close>: \<^verbatim>\<open>KVEncodeDecode.h\<close>, the big endian keys and values of the store; \<open>NetAddr\<close>:
    \<^verbatim>\<open>HostAddress\<close> and \<^verbatim>\<open>Address\<close> with their orders, hashes and texts. They reuse the locales \<open>codec\<close>,
    \<open>comparison\<close> and \<open>hashed_key\<close>.
  \<^item> \<open>MemTracker\<close>, \<open>MemAllocator\<close>: the calls of the memory trackers one at a time, and the allocator. \<open>MemConcurrent\<close>: the
    tree of trackers with any number of threads, each access to a shared counter a step.
  \<^item> \<open>RpcList\<close>: the intrusive list and the contexts of \<^verbatim>\<open>common/nrpc\<close>, on a heap of nodes. \<open>LogSampling\<close>: which messages
    the macros of \<^verbatim>\<open>Logging.h\<close> write.
  \<^item> \<open>Plugins\<close>: \<^verbatim>\<open>plugins\<close>: the life cycle of plugins, the registries of procedures and functions (locale \<open>registry\<close>),
    the hook of \<^verbatim>\<open>REGISTER_PLUGIN\<close>. \<open>Responses\<close>: \<^verbatim>\<open>common/response\<close> and both exception classes. \<open>Guards\<close>:
    \<^verbatim>\<open>MemoryTrackerGuard\<close> and \<^verbatim>\<open>NamedThread::Nominator\<close> (locale \<open>scoped_guard\<close>: nested scopes put the old value back) and
    \<^verbatim>\<open>StlAllocator.h\<close>. \<open>Views\<close>: \<^verbatim>\<open>VectorTypeDefs.h\<close>, with scalars as eight bytes, \<^verbatim>\<open>NodeView.h\<close> and \<^verbatim>\<open>EdgeView.h\<close>.
  \<^item> \<open>ModuleRef\<close>: reference counting by \<^verbatim>\<open>Holder\<close>. \<open>ThreadPool\<close>: distribution of tasks, timer ids.

  \<^bold>\<open>How the code is modelled.\<close> Integers are words of their width. Counters of the memory trackers are
  mathematical integers: \<open>MemConcurrent\<close> has no step where a sum leaves the range of \<^verbatim>\<open>int64_t\<close>, the allocator converts
  sizes from \<^verbatim>\<open>size_t\<close> as the code does and its theorems bound sizes and counters, and the overflow of a limit is
  written out. A failed \<^verbatim>\<open>CHECK\<close> or \<^verbatim>\<open>DCHECK\<close>, a wrong
  variant access and undefined behaviour are \<open>None\<close>; returned errors are left injections. State is
  passed explicitly. Parallel operators process vertices one after another in the order that the parameter \<open>g_sched\<close>
  gives; theorems hold for every order that processes exactly the subset. The maps of the algorithm write shared state
  with atomic updates whose results do not depend on the order, but for the propagation of ids, which \<open>PropagationRace\<close>
  therefore also has access by access. Callbacks of \<^verbatim>\<open>edgeMap\<close> have no effects on one another. Code outside the
  repository is a parameter: the graph (record \<open>graph\<close>, contract \<open>subset_contract\<close>), the value codec
  in \<open>Wire\<close>, the hash combination, the neighbours of \<open>EdgeMap\<close>, whether \<^verbatim>\<open>malloc\<close> succeeds.

  \<^bold>\<open>Fuel.\<close> The only loop that may not end is the propagation of topology ids. \<open>propagate\<close> has fuel, and
  running out of it is told apart from a failed check or an undefined sum; the loop with threads is given a schedule for
  each round instead. Both are about networks in which the closed switches beside the connection nodes of the start set
  have exactly those nodes as neighbours (\<open>switch_network\<close>). \<open>propagate_completes\<close> says that some schedules end the loop
  exactly when in each cluster the ids are zero or one number, and that fuel
  for two rounds more than there are connection nodes is then enough for the loop with the switches in sequence;
  \<open>clash_diverges\<close> that neither fuel nor schedules are enough for a
  network with a closed switch between two different positive ids, which is a defect of the code: the new id is a
  sum where a maximum is meant; \<open>race_overshoot\<close> that an interleaving can bring such a network about. Results about
  \<open>run\<close> are stated for runs that complete, with the switches of a round in sequence; \<open>run_blocked\<close> is about all schedules.

  \<^bold>\<open>What the theorems show.\<close> Of the algorithm: the reported id of equipment is the highest number in the cluster of
  its connection node, when the loop can end and when it cannot, that the data race does not change what a loop that ends has computed but can keep it from ending, the inserted nodes and
  edges as functions of the ids, paired branches with non-negative resistance and a positive rating, the shape of the
  result table, switch positions; and defects: lost measurements, truncated ids, a counter that is
  never written, a procedure that never computes. Of the computing layer: no lost update in any
  interleaving, parallel loops equal sequential ones up to a stated number of threads, \<^verbatim>\<open>edgeMap\<close>
  returns the targets that pass its filters, whatever the map and reduce functions, whose values it drops. Of the data types: edge identity, packing and wire round trips with
  their limits, casts of values, the order of keys, hashes that respect equality and those that do not, bijective
  bucket mixing, the order of supertypes, faithful clones. Of the services: what the memory limits guarantee under concurrency and where they fail, reference counts, round
  robin, unique timer ids for all interleaved calls of any pool, distinct error codes up to two collisions, texts of
  statuses, registries that keep the first entry of a name, guards that restore what they found, audit logs that hold exactly the events asked for but whose records can be forged.

  \<^bold>\<open>Not modelled.\<close> \<^verbatim>\<open>MemGraph.h\<close>, \<^verbatim>\<open>BitSet.h\<close> and most of \<^verbatim>\<open>VertexSubset.h\<close> are declarations of the binary
  library. The catalog that node and edge types are made from and the virtual operations without a body in
  \<^verbatim>\<open>ValueType.h\<close> and \<^verbatim>\<open>ObjectType.h\<close> are parameters. The tables that \<^verbatim>\<open>BindingTableCommon.h\<close> declares are storage
  of the binary library. Reading the categories of an auditor from the configuration file is compiled into
  the library, and so are the readers of vectors behind the views, the module manager and the reference catalog; what an
  authenticator checks is an interface. JSON output, but for the description of plugins, has no effect on results, and what a logging stream does with a message is the logging library.
\<close>

end
